(* ===== verification/Prelude.thy ===== *)
theory Prelude
  imports Complex_Main "HOL-Library.Multiset" "HOL-Library.Sublist" "HOL-Library.Char_ord" "HOL-Library.List_Lexorder"
begin

text \<open>
  The shared vocabulary of the development: the result type of fallible code, the values
  JavaScript code receives as \<open>unknown\<close>, the string operations the sources use, and the
  generic lemmas on lists the component theories rest on.

  Strings are HOL strings, one character per UTF-16 code unit, for code units below 256.
  On that range \<open>trim\<close>, \<open>toLowerCase\<close> and the character classes of the regular
  expressions below are the ones of ECMAScript, and \<open>length\<close> is JavaScript's \<open>length\<close>.
  A number is NaN, an infinity or a rational (every finite double is a rational); the sign
  of zero is not represented, which no source modelled here observes.
\<close>

named_theorems result_simps \<open>inversion of the result monad\<close>
named_theorems string_simps \<open>facts on splitting, joining and trimming strings\<close>

section \<open>Results\<close>

text \<open>
  A fallible operation returns \<open>Inl error\<close> or \<open>Inr value\<close>; \<open>bindE\<close> is the early
  return \<open>if (!x.ok) return x\<close> (and the propagation of an exception), \<open>foldE\<close> a loop
  that stops at the first failure.
\<close>

definition bindE :: "'e + 'a \<Rightarrow> ('a \<Rightarrow> 'e + 'b) \<Rightarrow> 'e + 'b" where
  "bindE m f = (case m of Inl e \<Rightarrow> Inl e | Inr a \<Rightarrow> f a)"

definition guardE :: "'e \<Rightarrow> bool \<Rightarrow> 'e + unit" where
  "guardE e p = (if p then Inr () else Inl e)"

fun foldE :: "('s \<Rightarrow> 'a \<Rightarrow> 'e + 's) \<Rightarrow> 's \<Rightarrow> 'a list \<Rightarrow> 'e + 's" where
  "foldE f s [] = Inr s"
| "foldE f s (x # xs) = bindE (f s x) (\<lambda>s'. foldE f s' xs)"

fun mapE :: "('a \<Rightarrow> 'e + 'b) \<Rightarrow> 'a list \<Rightarrow> 'e + 'b list" where
  "mapE f [] = Inr []"
| "mapE f (x # xs) = bindE (f x) (\<lambda>y. bindE (mapE f xs) (\<lambda>ys. Inr (y # ys)))"

text \<open>A \<open>RangeError\<close>, carrying the name of the argument its message names.\<close>

datatype range_error = RangeError string

definition is_ok :: "'e + 'a \<Rightarrow> bool" where
  "is_ok m = (case m of Inl _ \<Rightarrow> False | Inr _ \<Rightarrow> True)"

section \<open>JavaScript values\<close>

datatype jsnum = NaN | PosInf | NegInf | Fin rat

datatype js =
    JUndefined
  | JNull
  | JBool bool
  | JNum jsnum
  | JStr string
  | JArr "js list"
  | JObj "(string \<times> js) list"

type_synonym js_record = "(string \<times> js) list"

definition max_safe_integer :: int where
  "max_safe_integer = 9007199254740991"

text \<open>\<open>Number.isSafeInteger\<close>, \<open>Number.isInteger\<close> and \<open>Number.isFinite\<close>.\<close>

fun isFinite :: "jsnum \<Rightarrow> bool" where
  "isFinite (Fin q) = True"
| "isFinite _ = False"

fun isInteger :: "jsnum \<Rightarrow> bool" where
  "isInteger (Fin q) = (of_int \<lfloor>q\<rfloor> = q)"
| "isInteger _ = False"

fun isSafeInteger :: "jsnum \<Rightarrow> bool" where
  "isSafeInteger (Fin q) = (of_int \<lfloor>q\<rfloor> = q \<and> \<bar>q\<bar> \<le> of_int max_safe_integer)"
| "isSafeInteger _ = False"

fun to_int :: "jsnum \<Rightarrow> int" where
  "to_int (Fin q) = \<lfloor>q\<rfloor>"
| "to_int _ = 0"

definition js_int :: "int \<Rightarrow> js" where
  "js_int k = JNum (Fin (of_int k))"

text \<open>
  Property access \<open>record[field]\<close> on an own property, \<open>Object.hasOwn\<close>, and the object
  spread \<open>{ ...a, ...b }\<close>, in which \<open>b\<close> wins. No field name the sources read is a property of
  \<open>Object.prototype\<close>.
\<close>

definition getf :: "js_record \<Rightarrow> string \<Rightarrow> js" where
  "getf r f = (case map_of r f of None \<Rightarrow> JUndefined | Some v \<Rightarrow> v)"

definition hasOwn :: "js_record \<Rightarrow> string \<Rightarrow> bool" where
  "hasOwn r f = (map_of r f \<noteq> None)"

definition spread :: "js_record \<Rightarrow> js_record \<Rightarrow> js_record" where
  "spread a b = b @ filter (\<lambda>(k, _). k \<notin> fst ` set b) a"

text \<open>\<open>typeof value === "object" && value !== null && !Array.isArray(value)\<close>.\<close>

fun isRecord :: "js \<Rightarrow> bool" where
  "isRecord (JObj r) = True"
| "isRecord _ = False"

fun asRecord :: "js \<Rightarrow> js_record option" where
  "asRecord (JObj r) = Some r"
| "asRecord _ = None"

fun as_string :: "js \<Rightarrow> string option" where
  "as_string (JStr s) = Some s"
| "as_string _ = None"

section \<open>Strings\<close>

definition code_unit :: "char \<Rightarrow> nat" where
  "code_unit c = of_char c"

text \<open>The white space of \<open>String.prototype.trim\<close> and of \<open>\\s\<close>, below 256.\<close>

definition is_space :: "char \<Rightarrow> bool" where
  "is_space c = (code_unit c \<in> {9, 10, 11, 12, 13, 32, 160})"

definition trim :: "string \<Rightarrow> string" where
  "trim s = rev (dropWhile is_space (rev (dropWhile is_space s)))"

definition is_blank :: "string \<Rightarrow> bool" where
  "is_blank s = list_all is_space s"

text \<open>
  A value read as the string the caller has checked it to be, and the check
  \<open>typeof value !== "string" || value.trim().length === 0\<close>.
\<close>

fun str_of :: "js \<Rightarrow> string" where
  "str_of (JStr s) = s"
| "str_of _ = []"

definition blank_or_absent :: "js \<Rightarrow> bool" where
  "blank_or_absent v = (case v of JStr s \<Rightarrow> length (trim s) = 0 | _ \<Rightarrow> True)"

definition lower_char :: "char \<Rightarrow> char" where
  "lower_char c =
     (let n = code_unit c in
      if (65 \<le> n \<and> n \<le> 90) \<or> (192 \<le> n \<and> n \<le> 222 \<and> n \<noteq> 215) then char_of (n + 32) else c)"

definition toLowerCase :: "string \<Rightarrow> string" where
  "toLowerCase s = map lower_char s"

definition is_digit :: "char \<Rightarrow> bool" where
  "is_digit c = (48 \<le> code_unit c \<and> code_unit c \<le> 57)"

definition is_lower :: "char \<Rightarrow> bool" where
  "is_lower c = (97 \<le> code_unit c \<and> code_unit c \<le> 122)"

definition is_upper :: "char \<Rightarrow> bool" where
  "is_upper c = (65 \<le> code_unit c \<and> code_unit c \<le> 90)"

text \<open>The class \<open>[a-z0-9]\<close>.\<close>

definition label_char :: "char \<Rightarrow> bool" where
  "label_char c = (is_lower c \<or> is_digit c)"

fun split_by :: "(char \<Rightarrow> bool) \<Rightarrow> string \<Rightarrow> string list" where
  "split_by p [] = [[]]"
| "split_by p (x # xs) =
     (if p x then [] # split_by p xs
      else (x # hd (split_by p xs)) # tl (split_by p xs))"

abbreviation split_on :: "char \<Rightarrow> string \<Rightarrow> string list" where
  "split_on c \<equiv> split_by (\<lambda>x. x = c)"

fun join :: "string \<Rightarrow> string list \<Rightarrow> string" where
  "join sep [] = []"
| "join sep [x] = x"
| "join sep (x # y # ys) = x @ sep @ join sep (y # ys)"

definition digit_char :: "nat \<Rightarrow> char" where
  "digit_char d = char_of (48 + d)"

definition digit_val :: "char \<Rightarrow> nat" where
  "digit_val c = code_unit c - 48"

text \<open>\<open>String(n)\<close> for a natural number, and \<open>Number(text)\<close> for a string of digits.\<close>

fun dec :: "nat \<Rightarrow> string" where
  "dec n = (if n < 10 then [digit_char n] else dec (n div 10) @ [digit_char (n mod 10)])"

declare dec.simps [simp del]

definition parse_dec :: "string \<Rightarrow> nat" where
  "parse_dec s = foldl (\<lambda>a c. 10 * a + digit_val c) 0 s"

section \<open>Lemmas on results\<close>

lemma bindE_Inl [simp]: "bindE (Inl e) f = Inl e"
  by (simp add: bindE_def)

lemma bindE_Inr [simp]: "bindE (Inr a) f = f a"
  by (simp add: bindE_def)

lemma bindE_eq_Inr [result_simps]: "bindE m f = Inr b \<longleftrightarrow> (\<exists>a. m = Inr a \<and> f a = Inr b)"
  by (cases m) auto

lemma bindE_eq_Inl [result_simps]:
  "bindE m f = Inl e \<longleftrightarrow> m = Inl e \<or> (\<exists>a. m = Inr a \<and> f a = Inl e)"
  by (cases m) auto

lemma guardE_eq_Inr [simp]: "guardE e p = Inr u \<longleftrightarrow> p"
  by (simp add: guardE_def)

lemma guardE_eq_Inl [simp]: "guardE e p = Inl x \<longleftrightarrow> \<not> p \<and> x = e"
  by (auto simp: guardE_def)

lemma bindE_right [simp]: "bindE m Inr = m"
  by (cases m) simp_all

lemma foldE_append: "foldE f s (xs @ ys) = bindE (foldE f s xs) (\<lambda>s'. foldE f s' ys)"
proof (induction xs arbitrary: s)
  case Nil
  show ?case by simp
next
  case (Cons x xs)
  then show ?case by (cases "f s x") auto
qed

lemma foldE_invariant:
  assumes "\<And>s x s'. x \<in> set xs \<Longrightarrow> P s \<Longrightarrow> f s x = Inr s' \<Longrightarrow> P s'"
    and "P s" and "foldE f s xs = Inr s'"
  shows "P s'"
  using assms
proof (induction xs arbitrary: s)
  case Nil
  then show ?case by simp
next
  case (Cons x xs)
  from Cons.prems(3) obtain t where t: "f s x = Inr t" "foldE f t xs = Inr s'"
    by (auto simp: result_simps)
  from Cons.prems(1) [of x s t] Cons.prems(2) t(1) have "P t" by simp
  moreover have "\<And>s x s'. x \<in> set xs \<Longrightarrow> P s \<Longrightarrow> f s x = Inr s' \<Longrightarrow> P s'"
    by (rule Cons.prems(1)) auto
  ultimately show ?case using Cons.IH t(2) by blast
qed

lemma mapE_eq_Inr:
  "mapE f xs = Inr ys \<longleftrightarrow> list_all2 (\<lambda>x y. f x = Inr y) xs ys"
proof (induction xs arbitrary: ys)
  case Nil
  then show ?case by auto
next
  case (Cons x xs)
  then show ?case by (cases ys) (auto simp: result_simps)
qed

lemma mapE_eq_Inl: "mapE f xs = Inl e \<Longrightarrow> \<exists>x \<in> set xs. f x = Inl e"
  by (induction xs) (auto simp: result_simps)

lemma mapE_Inr_map: "(\<And>x. x \<in> set xs \<Longrightarrow> f x = Inr (g x)) \<Longrightarrow> mapE f xs = Inr (map g xs)"
  by (induction xs) auto

section \<open>Lemmas on values\<close>

lemma isSafeInteger_of_int [simp]:
  "isSafeInteger (Fin (of_int k)) \<longleftrightarrow> \<bar>k\<bar> \<le> max_safe_integer"
proof -
  have "\<bar>of_int k :: rat\<bar> = of_int \<bar>k\<bar>" by simp
  then show ?thesis by (simp only: isSafeInteger.simps of_int_le_iff floor_of_int) simp
qed

lemma isSafeIntegerE:
  assumes "isSafeInteger q"
  obtains k where "q = Fin (of_int k)" and "\<bar>k\<bar> \<le> max_safe_integer" and "to_int q = k"
proof (cases q)
  case (Fin r)
  with assms obtain k where "r = of_int k" by auto
  with Fin assms that [of k] show ?thesis by simp
qed (use assms in auto)

lemma to_int_of_int [simp]: "to_int (Fin (of_int k)) = k"
  by simp

lemma getf_Cons [simp]: "getf ((k, v) # r) f = (if k = f then v else getf r f)"
  by (simp add: getf_def)

lemma getf_Nil [simp]: "getf [] f = JUndefined"
  by (simp add: getf_def)

lemma hasOwn_Cons [simp]: "hasOwn ((k, v) # r) f \<longleftrightarrow> k = f \<or> hasOwn r f"
  by (auto simp: hasOwn_def)

lemma hasOwn_Nil [simp]: "\<not> hasOwn [] f"
  by (simp add: hasOwn_def)

lemma getf_append: "getf (a @ b) f = (if hasOwn a f then getf a f else getf b f)"
  by (induction a) auto

lemma map_of_filter_keys:
  "map_of (filter (\<lambda>(k, _). k \<notin> K) a) f = (if f \<in> K then None else map_of a f)"
  by (induction a) auto

lemma map_of_spread:
  "map_of (spread a b) f = (case map_of b f of None \<Rightarrow> map_of a f | Some v \<Rightarrow> Some v)"
proof (cases "map_of b f")
  case None
  then have "f \<notin> fst ` set b" by (simp add: map_of_eq_None_iff)
  with None show ?thesis by (simp add: spread_def map_add_def map_of_filter_keys)
next
  case (Some v)
  then show ?thesis by (simp add: spread_def map_add_Some_iff)
qed

lemma getf_spread: "getf (spread a b) f = (if hasOwn b f then getf b f else getf a f)"
  by (auto simp: getf_def hasOwn_def map_of_spread split: option.splits)

lemma hasOwn_spread: "hasOwn (spread a b) f \<longleftrightarrow> hasOwn a f \<or> hasOwn b f"
  by (auto simp: hasOwn_def map_of_spread split: option.splits)

lemma asRecord_Some [simp]: "asRecord v = Some r \<longleftrightarrow> v = JObj r"
  by (cases v) auto

lemma isRecord_iff: "isRecord v \<longleftrightarrow> (\<exists>r. v = JObj r)"
  by (cases v) auto

section \<open>Lemmas on strings\<close>

lemma trim_eq_Nil [string_simps]: "trim s = [] \<longleftrightarrow> is_blank s"
proof -
  have "dropWhile is_space (rev (dropWhile is_space s)) = [] \<longleftrightarrow> list_all is_space s"
  proof (cases "dropWhile is_space s")
    case Nil
    then have "list_all is_space s" by (simp add: list_all_iff)
    then show ?thesis unfolding Nil by simp
  next
    case (Cons c t)
    then have "\<not> is_space c" using hd_dropWhile [of is_space s] by auto
    moreover have "c \<in> set s" using Cons by (metis list.set_intros(1) set_dropWhileD)
    ultimately show ?thesis using Cons by (auto simp: list_all_iff)
  qed
  then show ?thesis by (simp add: trim_def is_blank_def)
qed

lemma blank_or_absent_JStr: "\<not> blank_or_absent v \<longleftrightarrow> (\<exists>s. v = JStr s \<and> \<not> is_blank s)"
  by (auto simp: blank_or_absent_def trim_eq_Nil split: js.splits)

lemma set_dropWhile_subset: "set (dropWhile p xs) \<subseteq> set xs"
  by (auto dest: set_dropWhileD)

lemma set_trim: "set (trim s) \<subseteq> set s"
  using set_dropWhile_subset [of is_space "rev (dropWhile is_space s)"]
    set_dropWhile_subset [of is_space s]
  by (simp add: trim_def)

lemma dropWhile_idem_rev:
  assumes "dropWhile p xs = xs"
  shows "dropWhile p (rev (dropWhile p (rev xs))) = rev (dropWhile p (rev xs))"
proof (cases xs)
  case Nil
  then show ?thesis by simp
next
  case (Cons x t)
  with assms have x: "\<not> p x"
    using hd_dropWhile [of p xs] by (metis list.sel(1) list.distinct(1))
  have "dropWhile p (rev t @ [x]) = dropWhile p (rev t) @ [x]"
    using x by (induction "rev t" arbitrary: t) (auto simp: dropWhile_append3 dropWhile_append)
  with Cons x show ?thesis by simp
qed

lemma trim_trim [simp]: "trim (trim s) = trim s"
proof -
  let ?t = "dropWhile is_space s"
  have "dropWhile is_space ?t = ?t" by simp
  then have "dropWhile is_space (trim s) = trim s"
    unfolding trim_def by (rule dropWhile_idem_rev)
  then show ?thesis by (simp add: trim_def)
qed

lemma trim_no_space [simp]: "(\<And>c. c \<in> set s \<Longrightarrow> \<not> is_space c) \<Longrightarrow> trim s = s"
  unfolding trim_def
  by (metis dropWhile_eq_self_iff hd_in_set rev_rev_ident set_rev)

lemma split_by_neq_Nil [simp]: "split_by p s \<noteq> []"
  by (cases s) auto

text \<open>The equations to evaluate with: the rest is split once.\<close>

lemma split_by_code [code]:
  "split_by p [] = [[]]"
  "split_by p (x # xs) =
     (if p x then [] # split_by p xs
      else case split_by p xs of [] \<Rightarrow> [[x]] | y # ys \<Rightarrow> (x # y) # ys)"
  by (simp_all split: list.split)

lemma split_by_no_sep: "x \<in> set (split_by p s) \<Longrightarrow> c \<in> set x \<Longrightarrow> \<not> p c"
proof (induction s arbitrary: x c)
  case Nil
  then show ?case by simp
next
  case (Cons a s)
  show ?case
  proof (cases "p a")
    case True
    with Cons show ?thesis by auto
  next
    case False
    have hd: "hd (split_by p s) \<in> set (split_by p s)" by simp
    have tl: "y \<in> set (tl (split_by p s)) \<Longrightarrow> y \<in> set (split_by p s)" for y
      by (metis list.set_sel(2) split_by_neq_Nil)
    from Cons.prems False have "x = a # hd (split_by p s) \<or> x \<in> set (tl (split_by p s))" by auto
    then show ?thesis using Cons.IH [OF hd] Cons.IH [OF tl] Cons.prems(2) False by auto
  qed
qed

lemma split_by_chars: "x \<in> set (split_by p s) \<Longrightarrow> set x \<subseteq> set s"
proof (induction s arbitrary: x)
  case Nil
  then show ?case by simp
next
  case (Cons a s)
  have tl: "y \<in> set (tl (split_by p s)) \<Longrightarrow> y \<in> set (split_by p s)" for y
    by (metis list.set_sel(2) split_by_neq_Nil)
  from Cons.prems have "x = [] \<or> x \<in> set (split_by p s) \<or> x = a # hd (split_by p s)"
    using tl by (auto split: if_splits)
  then show ?case using Cons.IH [of x] Cons.IH [of "hd (split_by p s)"] by auto
qed

lemma split_by_none: "(\<And>c. c \<in> set s \<Longrightarrow> \<not> p c) \<Longrightarrow> split_by p s = [s]"
  by (induction s) auto

lemma split_by_append_sep:
  "p c \<Longrightarrow> split_by p (a @ c # b) = split_by p a @ split_by p b"
proof (induction a)
  case Nil
  then show ?case by simp
next
  case (Cons x a)
  then show ?case
    by (cases "split_by p a") auto
qed

lemma join_Cons: "xs \<noteq> [] \<Longrightarrow> join sep (x # xs) = x @ sep @ join sep xs"
  by (cases xs) auto

lemma join_append:
  "xs \<noteq> [] \<Longrightarrow> ys \<noteq> [] \<Longrightarrow> join sep (xs @ ys) = join sep xs @ sep @ join sep ys"
  by (induction xs rule: join.induct [where ?a0.0 = sep]) (auto simp: join_Cons)

lemma join_split_on: "join [c] (split_on c s) = s"
proof (induction s)
  case Nil
  then show ?case by simp
next
  case (Cons x s)
  obtain y ys where "split_on c s = y # ys" by (cases "split_on c s") auto
  with Cons show ?case by (cases ys) (auto simp: join_Cons)
qed

lemma split_join:
  "xs \<noteq> [] \<Longrightarrow> (\<And>x. x \<in> set xs \<Longrightarrow> c \<notin> set x) \<Longrightarrow> split_on c (join [c] xs) = xs"
proof (induction "[c]" xs rule: join.induct)
  case 1
  then show ?case by simp
next
  case (2 x)
  then show ?case by (auto intro: split_by_none)
next
  case (3 x y ys)
  then have "split_on c x = [x]" by (auto intro: split_by_none)
  with 3 show ?case by (simp add: split_by_append_sep)
qed

lemma append_sep_inj:
  "c \<notin> set a \<Longrightarrow> c \<notin> set b \<Longrightarrow> a @ c # x = b @ c # y \<longleftrightarrow> a = b \<and> x = y"
proof (induction a arbitrary: b)
  case Nil
  then show ?case by (cases b) auto
next
  case (Cons z a)
  then show ?case by (cases b) auto
qed

lemma set_join_subset: "set (join sep xs) \<subseteq> \<Union> (set ` set xs) \<union> set sep"
  by (induction sep xs rule: join.induct) auto

lemma code_unit_char_of [simp]: "n < 256 \<Longrightarrow> code_unit (char_of n) = n"
  by (simp add: code_unit_def of_char_of)

lemma code_unit_lt: "code_unit c < 256"
  by (simp add: code_unit_def)

lemma char_of_code_unit [simp]: "char_of (code_unit c) = c"
  by (simp add: code_unit_def)

lemma code_unit_inj [simp]: "code_unit c = code_unit d \<longleftrightarrow> c = d"
  by (simp add: code_unit_def)

lemma lower_char_fixed: "is_lower c \<or> is_digit c \<Longrightarrow> lower_char c = c"
  by (auto simp: lower_char_def is_lower_def is_digit_def Let_def)

lemma digit_val_char [simp]: "d < 10 \<Longrightarrow> digit_val (digit_char d) = d"
  by (simp add: digit_val_def digit_char_def)

lemma is_digit_char [simp]: "d < 10 \<Longrightarrow> is_digit (digit_char d)"
  by (simp add: is_digit_def digit_char_def)

lemma dec_neq_Nil [simp]: "dec n \<noteq> []"
  by (subst dec.simps) simp

lemma dec_digits: "c \<in> set (dec n) \<Longrightarrow> is_digit c"
proof (induction n rule: dec.induct)
  case (1 n)
  then show ?case by (subst (asm) dec.simps) (auto split: if_splits)
qed

lemma parse_dec_snoc: "parse_dec (s @ [c]) = 10 * parse_dec s + digit_val c"
  by (simp add: parse_dec_def)

lemma parse_dec_dec [simp]: "parse_dec (dec n) = n"
proof (induction n rule: dec.induct)
  case (1 n)
  show ?case
  proof (cases "n < 10")
    case True
    then show ?thesis by (subst dec.simps) (simp add: parse_dec_def)
  next
    case False
    with 1 show ?thesis by (subst dec.simps) (simp add: parse_dec_snoc)
  qed
qed

lemma dec_inj [simp]: "dec m = dec n \<longleftrightarrow> m = n"
  by (metis parse_dec_dec)

section \<open>Keyed lists\<close>

text \<open>
  The sources keep their collections as arrays of objects with an identity: they look an
  element up with \<open>find\<close>, and replace it with \<open>map\<close> when it exists or append it when
  it does not. \<open>upsert\<close> is that replacement; \<open>keyed_list\<close> is what its clients rely on.
\<close>

definition upsert :: "('a \<Rightarrow> 'k) \<Rightarrow> 'a \<Rightarrow> 'a list \<Rightarrow> 'a list" where
  "upsert key x xs =
     (if list_ex (\<lambda>y. key y = key x) xs
      then map (\<lambda>y. if key y = key x then x else y) xs
      else xs @ [x])"

lemma find_upsert [simp]:
  "find (\<lambda>y. key y = k) (upsert key x xs) =
     (if k = key x then Some x else find (\<lambda>y. key y = k) xs)"
proof -
  have map_case: "find (\<lambda>y. key y = k) (map (\<lambda>y. if key y = key x then x else y) xs) =
     (if k = key x then (if list_ex (\<lambda>y. key y = k) xs then Some x else None)
      else find (\<lambda>y. key y = k) xs)"
    by (induction xs) auto
  have snoc_case: "find (\<lambda>y. key y = k) (xs @ [x]) =
     (case find (\<lambda>y. key y = k) xs of None \<Rightarrow> if key x = k then Some x else None | Some y \<Rightarrow> Some y)"
    by (induction xs) auto
  have none: "\<not> list_ex (\<lambda>y. key y = k) xs \<longleftrightarrow> find (\<lambda>y. key y = k) xs = None"
    by (auto simp: find_None_iff list_ex_iff)
  show ?thesis
    using map_case snoc_case none by (auto simp: upsert_def split: option.splits)
qed

lemma upsert_upsert [simp]: "key x = key y \<Longrightarrow> upsert key x (upsert key y xs) = upsert key x xs"
proof -
  assume k: "key x = key y"
  let ?p = "\<lambda>z. key z = key y"
  have ex: "list_ex ?p (map (\<lambda>z. if ?p z then y else z) xs) = list_ex ?p xs"
    by (induction xs) auto
  have "map (\<lambda>z. if ?p z then x else z) (map (\<lambda>z. if ?p z then y else z) xs) =
      map (\<lambda>z. if ?p z then x else z) xs"
    by simp
  moreover have "map (\<lambda>z. if ?p z then x else z) xs = xs" if "\<not> list_ex ?p xs"
    using that by (induction xs) auto
  ultimately show ?thesis by (simp add: upsert_def k ex)
qed

lemma keys_upsert:
  "map key (upsert key x xs) =
     (if key x \<in> key ` set xs then map key xs else map key xs @ [key x])"
  by (auto simp: upsert_def list_ex_iff intro: rev_image_eqI dest: sym)

lemma distinct_upsert [simp]:
  "distinct (map key xs) \<Longrightarrow> distinct (map key (upsert key x xs))"
  by (simp add: keys_upsert)

lemma set_upsert:
  "distinct (map key xs) \<Longrightarrow>
   set (upsert key x xs) = insert x {y \<in> set xs. key y \<noteq> key x}"
  by (auto simp: upsert_def list_ex_iff)

lemma find_key_Some: "find (\<lambda>y. key y = k) xs = Some x \<Longrightarrow> x \<in> set xs \<and> key x = k"
  by (auto simp: find_Some_iff)

lemma find_key_distinct:
  "distinct (map key xs) \<Longrightarrow> x \<in> set xs \<Longrightarrow> find (\<lambda>y. key y = key x) xs = Some x"
proof (induction xs)
  case Nil
  then show ?case by simp
next
  case (Cons a xs)
  then show ?case by (auto simp: image_iff)
qed

end
