(* ===== verification/Run_State.thy ===== *)
theory Run_State
  imports Prelude
begin

text \<open>
  The run state machine (\<open>run-state.ts\<close>), the approval vocabulary (\<open>approvals.ts\<close>) and
  the rule for a reclaimed run (\<open>run-recovery.ts\<close>). The transition table is an executable
  function, its relation an inductive step relation over the table; the lemmas show which
  statuses are terminal, that a run never leaves one, and which statuses a run can reach.
\<close>

section \<open>Run status\<close>

datatype run_status = Queued | Running | Waiting_approval | Completed | Failed | Cancelled

definition RUN_STATUSES :: "run_status list" where
  "RUN_STATUSES = [Queued, Running, Waiting_approval, Completed, Failed, Cancelled]"

definition INITIAL_RUN_STATUS :: run_status where
  "INITIAL_RUN_STATUS = Queued"

fun RUN_TRANSITIONS :: "run_status \<Rightarrow> run_status list" where
  "RUN_TRANSITIONS Queued = [Running, Failed, Cancelled]"
| "RUN_TRANSITIONS Running = [Waiting_approval, Completed, Failed, Cancelled]"
| "RUN_TRANSITIONS Waiting_approval = [Running, Failed, Cancelled]"
| "RUN_TRANSITIONS Completed = []"
| "RUN_TRANSITIONS Failed = []"
| "RUN_TRANSITIONS Cancelled = []"

datatype illegal_transition = IllegalTransition run_status run_status

definition canTransition :: "run_status \<Rightarrow> run_status \<Rightarrow> bool" where
  "canTransition from to = (to \<in> set (RUN_TRANSITIONS from))"

definition transition :: "run_status \<Rightarrow> run_status \<Rightarrow> illegal_transition + run_status" where
  "transition from to =
     (if \<not> canTransition from to then Inl (IllegalTransition from to) else Inr to)"

text \<open>\<open>assertTransition\<close> throws the error the result carries: the same sum, as an exception.\<close>

definition assertTransition :: "run_status \<Rightarrow> run_status \<Rightarrow> illegal_transition + run_status" where
  "assertTransition from to =
     (case transition from to of Inl e \<Rightarrow> Inl e | Inr s \<Rightarrow> Inr s)"

definition isTerminalStatus :: "run_status \<Rightarrow> bool" where
  "isTerminalStatus s = (length (RUN_TRANSITIONS s) = 0)"

definition isActiveStatus :: "run_status \<Rightarrow> bool" where
  "isActiveStatus s = (\<not> isTerminalStatus s)"

fun status_name :: "run_status \<Rightarrow> string" where
  "status_name Queued = ''queued''"
| "status_name Running = ''running''"
| "status_name Waiting_approval = ''waiting_approval''"
| "status_name Completed = ''completed''"
| "status_name Failed = ''failed''"
| "status_name Cancelled = ''cancelled''"

definition isRunStatus :: "js \<Rightarrow> bool" where
  "isRunStatus v =
     (case v of JStr s \<Rightarrow> s \<in> set (map status_name RUN_STATUSES) | _ \<Rightarrow> False)"

definition ACTIVE_RUN_STATUSES :: "run_status list" where
  "ACTIVE_RUN_STATUSES = filter isActiveStatus RUN_STATUSES"

section \<open>Approvals\<close>

datatype approval_status = Pending | Approved | Denied | Timed_out

datatype approval_decision = DApproved | DDenied | DTimed_out

fun decision_status :: "approval_decision \<Rightarrow> approval_status" where
  "decision_status DApproved = Approved"
| "decision_status DDenied = Denied"
| "decision_status DTimed_out = Timed_out"

fun decision_name :: "approval_decision \<Rightarrow> string" where
  "decision_name DApproved = ''approved''"
| "decision_name DDenied = ''denied''"
| "decision_name DTimed_out = ''timed_out''"

definition APPROVAL_DECISIONS :: "approval_decision list" where
  "APPROVAL_DECISIONS = [DApproved, DDenied, DTimed_out]"

text \<open>\<open>isApprovalDecision\<close>, returning the decision the string names.\<close>

definition isApprovalDecision :: "js \<Rightarrow> approval_decision option" where
  "isApprovalDecision v =
     (case v of JStr s \<Rightarrow> find (\<lambda>d. decision_name d = s) APPROVAL_DECISIONS | _ \<Rightarrow> None)"

definition isPendingApproval :: "approval_status \<Rightarrow> bool" where
  "isPendingApproval s = (s = Pending)"

definition DEFAULT_APPROVAL_TIMEOUT_MS :: int where
  "DEFAULT_APPROVAL_TIMEOUT_MS = 10 * 60000"

section \<open>Reclaimed runs\<close>

datatype run_reclaim_failure = Checkpoint_absent | Checkpoint_unreadable

datatype reclaim_decision = Resume | Refuse_resume run_reclaim_failure

fun isResumableCheckpoint :: "js \<Rightarrow> bool" where
  "isResumableCheckpoint (JObj r) = (length (remdups (map fst r)) > 0)"
| "isResumableCheckpoint _ = False"

definition decideReclaim :: "js \<Rightarrow> reclaim_decision" where
  "decideReclaim v =
     (if isResumableCheckpoint v then Resume
      else if isRecord v then Refuse_resume Checkpoint_absent
      else Refuse_resume Checkpoint_unreadable)"

section \<open>Facts\<close>

inductive run_step :: "run_status \<Rightarrow> run_status \<Rightarrow> bool" where
  table: "to \<in> set (RUN_TRANSITIONS from) \<Longrightarrow> run_step from to"

inductive_simps run_step_from [simp]: "run_step from to"

lemmas run_status_defs =
  canTransition_def transition_def isTerminalStatus_def isActiveStatus_def
  INITIAL_RUN_STATUS_def

lemma run_step_iff: "run_step = canTransition"
  by (auto simp: fun_eq_iff canTransition_def)

lemma transition_Inr [simp]: "transition from to = Inr s \<longleftrightarrow> canTransition from to \<and> s = to"
  by (auto simp: transition_def)

lemma transition_Inl [simp]:
  "transition from to = Inl e \<longleftrightarrow> \<not> canTransition from to \<and> e = IllegalTransition from to"
  by (auto simp: transition_def)

lemma isTerminalStatus_iff: "isTerminalStatus s \<longleftrightarrow> s \<in> {Completed, Failed, Cancelled}"
  by (cases s) (auto simp: isTerminalStatus_def)

lemma terminal_no_step: "isTerminalStatus s \<Longrightarrow> \<not> canTransition s t"
  by (simp add: isTerminalStatus_def canTransition_def)

lemma terminal_stays:
  assumes "canTransition\<^sup>*\<^sup>* s t" and "isTerminalStatus s"
  shows "t = s"
  using assms by (induction rule: rtranclp_induct) (auto dest: terminal_no_step)

lemma never_back_to_queued: "canTransition\<^sup>*\<^sup>* s t \<Longrightarrow> t = Queued \<Longrightarrow> s = Queued"
proof (induction rule: rtranclp_induct)
  case base
  then show ?case .
next
  case (step t u)
  then show ?case by (cases t) (auto simp: canTransition_def)
qed

lemma isApprovalDecision_name [simp]: "isApprovalDecision (JStr (decision_name d)) = Some d"
  by (cases d) (auto simp: isApprovalDecision_def APPROVAL_DECISIONS_def)

lemma isApprovalDecision_SomeD: "isApprovalDecision v = Some d \<Longrightarrow> v = JStr (decision_name d)"
  by (auto simp: isApprovalDecision_def find_Some_iff split: js.splits)

lemma decision_status_not_pending [simp]: "decision_status d \<noteq> Pending"
  by (cases d) auto

lemma active_reaches_terminal:
  assumes "isActiveStatus s" and "isTerminalStatus t"
  shows "canTransition\<^sup>*\<^sup>* s t"
proof -
  have step: "canTransition s u \<Longrightarrow> canTransition u t \<Longrightarrow> ?thesis" for u
    by (meson converse_rtranclp_into_rtranclp r_into_rtranclp)
  show ?thesis
  proof (cases "canTransition s t")
    case True
    then show ?thesis by (rule r_into_rtranclp)
  next
    case False
    have "canTransition s Running \<and> canTransition Running t"
      using assms False by (cases s; cases t) (auto simp: run_status_defs)
    then show ?thesis using step by blast
  qed
qed

end
