(* ===== verification/Run_Events.thy ===== *)
theory Run_Events
  imports Run_State
begin

text \<open>
  The wire vocabulary of a run (\<open>run-events.ts\<close>): the events as a datatype with the
  source's constructors, the parser from an untrusted value field by field with its typed
  errors, and the reconstruction of an event from a stored row. The lemmas show that the
  parser returns only well-formed events, accepts every well-formed event's own object, and
  that a stored payload cannot move an event to another position, thread, run or type.
\<close>

named_theorems reader_simps \<open>when a field reader returns a value\<close>
named_theorems parser_defs \<open>the parsers, one per event type\<close>

section \<open>Events\<close>

record event_base =
  seq :: nat
  threadId :: string
  runId :: string

record tool_result_artifact =
  art_callId :: string
  art_bytes :: nat

datatype run_event =
    RunStarted (ev_base: event_base)
  | TokenDelta (ev_base: event_base) (ev_messageId: string) (ev_delta: string)
  | ToolRequested (ev_base: event_base) (ev_callId: string) (ev_tool: string) (ev_arguments: js)
  | ApprovalRequested (ev_base: event_base) (ev_callId: string) (ev_expiresAt: string)
  | ApprovalResolved (ev_base: event_base) (ev_callId: string)
      (ev_decision: approval_decision) (ev_reason: "string option")
  | ToolCompleted (ev_base: event_base) (ev_callId: string) (ev_result: js)
      (ev_artifact: "tool_result_artifact option") (ev_durationMs: "nat option")
  | ToolFailed (ev_base: event_base) (ev_callId: string) (ev_error: string)
      (ev_durationMs: "nat option")
  | RunCompleted (ev_base: event_base) (ev_closes: "string option")
  | RunFailed (ev_base: event_base) (ev_error: string) (ev_code: "string option")
  | RunCancelled (ev_base: event_base) (ev_reason: "string option")
  | RunSteered (ev_base: event_base) (ev_messageId: string) (ev_text: string)

text \<open>
  The error classes of \<open>run-events.ts\<close> and, below \<open>MalformedRunEvent\<close>, their subclasses
  declared in \<open>event-reducer.ts\<close>, each with the fields its constructor stores.
\<close>

datatype tool_call_conflict = TC_duplicate_request | TC_already_resolved | TC_awaiting_approval | TC_denied

datatype approval_conflict = AC_duplicate_request | AC_unknown_approval | AC_already_resolved

datatype message_conflict = MC_not_assistant | MC_already_exists

datatype run_event_error =
    UnknownSchemaVersion js
  | UnknownEventType js
  | MalformedRunEvent string js
  | ThreadMismatch string string
  | IllegalEventTransition run_status run_status
  | UnknownToolCall string
  | ToolCallConflict string tool_call_conflict
  | ApprovalConflict string approval_conflict
  | MessageConflict string message_conflict

type_synonym 'a field = "run_event_error + 'a"

definition RUN_EVENT_SCHEMA_VERSION :: js where
  "RUN_EVENT_SCHEMA_VERSION = js_int 1"

definition RUN_EVENT_TYPES :: "string list" where
  "RUN_EVENT_TYPES =
     [''run.started'', ''token.delta'', ''tool.requested'', ''approval.requested'',
      ''approval.resolved'', ''tool.completed'', ''tool.failed'', ''run.completed'',
      ''run.failed'', ''run.cancelled'', ''run.steered'']"

definition isRunEventType :: "js \<Rightarrow> bool" where
  "isRunEventType v = (case v of JStr s \<Rightarrow> s \<in> set RUN_EVENT_TYPES | _ \<Rightarrow> False)"

section \<open>Field readers\<close>

definition malformed :: "string \<Rightarrow> js \<Rightarrow> 'a field" where
  "malformed reason received = Inl (MalformedRunEvent reason received)"

definition requireString :: "js_record \<Rightarrow> string \<Rightarrow> bool \<Rightarrow> string field" where
  "requireString r f allowEmpty =
     (case as_string (getf r f) of
        Some s \<Rightarrow> if allowEmpty \<or> length s > 0 then Inr s
                  else malformed (f @ '' must be a non-empty string'') (getf r f)
      | None \<Rightarrow> malformed (f @ (if allowEmpty then '' must be a string''
                                else '' must be a non-empty string'')) (getf r f))"

definition optionalString :: "js_record \<Rightarrow> string \<Rightarrow> string option field" where
  "optionalString r f =
     (if getf r f = JUndefined then Inr None
      else bindE (requireString r f False) (\<lambda>s. Inr (Some s)))"

definition requireNonNegativeInteger :: "js_record \<Rightarrow> string \<Rightarrow> nat field" where
  "requireNonNegativeInteger r f =
     (case getf r f of
        JNum q \<Rightarrow> if \<not> isSafeInteger q \<or> to_int q < 0
                   then malformed (f @ '' must be a non-negative integer'') (JNum q)
                   else Inr (nat (to_int q))
      | v \<Rightarrow> malformed (f @ '' must be a non-negative integer'') v)"

definition optionalNonNegativeInteger :: "js_record \<Rightarrow> string \<Rightarrow> nat option field" where
  "optionalNonNegativeInteger r f =
     (if getf r f = JUndefined then Inr None
      else bindE (requireNonNegativeInteger r f) (\<lambda>n. Inr (Some n)))"

definition optionalResultArtifact :: "js_record \<Rightarrow> tool_result_artifact option field" where
  "optionalResultArtifact r =
     (let v = getf r ''resultArtifact'' in
      if v = JUndefined then Inr None
      else case asRecord v of
        None \<Rightarrow> malformed ''resultArtifact must be an object'' v
      | Some a \<Rightarrow>
          if getf a ''kind'' \<noteq> JStr ''tool_call''
          then malformed ''resultArtifact.kind must be \"tool_call\"'' (getf a ''kind'')
          else bindE (requireString a ''callId'' False) (\<lambda>callId.
               bindE (requireNonNegativeInteger a ''bytes'') (\<lambda>bytes.
               Inr (Some \<lparr>art_callId = callId, art_bytes = bytes\<rparr>))))"

definition requirePresent :: "js_record \<Rightarrow> string \<Rightarrow> js field" where
  "requirePresent r f =
     (if \<not> hasOwn r f then malformed (f @ '' must be present'') JUndefined else Inr (getf r f))"

definition parseBase :: "js_record \<Rightarrow> event_base field" where
  "parseBase r =
     (case getf r ''seq'' of
        JNum q \<Rightarrow>
          if \<not> isSafeInteger q \<or> to_int q < 1 then malformed ''seq must be a positive integer'' (JNum q)
          else bindE (requireString r ''threadId'' False) (\<lambda>t.
               bindE (requireString r ''runId'' False) (\<lambda>i.
               Inr \<lparr>seq = nat (to_int q), threadId = t, runId = i\<rparr>))
      | v \<Rightarrow> malformed ''seq must be a positive integer'' v)"

text \<open>
  The timestamp of a gate: the shape of the regular expression \<open>ISO_TIMESTAMP\<close>, and the
  ranges under which the engine's \<open>Date.parse\<close> returns a number for that shape: month 1 to
  12, day 1 to 31 (V8 does not look at the month's length), a time of day, or 24:00:00 with no
  milliseconds.
\<close>

definition matches_template :: "string \<Rightarrow> string \<Rightarrow> bool" where
  "matches_template tmpl s =
     list_all2 (\<lambda>p c. if p = CHR ''d'' then is_digit c else c = p) tmpl s"

definition ISO_TIMESTAMP :: "string \<Rightarrow> bool" where
  "ISO_TIMESTAMP s =
     (matches_template ''dddd-dd-ddTdd:dd:dd'' (take 19 s) \<and>
      (let rest = drop 19 s in
       rest = ''Z'' \<or>
       (length rest \<ge> 3 \<and> hd rest = CHR ''.'' \<and> last rest = CHR ''Z'' \<and>
        list_all is_digit (butlast (tl rest)))))"

definition field2 :: "nat \<Rightarrow> string \<Rightarrow> nat" where
  "field2 i s = parse_dec (take 2 (drop i s))"

definition dateParses :: "string \<Rightarrow> bool" where
  "dateParses s =
     (let month = field2 5 s; day = field2 8 s;
          hour = field2 11 s; minute = field2 14 s; second = field2 17 s;
          ms = take 3 (takeWhile is_digit (drop 20 s))
      in 1 \<le> month \<and> month \<le> 12 \<and> 1 \<le> day \<and> day \<le> 31 \<and>
         (hour < 24 \<and> minute < 60 \<and> second < 60 \<or>
          hour = 24 \<and> minute = 0 \<and> second = 0 \<and> list_all (\<lambda>c. c = CHR ''0'') ms))"

definition requireTimestamp :: "js_record \<Rightarrow> string \<Rightarrow> string field" where
  "requireTimestamp r f =
     (case as_string (getf r f) of
        Some s \<Rightarrow> if ISO_TIMESTAMP s \<and> dateParses s then Inr s
                  else malformed (f @ '' must be an ISO 8601 UTC timestamp'') (getf r f)
      | None \<Rightarrow> malformed (f @ '' must be an ISO 8601 UTC timestamp'') (getf r f))"

section \<open>One parser per event type\<close>

definition parseRunStarted :: "event_base \<Rightarrow> run_event field" where
  "parseRunStarted base = Inr (RunStarted base)"

definition parseTokenDelta :: "event_base \<Rightarrow> js_record \<Rightarrow> run_event field" where
  "parseTokenDelta base r =
     bindE (requireString r ''messageId'' False) (\<lambda>messageId.
     bindE (requireString r ''delta'' True) (\<lambda>delta.
     Inr (TokenDelta base messageId delta)))"

definition parseToolRequested :: "event_base \<Rightarrow> js_record \<Rightarrow> run_event field" where
  "parseToolRequested base r =
     bindE (requireString r ''callId'' False) (\<lambda>callId.
     bindE (requireString r ''tool'' False) (\<lambda>tool.
     bindE (requirePresent r ''arguments'') (\<lambda>args.
     Inr (ToolRequested base callId tool args))))"

definition parseApprovalRequested :: "event_base \<Rightarrow> js_record \<Rightarrow> run_event field" where
  "parseApprovalRequested base r =
     bindE (requireString r ''callId'' False) (\<lambda>callId.
     bindE (requireTimestamp r ''expiresAt'') (\<lambda>expiresAt.
     Inr (ApprovalRequested base callId expiresAt)))"

definition parseApprovalResolved :: "event_base \<Rightarrow> js_record \<Rightarrow> run_event field" where
  "parseApprovalResolved base r =
     bindE (requireString r ''callId'' False) (\<lambda>callId.
     case isApprovalDecision (getf r ''decision'') of
       None \<Rightarrow> malformed (''decision must be one of '' @
                join '', '' (map decision_name APPROVAL_DECISIONS)) (getf r ''decision'')
     | Some decision \<Rightarrow>
         bindE (optionalString r ''reason'') (\<lambda>reason.
         Inr (ApprovalResolved base callId decision reason)))"

definition parseToolCompleted :: "event_base \<Rightarrow> js_record \<Rightarrow> run_event field" where
  "parseToolCompleted base r =
     bindE (requireString r ''callId'' False) (\<lambda>callId.
     bindE (requirePresent r ''result'') (\<lambda>result.
     bindE (optionalResultArtifact r) (\<lambda>artifact.
     bindE (optionalNonNegativeInteger r ''durationMs'') (\<lambda>durationMs.
     Inr (ToolCompleted base callId result artifact durationMs)))))"

definition parseToolFailed :: "event_base \<Rightarrow> js_record \<Rightarrow> run_event field" where
  "parseToolFailed base r =
     bindE (requireString r ''callId'' False) (\<lambda>callId.
     bindE (requireString r ''error'' True) (\<lambda>err.
     bindE (optionalNonNegativeInteger r ''durationMs'') (\<lambda>durationMs.
     Inr (ToolFailed base callId err durationMs))))"

definition parseRunCompleted :: "event_base \<Rightarrow> js_record \<Rightarrow> run_event field" where
  "parseRunCompleted base r =
     bindE (optionalString r ''messageId'') (\<lambda>messageId. Inr (RunCompleted base messageId))"

definition parseRunFailed :: "event_base \<Rightarrow> js_record \<Rightarrow> run_event field" where
  "parseRunFailed base r =
     bindE (requireString r ''error'' True) (\<lambda>err.
     bindE (optionalString r ''code'') (\<lambda>code.
     Inr (RunFailed base err code)))"

definition parseRunCancelled :: "event_base \<Rightarrow> js_record \<Rightarrow> run_event field" where
  "parseRunCancelled base r =
     bindE (optionalString r ''reason'') (\<lambda>reason. Inr (RunCancelled base reason))"

definition parseRunSteered :: "event_base \<Rightarrow> js_record \<Rightarrow> run_event field" where
  "parseRunSteered base r =
     bindE (requireString r ''messageId'' False) (\<lambda>messageId.
     bindE (requireString r ''text'' True) (\<lambda>text.
     Inr (RunSteered base messageId text)))"

definition parseByType :: "js \<Rightarrow> event_base \<Rightarrow> js_record \<Rightarrow> run_event field" where
  "parseByType ty base r =
     (if ty = JStr ''run.started'' then parseRunStarted base
      else if ty = JStr ''token.delta'' then parseTokenDelta base r
      else if ty = JStr ''tool.requested'' then parseToolRequested base r
      else if ty = JStr ''approval.requested'' then parseApprovalRequested base r
      else if ty = JStr ''approval.resolved'' then parseApprovalResolved base r
      else if ty = JStr ''tool.completed'' then parseToolCompleted base r
      else if ty = JStr ''tool.failed'' then parseToolFailed base r
      else if ty = JStr ''run.completed'' then parseRunCompleted base r
      else if ty = JStr ''run.failed'' then parseRunFailed base r
      else if ty = JStr ''run.cancelled'' then parseRunCancelled base r
      else parseRunSteered base r)"

definition parseRunEvent :: "js \<Rightarrow> run_event field" where
  "parseRunEvent v =
     (case asRecord v of
        None \<Rightarrow> Inl (MalformedRunEvent ''event must be an object'' v)
      | Some r \<Rightarrow>
          if getf r ''schemaVersion'' \<noteq> RUN_EVENT_SCHEMA_VERSION
          then Inl (UnknownSchemaVersion (getf r ''schemaVersion''))
          else if \<not> isRunEventType (getf r ''type'') then Inl (UnknownEventType (getf r ''type''))
          else bindE (parseBase r) (\<lambda>base. parseByType (getf r ''type'') base r))"

section \<open>Stored rows\<close>

record stored_event_row =
  row_payload :: js
  row_seq :: jsnum
  row_threadId :: string
  row_runId :: "string option"
  row_type :: string

text \<open>
  The own properties the spread \<open>...payload\<close> copies: an array spreads its indices, anything
  that is not an object spreads nothing.
\<close>

fun payload_props :: "js \<Rightarrow> js_record" where
  "payload_props (JObj r) = r"
| "payload_props (JArr xs) = zip (map dec [0..<length xs]) xs"
| "payload_props _ = []"

definition row_base_fields :: "stored_event_row \<Rightarrow> string \<Rightarrow> js_record" where
  "row_base_fields row i =
     [(''schemaVersion'', RUN_EVENT_SCHEMA_VERSION), (''seq'', JNum (row_seq row)),
      (''threadId'', JStr (row_threadId row)), (''runId'', JStr i), (''type'', JStr (row_type row))]"

definition storedRunEvent :: "stored_event_row \<Rightarrow> run_event field" where
  "storedRunEvent row =
     (case row_runId row of
        None \<Rightarrow> malformed ''the row carries no run id'' JNull
      | Some i \<Rightarrow>
          parseRunEvent (JObj (spread (payload_props (row_payload row)) (row_base_fields row i))))"

section \<open>Well-formed events and their objects\<close>

text \<open>\<open>event_type\<close> and \<open>event_value\<close> are the event as the plain object the type declares.\<close>

fun event_type :: "run_event \<Rightarrow> string" where
  "event_type (RunStarted _) = ''run.started''"
| "event_type (TokenDelta _ _ _) = ''token.delta''"
| "event_type (ToolRequested _ _ _ _) = ''tool.requested''"
| "event_type (ApprovalRequested _ _ _) = ''approval.requested''"
| "event_type (ApprovalResolved _ _ _ _) = ''approval.resolved''"
| "event_type (ToolCompleted _ _ _ _ _) = ''tool.completed''"
| "event_type (ToolFailed _ _ _ _) = ''tool.failed''"
| "event_type (RunCompleted _ _) = ''run.completed''"
| "event_type (RunFailed _ _ _) = ''run.failed''"
| "event_type (RunCancelled _ _) = ''run.cancelled''"
| "event_type (RunSteered _ _ _) = ''run.steered''"

definition opt_field :: "string \<Rightarrow> ('a \<Rightarrow> js) \<Rightarrow> 'a option \<Rightarrow> js_record" where
  "opt_field f enc v = (case v of None \<Rightarrow> [] | Some x \<Rightarrow> [(f, enc x)])"

definition artifact_value :: "tool_result_artifact \<Rightarrow> js" where
  "artifact_value a =
     JObj [(''kind'', JStr ''tool_call''), (''callId'', JStr (art_callId a)),
           (''bytes'', js_int (int (art_bytes a)))]"

fun event_fields :: "run_event \<Rightarrow> js_record" where
  "event_fields (RunStarted _) = []"
| "event_fields (TokenDelta _ m d) = [(''messageId'', JStr m), (''delta'', JStr d)]"
| "event_fields (ToolRequested _ c t a) =
     [(''callId'', JStr c), (''tool'', JStr t), (''arguments'', a)]"
| "event_fields (ApprovalRequested _ c x) = [(''callId'', JStr c), (''expiresAt'', JStr x)]"
| "event_fields (ApprovalResolved _ c d r) =
     [(''callId'', JStr c), (''decision'', JStr (decision_name d))] @ opt_field ''reason'' JStr r"
| "event_fields (ToolCompleted _ c v a d) =
     [(''callId'', JStr c), (''result'', v)] @ opt_field ''resultArtifact'' artifact_value a @
     opt_field ''durationMs'' (\<lambda>n. js_int (int n)) d"
| "event_fields (ToolFailed _ c e d) =
     [(''callId'', JStr c), (''error'', JStr e)] @ opt_field ''durationMs'' (\<lambda>n. js_int (int n)) d"
| "event_fields (RunCompleted _ m) = opt_field ''messageId'' JStr m"
| "event_fields (RunFailed _ e c) = (''error'', JStr e) # opt_field ''code'' JStr c"
| "event_fields (RunCancelled _ r) = opt_field ''reason'' JStr r"
| "event_fields (RunSteered _ m t) = [(''messageId'', JStr m), (''text'', JStr t)]"

definition event_value :: "run_event \<Rightarrow> js" where
  "event_value e =
     JObj ([(''schemaVersion'', RUN_EVENT_SCHEMA_VERSION), (''seq'', js_int (int (seq (ev_base e)))),
            (''threadId'', JStr (threadId (ev_base e))), (''runId'', JStr (runId (ev_base e))),
            (''type'', JStr (event_type e))] @ event_fields e)"

definition wf_nat :: "nat \<Rightarrow> bool" where
  "wf_nat n = (int n \<le> max_safe_integer)"

definition wf_base :: "event_base \<Rightarrow> bool" where
  "wf_base b = (1 \<le> seq b \<and> wf_nat (seq b) \<and> threadId b \<noteq> [] \<and> runId b \<noteq> [])"

definition wf_opt :: "('a \<Rightarrow> bool) \<Rightarrow> 'a option \<Rightarrow> bool" where
  "wf_opt p v = (case v of None \<Rightarrow> True | Some x \<Rightarrow> p x)"

definition wf_artifact :: "tool_result_artifact \<Rightarrow> bool" where
  "wf_artifact a = (art_callId a \<noteq> [] \<and> wf_nat (art_bytes a))"

fun wf_fields :: "run_event \<Rightarrow> bool" where
  "wf_fields (RunStarted _) = True"
| "wf_fields (TokenDelta _ m d) = (m \<noteq> [])"
| "wf_fields (ToolRequested _ c t a) = (c \<noteq> [] \<and> t \<noteq> [])"
| "wf_fields (ApprovalRequested _ c x) = (c \<noteq> [] \<and> ISO_TIMESTAMP x \<and> dateParses x)"
| "wf_fields (ApprovalResolved _ c d r) = (c \<noteq> [] \<and> wf_opt (\<lambda>s. s \<noteq> []) r)"
| "wf_fields (ToolCompleted _ c v a d) = (c \<noteq> [] \<and> wf_opt wf_artifact a \<and> wf_opt wf_nat d)"
| "wf_fields (ToolFailed _ c e d) = (c \<noteq> [] \<and> wf_opt wf_nat d)"
| "wf_fields (RunCompleted _ m) = wf_opt (\<lambda>s. s \<noteq> []) m"
| "wf_fields (RunFailed _ e c) = wf_opt (\<lambda>s. s \<noteq> []) c"
| "wf_fields (RunCancelled _ r) = wf_opt (\<lambda>s. s \<noteq> []) r"
| "wf_fields (RunSteered _ m t) = (m \<noteq> [])"

definition wf_event :: "run_event \<Rightarrow> bool" where
  "wf_event e = (wf_base (ev_base e) \<and> wf_fields e)"

section \<open>What the readers return\<close>

declare parseRunStarted_def [parser_defs] parseTokenDelta_def [parser_defs]
  parseToolRequested_def [parser_defs] parseApprovalRequested_def [parser_defs]
  parseApprovalResolved_def [parser_defs] parseToolCompleted_def [parser_defs]
  parseToolFailed_def [parser_defs] parseRunCompleted_def [parser_defs]
  parseRunFailed_def [parser_defs] parseRunCancelled_def [parser_defs]
  parseRunSteered_def [parser_defs]

lemma as_string_Some [simp]: "as_string v = Some s \<longleftrightarrow> v = JStr s"
  by (cases v) auto

lemma malformed_neq_Inr [simp]: "malformed m v \<noteq> Inr x"
  by (simp add: malformed_def)

lemma requireString_Inr [reader_simps]:
  "requireString r f a = Inr s \<longleftrightarrow> getf r f = JStr s \<and> (a \<or> s \<noteq> [])"
  by (auto simp: requireString_def split: option.splits)

lemma optionalString_Inr [reader_simps]:
  "optionalString r f = Inr v \<longleftrightarrow>
     (case v of None \<Rightarrow> getf r f = JUndefined | Some s \<Rightarrow> getf r f = JStr s \<and> s \<noteq> [])"
  by (auto simp: optionalString_def result_simps reader_simps split: option.splits)

lemma js_int_inj [simp]: "js_int k = js_int l \<longleftrightarrow> k = l"
  by (simp add: js_int_def)

lemma js_int_neq [simp]:
  "js_int k \<noteq> JUndefined" "js_int k \<noteq> JNull" "js_int k \<noteq> JStr s" "js_int k \<noteq> JObj r"
    "JUndefined \<noteq> js_int k"
  by (simp_all add: js_int_def)

lemma requireNonNegativeInteger_Inr [reader_simps]:
  "requireNonNegativeInteger r f = Inr n \<longleftrightarrow> getf r f = js_int (int n) \<and> wf_nat n"
proof (cases "getf r f")
  case (JNum q)
  then show ?thesis
    by (auto simp: requireNonNegativeInteger_def js_int_def wf_nat_def elim!: isSafeIntegerE)
qed (auto simp: requireNonNegativeInteger_def js_int_def)

lemma optionalNonNegativeInteger_Inr [reader_simps]:
  "optionalNonNegativeInteger r f = Inr v \<longleftrightarrow>
     (case v of None \<Rightarrow> getf r f = JUndefined | Some n \<Rightarrow> getf r f = js_int (int n) \<and> wf_nat n)"
  by (auto simp: optionalNonNegativeInteger_def result_simps reader_simps split: option.splits)

lemma requirePresent_Inr [reader_simps]:
  "requirePresent r f = Inr v \<longleftrightarrow> hasOwn r f \<and> v = getf r f"
  by (auto simp: requirePresent_def)

lemma requireTimestamp_Inr [reader_simps]:
  "requireTimestamp r f = Inr s \<longleftrightarrow> getf r f = JStr s \<and> ISO_TIMESTAMP s \<and> dateParses s"
  by (auto simp: requireTimestamp_def split: option.splits)

lemma optionalResultArtifact_None [reader_simps]:
  "optionalResultArtifact r = Inr None \<longleftrightarrow> getf r ''resultArtifact'' = JUndefined"
  by (auto simp: optionalResultArtifact_def Let_def result_simps split: option.splits if_splits)

lemma optionalResultArtifact_SomeD:
  "optionalResultArtifact r = Inr (Some a) \<Longrightarrow> wf_artifact a"
  by (auto simp: optionalResultArtifact_def Let_def result_simps reader_simps wf_artifact_def
      split: option.splits if_splits)

lemma optionalResultArtifact_value:
  assumes "getf r ''resultArtifact'' = artifact_value a" and "wf_artifact a"
  shows "optionalResultArtifact r = Inr (Some a)"
proof -
  let ?a = "[(''kind'', JStr ''tool_call''), (''callId'', JStr (art_callId a)),
           (''bytes'', js_int (int (art_bytes a)))]"
  have "requireString ?a ''callId'' False = Inr (art_callId a)"
    and "requireNonNegativeInteger ?a ''bytes'' = Inr (art_bytes a)"
    using assms(2) by (simp_all add: reader_simps wf_artifact_def)
  then show ?thesis
    using assms(1) by (simp add: optionalResultArtifact_def artifact_value_def)
qed

lemma parseBase_Inr:
  "parseBase r = Inr b \<longleftrightarrow>
     wf_base b \<and> getf r ''seq'' = js_int (int (seq b)) \<and>
     getf r ''threadId'' = JStr (threadId b) \<and> getf r ''runId'' = JStr (runId b)"
proof (cases "getf r ''seq''")
  case (JNum q)
  then show ?thesis
    by (auto simp: parseBase_def js_int_def wf_base_def wf_nat_def result_simps reader_simps
        intro!: event_base.equality elim!: isSafeIntegerE)
qed (auto simp: parseBase_def js_int_def)

section \<open>What the parser returns\<close>

text \<open>
  Each parser keeps the base it was given, returns an event of its own type, and returns
  only well-formed fields.
\<close>

definition parsed_as :: "string \<Rightarrow> event_base \<Rightarrow> run_event field \<Rightarrow> bool" where
  "parsed_as ty b m =
     (case m of Inl _ \<Rightarrow> True | Inr e \<Rightarrow> event_type e = ty \<and> ev_base e = b \<and> wf_fields e)"

lemma parsed_as_bind [intro]: "(\<And>a. m = Inr a \<Longrightarrow> parsed_as ty b (f a)) \<Longrightarrow> parsed_as ty b (bindE m f)"
  by (cases m) (auto simp: parsed_as_def)

lemma parsed_as_malformed [simp]: "parsed_as ty b (malformed x y)"
  by (simp add: parsed_as_def malformed_def)

lemma wf_opt_readers:
  "optionalString r f = Inr v \<Longrightarrow> wf_opt (\<lambda>s. s \<noteq> []) v"
  "optionalNonNegativeInteger r f = Inr n \<Longrightarrow> wf_opt wf_nat n"
  "optionalResultArtifact r = Inr a \<Longrightarrow> wf_opt wf_artifact a"
  by (auto simp: reader_simps wf_opt_def dest: optionalResultArtifact_SomeD split: option.splits)

lemma parser_results:
  "parsed_as ''run.started'' b (parseRunStarted b)"
  "parsed_as ''token.delta'' b (parseTokenDelta b r)"
  "parsed_as ''tool.requested'' b (parseToolRequested b r)"
  "parsed_as ''approval.requested'' b (parseApprovalRequested b r)"
  "parsed_as ''approval.resolved'' b (parseApprovalResolved b r)"
  "parsed_as ''tool.completed'' b (parseToolCompleted b r)"
  "parsed_as ''tool.failed'' b (parseToolFailed b r)"
  "parsed_as ''run.completed'' b (parseRunCompleted b r)"
  "parsed_as ''run.failed'' b (parseRunFailed b r)"
  "parsed_as ''run.cancelled'' b (parseRunCancelled b r)"
  "parsed_as ''run.steered'' b (parseRunSteered b r)"
  unfolding parser_defs
            apply (simp add: parsed_as_def)
           apply (intro parsed_as_bind; simp add: parsed_as_def reader_simps)
          apply (intro parsed_as_bind; simp add: parsed_as_def reader_simps)
         apply (intro parsed_as_bind; simp add: parsed_as_def reader_simps)
        apply (intro parsed_as_bind)
        apply (auto split: option.split simp: requireString_Inr parsed_as_def malformed_def bindE_def
      dest: wf_opt_readers split: sum.splits)[1]
       apply (intro parsed_as_bind; simp add: parsed_as_def requireString_Inr wf_opt_readers)
      apply (intro parsed_as_bind; simp add: parsed_as_def requireString_Inr wf_opt_readers)
     apply (intro parsed_as_bind; simp add: parsed_as_def requireString_Inr wf_opt_readers)
    apply (intro parsed_as_bind; simp add: parsed_as_def requireString_Inr wf_opt_readers)
   apply (intro parsed_as_bind; simp add: parsed_as_def requireString_Inr wf_opt_readers)
  apply (intro parsed_as_bind; simp add: parsed_as_def requireString_Inr wf_opt_readers)
  done

lemma parseByType_result:
  assumes "ty \<in> set RUN_EVENT_TYPES"
  shows "parsed_as ty b (parseByType (JStr ty) b r)"
proof -
  have "list_all (\<lambda>ty. parsed_as ty b (parseByType (JStr ty) b r)) RUN_EVENT_TYPES"
    by (simp add: RUN_EVENT_TYPES_def parseByType_def parser_results)
  with assms show ?thesis by (simp add: list_all_iff)
qed

lemma parseByType_Inr:
  assumes "parseByType ty b r = Inr e" and "isRunEventType ty"
  shows "ty = JStr (event_type e)" and "ev_base e = b" and "wf_fields e"
proof -
  from assms(2) obtain t where "ty = JStr t" "t \<in> set RUN_EVENT_TYPES"
    by (auto simp: isRunEventType_def split: js.splits)
  with parseByType_result [of t b r] assms(1)
  show "ty = JStr (event_type e)" "ev_base e = b" "wf_fields e"
    by (auto simp: parsed_as_def)
qed

lemma parseRunEvent_Inr:
  "parseRunEvent v = Inr e \<longleftrightarrow>
     (\<exists>r. v = JObj r \<and> getf r ''schemaVersion'' = RUN_EVENT_SCHEMA_VERSION \<and>
          getf r ''type'' = JStr (event_type e) \<and> isRunEventType (getf r ''type'') \<and>
          parseBase r = Inr (ev_base e) \<and> parseByType (getf r ''type'') (ev_base e) r = Inr e)"
  (is "_ \<longleftrightarrow> ?R")
proof
  assume "parseRunEvent v = Inr e"
  then obtain r b where r: "v = JObj r" "getf r ''schemaVersion'' = RUN_EVENT_SCHEMA_VERSION"
      "isRunEventType (getf r ''type'')" "parseBase r = Inr b"
      "parseByType (getf r ''type'') b r = Inr e"
    by (auto simp: parseRunEvent_def result_simps split: option.splits if_splits)
  then show ?R using parseByType_Inr [OF r(5) r(3)] by simp
qed (auto simp: parseRunEvent_def)

lemma isRunEventType_event_type [simp]: "isRunEventType (JStr (event_type e))"
  by (cases e) (simp_all add: isRunEventType_def RUN_EVENT_TYPES_def)

lemma parseByType_value:
  assumes "wf_fields e" and "event_value e = JObj r"
  shows "parseByType (JStr (event_type e)) (ev_base e) r = Inr e"
proof -
  have art: "optionalResultArtifact r = Inr None" if "getf r ''resultArtifact'' = JUndefined"
    using that by (simp add: reader_simps)
  show ?thesis
  proof (cases e)
    case (ToolCompleted b c v a d)
    have "optionalResultArtifact r = Inr a"
    proof (cases a)
      case None
      then have "getf r ''resultArtifact'' = JUndefined"
        using ToolCompleted assms(2)
        by (auto simp: event_value_def opt_field_def split: option.splits)
      with None art show ?thesis by simp
    next
      case (Some x)
      then have "getf r ''resultArtifact'' = artifact_value x"
        using ToolCompleted assms(2) by (auto simp: event_value_def opt_field_def)
      with Some ToolCompleted assms(1) show ?thesis
        by (auto simp: wf_opt_def intro: optionalResultArtifact_value)
    qed
    then show ?thesis
      using ToolCompleted assms
      by (auto simp: parseByType_def parser_defs event_value_def opt_field_def result_simps
          reader_simps wf_opt_def split: option.splits)
  qed (use assms in \<open>auto simp: parseByType_def parser_defs event_value_def opt_field_def
      result_simps reader_simps wf_opt_def split: option.splits\<close>)
qed

lemma parse_event_value:
  assumes "wf_event e"
  shows "parseRunEvent (event_value e) = Inr e"
proof -
  obtain r where r: "event_value e = JObj r" by (simp add: event_value_def)
  then have "parseBase r = Inr (ev_base e)"
    using assms by (auto simp: parseBase_Inr event_value_def wf_event_def)
  moreover have "parseByType (JStr (event_type e)) (ev_base e) r = Inr e"
    using assms r by (auto simp: wf_event_def intro: parseByType_value)
  ultimately show ?thesis
    using r by (auto simp: parseRunEvent_Inr event_value_def)
qed

lemma parse_wf: "parseRunEvent v = Inr e \<Longrightarrow> wf_event e"
  by (auto simp: parseRunEvent_Inr parseBase_Inr wf_event_def dest: parseByType_Inr)

lemma stored_columns:
  assumes "storedRunEvent row = Inr e"
  shows "row_seq row = Fin (of_nat (seq (ev_base e)))"
    and "threadId (ev_base e) = row_threadId row"
    and "row_runId row = Some (runId (ev_base e))"
    and "event_type e = row_type row"
  using assms
  by (auto simp: storedRunEvent_def parseRunEvent_Inr parseBase_Inr getf_spread row_base_fields_def
      js_int_def split: option.splits)

end
