(* ===== verification/Event_Reducer.thy ===== *)
theory Event_Reducer
  imports Run_Events
begin

text \<open>
  The fold of run events into the thread snapshot a client renders (\<open>event-reducer.ts\<close>):
  the snapshot as records, one definition per function of the module, the drain loop with its
  termination proof, and the lemmas every later proof about the fold rests on: which fields an
  event's handler leaves alone, and how it changes the status of a run.
\<close>

section \<open>Snapshots\<close>

datatype message_role = Assistant | User

record message_snapshot =
  ms_id :: string
  ms_runId :: string
  ms_role :: message_role
  ms_text :: string
  ms_complete :: bool

record approval_snapshot =
  ap_status :: approval_status
  ap_expiresAt :: string
  ap_reason :: "string option"

datatype tool_call_status = TRequested | TCompleted | TFailed

record tool_call_snapshot =
  tc_callId :: string
  tc_tool :: string
  tc_arguments :: js
  tc_status :: tool_call_status
  tc_result :: "js option"
  tc_artifact :: "tool_result_artifact option"
  tc_error :: "string option"
  tc_durationMs :: "nat option"
  tc_approval :: "approval_snapshot option"

record run_failure_snapshot =
  rf_message :: string
  rf_code :: "string option"

record run_snapshot =
  rs_runId :: string
  rs_status :: run_status
  rs_toolCalls :: "tool_call_snapshot list"
  rs_failure :: "run_failure_snapshot option"
  rs_cancelReason :: "string option"

record thread_snapshot =
  ts_threadId :: string
  ts_runs :: "run_snapshot list"
  ts_messages :: "message_snapshot list"
  ts_lastSeq :: nat
  ts_pendingEvents :: "run_event list"

type_synonym reduce_result = "run_event_error + thread_snapshot"

abbreviation ev_seq :: "run_event \<Rightarrow> nat" where
  "ev_seq e \<equiv> seq (ev_base e)"

abbreviation ev_runId :: "run_event \<Rightarrow> string" where
  "ev_runId e \<equiv> runId (ev_base e)"

definition createThreadSnapshot :: "string \<Rightarrow> jsnum option \<Rightarrow> range_error + thread_snapshot" where
  "createThreadSnapshot t lastSeq =
     (let n = (case lastSeq of None \<Rightarrow> Fin 0 | Some q \<Rightarrow> q) in
      if \<not> isSafeInteger n \<or> to_int n < 0 then Inl (RangeError ''lastSeq'')
      else Inr \<lparr>ts_threadId = t, ts_runs = [], ts_messages = [], ts_lastSeq = nat (to_int n),
                ts_pendingEvents = []\<rparr>)"

section \<open>Looking up and replacing\<close>

definition findRun :: "thread_snapshot \<Rightarrow> string \<Rightarrow> run_snapshot option" where
  "findRun s i = find (\<lambda>r. rs_runId r = i) (ts_runs s)"

abbreviation msg_key :: "message_snapshot \<Rightarrow> string \<times> string" where
  "msg_key m \<equiv> (ms_runId m, ms_id m)"

definition findMessage :: "thread_snapshot \<Rightarrow> string \<Rightarrow> string \<Rightarrow> message_snapshot option" where
  "findMessage s i m = find (\<lambda>x. msg_key x = (i, m)) (ts_messages s)"

definition withRun :: "thread_snapshot \<Rightarrow> run_snapshot \<Rightarrow> thread_snapshot" where
  "withRun s r = s\<lparr>ts_runs := upsert rs_runId r (ts_runs s)\<rparr>"

definition withMessage :: "thread_snapshot \<Rightarrow> message_snapshot \<Rightarrow> thread_snapshot" where
  "withMessage s m = s\<lparr>ts_messages := upsert msg_key m (ts_messages s)\<rparr>"

definition findCall :: "run_snapshot \<Rightarrow> string \<Rightarrow> tool_call_snapshot option" where
  "findCall r c = find (\<lambda>x. tc_callId x = c) (rs_toolCalls r)"

definition updateCall ::
  "string \<Rightarrow> (tool_call_snapshot \<Rightarrow> tool_call_snapshot) \<Rightarrow> run_snapshot \<Rightarrow> run_snapshot" where
  "updateCall c f r =
     r\<lparr>rs_toolCalls := map (\<lambda>x. if tc_callId x = c then f x else x) (rs_toolCalls r)\<rparr>"

definition approval_is :: "approval_status \<Rightarrow> tool_call_snapshot \<Rightarrow> bool" where
  "approval_is st c = (case tc_approval c of None \<Rightarrow> False | Some a \<Rightarrow> ap_status a = st)"

definition hasPendingApproval :: "run_snapshot \<Rightarrow> bool" where
  "hasPendingApproval r = list_ex (approval_is Pending) (rs_toolCalls r)"

definition freshRun :: "string \<Rightarrow> run_snapshot" where
  "freshRun i = \<lparr>rs_runId = i, rs_status = INITIAL_RUN_STATUS, rs_toolCalls = [],
                 rs_failure = None, rs_cancelReason = None\<rparr>"

definition existingOrFresh :: "thread_snapshot \<Rightarrow> string \<Rightarrow> run_snapshot" where
  "existingOrFresh s i = (case findRun s i of None \<Rightarrow> freshRun i | Some r \<Rightarrow> r)"

section \<open>Status steps\<close>

definition asRunning ::
  "thread_snapshot \<Rightarrow> string \<Rightarrow> run_event_error + (thread_snapshot \<times> run_snapshot)" where
  "asRunning s i =
     (let run = existingOrFresh s i in
      if rs_status run = Running then
        Inr (if findRun s i = None then withRun s run else s, run)
      else if rs_status run = Waiting_approval \<and> hasPendingApproval run then Inr (s, run)
      else case transition (rs_status run) Running of
        Inl _ \<Rightarrow> Inl (IllegalEventTransition (rs_status run) Running)
      | Inr st \<Rightarrow> (let next = run\<lparr>rs_status := st\<rparr> in Inr (withRun s next, next)))"

definition asTerminal ::
  "thread_snapshot \<Rightarrow> string \<Rightarrow> run_status \<Rightarrow>
   run_event_error + (thread_snapshot \<times> run_snapshot)" where
  "asTerminal s i status =
     (let run = existingOrFresh s i in
      case transition (rs_status run) status of
        Inl _ \<Rightarrow> Inl (IllegalEventTransition (rs_status run) status)
      | Inr st \<Rightarrow> (let next = run\<lparr>rs_status := st\<rparr> in Inr (withRun s next, next)))"

definition closeMessages :: "thread_snapshot \<Rightarrow> string \<Rightarrow> thread_snapshot" where
  "closeMessages s i =
     s\<lparr>ts_messages := map (\<lambda>m. if ms_runId m = i \<and> ms_role m = Assistant
                               then m\<lparr>ms_complete := True\<rparr> else m) (ts_messages s)\<rparr>"

definition completeRunMessages ::
  "thread_snapshot \<Rightarrow> string \<Rightarrow> string option \<Rightarrow> reduce_result" where
  "completeRunMessages s i messageId =
     (case messageId of
        None \<Rightarrow> Inr (closeMessages s i)
      | Some k \<Rightarrow>
          (case findMessage s i k of
             None \<Rightarrow> Inr (closeMessages (withMessage s
                       \<lparr>ms_id = k, ms_runId = i, ms_role = Assistant, ms_text = [],
                        ms_complete = True\<rparr>) i)
           | Some m \<Rightarrow> if ms_role m \<noteq> Assistant then Inl (MessageConflict k MC_not_assistant)
                       else Inr (closeMessages s i)))"

section \<open>One handler per event type\<close>

definition reduceRunStarted :: "thread_snapshot \<Rightarrow> string \<Rightarrow> reduce_result" where
  "reduceRunStarted s i =
     (let run = existingOrFresh s i in
      case transition (rs_status run) Running of
        Inl _ \<Rightarrow> Inl (IllegalEventTransition (rs_status run) Running)
      | Inr st \<Rightarrow> Inr (withRun s (run\<lparr>rs_status := st\<rparr>)))"

definition reduceTokenDelta :: "thread_snapshot \<Rightarrow> string \<Rightarrow> string \<Rightarrow> string \<Rightarrow> reduce_result" where
  "reduceTokenDelta s i messageId delta =
     bindE (asRunning s i) (\<lambda>(s', run).
       case findMessage s' i messageId of
         None \<Rightarrow> Inr (withMessage s' \<lparr>ms_id = messageId, ms_runId = i, ms_role = Assistant,
                                      ms_text = delta, ms_complete = False\<rparr>)
       | Some m \<Rightarrow> if ms_role m \<noteq> Assistant then Inl (MessageConflict messageId MC_not_assistant)
                   else Inr (withMessage s' (m\<lparr>ms_text := ms_text m @ delta\<rparr>)))"

definition reduceToolRequested ::
  "thread_snapshot \<Rightarrow> string \<Rightarrow> string \<Rightarrow> string \<Rightarrow> js \<Rightarrow> reduce_result" where
  "reduceToolRequested s i callId tool args =
     bindE (asRunning s i) (\<lambda>(s', run).
       if list_ex (\<lambda>c. tc_callId c = callId) (rs_toolCalls run)
       then Inl (ToolCallConflict callId TC_duplicate_request)
       else Inr (withRun s' (run\<lparr>rs_toolCalls := rs_toolCalls run @
              [\<lparr>tc_callId = callId, tc_tool = tool, tc_arguments = args, tc_status = TRequested,
                tc_result = None, tc_artifact = None, tc_error = None, tc_durationMs = None,
                tc_approval = None\<rparr>]\<rparr>)))"

definition reduceApprovalRequested ::
  "thread_snapshot \<Rightarrow> string \<Rightarrow> string \<Rightarrow> string \<Rightarrow> reduce_result" where
  "reduceApprovalRequested s i callId expiresAt =
     bindE (asRunning s i) (\<lambda>(s', run).
       case findCall run callId of
         None \<Rightarrow> Inl (UnknownToolCall callId)
       | Some call \<Rightarrow>
           if tc_approval call \<noteq> None then Inl (ApprovalConflict callId AC_duplicate_request)
           else
             let approval = \<lparr>ap_status = Pending, ap_expiresAt = expiresAt, ap_reason = None\<rparr>;
                 run' = updateCall callId (\<lambda>c. c\<lparr>tc_approval := Some approval\<rparr>) run
             in if rs_status run' \<noteq> Waiting_approval then
                  (case transition (rs_status run') Waiting_approval of
                     Inl _ \<Rightarrow> Inl (IllegalEventTransition (rs_status run') Waiting_approval)
                   | Inr st \<Rightarrow> Inr (withRun s' (run'\<lparr>rs_status := st\<rparr>)))
                else Inr (withRun s' run'))"

definition resolvedApproval ::
  "approval_snapshot \<Rightarrow> approval_decision \<Rightarrow> string option \<Rightarrow> approval_snapshot" where
  "resolvedApproval a decision reason =
     (let a' = a\<lparr>ap_status := decision_status decision\<rparr> in
      case reason of None \<Rightarrow> a' | Some x \<Rightarrow> a'\<lparr>ap_reason := Some x\<rparr>)"

definition reduceApprovalResolved ::
  "thread_snapshot \<Rightarrow> string \<Rightarrow> string \<Rightarrow> approval_decision \<Rightarrow> string option \<Rightarrow> reduce_result" where
  "reduceApprovalResolved s i callId decision reason =
     (case findRun s i of
        None \<Rightarrow> Inl (UnknownToolCall callId)
      | Some run \<Rightarrow>
          (case findCall run callId of
             None \<Rightarrow> Inl (UnknownToolCall callId)
           | Some call \<Rightarrow>
               (case tc_approval call of
                  None \<Rightarrow> Inl (ApprovalConflict callId AC_unknown_approval)
                | Some a \<Rightarrow>
                    if ap_status a \<noteq> Pending then Inl (ApprovalConflict callId AC_already_resolved)
                    else
                      let approval = resolvedApproval a decision reason;
                          resolved = updateCall callId (\<lambda>c. c\<lparr>tc_approval := Some approval\<rparr>) run
                      in if rs_status resolved = Waiting_approval \<and> \<not> hasPendingApproval resolved then
                           (case transition Waiting_approval Running of
                              Inl _ \<Rightarrow> Inl (IllegalEventTransition Waiting_approval Running)
                            | Inr st \<Rightarrow> Inr (withRun s (resolved\<lparr>rs_status := st\<rparr>)))
                         else Inr (withRun s resolved))))"

text \<open>What a \<open>tool.completed\<close> or \<open>tool.failed\<close> event makes of the call it resolves.\<close>

datatype tool_resolution =
    Completion js "tool_result_artifact option" "nat option"
  | ToolFailure string "nat option"

definition or_else :: "'a option \<Rightarrow> 'a option \<Rightarrow> 'a option" where
  "or_else new old = (case new of None \<Rightarrow> old | Some _ \<Rightarrow> new)"

fun resolvedCall :: "tool_resolution \<Rightarrow> tool_call_snapshot \<Rightarrow> tool_call_snapshot" where
  "resolvedCall (Completion v a d) c =
     c\<lparr>tc_status := TCompleted, tc_result := Some v, tc_artifact := or_else a (tc_artifact c),
       tc_durationMs := or_else d (tc_durationMs c)\<rparr>"
| "resolvedCall (ToolFailure e d) c =
     c\<lparr>tc_status := TFailed, tc_error := Some e, tc_durationMs := or_else d (tc_durationMs c)\<rparr>"

fun is_completion :: "tool_resolution \<Rightarrow> bool" where
  "is_completion (Completion _ _ _) = True"
| "is_completion (ToolFailure _ _) = False"

definition reduceToolResolution ::
  "thread_snapshot \<Rightarrow> string \<Rightarrow> string \<Rightarrow> tool_resolution \<Rightarrow> reduce_result" where
  "reduceToolResolution s i callId res =
     (case findRun s i of
        None \<Rightarrow> Inl (UnknownToolCall callId)
      | Some run \<Rightarrow>
          (case findCall run callId of
             None \<Rightarrow> Inl (UnknownToolCall callId)
           | Some call \<Rightarrow>
               if tc_status call \<noteq> TRequested then Inl (ToolCallConflict callId TC_already_resolved)
               else if approval_is Pending call then Inl (ToolCallConflict callId TC_awaiting_approval)
               else if is_completion res \<and> (approval_is Denied call \<or> approval_is Timed_out call)
               then Inl (ToolCallConflict callId TC_denied)
               else Inr (withRun s (updateCall callId (\<lambda>_. resolvedCall res call) run))))"

definition reduceRunCompleted :: "thread_snapshot \<Rightarrow> string \<Rightarrow> string option \<Rightarrow> reduce_result" where
  "reduceRunCompleted s i messageId =
     bindE (asTerminal s i Completed) (\<lambda>(s', run). completeRunMessages s' i messageId)"

definition reduceRunFailed ::
  "thread_snapshot \<Rightarrow> string \<Rightarrow> string \<Rightarrow> string option \<Rightarrow> reduce_result" where
  "reduceRunFailed s i err code =
     bindE (asTerminal s i Failed) (\<lambda>(s', run).
       completeRunMessages
         (withRun s' (run\<lparr>rs_failure := Some \<lparr>rf_message = err, rf_code = code\<rparr>\<rparr>)) i None)"

definition reduceRunCancelled :: "thread_snapshot \<Rightarrow> string \<Rightarrow> string option \<Rightarrow> reduce_result" where
  "reduceRunCancelled s i reason =
     bindE (asTerminal s i Cancelled) (\<lambda>(s', run).
       completeRunMessages
         (withRun s' (case reason of None \<Rightarrow> run | Some x \<Rightarrow> run\<lparr>rs_cancelReason := Some x\<rparr>)) i None)"

definition reduceRunSteered :: "thread_snapshot \<Rightarrow> string \<Rightarrow> string \<Rightarrow> string \<Rightarrow> reduce_result" where
  "reduceRunSteered s i messageId text =
     bindE (asRunning s i) (\<lambda>(s', run).
       if findMessage s' i messageId \<noteq> None then Inl (MessageConflict messageId MC_already_exists)
       else Inr (withMessage s' \<lparr>ms_id = messageId, ms_runId = i, ms_role = User, ms_text = text,
                                  ms_complete = True\<rparr>))"

fun applyEvent :: "thread_snapshot \<Rightarrow> run_event \<Rightarrow> reduce_result" where
  "applyEvent s (RunStarted b) = reduceRunStarted s (runId b)"
| "applyEvent s (TokenDelta b m d) = reduceTokenDelta s (runId b) m d"
| "applyEvent s (ToolRequested b c t a) = reduceToolRequested s (runId b) c t a"
| "applyEvent s (ApprovalRequested b c x) = reduceApprovalRequested s (runId b) c x"
| "applyEvent s (ApprovalResolved b c d r) = reduceApprovalResolved s (runId b) c d r"
| "applyEvent s (ToolCompleted b c v a d) = reduceToolResolution s (runId b) c (Completion v a d)"
| "applyEvent s (ToolFailed b c e d) = reduceToolResolution s (runId b) c (ToolFailure e d)"
| "applyEvent s (RunCompleted b m) = reduceRunCompleted s (runId b) m"
| "applyEvent s (RunFailed b e c) = reduceRunFailed s (runId b) e c"
| "applyEvent s (RunCancelled b r) = reduceRunCancelled s (runId b) r"
| "applyEvent s (RunSteered b m t) = reduceRunSteered s (runId b) m t"

section \<open>The cursor\<close>

definition applyAtCursor :: "thread_snapshot \<Rightarrow> run_event \<Rightarrow> reduce_result" where
  "applyAtCursor s e =
     bindE (applyEvent s e) (\<lambda>s'.
       Inr (s'\<lparr>ts_lastSeq := ev_seq e,
               ts_pendingEvents := filter (\<lambda>p. ev_seq p \<noteq> ev_seq e) (ts_pendingEvents s)\<rparr>))"

definition withPending :: "thread_snapshot \<Rightarrow> run_event \<Rightarrow> thread_snapshot" where
  "withPending s e = s\<lparr>ts_pendingEvents := sort_key ev_seq (ts_pendingEvents s @ [e])\<rparr>"

lemma applyAtCursor_pending:
  "applyAtCursor s e = Inr s' \<Longrightarrow>
   ts_pendingEvents s' = filter (\<lambda>p. ev_seq p \<noteq> ev_seq e) (ts_pendingEvents s)"
  by (auto simp: applyAtCursor_def result_simps)

function drainPending :: "thread_snapshot \<Rightarrow> reduce_result" where
  "drainPending s =
     (case find (\<lambda>e. ev_seq e = ts_lastSeq s + 1) (ts_pendingEvents s) of
        None \<Rightarrow> Inr s
      | Some e \<Rightarrow> (case applyAtCursor s e of Inl x \<Rightarrow> Inl x | Inr s' \<Rightarrow> drainPending s'))"
  by pat_completeness auto
termination
proof (relation "measure (\<lambda>s. length (ts_pendingEvents s))")
  fix s e s'
  assume e: "find (\<lambda>e. ev_seq e = ts_lastSeq s + 1) (ts_pendingEvents s) = Some e"
    and s': "applyAtCursor s e = Inr s'"
  from e have "e \<in> set (ts_pendingEvents s)" by (auto simp: find_Some_iff)
  then have "length (filter (\<lambda>p. ev_seq p \<noteq> ev_seq e) (ts_pendingEvents s))
      < length (ts_pendingEvents s)"
    by (intro length_filter_less) auto
  with s' show "(s', s) \<in> measure (\<lambda>s. length (ts_pendingEvents s))"
    by (simp add: applyAtCursor_pending)
qed simp

declare drainPending.simps [simp del]

text \<open>\<open>reduceRunEvent\<close> after its parse and thread checks.\<close>

definition reduceParsedEvent :: "thread_snapshot \<Rightarrow> run_event \<Rightarrow> reduce_result" where
  "reduceParsedEvent s e =
     (if ev_seq e \<le> ts_lastSeq s then Inr s
      else if list_ex (\<lambda>p. ev_seq p = ev_seq e) (ts_pendingEvents s) then Inr s
      else if ev_seq e > ts_lastSeq s + 1 then Inr (withPending s e)
      else bindE (applyAtCursor s e) drainPending)"

definition reduceRunEvent :: "thread_snapshot \<Rightarrow> js \<Rightarrow> reduce_result" where
  "reduceRunEvent s v =
     bindE (parseRunEvent v) (\<lambda>e.
       if threadId (ev_base e) \<noteq> ts_threadId s
       then Inl (ThreadMismatch (ts_threadId s) (threadId (ev_base e)))
       else reduceParsedEvent s e)"

definition reduceRunEvents :: "thread_snapshot \<Rightarrow> js list \<Rightarrow> reduce_result" where
  "reduceRunEvents s vs = foldE reduceRunEvent s vs"

end
