(* ===== verification/Reducer_Facts.thy ===== *)
theory Reducer_Facts
  imports Event_Reducer
begin

text \<open>
  What the handlers of \<open>event-reducer.ts\<close> leave alone and what they change: a handler reads
  and writes only the runs and messages of a snapshot, it changes no run but the one its event
  names, and it moves that run along the transition table.
\<close>

named_theorems snapshot_simps \<open>reads after the snapshot updates\<close>
named_theorems handler_defs \<open>the handlers\<close>

declare reduceRunStarted_def [handler_defs] reduceTokenDelta_def [handler_defs]
  reduceToolRequested_def [handler_defs] reduceApprovalRequested_def [handler_defs]
  reduceApprovalResolved_def [handler_defs] reduceToolResolution_def [handler_defs]
  reduceRunCompleted_def [handler_defs] reduceRunFailed_def [handler_defs]
  reduceRunCancelled_def [handler_defs] reduceRunSteered_def [handler_defs]

section \<open>The snapshot as a keyed store\<close>

text \<open>
  Runs and messages are kept the same way, so what a handler relies on is stated once: a store
  with a lookup and a replacing insert.
\<close>

locale keyed_store =
  fixes lookup :: "'s \<Rightarrow> 'k \<Rightarrow> 'v option"
    and put :: "'s \<Rightarrow> 'v \<Rightarrow> 's"
    and key :: "'v \<Rightarrow> 'k"
  assumes lookup_put: "lookup (put s v) k = (if k = key v then Some v else lookup s k)"
    and put_put: "key v = key w \<Longrightarrow> put (put s w) v = put s v"
    and lookup_key: "lookup s k = Some v \<Longrightarrow> key v = k"
begin

lemma lookup_put_same: "lookup (put s v) (key v) = Some v"
  by (simp add: lookup_put)

lemma lookup_put_other: "k \<noteq> key v \<Longrightarrow> lookup (put s v) k = lookup s k"
  by (simp add: lookup_put)

lemma lookup_after_puts:
  "lookup (foldl put s vs) k =
     (case find (\<lambda>v. key v = k) (rev vs) of None \<Rightarrow> lookup s k | Some v \<Rightarrow> Some v)"
proof (induction vs rule: rev_induct)
  case Nil
  then show ?case by simp
next
  case (snoc v vs)
  then show ?case by (auto simp: lookup_put)
qed

end

interpretation run_store: keyed_store findRun withRun rs_runId
proof unfold_locales
  show "findRun (withRun s v) k = (if k = rs_runId v then Some v else findRun s k)" for s v k
    by (simp add: findRun_def withRun_def)
  show "rs_runId v = rs_runId w \<Longrightarrow> withRun (withRun s w) v = withRun s v" for s v w
    by (simp add: withRun_def)
  show "findRun s k = Some v \<Longrightarrow> rs_runId v = k" for s k v
    by (auto simp: findRun_def dest: find_key_Some [where key = rs_runId])
qed

interpretation message_store: keyed_store "\<lambda>s (i, m). findMessage s i m" withMessage msg_key
proof unfold_locales
  show "(\<lambda>(i, m). findMessage (withMessage s v) i m) k =
      (if k = msg_key v then Some v else (\<lambda>(i, m). findMessage s i m) k)" for s v k
    using find_upsert [where key = msg_key and x = v and k = k and xs = "ts_messages s"]
    by (cases k) (auto simp: findMessage_def withMessage_def)
  show "msg_key v = msg_key w \<Longrightarrow> withMessage (withMessage s w) v = withMessage s v" for s v w
    by (simp add: withMessage_def)
  show "(\<lambda>(i, m). findMessage s i m) k = Some v \<Longrightarrow> msg_key v = k" for s k v
    using find_key_Some [where key = msg_key and k = k and x = v and xs = "ts_messages s"]
    by (cases k) (auto simp: findMessage_def)
qed

lemmas findRun_withRun [snapshot_simps] = run_store.lookup_put
lemmas withRun_withRun [snapshot_simps] = run_store.put_put

lemma findRun_others [snapshot_simps]:
  "findRun (withMessage s m) i = findRun s i"
  "findRun (closeMessages s j) i = findRun s i"
  by (simp_all add: findRun_def withMessage_def closeMessages_def)

lemma ts_runs_updates [snapshot_simps]:
  "ts_runs (withRun s r) = upsert rs_runId r (ts_runs s)"
  "ts_runs (withMessage s m) = ts_runs s"
  "ts_runs (closeMessages s j) = ts_runs s"
  by (simp_all add: withRun_def withMessage_def closeMessages_def)

lemma ts_messages_updates [snapshot_simps]:
  "ts_messages (withRun s r) = ts_messages s"
  "ts_messages (withMessage s m) = upsert msg_key m (ts_messages s)"
  by (simp_all add: withRun_def withMessage_def)

lemma findMessage_withRun [snapshot_simps]: "findMessage (withRun s r) i m = findMessage s i m"
  by (simp add: findMessage_def withRun_def)

lemma existingOrFresh_id [simp]: "rs_runId (existingOrFresh s i) = i"
  by (auto simp: existingOrFresh_def freshRun_def dest: run_store.lookup_key split: option.splits)

lemma updateCall_fields [simp]:
  "rs_runId (updateCall c f r) = rs_runId r" "rs_status (updateCall c f r) = rs_status r"
  "rs_failure (updateCall c f r) = rs_failure r"
  "rs_cancelReason (updateCall c f r) = rs_cancelReason r"
  by (simp_all add: updateCall_def)

lemma updateCall_status_same [simp]: "(updateCall c f r)\<lparr>rs_status := rs_status r\<rparr> = updateCall c f r"
  by (simp add: updateCall_def)

section \<open>Frames\<close>

text \<open>
  \<open>reframe\<close> replaces everything in a snapshot but its runs and messages. A handler commutes
  with it: it neither reads nor writes the thread id, the cursor or the buffer.
\<close>

definition reframe :: "string \<Rightarrow> nat \<Rightarrow> run_event list \<Rightarrow> thread_snapshot \<Rightarrow> thread_snapshot" where
  "reframe t n p s = s\<lparr>ts_threadId := t, ts_lastSeq := n, ts_pendingEvents := p\<rparr>"

lemma reframe_reads [snapshot_simps]:
  "findRun (reframe t n p s) i = findRun s i"
  "findMessage (reframe t n p s) i m = findMessage s i m"
  "existingOrFresh (reframe t n p s) i = existingOrFresh s i"
  "withRun (reframe t n p s) r = reframe t n p (withRun s r)"
  "withMessage (reframe t n p s) x = reframe t n p (withMessage s x)"
  "closeMessages (reframe t n p s) i = reframe t n p (closeMessages s i)"
  "ts_runs (reframe t n p s) = ts_runs s"
  "ts_messages (reframe t n p s) = ts_messages s"
  by (simp_all add: reframe_def findRun_def findMessage_def existingOrFresh_def withRun_def
      withMessage_def closeMessages_def)

lemma reframe_fields [simp]:
  "ts_threadId (reframe t n p s) = t" "ts_lastSeq (reframe t n p s) = n"
  "ts_pendingEvents (reframe t n p s) = p"
  by (simp_all add: reframe_def)

lemma reframe_same: "reframe (ts_threadId s) (ts_lastSeq s) (ts_pendingEvents s) s = s"
  by (simp add: reframe_def)

abbreviation reframeE :: "string \<Rightarrow> nat \<Rightarrow> run_event list \<Rightarrow> reduce_result \<Rightarrow> reduce_result" where
  "reframeE t n p \<equiv> map_sum id (reframe t n p)"

lemma asRunning_reframe:
  "asRunning (reframe t n p s) i = map_sum id (map_prod (reframe t n p) id) (asRunning s i)"
  by (auto simp: asRunning_def Let_def snapshot_simps split: sum.splits)

lemma asTerminal_reframe:
  "asTerminal (reframe t n p s) i st = map_sum id (map_prod (reframe t n p) id) (asTerminal s i st)"
  by (auto simp: asTerminal_def Let_def snapshot_simps split: sum.splits)

lemma completeRunMessages_reframe:
  "completeRunMessages (reframe t n p s) i m = reframeE t n p (completeRunMessages s i m)"
  by (auto simp: completeRunMessages_def snapshot_simps split: option.splits)

lemma bindE_reframe:
  assumes "m' = map_sum id (map_prod (reframe t n p) id) m"
    and "\<And>s r. f (reframe t n p s, r) = reframeE t n p (f (s, r))"
  shows "bindE m' f = reframeE t n p (bindE m f)"
  using assms by (cases m) auto

lemma applyEvent_reframe: "applyEvent (reframe t n p s) e = reframeE t n p (applyEvent s e)"
proof (cases e)
  case (RunStarted b)
  then show ?thesis
    by (auto simp: handler_defs Let_def snapshot_simps split: sum.splits)
next
  case (ApprovalResolved b c d r)
  then show ?thesis
    by (auto simp: handler_defs Let_def snapshot_simps split: option.splits sum.splits)
next
  case (ToolCompleted b c v a d)
  then show ?thesis
    by (auto simp: handler_defs snapshot_simps split: option.splits)
next
  case (ToolFailed b c v d)
  then show ?thesis
    by (auto simp: handler_defs snapshot_simps split: option.splits)
qed (simp_all add: handler_defs, (rule bindE_reframe, rule asRunning_reframe asTerminal_reframe,
      auto simp: snapshot_simps completeRunMessages_reframe Let_def split: option.splits sum.splits)+)

lemma applyEvent_frame:
  assumes "applyEvent s e = Inr s'"
  shows "ts_threadId s' = ts_threadId s" and "ts_lastSeq s' = ts_lastSeq s"
    and "ts_pendingEvents s' = ts_pendingEvents s"
proof -
  have "s' = reframe (ts_threadId s) (ts_lastSeq s) (ts_pendingEvents s) s'"
    using applyEvent_reframe [of "ts_threadId s" "ts_lastSeq s" "ts_pendingEvents s" s e] assms
    by (simp add: reframe_same)
  then show "ts_threadId s' = ts_threadId s" "ts_lastSeq s' = ts_lastSeq s"
      "ts_pendingEvents s' = ts_pendingEvents s"
    by (metis reframe_fields)+
qed

end
