(* ===== verification/Run_Protocol.thy ===== *)
theory Run_Protocol
  imports Reducer_Facts
begin

text \<open>
  The protocol one run follows, as a step relation on its snapshot: resuming, requesting a
  tool call, gating it, deciding the gate, settling the call, ending. It is the abstract
  specification of \<open>event-reducer.ts\<close> for a single run; the last section shows that every
  handler moves the run its event names along the protocol and leaves every other run alone.
\<close>

section \<open>The step relation\<close>

definition newCall :: "string \<Rightarrow> string \<Rightarrow> js \<Rightarrow> tool_call_snapshot" where
  "newCall c t a =
     \<lparr>tc_callId = c, tc_tool = t, tc_arguments = a, tc_status = TRequested, tc_result = None,
      tc_artifact = None, tc_error = None, tc_durationMs = None, tc_approval = None\<rparr>"

definition live :: "run_snapshot \<Rightarrow> bool" where
  "live r = (rs_status r = Running \<or> rs_status r = Waiting_approval \<and> hasPendingApproval r)"

inductive run_move :: "run_snapshot \<Rightarrow> run_snapshot \<Rightarrow> bool" where
  resume: "canTransition (rs_status r) Running \<Longrightarrow> run_move r (r\<lparr>rs_status := Running\<rparr>)"
| request: "live r \<Longrightarrow> c \<notin> tc_callId ` set (rs_toolCalls r) \<Longrightarrow>
    run_move r (r\<lparr>rs_toolCalls := rs_toolCalls r @ [newCall c t a]\<rparr>)"
| gate: "live r \<Longrightarrow> findCall r c = Some call \<Longrightarrow> tc_approval call = None \<Longrightarrow>
    run_move r ((updateCall c (\<lambda>x. x\<lparr>tc_approval :=
      Some \<lparr>ap_status = Pending, ap_expiresAt = w, ap_reason = None\<rparr>\<rparr>) r)
      \<lparr>rs_status := Waiting_approval\<rparr>)"
| decide: "findCall r c = Some call \<Longrightarrow> tc_approval call = Some a \<Longrightarrow> ap_status a = Pending \<Longrightarrow>
    r' = updateCall c (\<lambda>x. x\<lparr>tc_approval := Some (resolvedApproval a d reason)\<rparr>) r \<Longrightarrow>
    run_move r (if rs_status r = Waiting_approval \<and> \<not> hasPendingApproval r'
                then r'\<lparr>rs_status := Running\<rparr> else r')"
| settle: "findCall r c = Some call \<Longrightarrow> tc_status call = TRequested \<Longrightarrow>
    \<not> approval_is Pending call \<Longrightarrow>
    (is_completion res \<Longrightarrow> \<not> approval_is Denied call \<and> \<not> approval_is Timed_out call) \<Longrightarrow>
    run_move r (updateCall c (\<lambda>_. resolvedCall res call) r)"
| finish: "canTransition (rs_status r) st \<Longrightarrow> isTerminalStatus st \<Longrightarrow>
    (f \<noteq> None \<longleftrightarrow> st = Failed) \<Longrightarrow> (x \<noteq> None \<Longrightarrow> st = Cancelled) \<Longrightarrow>
    run_move r (r\<lparr>rs_status := st, rs_failure := or_else f (rs_failure r),
                  rs_cancelReason := or_else x (rs_cancelReason r)\<rparr>)"

section \<open>What the protocol keeps\<close>

definition wf_call :: "tool_call_snapshot \<Rightarrow> bool" where
  "wf_call c =
     (case tc_status c of
        TRequested \<Rightarrow> tc_result c = None \<and> tc_error c = None \<and> tc_artifact c = None \<and>
                      tc_durationMs c = None
      | TCompleted \<Rightarrow> tc_result c \<noteq> None \<and> tc_error c = None
      | TFailed \<Rightarrow> tc_result c = None \<and> tc_error c \<noteq> None \<and> tc_artifact c = None)"

definition wf_run :: "run_snapshot \<Rightarrow> bool" where
  "wf_run r =
     (distinct (map tc_callId (rs_toolCalls r)) \<and>
      list_all wf_call (rs_toolCalls r) \<and>
      (rs_status r = Waiting_approval \<longrightarrow> hasPendingApproval r) \<and>
      (rs_status r = Queued \<longrightarrow> rs_toolCalls r = []) \<and>
      (rs_failure r \<noteq> None \<longleftrightarrow> rs_status r = Failed) \<and>
      (rs_cancelReason r \<noteq> None \<longrightarrow> rs_status r = Cancelled))"

text \<open>
  How a call and a run may change between two snapshots: the request stays what it was, an
  outcome and a decision, once there, are final, calls are only appended, and the status
  follows the transition table.
\<close>

definition refused :: "tool_call_snapshot \<Rightarrow> bool" where
  "refused c = (approval_is Denied c \<or> approval_is Timed_out c)"

definition call_evolves :: "tool_call_snapshot \<Rightarrow> tool_call_snapshot \<Rightarrow> bool" where
  "call_evolves c c' =
     (tc_callId c' = tc_callId c \<and> tc_tool c' = tc_tool c \<and> tc_arguments c' = tc_arguments c \<and>
      (tc_status c \<noteq> TRequested \<longrightarrow>
         tc_status c' = tc_status c \<and> tc_result c' = tc_result c \<and> tc_error c' = tc_error c) \<and>
      (\<forall>a. tc_approval c = Some a \<longrightarrow>
         (\<exists>a'. tc_approval c' = Some a' \<and> ap_expiresAt a' = ap_expiresAt a \<and>
               (ap_status a \<noteq> Pending \<longrightarrow> a' = a))) \<and>
      (refused c \<and> tc_status c = TRequested \<longrightarrow> tc_status c' \<noteq> TCompleted))"

definition run_evolves :: "run_snapshot \<Rightarrow> run_snapshot \<Rightarrow> bool" where
  "run_evolves r r' =
     (rs_runId r' = rs_runId r \<and> canTransition\<^sup>*\<^sup>* (rs_status r) (rs_status r') \<and>
      list_all2 call_evolves (rs_toolCalls r)
        (take (length (rs_toolCalls r)) (rs_toolCalls r')))"

lemma call_evolves_refl [simp]: "call_evolves c c"
  by (simp add: call_evolves_def)

lemma refused_stays: "call_evolves a b \<Longrightarrow> refused a \<Longrightarrow> refused b"
  by (force simp: call_evolves_def refused_def approval_is_def split: option.splits)

lemma call_evolves_trans:
  assumes "call_evolves a b" and "call_evolves b c"
  shows "call_evolves a c"
proof -
  have "tc_status c \<noteq> TCompleted" if "refused a" "tc_status a = TRequested"
    using that refused_stays [OF assms(1)] assms
    by (cases "tc_status b") (auto simp: call_evolves_def)
  with assms show ?thesis by (simp add: call_evolves_def) metis
qed

lemma run_evolves_refl [simp]: "run_evolves r r"
  by (simp add: run_evolves_def list_all2_same)

lemma run_evolves_trans:
  assumes "run_evolves a b" and "run_evolves b c"
  shows "run_evolves a c"
proof -
  let ?n = "length (rs_toolCalls a)"
  have n: "?n \<le> length (rs_toolCalls b)"
    using assms(1) by (auto simp: run_evolves_def dest: list_all2_lengthD)
  from assms(2) have "list_all2 call_evolves (take ?n (rs_toolCalls b))
      (take ?n (take (length (rs_toolCalls b)) (rs_toolCalls c)))"
    by (auto simp: run_evolves_def simp del: take_take intro: list_all2_takeI)
  then have "list_all2 call_evolves (take ?n (rs_toolCalls b)) (take ?n (rs_toolCalls c))"
    using n by (simp add: min_absorb1)
  then have "list_all2 call_evolves (rs_toolCalls a) (take ?n (rs_toolCalls c))"
    using assms(1) call_evolves_trans by (auto simp: run_evolves_def intro: list_all2_trans)
  then show ?thesis using assms by (auto simp: run_evolves_def)
qed

lemma list_all2_map_self:
  "(\<And>x. x \<in> set xs \<Longrightarrow> P x (f x)) \<Longrightarrow> list_all2 P xs (map f xs)"
  by (induction xs) auto

lemma findCall_unique:
  assumes "wf_run r" and "findCall r c = Some call" and "x \<in> set (rs_toolCalls r)" and "tc_callId x = c"
  shows "x = call"
proof -
  have "find (\<lambda>y. tc_callId y = tc_callId x) (rs_toolCalls r) = Some x"
    using assms(1,3) by (intro find_key_distinct) (auto simp: wf_run_def)
  with assms(2,4) show ?thesis by (simp add: findCall_def)
qed

lemma run_evolves_update:
  assumes "wf_run r" and "findCall r c = Some call" and "call_evolves call (f call)"
    and "canTransition\<^sup>*\<^sup>* (rs_status r) st"
  shows "run_evolves r ((updateCall c f r)\<lparr>rs_status := st\<rparr>)"
proof -
  have "list_all2 call_evolves (rs_toolCalls r)
      (map (\<lambda>x. if tc_callId x = c then f x else x) (rs_toolCalls r))"
    using findCall_unique [OF assms(1,2)] assms(3) by (intro list_all2_map_self) auto
  with assms(4) show ?thesis
    by (simp add: run_evolves_def updateCall_def)
qed

lemma findCall_in: "findCall r c = Some call \<Longrightarrow> call \<in> set (rs_toolCalls r) \<and> tc_callId call = c"
  by (auto simp: findCall_def dest: find_key_Some [where key = tc_callId])

lemma resolvedApproval_fields [simp]:
  "ap_status (resolvedApproval a d r) = decision_status d"
  "ap_expiresAt (resolvedApproval a d r) = ap_expiresAt a"
  by (auto simp: resolvedApproval_def Let_def split: option.splits)

lemma resolvedCall_fields [simp]:
  "tc_callId (resolvedCall res c) = tc_callId c" "tc_tool (resolvedCall res c) = tc_tool c"
  "tc_arguments (resolvedCall res c) = tc_arguments c"
  "tc_approval (resolvedCall res c) = tc_approval c"
  by (cases res; simp)+

lemma live_steps:
  assumes "live r"
  shows "canTransition\<^sup>*\<^sup>* (rs_status r) Waiting_approval"
  using assms by (auto simp: live_def canTransition_def)

lemma run_move_evolves:
  assumes "run_move r r'" and "wf_run r"
  shows "run_evolves r r'"
  using assms
proof (induction rule: run_move.induct)
  case (gate r c call w)
  then show ?case
    by (intro live_steps run_evolves_update [where call = call]) (auto simp: call_evolves_def refused_def approval_is_def)
next
  case (decide r c call a r' d reason)
  have upd: "run_evolves r (r'\<lparr>rs_status := st\<rparr>)" if "canTransition\<^sup>*\<^sup>* (rs_status r) st" for st
    unfolding decide.hyps(4)
    by (rule run_evolves_update [OF decide.prems decide.hyps(1) _ that])
      (use decide.hyps(2,3) in \<open>simp add: call_evolves_def refused_def approval_is_def\<close>)
  have "canTransition\<^sup>*\<^sup>* Waiting_approval Running"
    by (rule r_into_rtranclp) (simp add: canTransition_def)
  then show ?case
    using upd [of Running] upd [of "rs_status r"] decide.hyps(4) by auto
next
  case (settle r c call res)
  have "run_evolves r ((updateCall c (\<lambda>_. resolvedCall res call) r)\<lparr>rs_status := rs_status r\<rparr>)"
    using settle.prems settle.hyps
    by (intro run_evolves_update [where f = "\<lambda>_. resolvedCall res call" and call = call])
      (cases res; auto simp: call_evolves_def refused_def)+
  then show ?case by simp
qed (auto simp: run_evolves_def list_all2_same)

lemma wf_calls_update:
  assumes "wf_run r" and "findCall r c = Some call"
    and "tc_callId (f call) = tc_callId call" and "wf_call call \<Longrightarrow> wf_call (f call)"
  shows "distinct (map tc_callId (rs_toolCalls (updateCall c f r)))"
    and "list_all wf_call (rs_toolCalls (updateCall c f r))"
proof -
  note same = findCall_unique [OF assms(1,2)]
  have "map tc_callId (rs_toolCalls (updateCall c f r)) = map tc_callId (rs_toolCalls r)"
    using same assms(3) by (auto simp: updateCall_def)
  then show "distinct (map tc_callId (rs_toolCalls (updateCall c f r)))"
    using assms(1) by (simp add: wf_run_def)
  have "x \<in> set (rs_toolCalls r) \<Longrightarrow> wf_call x" for x
    using assms(1) by (simp add: wf_run_def list_all_iff)
  then show "list_all wf_call (rs_toolCalls (updateCall c f r))"
    using same assms(4) by (auto simp: updateCall_def list_all_iff)
qed

lemma hasPending_update:
  assumes "wf_run r" and "findCall r c = Some call"
  shows "approval_is Pending (f call) \<Longrightarrow> hasPendingApproval (updateCall c f r)"
    and "approval_is Pending (f call) = approval_is Pending call \<Longrightarrow>
         hasPendingApproval (updateCall c f r) = hasPendingApproval r"
  using findCall_unique [OF assms] findCall_in [OF assms(2)]
  by (auto simp: hasPendingApproval_def updateCall_def list_ex_iff)

lemma wf_run_updateI:
  assumes "wf_run r" and "findCall r c = Some call"
    and "tc_callId (f call) = tc_callId call" and "wf_call call \<Longrightarrow> wf_call (f call)"
    and "st = rs_status r \<or> rs_status r \<in> {Running, Waiting_approval} \<and> st \<in> {Running, Waiting_approval}"
    and "st = Waiting_approval \<Longrightarrow> hasPendingApproval (updateCall c f r)"
  shows "wf_run ((updateCall c f r)\<lparr>rs_status := st\<rparr>)"
proof -
  have "rs_toolCalls r \<noteq> []" using findCall_in [OF assms(2)] by auto
  then have "rs_status r \<noteq> Queued" using assms(1) by (auto simp: wf_run_def)
  with assms wf_calls_update [where f = f, OF assms(1-4)] show ?thesis
    by (auto simp: wf_run_def hasPendingApproval_def)
qed

lemma wf_call_resolved: "wf_call c \<Longrightarrow> tc_status c = TRequested \<Longrightarrow> wf_call (resolvedCall res c)"
  by (cases res) (auto simp: wf_call_def or_else_def split: option.splits)

lemma active_clean:
  assumes "wf_run r" and "canTransition (rs_status r) st"
  shows "rs_failure r = None" and "rs_cancelReason r = None"
  using assms by (auto simp: wf_run_def canTransition_def)

lemma run_move_wf:
  assumes "run_move r r'" and "wf_run r"
  shows "wf_run r'"
  using assms
proof (induction rule: run_move.induct)
  case (resume r)
  then show ?case
    using active_clean [OF resume.prems resume.hyps] by (simp add: wf_run_def)
next
  case (request r c t a)
  then show ?case
    by (auto simp: wf_run_def live_def newCall_def wf_call_def hasPendingApproval_def)
next
  case (gate r c call w)
  let ?f = "\<lambda>x. x\<lparr>tc_approval := Some \<lparr>ap_status = Pending, ap_expiresAt = w, ap_reason = None\<rparr>\<rparr>"
  have "hasPendingApproval (updateCall c ?f r)"
    by (rule hasPending_update(1) [where f = ?f, OF gate.prems gate.hyps(2)])
      (simp add: approval_is_def)
  then show ?case
    using gate by (intro wf_run_updateI [where f = ?f and call = call])
        (auto simp: live_def wf_call_def split: tool_call_status.splits)
next
  case (decide r c call a r' d reason)
  let ?f = "\<lambda>x. x\<lparr>tc_approval := Some (resolvedApproval a d reason)\<rparr>"
  have "wf_run ((updateCall c ?f r)\<lparr>rs_status := st\<rparr>)"
    if "st = rs_status r \<or> rs_status r = Waiting_approval \<and> st = Running"
      "st = Waiting_approval \<Longrightarrow> hasPendingApproval (updateCall c ?f r)" for st
    using decide.prems decide.hyps(1) that
    by (intro wf_run_updateI [where f = ?f and call = call])
      (auto simp: wf_call_def split: tool_call_status.splits)
  from this [of Running] this [of "rs_status r"] show ?case
    using decide.hyps(4) by auto
next
  case (settle r c call res)
  have pend: "hasPendingApproval (updateCall c (\<lambda>_. resolvedCall res call) r) = hasPendingApproval r"
    by (rule hasPending_update(2) [where f = "\<lambda>_. resolvedCall res call", OF settle.prems settle.hyps(1)])
      (simp add: approval_is_def)
  have "wf_run ((updateCall c (\<lambda>_. resolvedCall res call) r)\<lparr>rs_status := rs_status r\<rparr>)"
    using settle.prems settle.hyps(1,2) pend
    by (intro wf_run_updateI [where f = "\<lambda>_. resolvedCall res call" and call = call])
      (auto simp: wf_call_resolved wf_run_def)
  then show ?case by simp
next
  case (finish r st f x)
  note clean = active_clean [OF finish.prems finish.hyps(1)]
  from finish clean show ?case
    by (cases x) (auto simp: wf_run_def or_else_def isTerminalStatus_iff hasPendingApproval_def
        split: option.splits)
qed

lemma run_moves_keep:
  assumes "run_move\<^sup>*\<^sup>* r r'" and "wf_run r"
  shows "wf_run r' \<and> run_evolves r r'"
  using assms
proof (induction rule: rtranclp_induct)
  case (step r' r'')
  then show ?case
    using run_move_wf run_move_evolves run_evolves_trans by blast
qed simp

section \<open>The handlers follow the protocol\<close>

text \<open>
  \<open>moved s i s'\<close>: between the snapshots no run but \<open>i\<close> changed, and \<open>i\<close> (which starts as a
  queued run with no calls when the snapshot does not hold it) moved along the protocol.
\<close>

definition moved :: "thread_snapshot \<Rightarrow> string \<Rightarrow> thread_snapshot \<Rightarrow> bool" where
  "moved s i s' =
     (ts_runs s' = ts_runs s \<or>
      (\<exists>r. run_move\<^sup>*\<^sup>* (existingOrFresh s i) r \<and> rs_runId r = i \<and> rs_status r \<noteq> Queued \<and>
           ts_runs s' = upsert rs_runId r (ts_runs s)))"

lemma existingOrFresh_found: "findRun s i = Some r \<Longrightarrow> existingOrFresh s i = r"
  by (simp add: existingOrFresh_def)

lemma freshRun_status [simp]: "rs_status (freshRun i) = Queued"
  by (simp add: freshRun_def INITIAL_RUN_STATUS_def)

lemma asRunning_Inr:
  assumes "asRunning s i = Inr (s', r)"
  shows "rs_runId r = i" and "live r" and "run_move\<^sup>*\<^sup>* (existingOrFresh s i) r"
    and "s' = s \<and> findRun s i = Some r \<or> s' = withRun s r"
proof -
  let ?run = "existingOrFresh s i"
  have none: "findRun s i = None \<Longrightarrow> rs_status ?run = Queued"
    by (simp add: existingOrFresh_def)
  have "r = ?run \<and> live r \<and> s' = s \<and> findRun s i = Some r \<or>
      canTransition (rs_status ?run) Running \<and> r = ?run\<lparr>rs_status := Running\<rparr> \<and> s' = withRun s r"
    using assms none
    by (auto simp: asRunning_def Let_def live_def existingOrFresh_found
        split: if_splits sum.splits dest: existingOrFresh_found)
  then show "rs_runId r = i" "live r" "run_move\<^sup>*\<^sup>* ?run r"
      "s' = s \<and> findRun s i = Some r \<or> s' = withRun s r"
    using run_move.resume [of ?run] by (auto simp: live_def)
qed

lemma asTerminal_Inr:
  assumes "asTerminal s i st = Inr (s', r)"
  shows "canTransition (rs_status (existingOrFresh s i)) st"
    and "r = (existingOrFresh s i)\<lparr>rs_status := st\<rparr>" and "s' = withRun s r"
  using assms by (auto simp: asTerminal_def Let_def split: sum.splits)

lemma completeRunMessages_runs:
  "completeRunMessages s i m = Inr s' \<Longrightarrow> ts_runs s' = ts_runs s"
  by (auto simp: completeRunMessages_def snapshot_simps split: option.splits if_splits)

lemma moved_after_running:
  assumes "asRunning s i = Inr (s', r)" and "run_move r r'" and "rs_runId r' = i"
    and "rs_status r' \<noteq> Queued"
  shows "moved s i (withRun s' r')"
proof -
  note r = asRunning_Inr [OF assms(1)]
  have "withRun s' r' = withRun s r'"
    using r(1,4) assms(3) by (auto simp: snapshot_simps)
  moreover have "run_move\<^sup>*\<^sup>* (existingOrFresh s i) r'"
    using r(3) assms(2) by (rule rtranclp.rtrancl_into_rtrancl)
  ultimately show ?thesis
    using assms(3,4) by (auto simp: moved_def snapshot_simps)
qed

lemma moved_running_only:
  assumes "asRunning s i = Inr (s', r)" and "ts_runs s'' = ts_runs s'"
  shows "moved s i s''"
  using asRunning_Inr [OF assms(1)] assms(2)
  by (auto simp: moved_def snapshot_simps live_def)

lemma moved_after_found:
  assumes "findRun s i = Some r" and "run_move r r'" and "rs_runId r' = rs_runId r"
    and "rs_status r' \<noteq> Queued"
  shows "moved s i (withRun s r')"
  using assms run_store.lookup_key [OF assms(1)]
  by (auto simp: moved_def snapshot_simps existingOrFresh_found)

lemma moved_after_terminal:
  assumes "asTerminal s i st = Inr (s', r)" and "isTerminalStatus st"
    and "f \<noteq> None \<longleftrightarrow> st = Failed" and "x \<noteq> None \<Longrightarrow> st = Cancelled"
    and "ts_runs s'' = upsert rs_runId
           (r\<lparr>rs_failure := or_else f (rs_failure r), rs_cancelReason := or_else x (rs_cancelReason r)\<rparr>)
           (ts_runs s)"
  shows "moved s i s''"
proof -
  note r = asTerminal_Inr [OF assms(1)]
  have "run_move (existingOrFresh s i)
      (r\<lparr>rs_failure := or_else f (rs_failure r), rs_cancelReason := or_else x (rs_cancelReason r)\<rparr>)"
    using run_move.finish [OF r(1) assms(2,3,4)] by (simp add: r(2))
  then show ?thesis
    using assms(2,5) unfolding moved_def
    by (intro disjI2 exI conjI r_into_rtranclp) (auto simp: r(2) isTerminalStatus_iff)
qed

lemma approvalRequested_moved:
  assumes "reduceApprovalRequested s i c w = Inr s'"
  shows "moved s i s'"
proof -
  let ?f = "\<lambda>x. x\<lparr>tc_approval := Some \<lparr>ap_status = Pending, ap_expiresAt = w, ap_reason = None\<rparr>\<rparr>"
  from assms obtain t r where r: "asRunning s i = Inr (t, r)"
    and body: "reduceApprovalRequested s i c w = Inr s'"
    by (auto simp: handler_defs result_simps)
  from body obtain call where call: "findCall r c = Some call" "tc_approval call = None"
    by (auto simp: handler_defs r split: option.splits if_splits)
  have s': "s' = withRun t ((updateCall c ?f r)\<lparr>rs_status := Waiting_approval\<rparr>)"
  proof (cases "rs_status r = Waiting_approval")
    case True
    then have same: "(updateCall c ?f r)\<lparr>rs_status := Waiting_approval\<rparr> = updateCall c ?f r"
      using updateCall_status_same [where c = c and f = ?f and r = r] by (simp only:)
    show ?thesis
      unfolding same using True body call by (simp add: handler_defs r Let_def)
  next
    case False
    with body call show ?thesis
      by (auto simp: handler_defs r Let_def split: sum.splits)
  qed
  have "run_move r ((updateCall c ?f r)\<lparr>rs_status := Waiting_approval\<rparr>)"
    using asRunning_Inr(2) [OF r] call by (rule run_move.gate)
  then show ?thesis
    unfolding s' using asRunning_Inr(1) [OF r] by (intro moved_after_running [OF r]) auto
qed

lemma approvalResolved_moved:
  assumes "reduceApprovalResolved s i c d reason = Inr s'"
    and "\<And>r. r \<in> set (ts_runs s) \<Longrightarrow> rs_status r \<noteq> Queued"
  shows "moved s i s'"
proof -
  from assms(1) obtain r call a where r: "findRun s i = Some r" "findCall r c = Some call"
      "tc_approval call = Some a" "ap_status a = Pending"
    and s': "s' = withRun s (let r' = updateCall c (\<lambda>x. x\<lparr>tc_approval :=
        Some (resolvedApproval a d reason)\<rparr>) r in
        if rs_status r = Waiting_approval \<and> \<not> hasPendingApproval r'
        then r'\<lparr>rs_status := Running\<rparr> else r')"
    by (auto simp: handler_defs Let_def split: option.splits if_splits sum.splits)
  have "rs_status r \<noteq> Queued"
    using r(1) assms(2) by (auto simp: findRun_def find_Some_iff)
  then show ?thesis
    unfolding s' Let_def
    by (intro moved_after_found [OF r(1)] run_move.decide [OF r(2-4) refl]) auto
qed

lemma toolResolution_moved:
  assumes "reduceToolResolution s i c res = Inr s'"
    and "\<And>r. r \<in> set (ts_runs s) \<Longrightarrow> rs_status r \<noteq> Queued"
  shows "moved s i s'"
proof -
  from assms(1) obtain r call where r: "findRun s i = Some r" "findCall r c = Some call"
      "tc_status call = TRequested" "\<not> approval_is Pending call"
      "is_completion res \<Longrightarrow> \<not> approval_is Denied call \<and> \<not> approval_is Timed_out call"
    and s': "s' = withRun s (updateCall c (\<lambda>_. resolvedCall res call) r)"
    by (auto simp: handler_defs split: option.splits if_splits)
  have "rs_status r \<noteq> Queued"
    using r(1) assms(2) by (auto simp: findRun_def find_Some_iff)
  then show ?thesis
    unfolding s' by (intro moved_after_found [OF r(1)] run_move.settle [OF r(2-5)]) auto
qed

lemma applyEvent_moved:
  assumes "applyEvent s e = Inr s'"
    and "\<And>r. r \<in> set (ts_runs s) \<Longrightarrow> rs_status r \<noteq> Queued"
  shows "moved s (ev_runId e) s'"
proof (cases e)
  case (RunStarted b)
  let ?r = "existingOrFresh s (runId b)"
  from assms(1) RunStarted have "canTransition (rs_status ?r) Running"
    and "s' = withRun s (?r\<lparr>rs_status := Running\<rparr>)"
    by (auto simp: handler_defs Let_def split: sum.splits)
  then show ?thesis
    using RunStarted run_move.resume [of ?r] by (auto simp: moved_def snapshot_simps)
next
  case (TokenDelta b m d)
  then obtain u r where r: "asRunning s (runId b) = Inr (u, r)"
    using assms(1) by (auto simp: handler_defs result_simps)
  with assms(1) TokenDelta have "ts_runs s' = ts_runs u"
    by (auto simp: handler_defs snapshot_simps split: option.splits if_splits)
  with TokenDelta show ?thesis by (auto intro: moved_running_only [OF r])
next
  case (ToolRequested b c t a)
  from assms(1) ToolRequested obtain u r where r: "asRunning s (runId b) = Inr (u, r)"
      "c \<notin> tc_callId ` set (rs_toolCalls r)"
    and s': "s' = withRun u (r\<lparr>rs_toolCalls := rs_toolCalls r @ [newCall c t a]\<rparr>)"
    by (auto simp: handler_defs result_simps newCall_def list_ex_iff split: if_splits)
  note live = asRunning_Inr [OF r(1)]
  have "moved s (runId b) s'"
    unfolding s' using live(1,2)
    by (intro moved_after_running [OF r(1)] run_move.request [OF live(2) r(2)]) (auto simp: live_def)
  with ToolRequested show ?thesis by simp
next
  case (RunCompleted b m)
  then obtain u r where r: "asTerminal s (runId b) Completed = Inr (u, r)"
    and "completeRunMessages u (runId b) m = Inr s'"
    using assms(1) by (auto simp: handler_defs result_simps)
  then have "ts_runs s' = upsert rs_runId r (ts_runs s)"
    using asTerminal_Inr [OF r] by (simp add: completeRunMessages_runs snapshot_simps)
  then show ?thesis
    using RunCompleted moved_after_terminal [OF r, of None None]
    by (simp add: isTerminalStatus_iff or_else_def)
next
  case (RunFailed b x c)
  then obtain u r where r: "asTerminal s (runId b) Failed = Inr (u, r)"
    and "completeRunMessages (withRun u (r\<lparr>rs_failure := Some \<lparr>rf_message = x, rf_code = c\<rparr>\<rparr>))
           (runId b) None = Inr s'"
    using assms(1) by (auto simp: handler_defs result_simps)
  then have "ts_runs s' = upsert rs_runId (r\<lparr>rs_failure := Some \<lparr>rf_message = x, rf_code = c\<rparr>\<rparr>) (ts_runs s)"
    using asTerminal_Inr [OF r] by (simp add: completeRunMessages_runs snapshot_simps)
  then show ?thesis
    using RunFailed moved_after_terminal [OF r, of "Some \<lparr>rf_message = x, rf_code = c\<rparr>" None]
    by (simp add: isTerminalStatus_iff or_else_def)
next
  case (RunCancelled b x)
  let ?r' = "\<lambda>r. case x of None \<Rightarrow> r | Some y \<Rightarrow> r\<lparr>rs_cancelReason := Some y\<rparr>"
  obtain u r where r: "asTerminal s (runId b) Cancelled = Inr (u, r)"
    and "completeRunMessages (withRun u (?r' r)) (runId b) None = Inr s'"
    using assms(1) RunCancelled by (auto simp: handler_defs result_simps)
  then have "ts_runs s' = upsert rs_runId (?r' r) (ts_runs s)"
    using asTerminal_Inr [OF r]
    by (auto simp: completeRunMessages_runs snapshot_simps split: option.splits)
  moreover have "?r' r = r\<lparr>rs_failure := or_else None (rs_failure r),
      rs_cancelReason := or_else x (rs_cancelReason r)\<rparr>"
    by (simp add: or_else_def split: option.splits)
  ultimately show ?thesis
    using RunCancelled moved_after_terminal [OF r, of None x]
    by (simp add: isTerminalStatus_iff)
next
  case (RunSteered b m t)
  with assms(1) show ?thesis
    by (auto simp: handler_defs result_simps snapshot_simps split: if_splits
        intro: moved_running_only)
qed (use assms approvalRequested_moved approvalResolved_moved toolResolution_moved in auto)

end
