(* ===== verification/Reducer_Invariants.thy ===== *)
theory Reducer_Invariants
  imports Run_Protocol
begin

text \<open>
  The invariant of a thread snapshot (unique identities, runs that follow the protocol,
  assistant messages complete exactly when their run has ended, a sorted buffer strictly ahead
  of the cursor), that every fold of events keeps it, and that a snapshot only ever evolves:
  statuses along the transition table, outcomes and decisions final.
\<close>

section \<open>The invariant\<close>

definition ended :: "thread_snapshot \<Rightarrow> string \<Rightarrow> bool option" where
  "ended s i = map_option (\<lambda>r. isTerminalStatus (rs_status r)) (findRun s i)"

definition wf_message :: "(string \<Rightarrow> bool option) \<Rightarrow> message_snapshot \<Rightarrow> bool" where
  "wf_message T m =
     (T (ms_runId m) \<noteq> None \<and>
      (ms_complete m \<longleftrightarrow> ms_role m = User \<or> T (ms_runId m) = Some True))"

definition wf_runs :: "thread_snapshot \<Rightarrow> bool" where
  "wf_runs s =
     (distinct (map rs_runId (ts_runs s)) \<and>
      list_all (\<lambda>r. wf_run r \<and> rs_status r \<noteq> Queued) (ts_runs s))"

definition wf_messages :: "thread_snapshot \<Rightarrow> bool" where
  "wf_messages s =
     (distinct (map msg_key (ts_messages s)) \<and> list_all (wf_message (ended s)) (ts_messages s))"

definition wf_buffer :: "nat \<Rightarrow> thread_snapshot \<Rightarrow> bool" where
  "wf_buffer n s =
     (sorted_wrt (<) (map ev_seq (ts_pendingEvents s)) \<and>
      list_all (\<lambda>e. n < ev_seq e \<and> wf_event e \<and> threadId (ev_base e) = ts_threadId s)
        (ts_pendingEvents s))"

definition wf_snapshot :: "thread_snapshot \<Rightarrow> bool" where
  "wf_snapshot s = (wf_runs s \<and> wf_messages s \<and> wf_buffer (ts_lastSeq s + 1) s)"

definition snapshot_evolves :: "thread_snapshot \<Rightarrow> thread_snapshot \<Rightarrow> bool" where
  "snapshot_evolves s s' =
     (ts_threadId s' = ts_threadId s \<and> ts_lastSeq s \<le> ts_lastSeq s' \<and>
      (\<exists>new. map rs_runId (ts_runs s') = map rs_runId (ts_runs s) @ new) \<and>
      (\<forall>i. run_evolves (existingOrFresh s i) (existingOrFresh s' i)))"

section \<open>Runs\<close>

lemma wf_freshRun [simp]: "wf_run (freshRun i)"
  by (simp add: wf_run_def freshRun_def INITIAL_RUN_STATUS_def hasPendingApproval_def)

lemma wf_existingOrFresh: "wf_runs s \<Longrightarrow> wf_run (existingOrFresh s i)"
  by (auto simp: existingOrFresh_def wf_runs_def list_all_iff findRun_def find_Some_iff
      split: option.splits)

lemma existingOrFresh_withRun_upsert:
  assumes "ts_runs s' = upsert rs_runId r (ts_runs s)"
  shows "existingOrFresh s' i = (if i = rs_runId r then r else existingOrFresh s i)"
  using assms by (simp add: existingOrFresh_def findRun_def)

lemma moved_wf_runs:
  assumes "moved s i s'" and "wf_runs s"
  shows "wf_runs s'"
  using assms(1) unfolding moved_def
proof (elim disjE exE conjE)
  fix r
  assume r: "run_move\<^sup>*\<^sup>* (existingOrFresh s i) r" "rs_status r \<noteq> Queued"
    and s': "ts_runs s' = upsert rs_runId r (ts_runs s)"
  have "wf_run r" using run_moves_keep [OF r(1)] wf_existingOrFresh [OF assms(2)] by simp
  with assms(2) r(2) show ?thesis
    by (auto simp: wf_runs_def s' list_all_iff set_upsert)
qed (use assms(2) in \<open>simp add: wf_runs_def\<close>)

lemma moved_run_evolves:
  assumes "moved s i s'" and "wf_runs s"
  shows "run_evolves (existingOrFresh s j) (existingOrFresh s' j)"
  using assms(1) unfolding moved_def
proof (elim disjE exE conjE)
  fix r
  assume r: "run_move\<^sup>*\<^sup>* (existingOrFresh s i) r" "rs_runId r = i"
    and s': "ts_runs s' = upsert rs_runId r (ts_runs s)"
  show ?thesis
    using run_moves_keep [OF r(1)] wf_existingOrFresh [OF assms(2)] r(2)
    by (auto simp: existingOrFresh_withRun_upsert [OF s'])
qed (simp add: existingOrFresh_def findRun_def)

lemma moved_run_order: "moved s i s' \<Longrightarrow> \<exists>new. map rs_runId (ts_runs s') = map rs_runId (ts_runs s) @ new"
  by (auto simp: moved_def keys_upsert)

lemma applyEvent_wf_runs:
  assumes "applyEvent s e = Inr s'" and "wf_runs s"
  shows "wf_runs s'" and "run_evolves (existingOrFresh s j) (existingOrFresh s' j)"
    and "\<exists>new. map rs_runId (ts_runs s') = map rs_runId (ts_runs s) @ new"
proof -
  have "moved s (ev_runId e) s'"
    using assms by (intro applyEvent_moved) (auto simp: wf_runs_def list_all_iff)
  then show "wf_runs s'" "run_evolves (existingOrFresh s j) (existingOrFresh s' j)"
      "\<exists>new. map rs_runId (ts_runs s') = map rs_runId (ts_runs s) @ new"
    using assms(2) moved_wf_runs moved_run_evolves moved_run_order by blast+
qed

section \<open>Messages\<close>

lemma ended_updates [snapshot_simps]:
  "ended (withRun s r) j = (if j = rs_runId r then Some (isTerminalStatus (rs_status r)) else ended s j)"
  "ended (withMessage s m) = ended s"
  "ended (closeMessages s i) = ended s"
  by (auto simp: ended_def snapshot_simps fun_eq_iff)

lemma ended_None: "ended s i = None \<longleftrightarrow> findRun s i = None"
  by (simp add: ended_def)

lemma not_terminal_can_move: "canTransition st st' \<Longrightarrow> \<not> isTerminalStatus st"
  using terminal_no_step by blast

lemma live_not_terminal: "live r \<Longrightarrow> \<not> isTerminalStatus (rs_status r)"
  by (auto simp: live_def isTerminalStatus_iff)

lemma asRunning_ended:
  assumes "asRunning s i = Inr (s', r)"
  shows "ended s' j = (if j = i then Some False else ended s j)"
    and "ts_messages s' = ts_messages s" and "ended s i \<in> {None, Some False}"
proof -
  note r = asRunning_Inr [OF assms]
  show "ended s' j = (if j = i then Some False else ended s j)" "ts_messages s' = ts_messages s"
    using r live_not_terminal [OF r(2)] by (auto simp: snapshot_simps) (auto simp: ended_def)
  have "\<not> isTerminalStatus (rs_status (existingOrFresh s i))"
    using assms live_not_terminal [OF r(2)]
    by (auto simp: asRunning_def Let_def isTerminalStatus_iff canTransition_def
        split: if_splits sum.splits)
  then show "ended s i \<in> {None, Some False}"
    by (auto simp: ended_def existingOrFresh_def split: option.splits)
qed

lemma wf_messages_mono:
  assumes "wf_messages s" and "ts_messages s' = ts_messages s"
    and "\<And>j. ended s j \<noteq> None \<Longrightarrow> ended s' j = ended s j"
  shows "wf_messages s'"
  using assms by (auto simp: wf_messages_def list_all_iff wf_message_def)

lemma wf_messages_withMessage:
  assumes "wf_messages s" and "wf_message (ended s) m"
  shows "wf_messages (withMessage s m)"
  using assms by (auto simp: wf_messages_def snapshot_simps list_all_iff set_upsert)

lemma wf_messages_running:
  assumes "asRunning s i = Inr (s', r)" and "wf_messages s"
  shows "wf_messages s'"
proof (rule wf_messages_mono [OF assms(2)])
  note r = asRunning_ended [OF assms(1)]
  show "ts_messages s' = ts_messages s" by (rule r(2))
  show "ended s j \<noteq> None \<Longrightarrow> ended s' j = ended s j" for j
    using r(1) [of j] r(3) by (cases "j = i") auto
qed

lemma wf_messages_withRun:
  assumes "wf_messages s" and "ended s (rs_runId r) \<in> {None, Some (isTerminalStatus (rs_status r))}"
  shows "wf_messages (withRun s r)"
proof (rule wf_messages_mono [OF assms(1)])
  show "ts_messages (withRun s r) = ts_messages s" by (simp add: snapshot_simps)
  show "ended s j \<noteq> None \<Longrightarrow> ended (withRun s r) j = ended s j" for j
    using assms(2) by (cases "j = rs_runId r") (auto simp: snapshot_simps)
qed

lemma findMessage_wf:
  assumes "wf_messages s" and "findMessage s i k = Some m"
  shows "wf_message (ended s) m" and "ms_runId m = i" and "ms_id m = k"
proof -
  from assms(2) have m: "m \<in> set (ts_messages s)" "msg_key m = (i, k)"
    using find_key_Some [where key = msg_key and k = "(i, k)" and x = m and xs = "ts_messages s"]
    by (simp_all add: findMessage_def)
  then show "ms_runId m = i" "ms_id m = k" by simp_all
  show "wf_message (ended s) m" using m(1) assms(1) by (simp add: wf_messages_def list_all_iff)
qed

lemma closeMessages_wf:
  assumes "distinct (map msg_key (ts_messages s))" and "ended s i = Some True"
    and "\<And>m. m \<in> set (ts_messages s) \<Longrightarrow> ms_runId m \<noteq> i \<Longrightarrow> wf_message (ended s) m"
    and "\<And>m. m \<in> set (ts_messages s) \<Longrightarrow> ms_role m = User \<Longrightarrow> ms_complete m"
  shows "wf_messages (closeMessages s i)"
proof -
  have "map msg_key (ts_messages (closeMessages s i)) = map msg_key (ts_messages s)"
    by (simp add: closeMessages_def)
  moreover have "list_all (wf_message (ended s)) (ts_messages (closeMessages s i))"
    using assms(2-4)
    by (auto simp: closeMessages_def list_all_iff wf_message_def) (metis message_role.exhaust)+
  ultimately show ?thesis
    using assms(1) by (simp add: wf_messages_def snapshot_simps)
qed

lemma completeRunMessages_wf:
  assumes "completeRunMessages (withRun s r) i k = Inr s'" and "wf_messages s"
    and "rs_runId r = i" and "isTerminalStatus (rs_status r)"
  shows "wf_messages s'"
proof -
  have e: "ended (withRun s r) j = (if j = i then Some True else ended s j)" for j
    using assms(3,4) by (simp add: snapshot_simps)
  have close: "wf_messages (closeMessages t i)"
    if t: "ended t = ended (withRun s r)" "distinct (map msg_key (ts_messages t))"
      "\<And>m. m \<in> set (ts_messages t) \<Longrightarrow>
        m \<in> set (ts_messages s) \<or> ms_runId m = i \<and> ms_role m = Assistant" for t
  proof (rule closeMessages_wf)
    show "m \<in> set (ts_messages t) \<Longrightarrow> ms_runId m \<noteq> i \<Longrightarrow> wf_message (ended t) m" for m
      using t(3) [of m] assms(2) e
      by (auto simp: t(1) wf_messages_def list_all_iff wf_message_def)
    show "m \<in> set (ts_messages t) \<Longrightarrow> ms_role m = User \<Longrightarrow> ms_complete m" for m
      using t(3) [of m] assms(2) by (auto simp: wf_messages_def list_all_iff wf_message_def)
  qed (simp_all add: t(1,2) e)
  have dist: "distinct (map msg_key (ts_messages s))"
    using assms(2) by (simp add: wf_messages_def)
  from assms(1) dist show ?thesis
    by (auto simp: completeRunMessages_def snapshot_simps set_upsert split: option.splits if_splits
        intro!: close)
qed

lemma finishing_wf_messages:
  assumes "asTerminal s i st = Inr (s', r)" and "isTerminalStatus st" and "wf_messages s"
    and "completeRunMessages (withRun s' r') i k = Inr s''"
    and "rs_runId r' = i" and "rs_status r' = st"
  shows "wf_messages s''"
proof -
  have "withRun s' r' = withRun s r'"
    using asTerminal_Inr [OF assms(1)] assms(5) by (simp add: snapshot_simps)
  with assms show ?thesis by (auto intro: completeRunMessages_wf)
qed

lemma applyEvent_wf_messages:
  assumes "applyEvent s e = Inr s'" and "wf_messages s"
  shows "wf_messages s'"
proof (cases e)
  case (RunStarted b)
  let ?r = "existingOrFresh s (runId b)"
  from assms(1) RunStarted have t: "canTransition (rs_status ?r) Running"
    and s': "s' = withRun s (?r\<lparr>rs_status := Running\<rparr>)"
    by (auto simp: handler_defs Let_def split: sum.splits)
  from t have "ended s (runId b) \<in> {None, Some False}"
    by (auto simp: ended_def existingOrFresh_def dest: not_terminal_can_move split: option.splits)
  with assms(2) show ?thesis
    unfolding s' by (intro wf_messages_withRun) (auto simp: isTerminalStatus_iff)
next
  case (TokenDelta b m d)
  then obtain u r where r: "asRunning s (runId b) = Inr (u, r)"
    using assms(1) by (auto simp: handler_defs result_simps)
  note u = wf_messages_running [OF r assms(2)] asRunning_ended(1) [OF r, of "runId b"]
  show ?thesis
  proof (cases "findMessage u (runId b) m")
    case None
    with assms(1) TokenDelta r u show ?thesis
      by (auto simp: handler_defs wf_message_def intro!: wf_messages_withMessage)
  next
    case (Some x)
    note x = findMessage_wf [OF u(1) Some]
    with assms(1) TokenDelta r u Some show ?thesis
      by (auto simp: handler_defs wf_message_def intro!: wf_messages_withMessage split: if_splits)
  qed
next
  case (ToolRequested b c t a)
  then obtain u r where r: "asRunning s (runId b) = Inr (u, r)"
    using assms(1) by (auto simp: handler_defs result_simps)
  note u = wf_messages_running [OF r assms(2)] asRunning_ended(1) [OF r, of "runId b"]
    asRunning_Inr(1,2) [OF r]
  with assms(1) ToolRequested r live_not_terminal [OF u(4)] show ?thesis
    by (auto simp: handler_defs intro!: wf_messages_withRun split: if_splits)
next
  case (ApprovalRequested b c w)
  then obtain u r where r: "asRunning s (runId b) = Inr (u, r)"
    using assms(1) by (auto simp: handler_defs result_simps)
  note u = wf_messages_running [OF r assms(2)] asRunning_ended(1) [OF r, of "runId b"]
    asRunning_Inr(1,2) [OF r]
  with assms(1) ApprovalRequested r live_not_terminal [OF u(4)] show ?thesis
    by (auto simp: handler_defs Let_def isTerminalStatus_iff
        intro!: wf_messages_withRun split: if_splits option.splits sum.splits)
next
  case (ApprovalResolved b c d x)
  then obtain r where r: "findRun s (runId b) = Some r"
    using assms(1) by (auto simp: handler_defs split: option.splits)
  with assms ApprovalResolved run_store.lookup_key [OF r] show ?thesis
    by (auto simp: handler_defs Let_def isTerminalStatus_iff ended_def
        intro!: wf_messages_withRun split: if_splits option.splits sum.splits)
next
  case (ToolCompleted b c v a d)
  then obtain r where r: "findRun s (runId b) = Some r"
    using assms(1) by (auto simp: handler_defs split: option.splits)
  with assms ToolCompleted run_store.lookup_key [OF r] show ?thesis
    by (auto simp: handler_defs ended_def intro!: wf_messages_withRun split: if_splits option.splits)
next
  case (ToolFailed b c v d)
  then obtain r where r: "findRun s (runId b) = Some r"
    using assms(1) by (auto simp: handler_defs split: option.splits)
  with assms ToolFailed run_store.lookup_key [OF r] show ?thesis
    by (auto simp: handler_defs ended_def intro!: wf_messages_withRun split: if_splits option.splits)
next
  case (RunCompleted b m)
  then obtain u r where r: "asTerminal s (runId b) Completed = Inr (u, r)"
    and c: "completeRunMessages u (runId b) m = Inr s'"
    using assms(1) by (auto simp: handler_defs result_simps)
  have "withRun u r = u" using asTerminal_Inr [OF r] by (simp add: snapshot_simps)
  with c have c': "completeRunMessages (withRun u r) (runId b) m = Inr s'" by simp
  show ?thesis
    by (rule finishing_wf_messages [OF r _ assms(2) c'])
      (use asTerminal_Inr(2) [OF r] in \<open>simp_all add: isTerminalStatus_iff\<close>)
next
  case (RunFailed b x c)
  then obtain u r where r: "asTerminal s (runId b) Failed = Inr (u, r)"
    and c: "completeRunMessages (withRun u (r\<lparr>rs_failure := Some \<lparr>rf_message = x, rf_code = c\<rparr>\<rparr>))
           (runId b) None = Inr s'"
    using assms(1) by (auto simp: handler_defs result_simps)
  show ?thesis
    by (rule finishing_wf_messages [OF r _ assms(2) c])
      (use asTerminal_Inr(2) [OF r] in \<open>simp_all add: isTerminalStatus_iff\<close>)
next
  case (RunCancelled b x)
  then obtain u r where r: "asTerminal s (runId b) Cancelled = Inr (u, r)"
    and c: "completeRunMessages (withRun u (case x of None \<Rightarrow> r | Some y \<Rightarrow> r\<lparr>rs_cancelReason := Some y\<rparr>))
           (runId b) None = Inr s'"
    using assms(1) by (auto simp: handler_defs result_simps)
  show ?thesis
    by (rule finishing_wf_messages [OF r _ assms(2) c])
      (use asTerminal_Inr(2) [OF r] in \<open>simp_all add: isTerminalStatus_iff split: option.splits\<close>)
next
  case (RunSteered b m t)
  then obtain u r where r: "asRunning s (runId b) = Inr (u, r)"
    using assms(1) by (auto simp: handler_defs result_simps)
  note u = wf_messages_running [OF r assms(2)] asRunning_ended(1) [OF r, of "runId b"]
  with assms(1) RunSteered r show ?thesis
    by (auto simp: handler_defs wf_message_def intro!: wf_messages_withMessage split: if_splits)
qed

section \<open>The cursor and the buffer\<close>

lemma snapshot_evolves_refl [simp]: "snapshot_evolves s s"
  by (simp add: snapshot_evolves_def)

lemma snapshot_evolves_trans:
  "snapshot_evolves a b \<Longrightarrow> snapshot_evolves b c \<Longrightarrow> snapshot_evolves a c"
  by (auto simp: snapshot_evolves_def intro: run_evolves_trans)

text \<open>The invariant during a drain: the buffer may hold the event right after the cursor.\<close>

definition wf_draining :: "thread_snapshot \<Rightarrow> bool" where
  "wf_draining s = (wf_runs s \<and> wf_messages s \<and> wf_buffer (ts_lastSeq s) s)"

lemma ended_cursor: "ended (s\<lparr>ts_lastSeq := n, ts_pendingEvents := p\<rparr>) = ended s"
  by (simp add: ended_def findRun_def fun_eq_iff)

lemma cursor_frame:
  "ts_runs (s\<lparr>ts_lastSeq := n, ts_pendingEvents := p\<rparr>) = ts_runs s"
  "existingOrFresh (s\<lparr>ts_lastSeq := n, ts_pendingEvents := p\<rparr>) i = existingOrFresh s i"
  "wf_runs (s\<lparr>ts_lastSeq := n, ts_pendingEvents := p\<rparr>) = wf_runs s"
  "wf_messages (s\<lparr>ts_lastSeq := n, ts_pendingEvents := p\<rparr>) = wf_messages s"
  by (simp_all add: existingOrFresh_def findRun_def wf_runs_def wf_messages_def ended_cursor)

lemma withPending_fields:
  "ts_pendingEvents (withPending s e) = sort_key ev_seq (ts_pendingEvents s @ [e])"
  "ts_threadId (withPending s e) = ts_threadId s"
  "ts_lastSeq (withPending s e) = ts_lastSeq s"
  by (simp_all add: withPending_def)

lemma withPending_cursor:
  "withPending s e =
     s\<lparr>ts_lastSeq := ts_lastSeq s, ts_pendingEvents := sort_key ev_seq (ts_pendingEvents s @ [e])\<rparr>"
  by (simp add: withPending_def)

lemma applyAtCursor_keeps:
  assumes "applyAtCursor s e = Inr s'" and "wf_draining s" and "ev_seq e = ts_lastSeq s + 1"
  shows "wf_draining s' \<and> snapshot_evolves s s'"
proof -
  from assms(1) obtain t where t: "applyEvent s e = Inr t"
    and s': "s' = t\<lparr>ts_lastSeq := ev_seq e,
        ts_pendingEvents := filter (\<lambda>p. ev_seq p \<noteq> ev_seq e) (ts_pendingEvents s)\<rparr>"
    by (auto simp: applyAtCursor_def result_simps)
  have "wf_buffer (ts_lastSeq s') s'"
    using assms(2,3) applyEvent_frame [OF t]
    by (auto simp: wf_draining_def wf_buffer_def s' list_all_iff sorted_wrt_map
        intro: sorted_wrt_filter)
  moreover have "wf_runs t" "wf_messages t" "run_evolves (existingOrFresh s i) (existingOrFresh t i)"
      "\<exists>new. map rs_runId (ts_runs t) = map rs_runId (ts_runs s) @ new" for i
    using assms(2) applyEvent_wf_runs [OF t] applyEvent_wf_messages [OF t]
    by (auto simp: wf_draining_def)
  ultimately show ?thesis
    using assms(3) applyEvent_frame [OF t]
    by (auto simp: wf_draining_def snapshot_evolves_def s' cursor_frame)
qed

lemma drainPending_keeps:
  assumes "drainPending s = Inr s'" and "wf_draining s"
  shows "wf_snapshot s' \<and> snapshot_evolves s s'"
  using assms
proof (induction s rule: drainPending.induct)
  case (1 s)
  show ?case
  proof (cases "find (\<lambda>e. ev_seq e = ts_lastSeq s + 1) (ts_pendingEvents s)")
    case None
    with "1.prems"(1) have "s' = s" by (subst (asm) drainPending.simps) simp
    moreover have "wf_buffer (ts_lastSeq s + 1) s"
      using "1.prems"(2) None
      by (auto simp: wf_draining_def wf_buffer_def list_all_iff find_None_iff)
        (metis Suc_eq_plus1 Suc_lessI)
    ultimately show ?thesis using "1.prems"(2) by (simp add: wf_snapshot_def wf_draining_def)
  next
    case (Some e)
    with "1.prems"(1) obtain t where t: "applyAtCursor s e = Inr t" "drainPending t = Inr s'"
      by (subst (asm) drainPending.simps) (auto split: sum.splits)
    have "ev_seq e = ts_lastSeq s + 1" using Some by (auto simp: find_Some_iff)
    with t(1) "1.prems"(2) have "wf_draining t \<and> snapshot_evolves s t"
      by (intro applyAtCursor_keeps)
    with "1.IH" [OF Some t(1) t(2)] show ?thesis by (auto intro: snapshot_evolves_trans)
  qed
qed

lemma wf_snapshot_draining: "wf_snapshot s \<Longrightarrow> wf_draining s"
  by (auto simp: wf_snapshot_def wf_draining_def wf_buffer_def list_all_iff)

lemma sorted_wrt_less_iff: "sorted_wrt (<) (xs :: nat list) \<longleftrightarrow> sorted xs \<and> distinct xs"
  by (rule strict_sorted_iff)

lemma withPending_wf:
  assumes "wf_snapshot s" and "wf_event e" and "threadId (ev_base e) = ts_threadId s"
    and "ts_lastSeq s + 1 < ev_seq e" and "\<not> list_ex (\<lambda>p. ev_seq p = ev_seq e) (ts_pendingEvents s)"
  shows "wf_snapshot (withPending s e)"
proof -
  let ?xs = "ts_pendingEvents s @ [e]"
  have "distinct (map ev_seq ?xs)"
    using assms(1,5) by (auto simp: wf_snapshot_def wf_buffer_def strict_sorted_iff list_ex_iff)
  moreover have "mset (map ev_seq (sort_key ev_seq ?xs)) = mset (map ev_seq ?xs)"
    by (simp only: mset_map mset_sort)
  ultimately have "distinct (map ev_seq (sort_key ev_seq ?xs))"
    using mset_eq_imp_distinct_iff by blast
  then have "sorted_wrt (<) (map ev_seq (sort_key ev_seq ?xs))"
    by (simp only: strict_sorted_iff sorted_sort_key simp_thms)
  moreover have "\<forall>p \<in> set (sort_key ev_seq ?xs).
      wf_event p \<and> threadId (ev_base p) = ts_threadId s \<and> ts_lastSeq s + 1 < ev_seq p"
    using assms by (auto simp: wf_snapshot_def wf_buffer_def list_all_iff)
  ultimately have "wf_buffer (ts_lastSeq s + 1) (withPending s e)"
    by (simp only: wf_buffer_def withPending_fields list_all_iff) blast
  moreover have "wf_runs (withPending s e)" "wf_messages (withPending s e)"
    using assms(1) unfolding withPending_cursor cursor_frame by (simp_all add: wf_snapshot_def)
  ultimately show ?thesis by (simp only: wf_snapshot_def withPending_fields simp_thms)
qed

lemma withPending_evolves: "snapshot_evolves s (withPending s e)"
  by (simp add: snapshot_evolves_def withPending_def existingOrFresh_def findRun_def)

lemma reduceParsedEvent_keeps:
  assumes "reduceParsedEvent s e = Inr s'" and "wf_snapshot s" and "wf_event e"
    and "threadId (ev_base e) = ts_threadId s"
  shows "wf_snapshot s' \<and> snapshot_evolves s s'"
proof -
  consider "s' = s" | "s' = withPending s e" "ts_lastSeq s + 1 < ev_seq e"
      "\<not> list_ex (\<lambda>p. ev_seq p = ev_seq e) (ts_pendingEvents s)"
    | t where "ev_seq e = ts_lastSeq s + 1" "applyAtCursor s e = Inr t" "drainPending t = Inr s'"
    using assms(1) by (auto simp: reduceParsedEvent_def result_simps split: if_splits)
  then show ?thesis
  proof cases
    case 2
    with assms withPending_wf withPending_evolves show ?thesis by blast
  next
    case 3
    with wf_snapshot_draining [OF assms(2)] applyAtCursor_keeps
    have "wf_draining t \<and> snapshot_evolves s t" by blast
    with 3(3) drainPending_keeps snapshot_evolves_trans show ?thesis by blast
  qed (use assms(2) in simp)
qed

lemma reduceRunEvent_keeps:
  assumes "reduceRunEvent s v = Inr s'" and "wf_snapshot s"
  shows "wf_snapshot s' \<and> snapshot_evolves s s'"
  using assms
  by (auto simp: reduceRunEvent_def result_simps split: if_splits
      dest: parse_wf reduceParsedEvent_keeps)

lemma reduceRunEvents_keeps:
  assumes "reduceRunEvents s vs = Inr s'" and "wf_snapshot s"
  shows "wf_snapshot s' \<and> snapshot_evolves s s'"
proof -
  have "wf_snapshot s' \<and> snapshot_evolves s s'"
  proof (rule foldE_invariant [where P = "\<lambda>t. wf_snapshot t \<and> snapshot_evolves s t"])
    show "foldE reduceRunEvent s vs = Inr s'" using assms(1) by (simp add: reduceRunEvents_def)
    show "wf_snapshot s \<and> snapshot_evolves s s" using assms(2) by simp
    show "wf_snapshot u \<and> snapshot_evolves s u"
      if "wf_snapshot t \<and> snapshot_evolves s t" "reduceRunEvent t x = Inr u" for t x u
      using that reduceRunEvent_keeps snapshot_evolves_trans by blast
  qed
  then show ?thesis .
qed

lemma createThreadSnapshot_wf: "createThreadSnapshot t n = Inr s \<Longrightarrow> wf_snapshot s"
  by (auto simp: createThreadSnapshot_def Let_def wf_snapshot_def wf_runs_def wf_messages_def
      wf_buffer_def split: if_splits)

end
