(* ===== verification/Resequencer.thy ===== *)
theory Resequencer
  imports Prelude
begin

text \<open>
  A consumer that applies numbered items in order behind a cursor, buffers what arrives early
  and ignores what it has seen. The contract is a locale; the reference is \<open>replay\<close>, which
  applies the items \<open>n + 1, n + 2, \<dots>\<close> as long as each is present. Under the contract the fold
  of any arrival order is the reference, so it depends on the set of received items only.
\<close>

section \<open>The reference\<close>

definition ahead :: "('e \<Rightarrow> nat) \<Rightarrow> nat \<Rightarrow> 'e list \<Rightarrow> 'e list" where
  "ahead seq n es = sort_key seq (filter (\<lambda>e. n < seq e) (remdups es))"

lemma remaining_less:
  assumes "find (\<lambda>e. seq e = Suc n) es = Some e"
  shows "length (filter (\<lambda>e. Suc n < seq e) es) < length (filter (\<lambda>e. n < seq e) es)"
proof -
  have "filter (\<lambda>e. Suc n < seq e) es = filter (\<lambda>e. Suc n < seq e) (filter (\<lambda>e. n < seq e) es)"
    by (auto intro: filter_cong)
  moreover from assms have "e \<in> set (filter (\<lambda>e. n < seq e) es)" "\<not> Suc n < seq e"
    by (auto simp: find_Some_iff)
  ultimately show ?thesis by (metis length_filter_less)
qed

function replay ::
  "('c \<Rightarrow> 'e \<Rightarrow> 'x + 'c) \<Rightarrow> ('e \<Rightarrow> nat) \<Rightarrow> 'e list \<Rightarrow> nat \<Rightarrow> 'c \<Rightarrow> 'x + ('c \<times> nat)" where
  "replay apply seq es n c =
     (case find (\<lambda>e. seq e = Suc n) es of
        None \<Rightarrow> Inr (c, n)
      | Some e \<Rightarrow> (case apply c e of Inl x \<Rightarrow> Inl x | Inr c' \<Rightarrow> replay apply seq es (Suc n) c'))"
  by pat_completeness auto
termination
  by (relation "measure (\<lambda>(apply, seq, es, n, c). length (filter (\<lambda>e. n < seq e) es))")
    (simp_all add: remaining_less)

declare replay.simps [simp del]

lemma replay_none: "find (\<lambda>e. seq e = Suc n) es = None \<Longrightarrow> replay apply seq es n c = Inr (c, n)"
  by (subst replay.simps) simp

lemma replay_some:
  "find (\<lambda>e. seq e = Suc n) es = Some e \<Longrightarrow>
   replay apply seq es n c = bindE (apply c e) (replay apply seq es (Suc n))"
  by (subst replay.simps) (simp add: bindE_def)

text \<open>The cursor stops right before the first gap.\<close>

lemma replay_gap: "replay apply seq es n c = Inr (c', m) \<Longrightarrow> n \<le> m \<and> (\<forall>e \<in> set es. seq e \<noteq> Suc m)"
proof (induction "apply" seq es n c rule: replay.induct)
  case (1 "apply" seq es n c)
  show ?case
  proof (cases "find (\<lambda>e. seq e = Suc n) es")
    case None
    with "1.prems" show ?thesis by (auto simp: replay_none find_None_iff)
  next
    case (Some e)
    with "1.prems" obtain c1 where c1: "apply c e = Inr c1" "replay apply seq es (Suc n) c1 = Inr (c', m)"
      by (auto simp: replay_some result_simps)
    with "1.IH" [OF Some c1(1)] show ?thesis by auto
  qed
qed

text \<open>Every number the cursor passed was received.\<close>

lemma replay_covers:
  "replay apply seq es n c = Inr (c', m) \<Longrightarrow> n < k \<Longrightarrow> k \<le> m \<Longrightarrow> \<exists>e \<in> set es. seq e = k"
proof (induction "apply" seq es n c rule: replay.induct)
  case (1 "apply" seq es n c)
  show ?case
  proof (cases "find (\<lambda>e. seq e = Suc n) es")
    case None
    with "1.prems" show ?thesis by (auto simp: replay_none)
  next
    case (Some e)
    with "1.prems" obtain c1 where c1: "apply c e = Inr c1" "replay apply seq es (Suc n) c1 = Inr (c', m)"
      by (auto simp: replay_some result_simps)
    have "e \<in> set es" "seq e = Suc n" using Some by (auto simp: find_Some_iff)
    with "1.IH" [OF Some c1] "1.prems"(2,3) show ?thesis by (cases "k = Suc n") auto
  qed
qed

lemma find_append:
  "find P (xs @ ys) = (case find P xs of None \<Rightarrow> find P ys | Some x \<Rightarrow> Some x)"
  by (induction xs) auto

lemma find_same_set:
  assumes "set es = set es'" and "inj_on seq (set es)"
  shows "find (\<lambda>e. seq e = (n :: nat)) es = find (\<lambda>e. seq e = n) es'"
proof (cases "find (\<lambda>e. seq e = n) es")
  case None
  then show ?thesis using assms(1) by (metis find_None_iff)
next
  case (Some e)
  then have e: "e \<in> set es" "seq e = n" by (auto simp: find_Some_iff)
  with assms(1) have "find (\<lambda>e. seq e = n) es' \<noteq> None" by (auto simp: find_None_iff)
  then obtain e' where e': "find (\<lambda>e. seq e = n) es' = Some e'" by auto
  then have "e' \<in> set es" "seq e' = n" using assms(1) by (auto simp: find_Some_iff)
  with e have "e = e'" by (intro inj_onD [OF assms(2)]) simp_all
  with Some e' show ?thesis by simp
qed

lemma replay_same_set:
  assumes "set es = set es'" and "inj_on seq (set es)"
  shows "replay apply seq es n c = replay apply seq es' n c"
  using assms
proof (induction "apply" seq es n c rule: replay.induct)
  case (1 "apply" seq es n c)
  note same = find_same_set [OF "1.prems", of "Suc n"]
  show ?case
  proof (cases "find (\<lambda>e. seq e = Suc n) es")
    case None
    then show ?thesis using same by (simp add: replay_none)
  next
    case (Some e)
    with same have "find (\<lambda>e. seq e = Suc n) es' = Some e" by simp
    with Some "1.IH" [OF Some _ "1.prems"] show ?thesis
      by (cases "apply c e") (simp_all add: replay_some)
  qed
qed

lemma ahead_unique:
  assumes "set xs = {e \<in> set es. n < seq e}" and "inj_on seq (set es)"
    and "sorted (map seq xs)" and "distinct (map seq xs)"
  shows "ahead seq n es = xs"
proof (rule map_sorted_distinct_set_unique [where f = seq])
  have "mset (map seq (ahead seq n es)) = mset (map seq (filter (\<lambda>e. n < seq e) (remdups es)))"
    by (simp only: ahead_def mset_map mset_sort)
  moreover have "distinct (map seq (filter (\<lambda>e. n < seq e) (remdups es)))"
    using assms(2) by (auto simp: distinct_map intro: inj_on_subset)
  ultimately show "distinct (map seq (ahead seq n es))" using mset_eq_imp_distinct_iff by blast
  show s: "set (ahead seq n es) = set xs" using assms(1) by (auto simp: ahead_def)
  show "inj_on seq (set (ahead seq n es) \<union> set xs)"
    unfolding s assms(1) using assms(2) by (auto intro: inj_on_subset)
  show "sorted (map seq (ahead seq n es))" by (simp add: ahead_def)
qed (use assms in auto)

lemma ahead_props:
  assumes "inj_on seq (set es)"
  shows "set (ahead seq n es) = {e \<in> set es. n < seq e}" and "sorted (map seq (ahead seq n es))"
    and "distinct (map seq (ahead seq n es))"
proof -
  show "set (ahead seq n es) = {e \<in> set es. n < seq e}" by (auto simp: ahead_def)
  show "sorted (map seq (ahead seq n es))" by (simp add: ahead_def)
  have "mset (map seq (ahead seq n es)) = mset (map seq (filter (\<lambda>e. n < seq e) (remdups es)))"
    by (simp only: ahead_def mset_map mset_sort)
  moreover have "distinct (map seq (filter (\<lambda>e. n < seq e) (remdups es)))"
    using assms by (auto simp: distinct_map intro: inj_on_subset)
  ultimately show "distinct (map seq (ahead seq n es))" using mset_eq_imp_distinct_iff by blast
qed

lemma ahead_same_set:
  assumes "set es = set es'" and "inj_on seq (set es)"
  shows "ahead seq n es = ahead seq n es'"
proof (rule ahead_unique)
  have i: "inj_on seq (set es')" using assms by simp
  show "set (ahead seq n es') = {e \<in> set es. n < seq e}"
    using assms(1) ahead_props(1) [OF i] by simp
  show "sorted (map seq (ahead seq n es'))" "distinct (map seq (ahead seq n es'))"
    using ahead_props(2,3) [OF i] by simp_all
qed (rule assms(2))

lemma ahead_next:
  assumes "inj_on seq (set es)"
  shows "ahead seq (Suc n) es = filter (\<lambda>e. seq e \<noteq> Suc n) (ahead seq n es)"
proof (rule ahead_unique [OF _ assms])
  let ?p = "ahead seq n es"
  show "set (filter (\<lambda>e. seq e \<noteq> Suc n) ?p) = {e \<in> set es. Suc n < seq e}"
    by (auto simp: ahead_props(1) [OF assms])
  show "sorted (map seq (filter (\<lambda>e. seq e \<noteq> Suc n) ?p))"
    using ahead_props(2) [OF assms, of n] by (rule sorted_filter)
  show "distinct (map seq (filter (\<lambda>e. seq e \<noteq> Suc n) ?p))"
    using ahead_props(3) [OF assms, of n] by (rule distinct_map_filter)
qed

lemma ahead_insert:
  assumes "inj_on seq (set (es @ [e]))" and "n < seq e" and "\<forall>p \<in> set (ahead seq n es). seq p \<noteq> seq e"
  shows "sort_key seq (ahead seq n es @ [e]) = ahead seq n (es @ [e])"
proof (rule sym, rule ahead_unique [OF _ assms(1)])
  have i: "inj_on seq (set es)" using assms(1) by (auto intro: inj_on_subset)
  let ?xs = "ahead seq n es @ [e]"
  show "set (sort_key seq ?xs) = {x \<in> set (es @ [e]). n < seq x}"
    using assms(2) ahead_props(1) [OF i] by auto
  show "sorted (map seq (sort_key seq ?xs))" by (rule sorted_sort_key)
  have "distinct (map seq ?xs)" using ahead_props(3) [OF i, of n] assms(3) by auto
  moreover have "mset (map seq (sort_key seq ?xs)) = mset (map seq ?xs)"
    by (simp only: mset_map mset_sort)
  ultimately show "distinct (map seq (sort_key seq ?xs))" using mset_eq_imp_distinct_iff by blast
qed

text \<open>A gapless stream in order: the reference is the plain fold.\<close>

lemma replay_drop_past:
  "seq e \<le> n \<Longrightarrow> replay apply seq (e # es) n c = replay apply seq es n c"
proof (induction "apply" seq es n c rule: replay.induct)
  case (1 "apply" seq es n c)
  show ?case
  proof (cases "find (\<lambda>e. seq e = Suc n) es")
    case None
    with "1.prems" show ?thesis by (simp add: replay_none)
  next
    case (Some x)
    with "1.prems" "1.IH" [OF Some] show ?thesis
      by (cases "apply c x") (simp_all add: replay_some)
  qed
qed

lemma replay_complete:
  "map seq es = [Suc n..<Suc (n + length es)] \<Longrightarrow>
   replay apply seq es n c = map_sum id (\<lambda>c'. (c', n + length es)) (foldE apply c es)"
proof (induction es arbitrary: n c)
  case Nil
  then show ?case by (simp add: replay_none)
next
  case (Cons e es)
  then have e: "seq e = Suc n" and es: "map seq es = [Suc (Suc n)..<Suc (Suc n + length es)]"
    by (simp_all add: upt_conv_Cons del: upt_Suc)
  have "replay apply seq (e # es) n c = bindE (apply c e) (replay apply seq (e # es) (Suc n))"
    using e by (intro replay_some) simp
  also have "\<dots> = bindE (apply c e) (replay apply seq es (Suc n))"
    using e by (cases "apply c e") (simp_all add: replay_drop_past)
  also have "\<dots> = map_sum id (\<lambda>c'. (c', n + length (e # es))) (foldE apply c (e # es))"
    using Cons.IH [of "Suc n"] es by (cases "apply c e") (simp_all add: id_def del: upt_Suc)
  finally show ?case .
qed

section \<open>The contract\<close>

locale resequencer =
  fixes step :: "'s \<Rightarrow> 'e \<Rightarrow> 'x + 's"
    and drain :: "'s \<Rightarrow> 'x + 's"
    and build :: "'c \<Rightarrow> nat \<Rightarrow> 'e list \<Rightarrow> 's"
    and seq :: "'e \<Rightarrow> nat"
    and applyc :: "'c \<Rightarrow> 'e \<Rightarrow> 'x + 'c"
  assumes step_replay: "seq e \<le> n \<Longrightarrow> step (build c n p) e = Inr (build c n p)"
    and step_dup: "list_ex (\<lambda>q. seq q = seq e) p \<Longrightarrow> step (build c n p) e = Inr (build c n p)"
    and step_buffer: "Suc n < seq e \<Longrightarrow> \<not> list_ex (\<lambda>q. seq q = seq e) p \<Longrightarrow>
      step (build c n p) e = Inr (build c n (sort_key seq (p @ [e])))"
    and step_apply: "seq e = Suc n \<Longrightarrow> \<not> list_ex (\<lambda>q. seq q = seq e) p \<Longrightarrow>
      step (build c n p) e = bindE (applyc c e) (\<lambda>c'. drain (build c' (Suc n) p))"
    and drain_stop: "find (\<lambda>q. seq q = Suc n) p = None \<Longrightarrow> drain (build c n p) = Inr (build c n p)"
    and drain_step: "find (\<lambda>q. seq q = Suc n) p = Some e \<Longrightarrow> drain (build c n p) =
      bindE (applyc c e) (\<lambda>c'. drain (build c' (Suc n) (filter (\<lambda>q. seq q \<noteq> Suc n) p)))"
begin

definition reference :: "'e list \<Rightarrow> nat \<Rightarrow> 'c \<Rightarrow> 'x + 's" where
  "reference es n c = map_sum id (\<lambda>(c', m). build c' m (ahead seq m es)) (replay applyc seq es n c)"

lemma reference_none:
  "find (\<lambda>e. seq e = Suc n) es = None \<Longrightarrow> reference es n c = Inr (build c n (ahead seq n es))"
  by (simp add: reference_def replay_none)

lemma reference_some:
  "find (\<lambda>e. seq e = Suc n) es = Some e \<Longrightarrow>
   reference es n c = bindE (applyc c e) (reference es (Suc n))"
  by (cases "applyc c e") (simp_all add: reference_def replay_some)

lemma find_ahead:
  assumes "inj_on seq (set es)"
  shows "find (\<lambda>q. seq q = Suc n) (ahead seq n es) = find (\<lambda>e. seq e = Suc n) es"
proof -
  have "find (\<lambda>e. seq e = Suc n) es = find (\<lambda>e. seq e = Suc n) (filter (\<lambda>e. n < seq e) es)"
    by (induction es) auto
  also have "\<dots> = find (\<lambda>e. seq e = Suc n) (ahead seq n es)"
    using assms by (intro find_same_set) (auto simp: ahead_props(1) [OF assms] intro: inj_on_subset)
  finally show ?thesis ..
qed

lemma drain_reference:
  assumes "inj_on seq (set es)"
  shows "drain (build c n (ahead seq n es)) = reference es n c"
proof (induction "length (filter (\<lambda>e. n < seq e) es)" arbitrary: n c rule: less_induct)
  case less
  show ?case
  proof (cases "find (\<lambda>e. seq e = Suc n) es")
    case None
    with find_ahead [OF assms, of n] show ?thesis by (simp add: drain_stop reference_none)
  next
    case (Some e)
    have "drain (build c n (ahead seq n es)) =
        bindE (applyc c e) (\<lambda>c'. drain (build c' (Suc n) (ahead seq (Suc n) es)))"
      using Some find_ahead [OF assms, of n] by (simp add: drain_step ahead_next [OF assms])
    also have "\<dots> = bindE (applyc c e) (reference es (Suc n))"
      using less [OF remaining_less [OF Some]] by simp
    finally show ?thesis using Some by (simp add: reference_some)
  qed
qed

text \<open>One more item: taking the step after the reference is the reference on one more item.\<close>

lemma step_after_gap:
  assumes "inj_on seq (set (es @ [e]))" and "find (\<lambda>e. seq e = Suc n) es = None"
  shows "step (build c n (ahead seq n es)) e = reference (es @ [e]) n c"
proof -
  have i: "inj_on seq (set es)" using assms(1) by (auto intro: inj_on_subset)
  note S = ahead_props(1) [OF i, of n]
  consider "seq e \<le> n" | "e \<in> set (ahead seq n es)" "n < seq e"
    | "n < seq e" "\<forall>p \<in> set (ahead seq n es). seq p \<noteq> seq e"
    using assms(1) S by (fastforce simp: inj_on_def)
  then show ?thesis
  proof cases
    case 1
    then have "ahead seq n (es @ [e]) = ahead seq n es"
      using assms(1) by (intro ahead_unique) (auto simp: S ahead_props(2,3) [OF i])
    with 1 assms(2) show ?thesis by (simp add: step_replay reference_none find_append)
  next
    case 2
    then have e: "e \<in> set es" using S by simp
    then have "ahead seq n (es @ [e]) = ahead seq n es"
      using assms(1) by (intro ahead_same_set) auto
    moreover have "find (\<lambda>e. seq e = Suc n) (es @ [e]) = None"
      using assms(2) e by (auto simp: find_None_iff)
    moreover have "step (build c n (ahead seq n es)) e = Inr (build c n (ahead seq n es))"
      using 2 by (intro step_dup) (auto simp: list_ex_iff)
    ultimately show ?thesis by (simp only: reference_none)
  next
    case 3
    then have new: "\<not> list_ex (\<lambda>q. seq q = seq e) (ahead seq n es)" by (auto simp: list_ex_iff)
    show ?thesis
    proof (cases "seq e = Suc n")
      case True
      have f: "find (\<lambda>e. seq e = Suc n) (es @ [e]) = Some e"
        using assms(2) True by (auto simp: find_append)
      have "ahead seq (Suc n) (es @ [e]) = ahead seq n es"
        using assms 3 True
        by (intro ahead_unique) (auto simp: S ahead_props(2,3) [OF i] find_None_iff)
      with True new f drain_reference [OF assms(1), where n = "Suc n"] show ?thesis
        by (simp add: step_apply reference_some)
    next
      case False
      with assms(2) have "find (\<lambda>e. seq e = Suc n) (es @ [e]) = None"
        by (auto simp: find_None_iff)
      with False 3 new ahead_insert [OF assms(1) 3] show ?thesis
        by (simp add: step_buffer reference_none)
    qed
  qed
qed

lemma step_reference:
  assumes "inj_on seq (set (es @ [e]))"
  shows "bindE (reference es n c) (\<lambda>s. step s e) = reference (es @ [e]) n c"
proof (induction "length (filter (\<lambda>e. n < seq e) es)" arbitrary: n c rule: less_induct)
  case less
  show ?case
  proof (cases "find (\<lambda>e. seq e = Suc n) es")
    case None
    with step_after_gap [OF assms None] show ?thesis by (simp add: reference_none)
  next
    case (Some x)
    then have "find (\<lambda>e. seq e = Suc n) (es @ [e]) = Some x" by (simp add: find_append)
    with Some less [OF remaining_less [OF Some]] show ?thesis
      by (cases "applyc c x") (simp_all add: reference_some)
  qed
qed

text \<open>The fold of any arrival order is the reference.\<close>

lemma fold_reference:
  "inj_on seq (set es) \<Longrightarrow> foldE step (build c n []) es = reference es n c"
proof (induction es rule: rev_induct)
  case Nil
  show ?case by (simp add: reference_none ahead_def)
next
  case (snoc e es)
  then have "inj_on seq (set es)" by (auto intro: inj_on_subset)
  with snoc have "foldE step (build c n []) (es @ [e]) = bindE (reference es n c) (\<lambda>s. step s e)"
    by (cases "reference es n c") (simp_all add: foldE_append)
  with step_reference [OF snoc.prems] show ?case by simp
qed

lemma fold_same_set:
  assumes "set es = set es'" and "inj_on seq (set es)"
  shows "foldE step (build c n []) es = foldE step (build c n []) es'"
proof -
  have "reference es n c = reference es' n c"
    using replay_same_set [OF assms, of applyc] ahead_same_set [OF assms] by (simp add: reference_def)
  with assms fold_reference show ?thesis by metis
qed

lemma fold_complete:
  assumes "map seq xs = [Suc n..<Suc (n + length xs)]" and "set es = set xs"
  shows "foldE step (build c n []) es =
    map_sum id (\<lambda>c'. build c' (n + length xs) []) (foldE applyc c xs)"
proof -
  have i: "inj_on seq (set xs)"
    using assms(1) by (metis distinct_map distinct_upt)
  have "\<forall>e \<in> set xs. seq e \<le> n + length xs"
    using assms(1) by (metis atLeastLessThan_iff imageI less_Suc_eq_le set_map set_upt)
  then have "ahead seq (n + length xs) xs = []"
    using i by (intro ahead_unique) auto
  with fold_same_set [OF assms(2)] fold_reference [OF i] replay_complete [OF assms(1), of applyc] i assms(2)
  show ?thesis by (cases "foldE applyc c xs") (simp_all add: reference_def)
qed

end

end
