(* ===== verification/Reducer_Convergence.thy ===== *)
theory Reducer_Convergence
  imports Reducer_Invariants Resequencer
begin

text \<open>
  The reducer is a resequencer: the cursor, the buffer and the drain loop of \<open>event-reducer.ts\<close>
  meet the contract of \<open>Resequencer\<close>, so a fold of stored events is determined by the set
  of events received. The last section lifts this from parsed events to the raw values
  \<open>reduceRunEvents\<close> takes.
\<close>

section \<open>The interpretation\<close>

definition at_cursor :: "thread_snapshot \<Rightarrow> nat \<Rightarrow> run_event list \<Rightarrow> thread_snapshot" where
  "at_cursor s n p = s\<lparr>ts_lastSeq := n, ts_pendingEvents := p\<rparr>"

lemma at_cursor_reframe: "at_cursor s n p = reframe (ts_threadId s) n p s"
  by (simp add: at_cursor_def reframe_def)

lemma at_cursor_fields [simp]:
  "ts_threadId (at_cursor s n p) = ts_threadId s" "ts_lastSeq (at_cursor s n p) = n"
  "ts_pendingEvents (at_cursor s n p) = p"
  by (simp_all add: at_cursor_def)

lemma at_cursor_same [simp]: "at_cursor s (ts_lastSeq s) (ts_pendingEvents s) = s"
  by (simp add: at_cursor_def)

lemma at_cursor_update [simp]:
  "(at_cursor s n p)\<lparr>ts_lastSeq := m, ts_pendingEvents := q\<rparr> = at_cursor s m q"
  by (simp add: at_cursor_def)

lemma applyEvent_at_cursor:
  "applyEvent (at_cursor s n p) e = map_sum id (\<lambda>s'. at_cursor s' n p) (applyEvent s e)"
  using applyEvent_frame(1) [of s e]
  by (cases "applyEvent s e") (auto simp: at_cursor_reframe applyEvent_reframe)

lemma applyAtCursor_at_cursor:
  "applyAtCursor (at_cursor s n p) e =
   bindE (applyEvent s e) (\<lambda>s'. Inr (at_cursor s' (ev_seq e) (filter (\<lambda>q. ev_seq q \<noteq> ev_seq e) p)))"
  by (cases "applyEvent s e") (simp_all add: applyAtCursor_def applyEvent_at_cursor)

interpretation reducer: resequencer reduceParsedEvent drainPending at_cursor ev_seq applyEvent
proof unfold_locales
  fix e :: run_event and n c p
  show "ev_seq e \<le> n \<Longrightarrow> reduceParsedEvent (at_cursor c n p) e = Inr (at_cursor c n p)"
    by (simp add: reduceParsedEvent_def)
  show "list_ex (\<lambda>q. ev_seq q = ev_seq e) p \<Longrightarrow>
      reduceParsedEvent (at_cursor c n p) e = Inr (at_cursor c n p)"
    by (simp add: reduceParsedEvent_def)
  show "Suc n < ev_seq e \<Longrightarrow> \<not> list_ex (\<lambda>q. ev_seq q = ev_seq e) p \<Longrightarrow>
      reduceParsedEvent (at_cursor c n p) e = Inr (at_cursor c n (sort_key ev_seq (p @ [e])))"
    by (simp add: reduceParsedEvent_def withPending_def at_cursor_def)
  have "\<not> list_ex (\<lambda>q. ev_seq q = ev_seq e) p \<Longrightarrow> filter (\<lambda>q. ev_seq q \<noteq> ev_seq e) p = p"
    by (auto simp: list_ex_iff filter_id_conv)
  then show "ev_seq e = Suc n \<Longrightarrow> \<not> list_ex (\<lambda>q. ev_seq q = ev_seq e) p \<Longrightarrow>
      reduceParsedEvent (at_cursor c n p) e =
      bindE (applyEvent c e) (\<lambda>c'. drainPending (at_cursor c' (Suc n) p))"
    by (cases "applyEvent c e") (simp_all add: reduceParsedEvent_def applyAtCursor_at_cursor)
  show "find (\<lambda>q. ev_seq q = Suc n) p = None \<Longrightarrow> drainPending (at_cursor c n p) = Inr (at_cursor c n p)"
    by (subst drainPending.simps) simp
  show "drainPending (at_cursor c n p) =
      bindE (applyEvent c e) (\<lambda>c'. drainPending (at_cursor c' (Suc n) (filter (\<lambda>q. ev_seq q \<noteq> Suc n) p)))"
    if "find (\<lambda>q. ev_seq q = Suc n) p = Some e"
  proof -
    have "ev_seq e = Suc n" using that by (auto simp: find_Some_iff)
    with that show ?thesis
      by (subst drainPending.simps) (cases "applyEvent c e"; simp add: applyAtCursor_at_cursor)
  qed
qed

section \<open>From raw values to parsed events\<close>

lemma drainPending_thread: "drainPending s = Inr s' \<Longrightarrow> ts_threadId s' = ts_threadId s"
proof (induction s rule: drainPending.induct)
  case (1 s)
  then show ?case
    by (subst (asm) (2) drainPending.simps)
      (auto simp: applyAtCursor_def result_simps applyEvent_frame split: option.splits sum.splits)
qed

lemma reduceParsedEvent_thread:
  "reduceParsedEvent s e = Inr s' \<Longrightarrow> ts_threadId s' = ts_threadId s"
  by (auto simp: reduceParsedEvent_def applyAtCursor_def result_simps withPending_def
      applyEvent_frame dest!: drainPending_thread split: if_splits)

lemma reduceRunEvents_parsed:
  "mapE parseRunEvent vs = Inr es \<Longrightarrow> \<forall>e \<in> set es. threadId (ev_base e) = ts_threadId s \<Longrightarrow>
   reduceRunEvents s vs = foldE reduceParsedEvent s es"
  unfolding reduceRunEvents_def
proof (induction vs arbitrary: s es)
  case Nil
  then show ?case by simp
next
  case (Cons v vs)
  then obtain e es' where e: "parseRunEvent v = Inr e" "mapE parseRunEvent vs = Inr es'"
    and es: "es = e # es'"
    by (auto simp: result_simps)
  show ?case
  proof (cases "reduceParsedEvent s e")
    case (Inl x)
    then show ?thesis using e Cons.prems(2) by (simp add: es reduceRunEvent_def)
  next
    case (Inr t)
    with Cons.IH [OF e(2), of t] Cons.prems(2) show ?thesis
      by (simp add: es e reduceRunEvent_def reduceParsedEvent_thread)
  qed
qed

text \<open>
  What the event store guarantees of the values a client receives for a thread: they parse,
  carry the thread's id, and no two distinct events share a sequence number.
\<close>

definition consistent_events :: "string \<Rightarrow> js list \<Rightarrow> run_event list \<Rightarrow> bool" where
  "consistent_events t vs es =
     (mapE parseRunEvent vs = Inr es \<and> list_all (\<lambda>e. threadId (ev_base e) = t) es \<and>
      list_all (\<lambda>e. list_all (\<lambda>e'. ev_seq e = ev_seq e' \<longrightarrow> e = e') es) es)"

lemma consistent_eventsD:
  assumes "consistent_events (ts_threadId s) vs es"
  shows "reduceRunEvents s vs = foldE reduceParsedEvent s es" and "inj_on ev_seq (set es)"
  using assms
  by (auto simp: consistent_events_def list_all_iff inj_on_def intro!: reduceRunEvents_parsed)

lemma reduce_reference:
  assumes "consistent_events (ts_threadId s) vs es" and "ts_pendingEvents s = []"
  shows "reduceRunEvents s vs =
    map_sum id (\<lambda>(s', m). at_cursor s' m (ahead ev_seq m es)) (replay applyEvent ev_seq es (ts_lastSeq s) s)"
  using consistent_eventsD [OF assms(1)] reducer.fold_reference [of es s "ts_lastSeq s"]
    at_cursor_same [of s] assms(2)
  by (simp add: reducer.reference_def)

lemma reduce_same_set:
  assumes "consistent_events (ts_threadId s) vs es" and "consistent_events (ts_threadId s) ws fs"
    and "set es = set fs" and "ts_pendingEvents s = []"
  shows "reduceRunEvents s vs = reduceRunEvents s ws"
  using consistent_eventsD [OF assms(1)] consistent_eventsD [OF assms(2)]
    reducer.fold_same_set [OF assms(3), of s "ts_lastSeq s"] at_cursor_same [of s] assms(4)
  by simp

lemma reduce_complete:
  assumes "consistent_events (ts_threadId s) vs es" and "ts_pendingEvents s = []"
    and "map ev_seq xs = [Suc (ts_lastSeq s)..<Suc (ts_lastSeq s + length xs)]" and "set es = set xs"
  shows "reduceRunEvents s vs =
    map_sum id (\<lambda>s'. at_cursor s' (ts_lastSeq s + length xs) []) (foldE applyEvent s xs)"
  using consistent_eventsD [OF assms(1)] reducer.fold_complete [OF assms(3,4), of s]
    at_cursor_same [of s] assms(2)
  by simp

lemma reduce_cursor:
  assumes "consistent_events (ts_threadId s) vs es" and "ts_pendingEvents s = []"
    and "reduceRunEvents s vs = Inr s'"
  shows "ts_lastSeq s < k \<Longrightarrow> k \<le> ts_lastSeq s' \<Longrightarrow> \<exists>e \<in> set es. ev_seq e = k"
    and "e \<in> set es \<Longrightarrow> ev_seq e \<noteq> Suc (ts_lastSeq s')"
    and "ts_pendingEvents s' = ahead ev_seq (ts_lastSeq s') es"
proof -
  obtain c m where r: "replay applyEvent ev_seq es (ts_lastSeq s) s = Inr (c, m)"
    and s': "s' = at_cursor c m (ahead ev_seq m es)"
    using assms(3) unfolding reduce_reference [OF assms(1,2)]
    by (cases "replay applyEvent ev_seq es (ts_lastSeq s) s") auto
  show "ts_lastSeq s < k \<Longrightarrow> k \<le> ts_lastSeq s' \<Longrightarrow> \<exists>e \<in> set es. ev_seq e = k"
    using replay_covers [OF r] by (simp add: s')
  show "e \<in> set es \<Longrightarrow> ev_seq e \<noteq> Suc (ts_lastSeq s')"
    using replay_gap [OF r] by (simp add: s')
  show "ts_pendingEvents s' = ahead ev_seq (ts_lastSeq s') es" by (simp add: s')
qed

lemma consistent_subset:
  assumes "consistent_events t vs es" and "mapE parseRunEvent ws = Inr fs" and "set fs \<subseteq> set es"
  shows "consistent_events t (vs @ ws) (es @ fs)"
  using assms by (auto simp: consistent_events_def list_all_iff mapE_eq_Inr list_all2_appendI)

lemma reduce_redelivery:
  assumes "consistent_events (ts_threadId s) vs es" and "ts_pendingEvents s = []"
    and "reduceRunEvents s vs = Inr s'" and "mapE parseRunEvent ws = Inr fs" and "set fs \<subseteq> set es"
  shows "reduceRunEvents s' ws = Inr s'"
proof -
  have "reduceRunEvents s (vs @ ws) = reduceRunEvents s vs"
    using assms(5)
    by (intro reduce_same_set [OF consistent_subset [OF assms(1,4,5)] assms(1) _ assms(2)]) auto
  with assms(3) show ?thesis by (simp add: reduceRunEvents_def foldE_append)
qed

end
