(* ===== verification/Transcript.thy ===== *)
theory Transcript
  imports Reducer_Convergence
begin

text \<open>
  What a thread's messages say: the text of a message is what the events wrote to it, appended
  in sequence order. Token deltas write to the message they name, a steering event writes its
  text to the message it creates, nothing else writes text.
\<close>

definition message_text :: "thread_snapshot \<Rightarrow> string \<times> string \<Rightarrow> string" where
  "message_text s k = (case findMessage s (fst k) (snd k) of None \<Rightarrow> [] | Some m \<Rightarrow> ms_text m)"

fun written :: "string \<times> string \<Rightarrow> run_event \<Rightarrow> string" where
  "written k (TokenDelta b m d) = (if (runId b, m) = k then d else [])"
| "written k (RunSteered b m t) = (if (runId b, m) = k then t else [])"
| "written k _ = []"

lemma find_map_same:
  "(\<And>x. P (f x) = P x) \<Longrightarrow> find P (map f xs) = map_option f (find P xs)"
  by (induction xs) auto

lemma message_text_updates [snapshot_simps]:
  "message_text (withRun s r) k = message_text s k"
  "message_text (withMessage s m) k = (if k = msg_key m then ms_text m else message_text s k)"
  "message_text (closeMessages s i) k = message_text s k"
proof -
  show "message_text (withRun s r) k = message_text s k"
    by (simp add: message_text_def snapshot_simps)
  show "message_text (withMessage s m) k = (if k = msg_key m then ms_text m else message_text s k)"
    using message_store.lookup_put [of s m k] by (cases k) (auto simp: message_text_def)
  have "findMessage (closeMessages s i) a b =
      map_option (\<lambda>m. if ms_runId m = i \<and> ms_role m = Assistant then m\<lparr>ms_complete := True\<rparr> else m)
        (findMessage s a b)" for a b
    unfolding findMessage_def closeMessages_def by (simp add: find_map_same)
  then show "message_text (closeMessages s i) k = message_text s k"
    by (auto simp: message_text_def split: option.splits)
qed

lemma message_text_cursor [simp]:
  "message_text (s\<lparr>ts_lastSeq := n, ts_pendingEvents := p\<rparr>) k = message_text s k"
  by (simp add: message_text_def findMessage_def)

lemma asRunning_text: "asRunning s i = Inr (s', r) \<Longrightarrow> message_text s' k = message_text s k"
  by (auto simp: asRunning_def Let_def snapshot_simps split: if_splits sum.splits)

lemma asTerminal_text: "asTerminal s i st = Inr (s', r) \<Longrightarrow> message_text s' k = message_text s k"
  by (auto simp: asTerminal_def Let_def snapshot_simps split: if_splits sum.splits)

lemma completeRunMessages_text:
  "completeRunMessages s i m = Inr s' \<Longrightarrow> message_text s' k = message_text s k"
  by (auto simp: completeRunMessages_def snapshot_simps split: option.splits if_splits)
     (simp add: message_text_def)

lemma applyEvent_text:
  assumes "applyEvent s e = Inr s'"
  shows "message_text s' k = message_text s k @ written k e"
proof (cases e)
  case (TokenDelta b m d)
  then obtain u r where r: "asRunning s (runId b) = Inr (u, r)"
    using assms by (auto simp: handler_defs result_simps)
  note u = asRunning_text [OF r, of k]
  have "findMessage u (runId b) m = Some x \<Longrightarrow> msg_key x = (runId b, m)" for x
    using message_store.lookup_key [of u "(runId b, m)"] by simp
  with assms TokenDelta r u show ?thesis
    by (auto simp: handler_defs snapshot_simps split: option.splits if_splits)
       (auto simp: message_text_def)
next
  case (RunSteered b m t)
  then obtain u r where r: "asRunning s (runId b) = Inr (u, r)"
    using assms by (auto simp: handler_defs result_simps)
  with assms RunSteered asRunning_text [OF r, of k] show ?thesis
    by (auto simp: handler_defs snapshot_simps split: option.splits if_splits)
       (auto simp: message_text_def)
qed (use assms in \<open>auto simp: handler_defs Let_def result_simps snapshot_simps
      dest!: asRunning_text [where k = k] asTerminal_text [where k = k]
        completeRunMessages_text [where k = k]
      split: option.splits sum.splits if_splits\<close>)

lemma foldE_text:
  "foldE applyEvent s es = Inr s' \<Longrightarrow> message_text s' k = message_text s k @ concat (map (written k) es)"
  by (induction es arbitrary: s) (auto simp: result_simps applyEvent_text)

end
