(* ===== verification/Thread_Properties.thy ===== *)
theory Thread_Properties
  imports Transcript
begin

text \<open>
  The correctness properties of the run protocol: the status graph, the event codec, the
  thread reducer as a consumer of an unreliable delivery, and what a snapshot guarantees of
  its runs, tool calls and messages. The sample stream at the start is the input of the
  witnesses.
\<close>

section \<open>A sample stream\<close>

definition sample_base :: "nat \<Rightarrow> event_base" where
  "sample_base n = \<lparr>seq = n, threadId = ''t'', runId = ''r''\<rparr>"

definition sample_stream :: "run_event list" where
  "sample_stream =
     [RunStarted (sample_base 1),
      TokenDelta (sample_base 2) ''m'' ''hi'',
      ToolRequested (sample_base 3) ''c'' ''shell'' JNull,
      ApprovalRequested (sample_base 4) ''c'' ''2026-01-01T00:00:00Z'',
      ApprovalResolved (sample_base 5) ''c'' DDenied None,
      RunCompleted (sample_base 6) None]"

definition sample_thread :: thread_snapshot where
  "sample_thread =
     \<lparr>ts_threadId = ''t'', ts_runs = [], ts_messages = [], ts_lastSeq = 0, ts_pendingEvents = []\<rparr>"

definition sample_after :: "nat list \<Rightarrow> reduce_result" where
  "sample_after ks = reduceRunEvents sample_thread (map event_value (map (nth sample_stream) ks))"

lemma consistent_values:
  assumes "list_all wf_event es" and "list_all (\<lambda>e. threadId (ev_base e) = t) es"
    and "distinct (map ev_seq (remdups es))"
  shows "consistent_events t (map event_value es) es"
proof -
  have "mapE parseRunEvent (map event_value es) = Inr es"
    using assms(1) by (induction es) (simp_all add: parse_event_value)
  moreover have "inj_on ev_seq (set es)" using assms(3) by (simp add: distinct_map)
  ultimately show ?thesis
    using assms(2) by (auto simp: consistent_events_def list_all_iff inj_on_def)
qed


lemma sample_ok: "is_ok (sample_after ks) \<Longrightarrow> \<exists>s. sample_after ks = Inr s"
  by (auto simp: is_ok_def split: sum.splits)

lemma sample_created: "createThreadSnapshot ''t'' None = Inr sample_thread"
  by (simp add: createThreadSnapshot_def sample_thread_def max_safe_integer_def)

lemma sample_wf: "sample_after ks = Inr s \<Longrightarrow> wf_snapshot s"
  using reduceRunEvents_keeps createThreadSnapshot_wf [OF sample_created]
  by (auto simp: sample_after_def)

lemma sample_sizes:
  "ts_pendingEvents sample_thread = []" "ts_lastSeq sample_thread = 0" "length sample_stream = 6"
  by (simp_all add: sample_thread_def sample_stream_def)

lemma sample_consistent:
  "consistent_events (ts_threadId sample_thread) (map event_value (rev sample_stream)) (rev sample_stream)"
  "consistent_events (ts_threadId sample_thread)
     (map event_value (sample_stream @ [hd sample_stream])) (sample_stream @ [hd sample_stream])"
  "consistent_events (ts_threadId sample_thread) (map event_value (take 2 sample_stream @ drop 3 sample_stream))
     (take 2 sample_stream @ drop 3 sample_stream)"
  by (rule consistent_values; code_simp)+

lemma sample_deliveries:
  "\<exists>s. reduceRunEvents sample_thread (map event_value (rev sample_stream)) = Inr s"
  "\<exists>s. reduceRunEvents sample_thread (map event_value (take 2 sample_stream @ drop 3 sample_stream)) = Inr s"
proof -
  have p: "map (nth sample_stream) [5, 4, 3, 2, 1, 0] = rev sample_stream"
    "map (nth sample_stream) [0, 1, 3, 4, 5] = take 2 sample_stream @ drop 3 sample_stream"
    by (simp_all add: sample_stream_def)
  have "is_ok (sample_after [5, 4, 3, 2, 1, 0])" by code_simp
  from sample_ok [OF this] show "\<exists>s. reduceRunEvents sample_thread (map event_value (rev sample_stream)) = Inr s"
    unfolding sample_after_def p .
  have "is_ok (sample_after [0, 1, 3, 4, 5])" by code_simp
  from sample_ok [OF this] show
    "\<exists>s. reduceRunEvents sample_thread (map event_value (take 2 sample_stream @ drop 3 sample_stream)) = Inr s"
    unfolding sample_after_def p .
qed

section \<open>What becomes of a run\<close>

lemma evolved_run:
  assumes "snapshot_evolves s s'" and "wf_snapshot s" and "findRun s i = Some r"
  shows "\<exists>r'. findRun s' i = Some r' \<and> run_evolves r r'"
proof -
  have e: "run_evolves r (existingOrFresh s' i)"
    using assms(1,3) by (auto simp: snapshot_evolves_def existingOrFresh_found dest: spec [of _ i])
  have "rs_status r \<noteq> Queued"
    using assms(2,3) by (auto simp: wf_snapshot_def wf_runs_def list_all_iff findRun_def find_Some_iff)
  with e have "findRun s' i \<noteq> None"
    by (auto simp: run_evolves_def existingOrFresh_def dest: never_back_to_queued split: option.splits)
  with e show ?thesis by (auto simp: existingOrFresh_def)
qed

lemma evolved_call:
  assumes "run_evolves r r'" and "wf_run r'" and "findCall r c = Some call"
  shows "\<exists>call'. findCall r' c = Some call' \<and> call_evolves call call'"
proof -
  have "call \<in> set (rs_toolCalls r)" "tc_callId call = c" using findCall_in [OF assms(3)] by auto
  moreover have "list_all2 call_evolves (rs_toolCalls r)
      (take (length (rs_toolCalls r)) (rs_toolCalls r'))"
    using assms(1) by (simp add: run_evolves_def)
  ultimately obtain call' where "call' \<in> set (rs_toolCalls r')" "call_evolves call call'"
    by (auto simp: list_all2_conv_all_nth in_set_conv_nth)
       (metis length_take min.strict_boundedE nth_mem nth_take)
  moreover from this have "tc_callId call' = c"
    using \<open>tc_callId call = c\<close> by (simp add: call_evolves_def)
  ultimately show ?thesis
    using assms(2) find_key_distinct [where key = tc_callId and x = call']
    by (auto simp: findCall_def wf_run_def)
qed

lemma wf_found: "wf_snapshot s \<Longrightarrow> findRun s i = Some r \<Longrightarrow> wf_run r"
  by (auto simp: wf_snapshot_def wf_runs_def list_all_iff findRun_def find_Some_iff)

section \<open>Delivery\<close>

text \<open>
  C1: The snapshot is a function of the set of events received. Two deliveries of the same
  stored events to the same thread, in any order and with any duplicates, end in the same
  snapshot or in the same error.
\<close>

theorem reducer_convergence:
  assumes "consistent_events (ts_threadId s) vs es" and "consistent_events (ts_threadId s) ws fs"
    and "set es = set fs" and "ts_pendingEvents s = []"
  shows "reduceRunEvents s vs = reduceRunEvents s ws"
  using assms by (rule reduce_same_set)

theorem reducer_convergence_witness:
  "reduceRunEvents sample_thread (map event_value (rev sample_stream)) =
   reduceRunEvents sample_thread (map event_value (sample_stream @ [hd sample_stream]))"
  by (rule reducer_convergence [OF sample_consistent(1,2)]) code_simp+

text \<open>
  The cursor stands right before the first gap. After any delivery, every sequence number
  from the starting cursor up to the new one was received, the next one was not, and the
  buffer holds exactly the events received ahead of the gap, in order and without duplicates.
\<close>

theorem reducer_cursor:
  assumes "consistent_events (ts_threadId s) vs es" and "ts_pendingEvents s = []"
    and "reduceRunEvents s vs = Inr s'"
  shows "(\<forall>k. ts_lastSeq s < k \<and> k \<le> ts_lastSeq s' \<longrightarrow> k \<in> ev_seq ` set es) \<and>
    Suc (ts_lastSeq s') \<notin> ev_seq ` set es \<and>
    set (ts_pendingEvents s') = {e \<in> set es. ts_lastSeq s' < ev_seq e} \<and>
    sorted_wrt (<) (map ev_seq (ts_pendingEvents s'))"
proof -
  note c = reduce_cursor [OF assms]
  note a = ahead_props [OF consistent_eventsD(2) [OF assms(1)], of "ts_lastSeq s'"]
  have "sorted_wrt (<) (map ev_seq (ts_pendingEvents s'))"
    using a(2,3) by (simp add: c(3) strict_sorted_iff)
  moreover have "k \<in> ev_seq ` set es" if "ts_lastSeq s < k" "k \<le> ts_lastSeq s'" for k
    using c(1) [OF that] by force
  moreover have "Suc (ts_lastSeq s') \<notin> ev_seq ` set es" using c(2) by force
  ultimately show ?thesis by (simp add: c(3) a(1))
qed

theorem reducer_cursor_witness:
  "\<exists>s'. reduceRunEvents sample_thread (map event_value (take 2 sample_stream @ drop 3 sample_stream)) = Inr s' \<and>
     Suc (ts_lastSeq s') \<notin> ev_seq ` set (take 2 sample_stream @ drop 3 sample_stream)"
proof -
  obtain s' where
    s': "reduceRunEvents sample_thread (map event_value (take 2 sample_stream @ drop 3 sample_stream)) = Inr s'"
    using sample_deliveries(2) by blast
  with reducer_cursor [OF sample_consistent(3) _ s'] show ?thesis by (simp add: sample_thread_def)
qed

text \<open>
  A complete delivery is the fold in order. When the events received are those numbered
  from the cursor on without a gap, then in whatever order they came the result is the
  handlers applied in sequence order, the cursor at the last number and the buffer empty.
\<close>

theorem reducer_complete_stream:
  assumes "consistent_events (ts_threadId s) vs es" and "ts_pendingEvents s = []"
    and "map ev_seq xs = [Suc (ts_lastSeq s)..<Suc (ts_lastSeq s + length xs)]" and "set es = set xs"
  shows "reduceRunEvents s vs =
    (case foldE applyEvent s xs of
       Inl e \<Rightarrow> Inl e
     | Inr s' \<Rightarrow> Inr (s'\<lparr>ts_lastSeq := ts_lastSeq s + length xs, ts_pendingEvents := []\<rparr>))"
  using reduce_complete [OF assms]
  by (cases "foldE applyEvent s xs") (simp_all add: at_cursor_def)

theorem reducer_complete_stream_witness:
  "reduceRunEvents sample_thread (map event_value (rev sample_stream)) =
   (case foldE applyEvent sample_thread sample_stream of
      Inl e \<Rightarrow> Inl e | Inr s' \<Rightarrow> Inr (s'\<lparr>ts_lastSeq := 6, ts_pendingEvents := []\<rparr>))"
proof -
  have "map ev_seq sample_stream =
      [Suc (ts_lastSeq sample_thread)..<Suc (ts_lastSeq sample_thread + length sample_stream)]"
    by code_simp
  from reducer_complete_stream [OF sample_consistent(1) _ this] show ?thesis
    by (simp add: sample_sizes cong: sum.case_cong)
qed

text \<open>
  Redelivery changes nothing. Events already received, whether applied or still in the
  buffer, leave the snapshot as it is, in any order and number.
\<close>

theorem reducer_redelivery:
  assumes "consistent_events (ts_threadId s) vs es" and "ts_pendingEvents s = []"
    and "reduceRunEvents s vs = Inr s'" and "mapE parseRunEvent ws = Inr fs" and "set fs \<subseteq> set es"
  shows "reduceRunEvents s' ws = Inr s'"
  using assms by (rule reduce_redelivery)

theorem reducer_redelivery_witness:
  "\<exists>s'. reduceRunEvents sample_thread (map event_value (rev sample_stream)) = Inr s' \<and>
     reduceRunEvents s' [event_value (sample_stream ! 2)] = Inr s'"
proof -
  obtain s' where
    s': "reduceRunEvents sample_thread (map event_value (rev sample_stream)) = Inr s'"
    using sample_deliveries(1) by blast
  have "wf_event (sample_stream ! 2)" by code_simp
  then have "mapE parseRunEvent [event_value (sample_stream ! 2)] = Inr [sample_stream ! 2]"
    by (simp add: parse_event_value)
  from reducer_redelivery [OF sample_consistent(1) sample_sizes(1) s' this] s' show ?thesis
    by (simp add: sample_sizes)
qed

section \<open>What a snapshot guarantees\<close>

text \<open>
  C23: Every snapshot reached from a new thread is well formed, whatever values were delivered:
  run ids, call ids and message keys are unique, a call's result and error fit its status, a
  run waits for approval only while an approval is pending, it carries a failure exactly when
  it failed and a cancel reason only when it was cancelled, and the buffer holds parsed events
  of this thread beyond the next sequence number, in strictly increasing order.
\<close>

theorem snapshot_invariant:
  assumes "createThreadSnapshot t n = Inr s" and "reduceRunEvents s vs = Inr s'"
  shows "wf_snapshot s'"
  using reduceRunEvents_keeps [OF assms(2)] createThreadSnapshot_wf [OF assms(1)] by simp

theorem snapshot_invariant_witness:
  "\<exists>s'. reduceRunEvents sample_thread [event_value (sample_stream ! 0), event_value (sample_stream ! 2)] = Inr s' \<and>
     wf_snapshot s'"
proof -
  have "is_ok (sample_after [0, 2])" by code_simp
  then obtain s' where "reduceRunEvents sample_thread
      [event_value (sample_stream ! 0), event_value (sample_stream ! 2)] = Inr s'"
    using sample_ok [of "[0, 2]"] by (auto simp: sample_after_def)
  with snapshot_invariant [OF sample_created this] show ?thesis by blast
qed

text \<open>
  C22: A run never goes back. Whatever is delivered next, the runs of the snapshot keep their places and
  new runs come after them; a run's status is one the graph reaches from the old one, a terminal
  status is final, and every tool call keeps its place, tool and arguments; a call's outcome and an
  approval's decision are final once made.
\<close>

theorem run_history_is_monotone:
  assumes "reduceRunEvents s vs = Inr s'" and "wf_snapshot s" and "k < length (ts_runs s)"
  shows "take (length (ts_runs s)) (map rs_runId (ts_runs s')) = map rs_runId (ts_runs s) \<and>
    k < length (ts_runs s') \<and> run_evolves (ts_runs s ! k) (ts_runs s' ! k) \<and>
    (isTerminalStatus (rs_status (ts_runs s ! k)) \<longrightarrow> rs_status (ts_runs s' ! k) = rs_status (ts_runs s ! k))"
proof -
  let ?r = "ts_runs s ! k" and ?r' = "ts_runs s' ! k"
  have keeps: "wf_snapshot s'" "snapshot_evolves s s'" using reduceRunEvents_keeps [OF assms(1,2)] by blast+
  then obtain new where new: "map rs_runId (ts_runs s') = map rs_runId (ts_runs s) @ new"
    by (auto simp: snapshot_evolves_def)
  have len: "length (ts_runs s') = length (ts_runs s) + length new" using arg_cong [OF new, of length] by simp
  have "map rs_runId (ts_runs s') ! k = map rs_runId (ts_runs s) ! k" using new assms(3) by (simp add: nth_append)
  then have id: "rs_runId ?r' = rs_runId ?r" using assms(3) len by simp
  have found: "findRun t (rs_runId (ts_runs t ! k)) = Some (ts_runs t ! k)" if "wf_snapshot t" "k < length (ts_runs t)" for t
    using that find_key_distinct [of rs_runId "ts_runs t" "ts_runs t ! k"]
    by (simp add: findRun_def wf_snapshot_def wf_runs_def)
  have "run_evolves ?r ?r'"
    using evolved_run [OF keeps(2) assms(2) found [OF assms(2,3)]] found [OF keeps(1)] assms(3) len id by auto
  with terminal_stays [of "rs_status ?r" "rs_status ?r'"] new len assms(3) show ?thesis
    by (auto simp: run_evolves_def)
qed

theorem run_history_is_monotone_witness:
  "\<exists>s s'. sample_after [0, 1] = Inr s \<and> reduceRunEvents s [event_value (sample_stream ! 2)] = Inr s' \<and>
     map rs_runId (ts_runs s) = [''r''] \<and> take 1 (map rs_runId (ts_runs s')) = [''r''] \<and>
     run_evolves (ts_runs s ! 0) (ts_runs s' ! 0)"
proof -
  have "is_ok (bindE (sample_after [0, 1]) (\<lambda>s. bindE (reduceRunEvents s [event_value (sample_stream ! 2)])
      (\<lambda>s'. guardE (UnknownToolCall []) (map rs_runId (ts_runs s) = [''r'']))))"
    by code_simp
  then obtain s s' where s: "sample_after [0, 1] = Inr s" "map rs_runId (ts_runs s) = [''r'']"
    and s': "reduceRunEvents s [event_value (sample_stream ! 2)] = Inr s'"
    by (auto simp: is_ok_def bindE_def guardE_def split: sum.splits if_splits)
  have l: "length (ts_runs s) = 1" using arg_cong [OF s(2), of length] by simp
  from run_history_is_monotone [OF s' sample_wf [OF s(1)], of 0] s s' l show ?thesis by simp
qed

text \<open>
  C21: A refused call never completes. Once the approval of an open tool call was denied or
  timed out, no later delivery makes that call complete or changes the decision.
\<close>

theorem refused_call_never_completes:
  assumes "reduceRunEvents s vs = Inr s'" and "wf_snapshot s"
    and "findRun s i = Some r" and "findCall r c = Some call"
    and "refused call" and "tc_status call = TRequested"
  shows "\<exists>r' call'. findRun s' i = Some r' \<and> findCall r' c = Some call' \<and>
    refused call' \<and> tc_status call' \<noteq> TCompleted"
proof -
  note k = reduceRunEvents_keeps [OF assms(1,2)]
  obtain r' where r': "findRun s' i = Some r'" "run_evolves r r'"
    using evolved_run [OF _ assms(2,3)] k by blast
  obtain call' where "findCall r' c = Some call'" and e: "call_evolves call call'"
    using evolved_call [OF r'(2) _ assms(4)] wf_found [OF _ r'(1)] k by blast
  with r' refused_stays [OF e assms(5)] assms(5,6) show ?thesis
    by (auto simp: call_evolves_def)
qed

theorem refused_call_never_completes_witness:
  "\<exists>s r call s' r' call'. sample_after [0, 1, 2, 3, 4] = Inr s \<and>
     findRun s ''r'' = Some r \<and> findCall r ''c'' = Some call \<and> refused call \<and>
     reduceRunEvents s [event_value (sample_stream ! 5)] = Inr s' \<and>
     findRun s' ''r'' = Some r' \<and> findCall r' ''c'' = Some call' \<and> tc_status call' \<noteq> TCompleted"
proof -
  have "is_ok (bindE (sample_after [0, 1, 2, 3, 4]) (\<lambda>s.
      bindE (reduceRunEvents s [event_value (sample_stream ! 5)]) (\<lambda>s'.
      guardE (UnknownToolCall ''c'') (case findRun s ''r'' of None \<Rightarrow> False | Some r \<Rightarrow>
        (case findCall r ''c'' of None \<Rightarrow> False | Some call \<Rightarrow> refused call \<and> tc_status call = TRequested)))))"
    by code_simp
  then obtain s s' r call where s: "sample_after [0, 1, 2, 3, 4] = Inr s"
    and r: "findRun s ''r'' = Some r" "findCall r ''c'' = Some call" "refused call" "tc_status call = TRequested"
    and s': "reduceRunEvents s [event_value (sample_stream ! 5)] = Inr s'"
    by (auto simp: is_ok_def bindE_def guardE_def split: sum.splits option.splits if_splits)
  with refused_call_never_completes [OF s' sample_wf [OF s] r] show ?thesis by blast
qed

text \<open>
  A message is complete exactly when nothing more can be written to it. In every snapshot
  reached from a new thread each message belongs to a run of the snapshot; a user message is
  complete, an assistant message is complete exactly when its run has ended.
\<close>

theorem message_completeness:
  assumes "createThreadSnapshot t n = Inr s" and "reduceRunEvents s vs = Inr s'"
    and "m \<in> set (ts_messages s')"
  shows "\<exists>r. findRun s' (ms_runId m) = Some r \<and>
    (ms_complete m \<longleftrightarrow> ms_role m = User \<or> isTerminalStatus (rs_status r))"
proof -
  have "wf_message (ended s') m"
    using reduceRunEvents_keeps [OF assms(2) createThreadSnapshot_wf [OF assms(1)]] assms(3)
    by (simp add: wf_snapshot_def wf_messages_def list_all_iff)
  then show ?thesis by (auto simp: wf_message_def ended_def)
qed

theorem message_completeness_witness:
  "\<exists>s' m r. sample_after [0, 1, 2] = Inr s' \<and> m \<in> set (ts_messages s') \<and>
     findRun s' (ms_runId m) = Some r \<and>
     (ms_complete m \<longleftrightarrow> ms_role m = User \<or> isTerminalStatus (rs_status r))"
proof -
  have "is_ok (bindE (sample_after [0, 1, 2]) (\<lambda>s. guardE (UnknownToolCall ''c'') (ts_messages s \<noteq> [])))"
    by code_simp
  then obtain s' where s': "sample_after [0, 1, 2] = Inr s'" and "ts_messages s' \<noteq> []"
    by (auto simp: is_ok_def bindE_def guardE_def split: sum.splits if_splits)
  then obtain m where "m \<in> set (ts_messages s')" by (meson last_in_set)
  with message_completeness [OF sample_created s' [unfolded sample_after_def]] s' show ?thesis by blast
qed

text \<open>
  C24: A message says what was written to it. After a complete delivery, in whatever order, the
  text of every message is its old text followed by the token deltas and steering texts that
  name it, in sequence order.
\<close>

theorem message_text_is_transcript:
  assumes "consistent_events (ts_threadId s) vs es" and "ts_pendingEvents s = []"
    and "map ev_seq xs = [Suc (ts_lastSeq s)..<Suc (ts_lastSeq s + length xs)]" and "set es = set xs"
    and "reduceRunEvents s vs = Inr s'"
  shows "message_text s' k = message_text s k @ concat (map (written k) xs)"
proof -
  from assms(5) obtain u where "foldE applyEvent s xs = Inr u"
    and "s' = u\<lparr>ts_lastSeq := ts_lastSeq s + length xs, ts_pendingEvents := []\<rparr>"
    using reduce_complete [OF assms(1-4)]
    by (cases "foldE applyEvent s xs") (auto simp: at_cursor_def)
  then show ?thesis by (simp add: foldE_text)
qed

theorem message_text_is_transcript_witness:
  "\<exists>s'. reduceRunEvents sample_thread (map event_value (rev sample_stream)) = Inr s' \<and>
     message_text s' (''r'', ''m'') = ''hi''"
proof -
  obtain s' where
    s': "reduceRunEvents sample_thread (map event_value (rev sample_stream)) = Inr s'"
    using sample_deliveries(1) by blast
  have "map ev_seq sample_stream =
      [Suc (ts_lastSeq sample_thread)..<Suc (ts_lastSeq sample_thread + length sample_stream)]"
    by code_simp
  from message_text_is_transcript [OF sample_consistent(1) sample_sizes(1) this set_rev s']
  have "message_text s' (''r'', ''m'') =
      message_text sample_thread (''r'', ''m'') @ concat (map (written (''r'', ''m'')) sample_stream)" .
  also have "\<dots> = ''hi''"
    by (simp add: sample_stream_def sample_base_def sample_thread_def message_text_def findMessage_def)
  finally show ?thesis by (intro exI [of _ s'] conjI s')
qed

section \<open>Gates, statuses and the codec\<close>

text \<open>
  The run graph, completely. From a status the graph reaches that status itself and, when
  the status is active, every status but queued; so terminal statuses are final, every active
  run can still end in each way, and no run is queued twice.
\<close>

theorem run_reachability:
  "canTransition\<^sup>*\<^sup>* s t \<longleftrightarrow> s = t \<or> isActiveStatus s \<and> t \<noteq> Queued"
proof
  assume r: "canTransition\<^sup>*\<^sup>* s t"
  then show "s = t \<or> isActiveStatus s \<and> t \<noteq> Queued"
    using terminal_stays never_back_to_queued by (auto simp: isActiveStatus_def)
next
  assume "s = t \<or> isActiveStatus s \<and> t \<noteq> Queued"
  moreover have "canTransition\<^sup>*\<^sup>* s Running" if "isActiveStatus s"
    using that by (cases s) (auto simp: run_status_defs intro!: r_into_rtranclp)
  moreover have "canTransition\<^sup>*\<^sup>* Running t" if "t \<noteq> Queued"
    using that by (cases t) (auto simp: run_status_defs intro!: r_into_rtranclp)
  ultimately show "canTransition\<^sup>*\<^sup>* s t" by (auto intro: rtranclp_trans)
qed

text \<open>
  C25: The event codec. Parsing yields exactly the well-formed events (positive safe sequence
  number, non-empty ids, ISO expiry, safe byte counts and durations), and the object form of an
  event parses back to that event exactly when the event is well formed. A stored row's columns
  win over its payload: an event read back from the store is well formed and has the row's
  sequence number, thread, run and type, whatever the payload says of them.
\<close>

theorem event_codec:
  "(parseRunEvent (event_value e) = Inr e) = wf_event e \<and>
   (\<exists>v. parseRunEvent v = Inr e) = wf_event e \<and>
   (storedRunEvent row = Inr e \<longrightarrow>
      row_seq row = Fin (of_nat (ev_seq e)) \<and> threadId (ev_base e) = row_threadId row \<and>
      row_runId row = Some (ev_runId e) \<and> event_type e = row_type row \<and> wf_event e)"
proof (intro conjI impI)
  show "(parseRunEvent (event_value e) = Inr e) = wf_event e" "(\<exists>v. parseRunEvent v = Inr e) = wf_event e"
    using parse_event_value [of e] parse_wf by blast+
  assume r: "storedRunEvent row = Inr e"
  show "row_seq row = Fin (of_nat (ev_seq e))" "threadId (ev_base e) = row_threadId row"
    "row_runId row = Some (ev_runId e)" "event_type e = row_type row"
    using stored_columns [OF r] by simp_all
  show "wf_event e" using r by (auto simp: storedRunEvent_def dest: parse_wf split: option.splits)
qed

theorem event_codec_witness:
  "\<exists>e. storedRunEvent \<lparr>row_payload = JObj [(''seq'', JNum (Fin 9)), (''runId'', JStr ''x'')], row_seq = Fin 4,
       row_threadId = ''t'', row_runId = Some ''r'', row_type = ''run.started''\<rparr> = Inr e \<and>
     ev_runId e = ''r''"
    (is "\<exists>e. storedRunEvent ?row = Inr e \<and> _")
proof -
  have "is_ok (storedRunEvent ?row)" by code_simp
  then obtain e where e: "storedRunEvent ?row = Inr e" by (auto simp: is_ok_def split: sum.splits)
  from event_codec [of e ?row] e have "ev_runId e = ''r''" by simp
  with e show ?thesis by blast
qed

text \<open>
  A start event clears the gate. In any well-formed snapshot, a run waiting for approval
  is moved to running by \<open>run.started\<close> although an approval is still pending; the other
  events of an active run leave the gate closed.
\<close>

theorem started_clears_gate:
  assumes "wf_snapshot s" and "findRun s i = Some r" and "rs_status r = Waiting_approval"
  shows "\<exists>s' r'. reduceRunStarted s i = Inr s' \<and> findRun s' i = Some r' \<and>
    rs_status r' = Running \<and> hasPendingApproval r'"
proof -
  have "hasPendingApproval r" using wf_found [OF assms(1,2)] assms(3) by (simp add: wf_run_def)
  then have "hasPendingApproval (r\<lparr>rs_status := Running\<rparr>)" by (simp add: hasPendingApproval_def)
  moreover have "reduceRunStarted s i = Inr (withRun s (r\<lparr>rs_status := Running\<rparr>))"
    using assms(2,3) by (simp add: reduceRunStarted_def existingOrFresh_found transition_def canTransition_def)
  ultimately show ?thesis
    using run_store.lookup_key [OF assms(2)] by (simp add: snapshot_simps)
qed

theorem started_clears_gate_witness:
  "\<exists>s r s' r'. sample_after [0, 1, 2, 3] = Inr s \<and> findRun s ''r'' = Some r \<and>
     rs_status r = Waiting_approval \<and> reduceRunStarted s ''r'' = Inr s' \<and>
     findRun s' ''r'' = Some r' \<and> rs_status r' = Running \<and> hasPendingApproval r'"
proof -
  have "is_ok (bindE (sample_after [0, 1, 2, 3]) (\<lambda>s. guardE (UnknownToolCall ''c'')
      (case findRun s ''r'' of None \<Rightarrow> False | Some r \<Rightarrow> rs_status r = Waiting_approval)))"
    by code_simp
  then obtain s r where s: "sample_after [0, 1, 2, 3] = Inr s"
    and r: "findRun s ''r'' = Some r" "rs_status r = Waiting_approval"
    by (auto simp: is_ok_def bindE_def guardE_def split: sum.splits option.splits if_splits)
  with started_clears_gate [OF sample_wf [OF s] r] show ?thesis by blast
qed

end
