(* ===== verification/Table.thy ===== *)
theory Table
  imports Prelude
begin

text \<open>
  A database table as a list of rows, and the two halves of a guarded update: the rows after
  \<open>update .. set f where P\<close> and the rows its \<open>returning\<close> clause yields. A statement is atomic
  and sees one state, so a statement of the sources is one function here and a concurrent
  execution is a sequence of them. What a unique index gives is stated once, in a locale over
  the indexed columns.
\<close>

named_theorems row_simps \<open>columns after an update\<close>

definition update_where :: "('r \<Rightarrow> bool) \<Rightarrow> ('r \<Rightarrow> 'r) \<Rightarrow> 'r list \<Rightarrow> 'r list" where
  "update_where P f rows = map (\<lambda>r. if P r then f r else r) rows"

definition returning :: "('r \<Rightarrow> bool) \<Rightarrow> ('r \<Rightarrow> 'r) \<Rightarrow> 'r list \<Rightarrow> 'r list" where
  "returning P f rows = map f (filter P rows)"

definition first_row :: "'r list \<Rightarrow> 'r option" where
  "first_row rows = (case rows of [] \<Rightarrow> None | r # _ \<Rightarrow> Some r)"

definition coalesce :: "'a option \<Rightarrow> 'a option \<Rightarrow> 'a option" where
  "coalesce a b = (case a of None \<Rightarrow> b | Some x \<Rightarrow> Some x)"

lemma first_row_Nil [simp]: "first_row [] = None" and first_row_Cons [simp]: "first_row (r # rs) = Some r"
  by (simp_all add: first_row_def)

lemma coalesce_simps [simp]: "coalesce (Some x) b = Some x" "coalesce None b = b"
  by (simp_all add: coalesce_def)

lemma update_where_none: "\<forall>r \<in> set rows. \<not> P r \<Longrightarrow> update_where P f rows = rows"
  by (induction rows) (simp_all add: update_where_def)

lemma update_where_False [simp]: "update_where (\<lambda>r. False) f rows = rows"
  by (simp add: update_where_none)

lemma returning_Nil: "returning P f rows = [] \<longleftrightarrow> (\<forall>r \<in> set rows. \<not> P r)"
  by (simp add: returning_def filter_empty_conv)

lemma update_where_Nil: "returning P f rows = [] \<Longrightarrow> update_where P f rows = rows"
  by (simp add: returning_Nil update_where_none)

lemma update_where_id: "(\<And>r. P r \<Longrightarrow> f r = r) \<Longrightarrow> update_where P f rows = rows"
  by (induction rows) (simp_all add: update_where_def)

lemma update_where_set: "r \<in> set (update_where P f rows) \<longleftrightarrow>
    (\<exists>x \<in> set rows. r = (if P x then f x else x))"
  by (auto simp: update_where_def)

locale keyed_update =
  fixes key :: "'r \<Rightarrow> 'k" and f :: "'r \<Rightarrow> 'r"
  assumes keeps_key [simp]: "key (f r) = key r"
begin

lemma map_key_update [simp]: "map key (update_where P f rows) = map key rows"
  by (simp add: update_where_def)

lemma find_update:
  "find (\<lambda>r. key r = k) (update_where P f rows) =
     map_option (\<lambda>r. if P r then f r else r) (find (\<lambda>r. key r = k) rows)"
  by (induction rows) (simp_all add: update_where_def)

lemma returning_unique:
  assumes "distinct (map key rows)" and "\<And>r. P r \<Longrightarrow> key r = k"
  shows "returning P f rows =
    (case find (\<lambda>r. key r = k) rows of None \<Rightarrow> [] | Some r \<Rightarrow> if P r then [f r] else [])"
  using assms(1)
proof (induction rows)
  case (Cons r rows)
  have "\<not> P x" if "x \<in> set rows" "key r = k" for x
    using that assms(2) [of x] Cons.prems by (auto simp: image_iff)
  then have "key r = k \<Longrightarrow> filter P rows = []" by (simp add: filter_empty_conv)
  then show ?case using Cons assms(2) [of r] by (auto simp: returning_def)
qed (simp add: returning_def)

end

lemma find_append_rows: "find P (xs @ ys) = (case find P xs of None \<Rightarrow> find P ys | Some x \<Rightarrow> Some x)"
  by (induction xs) simp_all

lemma find_None_key: "find (\<lambda>r. key r = k) rows = None \<longleftrightarrow> k \<notin> key ` set rows"
  by (auto simp: find_None_iff)

lemma find_conj:
  assumes "\<And>x. P x \<Longrightarrow> Q x" and "find Q xs = Some y" and "P y"
  shows "find P xs = Some y"
  using assms(2,3) by (induction xs) (auto split: if_splits dest: assms(1))

section \<open>Values of a jsonb column\<close>

text \<open>
  The value \<open>JSON.stringify\<close> writes, and a \<open>jsonb\<close> column keeps: no undefined, no number that is not
  finite. A string with a NUL, which Postgres refuses, and the order of keys are not modelled.
\<close>

fun json_of :: "js \<Rightarrow> js" where
  "json_of JUndefined = JNull"
| "json_of JNull = JNull"
| "json_of (JBool b) = JBool b"
| "json_of (JNum n) = (if isFinite n then JNum n else JNull)"
| "json_of (JStr s) = JStr s"
| "json_of (JArr vs) = JArr (map json_of vs)"
| "json_of (JObj fs) =
     JObj (map (\<lambda>(k, v). (k, json_of v)) (filter (\<lambda>(k, v). v \<noteq> JUndefined) fs))"

end
