(* ===== verification/Run_Liveness.thy ===== *)
theory Run_Liveness
  imports Run_Events
begin

text \<open>
  Run liveness (\<open>run-liveness.ts\<close>): the progress tracker the worker feeds with events, whose
  closure variables are a record and whose clock readings are arguments in milliseconds, and the
  assessment of a persisted run.
\<close>

section \<open>The tracker\<close>

datatype run_step_kind = Starting | Thinking | Working | Waiting

datatype run_liveness_state = Step run_step_kind | Stopping | Stuck

definition RUN_STEP_KINDS :: "run_step_kind list" where
  "RUN_STEP_KINDS = [Starting, Thinking, Working, Waiting]"

definition RUN_LIVENESS_STATES :: "run_liveness_state list" where
  "RUN_LIVENESS_STATES = map Step RUN_STEP_KINDS @ [Stopping, Stuck]"

fun step_kind_name :: "run_step_kind \<Rightarrow> string" where
  "step_kind_name Starting = ''starting''"
| "step_kind_name Thinking = ''thinking''"
| "step_kind_name Working = ''working''"
| "step_kind_name Waiting = ''waiting''"

definition isRunStepKind :: "js \<Rightarrow> bool" where
  "isRunStepKind v = (case v of JStr s \<Rightarrow> s \<in> set (map step_kind_name RUN_STEP_KINDS) | _ \<Rightarrow> False)"

definition RUN_STALL_THRESHOLD_SECONDS :: rat where
  "RUN_STALL_THRESHOLD_SECONDS = 180"

record run_step_info =
  st_kind :: run_step_kind
  st_tool :: "string option"

record run_progress_snapshot =
  sn_progressed :: bool
  sn_idleSeconds :: int
  sn_step :: "run_step_info option"

record run_progress =
  pg_lastProgressAt :: int
  pg_progressed :: bool
  pg_step :: "run_step_info option"
  pg_inFlight :: "(string \<times> string) option"

definition createRunProgress :: "int \<Rightarrow> run_progress" where
  "createRunProgress now =
     \<lparr>pg_lastProgressAt = now, pg_progressed = False,
      pg_step = Some \<lparr>st_kind = Starting, st_tool = None\<rparr>, pg_inFlight = None\<rparr>"

definition at_step :: "run_step_kind \<Rightarrow> string option \<Rightarrow> run_progress \<Rightarrow> run_progress" where
  "at_step k t p = p\<lparr>pg_step := Some \<lparr>st_kind = k, st_tool = t\<rparr>\<rparr>"

definition in_flight_tool :: "run_progress \<Rightarrow> string \<Rightarrow> string option" where
  "in_flight_tool p callId =
     (case pg_inFlight p of
        None \<Rightarrow> None
      | Some (c, tool) \<Rightarrow> if c = callId then Some tool else None)"

definition resolve_in_flight :: "string \<Rightarrow> run_progress \<Rightarrow> run_progress" where
  "resolve_in_flight callId p =
     (if in_flight_tool p callId \<noteq> None then p\<lparr>pg_inFlight := None\<rparr> else p)"

definition progressed_at :: "int \<Rightarrow> run_progress \<Rightarrow> run_progress" where
  "progressed_at now p = p\<lparr>pg_lastProgressAt := now, pg_progressed := True\<rparr>"

definition ended_progress :: "run_progress \<Rightarrow> run_progress" where
  "ended_progress p = p\<lparr>pg_step := None, pg_inFlight := None\<rparr>"

fun note_event :: "int \<Rightarrow> run_progress \<Rightarrow> run_event \<Rightarrow> run_progress" where
  "note_event now p (RunCompleted _ _) = ended_progress p"
| "note_event now p (RunFailed _ _ _) = ended_progress p"
| "note_event now p (RunCancelled _ _) = ended_progress p"
| "note_event now p (RunStarted _) = progressed_at now (at_step Starting None p)"
| "note_event now p (TokenDelta _ _ _) = progressed_at now (at_step Thinking None p)"
| "note_event now p (RunSteered _ _ _) = progressed_at now (at_step Thinking None p)"
| "note_event now p (ToolRequested _ callId tool _) =
     progressed_at now (at_step Working (Some tool) (p\<lparr>pg_inFlight := Some (callId, tool)\<rparr>))"
| "note_event now p (ToolCompleted _ callId _ _ _) =
     progressed_at now (at_step Thinking None (resolve_in_flight callId p))"
| "note_event now p (ToolFailed _ callId _ _) =
     progressed_at now (at_step Thinking None (resolve_in_flight callId p))"
| "note_event now p (ApprovalRequested _ callId _) =
     progressed_at now (at_step Waiting (in_flight_tool p callId) p)"
| "note_event now p (ApprovalResolved _ callId decision _) =
     progressed_at now
       (if decision = DApproved \<and> in_flight_tool p callId \<noteq> None
        then at_step Working (in_flight_tool p callId) p
        else at_step Thinking None p)"

definition take_snapshot :: "int \<Rightarrow> run_progress \<Rightarrow> run_progress_snapshot \<times> run_progress" where
  "take_snapshot now p =
     (\<lparr>sn_progressed = pg_progressed p,
       sn_idleSeconds = max 0 ((now - pg_lastProgressAt p) div 1000), sn_step = pg_step p\<rparr>,
      p\<lparr>pg_progressed := False\<rparr>)"

section \<open>The assessment\<close>

record run_liveness_snapshot =
  ls_status :: run_status
  ls_leaseOwner :: "string option"
  ls_stopRequestedAt :: "int option"
  ls_lastHeartbeatAt :: "int option"
  ls_lastProgressAt :: "int option"
  ls_currentStep :: "run_step_kind option"
  ls_currentStepTool :: "string option"

record run_liveness =
  lv_state :: run_liveness_state
  lv_tool :: "string option"
  lv_heartbeatLagMs :: int
  lv_sinceProgressMs :: int

definition elapsedMs :: "int \<Rightarrow> int \<Rightarrow> int" where
  "elapsedMs from now = max 0 (now - from)"

definition assessRunLiveness ::
  "run_liveness_snapshot \<Rightarrow> int \<Rightarrow> rat \<Rightarrow> run_liveness option" where
  "assessRunLiveness s now threshold =
     (if ls_status s \<noteq> Running \<and> ls_status s \<noteq> Waiting_approval then None
      else case (ls_leaseOwner s, ls_lastHeartbeatAt s, ls_lastProgressAt s) of
        (Some _, Some heartbeat, Some progress) \<Rightarrow>
          (let lag = elapsedMs heartbeat now; since = elapsedMs progress now;
               tool = ls_currentStepTool s in
           if ls_stopRequestedAt s \<noteq> None
           then Some \<lparr>lv_state = Stopping, lv_tool = None, lv_heartbeatLagMs = lag, lv_sinceProgressMs = since\<rparr>
           else if ls_status s = Waiting_approval \<or> ls_currentStep s = Some Waiting
           then Some \<lparr>lv_state = Step Waiting, lv_tool = tool, lv_heartbeatLagMs = lag, lv_sinceProgressMs = since\<rparr>
           else if of_int since > threshold * 1000
           then Some \<lparr>lv_state = Stuck, lv_tool = tool, lv_heartbeatLagMs = lag, lv_sinceProgressMs = since\<rparr>
           else Some \<lparr>lv_state = Step (case ls_currentStep s of None \<Rightarrow> Starting | Some k \<Rightarrow> k),
                      lv_tool = (if ls_currentStep s = Some Working then tool else None),
                      lv_heartbeatLagMs = lag, lv_sinceProgressMs = since\<rparr>)
      | _ \<Rightarrow> None)"

section \<open>Facts\<close>

fun is_terminal_event :: "run_event \<Rightarrow> bool" where
  "is_terminal_event (RunCompleted _ _) = True"
| "is_terminal_event (RunFailed _ _ _) = True"
| "is_terminal_event (RunCancelled _ _) = True"
| "is_terminal_event _ = False"

text \<open>The step names a tool only while that tool is in flight, and \<open>working\<close> always names one.\<close>

definition wf_progress :: "run_progress \<Rightarrow> bool" where
  "wf_progress p =
     (case pg_step p of
        None \<Rightarrow> pg_inFlight p = None
      | Some s \<Rightarrow>
          (case st_tool s of
             None \<Rightarrow> st_kind s \<noteq> Working
           | Some t \<Rightarrow> st_kind s \<in> {Working, Waiting} \<and> map_option snd (pg_inFlight p) = Some t))"

lemmas progress_defs = at_step_def progressed_at_def ended_progress_def resolve_in_flight_def
  in_flight_tool_def

lemma createRunProgress_wf: "wf_progress (createRunProgress now)"
  by (simp add: createRunProgress_def wf_progress_def)

lemma note_event_wf: "wf_progress p \<Longrightarrow> wf_progress (note_event now p e)"
  by (cases e) (auto simp: wf_progress_def progress_defs split: option.splits prod.splits)

lemma note_event_progress:
  "pg_progressed (note_event now p e) \<longleftrightarrow> pg_progressed p \<or> \<not> is_terminal_event e"
  "pg_lastProgressAt (note_event now p e) = (if is_terminal_event e then pg_lastProgressAt p else now)"
  by (cases e; simp add: progress_defs split: option.splits prod.splits)+

definition note_all :: "run_progress \<Rightarrow> (int \<times> run_event) list \<Rightarrow> run_progress" where
  "note_all p es = foldl (\<lambda>p (now, e). note_event now p e) p es"

lemma note_all_Cons [simp]: "note_all p ((now, e) # es) = note_all (note_event now p e) es"
  and note_all_Nil [simp]: "note_all p [] = p"
  by (simp_all add: note_all_def)

lemma note_all_wf: "wf_progress p \<Longrightarrow> wf_progress (note_all p es)"
  by (induction es arbitrary: p) (auto simp: note_event_wf)

lemma note_all_progressed:
  "pg_progressed (note_all p es) \<longleftrightarrow> pg_progressed p \<or> (\<exists>(now, e) \<in> set es. \<not> is_terminal_event e)"
proof (induction es arbitrary: p)
  case (Cons x es)
  obtain now e where x: "x = (now, e)" by (cases x)
  show ?case using Cons.IH [of "note_event now p e"] by (auto simp: x note_event_progress)
qed simp

lemma assess_stuck_iff:
  "(\<exists>l. assessRunLiveness s now th = Some l \<and> lv_state l = Stuck) \<longleftrightarrow>
   ls_status s = Running \<and> ls_leaseOwner s \<noteq> None \<and> ls_lastHeartbeatAt s \<noteq> None \<and>
   ls_stopRequestedAt s = None \<and> ls_currentStep s \<noteq> Some Waiting \<and>
   (\<exists>p. ls_lastProgressAt s = Some p \<and> of_int (elapsedMs p now) > th * 1000)"
  by (auto simp: assessRunLiveness_def Let_def split: option.splits)

lemma elapsedMs_mono: "now \<le> now' \<Longrightarrow> elapsedMs p now \<le> elapsedMs p now'"
  by (simp add: elapsedMs_def)

end
