(* ===== verification/Run_Leases.thy ===== *)
theory Run_Leases
  imports Table Run_Liveness "HOL-Library.Product_Lexorder"
begin

text \<open>
  The durable half of a run's execution: \<open>packages/db/src/run-leases.ts\<close>,
  \<open>packages/db/src/run-liveness.ts\<close> and the stop command of
  \<open>packages/db/src/repositories.ts\<close>. The tables are lists of rows, each function of the source
  is one statement and so one function of the tables; the database's \<open>now()\<close> is an argument.
  Instants are milliseconds, an \<open>integer\<close> fence is a natural number (no execution reaches
  its 32-bit limit), and the columns that no statement here reads or writes are left out,
  \<open>updated_at\<close> with them. The columns the liveness assessment reads are the record
  \<open>run_liveness_snapshot\<close>, which a run row extends.
\<close>

section \<open>Tables\<close>

record run_row = run_liveness_snapshot +
  rw_id :: string
  rw_spaceId :: string
  rw_botId :: string
  rw_threadId :: string
  rw_error :: "string option"
  rw_errorCode :: "string option"
  rw_leaseFence :: nat
  rw_leaseExpiresAt :: "int option"
  rw_stalledAt :: "int option"
  rw_notifiedAt :: "int option"
  rw_checkpoint :: js
  rw_startedAt :: "int option"
  rw_completedAt :: "int option"

datatype attempt_status = A_running | A_completed | A_failed | A_cancelled | A_abandoned

record attempt_row =
  at_runId :: string
  at_fence :: nat
  at_status :: attempt_status
  at_error :: "string option"
  at_finishedAt :: "int option"

datatype effect_status = E_pending | E_running | E_completed | E_failed | E_cancelled

record effect_row =
  ef_spaceId :: string
  ef_runId :: string
  ef_kind :: string
  ef_key :: string
  ef_status :: effect_status
  ef_request :: js
  ef_result :: "js option"

record run_tables =
  runs :: "run_row list"
  attempts :: "attempt_row list"
  effects :: "effect_row list"

definition RUN_HEARTBEAT_INTERVAL_SECONDS :: int where "RUN_HEARTBEAT_INTERVAL_SECONDS = 60"

definition RUN_HEARTBEAT_GRACE_SECONDS :: int where "RUN_HEARTBEAT_GRACE_SECONDS = 60"

definition RUN_LEASE_TTL_SECONDS :: int where
  "RUN_LEASE_TTL_SECONDS = RUN_HEARTBEAT_INTERVAL_SECONDS + RUN_HEARTBEAT_GRACE_SECONDS"

definition RUN_WATCHDOG_BATCH_LIMIT :: nat where "RUN_WATCHDOG_BATCH_LIMIT = 50"

record run_lease =
  lease_owner :: string
  lease_fence :: nat

type_synonym run_progress_stamp = run_progress_snapshot

record fenced_run_patch =
  pt_status :: "run_status option"
  pt_checkpoint :: "js option"
  pt_error :: "string option option"
  pt_errorCode :: "string option option"
  pt_started :: bool
  pt_completed :: bool
  pt_release :: bool
  pt_settleInFlight :: "string option"
  pt_attempt :: "attempt_status option"

record reclaim_options =
  rc_reason :: string
  rc_recordAttempt :: "bool option"

record expired_lease =
  xl_runId :: string
  xl_spaceId :: string
  xl_leaseFence :: nat
  xl_leaseExpiresAt :: int

datatype lease_error = LeaseLostError string | Unique_violation string

datatype acquire_mode = Claim | Reclaim | Adopt

section \<open>Acquiring a lease\<close>

text \<open>The owner's row: a deadline passed, or one not yet reached; a null deadline is neither.\<close>

definition deadline_passed :: "int \<Rightarrow> run_row \<Rightarrow> bool" where
  "deadline_passed now r = (case rw_leaseExpiresAt r of None \<Rightarrow> False | Some t \<Rightarrow> t \<le> now)"

definition deadline_ahead :: "int \<Rightarrow> run_row \<Rightarrow> bool" where
  "deadline_ahead now r = (case rw_leaseExpiresAt r of None \<Rightarrow> False | Some t \<Rightarrow> now < t)"

definition executing :: "run_row \<Rightarrow> bool" where
  "executing r = (ls_status r = Running \<or> ls_status r = Waiting_approval)"

fun availabilityGuard :: "acquire_mode \<Rightarrow> int \<Rightarrow> string option \<Rightarrow> run_row \<Rightarrow> bool" where
  "availabilityGuard Claim now prev r =
     (ls_status r = Queued \<and> ls_leaseOwner r = None \<and> rw_leaseExpiresAt r = None)"
| "availabilityGuard Reclaim now prev r =
     (executing r \<and> ls_leaseOwner r \<noteq> None \<and> deadline_passed now r)"
| "availabilityGuard Adopt now prev r =
     (executing r \<and> prev \<noteq> None \<and> ls_leaseOwner r = prev \<and> deadline_ahead now r)"

definition acquired :: "int \<Rightarrow> string \<Rightarrow> acquire_mode \<Rightarrow> run_row \<Rightarrow> run_row" where
  "acquired now owner mode r =
     r\<lparr>ls_leaseOwner := Some owner, rw_leaseFence := rw_leaseFence r + 1,
       rw_leaseExpiresAt := Some (now + RUN_LEASE_TTL_SECONDS * 1000),
       ls_status := (if mode = Claim then Running else ls_status r),
       rw_startedAt := (if mode = Claim then coalesce (rw_startedAt r) (Some now) else rw_startedAt r),
       ls_lastHeartbeatAt := Some now, ls_lastProgressAt := Some now,
       ls_currentStep := Some Starting, ls_currentStepTool := None, rw_stalledAt := None\<rparr>"

definition new_attempt :: "run_row \<Rightarrow> attempt_row" where
  "new_attempt r = \<lparr>at_runId = rw_id r, at_fence = rw_leaseFence r, at_status = A_running,
                    at_error = None, at_finishedAt = None\<rparr>"

definition open_attempt :: "string \<Rightarrow> nat \<Rightarrow> attempt_row \<Rightarrow> bool" where
  "open_attempt rid fence a = (at_runId a = rid \<and> at_fence a = fence \<and> at_status a = A_running)"

definition close_attempt :: "int \<Rightarrow> attempt_status \<Rightarrow> string option \<Rightarrow> attempt_row \<Rightarrow> attempt_row" where
  "close_attempt now st err a = a\<lparr>at_status := st, at_error := err, at_finishedAt := Some now\<rparr>"

definition effect_in_flight :: "string \<Rightarrow> string \<Rightarrow> effect_row \<Rightarrow> bool" where
  "effect_in_flight spaceId rid e =
     (ef_spaceId e = spaceId \<and> ef_runId e = rid \<and> (ef_status e = E_pending \<or> ef_status e = E_running))"

definition error_result :: "string option \<Rightarrow> js" where
  "error_result reason = JObj [(''error'', case reason of None \<Rightarrow> JNull | Some s \<Rightarrow> JStr s)]"

definition fail_effect :: "string option \<Rightarrow> effect_row \<Rightarrow> effect_row" where
  "fail_effect reason e = e\<lparr>ef_status := E_failed, ef_result := Some (error_result reason)\<rparr>"

definition same_attempt :: "attempt_row \<Rightarrow> attempt_row \<Rightarrow> bool" where
  "same_attempt a b = (at_runId a = at_runId b \<and> at_fence a = at_fence b)"

definition acquireRun ::
  "int \<Rightarrow> run_tables \<Rightarrow> string \<Rightarrow> string \<Rightarrow> nat \<Rightarrow> string \<Rightarrow> acquire_mode \<Rightarrow> reclaim_options option \<Rightarrow>
   string option \<Rightarrow> (lease_error + run_row option) \<times> run_tables" where
  "acquireRun now db spaceId rid expectedFence owner mode options previousOwner =
     (let P = (\<lambda>r. rw_id r = rid \<and> rw_spaceId r = spaceId \<and> rw_leaseFence r = expectedFence \<and>
                   availabilityGuard mode now previousOwner r);
          claimed = returning P (acquired now owner mode) (runs db);
          reason = (if mode = Reclaim then map_option rc_reason options else None);
          recordAttempt = (mode \<noteq> Reclaim \<or> Option.bind options rc_recordAttempt \<noteq> Some False);
          recorded = (if recordAttempt then map new_attempt claimed else [])
      in if list_ex (\<lambda>a. list_ex (same_attempt a) (attempts db)) recorded
         then (Inl (Unique_violation rid), db)
         else
           (Inr (first_row (if recordAttempt
              then filter (\<lambda>r. list_ex (\<lambda>a. at_runId a = rw_id r) recorded) claimed else claimed)),
            db\<lparr>runs := update_where P (acquired now owner mode) (runs db),
               attempts :=
                 (if mode = Reclaim
                  then update_where (\<lambda>a. open_attempt rid expectedFence a \<and> claimed \<noteq> [])
                         (close_attempt now A_abandoned reason) (attempts db)
                  else attempts db) @ recorded,
               effects :=
                 (if mode = Reclaim
                  then update_where (\<lambda>e. effect_in_flight spaceId rid e \<and> claimed \<noteq> [])
                         (fail_effect reason) (effects db)
                  else effects db)\<rparr>))"

definition claimRun ::
  "int \<Rightarrow> run_tables \<Rightarrow> string \<Rightarrow> string \<Rightarrow> nat \<Rightarrow> string \<Rightarrow> (lease_error + run_row option) \<times> run_tables" where
  "claimRun now db spaceId rid expectedFence owner =
     acquireRun now db spaceId rid expectedFence owner Claim None None"

definition reclaimRun ::
  "int \<Rightarrow> run_tables \<Rightarrow> string \<Rightarrow> string \<Rightarrow> nat \<Rightarrow> string \<Rightarrow> reclaim_options \<Rightarrow>
   (lease_error + run_row option) \<times> run_tables" where
  "reclaimRun now db spaceId rid expectedFence owner options =
     acquireRun now db spaceId rid expectedFence owner Reclaim (Some options) None"

definition adoptRun ::
  "int \<Rightarrow> run_tables \<Rightarrow> string \<Rightarrow> string \<Rightarrow> nat \<Rightarrow> string \<Rightarrow> string \<Rightarrow>
   (lease_error + run_row option) \<times> run_tables" where
  "adoptRun now db spaceId rid expectedFence owner previousOwner =
     acquireRun now db spaceId rid expectedFence owner Adopt None (Some previousOwner)"

definition findExpiredLeases :: "int \<Rightarrow> run_tables \<Rightarrow> nat \<Rightarrow> expired_lease list" where
  "findExpiredLeases now db limit =
     map (\<lambda>r. \<lparr>xl_runId = rw_id r, xl_spaceId = rw_spaceId r, xl_leaseFence = rw_leaseFence r,
               xl_leaseExpiresAt = the (rw_leaseExpiresAt r)\<rparr>)
       (take limit (sort_key (\<lambda>r. (the (rw_leaseExpiresAt r), rw_id r))
          (filter (\<lambda>r. executing r \<and> ls_leaseOwner r \<noteq> None \<and> deadline_passed now r) (runs db))))"

section \<open>Writing under a lease\<close>

definition ownedRow :: "run_row list \<Rightarrow> string \<Rightarrow> lease_error + run_row" where
  "ownedRow rows rid = (case rows of [] \<Rightarrow> Inl (LeaseLostError rid) | r # _ \<Rightarrow> Inr r)"

definition holds_lease :: "int \<Rightarrow> string \<Rightarrow> string \<Rightarrow> run_lease \<Rightarrow> run_row \<Rightarrow> bool" where
  "holds_lease now spaceId rid lease r =
     (rw_id r = rid \<and> rw_spaceId r = spaceId \<and> ls_leaseOwner r = Some (lease_owner lease) \<and>
      rw_leaseFence r = lease_fence lease \<and> executing r \<and> deadline_ahead now r)"

definition heartbeat :: "int \<Rightarrow> run_progress_stamp \<Rightarrow> run_row \<Rightarrow> run_row" where
  "heartbeat now p r =
     r\<lparr>rw_leaseExpiresAt := Some (now + RUN_LEASE_TTL_SECONDS * 1000),
       ls_lastHeartbeatAt := Some now,
       ls_lastProgressAt :=
         (if sn_progressed p then Some (now - sn_idleSeconds p * 1000)
          else coalesce (ls_lastProgressAt r) (Some now)),
       rw_stalledAt := (if sn_progressed p then None else rw_stalledAt r),
       ls_currentStep := map_option st_kind (sn_step p),
       ls_currentStepTool := Option.bind (sn_step p) st_tool\<rparr>"

definition heartbeatRun ::
  "int \<Rightarrow> run_tables \<Rightarrow> string \<Rightarrow> string \<Rightarrow> run_lease \<Rightarrow> run_progress_stamp \<Rightarrow>
   (lease_error + run_row) \<times> run_tables" where
  "heartbeatRun now db spaceId rid lease progress =
     (let P = holds_lease now spaceId rid lease in
      (ownedRow (returning P (heartbeat now progress) (runs db)) rid,
       db\<lparr>runs := update_where P (heartbeat now progress) (runs db)\<rparr>))"

fun statusTransitionGuard :: "run_status option \<Rightarrow> run_row \<Rightarrow> bool" where
  "statusTransitionGuard None r = True"
| "statusTransitionGuard (Some Running) r = (ls_status r = Waiting_approval)"
| "statusTransitionGuard (Some Waiting_approval) r = (ls_status r = Running)"
| "statusTransitionGuard (Some Completed) r = (ls_status r = Running)"
| "statusTransitionGuard (Some Failed) r = executing r"
| "statusTransitionGuard (Some Cancelled) r = executing r"
| "statusTransitionGuard (Some Queued) r = False"

definition patched :: "int \<Rightarrow> fenced_run_patch \<Rightarrow> run_row \<Rightarrow> run_row" where
  "patched now p r =
     (let ended = (case pt_status p of None \<Rightarrow> False | Some s \<Rightarrow> isTerminalStatus s) in
      r\<lparr>ls_status := (case pt_status p of None \<Rightarrow> ls_status r | Some s \<Rightarrow> s),
        rw_checkpoint := (case pt_checkpoint p of None \<Rightarrow> rw_checkpoint r | Some c \<Rightarrow> json_of c),
        rw_error := (case pt_error p of None \<Rightarrow> rw_error r | Some e \<Rightarrow> e),
        rw_errorCode := (case pt_errorCode p of None \<Rightarrow> rw_errorCode r | Some e \<Rightarrow> e),
        rw_startedAt := (if pt_started p then coalesce (rw_startedAt r) (Some now) else rw_startedAt r),
        rw_completedAt := (if pt_completed p then Some now else rw_completedAt r),
        ls_leaseOwner := (if pt_release p then None else ls_leaseOwner r),
        rw_leaseExpiresAt := (if pt_release p then None else rw_leaseExpiresAt r),
        ls_currentStep := (if ended then None else ls_currentStep r),
        ls_currentStepTool := (if ended then None else ls_currentStepTool r),
        rw_stalledAt := (if ended then None else rw_stalledAt r)\<rparr>)"

definition updateClaimedRun ::
  "int \<Rightarrow> run_tables \<Rightarrow> string \<Rightarrow> string \<Rightarrow> run_lease \<Rightarrow> fenced_run_patch \<Rightarrow>
   (lease_error + run_row) \<times> run_tables" where
  "updateClaimedRun now db spaceId rid lease patch =
     (let P = (\<lambda>r. holds_lease now spaceId rid lease r \<and> statusTransitionGuard (pt_status patch) r);
          updated = returning P (patched now patch) (runs db)
      in (ownedRow updated rid,
          db\<lparr>runs := update_where P (patched now patch) (runs db),
             attempts :=
               (case pt_attempt patch of
                  None \<Rightarrow> attempts db
                | Some st \<Rightarrow>
                    update_where (\<lambda>a. open_attempt rid (lease_fence lease) a \<and> updated \<noteq> [])
                      (close_attempt now st (Option.bind (pt_error patch) id)) (attempts db)),
             effects :=
               (case pt_settleInFlight patch of
                  None \<Rightarrow> effects db
                | Some reason \<Rightarrow>
                    update_where (\<lambda>e. effect_in_flight spaceId rid e \<and> updated \<noteq> [])
                      (fail_effect (Some reason)) (effects db))\<rparr>))"

definition abandonAttempt ::
  "int \<Rightarrow> run_tables \<Rightarrow> string \<Rightarrow> string \<Rightarrow> nat \<Rightarrow> string \<Rightarrow> bool \<times> run_tables" where
  "abandonAttempt now db spaceId rid fence reason =
     (let P = (\<lambda>a. open_attempt rid fence a \<and>
                   list_ex (\<lambda>r. rw_id r = rid \<and> rw_spaceId r = spaceId) (runs db));
          f = close_attempt now A_abandoned (Some reason)
      in (returning P f (attempts db) \<noteq> [], db\<lparr>attempts := update_where P f (attempts db)\<rparr>))"

section \<open>The stop command, stall episodes and the terminal notification\<close>

definition requestRunStop ::
  "int \<Rightarrow> run_tables \<Rightarrow> string \<Rightarrow> string \<Rightarrow> run_row option \<times> run_tables" where
  "requestRunStop now db spaceId rid =
     (let P = (\<lambda>r. rw_id r = rid \<and> rw_spaceId r = spaceId \<and> ls_status r \<in> set ACTIVE_RUN_STATUSES);
          f = (\<lambda>r. r\<lparr>ls_stopRequestedAt := coalesce (ls_stopRequestedAt r) (Some now)\<rparr>);
          db' = db\<lparr>runs := update_where P f (runs db)\<rparr>
      in case returning P f (runs db) of
           r # _ \<Rightarrow> (Some r, db')
         | [] \<Rightarrow> (find (\<lambda>r. rw_id r = rid \<and> rw_spaceId r = spaceId) (runs db'), db'))"

definition stall_candidate :: "int \<Rightarrow> int \<Rightarrow> run_row \<Rightarrow> bool" where
  "stall_candidate now thresholdSeconds r =
     (ls_status r = Running \<and> ls_leaseOwner r \<noteq> None \<and> deadline_ahead now r \<and>
      ls_stopRequestedAt r = None \<and> rw_stalledAt r = None \<and> ls_currentStep r \<noteq> Some Waiting \<and>
      (case ls_lastProgressAt r of None \<Rightarrow> False | Some t \<Rightarrow> t < now - thresholdSeconds * 1000))"

text \<open>
  The scan asks for no heartbeat, which the assessment of a row does; both sides are compared in
  milliseconds.
\<close>

definition findStalledRuns :: "int \<Rightarrow> run_tables \<Rightarrow> int \<Rightarrow> nat \<Rightarrow> (string \<times> string) list" where
  "findStalledRuns now db thresholdSeconds limit =
     map (\<lambda>r. (rw_id r, rw_spaceId r))
       (take limit (sort_key (\<lambda>r. (the (ls_lastProgressAt r), rw_id r))
          (filter (stall_candidate now thresholdSeconds) (runs db))))"

definition markRunStalled ::
  "int \<Rightarrow> run_tables \<Rightarrow> string \<Rightarrow> string \<Rightarrow> int \<Rightarrow> run_row option \<times> run_tables" where
  "markRunStalled now db spaceId rid thresholdSeconds =
     (let P = (\<lambda>r. rw_id r = rid \<and> rw_spaceId r = spaceId \<and> stall_candidate now thresholdSeconds r);
          f = (\<lambda>r. r\<lparr>rw_stalledAt := Some now\<rparr>)
      in (first_row (returning P f (runs db)), db\<lparr>runs := update_where P f (runs db)\<rparr>))"

definition claimRunNotification ::
  "int \<Rightarrow> run_tables \<Rightarrow> string \<Rightarrow> string \<Rightarrow> bool \<times> run_tables" where
  "claimRunNotification now db spaceId rid =
     (let P = (\<lambda>r. rw_id r = rid \<and> rw_spaceId r = spaceId \<and> rw_notifiedAt r = None \<and>
                   (ls_status r = Completed \<or> ls_status r = Failed));
          f = (\<lambda>r. r\<lparr>rw_notifiedAt := Some now\<rparr>)
      in (returning P f (runs db) \<noteq> [], db\<lparr>runs := update_where P f (runs db)\<rparr>))"

text \<open>
  The row that creating a run inserts (\<open>createOnce\<close> and its siblings in \<open>run-creation.ts\<close>):
  the initial status and the column defaults.
\<close>

definition queued_row :: "string \<Rightarrow> string \<Rightarrow> string \<Rightarrow> string \<Rightarrow> run_row" where
  "queued_row i spaceId botId tid =
     \<lparr>ls_status = INITIAL_RUN_STATUS, ls_leaseOwner = None, ls_stopRequestedAt = None,
      ls_lastHeartbeatAt = None, ls_lastProgressAt = None, ls_currentStep = None, ls_currentStepTool = None,
      rw_id = i, rw_spaceId = spaceId, rw_botId = botId, rw_threadId = tid,
      rw_error = None, rw_errorCode = None, rw_leaseFence = 0, rw_leaseExpiresAt = None,
      rw_stalledAt = None, rw_notifiedAt = None, rw_checkpoint = JObj [], rw_startedAt = None,
      rw_completedAt = None\<rparr>"

end
