(* ===== verification/Tool_Ledger.thy ===== *)
theory Tool_Ledger
  imports Run_Leases
begin

text \<open>
  The ledger of external effects, \<open>packages/db/src/tool-call-ledger.ts\<close>: a row is claimed
  before a tool runs and settled after it, so that a retried call replays its outcome.

  Two operations are arguments: \<open>redact\<close> of the logging package, and Postgres' equality of
  \<open>jsonb\<close> values. What a tool returns is a JavaScript value or something \<open>JSON.stringify\<close>
  throws on (a cycle, a bigint).
\<close>

section \<open>Calls\<close>

datatype tool_value = Json js | Unserializable

fun serializeResult :: "tool_value \<Rightarrow> js option" where
  "serializeResult (Json v) = Some (json_of v)"
| "serializeResult Unserializable = None"

record tool_call =
  tc_runId :: string
  tc_callId :: string
  tc_tool :: string
  tc_arguments :: js

datatype tool_call_admission =
    Started
  | Settled_completed "js option"
  | Settled_failed string
  | Call_id_reused
  | In_flight

datatype tool_outcome = Outcome_completed tool_value | Outcome_failed string

datatype ledger_error = NotFoundError string string | Claim_lost

definition argumentsJson :: "(js \<Rightarrow> js) \<Rightarrow> tool_call \<Rightarrow> js" where
  "argumentsJson redact call =
     json_of (redact (if tc_arguments call = JUndefined then JNull else tc_arguments call))"

definition storedError :: "js option \<Rightarrow> string" where
  "storedError result =
     (case result of
        Some (JObj r) \<Rightarrow>
          (case getf r ''error'' of
             JStr s \<Rightarrow> if s \<noteq> [] then s else ''the tool call failed''
           | _ \<Rightarrow> ''the tool call failed'')
      | _ \<Rightarrow> ''the tool call failed'')"

definition unrecordableResultMessage :: string where
  "unrecordableResultMessage = ''the tool result could not be recorded''"

abbreviation effect_id :: "effect_row \<Rightarrow> string \<times> string" where
  "effect_id e \<equiv> (ef_runId e, ef_key e)"

section \<open>Claiming and settling\<close>

definition claim_effect :: "(js \<Rightarrow> js) \<Rightarrow> run_tables \<Rightarrow> string \<Rightarrow> tool_call \<Rightarrow> bool \<times> run_tables" where
  "claim_effect redact db spaceId call =
     (if list_ex (\<lambda>r. rw_id r = tc_runId call \<and> rw_spaceId r = spaceId) (runs db) \<and>
         \<not> list_ex (\<lambda>e. effect_id e = (tc_runId call, tc_callId call)) (effects db)
      then (True, db\<lparr>effects := effects db @
        [\<lparr>ef_spaceId = spaceId, ef_runId = tc_runId call, ef_kind = tc_tool call, ef_key = tc_callId call,
          ef_status = E_running, ef_request = argumentsJson redact call, ef_result = None\<rparr>]\<rparr>)
      else (False, db))"

definition existing_claim ::
  "(js \<Rightarrow> js) \<Rightarrow> (js \<Rightarrow> js \<Rightarrow> bool) \<Rightarrow> run_tables \<Rightarrow> string \<Rightarrow> tool_call \<Rightarrow> ledger_error + tool_call_admission" where
  "existing_claim redact jsonb_eq db spaceId call =
     (case find (\<lambda>e. ef_spaceId e = spaceId \<and> ef_runId e = tc_runId call \<and> ef_key e = tc_callId call)
        (effects db) of
        None \<Rightarrow> Inl (NotFoundError ''run'' (tc_runId call))
      | Some e \<Rightarrow>
          if ef_kind e \<noteq> tc_tool call \<or> \<not> jsonb_eq (ef_request e) (argumentsJson redact call)
          then Inr Call_id_reused
          else Inr (case ef_status e of
              E_completed \<Rightarrow> Settled_completed (ef_result e)
            | E_failed \<Rightarrow> Settled_failed (storedError (ef_result e))
            | _ \<Rightarrow> In_flight))"

definition ledger_begin ::
  "(js \<Rightarrow> js) \<Rightarrow> (js \<Rightarrow> js \<Rightarrow> bool) \<Rightarrow> run_tables \<Rightarrow> string \<Rightarrow> tool_call \<Rightarrow>
   (ledger_error + tool_call_admission) \<times> run_tables" where
  "ledger_begin redact jsonb_eq db spaceId call =
     (let (inserted, db') = claim_effect redact db spaceId call in
      if inserted then (Inr Started, db') else (existing_claim redact jsonb_eq db' spaceId call, db'))"

definition claimed_by :: "string \<Rightarrow> tool_call \<Rightarrow> effect_row \<Rightarrow> bool" where
  "claimed_by spaceId call e =
     (ef_spaceId e = spaceId \<and> ef_runId e = tc_runId call \<and> ef_key e = tc_callId call \<and>
      ef_status e = E_running)"

definition settled :: "effect_row list \<Rightarrow> ledger_error + unit" where
  "settled rows = (if rows = [] then Inl Claim_lost else Inr ())"

definition failClaim ::
  "run_tables \<Rightarrow> string \<Rightarrow> tool_call \<Rightarrow> string \<Rightarrow> (ledger_error + tool_outcome) \<times> run_tables" where
  "failClaim db spaceId call err =
     (let P = claimed_by spaceId call; f = fail_effect (Some err) in
      (bindE (settled (returning P f (effects db))) (\<lambda>_. Inr (Outcome_failed err)),
       db\<lparr>effects := update_where P f (effects db)\<rparr>))"

definition complete_effect :: "js \<Rightarrow> effect_row \<Rightarrow> effect_row" where
  "complete_effect json e = e\<lparr>ef_status := E_completed, ef_result := Some json\<rparr>"

definition ledger_complete ::
  "run_tables \<Rightarrow> string \<Rightarrow> tool_call \<Rightarrow> tool_value \<Rightarrow> (ledger_error + tool_outcome) \<times> run_tables" where
  "ledger_complete db spaceId call value =
     (case serializeResult value of
        None \<Rightarrow> failClaim db spaceId call unrecordableResultMessage
      | Some json \<Rightarrow>
          (let P = claimed_by spaceId call; f = complete_effect json in
           (bindE (settled (returning P f (effects db))) (\<lambda>_. Inr (Outcome_completed value)),
            db\<lparr>effects := update_where P f (effects db)\<rparr>)))"

definition ledger_fail ::
  "run_tables \<Rightarrow> string \<Rightarrow> tool_call \<Rightarrow> string \<Rightarrow> (ledger_error + tool_outcome) \<times> run_tables" where
  "ledger_fail db spaceId call err = failClaim db spaceId call err"

definition tool_result_read ::
  "run_tables \<Rightarrow> string \<Rightarrow> string \<Rightarrow> string \<Rightarrow> string \<Rightarrow> ledger_error + string \<times> js option" where
  "tool_result_read db spaceId tid rid callId =
     (case find (\<lambda>e. ef_spaceId e = spaceId \<and> ef_runId e = rid \<and> ef_key e = callId \<and>
         ef_status e = E_completed \<and>
         list_ex (\<lambda>r. rw_id r = rid \<and> rw_spaceId r = spaceId \<and> rw_threadId r = tid) (runs db)) (effects db) of
        None \<Rightarrow> Inl (NotFoundError ''tool result'' callId)
      | Some e \<Rightarrow> Inr (ef_kind e, ef_result e))"

end
