(* ===== verification/Run_Database.thy ===== *)
theory Run_Database
  imports Tool_Ledger
begin

text \<open>
  Concurrent executions over the run tables: workers, watchdogs, operators and the tool ledger
  interleave statement by statement, each with its own arguments and clock. The invariant of
  the tables, how a run row and an effect row may evolve, and what a statement leaves alone.
\<close>

section \<open>Executions\<close>

inductive run_db_step :: "run_tables \<Rightarrow> run_tables \<Rightarrow> bool" where
  create: "i \<notin> rw_id ` set (runs db) \<Longrightarrow>
    run_db_step db (db\<lparr>runs := runs db @ [queued_row i spaceId botId tid]\<rparr>)"
| acquire: "run_db_step db (snd (acquireRun now db spaceId rid fence owner mode options prev))"
| beat: "run_db_step db (snd (heartbeatRun now db spaceId rid lease stamp))"
| patch_run: "run_db_step db (snd (updateClaimedRun now db spaceId rid lease patch))"
| abandon: "run_db_step db (snd (abandonAttempt now db spaceId rid fence reason))"
| stop: "run_db_step db (snd (requestRunStop now db spaceId rid))"
| stall: "run_db_step db (snd (markRunStalled now db spaceId rid threshold))"
| notify: "run_db_step db (snd (claimRunNotification now db spaceId rid))"
| claim_call: "run_db_step db (snd (claim_effect redact db spaceId call))"
| complete_call: "run_db_step db (snd (ledger_complete db spaceId call v))"
| fail_call: "run_db_step db (snd (ledger_fail db spaceId call err))"

definition find_run :: "run_tables \<Rightarrow> string \<Rightarrow> run_row option" where
  "find_run db i = find (\<lambda>r. rw_id r = i) (runs db)"

definition find_effect :: "run_tables \<Rightarrow> string \<Rightarrow> string \<Rightarrow> effect_row option" where
  "find_effect db i k = find (\<lambda>e. effect_id e = (i, k)) (effects db)"

section \<open>The rows keep their keys\<close>

interpretation acq: keyed_update rw_id "acquired now owner mode" for now owner mode
  by unfold_locales (simp add: acquired_def)

interpretation hb: keyed_update rw_id "heartbeat now p" for now p
  by unfold_locales (simp add: heartbeat_def)

interpretation pat: keyed_update rw_id "patched now p" for now p
  by unfold_locales (simp add: patched_def Let_def)

interpretation stp: keyed_update rw_id "\<lambda>r. r\<lparr>ls_stopRequestedAt := coalesce (ls_stopRequestedAt r) (Some now)\<rparr>" for now
  by unfold_locales simp

interpretation stl: keyed_update rw_id "\<lambda>r. r\<lparr>rw_stalledAt := Some now\<rparr>" for now
  by unfold_locales simp

interpretation ntf: keyed_update rw_id "\<lambda>r. r\<lparr>rw_notifiedAt := Some now\<rparr>" for now
  by unfold_locales simp

interpretation cls: keyed_update "\<lambda>a. (at_runId a, at_fence a)" "close_attempt now st err" for now st err
  by unfold_locales (simp add: close_attempt_def)

interpretation fle: keyed_update effect_id "fail_effect reason" for reason
  by unfold_locales (simp add: fail_effect_def)

interpretation cpe: keyed_update effect_id "complete_effect json" for json
  by unfold_locales (simp add: complete_effect_def)

section \<open>How a run row evolves\<close>

text \<open>
  One statement moves a run along the status graph of the core package, never lowers its
  fence, never hands a fence to another owner, and never takes back a stop request, a start
  or a claimed notification; a run that has ended keeps its fence, outcome and error.
\<close>

definition row_evolves :: "run_row \<Rightarrow> run_row \<Rightarrow> bool" where
  "row_evolves r r' =
     (rw_id r' = rw_id r \<and> rw_spaceId r' = rw_spaceId r \<and>
      canTransition\<^sup>*\<^sup>* (ls_status r) (ls_status r') \<and>
      rw_leaseFence r \<le> rw_leaseFence r' \<and>
      (rw_leaseFence r' = rw_leaseFence r \<longrightarrow> ls_leaseOwner r' \<in> {ls_leaseOwner r, None}) \<and>
      (ls_stopRequestedAt r \<noteq> None \<longrightarrow> ls_stopRequestedAt r' = ls_stopRequestedAt r) \<and>
      (rw_startedAt r \<noteq> None \<longrightarrow> rw_startedAt r' = rw_startedAt r) \<and>
      (rw_notifiedAt r \<noteq> None \<longrightarrow> rw_notifiedAt r' = rw_notifiedAt r) \<and>
      (isTerminalStatus (ls_status r) \<longrightarrow>
         ls_status r' = ls_status r \<and> rw_leaseFence r' = rw_leaseFence r \<and> rw_error r' = rw_error r \<and>
         rw_errorCode r' = rw_errorCode r \<and> rw_checkpoint r' = rw_checkpoint r))"

lemma row_evolves_refl: "row_evolves r r"
  by (simp add: row_evolves_def)

lemma row_evolves_trans:
  assumes "row_evolves a b" and "row_evolves b c"
  shows "row_evolves a c"
proof -
  note ab = assms(1) [unfolded row_evolves_def] and bc = assms(2) [unfolded row_evolves_def]
  have "canTransition\<^sup>*\<^sup>* (ls_status a) (ls_status c)"
    by (rule rtranclp_trans [of _ _ "ls_status b"]) (use ab bc in blast)+
  moreover have "rw_leaseFence a \<le> rw_leaseFence c" using ab bc by linarith
  moreover have "ls_leaseOwner c \<in> {ls_leaseOwner a, None}" if "rw_leaseFence c = rw_leaseFence a"
  proof -
    have "rw_leaseFence b = rw_leaseFence a" "rw_leaseFence c = rw_leaseFence b"
      using that ab bc by linarith+
    then have "ls_leaseOwner b \<in> {ls_leaseOwner a, None}" "ls_leaseOwner c \<in> {ls_leaseOwner b, None}"
      using ab bc by blast+
    then show ?thesis by auto
  qed
  moreover have "ls_stopRequestedAt a \<noteq> None \<longrightarrow> ls_stopRequestedAt c = ls_stopRequestedAt a"
    "rw_startedAt a \<noteq> None \<longrightarrow> rw_startedAt c = rw_startedAt a"
    "rw_notifiedAt a \<noteq> None \<longrightarrow> rw_notifiedAt c = rw_notifiedAt a"
    using ab bc by metis+
  ultimately show ?thesis unfolding row_evolves_def using ab bc by metis
qed

lemma executing_not_terminal: "executing r \<Longrightarrow> \<not> isTerminalStatus (ls_status r)"
  by (auto simp: executing_def isTerminalStatus_def)

lemma acquired_evolves:
  assumes "availabilityGuard mode now prev r"
  shows "row_evolves r (acquired t owner mode r)"
proof -
  have s: "\<not> isTerminalStatus (ls_status r)"
    using assms executing_not_terminal [of r] by (cases mode) (auto simp: isTerminalStatus_def)
  have "canTransition\<^sup>*\<^sup>* (ls_status r) (if mode = Claim then Running else ls_status r)"
    using assms by (cases mode) (auto simp: canTransition_def)
  with s show ?thesis by (auto simp: row_evolves_def acquired_def)
qed

lemma heartbeat_evolves: "executing r \<Longrightarrow> row_evolves r (heartbeat now p r)"
  by (simp add: row_evolves_def heartbeat_def executing_not_terminal)

lemma guard_transition: "executing r \<Longrightarrow> statusTransitionGuard (Some s) r \<Longrightarrow> canTransition (ls_status r) s"
  by (cases s) (auto simp: canTransition_def executing_def)

lemma patched_evolves:
  assumes "executing r" and "statusTransitionGuard (pt_status p) r"
  shows "row_evolves r (patched now p r)"
proof -
  have "canTransition\<^sup>*\<^sup>* (ls_status r) (case pt_status p of None \<Rightarrow> ls_status r | Some s \<Rightarrow> s)"
    using guard_transition [OF assms(1)] assms(2) by (cases "pt_status p") auto
  with executing_not_terminal [OF assms(1)] show ?thesis
    by (auto simp: row_evolves_def patched_def Let_def)
qed

section \<open>What a statement does to the rows\<close>

lemma update_evolves:
  assumes "keyed_update rw_id f" and "\<And>r. P r \<Longrightarrow> row_evolves r (f r)" and "find_run db i = Some r"
    and "runs db' = update_where P f (runs db)"
  shows "\<exists>r'. find_run db' i = Some r' \<and> row_evolves r r'"
  using keyed_update.find_update [OF assms(1), of i P "runs db"] assms(2-4) row_evolves_refl
  by (auto simp: find_run_def)

lemma same_runs_evolves: "find_run db i = Some r \<Longrightarrow> runs db' = runs db \<Longrightarrow> \<exists>r'. find_run db' i = Some r' \<and> row_evolves r r'"
  by (simp add: find_run_def row_evolves_refl)

lemma acquire_runs:
  obtains P where "runs (snd (acquireRun now db s rid fe owner mode opt prev)) =
      update_where P (acquired now owner mode) (runs db)"
    and "\<And>r. P r \<Longrightarrow> availabilityGuard mode now prev r"
proof (cases "\<exists>x. fst (acquireRun now db s rid fe owner mode opt prev) = Inl x")
  case True
  then have "runs (snd (acquireRun now db s rid fe owner mode opt prev)) =
      update_where (\<lambda>r. False) (acquired now owner mode) (runs db)"
    by (auto simp: acquireRun_def Let_def)
  then show ?thesis using that by blast
next
  case False
  then have "runs (snd (acquireRun now db s rid fe owner mode opt prev)) =
      update_where (\<lambda>r. rw_id r = rid \<and> rw_spaceId r = s \<and> rw_leaseFence r = fe \<and>
        availabilityGuard mode now prev r) (acquired now owner mode) (runs db)"
    by (auto simp: acquireRun_def Let_def split: if_splits)
  then show ?thesis using that by blast
qed

lemma stop_runs:
  "snd (requestRunStop now db s rid) = db\<lparr>runs := update_where
     (\<lambda>r. rw_id r = rid \<and> rw_spaceId r = s \<and> ls_status r \<in> set ACTIVE_RUN_STATUSES)
     (\<lambda>r. r\<lparr>ls_stopRequestedAt := coalesce (ls_stopRequestedAt r) (Some now)\<rparr>) (runs db)\<rparr>"
  by (simp add: requestRunStop_def Let_def split: list.split)

lemma ledger_tables:
  "\<exists>es. snd (claim_effect redact db s call) = db\<lparr>effects := es\<rparr>"
  "\<exists>es. snd (failClaim db s call err) = db\<lparr>effects := es\<rparr>"
  "\<exists>es. snd (ledger_complete db s call v) = db\<lparr>effects := es\<rparr>"
proof -
  show f: "\<exists>es. snd (failClaim db s call err) = db\<lparr>effects := es\<rparr>" for err
    by (auto simp: failClaim_def Let_def)
  show "\<exists>es. snd (ledger_complete db s call v) = db\<lparr>effects := es\<rparr>"
    using f by (cases v) (auto simp: ledger_complete_def Let_def)
  show "\<exists>es. snd (claim_effect redact db s call) = db\<lparr>effects := es\<rparr>"
    by (cases db) (auto simp: claim_effect_def)
qed

lemma step_evolves:
  assumes "run_db_step db db'" and "find_run db i = Some r"
  shows "\<exists>r'. find_run db' i = Some r' \<and> row_evolves r r'"
  using assms(1)
proof cases
  case (create j spaceId botId tid)
  then show ?thesis using assms(2) by (simp add: find_run_def find_append_rows row_evolves_refl)
next
  case (acquire now spaceId rid fence owner mode options prev)
  obtain P where P: "runs db' = update_where P (acquired now owner mode) (runs db)"
    "\<And>r. P r \<Longrightarrow> availabilityGuard mode now prev r"
    using acquire_runs unfolding acquire by blast
  show ?thesis
    by (rule update_evolves [OF acq.keyed_update_axioms _ assms(2) P(1)]) (rule acquired_evolves [OF P(2)])
next
  case (beat now spaceId rid lease stamp)
  then show ?thesis
    by (intro update_evolves [OF hb.keyed_update_axioms _ assms(2)])
      (auto simp: heartbeatRun_def Let_def holds_lease_def intro: heartbeat_evolves)
next
  case (patch_run now spaceId rid lease patch)
  then show ?thesis
    by (intro update_evolves [OF pat.keyed_update_axioms _ assms(2)])
      (auto simp: updateClaimedRun_def Let_def holds_lease_def intro: patched_evolves)
next
  case (stop now spaceId rid)
  then show ?thesis
    by (intro update_evolves [OF stp.keyed_update_axioms _ assms(2)])
      (auto simp: stop_runs row_evolves_def)
next
  case (stall now spaceId rid threshold)
  then show ?thesis
    by (intro update_evolves [OF stl.keyed_update_axioms _ assms(2)])
      (auto simp: markRunStalled_def Let_def row_evolves_def)
next
  case (notify now spaceId rid)
  then show ?thesis
    by (intro update_evolves [OF ntf.keyed_update_axioms _ assms(2)])
      (auto simp: claimRunNotification_def Let_def row_evolves_def)
next
  case (abandon now spaceId rid fence reason)
  then show ?thesis by (intro same_runs_evolves [OF assms(2)]) (simp_all add: abandonAttempt_def Let_def)
next
  case (claim_call redact spaceId call)
  then show ?thesis using ledger_tables(1) [of redact db spaceId call]
    by (intro same_runs_evolves [OF assms(2)]) auto
next
  case (complete_call spaceId call v)
  then show ?thesis using ledger_tables(3) [of db spaceId call v]
    by (intro same_runs_evolves [OF assms(2)]) auto
next
  case (fail_call spaceId call err)
  then show ?thesis using ledger_tables(2) [of db spaceId call err]
    by (intro same_runs_evolves [OF assms(2)]) (auto simp: ledger_fail_def)
qed

lemma steps_evolve:
  assumes "run_db_step\<^sup>*\<^sup>* db db'" and "find_run db i = Some r"
  shows "\<exists>r'. find_run db' i = Some r' \<and> row_evolves r r'"
  using assms(1)
proof induction
  case base
  then show ?case using assms(2) row_evolves_refl by blast
next
  case (step db1 db2)
  then show ?case using step_evolves row_evolves_trans by blast
qed

section \<open>The invariant of the tables\<close>

abbreviation attempt_id :: "attempt_row \<Rightarrow> string \<times> nat" where
  "attempt_id a \<equiv> (at_runId a, at_fence a)"

abbreviation effect_ref :: "effect_row \<Rightarrow> string \<times> string \<times> string" where
  "effect_ref e \<equiv> (ef_runId e, ef_key e, ef_spaceId e)"

definition in_space :: "run_tables \<Rightarrow> string \<Rightarrow> string \<Rightarrow> bool" where
  "in_space db i s = (\<exists>r. find_run db i = Some r \<and> rw_spaceId r = s)"

definition fence_reached :: "run_tables \<Rightarrow> string \<Rightarrow> nat \<Rightarrow> bool" where
  "fence_reached db i n = (\<exists>r. find_run db i = Some r \<and> n \<le> rw_leaseFence r)"

text \<open>
  The unique indexes, and the two references: an attempt was recorded under a fence its run
  has reached, an effect lies in the space of its run.
\<close>

definition wf_run_tables :: "run_tables \<Rightarrow> bool" where
  "wf_run_tables db =
     (distinct (map rw_id (runs db)) \<and> distinct (map attempt_id (attempts db)) \<and>
      distinct (map effect_id (effects db)) \<and>
      (\<forall>a \<in> set (attempts db). fence_reached db (at_runId a) (at_fence a)) \<and>
      (\<forall>e \<in> set (effects db). in_space db (ef_runId e) (ef_spaceId e)))"

lemma step_in_space: "run_db_step db db' \<Longrightarrow> in_space db i s \<Longrightarrow> in_space db' i s"
  using step_evolves by (fastforce simp: in_space_def row_evolves_def)

lemma step_fence_reached: "run_db_step db db' \<Longrightarrow> fence_reached db i n \<Longrightarrow> fence_reached db' i n"
  using step_evolves unfolding fence_reached_def row_evolves_def by (meson order_trans)

lemma in_space_iff:
  assumes "distinct (map rw_id (runs db))"
  shows "list_ex (\<lambda>r. rw_id r = i \<and> rw_spaceId r = s) (runs db) \<longleftrightarrow> in_space db i s"
proof
  assume "list_ex (\<lambda>r. rw_id r = i \<and> rw_spaceId r = s) (runs db)"
  then obtain r where "r \<in> set (runs db)" "rw_id r = i" "rw_spaceId r = s" by (auto simp: list_ex_iff)
  with find_key_distinct [OF assms] show "in_space db i s" by (force simp: in_space_def find_run_def)
next
  assume "in_space db i s"
  then show "list_ex (\<lambda>r. rw_id r = i \<and> rw_spaceId r = s) (runs db)"
    using find_key_Some by (fastforce simp: in_space_def find_run_def list_ex_iff)
qed

lemma wf_next:
  assumes "wf_run_tables db" and "run_db_step db db'" and "distinct (map rw_id (runs db'))"
    and "map attempt_id (attempts db') = map attempt_id (attempts db) @ na"
    and "na = [] \<or> (\<exists>i n. na = [(i, n)] \<and> \<not> fence_reached db i n \<and> fence_reached db' i n)"
    and "map effect_ref (effects db') = map effect_ref (effects db) @ ne"
    and "ne = [] \<or> (\<exists>i k s. ne = [(i, k, s)] \<and> (i, k) \<notin> effect_id ` set (effects db) \<and> in_space db i s)"
  shows "wf_run_tables db'"
proof -
  note wf = assms(1) [unfolded wf_run_tables_def]
  have ids: "map effect_id (effects db') = map effect_id (effects db) @ map (\<lambda>(i, k, s). (i, k)) ne"
    using arg_cong [OF assms(6), of "map (\<lambda>(i, k, s). (i, k))"] by (simp add: comp_def)
  have "distinct (map attempt_id (attempts db'))"
    using wf assms(5) unfolding assms(4) by auto
  moreover have "distinct (map effect_id (effects db'))"
    using wf assms(7) unfolding ids by auto
  moreover have "fence_reached db' (at_runId a) (at_fence a)" if "a \<in> set (attempts db')" for a
  proof -
    have "attempt_id a \<in> set (map attempt_id (attempts db) @ na)"
      using that unfolding assms(4) [symmetric] by force
    then show ?thesis using wf assms(5) step_fence_reached [OF assms(2)] by auto
  qed
  moreover have "in_space db' (ef_runId e) (ef_spaceId e)" if "e \<in> set (effects db')" for e
  proof -
    have "effect_ref e \<in> set (map effect_ref (effects db) @ ne)"
      using that unfolding assms(6) [symmetric] by force
    then show ?thesis using wf assms(7) step_in_space [OF assms(2)] by auto
  qed
  ultimately show ?thesis using assms(3) by (simp add: wf_run_tables_def)
qed

text \<open>On consistent tables, taking a lease is a compare-and-set on one row and never fails.\<close>

definition acquirable :: "run_tables \<Rightarrow> int \<Rightarrow> string \<Rightarrow> string \<Rightarrow> nat \<Rightarrow> acquire_mode \<Rightarrow> string option \<Rightarrow> run_row option" where
  "acquirable db now s rid fe mode prev =
     (case find_run db rid of
        None \<Rightarrow> None
      | Some r \<Rightarrow>
          if rw_spaceId r = s \<and> rw_leaseFence r = fe \<and> availabilityGuard mode now prev r then Some r else None)"

lemma acquirable_returning:
  assumes "distinct (map rw_id (runs db))"
  shows "returning (\<lambda>r. rw_id r = rid \<and> rw_spaceId r = s \<and> rw_leaseFence r = fe \<and>
      availabilityGuard mode now prev r) (acquired now owner mode) (runs db) =
    (case acquirable db now s rid fe mode prev of None \<Rightarrow> [] | Some r \<Rightarrow> [acquired now owner mode r])"
  using acq.returning_unique [OF assms, where k = rid and now = now and owner = owner and mode = mode and
      P = "\<lambda>r. rw_id r = rid \<and> rw_spaceId r = s \<and> rw_leaseFence r = fe \<and> availabilityGuard mode now prev r"]
  by (auto simp: acquirable_def find_run_def dest: find_key_Some split: option.splits)

lemma acquired_id [simp]: "rw_id (acquired now owner mode r) = rw_id r"
  and acquired_fence [simp]: "rw_leaseFence (acquired now owner mode r) = Suc (rw_leaseFence r)"
  by (simp_all add: acquired_def)

lemma new_attempt_id [simp]: "at_runId (new_attempt r) = rw_id r" "at_fence (new_attempt r) = rw_leaseFence r"
  by (simp_all add: new_attempt_def)

lemma acquirable_Some:
  "acquirable db now s rid fe mode prev = Some r \<Longrightarrow> find_run db rid = Some r \<and> rw_id r = rid \<and>
     rw_spaceId r = s \<and> rw_leaseFence r = fe \<and> availabilityGuard mode now prev r"
  by (auto simp: acquirable_def find_run_def dest: find_key_Some split: option.splits if_splits)

lemma no_such_attempt:
  assumes "wf_run_tables db" and "find_run db i = Some r" and "rw_leaseFence r < n"
  shows "\<not> list_ex (\<lambda>b. i = at_runId b \<and> n = at_fence b) (attempts db)"
  using assms by (fastforce simp: wf_run_tables_def list_ex_iff fence_reached_def)

lemma acquire_none:
  assumes "wf_run_tables db" and "acquirable db now s rid fe mode prev = None"
  shows "acquireRun now db s rid fe owner mode opt prev = (Inr None, db)"
proof -
  have d: "distinct (map rw_id (runs db))" using assms(1) by (simp add: wf_run_tables_def)
  note c = acquirable_returning [OF d, of rid s fe mode now prev owner, unfolded assms(2) option.case]
  show ?thesis unfolding acquireRun_def Let_def c using update_where_Nil [OF c] by simp
qed

lemma acquire_some:
  assumes "wf_run_tables db" and "acquirable db now s rid fe mode prev = Some r"
  shows "fst (acquireRun now db s rid fe owner mode opt prev) = Inr (Some (acquired now owner mode r))"
    and "find_run (snd (acquireRun now db s rid fe owner mode opt prev)) rid = Some (acquired now owner mode r)"
    and "map rw_id (runs (snd (acquireRun now db s rid fe owner mode opt prev))) = map rw_id (runs db)"
    and "attempts (snd (acquireRun now db s rid fe owner mode opt prev)) =
      (if mode = Reclaim then update_where (open_attempt rid fe)
         (close_attempt now A_abandoned (map_option rc_reason opt)) (attempts db) else attempts db) @
      (if mode \<noteq> Reclaim \<or> Option.bind opt rc_recordAttempt \<noteq> Some False
       then [new_attempt (acquired now owner mode r)] else [])"
    and "effects (snd (acquireRun now db s rid fe owner mode opt prev)) =
      (if mode = Reclaim then update_where (effect_in_flight s rid)
         (fail_effect (map_option rc_reason opt)) (effects db) else effects db)"
proof -
  have d: "distinct (map rw_id (runs db))" using assms(1) by (simp add: wf_run_tables_def)
  note c = acquirable_returning [OF d, of rid s fe mode now prev owner, unfolded assms(2) option.case]
  note r = acquirable_Some [OF assms(2)]
  have n: "\<not> list_ex (same_attempt (new_attempt (acquired now owner mode r))) (attempts db)"
    using no_such_attempt [OF assms(1), of rid r "Suc (rw_leaseFence r)"] r by (simp add: list_ex_iff same_attempt_def)
  note u = acquireRun_def [of now db s rid fe owner mode opt prev, unfolded Let_def c]
  show "fst (acquireRun now db s rid fe owner mode opt prev) = Inr (Some (acquired now owner mode r))"
    "attempts (snd (acquireRun now db s rid fe owner mode opt prev)) =
      (if mode = Reclaim then update_where (open_attempt rid fe)
         (close_attempt now A_abandoned (map_option rc_reason opt)) (attempts db) else attempts db) @
      (if mode \<noteq> Reclaim \<or> Option.bind opt rc_recordAttempt \<noteq> Some False
       then [new_attempt (acquired now owner mode r)] else [])"
    "effects (snd (acquireRun now db s rid fe owner mode opt prev)) =
      (if mode = Reclaim then update_where (effect_in_flight s rid)
         (fail_effect (map_option rc_reason opt)) (effects db) else effects db)"
    unfolding u using n by simp_all
  have ru: "runs (snd (acquireRun now db s rid fe owner mode opt prev)) =
      update_where (\<lambda>r. rw_id r = rid \<and> rw_spaceId r = s \<and> rw_leaseFence r = fe \<and>
        availabilityGuard mode now prev r) (acquired now owner mode) (runs db)"
    unfolding u using n by simp
  show "find_run (snd (acquireRun now db s rid fe owner mode opt prev)) rid = Some (acquired now owner mode r)"
    unfolding find_run_def ru using r by (simp add: acq.find_update find_run_def)
  show "map rw_id (runs (snd (acquireRun now db s rid fe owner mode opt prev))) = map rw_id (runs db)"
    unfolding ru by simp
qed

interpretation flr: keyed_update effect_ref "fail_effect reason" for reason
  by unfold_locales (simp add: fail_effect_def)

interpretation cpr: keyed_update effect_ref "complete_effect json" for json
  by unfold_locales (simp add: complete_effect_def)

text \<open>A statement that adds no attempt and no effect keeps the invariant if it keeps the keys.\<close>

lemma wf_next_same:
  assumes "wf_run_tables db" and "run_db_step db db'" and "map rw_id (runs db') = map rw_id (runs db)"
    and "map attempt_id (attempts db') = map attempt_id (attempts db)"
    and "map effect_ref (effects db') = map effect_ref (effects db)"
  shows "wf_run_tables db'"
  using wf_next [OF assms(1,2), of "[]" "[]"] assms(1,3-5) by (simp add: wf_run_tables_def)

lemma acquire_wf:
  assumes "wf_run_tables db" and "db' = snd (acquireRun now db s rid fe owner mode opt prev)"
  shows "wf_run_tables db'"
proof (cases "acquirable db now s rid fe mode prev")
  case None
  then show ?thesis using assms by (simp add: acquire_none)
next
  case (Some r)
  note a = acquire_some [OF assms(1) Some, of owner opt] and r = acquirable_Some [OF Some]
  have st: "run_db_step db db'" unfolding assms(2) by (rule run_db_step.acquire)
  let ?na = "if mode \<noteq> Reclaim \<or> Option.bind opt rc_recordAttempt \<noteq> Some False
      then [(rid, Suc (rw_leaseFence r))] else []"
  show ?thesis
  proof (rule wf_next [OF assms(1) st])
    show "distinct (map rw_id (runs db'))" using assms a(3) by (simp add: wf_run_tables_def)
    show "map attempt_id (attempts db') = map attempt_id (attempts db) @ ?na"
      unfolding assms(2) a(4) using r by simp
    show "?na = [] \<or> (\<exists>i n. ?na = [(i, n)] \<and> \<not> fence_reached db i n \<and> fence_reached db' i n)"
      using a(2) r unfolding assms(2) by (auto simp: fence_reached_def)
    show "map effect_ref (effects db') = map effect_ref (effects db) @ []"
      unfolding assms(2) a(5) by simp
  qed simp
qed

lemma ledger_runs [simp]:
  "runs (snd (claim_effect redact db s call)) = runs db" "attempts (snd (claim_effect redact db s call)) = attempts db"
  "runs (snd (failClaim db s call err)) = runs db" "attempts (snd (failClaim db s call err)) = attempts db"
  "runs (snd (ledger_complete db s call v)) = runs db" "attempts (snd (ledger_complete db s call v)) = attempts db"
  using ledger_tables(1) [of redact db s call] ledger_tables(2) [of db s call err]
    ledger_tables(3) [of db s call v] by auto

lemma claim_effect_wf:
  assumes "wf_run_tables db" and "db' = snd (claim_effect redact db s call)"
  shows "wf_run_tables db'"
proof (cases "fst (claim_effect redact db s call)")
  case True
  have d: "distinct (map rw_id (runs db))" using assms(1) by (simp add: wf_run_tables_def)
  have c: "in_space db (tc_runId call) s" "(tc_runId call, tc_callId call) \<notin> effect_id ` set (effects db)"
    using True in_space_iff [OF d, of "tc_runId call" s]
    by (auto simp: claim_effect_def list_ex_iff split: if_splits)
  have st: "run_db_step db db'" unfolding assms(2) by (rule run_db_step.claim_call)
  show ?thesis
  proof (rule wf_next [OF assms(1) st])
    show "map effect_ref (effects db') = map effect_ref (effects db) @ [(tc_runId call, tc_callId call, s)]"
      using True by (auto simp: assms(2) claim_effect_def split: if_splits)
  qed (use c d assms(2) in auto)
next
  case False
  then show ?thesis using assms by (auto simp: claim_effect_def split: if_splits)
qed

lemma failClaim_refs:
  "map effect_ref (effects (snd (failClaim db s call err))) = map effect_ref (effects db)"
  by (simp add: failClaim_def Let_def)

lemma ledger_complete_refs:
  "map effect_ref (effects (snd (ledger_complete db s call v))) = map effect_ref (effects db)"
  by (simp add: ledger_complete_def Let_def failClaim_refs split: option.split)

lemma step_wf:
  assumes "run_db_step db db'" and "wf_run_tables db"
  shows "wf_run_tables db'"
  using assms(1)
proof cases
  case (create i s b t)
  then have st: "run_db_step db db'" using run_db_step.create by simp
  show ?thesis using wf_next [OF assms(2) st, of "[]" "[]"] assms(2) create
    by (simp add: wf_run_tables_def queued_row_def)
next
  case (acquire now s rid fe owner mode opt prev)
  then show ?thesis by (rule acquire_wf [OF assms(2)])
next
  case (claim_call redact s call)
  then show ?thesis by (rule claim_effect_wf [OF assms(2)])
next
  case (beat now s rid lease stamp)
  show ?thesis by (rule wf_next_same [OF assms(2,1)]) (simp_all add: beat heartbeatRun_def Let_def)
next
  case (patch_run now s rid lease patch)
  show ?thesis
    by (rule wf_next_same [OF assms(2,1)]) (simp_all add: patch_run updateClaimedRun_def Let_def split: option.split)
next
  case (abandon now s rid fence reason)
  show ?thesis by (rule wf_next_same [OF assms(2,1)]) (simp_all add: abandon abandonAttempt_def Let_def)
next
  case (stop now s rid)
  show ?thesis by (rule wf_next_same [OF assms(2,1)]) (simp_all add: stop stop_runs)
next
  case (stall now s rid threshold)
  show ?thesis by (rule wf_next_same [OF assms(2,1)]) (simp_all add: stall markRunStalled_def Let_def)
next
  case (notify now s rid)
  show ?thesis by (rule wf_next_same [OF assms(2,1)]) (simp_all add: notify claimRunNotification_def Let_def)
next
  case (complete_call s call v)
  show ?thesis by (rule wf_next_same [OF assms(2,1)]) (simp_all add: complete_call ledger_complete_refs)
next
  case (fail_call s call err)
  show ?thesis by (rule wf_next_same [OF assms(2,1)]) (simp_all add: fail_call ledger_fail_def failClaim_refs)
qed

lemma steps_wf: "run_db_step\<^sup>*\<^sup>* db db' \<Longrightarrow> wf_run_tables db \<Longrightarrow> wf_run_tables db'"
  by (induction rule: rtranclp_induct) (auto intro: step_wf)

section \<open>How an effect evolves\<close>

definition is_settled :: "effect_row \<Rightarrow> bool" where
  "is_settled e = (ef_status e \<noteq> E_pending \<and> ef_status e \<noteq> E_running)"

definition effect_evolves :: "effect_row \<Rightarrow> effect_row \<Rightarrow> bool" where
  "effect_evolves e e' =
     (effect_ref e' = effect_ref e \<and> ef_kind e' = ef_kind e \<and> ef_request e' = ef_request e \<and>
      ef_status e' \<in> {ef_status e, E_completed, E_failed} \<and> (is_settled e \<longrightarrow> e' = e))"

lemma effect_evolves_refl: "effect_evolves e e"
  by (simp add: effect_evolves_def)

lemma effect_evolves_trans: "effect_evolves a b \<Longrightarrow> effect_evolves b c \<Longrightarrow> effect_evolves a c"
  unfolding effect_evolves_def by auto

lemma fail_evolves: "\<not> is_settled e \<Longrightarrow> effect_evolves e (fail_effect reason e)"
  and complete_evolves: "\<not> is_settled e \<Longrightarrow> effect_evolves e (complete_effect json e)"
  by (simp_all add: effect_evolves_def fail_effect_def complete_effect_def)

lemma effects_update:
  assumes "keyed_update effect_id f" and "\<And>e. P e \<Longrightarrow> effect_evolves e (f e)" and "find_effect db i k = Some e"
    and "effects db' = update_where P f (effects db)"
  shows "\<exists>e'. find_effect db' i k = Some e' \<and> effect_evolves e e'"
  using keyed_update.find_update [OF assms(1), of "(i, k)" P "effects db"] assms(2-4) effect_evolves_refl
  by (auto simp: find_effect_def)

lemma effects_same:
  "find_effect db i k = Some e \<Longrightarrow> effects db' = effects db \<Longrightarrow> \<exists>e'. find_effect db' i k = Some e' \<and> effect_evolves e e'"
  by (simp add: find_effect_def effect_evolves_refl)

lemma in_flight_open: "effect_in_flight s i e \<Longrightarrow> \<not> is_settled e" and claimed_open: "claimed_by s call e \<Longrightarrow> \<not> is_settled e"
  by (auto simp: effect_in_flight_def claimed_by_def is_settled_def)

lemma failClaim_evolves:
  "find_effect db i k = Some e \<Longrightarrow> \<exists>e'. find_effect (snd (failClaim db s call err)) i k = Some e' \<and> effect_evolves e e'"
  by (rule effects_update [OF fle.keyed_update_axioms, where P = "claimed_by s call"])
    (auto simp: failClaim_def Let_def intro: fail_evolves dest: claimed_open)

lemma step_effect:
  assumes "run_db_step db db'" and "find_effect db i k = Some e"
  shows "\<exists>e'. find_effect db' i k = Some e' \<and> effect_evolves e e'"
  using assms(1)
proof cases
  case (acquire now s rid fe owner mode opt prev)
  have "\<exists>P. (\<forall>e. P e \<longrightarrow> effect_in_flight s rid e) \<and> effects db' =
      update_where P (fail_effect (if mode = Reclaim then map_option rc_reason opt else None)) (effects db)"
  proof -
    let ?c = "returning (\<lambda>r. rw_id r = rid \<and> rw_spaceId r = s \<and> rw_leaseFence r = fe \<and>
        availabilityGuard mode now prev r) (acquired now owner mode) (runs db)"
    have "effects db' = effects db \<or> effects db' =
        update_where (\<lambda>e. effect_in_flight s rid e \<and> ?c \<noteq> [])
          (fail_effect (if mode = Reclaim then map_option rc_reason opt else None)) (effects db)"
      unfolding acquire acquireRun_def Let_def by auto
    then show ?thesis
      by (elim disjE; intro exI [of _ "\<lambda>e. False"] exI [of _ "\<lambda>e. effect_in_flight s rid e \<and> ?c \<noteq> []"]) auto
  qed
  then obtain P where P: "\<And>e. P e \<Longrightarrow> effect_in_flight s rid e" "effects db' =
      update_where P (fail_effect (if mode = Reclaim then map_option rc_reason opt else None)) (effects db)"
    by blast
  show ?thesis
    by (rule effects_update [OF fle.keyed_update_axioms _ assms(2) P(2)]) (blast intro: fail_evolves dest: P(1) in_flight_open)
next
  case (patch_run now s rid lease patch)
  show ?thesis
  proof (cases "pt_settleInFlight patch")
    case None
    then show ?thesis
      by (intro effects_same [OF assms(2)]) (simp add: patch_run updateClaimedRun_def Let_def)
  next
    case (Some reason)
    let ?u = "returning (\<lambda>r. holds_lease now s rid lease r \<and> statusTransitionGuard (pt_status patch) r)
        (patched now patch) (runs db)"
    show ?thesis
      by (rule effects_update [OF fle.keyed_update_axioms [of "Some reason"] _ assms(2),
            where P = "\<lambda>e. effect_in_flight s rid e \<and> ?u \<noteq> []"])
        (auto simp: Some patch_run updateClaimedRun_def Let_def intro: fail_evolves dest: in_flight_open)
  qed
next
  case (claim_call redact s call)
  then show ?thesis using assms(2)
    by (auto simp: claim_effect_def find_effect_def find_append_rows effect_evolves_refl)
next
  case (complete_call s call v)
  show ?thesis
  proof (cases "serializeResult v")
    case None
    then show ?thesis using failClaim_evolves [OF assms(2)] by (simp add: complete_call ledger_complete_def)
  next
    case (Some json)
    show ?thesis
      by (rule effects_update [OF cpe.keyed_update_axioms [of json] _ assms(2), where P = "claimed_by s call"])
        (auto simp: Some complete_call ledger_complete_def Let_def intro: complete_evolves dest: claimed_open)
  qed
next
  case (fail_call s call err)
  then show ?thesis using failClaim_evolves [OF assms(2)] by (simp add: ledger_fail_def)
qed (rule effects_same [OF assms(2)],
  simp add: heartbeatRun_def abandonAttempt_def stop_runs markRunStalled_def claimRunNotification_def Let_def)+

lemma steps_effect:
  assumes "run_db_step\<^sup>*\<^sup>* db db'" and "find_effect db i k = Some e"
  shows "\<exists>e'. find_effect db' i k = Some e' \<and> effect_evolves e e'"
  using assms(1)
proof induction
  case base
  then show ?case using assms(2) effect_evolves_refl by blast
next
  case (step db1 db2)
  then show ?case using step_effect effect_evolves_trans by blast
qed

section \<open>Writes under a lost lease\<close>

lemma lost_heartbeat:
  assumes "\<And>x. x \<in> set (runs db) \<Longrightarrow> \<not> holds_lease now s i l x"
  shows "heartbeatRun now db s i l stamp = (Inl (LeaseLostError i), db)"
proof -
  have "returning (holds_lease now s i l) (heartbeat now stamp) (runs db) = []"
    using assms by (simp add: returning_Nil)
  with update_where_Nil [OF this] show ?thesis by (simp add: heartbeatRun_def ownedRow_def)
qed

lemma lost_write:
  assumes "\<And>x. x \<in> set (runs db) \<Longrightarrow> \<not> holds_lease now s i l x"
  shows "updateClaimedRun now db s i l patch = (Inl (LeaseLostError i), db)"
proof -
  have "returning (\<lambda>r. holds_lease now s i l r \<and> statusTransitionGuard (pt_status patch) r)
      (patched now patch) (runs db) = []"
    using assms by (simp add: returning_Nil)
  with update_where_Nil [OF this] show ?thesis
    by (simp add: updateClaimedRun_def ownedRow_def split: option.split)
qed

lemma stale_lease:
  assumes "run_db_step\<^sup>*\<^sup>* db db'" and "wf_run_tables db" and "find_run db i = Some r"
    and "lease_fence l < rw_leaseFence r \<or>
      lease_fence l = rw_leaseFence r \<and> ls_leaseOwner r \<noteq> Some (lease_owner l)"
    and "x \<in> set (runs db')"
  shows "\<not> holds_lease now s i l x"
proof
  assume h: "holds_lease now s i l x"
  obtain r' where r': "find_run db' i = Some r'" "row_evolves r r'"
    using steps_evolve [OF assms(1,3)] by blast
  have "distinct (map rw_id (runs db'))" using steps_wf [OF assms(1,2)] by (simp add: wf_run_tables_def)
  from find_key_distinct [OF this assms(5)] h r'(1) have "x = r'"
    by (simp add: holds_lease_def find_run_def)
  with h r'(2) assms(4) show False by (auto simp: holds_lease_def row_evolves_def)
qed

section \<open>Claims in the ledger\<close>

definition admitted :: "effect_row \<Rightarrow> tool_call_admission" where
  "admitted e =
     (case ef_status e of
        E_completed \<Rightarrow> Settled_completed (ef_result e)
      | E_failed \<Rightarrow> Settled_failed (storedError (ef_result e))
      | _ \<Rightarrow> In_flight)"

text \<open>The effect row of a call, claimed for that call and no other.\<close>

definition claim_of :: "(js \<Rightarrow> js) \<Rightarrow> string \<Rightarrow> tool_call \<Rightarrow> effect_row \<Rightarrow> bool" where
  "claim_of redact s call e =
     (ef_spaceId e = s \<and> ef_kind e = tc_tool call \<and> ef_request e = argumentsJson redact call \<and>
      ef_status e \<in> {E_running, E_completed, E_failed})"

lemma claim_of_evolves: "claim_of redact s call e \<Longrightarrow> effect_evolves e e' \<Longrightarrow> claim_of redact s call e'"
  by (auto simp: claim_of_def effect_evolves_def)

lemma find_effect_key: "find_effect db i k = Some e \<Longrightarrow> ef_runId e = i \<and> ef_key e = k"
  using find_key_Some [of effect_id "(i, k)" "effects db" e] by (simp add: find_effect_def)

lemma claim_effect_started:
  assumes "fst (claim_effect redact db s call)"
  shows "\<exists>e. find_effect (snd (claim_effect redact db s call)) (tc_runId call) (tc_callId call) = Some e \<and>
    claim_of redact s call e \<and> ef_status e = E_running"
proof -
  have "find_effect db (tc_runId call) (tc_callId call) = None"
    using assms by (auto simp: claim_effect_def find_effect_def find_None_iff list_ex_iff split: if_splits)
  then show ?thesis using assms
    by (auto simp: claim_effect_def find_effect_def find_append_rows claim_of_def split: if_splits)
qed

lemma claim_effect_taken:
  assumes "find_effect db (tc_runId call) (tc_callId call) = Some e"
  shows "claim_effect redact db s call = (False, db)"
proof -
  have "e \<in> set (effects db)" "effect_id e = (tc_runId call, tc_callId call)"
    using find_key_Some [of effect_id "(tc_runId call, tc_callId call)" "effects db" e] assms
    by (simp_all add: find_effect_def)
  then have "list_ex (\<lambda>e. effect_id e = (tc_runId call, tc_callId call)) (effects db)"
    unfolding list_ex_iff by blast
  then show ?thesis unfolding claim_effect_def by simp
qed

lemma existing_claim_of:
  assumes "find_effect db (tc_runId call) (tc_callId call) = Some e" and "claim_of redact s call e"
    and "\<And>v. jsonb_eq v v"
  shows "existing_claim redact jsonb_eq db s call = Inr (admitted e)"
proof -
  have "find (\<lambda>e. ef_spaceId e = s \<and> ef_runId e = tc_runId call \<and> ef_key e = tc_callId call) (effects db) = Some e"
    using find_effect_key [OF assms(1)] assms(2)
    by (intro find_conj [OF _ assms(1) [unfolded find_effect_def]]) (simp_all add: claim_of_def)
  then show ?thesis using assms(2,3) by (simp add: existing_claim_def claim_of_def admitted_def)
qed

lemma admitted_in_flight: "claim_of redact s call e \<Longrightarrow> admitted e = In_flight \<longleftrightarrow> ef_status e = E_running"
  by (auto simp: admitted_def claim_of_def)

lemma admitted_settled: "claim_of redact s call e \<Longrightarrow> admitted e \<noteq> In_flight \<Longrightarrow> effect_evolves e e' \<Longrightarrow> e' = e"
  by (auto simp: admitted_in_flight effect_evolves_def is_settled_def claim_of_def)

lemma find_effect_fail:
  "effects db' = update_where P (fail_effect x) (effects db) \<Longrightarrow>
   find_effect db' i k = map_option (\<lambda>e. if P e then fail_effect x e else e) (find_effect db i k)"
  unfolding find_effect_def by (simp only: fle.find_update)

lemma find_effect_complete:
  "effects db' = update_where P (complete_effect x) (effects db) \<Longrightarrow>
   find_effect db' i k = map_option (\<lambda>e. if P e then complete_effect x e else e) (find_effect db i k)"
  unfolding find_effect_def by (simp only: cpe.find_update)

lemma completed_claim:
  assumes "find_effect db (tc_runId call) (tc_callId call) = Some e" and "claim_of redact s call e"
    and "ef_status e = E_running"
  shows "find_effect (snd (ledger_complete db s call (Json v))) (tc_runId call) (tc_callId call) =
    Some (complete_effect (json_of v) e)"
proof -
  have "effects (snd (ledger_complete db s call (Json v))) =
      update_where (claimed_by s call) (complete_effect (json_of v)) (effects db)"
    by (simp add: ledger_complete_def Let_def)
  from find_effect_complete [OF this] show ?thesis
    using assms find_effect_key [OF assms(1)] by (simp add: claimed_by_def claim_of_def)
qed

lemma completed_reply:
  assumes "find_effect db (tc_runId call) (tc_callId call) = Some e" and "claim_of redact s call e"
    and "ef_status e = E_running" and "\<And>v. jsonb_eq v v"
  shows "ledger_complete db s call (Json v) =
      (Inr (Outcome_completed (Json v)), snd (ledger_complete db s call (Json v))) \<and>
    existing_claim redact jsonb_eq (snd (ledger_complete db s call (Json v))) s call =
      Inr (Settled_completed (Some (json_of v)))"
proof
  have m: "e \<in> set (effects db)" "claimed_by s call e"
    using find_key_Some [OF assms(1) [unfolded find_effect_def]] assms(2,3) by (auto simp: claimed_by_def claim_of_def)
  then have "returning (claimed_by s call) (complete_effect (json_of v)) (effects db) \<noteq> []"
    by (auto simp: returning_Nil)
  then show "ledger_complete db s call (Json v) =
      (Inr (Outcome_completed (Json v)), snd (ledger_complete db s call (Json v)))"
    by (simp add: ledger_complete_def Let_def settled_def)
  have "claim_of redact s call (complete_effect (json_of v) e)"
    using assms(2) by (simp add: claim_of_def complete_effect_def)
  from existing_claim_of [where jsonb_eq = jsonb_eq, OF completed_claim [OF assms(1-3)] this assms(4)]
  show "existing_claim redact jsonb_eq (snd (ledger_complete db s call (Json v))) s call =
      Inr (Settled_completed (Some (json_of v)))"
    by (simp add: admitted_def complete_effect_def)
qed

lemma reclaimed_claim:
  assumes "wf_run_tables db" and "fst (reclaimRun now db s (tc_runId call) fe owner opt) = Inr (Some r)"
    and "find_effect db (tc_runId call) (tc_callId call) = Some e" and "claim_of redact s call e"
  shows "\<exists>e'. find_effect (snd (reclaimRun now db s (tc_runId call) fe owner opt)) (tc_runId call) (tc_callId call) =
    Some e' \<and> effect_evolves e e' \<and> ef_status e' \<noteq> E_running"
proof -
  let ?f = "fail_effect (Some (rc_reason opt))"
  obtain x where x: "acquirable db now s (tc_runId call) fe Reclaim None = Some x"
    using assms(2) acquire_none [OF assms(1)]
    by (cases "acquirable db now s (tc_runId call) fe Reclaim None") (auto simp: reclaimRun_def)
  have "effects (snd (reclaimRun now db s (tc_runId call) fe owner opt)) =
      update_where (effect_in_flight s (tc_runId call)) ?f (effects db)"
    using acquire_some(5) [OF assms(1) x] by (simp add: reclaimRun_def)
  then have f: "find_effect (snd (reclaimRun now db s (tc_runId call) fe owner opt)) (tc_runId call) (tc_callId call) =
      Some (if effect_in_flight s (tc_runId call) e then ?f e else e)"
    using assms(3) by (simp add: find_effect_fail)
  have "ef_status (if effect_in_flight s (tc_runId call) e then ?f e else e) \<noteq> E_running"
    using assms(4) find_effect_key [OF assms(3)]
    by (auto simp: effect_in_flight_def fail_effect_def claim_of_def)
  moreover have "effect_evolves e (if effect_in_flight s (tc_runId call) e then ?f e else e)"
    by (simp add: effect_evolves_refl fail_evolves in_flight_open)
  ultimately show ?thesis using f by blast
qed

end
