(* ===== verification/Approval_Store.thy ===== *)
theory Approval_Store
  imports Run_Database
begin

text \<open>
  The durable half of the approval gate, \<open>packages/db/src/approval-store.ts\<close>: a run opens a
  gate and settles its deadline, an operator votes. The table extends the run tables, each
  statement is one function. A vote is several statements; what other writers do between them
  is an argument, a function on the tables, so that the theorems hold for every interleaving.
  Rows are kept in the order they were created, which stands for \<open>created_at, id\<close>.
\<close>

section \<open>The table\<close>

record approval_row =
  ap_spaceId :: string
  ap_runId :: string
  ap_callId :: string
  ap_tool :: string
  ap_arguments :: js
  ap_status :: approval_status
  ap_expiresAt :: int
  ap_decidedBy :: "string option"
  ap_decidedAt :: "int option"
  ap_reason :: "string option"

record approval_tables = run_tables +
  approvals :: "approval_row list"

record approval_request =
  aq_runId :: string
  aq_callId :: string
  aq_tool :: string
  aq_arguments :: js
  aq_expiresAt :: int

datatype approval_vote = Approve | Deny

record approval_vote_input =
  vi_runId :: string
  vi_callId :: string
  vi_vote :: approval_vote
  vi_reason :: "string option"

datatype approval_error = Approval_not_found string string | Check_violation

abbreviation approval_id :: "approval_row \<Rightarrow> string \<times> string" where
  "approval_id a \<equiv> (ap_runId a, ap_callId a)"

section \<open>Statements\<close>

definition findApproval :: "approval_tables \<Rightarrow> string \<Rightarrow> string \<Rightarrow> string \<Rightarrow> approval_row option" where
  "findApproval db spaceId rid callId =
     find (\<lambda>a. ap_spaceId a = spaceId \<and> ap_runId a = rid \<and> ap_callId a = callId) (approvals db)"

definition blank_text :: "string \<Rightarrow> bool" where
  "blank_text s = list_all (\<lambda>c. c = CHR '' '') s"

definition pending_row :: "string \<Rightarrow> approval_request \<Rightarrow> approval_row" where
  "pending_row spaceId q =
     \<lparr>ap_spaceId = spaceId, ap_runId = aq_runId q, ap_callId = aq_callId q, ap_tool = aq_tool q,
      ap_arguments = json_of (if aq_arguments q \<in> {JUndefined, JNull} then JObj [] else aq_arguments q),
      ap_status = Pending, ap_expiresAt = aq_expiresAt q, ap_decidedBy = None, ap_decidedAt = None,
      ap_reason = None\<rparr>"

definition insert_approval ::
  "approval_tables \<Rightarrow> string \<Rightarrow> approval_request \<Rightarrow> (approval_error + approval_row option) \<times> approval_tables" where
  "insert_approval db spaceId q =
     (if \<not> list_ex (\<lambda>r. rw_id r = aq_runId q \<and> rw_spaceId r = spaceId) (runs db) then (Inr None, db)
      else if blank_text (aq_callId q) \<or> blank_text (aq_tool q) then (Inl Check_violation, db)
      else if list_ex (\<lambda>a. approval_id a = (aq_runId q, aq_callId q)) (approvals db) then (Inr None, db)
      else (Inr (Some (pending_row spaceId q)), db\<lparr>approvals := approvals db @ [pending_row spaceId q]\<rparr>))"

definition timed_out :: "int \<Rightarrow> approval_row \<Rightarrow> approval_row" where
  "timed_out now a = a\<lparr>ap_status := Timed_out, ap_decidedAt := Some now\<rparr>"

definition timeoutApproval ::
  "int \<Rightarrow> approval_tables \<Rightarrow> string \<Rightarrow> string \<Rightarrow> string \<Rightarrow> approval_row option \<times> approval_tables" where
  "timeoutApproval now db spaceId rid callId =
     (let P = (\<lambda>a. ap_spaceId a = spaceId \<and> ap_runId a = rid \<and> ap_callId a = callId \<and>
                   ap_status a = Pending \<and> ap_expiresAt a \<le> now)
      in (first_row (returning P (timed_out now) (approvals db)),
          db\<lparr>approvals := update_where P (timed_out now) (approvals db)\<rparr>))"

definition voted :: "int \<Rightarrow> string \<Rightarrow> approval_vote_input \<Rightarrow> approval_row \<Rightarrow> approval_row" where
  "voted now userId i a =
     a\<lparr>ap_status := (case vi_vote i of Approve \<Rightarrow> Approved | Deny \<Rightarrow> Denied),
       ap_decidedBy := Some userId, ap_decidedAt := Some now,
       ap_reason := (if vi_vote i = Deny \<and> vi_reason i \<noteq> Some [] then vi_reason i else None)\<rparr>"

definition vote_statement ::
  "int \<Rightarrow> approval_tables \<Rightarrow> string \<Rightarrow> string \<Rightarrow> approval_vote_input \<Rightarrow> approval_row option \<times> approval_tables" where
  "vote_statement now db spaceId userId i =
     (let P = (\<lambda>a. ap_spaceId a = spaceId \<and> ap_runId a = vi_runId i \<and> ap_callId a = vi_callId i \<and>
                   ap_status a = Pending \<and> now < ap_expiresAt a)
      in (first_row (returning P (voted now userId i) (approvals db)),
          db\<lparr>approvals := update_where P (voted now userId i) (approvals db)\<rparr>))"

section \<open>Operations\<close>

type_synonym writers = "approval_tables \<Rightarrow> approval_tables"

definition approval_open ::
  "writers \<Rightarrow> approval_tables \<Rightarrow> string \<Rightarrow> approval_request \<Rightarrow> (approval_error + approval_row) \<times> approval_tables" where
  "approval_open w db spaceId q =
     (case insert_approval db spaceId q of
        (Inl e, db1) \<Rightarrow> (Inl e, db1)
      | (Inr (Some a), db1) \<Rightarrow> (Inr a, db1)
      | (Inr None, db1) \<Rightarrow>
          (case findApproval (w db1) spaceId (aq_runId q) (aq_callId q) of
             None \<Rightarrow> (Inl (Approval_not_found ''run'' (aq_runId q)), w db1)
           | Some a \<Rightarrow> (Inr a, w db1)))"

definition resolveTimeout ::
  "int \<Rightarrow> writers \<Rightarrow> approval_tables \<Rightarrow> string \<Rightarrow> string \<Rightarrow> string \<Rightarrow>
   (approval_error + approval_row) \<times> approval_tables" where
  "resolveTimeout now w db spaceId rid callId =
     (case timeoutApproval now db spaceId rid callId of
        (Some a, db1) \<Rightarrow> (Inr a, db1)
      | (None, db1) \<Rightarrow>
          (case findApproval (w db1) spaceId rid callId of
             None \<Rightarrow> (Inl (Approval_not_found ''approval'' callId), w db1)
           | Some a \<Rightarrow> (Inr a, w db1)))"

definition approval_decide ::
  "int \<Rightarrow> int \<Rightarrow> writers \<Rightarrow> writers \<Rightarrow> approval_tables \<Rightarrow> string \<Rightarrow> string \<Rightarrow> approval_vote_input \<Rightarrow>
   (approval_error + approval_row \<times> bool) \<times> approval_tables" where
  "approval_decide now now' w w' db spaceId userId i =
     (case vote_statement now db spaceId userId i of
        (Some a, db1) \<Rightarrow> (Inr (a, True), db1)
      | (None, db1) \<Rightarrow>
          (let db2 = w db1 in
           case findApproval db2 spaceId (vi_runId i) (vi_callId i) of
             None \<Rightarrow> (Inl (Approval_not_found ''approval'' (vi_callId i)), db2)
           | Some existing \<Rightarrow>
               if ap_status existing = Pending then
                 (case timeoutApproval now' db2 spaceId (vi_runId i) (vi_callId i) of
                    (Some a, db3) \<Rightarrow> (Inr (a, False), db3)
                  | (None, db3) \<Rightarrow>
                      (let db4 = w' db3 in
                       case findApproval db4 spaceId (vi_runId i) (vi_callId i) of
                         None \<Rightarrow> (Inl (Approval_not_found ''approval'' (vi_callId i)), db4)
                       | Some a \<Rightarrow> (Inr (a, False), db4)))
               else (Inr (existing, False), db2)))"

definition listForRun :: "approval_tables \<Rightarrow> string \<Rightarrow> string \<Rightarrow> approval_row list" where
  "listForRun db spaceId rid = filter (\<lambda>a. ap_spaceId a = spaceId \<and> ap_runId a = rid) (approvals db)"

definition approval_list ::
  "approval_tables \<Rightarrow> string \<Rightarrow> string option \<Rightarrow> string option \<Rightarrow> approval_status option \<Rightarrow>
   (approval_row \<times> string \<times> string) list" where
  "approval_list db spaceId botId rid status =
     rev (concat (map (\<lambda>a. map (\<lambda>r. (a, rw_botId r, rw_threadId r))
       (filter (\<lambda>r. rw_id r = ap_runId a \<and> rw_spaceId r = ap_spaceId a \<and>
          (botId = None \<or> botId = Some (rw_botId r))) (runs db)))
       (filter (\<lambda>a. ap_spaceId a = spaceId \<and> (rid = None \<or> rid = Some (ap_runId a)) \<and>
          (status = None \<or> status = Some (ap_status a))) (approvals db))))"

section \<open>Executions\<close>

inductive approval_step :: "approval_tables \<Rightarrow> approval_tables \<Rightarrow> bool" where
  opened: "approval_step db (snd (insert_approval db spaceId q))"
| expired: "approval_step db (snd (timeoutApproval now db spaceId rid callId))"
| decided: "approval_step db (snd (vote_statement now db spaceId userId i))"

interpretation tmo: keyed_update approval_id "timed_out now" for now
  by unfold_locales (simp add: timed_out_def)

interpretation vot: keyed_update approval_id "voted now userId i" for now userId i
  by unfold_locales (simp add: voted_def)

definition find_gate :: "approval_tables \<Rightarrow> string \<Rightarrow> string \<Rightarrow> approval_row option" where
  "find_gate db rid callId = find (\<lambda>a. approval_id a = (rid, callId)) (approvals db)"

text \<open>A gate's identity and deadline are fixed, and a resolved gate never changes again.\<close>

definition gate_evolves :: "approval_row \<Rightarrow> approval_row \<Rightarrow> bool" where
  "gate_evolves a a' =
     (approval_id a' = approval_id a \<and> ap_spaceId a' = ap_spaceId a \<and> ap_tool a' = ap_tool a \<and>
      ap_arguments a' = ap_arguments a \<and> ap_expiresAt a' = ap_expiresAt a \<and>
      (ap_status a \<noteq> Pending \<longrightarrow> a' = a))"

lemma gate_evolves_refl: "gate_evolves a a"
  by (simp add: gate_evolves_def)

lemma gate_evolves_trans: "gate_evolves a b \<Longrightarrow> gate_evolves b c \<Longrightarrow> gate_evolves a c"
  unfolding gate_evolves_def by (elim conjE) simp

lemma gate_update:
  assumes "keyed_update approval_id f" and "\<And>a. P a \<Longrightarrow> gate_evolves a (f a)" and "find_gate db i k = Some a"
    and "approvals db' = update_where P f (approvals db)"
  shows "\<exists>a'. find_gate db' i k = Some a' \<and> gate_evolves a a'"
  using keyed_update.find_update [OF assms(1), of "(i, k)" P "approvals db"] assms(2-4) gate_evolves_refl
  by (auto simp: find_gate_def)

lemma step_gate:
  assumes "approval_step db db'" and "find_gate db i k = Some a"
  shows "\<exists>a'. find_gate db' i k = Some a' \<and> gate_evolves a a'"
  using assms(1)
proof cases
  case (opened s q)
  then show ?thesis using assms(2)
    by (auto simp: insert_approval_def find_gate_def find_append_rows gate_evolves_refl)
next
  case (expired now s rid c)
  then show ?thesis
    by (intro gate_update [OF tmo.keyed_update_axioms [of now] _ assms(2)])
      (auto simp: timeoutApproval_def Let_def timed_out_def gate_evolves_def)
next
  case (decided now s u i)
  then show ?thesis
    by (intro gate_update [OF vot.keyed_update_axioms [of now u i] _ assms(2)])
      (auto simp: vote_statement_def Let_def voted_def gate_evolves_def)
qed

lemma steps_gate:
  assumes "approval_step\<^sup>*\<^sup>* db db'" and "find_gate db i k = Some a"
  shows "\<exists>a'. find_gate db' i k = Some a' \<and> gate_evolves a a'"
  using assms(1)
proof induction
  case base
  then show ?case using assms(2) gate_evolves_refl by blast
next
  case (step db1 db2)
  then show ?case using step_gate gate_evolves_trans by blast
qed

section \<open>Resolved exactly once\<close>

text \<open>
  The table's check constraint, with the deadline: a vote was cast before it, a timeout was
  recorded after it.
\<close>

definition wf_gate :: "approval_row \<Rightarrow> bool" where
  "wf_gate a =
     (case ap_status a of
        Pending \<Rightarrow> ap_decidedAt a = None \<and> ap_decidedBy a = None \<and> ap_reason a = None
      | Timed_out \<Rightarrow> ap_decidedBy a = None \<and> (\<exists>t. ap_decidedAt a = Some t \<and> ap_expiresAt a \<le> t)
      | _ \<Rightarrow> ap_decidedBy a \<noteq> None \<and> (\<exists>t. ap_decidedAt a = Some t \<and> t < ap_expiresAt a))"

definition wf_approvals :: "approval_tables \<Rightarrow> bool" where
  "wf_approvals db = (distinct (map approval_id (approvals db)) \<and> list_all wf_gate (approvals db))"

lemma timed_out_wf: "wf_gate a \<Longrightarrow> ap_status a = Pending \<Longrightarrow> ap_expiresAt a \<le> now \<Longrightarrow> wf_gate (timed_out now a)"
  and voted_wf: "wf_gate a \<Longrightarrow> ap_status a = Pending \<Longrightarrow> now < ap_expiresAt a \<Longrightarrow> wf_gate (voted now u i a)"
  by (auto simp: wf_gate_def timed_out_def voted_def split: approval_vote.splits)

lemma update_wf_gates:
  "list_all wf_gate as \<Longrightarrow> (\<And>a. wf_gate a \<Longrightarrow> P a \<Longrightarrow> wf_gate (f a)) \<Longrightarrow> list_all wf_gate (update_where P f as)"
  by (auto simp: list_all_iff update_where_def)

lemma approval_step_wf: "approval_step db db' \<Longrightarrow> wf_approvals db \<Longrightarrow> wf_approvals db'"
proof (induction rule: approval_step.induct)
  case (opened db s q)
  have "wf_gate (pending_row s q)" by (simp add: wf_gate_def pending_row_def)
  with opened show ?case by (auto simp: wf_approvals_def insert_approval_def pending_row_def list_ex_iff)
next
  case (expired db now s rid c)
  then show ?case
    by (auto simp: wf_approvals_def timeoutApproval_def Let_def intro!: update_wf_gates timed_out_wf)
next
  case (decided db now s u i)
  then show ?case
    by (auto simp: wf_approvals_def vote_statement_def Let_def intro!: update_wf_gates voted_wf)
qed

lemma approval_steps_wf: "approval_step\<^sup>*\<^sup>* db db' \<Longrightarrow> wf_approvals db \<Longrightarrow> wf_approvals db'"
  by (induction rule: rtranclp_induct) (auto intro: approval_step_wf)

lemma findApproval_iff:
  assumes "wf_approvals db"
  shows "findApproval db s i k = Some a \<longleftrightarrow> find_gate db i k = Some a \<and> ap_spaceId a = s"
proof
  assume f: "findApproval db s i k = Some a"
  then have a: "a \<in> set (approvals db)" "ap_spaceId a = s" "approval_id a = (i, k)"
    by (auto simp: findApproval_def find_Some_iff)
  with find_key_distinct [of approval_id "approvals db" a] assms
  show "find_gate db i k = Some a \<and> ap_spaceId a = s" by (simp add: find_gate_def wf_approvals_def)
next
  assume "find_gate db i k = Some a \<and> ap_spaceId a = s"
  then have g: "find (\<lambda>a. approval_id a = (i, k)) (approvals db) = Some a" and s: "ap_spaceId a = s"
    by (simp_all add: find_gate_def)
  from find_key_Some [OF g] s show "findApproval db s i k = Some a"
    unfolding findApproval_def by (intro find_conj [OF _ g]) simp_all
qed

lemma findApproval_wf: "wf_approvals db \<Longrightarrow> findApproval db s i k = Some a \<Longrightarrow> wf_gate a"
  by (auto simp: wf_approvals_def findApproval_def list_all_iff find_Some_iff)

lemma findApproval_steps:
  assumes "approval_step\<^sup>*\<^sup>* db db'" and "wf_approvals db" and "findApproval db s i k = Some a"
  shows "\<exists>a'. findApproval db' s i k = Some a' \<and> gate_evolves a a'"
proof -
  obtain a' where "find_gate db' i k = Some a'" "gate_evolves a a'"
    using steps_gate [OF assms(1)] assms(3) findApproval_iff [OF assms(2)] by blast
  moreover have "ap_spaceId a' = s"
    using \<open>gate_evolves a a'\<close> assms(3) findApproval_iff [OF assms(2)] by (simp add: gate_evolves_def)
  ultimately show ?thesis using findApproval_iff [OF approval_steps_wf [OF assms(1,2)]] by blast
qed

text \<open>The two guarded updates are compare-and-sets on the one row they address.\<close>

definition gate_statement ::
  "(approval_row \<Rightarrow> bool) \<Rightarrow> (approval_row \<Rightarrow> approval_row) \<Rightarrow> approval_tables \<Rightarrow> string \<Rightarrow> string \<Rightarrow> string \<Rightarrow>
   approval_row option \<times> approval_tables" where
  "gate_statement Q f db s i k =
     (let P = (\<lambda>a. ap_spaceId a = s \<and> ap_runId a = i \<and> ap_callId a = k \<and> Q a)
      in (first_row (returning P f (approvals db)), db\<lparr>approvals := update_where P f (approvals db)\<rparr>))"

locale gate_cas = keyed_update approval_id f for f :: "approval_row \<Rightarrow> approval_row" +
  fixes Q :: "approval_row \<Rightarrow> bool"
  assumes keeps_space: "ap_spaceId (f a) = ap_spaceId a"
begin

lemma gate_returning:
  assumes "wf_approvals db"
  shows "returning (\<lambda>a. ap_spaceId a = s \<and> ap_runId a = i \<and> ap_callId a = k \<and> Q a) f (approvals db) =
    (case findApproval db s i k of None \<Rightarrow> [] | Some a \<Rightarrow> if Q a then [f a] else [])"
proof -
  let ?P = "\<lambda>a. ap_spaceId a = s \<and> ap_runId a = i \<and> ap_callId a = k \<and> Q a"
  have "distinct (map approval_id (approvals db))" using assms by (simp add: wf_approvals_def)
  from returning_unique [OF this, of ?P "(i, k)"]
  have r: "returning ?P f (approvals db) = (case find_gate db i k of None \<Rightarrow> [] | Some a \<Rightarrow> if ?P a then [f a] else [])"
    by (simp add: find_gate_def)
  show ?thesis
  proof (cases "find_gate db i k")
    case None
    then have "findApproval db s i k = None"
      using findApproval_iff [OF assms, of s i k] by fastforce
    with None show ?thesis using r by simp
  next
    case (Some a)
    have "approval_id a = (i, k)"
      using Some find_key_Some [of approval_id "(i, k)" "approvals db" a] by (simp add: find_gate_def)
    moreover have "findApproval db s i k = (if ap_spaceId a = s then Some a else None)"
    proof (cases "findApproval db s i k")
      case (Some b)
      then show ?thesis using \<open>find_gate db i k = Some a\<close> findApproval_iff [OF assms, of s i k b] by simp
    next
      case None
      then show ?thesis using \<open>find_gate db i k = Some a\<close> findApproval_iff [OF assms, of s i k a] by auto
    qed
    ultimately show ?thesis using Some r by simp
  qed
qed

lemma cas_result:
  assumes "wf_approvals db"
  shows "fst (gate_statement Q f db s i k) =
    (case findApproval db s i k of None \<Rightarrow> None | Some a \<Rightarrow> if Q a then Some (f a) else None)"
  by (auto simp: gate_statement_def gate_returning [OF assms] split: option.split)

lemma cas_miss: "fst (gate_statement Q f db s i k) = None \<Longrightarrow> snd (gate_statement Q f db s i k) = db"
  using update_where_Nil [of "\<lambda>a. ap_spaceId a = s \<and> ap_runId a = i \<and> ap_callId a = k \<and> Q a" f "approvals db"]
  by (auto simp: gate_statement_def Let_def first_row_def split: list.splits)

lemma cas_hit:
  assumes "wf_approvals db" and "wf_approvals (snd (gate_statement Q f db s i k))"
    and "fst (gate_statement Q f db s i k) = Some a"
  shows "findApproval (snd (gate_statement Q f db s i k)) s i k = Some a"
proof -
  obtain b where b: "findApproval db s i k = Some b" "Q b" "a = f b"
    using assms(3) by (auto simp: cas_result [OF assms(1)] split: option.splits if_splits)
  have g: "find_gate db i k = Some b" "ap_spaceId b = s" using b(1) findApproval_iff [OF assms(1)] by auto
  have "approval_id b = (i, k)"
    using g(1) find_key_Some [of approval_id "(i, k)" "approvals db" b] by (simp add: find_gate_def)
  then have "find_gate (snd (gate_statement Q f db s i k)) i k = Some a"
    using find_update [of "(i, k)" "\<lambda>a. ap_spaceId a = s \<and> ap_runId a = i \<and> ap_callId a = k \<and> Q a" "approvals db"]
      g b by (simp add: gate_statement_def Let_def find_gate_def)
  then show ?thesis using findApproval_iff [OF assms(2)] keeps_space g(2) b(3) by simp
qed

end

interpretation timeout: gate_cas "timed_out now" "\<lambda>a. ap_status a = Pending \<and> ap_expiresAt a \<le> now" for now
  by unfold_locales (simp add: timed_out_def)

interpretation vote: gate_cas "voted now u vi" "\<lambda>a. ap_status a = Pending \<and> now < ap_expiresAt a" for now u vi
  by unfold_locales (simp add: voted_def)

lemma timeout_statement:
  "timeoutApproval now db s i k =
     gate_statement (\<lambda>a. ap_status a = Pending \<and> ap_expiresAt a \<le> now) (timed_out now) db s i k"
  by (simp add: timeoutApproval_def gate_statement_def)

lemma vote_is_statement:
  "vote_statement now db s u i =
     gate_statement (\<lambda>a. ap_status a = Pending \<and> now < ap_expiresAt a) (voted now u i) db s (vi_runId i) (vi_callId i)"
  by (simp add: vote_statement_def gate_statement_def)

text \<open>Writers between the statements of an operation: any execution of the table.\<close>

definition fair_writers :: "writers \<Rightarrow> bool" where
  "fair_writers w = (\<forall>db. approval_step\<^sup>*\<^sup>* db (w db))"

lemma fair_writersD:
  assumes "fair_writers w" and "wf_approvals db"
  shows "wf_approvals (w db)"
    and "findApproval db s i k = Some a \<Longrightarrow> \<exists>a'. findApproval (w db) s i k = Some a' \<and> gate_evolves a a'"
  using assms approval_steps_wf findApproval_steps unfolding fair_writers_def by blast+

lemma gate_final: "gate_evolves a a' \<Longrightarrow> ap_status a \<noteq> Pending \<Longrightarrow> a' = a"
  by (simp add: gate_evolves_def)

lemma resolved_timeout:
  assumes "wf_approvals db" and "findApproval db s i k = Some a" and "ap_status a \<noteq> Pending" and "fair_writers w"
  shows "fst (resolveTimeout now w db s i k) = Inr a"
proof -
  have n: "fst (timeoutApproval now db s i k) = None"
    using assms(2,3) by (simp add: timeout_statement timeout.cas_result [OF assms(1)])
  have "snd (timeoutApproval now db s i k) = db"
    using n unfolding timeout_statement by (rule timeout.cas_miss)
  with n have t: "timeoutApproval now db s i k = (None, db)" by (simp add: prod_eq_iff)
  obtain a' where "findApproval (w db) s i k = Some a'" "gate_evolves a a'"
    using fair_writersD(2) [OF assms(4,1,2)] by blast
  with gate_final [OF _ assms(3)] have "findApproval (w db) s i k = Some a" by blast
  with t show ?thesis by (simp add: resolveTimeout_def)
qed

lemma vote_miss:
  assumes "wf_approvals db" and "fst (vote_statement now db s u i) = None"
  shows "vote_statement now db s u i = (None, db)"
  using assms(2) vote.cas_miss [where now = now and u = u and vi = i] by (simp add: vote_is_statement prod_eq_iff)

lemma resolved_decide:
  assumes "wf_approvals db" and "findApproval db s (vi_runId i) (vi_callId i) = Some a"
    and "ap_status a \<noteq> Pending" and "fair_writers w"
  shows "fst (approval_decide now now' w w' db s u i) = Inr (a, False)"
proof -
  have "fst (vote_statement now db s u i) = None"
    using assms(2,3) by (simp add: vote_is_statement vote.cas_result [OF assms(1)])
  note v = vote_miss [OF assms(1) this]
  obtain a' where "findApproval (w db) s (vi_runId i) (vi_callId i) = Some a'" "gate_evolves a a'"
    using fair_writersD(2) [OF assms(4,1,2)] by blast
  with gate_final [OF _ assms(3)] have "findApproval (w db) s (vi_runId i) (vi_callId i) = Some a" by blast
  with v assms(3) show ?thesis by (simp add: approval_decide_def)
qed

lemma decide_resolves:
  assumes "wf_approvals db" and "findApproval db s (vi_runId i) (vi_callId i) = Some a"
    and "fair_writers w" and "now \<le> now'"
  shows "\<exists>a' applied. fst (approval_decide now now' w w' db s u i) = Inr (a', applied) \<and>
      ap_status a' \<noteq> Pending \<and> wf_gate a' \<and> gate_evolves a a' \<and>
      findApproval (snd (approval_decide now now' w w' db s u i)) s (vi_runId i) (vi_callId i) = Some a' \<and>
      (applied \<longleftrightarrow> ap_status a = Pending \<and> now < ap_expiresAt a) \<and>
      (applied \<longrightarrow> a' = voted now u i a)"
proof (cases "ap_status a = Pending \<and> now < ap_expiresAt a")
  case True
  let ?r = "voted now u i a"
  have f: "fst (vote_statement now db s u i) = Some ?r"
    using True assms(2) by (simp add: vote_is_statement vote.cas_result [OF assms(1)])
  have wf: "wf_approvals (snd (vote_statement now db s u i))"
    by (rule approval_step_wf [OF approval_step.decided assms(1)])
  have h: "findApproval (snd (vote_statement now db s u i)) s (vi_runId i) (vi_callId i) = Some ?r"
    using vote.cas_hit [OF assms(1), where now = now and u = u and vi = i and a = ?r] wf f
    by (simp add: vote_is_statement)
  have "approval_decide now now' w w' db s u i = (Inr (?r, True), snd (vote_statement now db s u i))"
    using f by (cases "vote_statement now db s u i") (simp add: approval_decide_def)
  moreover have "ap_status ?r \<noteq> Pending" "gate_evolves a ?r"
    using True by (simp_all add: voted_def gate_evolves_def split: approval_vote.split)
  ultimately show ?thesis using True h findApproval_wf [OF wf h] by auto
next
  case False
  have "fst (vote_statement now db s u i) = None"
    using False assms(2) by (auto simp: vote_is_statement vote.cas_result [OF assms(1)])
  note v = vote_miss [OF assms(1) this]
  note w = fair_writersD [OF assms(3,1)]
  obtain b where b: "findApproval (w db) s (vi_runId i) (vi_callId i) = Some b" "gate_evolves a b"
    using w(2) [OF assms(2)] by blast
  show ?thesis
  proof (cases "ap_status b = Pending")
    case True
    have "ap_status a = Pending" using b(2) True by (cases "ap_status a = Pending") (auto simp: gate_evolves_def)
    with False assms(4) b(2) have e: "ap_expiresAt b \<le> now'" by (auto simp: gate_evolves_def)
    let ?t = "timeoutApproval now' (w db) s (vi_runId i) (vi_callId i)"
    have f: "fst ?t = Some (timed_out now' b)"
      using True e b(1) by (simp add: timeout_statement timeout.cas_result [OF w(1)])
    have wf: "wf_approvals (snd ?t)" by (rule approval_step_wf [OF approval_step.expired w(1)])
    have h: "findApproval (snd ?t) s (vi_runId i) (vi_callId i) = Some (timed_out now' b)"
      using timeout.cas_hit [OF w(1), where now = now' and a = "timed_out now' b"] wf f
      by (simp add: timeout_statement)
    have "approval_decide now now' w w' db s u i = (Inr (timed_out now' b, False), snd ?t)"
      using f v b(1) True by (cases ?t) (simp add: approval_decide_def Let_def)
    moreover have "ap_status (timed_out now' b) \<noteq> Pending" "gate_evolves b (timed_out now' b)"
      using True by (simp_all add: timed_out_def gate_evolves_def)
    ultimately show ?thesis
      using False h findApproval_wf [OF wf h] gate_evolves_trans [OF b(2)] by auto
  next
    case np: False
    then show ?thesis
      using False v b findApproval_wf [OF w(1) b(1)] by (auto simp: approval_decide_def Let_def)
  qed
qed

end
