(* ===== verification/Execution_Properties.thy ===== *)
theory Execution_Properties
  imports Approval_Store
begin

text \<open>
  The correctness properties of a run's durable execution: its row under concurrent workers,
  the fence, the ledger of tool calls and the approval gates. The sample tables are the inputs
  of the witnesses.
\<close>

section \<open>Sample tables\<close>

definition sample_tables :: run_tables where
  "sample_tables = \<lparr>runs = [queued_row ''r'' ''s'' ''b'' ''t''], attempts = [], effects = []\<rparr>"

definition claimed_tables :: run_tables where
  "claimed_tables = snd (claimRun 0 sample_tables ''s'' ''r'' 0 ''w1'')"

definition sample_reclaim :: reclaim_options where
  "sample_reclaim = \<lparr>rc_reason = ''the lease expired'', rc_recordAttempt = None\<rparr>"

definition reclaimed_tables :: run_tables where
  "reclaimed_tables = snd (reclaimRun 120000 claimed_tables ''s'' ''r'' 1 ''w2'' sample_reclaim)"

lemma sample_tables_wf: "wf_run_tables sample_tables"
  by (simp add: wf_run_tables_def sample_tables_def)

lemma claimed_step: "run_db_step sample_tables claimed_tables"
  unfolding claimed_tables_def claimRun_def by (rule run_db_step.acquire)

lemma reclaimed_step: "run_db_step claimed_tables reclaimed_tables"
  unfolding reclaimed_tables_def reclaimRun_def by (rule run_db_step.acquire)

lemmas claimed_tables_wf = step_wf [OF claimed_step sample_tables_wf]

lemmas reclaimed_tables_wf = step_wf [OF reclaimed_step claimed_tables_wf]

section \<open>The run row\<close>

text \<open>
  C2: The run row refines the run state machine. Let any number of workers, watchdogs and
  operators interleave their statements. The tables stay consistent (unique rows, no attempt
  beyond its run's fence, no effect outside its run's space). A run moves only along the core
  package's status graph, its fence never decreases, no fence ever has two owners, and a stop
  request, a start and a claimed notification are never taken back. A run that has ended keeps
  its status, fence, error and checkpoint for good.
\<close>

theorem run_row_history:
  assumes "run_db_step\<^sup>*\<^sup>* db db'" and "wf_run_tables db" and "find_run db i = Some r"
  shows "wf_run_tables db' \<and> (\<exists>r'. find_run db' i = Some r' \<and>
    canTransition\<^sup>*\<^sup>* (ls_status r) (ls_status r') \<and> rw_leaseFence r \<le> rw_leaseFence r' \<and>
    (rw_leaseFence r' = rw_leaseFence r \<longrightarrow> ls_leaseOwner r' \<in> {ls_leaseOwner r, None}) \<and>
    (ls_stopRequestedAt r \<noteq> None \<longrightarrow> ls_stopRequestedAt r' = ls_stopRequestedAt r) \<and>
    (rw_startedAt r \<noteq> None \<longrightarrow> rw_startedAt r' = rw_startedAt r) \<and>
    (rw_notifiedAt r \<noteq> None \<longrightarrow> rw_notifiedAt r' = rw_notifiedAt r) \<and>
    (isTerminalStatus (ls_status r) \<longrightarrow>
       ls_status r' = ls_status r \<and> rw_leaseFence r' = rw_leaseFence r \<and> rw_error r' = rw_error r \<and>
       rw_errorCode r' = rw_errorCode r \<and> rw_checkpoint r' = rw_checkpoint r))"
  using steps_wf [OF assms(1,2)] steps_evolve [OF assms(1,3)] unfolding row_evolves_def by blast

theorem run_row_history_witness:
  "\<exists>r'. find_run reclaimed_tables ''r'' = Some r' \<and> canTransition\<^sup>*\<^sup>* Queued (ls_status r')"
proof -
  have s: "run_db_step\<^sup>*\<^sup>* sample_tables reclaimed_tables" using claimed_step reclaimed_step by auto
  have f: "find_run sample_tables ''r'' = Some (queued_row ''r'' ''s'' ''b'' ''t'')"
    by (simp add: find_run_def sample_tables_def queued_row_def)
  have "ls_status (queued_row ''r'' ''s'' ''b'' ''t'') = Queued"
    by (simp add: queued_row_def INITIAL_RUN_STATUS_def)
  with run_row_history [OF s sample_tables_wf f] show ?thesis by metis
qed

text \<open>
  C3: The lease excludes. On consistent tables taking a lease never fails with an error. While
  a lease is live, neither a claim nor a reclaim takes the run, and an adoption does so only in
  the name of the exact owner; what is refused changes nothing. Once a fence has moved on, or
  its owner has let go, every heartbeat and every write under the old lease is answered with
  lease lost and changes nothing, however the execution continues.
\<close>

theorem lease_excludes:
  assumes "wf_run_tables db" and "find_run db i = Some r" and "run_db_step\<^sup>*\<^sup>* db db'"
  shows "(\<exists>x. fst (acquireRun now db s i fe owner mode opt prev) = Inr x) \<and>
    (deadline_ahead now r \<and> \<not> (mode = Adopt \<and> prev \<noteq> None \<and> prev = ls_leaseOwner r) \<longrightarrow>
       acquireRun now db s i fe owner mode opt prev = (Inr None, db)) \<and>
    (lease_fence l < rw_leaseFence r \<or>
     lease_fence l = rw_leaseFence r \<and> ls_leaseOwner r \<noteq> Some (lease_owner l) \<longrightarrow>
       heartbeatRun now db' s i l stamp = (Inl (LeaseLostError i), db') \<and>
       updateClaimedRun now db' s i l patch = (Inl (LeaseLostError i), db'))"
proof (intro conjI impI)
  show "\<exists>x. fst (acquireRun now db s i fe owner mode opt prev) = Inr x"
    using acquire_none [OF assms(1)] acquire_some(1) [OF assms(1)]
    by (cases "acquirable db now s i fe mode prev") fastforce+
next
  assume a: "deadline_ahead now r \<and> \<not> (mode = Adopt \<and> prev \<noteq> None \<and> prev = ls_leaseOwner r)"
  then have "\<not> availabilityGuard mode now prev r"
    by (cases mode) (auto simp: deadline_ahead_def deadline_passed_def split: option.splits)
  then show "acquireRun now db s i fe owner mode opt prev = (Inr None, db)"
    using assms(2) by (intro acquire_none [OF assms(1)]) (simp add: acquirable_def)
next
  assume l: "lease_fence l < rw_leaseFence r \<or>
     lease_fence l = rw_leaseFence r \<and> ls_leaseOwner r \<noteq> Some (lease_owner l)"
  then have n: "\<not> holds_lease now s i l x" if "x \<in> set (runs db')" for x
    using stale_lease [OF assms(3,1,2) l] that by blast
  show "heartbeatRun now db' s i l stamp = (Inl (LeaseLostError i), db')"
    using n by (rule lost_heartbeat)
  show "updateClaimedRun now db' s i l patch = (Inl (LeaseLostError i), db')"
    using n by (rule lost_write)
qed

theorem lease_excludes_witness:
  "heartbeatRun 120001 reclaimed_tables ''s'' ''r'' \<lparr>lease_owner = ''w1'', lease_fence = 1\<rparr>
     \<lparr>sn_progressed = True, sn_idleSeconds = 0, sn_step = None\<rparr> =
   (Inl (LeaseLostError ''r''), reclaimed_tables)"
proof -
  have "map_option rw_leaseFence (find_run reclaimed_tables ''r'') = Some 2" by code_simp
  then obtain r where r: "find_run reclaimed_tables ''r'' = Some r" "rw_leaseFence r = 2" by blast
  from lease_excludes [OF reclaimed_tables_wf r(1) rtranclp.rtrancl_refl] r(2) show ?thesis by simp
qed

section \<open>Liveness\<close>

lemma note_all_lastProgress:
  "pg_lastProgressAt (note_all p es) =
     last (pg_lastProgressAt p # map fst (filter (\<lambda>(now, e). \<not> is_terminal_event e) es))"
proof (induction es arbitrary: p)
  case (Cons ne es)
  then show ?case by (cases ne) (simp add: note_event_progress)
qed simp

lemma stalled_scan:
  "(i, sp) \<in> set (findStalledRuns now db n limit) \<Longrightarrow>
   \<exists>r \<in> set (runs db). rw_id r = i \<and> rw_spaceId r = sp \<and> stall_candidate now n r"
  by (auto simp: findStalledRuns_def dest!: in_set_takeD)

lemma stall_candidate_stuck:
  assumes "stall_candidate now n r" and "ls_lastHeartbeatAt r \<noteq> None" and "0 \<le> n"
  shows "\<exists>l. assessRunLiveness (run_liveness_snapshot.truncate r) now (of_int n) = Some l \<and> lv_state l = Stuck"
proof -
  obtain t where t: "ls_lastProgressAt r = Some t" "t < now - n * 1000"
    using assms(1) by (auto simp: stall_candidate_def split: option.splits)
  have "n * 1000 < elapsedMs t now" using t(2) assms(3) by (simp add: elapsedMs_def)
  then have "of_int n * 1000 < (of_int (elapsedMs t now) :: rat)"
    by (metis of_int_less_iff of_int_mult of_int_numeral)
  with assms t(1) show ?thesis
    unfolding assess_stuck_iff by (auto simp: stall_candidate_def run_liveness_snapshot.defs)
qed

lemma marked_once:
  assumes "wf_run_tables db" and "fst (markRunStalled now db sp i n) \<noteq> None"
  shows "fst (markRunStalled now' (snd (markRunStalled now db sp i n)) sp i n') = None"
proof -
  let ?P = "\<lambda>r. rw_id r = i \<and> rw_spaceId r = sp \<and> stall_candidate now n r"
    and ?f = "\<lambda>r. r\<lparr>rw_stalledAt := Some now\<rparr>"
  have d: "distinct (map rw_id (runs db))" using assms(1) by (simp add: wf_run_tables_def)
  have "returning ?P ?f (runs db) \<noteq> []" using assms(2) by (auto simp: markRunStalled_def Let_def)
  then obtain x where x: "x \<in> set (runs db)" "?P x" by (auto simp: returning_Nil)
  have "\<not> (rw_id y = i \<and> rw_spaceId y = sp \<and> stall_candidate now' n' y)"
    if y: "y \<in> set (update_where ?P ?f (runs db))" for y
  proof -
    obtain z where z: "z \<in> set (runs db)" "y = (if ?P z then ?f z else z)"
      using y by (auto simp: update_where_set)
    then have "z = x" if "rw_id y = i"
      using that x d by (auto simp: distinct_map inj_on_def split: if_splits)
    then show ?thesis using x z by (auto simp: stall_candidate_def)
  qed
  then show ?thesis by (simp add: markRunStalled_def Let_def returning_Nil [THEN iffD2])
qed

lemma stalled_scan_batch: "findStalledRuns u db n limit = take limit (findStalledRuns u db n (length (runs db)))"
proof -
  have "length (filter (stall_candidate u n) (runs db)) \<le> length (runs db)" by (rule length_filter_le)
  then show ?thesis by (simp add: findStalledRuns_def take_map)
qed

lemma stalled_scan_exact:
  assumes "wf_run_tables db" and "r \<in> set (runs db)"
  shows "(rw_id r, rw_spaceId r) \<in> set (findStalledRuns u db n (length (runs db))) \<longleftrightarrow> stall_candidate u n r"
proof -
  have "length (filter (stall_candidate u n) (runs db)) \<le> length (runs db)" by (rule length_filter_le)
  then have "set (findStalledRuns u db n (length (runs db))) =
      (\<lambda>r. (rw_id r, rw_spaceId r)) ` {r \<in> set (runs db). stall_candidate u n r}"
    by (simp add: findStalledRuns_def)
  moreover have "x = r" if "x \<in> set (runs db)" "rw_id x = rw_id r" for x
    using that assms by (auto simp: wf_run_tables_def distinct_map inj_on_def)
  ultimately show ?thesis using assms(2) by auto
qed

lemma stall_candidate_iff:
  assumes "0 \<le> n" and "ls_lastHeartbeatAt r \<noteq> None"
  shows "stall_candidate u n r \<longleftrightarrow>
    (\<exists>l. assessRunLiveness (run_liveness_snapshot.truncate r) u (of_int n) = Some l \<and> lv_state l = Stuck) \<and>
    deadline_ahead u r \<and> rw_stalledAt r = None"
proof -
  have "(of_int (elapsedMs q u) > (of_int n :: rat) * 1000) \<longleftrightarrow> q < u - n * 1000" for q
  proof -
    have "(of_int (elapsedMs q u) > (of_int n :: rat) * 1000) \<longleftrightarrow> elapsedMs q u > n * 1000"
      by (metis of_int_less_iff of_int_mult of_int_numeral)
    then show ?thesis using assms(1) by (auto simp: elapsedMs_def)
  qed
  then show ?thesis
    using assms(2) by (auto simp: assess_stuck_iff stall_candidate_def run_liveness_snapshot.defs split: option.splits)
qed

text \<open>
  C28: Progress tracking. After any events, the tracked step is consistent: only a working or
  waiting step names a tool, and then it is the tool of the call in flight. The last progress is
  the instant of the last event that does not end the run (or the start of the run). A snapshot
  says progressed exactly if such an event arrived since the snapshot before it. The assessment
  says stuck exactly for a leased, running row that is neither waiting nor stopping and whose
  last progress is older than the threshold. The durable scan for stalled runs agrees with it, in
  milliseconds: of the rows that have a heartbeat it lists exactly those that the assessment calls
  stuck at the same instant, whose lease is ahead and which were not marked before, and a smaller
  batch is the beginning of that list. Of two detectors that mark a run as stalled only the first
  succeeds.
\<close>

theorem progress_tracking:
  "wf_progress (note_all (createRunProgress t) es) \<and>
   pg_lastProgressAt (note_all (createRunProgress t) es) =
     last (t # map fst (filter (\<lambda>(now, e). \<not> is_terminal_event e) es)) \<and>
   (sn_progressed (fst (take_snapshot u (note_all (snd (take_snapshot t' p)) es))) \<longleftrightarrow>
      (\<exists>(now, e) \<in> set es. \<not> is_terminal_event e)) \<and>
   ((\<exists>l. assessRunLiveness s u th = Some l \<and> lv_state l = Stuck) \<longleftrightarrow>
      ls_status s = Running \<and> ls_leaseOwner s \<noteq> None \<and> ls_lastHeartbeatAt s \<noteq> None \<and>
      ls_stopRequestedAt s = None \<and> ls_currentStep s \<noteq> Some Waiting \<and>
      (\<exists>q. ls_lastProgressAt s = Some q \<and> of_int (elapsedMs q u) > th * 1000)) \<and>
   findStalledRuns u db n limit = take limit (findStalledRuns u db n (length (runs db))) \<and>
   (wf_run_tables db \<and> 0 \<le> n \<longrightarrow> (\<forall>r \<in> set (runs db). ls_lastHeartbeatAt r \<noteq> None \<longrightarrow>
      ((rw_id r, rw_spaceId r) \<in> set (findStalledRuns u db n (length (runs db))) \<longleftrightarrow>
         (\<exists>l. assessRunLiveness (run_liveness_snapshot.truncate r) u (of_int n) = Some l \<and> lv_state l = Stuck) \<and>
         deadline_ahead u r \<and> rw_stalledAt r = None))) \<and>
   (wf_run_tables db \<and> fst (markRunStalled u db sp i n) \<noteq> None \<longrightarrow> fst (markRunStalled u' (snd (markRunStalled u db sp i n)) sp i n') = None)"
proof (intro conjI)
  show "wf_progress (note_all (createRunProgress t) es)"
    by (rule note_all_wf [OF createRunProgress_wf])
  show "pg_lastProgressAt (note_all (createRunProgress t) es) =
     last (t # map fst (filter (\<lambda>(now, e). \<not> is_terminal_event e) es))"
    by (subst note_all_lastProgress) (simp only: createRunProgress_def run_progress.simps)
  show "sn_progressed (fst (take_snapshot u (note_all (snd (take_snapshot t' p)) es))) \<longleftrightarrow>
      (\<exists>(now, e) \<in> set es. \<not> is_terminal_event e)"
    by (simp add: take_snapshot_def note_all_progressed)
  show "findStalledRuns u db n limit = take limit (findStalledRuns u db n (length (runs db)))"
    by (rule stalled_scan_batch)
  show "wf_run_tables db \<and> 0 \<le> n \<longrightarrow> (\<forall>r \<in> set (runs db). ls_lastHeartbeatAt r \<noteq> None \<longrightarrow>
      ((rw_id r, rw_spaceId r) \<in> set (findStalledRuns u db n (length (runs db))) \<longleftrightarrow>
         (\<exists>l. assessRunLiveness (run_liveness_snapshot.truncate r) u (of_int n) = Some l \<and> lv_state l = Stuck) \<and>
         deadline_ahead u r \<and> rw_stalledAt r = None))"
    using stalled_scan_exact stall_candidate_iff by blast
  show "wf_run_tables db \<and> fst (markRunStalled u db sp i n) \<noteq> None \<longrightarrow>
      fst (markRunStalled u' (snd (markRunStalled u db sp i n)) sp i n') = None"
    using marked_once by blast
qed (rule assess_stuck_iff)

definition idle_tables :: run_tables where
  "idle_tables = snd (heartbeatRun 100000 claimed_tables ''s'' ''r'' \<lparr>lease_owner = ''w1'', lease_fence = 1\<rparr>
     \<lparr>sn_progressed = False, sn_idleSeconds = 100, sn_step = None\<rparr>)"

theorem progress_tracking_witness:
  "set (findStalledRuns 200000 idle_tables 180 1) = {(''r'', ''s'')} \<and>
   fst (markRunStalled 200001 (snd (markRunStalled 200000 idle_tables ''s'' ''r'' 180)) ''s'' ''r'' 180) = None"
proof -
  have "map_option rw_id (fst (markRunStalled 200000 idle_tables ''s'' ''r'' 180)) = Some ''r''" by code_simp
  then have m: "fst (markRunStalled 200000 idle_tables ''s'' ''r'' 180) \<noteq> None" by auto
  have wf: "wf_run_tables idle_tables"
    unfolding idle_tables_def by (rule step_wf [OF run_db_step.beat claimed_tables_wf])
  let ?r = "hd (runs idle_tables)"
  have r: "length (runs idle_tables) = 1" "rw_id ?r = ''r''" "rw_spaceId ?r = ''s''" "ls_lastHeartbeatAt ?r \<noteq> None"
      "ls_status ?r = Running" "ls_leaseOwner ?r \<noteq> None" "ls_stopRequestedAt ?r = None" "ls_currentStep ?r \<noteq> Some Waiting"
      "ls_lastProgressAt ?r = Some 0" "deadline_ahead 200000 ?r" "rw_stalledAt ?r = None"
    by code_simp+
  have l: "runs idle_tables = [?r]" using r(1) by (cases "runs idle_tables") auto
  note p = progress_tracking [where u = 200000 and u' = 200001 and db = idle_tables and sp = "''s''" and i = "''r''"
        and n = 180 and n' = 180 and limit = 1]
  have "\<exists>l. assessRunLiveness (run_liveness_snapshot.truncate ?r) 200000 (of_int 180) = Some l \<and> lv_state l = Stuck"
    unfolding assess_stuck_iff using r by (simp add: run_liveness_snapshot.defs elapsedMs_def)
  moreover have "(rw_id ?r, rw_spaceId ?r) \<in> set (findStalledRuns 200000 idle_tables 180 (length (runs idle_tables))) \<longleftrightarrow>
      (\<exists>l. assessRunLiveness (run_liveness_snapshot.truncate ?r) 200000 (of_int 180) = Some l \<and> lv_state l = Stuck) \<and>
      deadline_ahead 200000 ?r \<and> rw_stalledAt ?r = None"
    by (rule mp [OF bspec [OF mp [OF p [THEN conjunct2, THEN conjunct2, THEN conjunct2, THEN conjunct2, THEN conjunct2,
            THEN conjunct1] conjI [OF wf]]]])
      (use r(1,4) l in \<open>simp_all add: hd_in_set [of "runs idle_tables"] flip: length_greater_0_conv\<close>)
  ultimately have "(''r'', ''s'') \<in> set (findStalledRuns 200000 idle_tables 180 1)" using r by simp
  moreover have "length (findStalledRuns 200000 idle_tables 180 1) \<le> 1" by (simp add: findStalledRuns_def)
  ultimately have "set (findStalledRuns 200000 idle_tables 180 1) = {(''r'', ''s'')}"
    by (cases "findStalledRuns 200000 idle_tables 180 1") auto
  then show ?thesis
    using mp [OF p [THEN conjunct2, THEN conjunct2, THEN conjunct2, THEN conjunct2, THEN conjunct2, THEN conjunct2]
        conjI [OF wf m]] by simp
qed


section \<open>Tool calls\<close>

text \<open>
  C4: A tool call has its effect at most once. After a call was started, no later attempt
  under the same call id is started again, whatever tool, arguments or space it names and
  however workers, reclaims and settlements interleave; a retry of the same call is answered
  with the claim's state. A settled outcome is final: every later retry replays it. A recorded
  completion replays the JSON form of the result. A reclaim of the run leaves no call in
  flight.
\<close>

theorem tool_call_once:
  assumes "fst (claim_effect redact db s call)" and "wf_run_tables db"
    and "run_db_step\<^sup>*\<^sup>* (snd (claim_effect redact db s call)) db'" and "\<And>v. jsonb_eq v v"
  shows "(\<forall>s' c. tc_runId c = tc_runId call \<and> tc_callId c = tc_callId call \<longrightarrow>
      claim_effect redact db' s' c = (False, db')) \<and>
    (\<exists>a. existing_claim redact jsonb_eq db' s call = Inr a \<and> a \<noteq> Started \<and> a \<noteq> Call_id_reused \<and>
      (a \<noteq> In_flight \<longrightarrow> (\<forall>db''. run_db_step\<^sup>*\<^sup>* db' db'' \<longrightarrow>
         existing_claim redact jsonb_eq db'' s call = Inr a)) \<and>
      (a = In_flight \<longrightarrow> (\<forall>v. ledger_complete db' s call (Json v) =
           (Inr (Outcome_completed (Json v)), snd (ledger_complete db' s call (Json v))) \<and>
         existing_claim redact jsonb_eq (snd (ledger_complete db' s call (Json v))) s call =
           Inr (Settled_completed (Some (json_of v)))))) \<and>
    (\<forall>now fe owner opt r. fst (reclaimRun now db' s (tc_runId call) fe owner opt) = Inr (Some r) \<longrightarrow>
      existing_claim redact jsonb_eq (snd (reclaimRun now db' s (tc_runId call) fe owner opt)) s call \<noteq> Inr In_flight)"
proof -
  let ?i = "tc_runId call" and ?k = "tc_callId call"
  obtain e0 where e0: "find_effect (snd (claim_effect redact db s call)) ?i ?k = Some e0" "claim_of redact s call e0"
    using claim_effect_started [OF assms(1)] by blast
  obtain e where e: "find_effect db' ?i ?k = Some e" "claim_of redact s call e"
    using steps_effect [OF assms(3) e0(1)] claim_of_evolves [OF e0(2)] by blast
  have wf: "wf_run_tables db'" by (rule steps_wf [OF assms(3) claim_effect_wf [OF assms(2) refl]])
  note ex = existing_claim_of [where jsonb_eq = jsonb_eq, OF e assms(4)]
  have once: "claim_effect redact db' s' c = (False, db')" if "tc_runId c = ?i" "tc_callId c = ?k" for s' c
    using that e(1) by (intro claim_effect_taken) simp
  have final: "existing_claim redact jsonb_eq db'' s call = Inr (admitted e)"
    if a: "admitted e \<noteq> In_flight" and st: "run_db_step\<^sup>*\<^sup>* db' db''" for db''
  proof -
    obtain e' where "find_effect db'' ?i ?k = Some e'" "effect_evolves e e'"
      using steps_effect [OF st e(1)] by blast
    with admitted_settled [OF e(2) a] e(2) show ?thesis by (intro existing_claim_of [where jsonb_eq = jsonb_eq, OF _ _ assms(4)]) auto
  qed
  have completes: "ledger_complete db' s call (Json v) =
        (Inr (Outcome_completed (Json v)), snd (ledger_complete db' s call (Json v))) \<and>
      existing_claim redact jsonb_eq (snd (ledger_complete db' s call (Json v))) s call =
        Inr (Settled_completed (Some (json_of v)))"
    if a: "admitted e = In_flight" for v
    using completed_reply [where jsonb_eq = jsonb_eq, OF e _ assms(4)] a admitted_in_flight [OF e(2)] by blast
  have reclaimed: "existing_claim redact jsonb_eq (snd (reclaimRun now db' s ?i fe owner opt)) s call \<noteq> Inr In_flight"
    if rec: "fst (reclaimRun now db' s ?i fe owner opt) = Inr (Some r)" for now fe owner opt r
  proof -
    obtain e' where e': "find_effect (snd (reclaimRun now db' s ?i fe owner opt)) ?i ?k = Some e'"
        "effect_evolves e e'" "ef_status e' \<noteq> E_running"
      using reclaimed_claim [OF wf rec e] by blast
    note c' = claim_of_evolves [OF e(2) e'(2)]
    show ?thesis using existing_claim_of [where jsonb_eq = jsonb_eq, OF e'(1) c' assms(4)] admitted_in_flight [OF c'] e'(3) by simp
  qed
  have "admitted e \<noteq> Started \<and> admitted e \<noteq> Call_id_reused" by (simp add: admitted_def split: effect_status.split)
  with once final completes reclaimed ex show ?thesis by blast
qed

definition sample_call :: tool_call where
  "sample_call = \<lparr>tc_runId = ''r'', tc_callId = ''c'', tc_tool = ''shell'', tc_arguments = JNull\<rparr>"

theorem tool_call_once_witness:
  "claim_effect id (snd (claim_effect id claimed_tables ''s'' sample_call)) ''s'' sample_call =
     (False, snd (claim_effect id claimed_tables ''s'' sample_call))"
proof -
  have "fst (claim_effect id claimed_tables ''s'' sample_call)" by code_simp
  from tool_call_once [OF this claimed_tables_wf rtranclp.rtrancl_refl, of "(=)"] show ?thesis by simp
qed

section \<open>Approvals\<close>

text \<open>
  C6: A gate is resolved exactly once and in time. A vote on an existing gate, with any other
  writers between its statements, always comes back with a resolved record that is what the
  table holds; it counts exactly if the gate was pending before its deadline, and then it
  carries the voter's decision; an approval or denial was made before the deadline and a
  timeout after it. Once a gate is resolved, no execution changes it, and every later vote and
  every later timeout is answered with that same record and does not count.
\<close>

theorem approval_resolved_once:
  assumes "wf_approvals db" and "findApproval db s (vi_runId i) (vi_callId i) = Some a"
    and "fair_writers w" and "now \<le> now'"
  shows "(\<exists>a' applied. fst (approval_decide now now' w w' db s u i) = Inr (a', applied) \<and>
      ap_status a' \<noteq> Pending \<and> wf_gate a' \<and>
      findApproval (snd (approval_decide now now' w w' db s u i)) s (vi_runId i) (vi_callId i) = Some a' \<and>
      (applied \<longleftrightarrow> ap_status a = Pending \<and> now < ap_expiresAt a) \<and>
      (applied \<longrightarrow> ap_status a' = (case vi_vote i of Approve \<Rightarrow> Approved | Deny \<Rightarrow> Denied) \<and>
         ap_decidedBy a' = Some u \<and> ap_decidedAt a' = Some now)) \<and>
    (ap_status a \<noteq> Pending \<longrightarrow> (\<forall>db' v. approval_step\<^sup>*\<^sup>* db db' \<longrightarrow>
      findApproval db' s (vi_runId i) (vi_callId i) = Some a \<and>
      fst (approval_decide now now' w w' db' s v i) = Inr (a, False) \<and>
      fst (resolveTimeout now w db' s (vi_runId i) (vi_callId i)) = Inr a))"
proof
  show "\<exists>a' applied. fst (approval_decide now now' w w' db s u i) = Inr (a', applied) \<and>
      ap_status a' \<noteq> Pending \<and> wf_gate a' \<and>
      findApproval (snd (approval_decide now now' w w' db s u i)) s (vi_runId i) (vi_callId i) = Some a' \<and>
      (applied \<longleftrightarrow> ap_status a = Pending \<and> now < ap_expiresAt a) \<and>
      (applied \<longrightarrow> ap_status a' = (case vi_vote i of Approve \<Rightarrow> Approved | Deny \<Rightarrow> Denied) \<and>
         ap_decidedBy a' = Some u \<and> ap_decidedAt a' = Some now)"
    using decide_resolves [OF assms, of w' u] by (fastforce simp: voted_def)
next
  have "findApproval db' s (vi_runId i) (vi_callId i) = Some a \<and>
      fst (approval_decide now now' w w' db' s v i) = Inr (a, False) \<and>
      fst (resolveTimeout now w db' s (vi_runId i) (vi_callId i)) = Inr a"
    if p: "ap_status a \<noteq> Pending" and st: "approval_step\<^sup>*\<^sup>* db db'" for db' v
  proof -
    have f: "findApproval db' s (vi_runId i) (vi_callId i) = Some a"
      using findApproval_steps [OF st assms(1,2)] gate_final [OF _ p] by blast
    note wf = approval_steps_wf [OF st assms(1)]
    show ?thesis using f resolved_decide [OF wf f p assms(3)] resolved_timeout [OF wf f p assms(3)] by blast
  qed
  then show "ap_status a \<noteq> Pending \<longrightarrow> (\<forall>db' v. approval_step\<^sup>*\<^sup>* db db' \<longrightarrow>
      findApproval db' s (vi_runId i) (vi_callId i) = Some a \<and>
      fst (approval_decide now now' w w' db' s v i) = Inr (a, False) \<and>
      fst (resolveTimeout now w db' s (vi_runId i) (vi_callId i)) = Inr a)" by blast
qed

definition sample_gate :: approval_row where
  "sample_gate = pending_row ''s'' \<lparr>aq_runId = ''r'', aq_callId = ''c'', aq_tool = ''shell'', aq_arguments = JNull,
     aq_expiresAt = 600000\<rparr>"

definition gate_tables :: approval_tables where
  "gate_tables = \<lparr>runs = [], attempts = [], effects = [], approvals = [sample_gate]\<rparr>"

definition sample_vote :: approval_vote_input where
  "sample_vote = \<lparr>vi_runId = ''r'', vi_callId = ''c'', vi_vote = Deny, vi_reason = Some ''no''\<rparr>"

theorem approval_resolved_once_witness:
  "\<exists>a'. fst (approval_decide 600000 600001 id id gate_tables ''s'' ''u'' sample_vote) = Inr (a', False) \<and>
     ap_status a' \<noteq> Pending"
proof -
  have wf: "wf_approvals gate_tables"
    by (simp add: wf_approvals_def gate_tables_def sample_gate_def wf_gate_def pending_row_def)
  have f: "findApproval gate_tables ''s'' (vi_runId sample_vote) (vi_callId sample_vote) = Some sample_gate"
    by (simp add: findApproval_def gate_tables_def sample_gate_def pending_row_def sample_vote_def)
  have w: "fair_writers id" by (simp add: fair_writers_def)
  have "\<not> 600000 < ap_expiresAt sample_gate" by (simp add: sample_gate_def pending_row_def)
  with approval_resolved_once [OF wf f w, of 600000 600001 id "''u''"] show ?thesis by auto
qed

end
