(* ===== verification/Memory_Rules.thy ===== *)
theory Memory_Rules
  imports Prelude
begin

text \<open>
  Durable memory documents (\<open>memory-rules.ts\<close>): the validation of a write or restore request,
  whose fields arrive unchecked and are therefore \<open>js\<close> values, the two decision functions with
  every refusal as an error value, and the life of one document as a step relation over the
  decisions, with the invariant of its revision history.
\<close>

section \<open>Documents, revisions and requests\<close>

datatype memory_kind = Fact | Preference | Decision

datatype memory_origin = Deliberate | Agent_proposed

fun kind_name :: "memory_kind \<Rightarrow> string" where
  "kind_name Fact = ''fact''"
| "kind_name Preference = ''preference''"
| "kind_name Decision = ''decision''"

fun origin_name :: "memory_origin \<Rightarrow> string" where
  "origin_name Deliberate = ''deliberate''"
| "origin_name Agent_proposed = ''agent_proposed''"

definition MEMORY_KINDS :: "memory_kind list" where
  "MEMORY_KINDS = [Fact, Preference, Decision]"

definition MEMORY_WRITE_ORIGINS :: "memory_origin list" where
  "MEMORY_WRITE_ORIGINS = [Deliberate, Agent_proposed]"

definition MAX_MEMORY_TITLE_LENGTH :: nat where "MAX_MEMORY_TITLE_LENGTH = 200"
definition MAX_MEMORY_CONTENT_LENGTH :: nat where "MAX_MEMORY_CONTENT_LENGTH = 8000"
definition MAX_MEMORY_REASON_LENGTH :: nat where "MAX_MEMORY_REASON_LENGTH = 500"
definition MAX_MEMORY_DOCUMENT_ID_LENGTH :: nat where "MAX_MEMORY_DOCUMENT_ID_LENGTH = 200"
definition MAX_MEMORY_DOCUMENTS_PER_BOT :: int where "MAX_MEMORY_DOCUMENTS_PER_BOT = 200"

record memory_document =
  md_documentId :: string
  md_kind :: memory_kind
  md_title :: string
  md_content :: string
  md_revision :: nat

record memory_revision =
  mr_documentId :: string
  mr_revision :: nat
  mr_origin :: memory_origin
  mr_author :: string
  mr_reason :: string
  mr_kind :: memory_kind
  mr_title :: string
  mr_content :: string
  mr_deleted :: bool

text \<open>The three shapes of \<open>MemoryWrite\<close>, and an object whose \<open>action\<close> names none of them.\<close>

datatype memory_write =
    Create (mw_id: js) (mw_kind: js) (mw_title: js) (mw_content: js)
  | Update (mw_id: js) (mw_title: js) (mw_content: js)
  | Delete (mw_id: js)
  | Other_action js

record memory_path =
  rq_origin :: js
  rq_author :: js
  rq_reason :: js

record memory_write_request = memory_path +
  rq_write :: memory_write

record memory_write_context =
  cx_document :: "memory_document option"
  cx_documentCount :: jsnum

record memory_restore_target = memory_document +
  mt_deleted :: bool

record memory_restore_request = memory_path +
  rr_documentId :: js
  rr_revision :: jsnum

record memory_restore_context =
  rc_document :: "memory_restore_target option"
  rc_revision :: "memory_revision option"

datatype memory_rule_error =
    EmptyMemoryTitle
  | MemoryTitleTooLong nat
  | EmptyMemoryContent
  | MemoryContentTooLong nat
  | MissingMemoryDocumentId
  | MemoryDocumentIdTooLong nat
  | MemoryDocumentExists string
  | MissingMemoryAuthor
  | MissingMemoryReason
  | MemoryReasonTooLong nat
  | UnknownMemoryKind js
  | UnknownMemoryOrigin js
  | UnknownMemoryAction js
  | UnknownMemoryDocument string
  | AgentCannotDeleteMemory string
  | UnknownMemoryRevision string jsnum
  | AgentCannotRestoreMemory string
  | MemoryDocumentLimitReached int

datatype memory_write_action = Act_create | Act_update | Act_delete

datatype memory_write_decision =
    Write_revision memory_write_action memory_revision
  | Write_no_change

datatype memory_restore_decision =
    Restore_revision memory_revision
  | Restore_no_change

section \<open>Validation\<close>

text \<open>\<open>isMemoryKind\<close> and \<open>isMemoryWriteOrigin\<close>, returning the member the string names.\<close>

definition isMemoryKind :: "js \<Rightarrow> memory_kind option" where
  "isMemoryKind v = (case v of JStr s \<Rightarrow> find (\<lambda>k. kind_name k = s) MEMORY_KINDS | _ \<Rightarrow> None)"

definition isMemoryWriteOrigin :: "js \<Rightarrow> memory_origin option" where
  "isMemoryWriteOrigin v =
     (case v of JStr s \<Rightarrow> find (\<lambda>k. origin_name k = s) MEMORY_WRITE_ORIGINS | _ \<Rightarrow> None)"

definition validateCommon :: "'a memory_path_scheme \<Rightarrow> memory_rule_error option" where
  "validateCommon q =
     (if isMemoryWriteOrigin (rq_origin q) = None then Some (UnknownMemoryOrigin (rq_origin q))
      else if blank_or_absent (rq_author q) then Some MissingMemoryAuthor
      else if blank_or_absent (rq_reason q) then Some MissingMemoryReason
      else if length (str_of (rq_reason q)) > MAX_MEMORY_REASON_LENGTH
      then Some (MemoryReasonTooLong (length (str_of (rq_reason q))))
      else None)"

definition validateDocumentId :: "js \<Rightarrow> memory_rule_error option" where
  "validateDocumentId v =
     (if blank_or_absent v then Some MissingMemoryDocumentId
      else if length (str_of v) > MAX_MEMORY_DOCUMENT_ID_LENGTH
      then Some (MemoryDocumentIdTooLong (length (str_of v)))
      else None)"

definition validateContent :: "js \<Rightarrow> js \<Rightarrow> memory_rule_error option" where
  "validateContent title content =
     (if blank_or_absent title then Some EmptyMemoryTitle
      else if length (str_of title) > MAX_MEMORY_TITLE_LENGTH
      then Some (MemoryTitleTooLong (length (str_of title)))
      else if blank_or_absent content then Some EmptyMemoryContent
      else if length (str_of content) > MAX_MEMORY_CONTENT_LENGTH
      then Some (MemoryContentTooLong (length (str_of content)))
      else None)"

text \<open>\<open>a ?? b\<close> on an optional error.\<close>

definition orError :: "'e option \<Rightarrow> 'e option \<Rightarrow> 'e option" where
  "orError a b = (case a of None \<Rightarrow> b | Some e \<Rightarrow> Some e)"

fun validateWrite :: "memory_write \<Rightarrow> memory_rule_error option" where
  "validateWrite (Create i k t c) =
     (if isMemoryKind k = None then Some (UnknownMemoryKind k)
      else orError (validateDocumentId i) (validateContent t c))"
| "validateWrite (Update i t c) = orError (validateDocumentId i) (validateContent t c)"
| "validateWrite (Delete i) = validateDocumentId i"
| "validateWrite (Other_action a) = Some (UnknownMemoryAction a)"

definition the_origin :: "js \<Rightarrow> memory_origin" where
  "the_origin v = (case isMemoryWriteOrigin v of Some k \<Rightarrow> k | None \<Rightarrow> Agent_proposed)"

definition the_kind :: "js \<Rightarrow> memory_kind" where
  "the_kind v = (case isMemoryKind v of Some k \<Rightarrow> k | None \<Rightarrow> Fact)"

definition buildRevision ::
  "string \<Rightarrow> nat \<Rightarrow> 'a memory_path_scheme \<Rightarrow> memory_kind \<Rightarrow> string \<Rightarrow> string \<Rightarrow> bool \<Rightarrow>
   memory_revision" where
  "buildRevision documentId revision q kind title content deleted =
     \<lparr>mr_documentId = documentId, mr_revision = revision, mr_origin = the_origin (rq_origin q),
      mr_author = str_of (rq_author q), mr_reason = str_of (rq_reason q), mr_kind = kind,
      mr_title = title, mr_content = content, mr_deleted = deleted\<rparr>"

section \<open>Decisions\<close>

text \<open>
  A write is a \<open>RangeError\<close> (outer \<open>Inl\<close>), a refusal (inner \<open>Inl\<close>) or a decision.
\<close>

definition decideMemoryWrite ::
  "memory_write_request \<Rightarrow> memory_write_context \<Rightarrow>
   range_error + (memory_rule_error + memory_write_decision)" where
  "decideMemoryWrite q cx =
     (if \<not> isSafeInteger (cx_documentCount cx) \<or> to_int (cx_documentCount cx) < 0
      then Inl (RangeError ''documentCount'')
      else Inr (
        case orError (validateCommon q) (validateWrite (rq_write q)) of
          Some e \<Rightarrow> Inl e
        | None \<Rightarrow>
          (case rq_write q of
             Create i k t c \<Rightarrow>
               if cx_document cx \<noteq> None then Inl (MemoryDocumentExists (str_of i))
               else if to_int (cx_documentCount cx) \<ge> MAX_MEMORY_DOCUMENTS_PER_BOT
               then Inl (MemoryDocumentLimitReached (to_int (cx_documentCount cx)))
               else Inr (Write_revision Act_create
                 (buildRevision (str_of i) 1 q (the_kind k) (str_of t) (str_of c) False))
           | Delete i \<Rightarrow>
               if the_origin (rq_origin q) = Agent_proposed then Inl (AgentCannotDeleteMemory (str_of i))
               else (case cx_document cx of
                 None \<Rightarrow> Inl (UnknownMemoryDocument (str_of i))
               | Some d \<Rightarrow> Inr (Write_revision Act_delete
                   (buildRevision (str_of i) (md_revision d + 1) q (md_kind d) (md_title d)
                     (md_content d) True)))
           | Update i t c \<Rightarrow>
               (case cx_document cx of
                 None \<Rightarrow> Inl (UnknownMemoryDocument (str_of i))
               | Some d \<Rightarrow>
                   if md_title d = str_of t \<and> md_content d = str_of c then Inr Write_no_change
                   else Inr (Write_revision Act_update
                     (buildRevision (str_of i) (md_revision d + 1) q (md_kind d) (str_of t)
                       (str_of c) False)))
           | Other_action a \<Rightarrow> Inl (UnknownMemoryAction a))))"

definition validateRestore :: "memory_restore_request \<Rightarrow> memory_rule_error option" where
  "validateRestore q =
     (case orError (validateCommon q) (validateDocumentId (rr_documentId q)) of
        Some e \<Rightarrow> Some e
      | None \<Rightarrow>
          if the_origin (rq_origin q) = Agent_proposed
          then Some (AgentCannotRestoreMemory (str_of (rr_documentId q)))
          else if \<not> isSafeInteger (rr_revision q) \<or> to_int (rr_revision q) < 1
          then Some (UnknownMemoryRevision (str_of (rr_documentId q)) (rr_revision q))
          else None)"

definition decideMemoryRestore ::
  "memory_restore_request \<Rightarrow> memory_restore_context \<Rightarrow>
   memory_rule_error + memory_restore_decision" where
  "decideMemoryRestore q cx =
     (case validateRestore q of
        Some e \<Rightarrow> Inl e
      | None \<Rightarrow>
        (case rc_document cx of
           None \<Rightarrow> Inl (UnknownMemoryDocument (str_of (rr_documentId q)))
         | Some d \<Rightarrow>
           (case rc_revision cx of
              None \<Rightarrow> Inl (UnknownMemoryRevision (str_of (rr_documentId q)) (rr_revision q))
            | Some r \<Rightarrow>
                if mr_documentId r \<noteq> str_of (rr_documentId q) \<or> Fin (of_nat (mr_revision r)) \<noteq> rr_revision q
                then Inl (UnknownMemoryRevision (str_of (rr_documentId q)) (rr_revision q))
                else if \<not> mt_deleted d \<and> md_kind d = mr_kind r \<and> md_title d = mr_title r \<and>
                        md_content d = mr_content r
                then Inr Restore_no_change
                else Inr (Restore_revision
                  (buildRevision (str_of (rr_documentId q)) (md_revision d + 1) q (mr_kind r)
                    (mr_title r) (mr_content r) False)))))"

section \<open>Limits\<close>

definition fits :: "nat \<Rightarrow> string \<Rightarrow> bool" where
  "fits n s = (\<not> is_blank s \<and> length s \<le> n)"

definition wf_revision :: "memory_revision \<Rightarrow> bool" where
  "wf_revision r =
     (1 \<le> mr_revision r \<and> fits MAX_MEMORY_DOCUMENT_ID_LENGTH (mr_documentId r) \<and>
      fits MAX_MEMORY_TITLE_LENGTH (mr_title r) \<and> fits MAX_MEMORY_CONTENT_LENGTH (mr_content r) \<and>
      fits MAX_MEMORY_REASON_LENGTH (mr_reason r) \<and> \<not> is_blank (mr_author r))"

definition wf_document :: "'a memory_document_scheme \<Rightarrow> bool" where
  "wf_document d =
     (1 \<le> md_revision d \<and> fits MAX_MEMORY_TITLE_LENGTH (md_title d) \<and>
      fits MAX_MEMORY_CONTENT_LENGTH (md_content d))"

lemma orError_None [simp]: "orError a b = None \<longleftrightarrow> a = None \<and> b = None"
  by (auto simp: orError_def split: option.splits)

lemma validateCommon_None:
  "validateCommon q = None \<longleftrightarrow>
   isMemoryWriteOrigin (rq_origin q) \<noteq> None \<and> (\<exists>a. rq_author q = JStr a \<and> \<not> is_blank a) \<and>
   (\<exists>x. rq_reason q = JStr x \<and> fits MAX_MEMORY_REASON_LENGTH x)"
  using blank_or_absent_JStr [of "rq_author q"] blank_or_absent_JStr [of "rq_reason q"]
  by (auto simp: validateCommon_def fits_def)

lemma validateDocumentId_None:
  "validateDocumentId v = None \<longleftrightarrow> (\<exists>i. v = JStr i \<and> fits MAX_MEMORY_DOCUMENT_ID_LENGTH i)"
  using blank_or_absent_JStr [of v] by (auto simp: validateDocumentId_def fits_def)

lemma validateContent_None:
  "validateContent t c = None \<longleftrightarrow>
   (\<exists>x. t = JStr x \<and> fits MAX_MEMORY_TITLE_LENGTH x) \<and>
   (\<exists>y. c = JStr y \<and> fits MAX_MEMORY_CONTENT_LENGTH y)"
  using blank_or_absent_JStr [of t] blank_or_absent_JStr [of c]
  by (auto simp: validateContent_def fits_def)

lemmas validation_simps = validateCommon_None validateDocumentId_None validateContent_None

lemma origin_name_inj [simp]: "isMemoryWriteOrigin (JStr (origin_name k)) = Some k"
  by (cases k) (simp_all add: isMemoryWriteOrigin_def MEMORY_WRITE_ORIGINS_def)

lemma the_origin_name [simp]: "the_origin (JStr (origin_name k)) = k"
  by (simp add: the_origin_def)

section \<open>What a decision records\<close>

lemma decideMemoryWrite_revision:
  assumes "decideMemoryWrite q cx = Inr (Inr (Write_revision a r))"
  shows "mr_documentId r = str_of (mw_id (rq_write q))"
    and "mr_revision r = (case cx_document cx of None \<Rightarrow> 1 | Some d \<Rightarrow> md_revision d + 1)"
    and "mr_origin r = the_origin (rq_origin q)"
    and "JStr (mr_author r) = rq_author q" and "JStr (mr_reason r) = rq_reason q"
    and "mr_deleted r \<longleftrightarrow> a = Act_delete"
    and "a = Act_create \<longleftrightarrow> cx_document cx = None"
    and "a = Act_delete \<Longrightarrow> mr_origin r = Deliberate"
    and "(\<And>d. cx_document cx = Some d \<Longrightarrow> wf_document d) \<Longrightarrow> wf_revision r"
  using assms
  by (auto simp: decideMemoryWrite_def buildRevision_def validation_simps wf_revision_def wf_document_def
      split: if_splits option.splits memory_write.splits)
    (metis memory_origin.exhaust)

lemma decideMemoryRestore_revision:
  assumes "decideMemoryRestore q cx = Inr (Restore_revision r)"
  obtains d x where "rc_document cx = Some d" and "rc_revision cx = Some x"
    and "mr_documentId x = str_of (rr_documentId q)" and "rr_revision q = Fin (of_nat (mr_revision x))"
    and "r = buildRevision (mr_documentId x) (md_revision d + 1) q (mr_kind x) (mr_title x) (mr_content x) False"
    and "validateRestore q = None"
  using assms
  by (auto simp: decideMemoryRestore_def split: if_splits option.splits)

lemma validateRestore_None:
  "validateRestore q = None \<longleftrightarrow>
   validateCommon q = None \<and> validateDocumentId (rr_documentId q) = None \<and>
   the_origin (rq_origin q) = Deliberate \<and> isSafeInteger (rr_revision q) \<and> 1 \<le> to_int (rr_revision q)"
  by (cases "the_origin (rq_origin q)"; cases "validateCommon q";
      cases "validateDocumentId (rr_documentId q)") (auto simp: validateRestore_def orError_def)

section \<open>The life of a document\<close>

text \<open>
  The caller persists the revision a decision carries: the row then reads as that revision. A
  tombstoned document is never passed to a write and its id is not minted again, so after a
  deletion only a restore applies.
\<close>

definition row_of :: "memory_revision \<Rightarrow> memory_restore_target" where
  "row_of r = \<lparr>md_documentId = mr_documentId r, md_kind = mr_kind r, md_title = mr_title r,
               md_content = mr_content r, md_revision = mr_revision r, mt_deleted = mr_deleted r\<rparr>"

definition live_row :: "memory_restore_target \<Rightarrow> memory_document option" where
  "live_row d = (if mt_deleted d then None else Some (memory_document.truncate d))"

inductive memory_step ::
  "string \<Rightarrow> memory_revision list \<Rightarrow> memory_revision list \<Rightarrow> bool" where
  first_write:
    "decideMemoryWrite q \<lparr>cx_document = None, cx_documentCount = n\<rparr> = Inr (Inr (Write_revision a r)) \<Longrightarrow>
     mw_id (rq_write q) = JStr i \<Longrightarrow> memory_step i [] [r]"
| later_write:
    "h \<noteq> [] \<Longrightarrow> live_row (row_of (last h)) = Some d \<Longrightarrow>
     decideMemoryWrite q \<lparr>cx_document = Some d, cx_documentCount = n\<rparr> = Inr (Inr (Write_revision a r)) \<Longrightarrow>
     mw_id (rq_write q) = JStr i \<Longrightarrow> memory_step i h (h @ [r])"
| restore:
    "h \<noteq> [] \<Longrightarrow> x \<in> set h \<Longrightarrow>
     decideMemoryRestore q \<lparr>rc_document = Some (row_of (last h)), rc_revision = Some x\<rparr> =
       Inr (Restore_revision r) \<Longrightarrow>
     rr_documentId q = JStr i \<Longrightarrow> memory_step i h (h @ [r])"

inductive_cases memory_stepE: "memory_step i h h'"

definition wf_history :: "string \<Rightarrow> memory_revision list \<Rightarrow> bool" where
  "wf_history i h =
     (map mr_revision h = [1..<Suc (length h)] \<and>
      list_all (\<lambda>r. mr_documentId r = i \<and> wf_revision r \<and>
                    (mr_deleted r \<longrightarrow> mr_origin r = Deliberate)) h)"

lemma live_row_wf: "live_row (row_of r) = Some d \<Longrightarrow> wf_revision r \<Longrightarrow>
    wf_document d \<and> md_revision d = mr_revision r"
  by (auto simp: live_row_def row_of_def wf_revision_def wf_document_def memory_document.defs
      split: if_splits)

lemma wf_history_last:
  assumes "wf_history i h" and "h \<noteq> []"
  shows "wf_revision (last h)" and "mr_revision (last h) = length h"
proof -
  show "wf_revision (last h)" using assms by (auto simp: wf_history_def list_all_iff)
  have "map mr_revision h ! (length h - 1) = [1..<Suc (length h)] ! (length h - 1)"
    using assms(1) by (simp add: wf_history_def)
  then show "mr_revision (last h) = length h" using assms(2) by (simp add: last_conv_nth del: upt_Suc)
qed

lemma wf_history_snoc:
  assumes "wf_history i h" and "mr_revision r = Suc (length h)" and "mr_documentId r = i"
    and "wf_revision r" and "mr_deleted r \<Longrightarrow> mr_origin r = Deliberate"
  shows "wf_history i (h @ [r])"
  using assms by (simp add: wf_history_def)

lemma memory_step_wf:
  assumes "memory_step i h h'" and "wf_history i h"
  shows "wf_history i h'"
  using assms
proof cases
  case (first_write q n a r)
  note r = decideMemoryWrite_revision [OF first_write(3)]
  have "mr_documentId r = i" using r(1) first_write(4) by simp
  moreover have "wf_revision r" by (rule r(9)) simp
  moreover have "mr_deleted r \<Longrightarrow> mr_origin r = Deliberate" using r(6,8) by simp
  ultimately show ?thesis using r(2) first_write by (simp add: wf_history_def)
next
  case (later_write d q n a r)
  note r = decideMemoryWrite_revision [OF later_write(4)] and l = wf_history_last [OF assms(2) later_write(2)]
  note d = live_row_wf [OF later_write(3) l(1)]
  have "wf_history i (h @ [r])"
  proof (rule wf_history_snoc [OF assms(2)])
    show "mr_revision r = Suc (length h)" using r(2) d l(2) by simp
    show "mr_documentId r = i" using r(1) later_write(5) by simp
    show "wf_revision r" by (rule r(9)) (use d in auto)
    show "mr_deleted r \<Longrightarrow> mr_origin r = Deliberate" using r(6,8) by simp
  qed
  then show ?thesis using later_write(1) by simp
next
  case (restore x q r)
  obtain d y where y: "Some (row_of (last h)) = Some d" "Some x = Some y"
    and r: "r = buildRevision (mr_documentId y) (md_revision d + 1) q (mr_kind y) (mr_title y) (mr_content y) False"
    and v: "validateRestore q = None"
    using decideMemoryRestore_revision [OF restore(4)] by (metis memory_restore_context.select_convs)
  have x: "mr_documentId x = i \<and> wf_revision x"
    using restore(3) assms(2) by (auto simp: wf_history_def list_all_iff)
  have "wf_history i (h @ [r])"
  proof (rule wf_history_snoc [OF assms(2)])
    show "mr_revision r = Suc (length h)"
      using y r wf_history_last(2) [OF assms(2) restore(2)] by (auto simp: buildRevision_def row_of_def)
    show "wf_revision r"
      using x y r v
      by (auto simp: buildRevision_def wf_revision_def validateRestore_None validation_simps)
  qed (use x y r in \<open>auto simp: buildRevision_def\<close>)
  then show ?thesis using restore(1) by simp
qed

lemma memory_steps_wf: "(memory_step i)\<^sup>*\<^sup>* [] h \<Longrightarrow> wf_history i h"
  by (induction rule: rtranclp_induct) (auto simp: wf_history_def [of i "[]"] intro: memory_step_wf)

lemma memory_step_append: "memory_step i h h' \<Longrightarrow> \<exists>r. h' = h @ [r]"
  by (auto elim: memory_stepE)

text \<open>Undoing a deletion: the operator's restore of the tombstone is the document as it was.\<close>

lemma restore_after_delete:
  assumes "decideMemoryWrite q \<lparr>cx_document = Some d, cx_documentCount = n\<rparr> =
             Inr (Inr (Write_revision Act_delete r))"
    and "validateRestore q' = None" and "rr_documentId q' = JStr (mr_documentId r)"
    and "rr_revision q' = Fin (of_nat (mr_revision r))"
  shows "\<exists>r'. decideMemoryRestore q' \<lparr>rc_document = Some (row_of r), rc_revision = Some r\<rparr> =
              Inr (Restore_revision r') \<and> mr_revision r' = md_revision d + 2 \<and>
            \<not> mr_deleted r' \<and> mr_kind r' = md_kind d \<and> mr_title r' = md_title d \<and>
            mr_content r' = md_content d"
proof -
  from assms(1) have "mr_deleted r" "mr_revision r = md_revision d + 1" "mr_kind r = md_kind d"
    "mr_title r = md_title d" "mr_content r = md_content d"
    by (auto simp: decideMemoryWrite_def buildRevision_def
        split: if_splits option.splits memory_write.splits)
  with assms(2-4) show ?thesis
    by (auto simp: decideMemoryRestore_def row_of_def buildRevision_def)
qed

end
