(* ===== verification/Memory_Store.thy ===== *)
theory Memory_Store
  imports Memory_Rules
begin

text \<open>
  The durable half of memory, \<open>packages/db/src/memory-store.ts\<close>: the two tables as lists of
  rows, each SQL statement as a function on them, and the write and restore paths as a
  context read, a decision of the memory rules and one atomic statement. Timestamps are left
  out: no decision reads them. A concurrent execution is a sequence of statements, each
  preceded by a decision on an arbitrary, possibly stale, context.
\<close>

section \<open>Tables\<close>

record document_row = memory_restore_target +
  dr_spaceId :: string
  dr_botId :: string

record revision_row = memory_revision +
  rv_spaceId :: string
  rv_botId :: string

record memory_tables =
  bot_rows :: "(string \<times> string) list"
  document_rows :: "document_row list"
  revision_rows :: "revision_row list"

record memory_scope =
  sc_spaceId :: string
  sc_botId :: string

record write_options = memory_scope +
  wo_origin :: memory_origin
  wo_author :: string
  wo_reason :: js
  wo_write :: memory_write

record restore_options = memory_scope +
  ro_documentId :: string
  ro_revision :: jsnum
  ro_origin :: memory_origin
  ro_author :: string
  ro_reason :: js

datatype store_error = Bot_not_found string | Count_out_of_range

datatype write_outcome =
    Stored memory_write_action memory_revision
  | Restored memory_revision
  | Unchanged
  | Refused memory_rule_error

section \<open>Statements\<close>

definition in_document :: "string \<Rightarrow> string \<Rightarrow> string \<Rightarrow> document_row \<Rightarrow> bool" where
  "in_document s b i d = (dr_spaceId d = s \<and> dr_botId d = b \<and> md_documentId d = i)"

definition toDocument :: "document_row \<Rightarrow> memory_document" where
  "toDocument d = \<lparr>md_documentId = md_documentId d, md_kind = md_kind d, md_title = md_title d,
                   md_content = md_content d, md_revision = md_revision d\<rparr>"

definition toTarget :: "document_row \<Rightarrow> memory_restore_target" where
  "toTarget d = \<lparr>md_documentId = md_documentId d, md_kind = md_kind d, md_title = md_title d,
                 md_content = md_content d, md_revision = md_revision d, mt_deleted = mt_deleted d\<rparr>"

definition toRevision :: "revision_row \<Rightarrow> memory_revision" where
  "toRevision r = \<lparr>mr_documentId = mr_documentId r, mr_revision = mr_revision r, mr_origin = mr_origin r,
                   mr_author = mr_author r, mr_reason = mr_reason r, mr_kind = mr_kind r,
                   mr_title = mr_title r, mr_content = mr_content r, mr_deleted = mr_deleted r\<rparr>"

definition findDocumentRow :: "memory_tables \<Rightarrow> string \<Rightarrow> string \<Rightarrow> string \<Rightarrow> document_row option" where
  "findDocumentRow db s b i = find (in_document s b i) (document_rows db)"

definition findLiveDocument :: "memory_tables \<Rightarrow> string \<Rightarrow> string \<Rightarrow> string \<Rightarrow> document_row option" where
  "findLiveDocument db s b i = find (\<lambda>d. in_document s b i d \<and> \<not> mt_deleted d) (document_rows db)"

definition findRevision ::
  "memory_tables \<Rightarrow> string \<Rightarrow> string \<Rightarrow> string \<Rightarrow> jsnum \<Rightarrow> memory_revision option" where
  "findRevision db s b i n =
     map_option toRevision (find (\<lambda>r. rv_spaceId r = s \<and> rv_botId r = b \<and> mr_documentId r = i \<and>
       Fin (of_nat (mr_revision r)) = n) (revision_rows db))"

definition liveDocumentCount :: "memory_tables \<Rightarrow> string \<Rightarrow> string \<Rightarrow> nat" where
  "liveDocumentCount db s b =
     length (filter (\<lambda>d. dr_spaceId d = s \<and> dr_botId d = b \<and> \<not> mt_deleted d) (document_rows db))"

definition listDocuments :: "memory_tables \<Rightarrow> string \<Rightarrow> string \<Rightarrow> memory_document list" where
  "listDocuments db s b =
     map toDocument (filter (\<lambda>d. dr_spaceId d = s \<and> dr_botId d = b \<and> \<not> mt_deleted d) (document_rows db))"

definition listRevisions :: "memory_tables \<Rightarrow> string \<Rightarrow> string \<Rightarrow> string \<Rightarrow> memory_revision list" where
  "listRevisions db s b i =
     sort_key mr_revision (map toRevision (filter (\<lambda>r. rv_spaceId r = s \<and> rv_botId r = b \<and>
       mr_documentId r = i) (revision_rows db)))"

definition botInScope :: "memory_tables \<Rightarrow> string \<Rightarrow> string \<Rightarrow> bool" where
  "botInScope db s b = ((b, s) \<in> set (bot_rows db))"

text \<open>
  \<open>with x as (update memory_document set f where P returning ..) insert into memory_revision
  select mk .. from x returning ..\<close>, one atomic statement.
\<close>

definition update_returning ::
  "(document_row \<Rightarrow> bool) \<Rightarrow> (document_row \<Rightarrow> document_row) \<Rightarrow> (document_row \<Rightarrow> revision_row) \<Rightarrow>
   memory_tables \<Rightarrow> memory_tables \<times> revision_row list" where
  "update_returning P f mk db =
     (let rows = map (\<lambda>d. mk (f d)) (filter P (document_rows db)) in
      (db\<lparr>document_rows := map (\<lambda>d. if P d then f d else d) (document_rows db),
          revision_rows := revision_rows db @ rows\<rparr>, rows))"

definition revision_of ::
  "'a memory_scope_scheme \<Rightarrow> memory_origin \<Rightarrow> string \<Rightarrow> string \<Rightarrow> bool \<Rightarrow> 'b memory_document_scheme \<Rightarrow>
   revision_row" where
  "revision_of sc origin author reason deleted d =
     \<lparr>mr_documentId = md_documentId d, mr_revision = md_revision d, mr_origin = origin,
      mr_author = author, mr_reason = reason, mr_kind = md_kind d, mr_title = md_title d,
      mr_content = md_content d, mr_deleted = deleted,
      rv_spaceId = sc_spaceId sc, rv_botId = sc_botId sc\<rparr>"

type_synonym store_result = "(store_error + write_outcome) \<times> memory_tables"

definition createDocument ::
  "memory_tables \<Rightarrow> write_options \<Rightarrow> string \<Rightarrow> memory_kind \<Rightarrow> string \<Rightarrow> string \<Rightarrow> store_result" where
  "createDocument db o' i k t c =
     (let s = sc_spaceId o'; b = sc_botId o';
          row = \<lparr>md_documentId = i, md_kind = k, md_title = t, md_content = c, md_revision = 1,
                 mt_deleted = False, dr_spaceId = s, dr_botId = b\<rparr>;
          rev = revision_of o' (wo_origin o') (wo_author o') (str_of (wo_reason o')) False row
      in if botInScope db s b \<and>
            \<not> list_ex (\<lambda>d. dr_botId d = b \<and> md_documentId d = i) (document_rows db)
         then (Inr (Stored Act_create (toRevision rev)),
               db\<lparr>document_rows := document_rows db @ [row], revision_rows := revision_rows db @ [rev]\<rparr>)
         else if \<not> botInScope db s b then (Inl (Bot_not_found b), db)
         else (Inr (Refused (MemoryDocumentExists i)), db))"

definition reviseDocument ::
  "memory_tables \<Rightarrow> write_options \<Rightarrow> string \<Rightarrow> string \<Rightarrow> string \<Rightarrow> store_result" where
  "reviseDocument db o' i t c =
     (case update_returning
        (\<lambda>d. in_document (sc_spaceId o') (sc_botId o') i d \<and> \<not> mt_deleted d)
        (\<lambda>d. d\<lparr>md_title := t, md_content := c, md_revision := md_revision d + 1\<rparr>)
        (revision_of o' (wo_origin o') (wo_author o') (str_of (wo_reason o')) False) db of
        (db', []) \<Rightarrow> (Inr (Refused (UnknownMemoryDocument i)), db')
      | (db', r # _) \<Rightarrow> (Inr (Stored Act_update (toRevision r)), db'))"

definition tombstoneDocument :: "memory_tables \<Rightarrow> write_options \<Rightarrow> string \<Rightarrow> store_result" where
  "tombstoneDocument db o' i =
     (case update_returning
        (\<lambda>d. in_document (sc_spaceId o') (sc_botId o') i d \<and> \<not> mt_deleted d)
        (\<lambda>d. d\<lparr>md_revision := md_revision d + 1, mt_deleted := True\<rparr>)
        (revision_of o' (wo_origin o') (wo_author o') (str_of (wo_reason o')) True) db of
        (db', []) \<Rightarrow> (Inr (Refused (UnknownMemoryDocument i)), db')
      | (db', r # _) \<Rightarrow> (Inr (Stored Act_delete (toRevision r)), db'))"

section \<open>The write path\<close>

definition write_request :: "write_options \<Rightarrow> memory_write_request" where
  "write_request o' =
     \<lparr>rq_origin = JStr (origin_name (wo_origin o')), rq_author = JStr (wo_author o'),
      rq_reason = wo_reason o', rq_write = wo_write o'\<rparr>"

definition write_context :: "memory_tables \<Rightarrow> write_options \<Rightarrow> memory_write_context" where
  "write_context db o' =
     \<lparr>cx_document = map_option toDocument
        (findLiveDocument db (sc_spaceId o') (sc_botId o') (str_of (mw_id (wo_write o')))),
      cx_documentCount = Fin (of_nat (liveDocumentCount db (sc_spaceId o') (sc_botId o')))\<rparr>"

fun persist_write :: "memory_tables \<Rightarrow> write_options \<Rightarrow> memory_write \<Rightarrow> store_result" where
  "persist_write db o' (Create i k t c) =
     createDocument db o' (str_of i) (the_kind k) (str_of t) (str_of c)"
| "persist_write db o' (Delete i) = tombstoneDocument db o' (str_of i)"
| "persist_write db o' (Update i t c) = reviseDocument db o' (str_of i) (str_of t) (str_of c)"
| "persist_write db o' (Other_action a) = (Inr (Refused (UnknownMemoryAction a)), db)"

definition write_decided :: "memory_tables \<Rightarrow> write_options \<Rightarrow> memory_write_context \<Rightarrow> store_result" where
  "write_decided db o' cx =
     (case decideMemoryWrite (write_request o') cx of
        Inl _ \<Rightarrow> (Inl Count_out_of_range, db)
      | Inr (Inl e) \<Rightarrow> (Inr (Refused e), db)
      | Inr (Inr Write_no_change) \<Rightarrow> (Inr Unchanged, db)
      | Inr (Inr (Write_revision a r)) \<Rightarrow> persist_write db o' (wo_write o'))"

definition applyWrite :: "memory_tables \<Rightarrow> write_options \<Rightarrow> store_result" where
  "applyWrite db o' = write_decided db o' (write_context db o')"

section \<open>The restore path\<close>

definition restore_request :: "restore_options \<Rightarrow> memory_restore_request" where
  "restore_request o' =
     \<lparr>rq_origin = JStr (origin_name (ro_origin o')), rq_author = JStr (ro_author o'),
      rq_reason = ro_reason o', rr_documentId = JStr (ro_documentId o'), rr_revision = ro_revision o'\<rparr>"

definition restore_context :: "memory_tables \<Rightarrow> restore_options \<Rightarrow> memory_restore_context" where
  "restore_context db o' =
     \<lparr>rc_document = map_option toTarget
        (findDocumentRow db (sc_spaceId o') (sc_botId o') (ro_documentId o')),
      rc_revision = findRevision db (sc_spaceId o') (sc_botId o') (ro_documentId o') (ro_revision o')\<rparr>"

definition restore_statement :: "memory_tables \<Rightarrow> restore_options \<Rightarrow> store_result" where
  "restore_statement db o' =
     (case findRevision db (sc_spaceId o') (sc_botId o') (ro_documentId o') (ro_revision o') of
        None \<Rightarrow> (Inr (Refused (UnknownMemoryRevision (ro_documentId o') (ro_revision o'))), db)
      | Some t \<Rightarrow>
          (case update_returning (in_document (sc_spaceId o') (sc_botId o') (ro_documentId o'))
             (\<lambda>d. d\<lparr>md_kind := mr_kind t, md_title := mr_title t, md_content := mr_content t,
                    md_revision := md_revision d + 1, mt_deleted := False\<rparr>)
             (revision_of o' (ro_origin o') (ro_author o') (str_of (ro_reason o')) False) db of
             (db', []) \<Rightarrow> (Inr (Refused (UnknownMemoryRevision (ro_documentId o') (ro_revision o'))), db')
           | (db', r # _) \<Rightarrow> (Inr (Restored (toRevision r)), db')))"

definition restore_decided :: "memory_tables \<Rightarrow> restore_options \<Rightarrow> memory_restore_context \<Rightarrow> store_result" where
  "restore_decided db o' cx =
     (case decideMemoryRestore (restore_request o') cx of
        Inl e \<Rightarrow> (Inr (Refused e), db)
      | Inr Restore_no_change \<Rightarrow> (Inr Unchanged, db)
      | Inr (Restore_revision r) \<Rightarrow> restore_statement db o')"

definition restoreRevision :: "memory_tables \<Rightarrow> restore_options \<Rightarrow> store_result" where
  "restoreRevision db o' = restore_decided db o' (restore_context db o')"

section \<open>Concurrent executions\<close>

inductive store_step :: "memory_tables \<Rightarrow> memory_tables \<Rightarrow> bool" where
  write_step: "store_step db (snd (write_decided db o' cx))"
| restore_step: "store_step db (snd (restore_decided db o' cx))"

inductive_cases store_stepE: "store_step db db'"

section \<open>The tables' invariant\<close>

definition revisions_of :: "memory_tables \<Rightarrow> string \<Rightarrow> string \<Rightarrow> memory_revision list" where
  "revisions_of db b i =
     map toRevision (filter (\<lambda>r. rv_botId r = b \<and> mr_documentId r = i) (revision_rows db))"

definition row_for :: "memory_tables \<Rightarrow> string \<Rightarrow> string \<Rightarrow> document_row option" where
  "row_for db b i = find (\<lambda>d. dr_botId d = b \<and> md_documentId d = i) (document_rows db)"

text \<open>A document row is the state its last recorded revision left.\<close>

definition row_matches :: "memory_tables \<Rightarrow> string \<Rightarrow> string \<Rightarrow> bool" where
  "row_matches db b i =
     (case row_for db b i of
        None \<Rightarrow> revisions_of db b i = []
      | Some d \<Rightarrow> revisions_of db b i \<noteq> [] \<and> toTarget d = row_of (last (revisions_of db b i)))"

definition wf_tables :: "memory_tables \<Rightarrow> bool" where
  "wf_tables db =
     (distinct (map fst (bot_rows db)) \<and>
      distinct (map (\<lambda>d. (dr_botId d, md_documentId d)) (document_rows db)) \<and>
      list_all (\<lambda>d. (dr_botId d, dr_spaceId d) \<in> set (bot_rows db)) (document_rows db) \<and>
      list_all (\<lambda>r. (rv_botId r, rv_spaceId r) \<in> set (bot_rows db)) (revision_rows db) \<and>
      (\<forall>b i. wf_history i (revisions_of db b i) \<and> row_matches db b i))"

lemma wf_tablesD:
  assumes "wf_tables db"
  shows "distinct (map (\<lambda>d. (dr_botId d, md_documentId d)) (document_rows db))"
    and "wf_history i (revisions_of db b i)" and "row_matches db b i"
  using assms by (simp_all add: wf_tables_def)

lemma toRevision_fields [simp]:
  "mr_documentId (toRevision r) = mr_documentId r" "mr_revision (toRevision r) = mr_revision r"
  "mr_origin (toRevision r) = mr_origin r" "mr_author (toRevision r) = mr_author r"
  "mr_reason (toRevision r) = mr_reason r" "mr_kind (toRevision r) = mr_kind r"
  "mr_title (toRevision r) = mr_title r" "mr_content (toRevision r) = mr_content r"
  "mr_deleted (toRevision r) = mr_deleted r"
  by (simp_all add: toRevision_def)

lemma revision_of_fields [simp]:
  "mr_documentId (revision_of sc g a x del d) = md_documentId d"
  "mr_revision (revision_of sc g a x del d) = md_revision d"
  "mr_origin (revision_of sc g a x del d) = g" "mr_author (revision_of sc g a x del d) = a"
  "mr_reason (revision_of sc g a x del d) = x" "mr_kind (revision_of sc g a x del d) = md_kind d"
  "mr_title (revision_of sc g a x del d) = md_title d"
  "mr_content (revision_of sc g a x del d) = md_content d"
  "mr_deleted (revision_of sc g a x del d) = del"
  "rv_spaceId (revision_of sc g a x del d) = sc_spaceId sc"
  "rv_botId (revision_of sc g a x del d) = sc_botId sc"
  by (simp_all add: revision_of_def)

lemma toTarget_eq: "toTarget d = row_of r \<longleftrightarrow>
    md_documentId d = mr_documentId r \<and> md_kind d = mr_kind r \<and> md_title d = mr_title r \<and>
    md_content d = mr_content r \<and> md_revision d = mr_revision r \<and> mt_deleted d = mr_deleted r"
  by (simp add: toTarget_def row_of_def)

lemma row_for_Some:
  assumes "wf_tables db" and "d \<in> set (document_rows db)"
  shows "row_for db (dr_botId d) (md_documentId d) = Some d"
  using find_key_distinct [OF wf_tablesD(1) [OF assms(1)] assms(2)] by (simp add: row_for_def)

text \<open>What a row of well-formed tables carries, through its last revision.\<close>

lemma row_history:
  assumes "wf_tables db" and "d \<in> set (document_rows db)"
  shows "revisions_of db (dr_botId d) (md_documentId d) \<noteq> []"
    and "toTarget d = row_of (last (revisions_of db (dr_botId d) (md_documentId d)))"
    and "md_revision d = length (revisions_of db (dr_botId d) (md_documentId d))"
    and "wf_document d" and "fits MAX_MEMORY_DOCUMENT_ID_LENGTH (md_documentId d)"
proof -
  let ?h = "revisions_of db (dr_botId d) (md_documentId d)"
  note m = wf_tablesD(3) [OF assms(1), of "dr_botId d" "md_documentId d"]
  show h: "?h \<noteq> []" and t: "toTarget d = row_of (last ?h)"
    using m row_for_Some [OF assms] by (simp_all add: row_matches_def)
  note l = wf_history_last [OF wf_tablesD(2) [OF assms(1)] h]
  show "md_revision d = length ?h" using t l(2) by (simp add: toTarget_eq)
  show "wf_document d" "fits MAX_MEMORY_DOCUMENT_ID_LENGTH (md_documentId d)"
    using t l(1) by (auto simp: toTarget_eq wf_revision_def wf_document_def)
qed

lemma filter_unique:
  assumes "distinct (map key xs)" and "x \<in> set xs" and "P x" and "\<And>y. P y \<Longrightarrow> key y = key x"
  shows "filter P xs = [x]"
  using assms(1,2)
proof (induction xs)
  case (Cons y ys)
  show ?case
  proof (cases "y = x")
    case True
    have "\<not> P z" if "z \<in> set ys" for z
    proof -
      have "key z \<in> key ` set ys" using that by simp
      with True Cons.prems(1) assms(4) [of z] show ?thesis by (metis distinct.simps(2) list.simps(9) list.set_map)
    qed
    with True assms(3) show ?thesis by simp
  next
    case False
    with Cons.prems have "x \<in> set ys" "key y \<noteq> key x" by auto
    with Cons assms(4) [of y] show ?thesis by auto
  qed
qed simp

text \<open>One guarded update of a single document, with its revision, keeps the invariant.\<close>

lemma update_returning_rows:
  "document_rows (fst (update_returning P f mk db)) = map (\<lambda>d. if P d then f d else d) (document_rows db)"
  by (simp add: update_returning_def Let_def)

lemma update_none: "filter P (document_rows db) = [] \<Longrightarrow> update_returning P f mk db = (db, [])"
  by (simp add: update_returning_def filter_empty_conv map_idI)

lemma find_updated_row:
  assumes "\<And>x. P x \<Longrightarrow> Q (f x) = Q x"
  shows "find Q (map (\<lambda>x. if P x then f x else x) xs) =
    map_option (\<lambda>x. if P x then f x else x) (find Q xs)"
  using assms by (induction xs) auto

lemma update_one:
  assumes wf: "wf_tables db" and d: "d \<in> set (document_rows db)" "P d"
    and P: "\<And>y. P y \<Longrightarrow> dr_botId y = b \<and> md_documentId y = i"
    and f: "\<And>y. P y \<Longrightarrow> md_documentId (f y) = md_documentId y \<and> dr_botId (f y) = dr_botId y"
    and mk: "rv_botId (mk (f d)) = b" "mr_documentId (mk (f d)) = i"
    and db': "db' = fst (update_returning P f mk db)"
  shows "bot_rows db' = bot_rows db"
    and "document_rows db' = map (\<lambda>y. if P y then f y else y) (document_rows db)"
    and "revision_rows db' = revision_rows db @ [mk (f d)]"
    and "revisions_of db' c j =
      (if c = b \<and> j = i then revisions_of db c j @ [toRevision (mk (f d))] else revisions_of db c j)"
    and "row_for db' c j = (if c = b \<and> j = i then Some (f d) else row_for db c j)"
proof -
  have "filter P (document_rows db) = [d]"
    using filter_unique [where P = P, OF wf_tablesD(1) [OF wf] d] P d(2) by auto
  then show "bot_rows db' = bot_rows db"
    and docs: "document_rows db' = map (\<lambda>y. if P y then f y else y) (document_rows db)"
    and revs: "revision_rows db' = revision_rows db @ [mk (f d)]"
    by (simp_all add: update_returning_def db' Let_def)
  show "revisions_of db' c j =
      (if c = b \<and> j = i then revisions_of db c j @ [toRevision (mk (f d))] else revisions_of db c j)"
    using mk by (auto simp: revisions_of_def revs)
  have "row_for db' c j = map_option (\<lambda>y. if P y then f y else y) (row_for db c j)"
    unfolding row_for_def docs using f by (intro find_updated_row) auto
  moreover have "row_for db b i = Some d" using row_for_Some [OF wf d(1)] P [OF d(2)] by simp
  moreover have "\<not> P y" if "row_for db c j = Some y" "\<not> (c = b \<and> j = i)" for y
    using that P [of y] by (auto simp: row_for_def find_Some_iff)
  ultimately show "row_for db' c j = (if c = b \<and> j = i then Some (f d) else row_for db c j)"
    using d(2) by (auto split: if_splits) (cases "row_for db c j"; simp)+
qed

lemma find_append_option:
  "find P (xs @ ys) = (case find P xs of None \<Rightarrow> find P ys | Some x \<Rightarrow> Some x)"
  by (induction xs) auto

lemma update_wf:
  assumes wf: "wf_tables db"
    and P: "\<And>d. P d \<Longrightarrow> in_document (sc_spaceId sc) (sc_botId sc) i d"
    and f: "\<And>d. P d \<Longrightarrow> md_documentId (f d) = md_documentId d \<and> dr_spaceId (f d) = dr_spaceId d \<and>
      dr_botId (f d) = dr_botId d \<and> md_revision (f d) = md_revision d + 1 \<and> mt_deleted (f d) = del"
    and ok: "\<And>d. P d \<Longrightarrow> wf_document d \<Longrightarrow> wf_document (f d)"
    and path: "fits MAX_MEMORY_REASON_LENGTH x" "\<not> is_blank a" "del \<Longrightarrow> g = Deliberate"
  shows "wf_tables (fst (update_returning P f (revision_of sc g a x del) db))" (is "wf_tables ?db")
proof (cases "filter P (document_rows db) = []")
  case True
  with wf show ?thesis by (simp add: update_none)
next
  case False
  let ?b = "sc_botId sc" and ?mk = "revision_of sc g a x del"
  obtain d where d: "d \<in> set (document_rows db)" "P d" using False by (auto simp: filter_empty_conv)
  have key: "dr_botId y = ?b \<and> md_documentId y = i" if "P y" for y
    using P [OF that] by (simp add: in_document_def)
  have u: "bot_rows ?db = bot_rows db"
    "document_rows ?db = map (\<lambda>y. if P y then f y else y) (document_rows db)"
    "revision_rows ?db = revision_rows db @ [?mk (f d)]"
    "revisions_of ?db c j =
      (if c = ?b \<and> j = i then revisions_of db c j @ [toRevision (?mk (f d))] else revisions_of db c j)"
    "row_for ?db c j = (if c = ?b \<and> j = i then Some (f d) else row_for db c j)" for c j
    by (rule update_one [where P = P and f = f and mk = ?mk, OF wf d]; use f key d(2) in auto)+
  note h = row_history [OF wf d(1), unfolded key [OF d(2), THEN conjunct1]
      key [OF d(2), THEN conjunct2]]
  note fd = f [OF d(2)]
  have "wf_history i (revisions_of db ?b i @ [toRevision (?mk (f d))])"
    using ok [OF d(2) h(4)] h(3,5) path fd key [OF d(2)]
    by (intro wf_history_snoc [OF wf_tablesD(2) [OF wf]])
      (simp_all add: wf_revision_def wf_document_def)
  then have "wf_history j (revisions_of ?db c j)" for c j
    using wf_tablesD(2) [OF wf] by (simp add: u(4))
  moreover have "row_matches ?db c j" for c j
    using wf_tablesD(3) [OF wf, of c j] fd
    by (auto simp: row_matches_def u(4,5) toTarget_eq split: option.splits)
  moreover have "map (\<lambda>d. (dr_botId d, md_documentId d)) (document_rows ?db) =
      map (\<lambda>d. (dr_botId d, md_documentId d)) (document_rows db)"
    using f by (auto simp: u(2))
  moreover have "list_all (\<lambda>d. (dr_botId d, dr_spaceId d) \<in> set (bot_rows db)) (document_rows ?db)"
    using wf f by (auto simp: wf_tables_def u(2) list_all_iff)
  moreover have "(?b, sc_spaceId sc) \<in> set (bot_rows db)"
    using wf d P [OF d(2)] by (auto simp: wf_tables_def list_all_iff in_document_def)
  ultimately show ?thesis using wf by (simp add: wf_tables_def u(1,3))
qed

section \<open>Every execution keeps the invariant\<close>

lemma write_decision_valid:
  assumes "decideMemoryWrite (write_request o') cx = Inr (Inr (Write_revision a r))"
  shows "\<not> is_blank (wo_author o')" and "fits MAX_MEMORY_REASON_LENGTH (str_of (wo_reason o'))"
    and "validateWrite (wo_write o') = None" and "wo_write o' = Delete j \<Longrightarrow> wo_origin o' = Deliberate"
  using assms
  by (auto simp: decideMemoryWrite_def write_request_def validation_simps
      split: if_splits option.splits memory_write.splits) (cases "wo_origin o'"; simp)+

lemma create_wf:
  assumes wf: "wf_tables db" and ok: "fits MAX_MEMORY_DOCUMENT_ID_LENGTH i"
    "fits MAX_MEMORY_TITLE_LENGTH t" "fits MAX_MEMORY_CONTENT_LENGTH c" "\<not> is_blank (wo_author o')"
    "fits MAX_MEMORY_REASON_LENGTH (str_of (wo_reason o'))"
  shows "wf_tables (snd (createDocument db o' i k t c))"
proof (cases "botInScope db (sc_spaceId o') (sc_botId o') \<and> row_for db (sc_botId o') i = None")
  case False
  with wf show ?thesis
    by (auto simp: createDocument_def Let_def row_for_def find_None_iff list_ex_iff)
next
  case True
  let ?db = "snd (createDocument db o' i k t c)" and ?b = "sc_botId o'"
  let ?row = "\<lparr>md_documentId = i, md_kind = k, md_title = t, md_content = c, md_revision = 1,
      mt_deleted = False, dr_spaceId = sc_spaceId o', dr_botId = ?b\<rparr>"
  let ?rev = "revision_of o' (wo_origin o') (wo_author o') (str_of (wo_reason o')) False ?row"
  have fresh: "\<forall>d \<in> set (document_rows db). \<not> (dr_botId d = ?b \<and> md_documentId d = i)"
    using True by (auto simp: row_for_def find_None_iff)
  then have db: "?db = db\<lparr>document_rows := document_rows db @ [?row],
      revision_rows := revision_rows db @ [?rev]\<rparr>"
    using True by (auto simp: createDocument_def Let_def list_ex_iff)
  have none: "revisions_of db ?b i = []"
    using wf_tablesD(3) [OF wf, of ?b i] True by (simp add: row_matches_def)
  have hist: "revisions_of ?db c' j = (if c' = ?b \<and> j = i then [toRevision ?rev] else revisions_of db c' j)" for c' j
    using none by (auto simp: revisions_of_def db)
  have row: "row_for ?db c' j = (if c' = ?b \<and> j = i then Some ?row else row_for db c' j)" for c' j
  proof -
    have "row_for ?db c' j = (case row_for db c' j of
        None \<Rightarrow> if c' = ?b \<and> j = i then Some ?row else None | Some y \<Rightarrow> Some y)"
      unfolding db row_for_def by (auto simp: find_append_option split: option.split)
    with True show ?thesis by (auto split: option.splits)
  qed
  have "wf_history i [toRevision ?rev]"
    using ok by (simp add: wf_history_def wf_revision_def)
  then have "wf_history j (revisions_of ?db c' j)" for c' j
    using wf_tablesD(2) [OF wf] by (simp add: hist)
  moreover have "row_matches ?db c' j" for c' j
    using wf_tablesD(3) [OF wf, of c' j]
    by (auto simp: row_matches_def hist row toTarget_eq split: option.splits)
  moreover have "(?b, i) \<notin> (\<lambda>d. (dr_botId d, md_documentId d)) ` set (document_rows db)"
    using fresh by auto
  then have "distinct (map (\<lambda>d. (dr_botId d, md_documentId d)) (document_rows ?db))"
    using wf_tablesD(1) [OF wf] unfolding db by simp
  ultimately show ?thesis
    using wf True by (simp add: wf_tables_def db botInScope_def)
qed

lemma case_rows: "snd (case u of (db', []) \<Rightarrow> (x, db') | (db', r # rs) \<Rightarrow> (y r, db')) = fst u"
  by (cases u; cases "snd u") auto

lemma persist_write_wf:
  assumes wf: "wf_tables db" and dec: "decideMemoryWrite (write_request o') cx = Inr (Inr (Write_revision a r))"
  shows "wf_tables (snd (persist_write db o' (wo_write o')))"
proof -
  note v = write_decision_valid [OF dec]
  show ?thesis
  proof (cases "wo_write o'")
    case (Create i k t c)
    with v(3) have "fits MAX_MEMORY_DOCUMENT_ID_LENGTH (str_of i)" "fits MAX_MEMORY_TITLE_LENGTH (str_of t)"
      "fits MAX_MEMORY_CONTENT_LENGTH (str_of c)"
      by (auto simp: validation_simps split: if_splits)
    with Create v(1,2) wf show ?thesis by (simp add: create_wf)
  next
    case (Update i t c)
    with v(3) have "fits MAX_MEMORY_TITLE_LENGTH (str_of t)" "fits MAX_MEMORY_CONTENT_LENGTH (str_of c)"
      by (auto simp: validation_simps)
    with Update v(1,2) show ?thesis
      by (simp add: reviseDocument_def case_rows)
        (rule update_wf [OF wf]; auto simp: wf_document_def in_document_def)
  next
    case (Delete i)
    with v show ?thesis
      by (simp add: tombstoneDocument_def case_rows)
        (rule update_wf [OF wf]; auto simp: wf_document_def in_document_def)
  next
    case (Other_action x)
    with wf show ?thesis by simp
  qed
qed

lemma findRevision_wf:
  assumes "wf_tables db" and "findRevision db s b i n = Some r"
  shows "wf_revision r" and "mr_documentId r = i" and "r \<in> set (revisions_of db b i)"
proof -
  show r: "r \<in> set (revisions_of db b i)"
    using assms(2) by (auto simp: findRevision_def revisions_of_def find_Some_iff)
  then show "wf_revision r" "mr_documentId r = i"
    using wf_tablesD(2) [OF assms(1), of i b] by (auto simp: wf_history_def list_all_iff)
qed

lemma restore_statement_wf:
  assumes wf: "wf_tables db" and v: "validateRestore (restore_request o') = None"
  shows "wf_tables (snd (restore_statement db o'))"
proof (cases "findRevision db (sc_spaceId o') (sc_botId o') (ro_documentId o') (ro_revision o')")
  case (Some t)
  have "\<not> is_blank (ro_author o')" "fits MAX_MEMORY_REASON_LENGTH (str_of (ro_reason o'))"
    using v by (auto simp: validateRestore_None validation_simps restore_request_def)
  with Some findRevision_wf(1) [OF wf Some] show ?thesis
    by (simp add: restore_statement_def case_rows)
      (rule update_wf [OF wf]; auto simp: wf_document_def wf_revision_def in_document_def)
qed (use wf in \<open>simp add: restore_statement_def\<close>)

lemma store_step_wf:
  assumes "store_step db db'" and "wf_tables db"
  shows "wf_tables db'"
  using assms
proof cases
  case (write_step o' cx)
  with assms(2) persist_write_wf [of db o' cx] show ?thesis
    by (auto simp: write_decided_def split: sum.splits memory_write_decision.splits)
next
  case (restore_step o' cx)
  have "validateRestore (restore_request o') = None"
    if "decideMemoryRestore (restore_request o') cx = Inr (Restore_revision r)" for r
    using that by (auto simp: decideMemoryRestore_def split: option.splits)
  with restore_step assms(2) restore_statement_wf [of db o'] show ?thesis
    by (auto simp: restore_decided_def split: sum.splits memory_restore_decision.splits)
qed

lemma store_steps_wf: "store_step\<^sup>*\<^sup>* db db' \<Longrightarrow> wf_tables db \<Longrightarrow> wf_tables db'"
  by (induction rule: rtranclp_induct) (auto intro: store_step_wf)

text \<open>Revisions are append-only: no statement changes or removes one.\<close>

lemma store_step_appends:
  assumes "store_step db db'"
  shows "\<exists>rs. revision_rows db' = revision_rows db @ rs"
proof -
  have upd: "\<exists>rs. revision_rows (fst (update_returning P f mk db)) = revision_rows db @ rs" for P f mk
    by (simp add: update_returning_def Let_def)
  have p: "\<exists>rs. revision_rows (snd (persist_write db o' w)) = revision_rows db @ rs" for o' w
    by (cases w) (simp_all add: upd case_rows reviseDocument_def tombstoneDocument_def createDocument_def Let_def)
  have q: "\<exists>rs. revision_rows (snd (restore_statement db o')) = revision_rows db @ rs" for o'
    by (simp add: restore_statement_def upd case_rows split: option.split)
  show ?thesis
    by (rule store_stepE [OF assms])
      (use p q in \<open>auto simp: write_decided_def restore_decided_def
        split: sum.splits memory_write_decision.splits memory_restore_decision.splits\<close>)
qed

lemma store_steps_append:
  "store_step\<^sup>*\<^sup>* db db' \<Longrightarrow> prefix (revisions_of db b i) (revisions_of db' b i)"
proof (induction rule: rtranclp_induct)
  case (step y z)
  from store_step_appends [OF step(2)] have "prefix (revisions_of y b i) (revisions_of z b i)"
    by (auto simp: revisions_of_def prefix_def)
  with step.IH show ?case by (rule prefix_order.trans)
qed simp

section \<open>Alone, the store persists exactly what was decided\<close>

lemma findLive_row:
  assumes "wf_tables db" and "findLiveDocument db s b i = Some d"
  shows "d \<in> set (document_rows db)" and "in_document s b i d" and "\<not> mt_deleted d"
  using assms(2) by (auto simp: findLiveDocument_def find_Some_iff)

lemma update_returning_one:
  assumes "wf_tables db" and "d \<in> set (document_rows db)" and "P d"
    and "\<And>y. P y \<Longrightarrow> dr_botId y = dr_botId d \<and> md_documentId y = md_documentId d"
  shows "snd (update_returning P f mk db) = [mk (f d)]"
proof -
  have "filter P (document_rows db) = [d]"
    using assms(4) by (intro filter_unique [where P = P, OF wf_tablesD(1) [OF assms(1)] assms(2,3)]) auto
  then show ?thesis by (simp add: update_returning_def Let_def)
qed

lemma case_one: "snd u = [r] \<Longrightarrow> (case u of (db', []) \<Rightarrow> (x, db') | (db', q # qs) \<Rightarrow> (y q, db')) = (y r, fst u)"
  by (cases u) auto

lemma applyWrite_exact:
  assumes wf: "wf_tables db" and b: "botInScope db (sc_spaceId o') (sc_botId o')"
    and dec: "decideMemoryWrite (write_request o') (write_context db o') = Inr (Inr (Write_revision a r))"
    and spent: "a = Act_create \<Longrightarrow> row_for db (sc_botId o') (mr_documentId r) = None"
  shows "fst (applyWrite db o') = Inr (Stored a r)"
proof -
  let ?i = "str_of (mw_id (wo_write o'))"
  have app: "applyWrite db o' = persist_write db o' (wo_write o')"
    by (simp add: applyWrite_def write_decided_def dec)
  show ?thesis
  proof (cases "findLiveDocument db (sc_spaceId o') (sc_botId o') ?i")
    case None
    with dec obtain i k t c where w: "wo_write o' = Create i k t c" and a: "a = Act_create"
      and r: "r = buildRevision (str_of i) 1 (write_request o') (the_kind k) (str_of t) (str_of c) False"
      by (auto simp: decideMemoryWrite_def write_context_def write_request_def
          split: if_splits option.splits memory_write.splits)
    from spent [OF a] have "\<not> list_ex (\<lambda>d. dr_botId d = sc_botId o' \<and> md_documentId d = str_of i) (document_rows db)"
      by (auto simp: r buildRevision_def row_for_def find_None_iff list_ex_iff)
    with app w a r b show ?thesis
      by (simp add: createDocument_def Let_def toRevision_def revision_of_def buildRevision_def write_request_def)
  next
    case (Some d)
    note d = findLive_row [OF wf Some]
    have one: "snd (update_returning
        (\<lambda>d. in_document (sc_spaceId o') (sc_botId o') j d \<and> \<not> mt_deleted d) f mk db) = [mk (f d)]"
      if "j = ?i" for f mk j
      using d that by (intro update_returning_one [OF wf]) (auto simp: in_document_def)
    have i: "md_documentId d = ?i" using d(2) by (simp add: in_document_def)
    from dec Some have "\<exists>x. wo_write o' = Delete x \<or> (\<exists>t c. wo_write o' = Update x t c)"
      by (cases "wo_write o'") (auto simp: decideMemoryWrite_def write_context_def write_request_def
          split: if_splits option.splits)
    with dec Some i show ?thesis
      unfolding app
      by (auto simp: decideMemoryWrite_def write_context_def write_request_def reviseDocument_def
          tombstoneDocument_def case_one [OF one] toRevision_def revision_of_def buildRevision_def
          toDocument_def split: if_splits option.splits)
  qed
qed

text \<open>A write answered with a revision recorded exactly that revision.\<close>

lemma update_returning_at_most_one:
  assumes wf: "wf_tables db" and P: "\<And>y. P y \<Longrightarrow> dr_botId y = b \<and> md_documentId y = i"
    and "snd (update_returning P f mk db) = q # qs"
  shows "revision_rows (fst (update_returning P f mk db)) = revision_rows db @ [q]"
proof -
  have "filter P (document_rows db) \<noteq> []"
    using assms(3) by (auto simp: update_returning_def Let_def)
  then obtain d where d: "d \<in> set (document_rows db)" "P d" by (auto simp: filter_empty_conv)
  have "snd (update_returning P f mk db) = [mk (f d)]"
    using P d(2) by (intro update_returning_one [where P = P, OF wf d]) auto
  with assms(3) show ?thesis by (auto simp: update_returning_def Let_def)
qed

lemma persist_write_records:
  assumes wf: "wf_tables db" and "fst (persist_write db o' w) = Inr (Stored a r)"
  shows "\<exists>q. revision_rows (snd (persist_write db o' w)) = revision_rows db @ [q] \<and>
    toRevision q = r \<and> rv_botId q = sc_botId o'"
proof -
  have upd: "\<exists>q. revision_rows (fst (update_returning P f mk db)) = revision_rows db @ [q] \<and>
      toRevision q = r \<and> rv_botId q = sc_botId o'"
    if P: "\<And>y. P y \<Longrightarrow> dr_botId y = sc_botId o' \<and> md_documentId y = i"
      and mk: "mk = revision_of o' g x y del"
      and c: "fst (case update_returning P f mk db of (db', []) \<Rightarrow> (Inr (Refused e), db')
        | (db', q # _) \<Rightarrow> (Inr (Stored k (toRevision q)), db')) = Inr (Stored a r)"
    for P f mk i g x y del e k
  proof -
    obtain q qs where q: "snd (update_returning P f mk db) = q # qs" "toRevision q = r"
      using c by (cases "update_returning P f mk db"; cases "snd (update_returning P f mk db)") auto
    have "rv_botId q = sc_botId o'" using q(1) by (auto simp: update_returning_def Let_def mk)
    with q update_returning_at_most_one [OF wf P q(1)] show ?thesis by blast
  qed
  show ?thesis
  proof (cases w)
    case (Create i k t c)
    with assms(2) show ?thesis by (auto simp: createDocument_def Let_def split: if_splits)
  next
    case (Update i t c)
    with assms(2) show ?thesis
      by (auto simp: reviseDocument_def case_rows in_document_def intro!: upd [OF _ refl])
  next
    case (Delete i)
    with assms(2) show ?thesis
      by (auto simp: tombstoneDocument_def case_rows in_document_def intro!: upd [OF _ refl])
  qed (use assms(2) in simp)
qed

lemma applyWrite_records:
  assumes wf: "wf_tables db" and out: "fst (applyWrite db o') = Inr (Stored a r)"
  shows "revisions_of (snd (applyWrite db o')) (sc_botId o') (mr_documentId r) =
    revisions_of db (sc_botId o') (mr_documentId r) @ [r]"
proof -
  obtain w where "applyWrite db o' = persist_write db o' w"
    using out by (auto simp: applyWrite_def write_decided_def split: sum.splits memory_write_decision.splits)
  with persist_write_records [OF wf, of o' w a r] out obtain q where
    "revision_rows (snd (applyWrite db o')) = revision_rows db @ [q]" "toRevision q = r" "rv_botId q = sc_botId o'"
    by auto
  then show ?thesis by (auto simp: revisions_of_def)
qed

text \<open>Only the tombstone statement takes a document out of the live rows.\<close>

lemma persist_keeps_live:
  assumes "\<nexists>j. w = Delete j" and "findLiveDocument db s b i \<noteq> None"
  shows "findLiveDocument (snd (persist_write db o' w)) s b i \<noteq> None"
proof -
  obtain d where d: "d \<in> set (document_rows db)" "in_document s b i d" "\<not> mt_deleted d"
    using assms(2) by (auto simp: findLiveDocument_def find_None_iff)
  have "\<exists>d' \<in> set (document_rows (snd (persist_write db o' w))). in_document s b i d' \<and> \<not> mt_deleted d'"
  proof (cases w)
    case (Create j k t c)
    with d show ?thesis by (auto simp: createDocument_def Let_def)
  next
    case (Update j t c)
    show ?thesis
      unfolding Update persist_write.simps reviseDocument_def case_rows update_returning_rows set_map
      by (rule bexI [OF _ imageI [OF d(1)]]) (use d in \<open>auto simp: in_document_def\<close>)
  qed (use assms(1) d in auto)
  then show ?thesis by (auto simp: findLiveDocument_def find_None_iff)
qed

section \<open>The document limit\<close>

lemma live_count_map:
  assumes "\<And>d. d \<in> set ds \<Longrightarrow> Q (g d) \<Longrightarrow> Q d"
  shows "length (filter (Q \<circ> g) ds) \<le> length (filter Q ds)"
  using assms by (induction ds) (auto simp: le_SucI)

lemma find_filter: "find P xs = (case filter P xs of [] \<Rightarrow> None | x # _ \<Rightarrow> Some x)"
  by (induction xs) auto

lemma applyWrite_count:
  assumes "liveDocumentCount db s b \<le> nat MAX_MEMORY_DOCUMENTS_PER_BOT"
  shows "liveDocumentCount (snd (applyWrite db o')) s b \<le> nat MAX_MEMORY_DOCUMENTS_PER_BOT"
proof -
  let ?cx = "write_context db o'"
  have upd: "liveDocumentCount (fst (update_returning P f mk db)) s b \<le> liveDocumentCount db s b"
    if "\<And>d. P d \<Longrightarrow> \<not> mt_deleted d" "\<And>d. dr_spaceId (f d) = dr_spaceId d" "\<And>d. dr_botId (f d) = dr_botId d"
    for P f mk
    unfolding liveDocumentCount_def update_returning_def Let_def using that
    by (auto intro!: live_count_map split: if_splits)
  have create: "liveDocumentCount (snd (createDocument db o' i k t c)) s b \<le>
      (if s = sc_spaceId o' \<and> b = sc_botId o' then liveDocumentCount db s b + 1
       else liveDocumentCount db s b)" for i k t c
    by (auto simp: createDocument_def Let_def liveDocumentCount_def)
  have "liveDocumentCount (snd (persist_write db o' (wo_write o'))) s b \<le> nat MAX_MEMORY_DOCUMENTS_PER_BOT"
    if "decideMemoryWrite (write_request o') ?cx = Inr (Inr (Write_revision a r))" for a r
  proof (cases "wo_write o'")
    case (Create i k t c)
    with that have "liveDocumentCount db (sc_spaceId o') (sc_botId o') < nat MAX_MEMORY_DOCUMENTS_PER_BOT"
      by (auto simp: decideMemoryWrite_def write_context_def write_request_def MAX_MEMORY_DOCUMENTS_PER_BOT_def
          split: if_splits option.splits)
    with Create assms create [of "str_of i" "the_kind k" "str_of t" "str_of c"] show ?thesis
      by (auto split: if_splits)
  next
    case (Update i t c)
    then show ?thesis
      by (simp add: reviseDocument_def case_rows) (rule order.trans [OF upd assms]; simp)
  next
    case (Delete i)
    then show ?thesis
      by (simp add: tombstoneDocument_def case_rows) (rule order.trans [OF upd assms]; simp)
  qed (use assms in simp)
  with assms show ?thesis
    by (auto simp: applyWrite_def write_decided_def split: sum.splits memory_write_decision.splits)
qed

lemma revive_count:
  assumes "distinct ds" and "d \<in> set ds" and "mt_deleted d"
    and "\<And>y. dr_spaceId (f y) = dr_spaceId y \<and> dr_botId (f y) = dr_botId y \<and> \<not> mt_deleted (f y)"
  shows "length (filter (\<lambda>y. dr_spaceId y = dr_spaceId d \<and> dr_botId y = dr_botId d \<and> \<not> mt_deleted y)
        (map (\<lambda>y. if y = d then f d else y) ds)) =
      length (filter (\<lambda>y. dr_spaceId y = dr_spaceId d \<and> dr_botId y = dr_botId d \<and> \<not> mt_deleted y) ds) + 1"
proof -
  obtain xs ys where ds: "ds = xs @ d # ys" and out: "d \<notin> set xs" "d \<notin> set ys"
    using assms(1,2) by (auto dest: split_list)
  then have "map (\<lambda>y. if y = d then f d else y) ds = xs @ f d # ys" by (auto intro!: map_idI)
  then show ?thesis using assms(3) assms(4) [of d] by (simp add: ds)
qed

lemma restore_revives:
  assumes keys: "distinct (map (\<lambda>d. (dr_botId d, md_documentId d)) (document_rows db))" and d: "d \<in> set (document_rows db)" "mt_deleted d"
    and o': "sc_spaceId o' = dr_spaceId d" "sc_botId o' = dr_botId d" "ro_documentId o' = md_documentId d"
    and v: "validateRestore (restore_request o') = None"
    and r: "findRevision db (dr_spaceId d) (dr_botId d) (md_documentId d) (ro_revision o') = Some t"
  shows "liveDocumentCount (snd (restoreRevision db o')) (dr_spaceId d) (dr_botId d) =
    liveDocumentCount db (dr_spaceId d) (dr_botId d) + 1"
proof -
  let ?P = "in_document (dr_spaceId d) (dr_botId d) (md_documentId d)"
  have one: "filter ?P (document_rows db) = [d]"
    by (rule filter_unique [OF keys d(1)]) (auto simp: in_document_def)
  have row: "findDocumentRow db (dr_spaceId d) (dr_botId d) (md_documentId d) = Some d"
    using one by (simp add: findDocumentRow_def find_filter)
  from r have t: "mr_documentId t = md_documentId d" "Fin (of_nat (mr_revision t)) = ro_revision o'"
    by (auto simp: findRevision_def find_Some_iff)
  have dec: "\<exists>x. decideMemoryRestore (restore_request o') (restore_context db o') = Inr (Restore_revision x)"
    using v row r t d(2) o' by (simp add: decideMemoryRestore_def restore_context_def restore_request_def toTarget_def)
  have keep: "map (\<lambda>y. if ?P y then f y else y) (document_rows db) =
      map (\<lambda>y. if y = d then f d else y) (document_rows db)" for f
  proof (rule map_cong [OF refl])
    show "(if ?P y then f y else y) = (if y = d then f d else y)" if "y \<in> set (document_rows db)" for y
    proof -
      have "y \<in> set (filter ?P (document_rows db)) \<longleftrightarrow> ?P y" using that by simp
      then show ?thesis unfolding one by auto
    qed
  qed
  obtain f where f: "\<And>y. dr_spaceId (f y) = dr_spaceId y \<and> dr_botId (f y) = dr_botId y \<and> \<not> mt_deleted (f y)"
    and db': "document_rows (snd (restoreRevision db o')) = map (\<lambda>y. if y = d then f d else y) (document_rows db)"
  proof
    let ?f = "\<lambda>d. d\<lparr>md_kind := mr_kind t, md_title := mr_title t, md_content := mr_content t,
                    md_revision := md_revision d + 1, mt_deleted := False\<rparr>"
    show "dr_spaceId (?f y) = dr_spaceId y \<and> dr_botId (?f y) = dr_botId y \<and> \<not> mt_deleted (?f y)" for y
      by simp
    show "document_rows (snd (restoreRevision db o')) = map (\<lambda>y. if y = d then ?f d else y) (document_rows db)"
    proof -
      have "snd (restoreRevision db o') = fst (update_returning ?P ?f
          (revision_of o' (ro_origin o') (ro_author o') (str_of (ro_reason o')) False) db)"
        using dec r o' by (auto simp: restoreRevision_def restore_decided_def restore_statement_def case_rows)
      then show ?thesis by (simp only: update_returning_rows keep)
    qed
  qed
  have "distinct (document_rows db)" using keys by (simp add: distinct_map)
  then show ?thesis
    unfolding liveDocumentCount_def db' using d f by (rule revive_count)
qed

end
