(* ===== verification/Recall.thy ===== *)
theory Recall
  imports Memory_Rules
begin

text \<open>
  Bounded recall (\<open>recall-policy.ts\<close>): the limits, the bound on a recall tool's matches and the
  selection of the documents a prompt carries. Excerpts are lists of UTF-16 code units, because
  the truncation marker (U+2026) is outside the range of the string type; a match is an
  extensible record, so the extra fields a provider attaches are the record's tail.
\<close>

section \<open>Model\<close>

record recall_limits =
  maxDocuments :: jsnum
  maxContentCharacters :: jsnum
  maxMatches :: jsnum
  maxExcerptCharacters :: jsnum

definition DEFAULT_RECALL_LIMITS :: recall_limits where
  "DEFAULT_RECALL_LIMITS =
     \<lparr>maxDocuments = Fin 8, maxContentCharacters = Fin 8192, maxMatches = Fin 8,
      maxExcerptCharacters = Fin 240\<rparr>"

record recall_match =
  rm_documentId :: string
  rm_revision :: nat
  rm_title :: string
  rm_excerpt :: "nat list"
  rm_score :: jsnum

record 'm bounded_recall =
  br_matches :: "'m list"
  br_omitted :: nat

text \<open>\<open>PromptMemoryDocument\<close> of \<open>prompt-composition.ts\<close>.\<close>

record prompt_memory_document =
  pm_kind :: string
  pm_title :: string
  pm_content :: string

record prompt_memory_selection =
  pms_documents :: "prompt_memory_document list"
  pms_omitted :: nat

datatype recall_limit_error = RecallLimitError string jsnum

definition check_limit :: "string \<Rightarrow> jsnum \<Rightarrow> recall_limit_error + unit" where
  "check_limit field v =
     (if \<not> isSafeInteger v \<or> to_int v < 0 then Inl (RecallLimitError field v) else Inr ())"

definition assertRecallLimits :: "recall_limits \<Rightarrow> recall_limit_error + unit" where
  "assertRecallLimits l =
     bindE (check_limit ''maxDocuments'' (maxDocuments l)) (\<lambda>_.
     bindE (check_limit ''maxContentCharacters'' (maxContentCharacters l)) (\<lambda>_.
     bindE (check_limit ''maxMatches'' (maxMatches l)) (\<lambda>_.
       check_limit ''maxExcerptCharacters'' (maxExcerptCharacters l))))"

abbreviation lim :: "jsnum \<Rightarrow> nat" where
  "lim v \<equiv> nat (to_int v)"

definition ELLIPSIS :: "nat list" where
  "ELLIPSIS = [8230]"

definition clipExcerpt :: "nat list \<Rightarrow> nat \<Rightarrow> nat list" where
  "clipExcerpt excerpt maxCharacters =
     (if length excerpt \<le> maxCharacters then excerpt
      else if maxCharacters = 0 then [] else take maxCharacters excerpt @ ELLIPSIS)"

definition boundMatch :: "nat \<Rightarrow> 'a recall_match_scheme \<Rightarrow> 'a recall_match_scheme" where
  "boundMatch n m =
     (let excerpt = clipExcerpt (rm_excerpt m) n in
      if excerpt = rm_excerpt m then m else m\<lparr>rm_excerpt := excerpt\<rparr>)"

definition boundRecallMatches ::
  "'a recall_match_scheme list \<Rightarrow> recall_limits \<Rightarrow>
   recall_limit_error + 'a recall_match_scheme bounded_recall" where
  "boundRecallMatches matches l =
     bindE (assertRecallLimits l) (\<lambda>_.
       Inr \<lparr>br_matches = map (boundMatch (lim (maxExcerptCharacters l))) (take (lim (maxMatches l)) matches),
            br_omitted = length matches - lim (maxMatches l)\<rparr>)"

definition strip_document :: "memory_document \<Rightarrow> prompt_memory_document" where
  "strip_document d =
     \<lparr>pm_kind = kind_name (md_kind d), pm_title = md_title d, pm_content = md_content d\<rparr>"

text \<open>The loop of \<open>selectPromptMemory\<close>: the selection, the characters used, the omissions.\<close>

fun select_loop ::
  "nat \<Rightarrow> nat \<Rightarrow> memory_document list \<Rightarrow> prompt_memory_document list \<Rightarrow> nat \<Rightarrow> nat \<Rightarrow>
   prompt_memory_selection" where
  "select_loop maxDocs maxChars [] selected used omitted =
     \<lparr>pms_documents = selected, pms_omitted = omitted\<rparr>"
| "select_loop maxDocs maxChars (d # ds) selected used omitted =
     (let cost = length (md_content d) in
      if length selected \<ge> maxDocs \<or> used + cost > maxChars
      then select_loop maxDocs maxChars ds selected used (omitted + 1)
      else select_loop maxDocs maxChars ds (selected @ [strip_document d]) (used + cost) omitted)"

definition selectPromptMemory ::
  "memory_document list \<Rightarrow> recall_limits \<Rightarrow> recall_limit_error + prompt_memory_selection" where
  "selectPromptMemory documents l =
     bindE (assertRecallLimits l) (\<lambda>_.
       Inr (select_loop (lim (maxDocuments l)) (lim (maxContentCharacters l)) documents [] 0 0))"

section \<open>Facts\<close>

lemma length_clipExcerpt: "length (clipExcerpt x n) \<le> n + 1"
  by (simp add: clipExcerpt_def ELLIPSIS_def)

lemma take_clipExcerpt: "take n (clipExcerpt x n) = take n x"
  by (simp add: clipExcerpt_def)

lemma boundMatch_only_excerpt: "(boundMatch n m)\<lparr>rm_excerpt := e\<rparr> = m\<lparr>rm_excerpt := e\<rparr>"
  by (simp add: boundMatch_def Let_def)

lemma boundMatch_excerpt: "rm_excerpt (boundMatch n m) = clipExcerpt (rm_excerpt m) n"
  by (simp add: boundMatch_def Let_def)

abbreviation content_size :: "prompt_memory_document list \<Rightarrow> nat" where
  "content_size ds \<equiv> sum_list (map (\<lambda>d. length (pm_content d)) ds)"

lemma select_loop_bounds:
  assumes "length sel \<le> maxDocs" and "content_size sel = used" and "used \<le> maxChars"
  shows "length (pms_documents (select_loop maxDocs maxChars ds sel used om)) \<le> maxDocs \<and>
    content_size (pms_documents (select_loop maxDocs maxChars ds sel used om)) \<le> maxChars"
  using assms
  by (induction ds arbitrary: sel used om) (auto simp: Let_def strip_document_def)

lemma select_loop_counts:
  "length (pms_documents (select_loop m c ds sel used om)) + pms_omitted (select_loop m c ds sel used om) =
   length sel + length ds + om"
  by (induction ds arbitrary: sel used om) (simp_all add: Let_def)

lemma select_loop_subseq:
  "\<exists>ks. pms_documents (select_loop m c ds sel used om) = sel @ map strip_document ks \<and> subseq ks ds"
proof (induction ds arbitrary: sel used om)
  case Nil
  show ?case by simp
next
  case (Cons d ds)
  show ?case
  proof (cases "length sel \<ge> m \<or> used + length (md_content d) > c")
    case True
    with Cons.IH [of sel used "om + 1"] show ?thesis
      by (fastforce simp: Let_def intro: list_emb_Cons)
  next
    case False
    obtain ks where ks: "pms_documents (select_loop m c ds (sel @ [strip_document d])
        (used + length (md_content d)) om) = (sel @ [strip_document d]) @ map strip_document ks"
      "subseq ks ds"
      using Cons.IH by blast
    with False have "pms_documents (select_loop m c (d # ds) sel used om) = sel @ map strip_document (d # ks)"
      "subseq (d # ks) (d # ds)"
      by (simp_all add: Let_def)
    then show ?thesis by blast
  qed
qed

text \<open>When everything fits nothing is omitted, and the first document that fits is kept.\<close>

lemma select_loop_all:
  assumes "length sel + length ds \<le> m" and "used + sum_list (map (\<lambda>d. length (md_content d)) ds) \<le> c"
  shows "select_loop m c ds sel used om =
    \<lparr>pms_documents = sel @ map strip_document ds, pms_omitted = om\<rparr>"
  using assms by (induction ds arbitrary: sel used) (simp_all add: Let_def)

lemma select_loop_prefix:
  "\<exists>ys. pms_documents (select_loop m c ds sel used om) = sel @ ys"
  using select_loop_subseq by blast

lemma selectPromptMemory_Inr:
  "selectPromptMemory ds l = Inr r \<Longrightarrow>
   r = select_loop (lim (maxDocuments l)) (lim (maxContentCharacters l)) ds [] 0 0"
  by (auto simp: selectPromptMemory_def result_simps)

lemma default_limits_valid [simp]: "assertRecallLimits DEFAULT_RECALL_LIMITS = Inr ()"
  by (simp add: assertRecallLimits_def check_limit_def DEFAULT_RECALL_LIMITS_def max_safe_integer_def)

end
