(* ===== verification/Memory_Properties.thy ===== *)
theory Memory_Properties
  imports Memory_Store Compaction Recall
begin

text \<open>
  The correctness properties of durable memory: the store under concurrent writers, the rules
  of the agent's path, undoing a deletion, the document limit, and the boundary to
  conversation compaction and recall. The sample tables and requests are the inputs of the
  witnesses.
\<close>

section \<open>Sample tables and requests\<close>

definition empty_tables :: memory_tables where
  "empty_tables = \<lparr>bot_rows = [(''b'', ''s'')], document_rows = [], revision_rows = []\<rparr>"

definition sample_write :: "memory_origin \<Rightarrow> memory_write \<Rightarrow> write_options" where
  "sample_write g w = \<lparr>sc_spaceId = ''s'', sc_botId = ''b'', wo_origin = g, wo_author = ''u'',
     wo_reason = JStr ''why'', wo_write = w\<rparr>"

definition sample_create :: "string \<Rightarrow> memory_write" where
  "sample_create i = Create (JStr i) (JStr ''fact'') (JStr ''title'') (JStr ''content'')"

definition sample_restore :: restore_options where
  "sample_restore = \<lparr>sc_spaceId = ''s'', sc_botId = ''b'', ro_documentId = ''d'', ro_revision = Fin 2,
     ro_origin = Deliberate, ro_author = ''u'', ro_reason = JStr ''undo''\<rparr>"

definition written_to :: "memory_tables \<Rightarrow> write_options list \<Rightarrow> memory_tables" where
  "written_to db os = foldl (\<lambda>d o'. snd (applyWrite d o')) db os"

definition one_document :: memory_tables where
  "one_document = written_to empty_tables [sample_write Deliberate (sample_create ''d'')]"

definition two_revisions :: memory_tables where
  "two_revisions = written_to empty_tables
     [sample_write Deliberate (sample_create ''d''), sample_write Deliberate (Delete (JStr ''d''))]"

lemma empty_tables_wf: "wf_tables empty_tables"
  by (simp add: wf_tables_def empty_tables_def revisions_of_def row_matches_def row_for_def wf_history_def)

lemma written_step: "store_step\<^sup>*\<^sup>* db (written_to db os)"
proof (induction os arbitrary: db)
  case (Cons o' os)
  have "store_step db (snd (applyWrite db o'))" unfolding applyWrite_def by (rule write_step)
  with Cons [of "snd (applyWrite db o')"] show ?case
    by (simp add: written_to_def converse_rtranclp_into_rtranclp)
qed (simp add: written_to_def)

lemma written_wf: "wf_tables (written_to empty_tables os)"
  using store_steps_wf [OF written_step empty_tables_wf] .

section \<open>The store\<close>

text \<open>
  C20: Memory history is a complete, append-only record under concurrency. Start from
  consistent tables and let any writers and restorers interleave, each deciding on a context
  that may be stale: no recorded revision is ever changed or lost, the revisions of every
  document are numbered 1, 2, 3 and so on without a gap or a repetition, each is within the
  limits and names its document, only a deliberate write leaves a tombstone, and the document
  row is the state of the last revision.
\<close>

theorem memory_history_complete:
  assumes "store_step\<^sup>*\<^sup>* db db'" and "wf_tables db"
  shows "prefix (revisions_of db b i) (revisions_of db' b i) \<and>
    map mr_revision (revisions_of db' b i) = [1..<Suc (length (revisions_of db' b i))] \<and>
    list_all (\<lambda>r. mr_documentId r = i \<and> wf_revision r \<and> (mr_deleted r \<longrightarrow> mr_origin r = Deliberate))
      (revisions_of db' b i) \<and>
    (case row_for db' b i of
       None \<Rightarrow> revisions_of db' b i = []
     | Some d \<Rightarrow> revisions_of db' b i \<noteq> [] \<and> toTarget d = row_of (last (revisions_of db' b i)))"
proof -
  have wf: "wf_tables db'" using store_steps_wf [OF assms] .
  show ?thesis
    using store_steps_append [OF assms(1), of b i] wf_tablesD(2) [OF wf, of i b] wf_tablesD(3) [OF wf, of b i]
    by (simp add: wf_history_def row_matches_def del: upt_Suc)
qed

theorem memory_history_complete_witness:
  "map mr_revision (revisions_of two_revisions ''b'' ''d'') = [1..<Suc (length (revisions_of two_revisions ''b'' ''d''))] \<and>
   length (revisions_of two_revisions ''b'' ''d'') = 2"
proof -
  have "length (revisions_of two_revisions ''b'' ''d'') = 2" by code_simp
  with memory_history_complete [OF written_step [of empty_tables
      "[sample_write Deliberate (sample_create ''d''), sample_write Deliberate (Delete (JStr ''d''))]",
      folded two_revisions_def] empty_tables_wf, of "''b''" "''d''"]
  show ?thesis by blast
qed

text \<open>
  Alone, the store persists exactly what the rules decided. When no other writer
  interferes, the bot is in scope and a new id is not spent, a write the rules accept is
  answered with the very revision the decision carries, and that revision is what the history
  of the document gains.
\<close>

theorem store_persists_decision:
  assumes "wf_tables db" and "botInScope db (sc_spaceId o') (sc_botId o')"
    and "decideMemoryWrite (write_request o') (write_context db o') = Inr (Inr (Write_revision a r))"
    and "a = Act_create \<Longrightarrow> row_for db (sc_botId o') (mr_documentId r) = None"
  shows "fst (applyWrite db o') = Inr (Stored a r) \<and>
    revisions_of (snd (applyWrite db o')) (sc_botId o') (mr_documentId r) =
      revisions_of db (sc_botId o') (mr_documentId r) @ [r]"
  using applyWrite_exact [OF assms] applyWrite_records [OF assms(1)] by simp

theorem store_persists_decision_witness:
  "\<exists>a r. fst (applyWrite empty_tables (sample_write Deliberate (sample_create ''d''))) = Inr (Stored a r) \<and>
     revisions_of (snd (applyWrite empty_tables (sample_write Deliberate (sample_create ''d'')))) ''b'' (mr_documentId r) = [r]"
proof -
  let ?o = "sample_write Deliberate (sample_create ''d'')"
  have "\<exists>r. decideMemoryWrite (write_request ?o) (write_context empty_tables ?o) =
      Inr (Inr (Write_revision Act_create r))"
    by (simp add: decideMemoryWrite_def write_request_def write_context_def sample_write_def sample_create_def
        validateCommon_def validateDocumentId_def validateContent_def orError_def isMemoryWriteOrigin_def
        MEMORY_WRITE_ORIGINS_def isMemoryKind_def MEMORY_KINDS_def blank_or_absent_def trim_def is_space_def
        code_unit_def findLiveDocument_def liveDocumentCount_def empty_tables_def max_safe_integer_def
        MAX_MEMORY_DOCUMENTS_PER_BOT_def MAX_MEMORY_REASON_LENGTH_def MAX_MEMORY_DOCUMENT_ID_LENGTH_def
        MAX_MEMORY_TITLE_LENGTH_def MAX_MEMORY_CONTENT_LENGTH_def)
  then obtain r where dec: "decideMemoryWrite (write_request ?o) (write_context empty_tables ?o) =
      Inr (Inr (Write_revision Act_create r))" ..
  have "botInScope empty_tables (sc_spaceId ?o) (sc_botId ?o)" by code_simp
  from store_persists_decision [OF empty_tables_wf this dec] show ?thesis
    by (auto simp: row_for_def empty_tables_def revisions_of_def sample_write_def)
qed

text \<open>
  An agent never removes memory and never rewinds it. Whatever context the decision was
  made on, a write on the agent's path leaves every live document live, and a restore on the
  agent's path leaves the tables untouched.
\<close>

theorem agent_never_removes:
  assumes "wo_origin o' = Agent_proposed" and "ro_origin p = Agent_proposed"
    and "findLiveDocument db s b i \<noteq> None"
  shows "findLiveDocument (snd (write_decided db o' cx)) s b i \<noteq> None \<and>
    snd (restore_decided db p cy) = db"
proof
  show "findLiveDocument (snd (write_decided db o' cx)) s b i \<noteq> None"
  proof (cases "\<exists>a r. decideMemoryWrite (write_request o') cx = Inr (Inr (Write_revision a r))")
    case True
    then have "\<nexists>j. wo_write o' = Delete j" using write_decision_valid(4) assms(1) by fastforce
    then have "findLiveDocument (snd (persist_write db o' (wo_write o'))) s b i \<noteq> None"
      using assms(3) persist_keeps_live [of "wo_write o'" db s b i o'] by blast
    with True show ?thesis by (auto simp: write_decided_def)
  next
    case False
    with assms(3) show ?thesis
      by (auto simp: write_decided_def split: sum.splits memory_write_decision.splits)
  qed
  show "snd (restore_decided db p cy) = db"
    using assms(2) the_origin_name [of Agent_proposed]
    by (auto simp: restore_decided_def decideMemoryRestore_def validateRestore_None restore_request_def
        split: sum.splits memory_restore_decision.splits option.splits)
qed

theorem agent_never_removes_witness:
  "findLiveDocument (snd (write_decided one_document (sample_write Agent_proposed (Delete (JStr ''d'')))
     (write_context one_document (sample_write Agent_proposed (Delete (JStr ''d'')))))) ''s'' ''b'' ''d'' \<noteq> None"
proof -
  have l: "findLiveDocument one_document ''s'' ''b'' ''d'' \<noteq> None" by code_simp
  have "wo_origin (sample_write Agent_proposed (Delete (JStr ''d''))) = Agent_proposed"
    "ro_origin (sample_restore\<lparr>ro_origin := Agent_proposed\<rparr>) = Agent_proposed"
    by (simp_all add: sample_write_def)
  from agent_never_removes [OF this l] show ?thesis by blast
qed

text \<open>
  Undoing a deletion gives the document back. After an accepted deletion, a valid restore
  that names the tombstone is accepted and records, as the next revision, the kind, title and
  content the document had.
\<close>

theorem restore_undoes_deletion:
  assumes "decideMemoryWrite q \<lparr>cx_document = Some d, cx_documentCount = n\<rparr> =
             Inr (Inr (Write_revision Act_delete r))"
    and "validateRestore q' = None" and "rr_documentId q' = JStr (mr_documentId r)"
    and "rr_revision q' = Fin (of_nat (mr_revision r))"
  shows "\<exists>r'. decideMemoryRestore q' \<lparr>rc_document = Some (row_of r), rc_revision = Some r\<rparr> =
              Inr (Restore_revision r') \<and> mr_revision r' = md_revision d + 2 \<and>
            \<not> mr_deleted r' \<and> mr_kind r' = md_kind d \<and> mr_title r' = md_title d \<and>
            mr_content r' = md_content d"
  using assms by (rule restore_after_delete)

theorem restore_undoes_deletion_witness:
  "\<exists>r r'. decideMemoryWrite (write_request (sample_write Deliberate (Delete (JStr ''d''))))
       (write_context one_document (sample_write Deliberate (Delete (JStr ''d'')))) =
         Inr (Inr (Write_revision Act_delete r)) \<and>
     decideMemoryRestore (restore_request sample_restore)
       \<lparr>rc_document = Some (row_of r), rc_revision = Some r\<rparr> = Inr (Restore_revision r') \<and>
     mr_title r' = ''title''"
proof -
  let ?o = "sample_write Deliberate (Delete (JStr ''d''))"
  have dec: "(case decideMemoryWrite (write_request ?o) (write_context one_document ?o) of
      Inr (Inr (Write_revision Act_delete r)) \<Rightarrow> mr_documentId r = ''d'' \<and> mr_revision r = 2 | _ \<Rightarrow> False)"
    by code_simp
  then obtain r where r: "decideMemoryWrite (write_request ?o) (write_context one_document ?o) =
      Inr (Inr (Write_revision Act_delete r))" "mr_documentId r = ''d''" "mr_revision r = 2"
    by (auto split: sum.splits memory_write_decision.splits memory_write_action.splits)
  have "cx_document (write_context one_document ?o) =
      Some \<lparr>md_documentId = ''d'', md_kind = Fact, md_title = ''title'', md_content = ''content'', md_revision = 1\<rparr>"
    by code_simp
  then obtain n where cx: "write_context one_document ?o = \<lparr>cx_document =
      Some \<lparr>md_documentId = ''d'', md_kind = Fact, md_title = ''title'', md_content = ''content'', md_revision = 1\<rparr>,
      cx_documentCount = n\<rparr>"
    by (metis memory_write_context.surjective unit.exhaust)
  have v: "validateRestore (restore_request sample_restore) = None" by code_simp
  have "rr_documentId (restore_request sample_restore) = JStr (mr_documentId r)"
    "rr_revision (restore_request sample_restore) = Fin (of_nat (mr_revision r))"
    by (simp_all add: r restore_request_def sample_restore_def)
  from restore_undoes_deletion [OF r(1) [unfolded cx] v this] r(1) show ?thesis by auto
qed

text \<open>
  Writes keep the document limit. Whatever sequence of operator and agent writes is
  applied, a bot that starts within the limit of live documents stays within it.
\<close>

theorem writes_keep_limit:
  assumes "liveDocumentCount db s b \<le> nat MAX_MEMORY_DOCUMENTS_PER_BOT"
  shows "liveDocumentCount (foldl (\<lambda>d o'. snd (applyWrite d o')) db os) s b \<le> nat MAX_MEMORY_DOCUMENTS_PER_BOT"
  using assms by (induction os arbitrary: db) (simp_all add: applyWrite_count)

theorem writes_keep_limit_witness:
  "liveDocumentCount (foldl (\<lambda>d o'. snd (applyWrite d o')) empty_tables
     [sample_write Deliberate (sample_create ''d'')]) ''s'' ''b'' \<le> nat MAX_MEMORY_DOCUMENTS_PER_BOT"
  by (rule writes_keep_limit) code_simp

text \<open>
  A restore does not keep the document limit. Undoing a deletion adds one live document
  however many the bot has, so a bot at the limit ends above it.
\<close>

theorem restore_exceeds_limit:
  assumes "distinct (map (\<lambda>d. (dr_botId d, md_documentId d)) (document_rows db))"
    and "d \<in> set (document_rows db)" and "mt_deleted d"
    and "sc_spaceId p = dr_spaceId d" and "sc_botId p = dr_botId d" and "ro_documentId p = md_documentId d"
    and "validateRestore (restore_request p) = None"
    and "findRevision db (dr_spaceId d) (dr_botId d) (md_documentId d) (ro_revision p) = Some t"
    and "nat MAX_MEMORY_DOCUMENTS_PER_BOT \<le> liveDocumentCount db (dr_spaceId d) (dr_botId d)"
  shows "nat MAX_MEMORY_DOCUMENTS_PER_BOT <
    liveDocumentCount (snd (restoreRevision db p)) (dr_spaceId d) (dr_botId d)"
  using restore_revives [OF assms(1-8)] assms(9) by simp

theorem restore_exceeds_limit_witness:
  "\<exists>db. liveDocumentCount db ''s'' ''b'' = 200 \<and>
     nat MAX_MEMORY_DOCUMENTS_PER_BOT < liveDocumentCount (snd (restoreRevision db sample_restore)) ''s'' ''b''"
proof -
  let ?row = "\<lambda>i del. \<lparr>md_documentId = i, md_kind = Fact, md_title = ''title'', md_content = ''content'',
      md_revision = 2, mt_deleted = del, dr_spaceId = ''s'', dr_botId = ''b''\<rparr>"
  let ?rev = "revision_of sample_restore Deliberate ''u'' ''why'' True (?row ''d'' True)"
  let ?db = "\<lparr>bot_rows = [(''b'', ''s'')],
      document_rows = ?row ''d'' True # map (\<lambda>n. ?row (dec n) False) [0..<200], revision_rows = [?rev]\<rparr>"
  have "CHR ''d'' \<notin> set (dec n)" for n
    using dec_digits [of "CHR ''d''" n] by (auto simp: is_digit_def code_unit_def simp del: dec.simps)
  then have "''d'' \<noteq> dec n" for n by (metis list.set_intros(1))
  then have keys: "distinct (map (\<lambda>d. (dr_botId d, md_documentId d)) (document_rows ?db))"
    by (auto simp: distinct_map inj_on_def comp_def simp del: dec.simps)
  have n: "liveDocumentCount ?db ''s'' ''b'' = 200"
    by (simp add: liveDocumentCount_def comp_def del: dec.simps upt_Suc)
  have v: "validateRestore (restore_request sample_restore) = None" by code_simp
  have "findRevision ?db ''s'' ''b'' ''d'' (ro_revision sample_restore) = Some (toRevision ?rev)"
    by (simp add: findRevision_def sample_restore_def)
  with restore_exceeds_limit [OF keys, of "?row ''d'' True" sample_restore, OF _ _ _ _ _ v] n show ?thesis
    by (auto simp: sample_restore_def MAX_MEMORY_DOCUMENTS_PER_BOT_def simp del: dec.simps upt_Suc)
qed

section \<open>Compaction and recall\<close>

definition sample_messages :: "conversation_message list" where
  "sample_messages =
     [\<lparr>cm_messageId = JStr ''m1'', cm_role = JStr ''user'', cm_text = ''a''\<rparr>,
      \<lparr>cm_messageId = JStr ''m2'', cm_role = JStr ''assistant'', cm_text = ''b''\<rparr>,
      \<lparr>cm_messageId = JStr ''m3'', cm_role = JStr ''user'', cm_text = ''c''\<rparr>]"

definition sample_document :: "string \<Rightarrow> string \<Rightarrow> memory_document" where
  "sample_document i c =
     \<lparr>md_documentId = i, md_kind = Fact, md_title = ''title'', md_content = c, md_revision = 1\<rparr>"

definition sample_request :: compaction_request where
  "sample_request = \<lparr>cr_messages = sample_messages, cr_memoryDocuments = [sample_document ''d'' ''x''],
     cr_keepRecentMessages = Fin 1\<rparr>"

text \<open>
  A compaction plan splits the conversation and leaves memory alone. The summarised ids
  followed by the kept messages' ids are the conversation in order, without a repetition; the
  kept messages are the most recent ones, as many as asked for or all there are; the plan's
  memory passes the preservation check; and the summary request for a plan that summarises
  anything is the fixed instruction and the summarised messages, in order.
\<close>

theorem compaction_plan_correct:
  assumes "planCompaction q = Inr p" and "distinct (map md_documentId (cr_memoryDocuments q))"
  shows "cp_summarisedMessageIds p @ map (\<lambda>m. str_of (cm_messageId m)) (cp_keptMessages p) =
      map (\<lambda>m. str_of (cm_messageId m)) (cr_messages q) \<and>
    distinct (map (\<lambda>m. str_of (cm_messageId m)) (cr_messages q)) \<and>
    suffix (cp_keptMessages p) (cr_messages q) \<and>
    length (cp_keptMessages p) = min (length (cr_messages q)) (nat (to_int (cr_keepRecentMessages q))) \<and>
    assertMemoryPreserved (cr_memoryDocuments q) (cp_memoryDocuments p) = Inr () \<and>
    (cp_summarisedMessageIds p \<noteq> [] \<longrightarrow>
      compactionSummaryRequest (cr_messages q) p =
        Inr [System_message COMPACTION_SUMMARY_INSTRUCTIONS,
             User_message (join newline2 (map summary_line
               (take (length (cr_messages q) - length (cp_keptMessages p)) (cr_messages q))))])"
proof -
  obtain n where n: "n = length (cr_messages q) - nat (to_int (cr_keepRecentMessages q))"
    and p: "cp_keptMessages p = drop n (cr_messages q)"
      "cp_summarisedMessageIds p = map (\<lambda>m. str_of (cm_messageId m)) (take n (cr_messages q))"
      "cp_memoryDocuments p = cr_memoryDocuments q"
      "distinct (map (\<lambda>m. str_of (cm_messageId m)) (cr_messages q))"
    using planCompaction_Inr [OF assms(1)] by metis
  have "cp_summarisedMessageIds p @ map (\<lambda>m. str_of (cm_messageId m)) (cp_keptMessages p) =
      map (\<lambda>m. str_of (cm_messageId m)) (cr_messages q)"
    unfolding p(1,2) map_append [symmetric] append_take_drop_id ..
  moreover have "assertMemoryPreserved (cr_memoryDocuments q) (cp_memoryDocuments p) = Inr ()"
    using assertMemoryPreserved_distinct [OF assms(2) assms(2)] p(3) by simp
  ultimately show ?thesis
    using p(1,4) n summary_of_plan [OF assms(1)] by (auto simp: suffix_drop)
qed

theorem compaction_plan_correct_witness:
  "\<exists>p. planCompaction sample_request = Inr p \<and> length (cp_keptMessages p) = 1 \<and>
     assertMemoryPreserved (cr_memoryDocuments sample_request) (cp_memoryDocuments p) = Inr ()"
proof -
  have "is_ok (planCompaction sample_request)" by code_simp
  then obtain p where p: "planCompaction sample_request = Inr p"
    by (auto simp: is_ok_def split: sum.splits)
  have "distinct (map md_documentId (cr_memoryDocuments sample_request))" by code_simp
  from compaction_plan_correct [OF p this] p show ?thesis
    by (auto simp: sample_request_def sample_messages_def)
qed

text \<open>
  The preservation check, exactly. On memory lanes without repeated ids it passes when and
  only when the two lanes hold the same documents. With a repeated id it can be fooled: a
  changed copy of a document followed by the original passes.
\<close>

theorem memory_preservation_check:
  assumes "distinct (map md_documentId before)" and "distinct (map md_documentId after)"
  shows "(assertMemoryPreserved before after = Inr () \<longleftrightarrow> mset before = mset after) \<and>
    assertMemoryPreserved [d] [d\<lparr>md_content := x\<rparr>, d] = Inr ()"
  using assertMemoryPreserved_distinct [OF assms]
  by (simp add: assertMemoryPreserved_iff map_get_def)

theorem memory_preservation_check_witness:
  "assertMemoryPreserved [sample_document ''d'' ''x'', sample_document ''e'' ''y'']
     [sample_document ''e'' ''y'', sample_document ''d'' ''x''] = Inr ()"
  using memory_preservation_check [of "[sample_document ''d'' ''x'', sample_document ''e'' ''y'']"
      "[sample_document ''e'' ''y'', sample_document ''d'' ''x'']"]
  by (simp add: sample_document_def)

text \<open>
  What a prompt takes from memory is bounded and accounted for. Under valid limits the
  selection is a subsequence of the documents, whole and in order, within both the document
  and the content budget; what is not selected is counted; and when everything fits, nothing
  is left out.
\<close>

theorem recall_selection_bounded:
  assumes "selectPromptMemory ds l = Inr r"
  shows "length (pms_documents r) \<le> lim (maxDocuments l) \<and>
    content_size (pms_documents r) \<le> lim (maxContentCharacters l) \<and>
    length (pms_documents r) + pms_omitted r = length ds \<and>
    (\<exists>ks. pms_documents r = map strip_document ks \<and> subseq ks ds) \<and>
    (length ds \<le> lim (maxDocuments l) \<and>
     sum_list (map (\<lambda>d. length (md_content d)) ds) \<le> lim (maxContentCharacters l) \<longrightarrow>
       pms_documents r = map strip_document ds)"
proof -
  let ?m = "lim (maxDocuments l)" and ?c = "lim (maxContentCharacters l)"
  have r: "r = select_loop ?m ?c ds [] 0 0" using selectPromptMemory_Inr [OF assms] .
  show ?thesis
    using select_loop_bounds [of "[]" ?m 0 ?c ds 0] select_loop_counts [of ?m ?c ds "[]" 0 0]
      select_loop_subseq [of ?m ?c ds "[]" 0 0] select_loop_all [of "[]" ds ?m 0 ?c 0]
    unfolding r by auto
qed

theorem recall_selection_bounded_witness:
  "\<exists>r. selectPromptMemory [sample_document ''d'' ''x'', sample_document ''e'' ''y'']
       (DEFAULT_RECALL_LIMITS\<lparr>maxDocuments := Fin 1\<rparr>) = Inr r \<and>
     length (pms_documents r) + pms_omitted r = 2"
proof -
  have "is_ok (selectPromptMemory [sample_document ''d'' ''x'', sample_document ''e'' ''y'']
      (DEFAULT_RECALL_LIMITS\<lparr>maxDocuments := Fin 1\<rparr>))"
    by code_simp
  then obtain r where r: "selectPromptMemory [sample_document ''d'' ''x'', sample_document ''e'' ''y'']
      (DEFAULT_RECALL_LIMITS\<lparr>maxDocuments := Fin 1\<rparr>) = Inr r"
    by (auto simp: is_ok_def split: sum.splits)
  with recall_selection_bounded [OF r] show ?thesis by auto
qed

end
