(* ===== verification/Prompt_Facts.thy ===== *)
theory Prompt_Facts
  imports Prompt
begin

text \<open>
  What the composer guarantees: one section per id, chosen by strictly highest precedence, the
  sections in order between the identity that opens and the memory that closes the prompt, the
  notice on every data section, and no external or remembered text outside the data channel.
\<close>

section \<open>Groups and winners\<close>

lemma nub_props [simp]: "set (nub xs) = set xs" "distinct (nub xs)"
  by (simp_all add: nub_def)

lemma groupSections_props:
  "g \<in> set (groupSections ds) \<Longrightarrow> g \<noteq> []"
  "g \<in> set (groupSections ds) \<Longrightarrow> set g \<subseteq> set ds"
  by (auto simp: groupSections_def filter_empty_conv)

lemma foldl_best:
  "foldl (\<lambda>best c. if ds_precedence c > ds_precedence best then c else best) d ds \<in> set (d # ds) \<and>
   (\<forall>x \<in> set (d # ds). ds_precedence x \<le>
      ds_precedence (foldl (\<lambda>best c. if ds_precedence c > ds_precedence best then c else best) d ds))"
proof (induction ds arbitrary: d)
  case Nil
  show ?case by simp
next
  case (Cons c cs)
  show ?case
  proof (cases "ds_precedence c > ds_precedence d")
    case True
    with Cons.IH [of c] show ?thesis by auto
  next
    case False
    with Cons.IH [of d] show ?thesis by auto
  qed
qed

lemma winner_props:
  assumes "g \<noteq> []"
  shows "winner g \<in> set g" and "d \<in> set g \<Longrightarrow> ds_precedence d \<le> ds_precedence (winner g)"
proof -
  obtain c cs where g: "g = c # cs" using assms by (cases g) auto
  show "winner g \<in> set g" using foldl_best [of c cs] by (simp only: g winner.simps)
  show "d \<in> set g \<Longrightarrow> ds_precedence d \<le> ds_precedence (winner g)"
    using foldl_best [of c cs] by (simp only: g winner.simps)
qed

lemma resolveGroup_Inr:
  assumes "resolveGroup g = Inr (w, ls)" and "g \<noteq> []"
  shows "w \<in> set g" and "d \<in> set (remove1 w g) \<Longrightarrow> ds_precedence d < ds_precedence w"
    and "ls = map cs_id (remove1 w g)"
proof -
  from assms(1) have w: "w = winner g" "ls = map cs_id (remove1 w g)"
    "\<forall>l \<in> set (remove1 w g). ds_precedence l \<noteq> ds_precedence w"
    by (auto simp: resolveGroup_def Let_def list_ex_iff split: if_splits)
  show "w \<in> set g" using w(1) winner_props [OF assms(2)] by simp
  show "ls = map cs_id (remove1 w g)" by (rule w(2))
  show "ds_precedence d < ds_precedence w" if d: "d \<in> set (remove1 w g)"
    using w d winner_props(2) [OF assms(2), of d] set_remove1_subset [of w g]
    by (auto simp: order_le_less)
qed

lemma mapE_source: "mapE f xs = Inr ys \<Longrightarrow> y \<in> set ys \<Longrightarrow> \<exists>x \<in> set xs. f x = Inr y"
  by (induction xs arbitrary: ys) (auto simp: result_simps)

lemma resolved_groups:
  assumes "mapE resolveGroup (map (\<lambda>i. filter (\<lambda>d. cs_id d = i) ds) is) = Inr rs"
    and "set is \<subseteq> cs_id ` set ds"
  shows "map (\<lambda>r. cs_id (fst r)) rs = is \<and>
    (\<forall>r \<in> set rs. resolveGroup (filter (\<lambda>d. cs_id d = cs_id (fst r)) ds) = Inr r \<and>
       fst r \<in> set ds)"
  using assms
proof (induction "is" arbitrary: rs)
  case Nil
  then show ?case by simp
next
  case (Cons i "is")
  let ?g = "filter (\<lambda>d. cs_id d = i) ds"
  from Cons.prems(1) obtain r rs' where r: "resolveGroup ?g = Inr r" and rs: "rs = r # rs'"
    and rs': "mapE resolveGroup (map (\<lambda>i. filter (\<lambda>d. cs_id d = i) ds) is) = Inr rs'"
    by (auto simp: result_simps)
  have "?g \<noteq> []" using Cons.prems(2) by (auto simp: filter_empty_conv)
  with r have "fst r \<in> set ?g" using resolveGroup_Inr(1) by (metis prod.collapse)
  with r Cons.IH [OF rs'] Cons.prems(2) show ?case by (auto simp: rs)
qed

lemma resolveSections_groups:
  assumes "resolveSections ds = Inr (kept, lost)"
  obtains rs where "kept = sort_key section_key (map fst rs)" "lost = sort (nub (concat (map snd rs)))"
    "map (\<lambda>r. cs_id (fst r)) rs = nub (map cs_id ds)"
    "\<And>w ls. (w, ls) \<in> set rs \<Longrightarrow> w \<in> set ds \<and>
       ls = map cs_id (remove1 w (filter (\<lambda>x. cs_id x = cs_id w) ds)) \<and>
       (\<forall>d \<in> set (remove1 w (filter (\<lambda>x. cs_id x = cs_id w) ds)). ds_precedence d < ds_precedence w)"
proof -
  from assms obtain rs where rs: "mapE resolveGroup (groupSections ds) = Inr rs"
    and out: "kept = sort_key section_key (map fst rs)" "lost = sort (nub (concat (map snd rs)))"
    by (auto simp: resolveSections_def result_simps)
  have R: "map (\<lambda>r. cs_id (fst r)) rs = nub (map cs_id ds)"
    "r \<in> set rs \<Longrightarrow> resolveGroup (filter (\<lambda>d. cs_id d = cs_id (fst r)) ds) = Inr r \<and> fst r \<in> set ds" for r
    using resolved_groups [OF rs [unfolded groupSections_def]] by auto
  show ?thesis
  proof (rule that [OF out R(1)])
    fix w ls
    assume "(w, ls) \<in> set rs"
    then have g: "resolveGroup (filter (\<lambda>x. cs_id x = cs_id w) ds) = Inr (w, ls)" "w \<in> set ds"
      using R(2) by force+
    moreover have "filter (\<lambda>x. cs_id x = cs_id w) ds \<noteq> []" using g(2) by (auto simp: filter_empty_conv)
    ultimately show "w \<in> set ds \<and> ls = map cs_id (remove1 w (filter (\<lambda>x. cs_id x = cs_id w) ds)) \<and>
       (\<forall>d \<in> set (remove1 w (filter (\<lambda>x. cs_id x = cs_id w) ds)). ds_precedence d < ds_precedence w)"
      using resolveGroup_Inr by blast
  qed
qed

lemma resolveSections_Inr:
  assumes "resolveSections ds = Inr (kept, lost)"
  shows "distinct (map cs_id kept)" and "set (map cs_id kept) = set (map cs_id ds)"
    and "set kept \<subseteq> set ds" and "sorted (map section_key kept)"
    and "k \<in> set kept \<Longrightarrow> d \<in> set (remove1 k (filter (\<lambda>x. cs_id x = cs_id k) ds)) \<Longrightarrow>
           ds_precedence d < ds_precedence k"
proof -
  obtain rs where kept: "kept = sort_key section_key (map fst rs)"
    and ids: "map (\<lambda>r. cs_id (fst r)) rs = nub (map cs_id ds)"
    and grp: "\<And>w ls. (w, ls) \<in> set rs \<Longrightarrow> w \<in> set ds \<and>
       ls = map cs_id (remove1 w (filter (\<lambda>x. cs_id x = cs_id w) ds)) \<and>
       (\<forall>d \<in> set (remove1 w (filter (\<lambda>x. cs_id x = cs_id w) ds)). ds_precedence d < ds_precedence w)"
    by (rule resolveSections_groups [OF assms]) blast
  have m: "mset (map cs_id kept) = mset (nub (map cs_id ds))"
    unfolding ids [symmetric] kept mset_map mset_sort by (simp add: multiset.map_comp comp_def)
  show "distinct (map cs_id kept)" using mset_eq_imp_distinct_iff [OF m] by simp
  show "set (map cs_id kept) = set (map cs_id ds)" using mset_eq_setD [OF m] by simp
  show "set kept \<subseteq> set ds" using grp by (auto simp: kept)
  show "sorted (map section_key kept)" by (simp add: kept)
  show "ds_precedence d < ds_precedence k"
    if "k \<in> set kept" "d \<in> set (remove1 k (filter (\<lambda>x. cs_id x = cs_id k) ds))"
    using that grp by (auto simp: kept)
qed

lemma set_loser_ids:
  assumes "w \<in> set ds"
  shows "set (map cs_id (remove1 w (filter (\<lambda>x. cs_id x = cs_id w) ds))) =
    (if 1 < length (filter (\<lambda>x. cs_id x = cs_id w) ds) then {cs_id w} else {})"
proof -
  let ?g = "filter (\<lambda>x. cs_id x = cs_id w) ds"
  have len: "length (remove1 w ?g) = length ?g - 1" using assms by (simp add: length_remove1)
  have sub: "cs_id ` set (remove1 w ?g) \<subseteq> {cs_id w}"
    using set_remove1_subset [of w ?g] by auto
  show ?thesis
  proof (cases "1 < length ?g")
    case True
    with len have "remove1 w ?g \<noteq> []" by auto
    with sub True show ?thesis by (auto simp: subset_singleton_iff)
  next
    case False
    with len have "remove1 w ?g = []" by auto
    with False show ?thesis by simp
  qed
qed

text \<open>A superseded id is reported exactly when two drafts claim it, and once.\<close>

lemma resolveSections_lost:
  assumes "resolveSections ds = Inr (kept, lost)"
  shows "sorted lost" and "distinct lost"
    and "set lost = {i. 1 < length (filter (\<lambda>x. cs_id x = i) ds)}"
proof -
  obtain rs where lost: "lost = sort (nub (concat (map snd rs)))"
    and ids: "map (\<lambda>r. cs_id (fst r)) rs = nub (map cs_id ds)"
    and grp: "\<And>w ls. (w, ls) \<in> set rs \<Longrightarrow> w \<in> set ds \<and>
       ls = map cs_id (remove1 w (filter (\<lambda>x. cs_id x = cs_id w) ds))"
    by (rule resolveSections_groups [OF assms]) blast
  show "sorted lost" "distinct lost" by (simp_all add: lost)
  have L: "set ls = (if 1 < length (filter (\<lambda>x. cs_id x = cs_id w) ds) then {cs_id w} else {})"
    if "(w, ls) \<in> set rs" for w ls
    using grp [OF that] set_loser_ids [of w ds] by simp
  have all: "\<exists>w ls. (w, ls) \<in> set rs \<and> cs_id w = i"
    if "1 < length (filter (\<lambda>x. cs_id x = i) ds)" for i
  proof -
    from that have "filter (\<lambda>x. cs_id x = i) ds \<noteq> []" by auto
    then have "i \<in> set (map (\<lambda>r. cs_id (fst r)) rs)" unfolding ids by (auto simp: filter_empty_conv)
    then show ?thesis by auto
  qed
  show "set lost = {i. 1 < length (filter (\<lambda>x. cs_id x = i) ds)}"
  proof (intro set_eqI iffI)
    fix i
    assume "i \<in> set lost"
    then obtain w ls where "(w, ls) \<in> set rs" "i \<in> set ls" by (auto simp: lost)
    with L [of w ls] show "i \<in> {i. 1 < length (filter (\<lambda>x. cs_id x = i) ds)}"
      by (auto split: if_splits)
  next
    fix i
    assume i: "i \<in> {i. 1 < length (filter (\<lambda>x. cs_id x = i) ds)}"
    then obtain w ls where w: "(w, ls) \<in> set rs" "cs_id w = i" using all by blast
    with L [of w ls] i have "i \<in> set ls" by simp
    with w show "i \<in> set lost" by (force simp: lost)
  qed
qed

section \<open>Drafts\<close>

definition caller_draft :: "draft_section \<Rightarrow> bool" where
  "caller_draft d =
     (identity_order < ds_order d \<and> ds_order d < memory_order \<and> \<not> prefix ''system.'' (cs_id d))"

definition notice_ok :: "draft_section \<Rightarrow> bool" where
  "notice_ok d = (cs_channel d = Data_channel \<longrightarrow> prefix DATA_CHANNEL_NOTICE (cs_body d))"

lemma section_channel_Some:
  "section_channel v = Some c \<Longrightarrow>
   c = Instruction_channel \<and> v \<in> {JUndefined, JNull, JStr ''instruction''} \<or>
   c = Data_channel \<and> v = JStr ''data''"
  by (auto simp: section_channel_def PROMPT_SECTION_CHANNELS_def split: js.splits if_splits)

lemma draftCallerSection_Inr:
  assumes "draftCallerSection s = Inr d"
  shows "caller_draft d" and "notice_ok d"
    and "cs_channel d = Instruction_channel \<Longrightarrow>
           ps_channel s \<noteq> JStr ''data'' \<and> cs_body d = normalizeText (ps_content s)"
    and "section_channel (ps_channel s) = Some (cs_channel d)"
    and "cs_id d = normalizeText (ps_id s)"
proof -
  from assms obtain c q p where c: "section_channel (ps_channel s) = Some c"
    and b: "\<not> (q \<le> identity_order \<or> q \<ge> memory_order)" "\<not> prefix ''system.'' (normalizeText (ps_id s))"
    and d: "d = \<lparr>cs_id = normalizeText (ps_id s), cs_heading = normalizeInline (ps_heading s),
      cs_channel = c, cs_body = renderBody c (normalizeText (ps_content s)), ds_order = q, ds_precedence = p\<rparr>"
    by (auto simp: draftCallerSection_def Let_def result_simps split: if_splits option.splits)
  show "caller_draft d" using b by (simp add: d caller_draft_def)
  show "notice_ok d" by (cases c) (simp_all add: d notice_ok_def)
  show "section_channel (ps_channel s) = Some (cs_channel d)" by (simp add: d c)
  show "cs_id d = normalizeText (ps_id s)" by (simp add: d)
  show "ps_channel s \<noteq> JStr ''data'' \<and> cs_body d = normalizeText (ps_content s)"
    if "cs_channel d = Instruction_channel"
    using that section_channel_Some [OF c] by (auto simp: d)
qed

lemma draftMemorySection_Inr:
  assumes "draftMemorySection ms = Inr m"
  shows "m = None \<longleftrightarrow> ms = []"
    and "m = Some d \<Longrightarrow> cs_id d = memory_id \<and> ds_order d = memory_order \<and>
           cs_channel d = Data_channel \<and> notice_ok d"
  using assms by (auto simp: draftMemorySection_def notice_ok_def result_simps split: if_splits)

lemma draftSections_Inr:
  assumes "draftSections input = Inr ds"
  obtains body callers mem where "renderIdentity (ci_bot input) = Inr body"
    and "ds = identityDraft body # instructionsDraft (ci_instructions input) @ callers @ mem"
    and "mapE draftCallerSection (ci_sections input) = Inr callers"
    and "\<forall>d \<in> set callers. caller_draft d \<and> notice_ok d"
    and "ci_memory input = [] \<and> mem = [] \<or> ci_memory input \<noteq> [] \<and> (\<exists>m. mem = [m] \<and>
      cs_id m = memory_id \<and> ds_order m = memory_order \<and> cs_channel m = Data_channel \<and> notice_ok m)"
proof -
  from assms obtain body callers m where 1: "renderIdentity (ci_bot input) = Inr body"
    and 2: "mapE draftCallerSection (ci_sections input) = Inr callers"
    and 3: "draftMemorySection (ci_memory input) = Inr m"
    and 4: "ds = identityDraft body # instructionsDraft (ci_instructions input) @ callers @
      (case m of None \<Rightarrow> [] | Some m \<Rightarrow> [m])"
    by (auto simp: draftSections_def result_simps)
  have "\<forall>d \<in> set callers. caller_draft d \<and> notice_ok d"
  proof
    fix d
    assume "d \<in> set callers"
    with mapE_source [OF 2] obtain s where "draftCallerSection s = Inr d" by blast
    then show "caller_draft d \<and> notice_ok d" using draftCallerSection_Inr by blast
  qed
  moreover have "ci_memory input = [] \<and> (case m of None \<Rightarrow> [] | Some m \<Rightarrow> [m]) = [] \<or>
      ci_memory input \<noteq> [] \<and> (\<exists>x. (case m of None \<Rightarrow> [] | Some m \<Rightarrow> [m]) = [x] \<and>
      cs_id x = memory_id \<and> ds_order x = memory_order \<and> cs_channel x = Data_channel \<and> notice_ok x)"
    using draftMemorySection_Inr [OF 3] by (cases m) auto
  ultimately show ?thesis by (rule that [OF 1 4 2])
qed

section \<open>The composed prompt\<close>

lemma sorted_hd_unique:
  assumes "sorted (map f xs)" and "x \<in> set xs" and "\<And>y. y \<in> set xs \<Longrightarrow> y \<noteq> x \<Longrightarrow> f x < f y"
  shows "hd xs = x"
  using assms by (cases xs) (auto simp: not_less [symmetric])

lemma sorted_last_unique:
  assumes "sorted (map f xs)" and "x \<in> set xs" and "\<And>y. y \<in> set xs \<Longrightarrow> y \<noteq> x \<Longrightarrow> f y < f x"
  shows "last xs = x"
  using assms by (cases xs rule: rev_cases) (auto simp: not_less [symmetric] sorted_append)

lemma composeSystemPrompt_Inr:
  assumes "composeSystemPrompt input = Inr p"
  obtains ds kept lost where "draftSections input = Inr ds" and "resolveSections ds = Inr (kept, lost)"
    and "cpr_sections p = map composed_section.truncate kept" and "cpr_supersededSectionIds p = lost"
    and "cpr_text p = join [LF, LF] (map renderSection (cpr_sections p))"
  using assms by (auto simp: composeSystemPrompt_def Let_def result_simps)

lemma truncate_fields [simp]:
  "cs_id (composed_section.truncate d) = cs_id d"
  "cs_channel (composed_section.truncate d) = cs_channel d"
  "cs_body (composed_section.truncate d) = cs_body d"
  by (simp_all add: composed_section.defs)

lemma system_prefixes:
  "prefix ''system.'' identity_id" "prefix ''system.'' instructions_id" "prefix ''system.'' memory_id"
  by (simp_all add: identity_id_def instructions_id_def memory_id_def)

lemma instructionsDraft_props:
  "d \<in> set (instructionsDraft v) \<Longrightarrow>
   cs_id d = instructions_id \<and> ds_order d = instructions_order \<and> cs_channel d = Instruction_channel \<and>
   cs_body d = normalizeText v"
  by (auto simp: instructionsDraft_def Let_def split: if_splits)

datatype draft_origin = From_identity | From_instructions | From_caller prompt_section | From_memory

definition drafted :: "compose_prompt_input \<Rightarrow> string \<Rightarrow> draft_section \<Rightarrow> draft_origin \<Rightarrow> bool" where
  "drafted input body d w =
     (case w of
        From_identity \<Rightarrow> d = identityDraft body
      | From_instructions \<Rightarrow> d \<in> set (instructionsDraft (ci_instructions input))
      | From_caller s \<Rightarrow> s \<in> set (ci_sections input) \<and> draftCallerSection s = Inr d
      | From_memory \<Rightarrow> ci_memory input \<noteq> [] \<and> cs_id d = memory_id \<and> ds_order d = memory_order \<and>
          cs_channel d = Data_channel \<and> notice_ok d)"

lemma draft_origins:
  assumes "draftSections input = Inr ds" and "renderIdentity (ci_bot input) = Inr body"
  shows "d \<in> set ds \<Longrightarrow> \<exists>w. drafted input body d w" and "identityDraft body \<in> set ds"
    and "ci_memory input \<noteq> [] \<Longrightarrow> memory_id \<in> cs_id ` set ds"
proof -
  obtain callers mem where ds: "ds = identityDraft body # instructionsDraft (ci_instructions input) @ callers @ mem"
    and c: "mapE draftCallerSection (ci_sections input) = Inr callers"
    and m: "ci_memory input = [] \<and> mem = [] \<or> ci_memory input \<noteq> [] \<and> (\<exists>m. mem = [m] \<and>
      cs_id m = memory_id \<and> ds_order m = memory_order \<and> cs_channel m = Data_channel \<and> notice_ok m)"
    by (rule draftSections_Inr [OF assms(1)]) (use assms(2) in auto)
  have "\<exists>w. drafted input body d w" if d: "d \<in> set callers" for d
  proof -
    obtain s where "s \<in> set (ci_sections input)" "draftCallerSection s = Inr d"
      using mapE_source [OF c d] by blast
    then have "drafted input body d (From_caller s)" by (simp add: drafted_def)
    then show ?thesis ..
  qed
  moreover have "drafted input body d From_identity" if "d = identityDraft body" for d
    using that by (simp add: drafted_def)
  moreover have "drafted input body d From_instructions"
    if "d \<in> set (instructionsDraft (ci_instructions input))" for d
    using that by (simp add: drafted_def)
  moreover have "drafted input body d From_memory" if "d \<in> set mem" for d
    using that m by (auto simp: drafted_def)
  ultimately show "d \<in> set ds \<Longrightarrow> \<exists>w. drafted input body d w" unfolding ds by auto
  show "identityDraft body \<in> set ds" by (simp add: ds)
  show "ci_memory input \<noteq> [] \<Longrightarrow> memory_id \<in> cs_id ` set ds" using m by (auto simp: ds)
qed

lemma drafted_order:
  assumes "drafted input body d w"
  shows "cs_id d = identity_id \<longleftrightarrow> w = From_identity" and "cs_id d = memory_id \<longleftrightarrow> w = From_memory"
    and "w \<noteq> From_identity \<Longrightarrow> identity_order < ds_order d"
    and "w \<noteq> From_memory \<Longrightarrow> ds_order d < memory_order"
  using assms system_prefixes draftCallerSection_Inr(1) instructionsDraft_props
  by (fastforce simp: drafted_def caller_draft_def identityDraft_def identity_id_def memory_id_def
      instructions_id_def identity_order_def instructions_order_def memory_order_def
      split: draft_origin.splits)+

lemma kept_identity:
  assumes "draftSections input = Inr ds" and "resolveSections ds = Inr (kept, lost)"
    and "renderIdentity (ci_bot input) = Inr body"
  shows "kept \<noteq> []" and "hd kept = identityDraft body"
proof -
  note R = resolveSections_Inr [OF assms(2)] and O = draft_origins [OF assms(1,3)]
  have "identity_id \<in> set (map cs_id kept)"
    unfolding R(2) using O(2) by (force simp: identityDraft_def)
  then obtain d where d: "d \<in> set kept" "cs_id d = identity_id" by auto
  then obtain w where "drafted input body d w" using R(3) O(1) by blast
  with d(2) have "d = identityDraft body"
    using drafted_order(1) [of input body d w] by (simp add: drafted_def)
  with d have i: "identityDraft body \<in> set kept" by simp
  show "kept \<noteq> []" using i by auto
  show "hd kept = identityDraft body"
  proof (rule sorted_hd_unique [OF R(4) i])
    fix y
    assume y: "y \<in> set kept" "y \<noteq> identityDraft body"
    then obtain w where w: "drafted input body y w" using R(3) O(1) by blast
    with y have "w \<noteq> From_identity" by (auto simp: drafted_def)
    with drafted_order(3) [OF w] show "section_key (identityDraft body) < section_key y"
      by (simp add: section_key_def identityDraft_def)
  qed
qed

lemma kept_memory:
  assumes "draftSections input = Inr ds" and "resolveSections ds = Inr (kept, lost)"
    and "ci_memory input \<noteq> []"
  shows "kept \<noteq> []" and "cs_id (last kept) = memory_id \<and> cs_channel (last kept) = Data_channel"
proof -
  obtain body where b: "renderIdentity (ci_bot input) = Inr body"
    by (rule draftSections_Inr [OF assms(1)])
  note R = resolveSections_Inr [OF assms(2)] and O = draft_origins [OF assms(1) b]
  have "memory_id \<in> set (map cs_id kept)" unfolding R(2) using O(3) assms(3) by simp
  then obtain d where d: "d \<in> set kept" "cs_id d = memory_id" by auto
  then obtain w where w: "drafted input body d w" using R(3) O(1) by blast
  with d(2) have dm: "w = From_memory" using drafted_order(2) by blast
  have "last kept = d"
  proof (rule sorted_last_unique [OF R(4) d(1)])
    fix y
    assume y: "y \<in> set kept" "y \<noteq> d"
    then obtain v where v: "drafted input body y v" using R(3) O(1) by blast
    have "cs_id y \<noteq> cs_id d" using R(1) y d(1) by (auto simp: distinct_map dest: inj_onD)
    with d(2) have "v \<noteq> From_memory" using drafted_order(2) [OF v] by auto
    then show "section_key y < section_key d"
      using drafted_order(4) [OF v] w dm by (simp add: section_key_def drafted_def)
  qed
  with w dm show "cs_id (last kept) = memory_id \<and> cs_channel (last kept) = Data_channel"
    by (simp add: drafted_def)
  show "kept \<noteq> []" using d by auto
qed

text \<open>Where the text of a section in the instruction channel can come from.\<close>

definition instruction_source :: "compose_prompt_input \<Rightarrow> string \<Rightarrow> bool" where
  "instruction_source input body =
     (renderIdentity (ci_bot input) = Inr body \<or> normalizeText (ci_instructions input) = body \<or>
      list_ex (\<lambda>s. ps_channel s \<noteq> JStr ''data'' \<and> normalizeText (ps_content s) = body)
        (ci_sections input))"

lemma drafted_channel:
  assumes "drafted input body d w" and "renderIdentity (ci_bot input) = Inr body"
  shows "notice_ok d" and "cs_channel d = Instruction_channel \<Longrightarrow> instruction_source input (cs_body d)"
proof -
  show "notice_ok d"
    using assms draftCallerSection_Inr(2) instructionsDraft_props [of d]
    by (cases w) (auto simp: drafted_def notice_ok_def identityDraft_def)
  assume i: "cs_channel d = Instruction_channel"
  show "instruction_source input (cs_body d)"
  proof (cases w)
    case (From_caller s)
    with assms have s: "s \<in> set (ci_sections input)" "draftCallerSection s = Inr d"
      by (simp_all add: drafted_def)
    with draftCallerSection_Inr(3) [OF s(2) i] show ?thesis
      by (auto simp: instruction_source_def list_ex_iff)
  qed (use assms i instructionsDraft_props [of d] in
      \<open>auto simp: drafted_def instruction_source_def identityDraft_def\<close>)
qed

lemma composed_sections:
  assumes "composeSystemPrompt input = Inr p"
  shows "distinct (map cs_id (cpr_sections p))"
    and "cpr_sections p \<noteq> []" and "cs_id (hd (cpr_sections p)) = identity_id"
    and "ci_memory input \<noteq> [] \<Longrightarrow>
           cs_id (last (cpr_sections p)) = memory_id \<and> cs_channel (last (cpr_sections p)) = Data_channel"
    and "s \<in> set (cpr_sections p) \<Longrightarrow> cs_channel s = Data_channel \<Longrightarrow>
           prefix DATA_CHANNEL_NOTICE (cs_body s)"
    and "s \<in> set (cpr_sections p) \<Longrightarrow> cs_channel s = Instruction_channel \<Longrightarrow>
           instruction_source input (cs_body s)"
proof -
  obtain ds kept lost where ds: "draftSections input = Inr ds" and k: "resolveSections ds = Inr (kept, lost)"
    and p: "cpr_sections p = map composed_section.truncate kept"
    by (rule composeSystemPrompt_Inr [OF assms])
  obtain body where b: "renderIdentity (ci_bot input) = Inr body"
    by (rule draftSections_Inr [OF ds])
  note K = kept_identity [OF ds k b] and R = resolveSections_Inr [OF k]
  show "distinct (map cs_id (cpr_sections p))" using R(1) by (simp add: p comp_def)
  show "cpr_sections p \<noteq> []" using K by (simp add: p)
  show "cs_id (hd (cpr_sections p)) = identity_id"
    using K by (simp add: p hd_map) (simp add: identityDraft_def)
  show "cs_id (last (cpr_sections p)) = memory_id \<and> cs_channel (last (cpr_sections p)) = Data_channel"
    if "ci_memory input \<noteq> []"
    using kept_memory [OF ds k that] by (simp add: p last_map)
  have D: "\<exists>d w. drafted input body d w \<and> s = composed_section.truncate d" if "s \<in> set (cpr_sections p)"
  proof -
    from that obtain d where d: "d \<in> set kept" "s = composed_section.truncate d" by (auto simp: p)
    with R(3) draft_origins(1) [OF ds b] show ?thesis by blast
  qed
  show "prefix DATA_CHANNEL_NOTICE (cs_body s)"
    if "s \<in> set (cpr_sections p)" "cs_channel s = Data_channel"
    using D [OF that(1)] that(2) drafted_channel(1) [OF _ b] by (auto simp: notice_ok_def)
  show "instruction_source input (cs_body s)"
    if "s \<in> set (cpr_sections p)" "cs_channel s = Instruction_channel"
    using D [OF that(1)] that(2) drafted_channel(2) [OF _ b] by auto
qed

section \<open>Runs\<close>

lemma untrustedPromptSection_Inr:
  "untrustedPromptSection v i order h = Inr s \<Longrightarrow>
   ps_channel s = JStr ''data'' \<and> ps_id s = JStr i \<and> isUntrustedContent v"
  by (auto simp: untrustedPromptSection_def Let_def split: if_splits)

lemma ingestedSections_data:
  assumes "ingestedSections vs order = Inr ss" and "s \<in> set ss"
  shows "ps_channel s = JStr ''data''"
proof -
  from assms obtain i v where "untrustedPromptSection v (''ingested.'' @ dec i) order None = Inr s"
    by (auto simp: ingestedSections_def dest!: mapE_source)
  then show ?thesis by (auto dest: untrustedPromptSection_Inr)
qed

lemma composeRunPrompt_Inr:
  assumes "composeRunPrompt input = Inr r"
  obtains order ingested where "ingestedSections (ri_ingested input) order = Inr ingested"
    and "composeSystemPrompt \<lparr>ci_bot = ri_bot input, ci_instructions = ri_instructions input,
      ci_sections = ri_sections input @ ingested, ci_memory = pms_documents (rp_memory r)\<rparr> = Inr (rp_prompt r)"
    and "selectPromptMemory (ri_memory input)
      (case ri_limits input of None \<Rightarrow> DEFAULT_RECALL_LIMITS | Some l \<Rightarrow> l) = Inr (rp_memory r)"
    and "rp_systemPrompt r = cpr_text (rp_prompt r)"
  using assms by (auto simp: composeRunPrompt_def Let_def result_simps split: sum.splits)

lemma run_instructions:
  assumes "composeRunPrompt input = Inr r" and "s \<in> set (cpr_sections (rp_prompt r))"
    and "cs_channel s = Instruction_channel"
  shows "renderIdentity (ri_bot input) = Inr (cs_body s) \<or>
    normalizeText (ri_instructions input) = cs_body s \<or>
    (\<exists>c \<in> set (ri_sections input). ps_channel c \<noteq> JStr ''data'' \<and> normalizeText (ps_content c) = cs_body s)"
proof -
  obtain order ingested where i: "ingestedSections (ri_ingested input) order = Inr ingested"
    and c: "composeSystemPrompt \<lparr>ci_bot = ri_bot input, ci_instructions = ri_instructions input,
      ci_sections = ri_sections input @ ingested, ci_memory = pms_documents (rp_memory r)\<rparr> = Inr (rp_prompt r)"
    by (rule composeRunPrompt_Inr [OF assms(1)])
  from composed_sections(6) [OF c assms(2,3)] ingestedSections_data [OF i] show ?thesis
    by (auto simp: instruction_source_def list_ex_iff)
qed

end
