(* ===== verification/Files.thy ===== *)
theory Files
  imports Prelude
begin

text \<open>
  The file vocabulary (\<open>files.ts\<close>): resolving a path against a computer's home, the refusal of
  what leaves it, the name kept of an attachment, and the content type of a file name. The
  lemmas show that a confined path is the home followed by plain segments, so it stays inside.
\<close>

section \<open>Model\<close>

definition COMPUTER_HOME_DIRECTORY :: string where
  "COMPUTER_HOME_DIRECTORY = ''/home/agent''"

definition MESSAGE_ATTACHMENTS_DIRECTORY :: string where
  "MESSAGE_ATTACHMENTS_DIRECTORY = ''attachments''"

definition MAX_ATTACHMENT_BYTES :: int where "MAX_ATTACHMENT_BYTES = 8 * 1024 * 1024"
definition MAX_ATTACHMENTS_PER_MESSAGE :: nat where "MAX_ATTACHMENTS_PER_MESSAGE = 8"
definition MAX_ATTACHMENT_FILE_NAME_LENGTH :: nat where "MAX_ATTACHMENT_FILE_NAME_LENGTH = 200"

datatype home_path_refusal = Invalid_path | Outside_home

record home_path =
  hp_path :: string
  hp_relative :: string

record resolved_path = home_path +
  hp_outside :: bool

definition homePathRefusalMessage :: "home_path_refusal \<Rightarrow> string \<Rightarrow> string" where
  "homePathRefusalMessage reason path =
     (if reason = Outside_home
      then ''\"'' @ path @ ''\" is outside this bot's home directory, so it cannot be read or written''
      else ''\"'' @ path @ ''\" is not a usable filesystem path'')"

type_synonym refusal = "home_path_refusal \<times> string"

abbreviation SLASH :: char where "SLASH \<equiv> CHR ''/''"
abbreviation NUL :: char where "NUL \<equiv> CHR 0x00"

text \<open>One turn of the segment loop; \<open>pop\<close> on an empty stack leaves it empty, like \<open>butlast\<close>.\<close>

definition push_segment :: "string list \<Rightarrow> string \<Rightarrow> string list" where
  "push_segment segments s =
     (if s = [] \<or> s = ''.'' then segments
      else if s = ''..'' then butlast segments
      else segments @ [s])"

definition path_source :: "string \<Rightarrow> string \<Rightarrow> string" where
  "path_source home input =
     (if prefix [SLASH] input then drop 1 input else drop 1 home @ [SLASH] @ input)"

definition resolveComputerPath ::
  "string \<Rightarrow> string \<Rightarrow> range_error + (refusal + resolved_path)" where
  "resolveComputerPath home input =
     (if \<not> prefix [SLASH] home \<or> home = [SLASH] then Inl (RangeError ''home'')
      else if input = [] \<or> NUL \<in> set input
      then Inr (Inl (Invalid_path, homePathRefusalMessage Invalid_path input))
      else
        let segments = foldl push_segment [] (split_on SLASH (path_source home input));
            path = SLASH # join [SLASH] segments;
            homeSegments = split_on SLASH (drop 1 home);
            outside = (path \<noteq> home \<and> \<not> prefix (home @ [SLASH]) path)
        in Inr (Inr \<lparr>hp_path = path,
                     hp_relative = (if outside then []
                                    else join [SLASH] (drop (length homeSegments) segments)),
                     hp_outside = outside\<rparr>))"

definition confineToHome :: "string \<Rightarrow> string \<Rightarrow> range_error + (refusal + home_path)" where
  "confineToHome home input =
     bindE (resolveComputerPath home input) (\<lambda>r.
       case r of
         Inl e \<Rightarrow> Inr (Inl e)
       | Inr v \<Rightarrow>
           if hp_outside v then Inr (Inl (Outside_home, homePathRefusalMessage Outside_home input))
           else Inr (Inr \<lparr>hp_path = hp_path v, hp_relative = hp_relative v\<rparr>))"

definition withoutControlCharacters :: "string \<Rightarrow> string" where
  "withoutControlCharacters s = filter (\<lambda>c. code_unit c \<ge> 32 \<and> code_unit c \<noteq> 127) s"

definition attachmentFileName :: "string \<Rightarrow> string" where
  "attachmentFileName input =
     (let base = last (split_by (\<lambda>c. c = CHR 0x5C \<or> c = SLASH) input);
          cleaned = trim (withoutControlCharacters base) in
      if cleaned = [] \<or> cleaned = ''.'' \<or> cleaned = ''..'' then ''file''
      else take MAX_ATTACHMENT_FILE_NAME_LENGTH cleaned)"

definition attachmentWorkspacePath :: "string \<Rightarrow> string \<Rightarrow> string" where
  "attachmentWorkspacePath attachmentId fileName =
     MESSAGE_ATTACHMENTS_DIRECTORY @ [SLASH] @ attachmentId @ [SLASH] @ attachmentFileName fileName"

text \<open>\<open>lastIndexOf(".")\<close>, with \<open>-1\<close> when there is none.\<close>

definition lastDot :: "string \<Rightarrow> int" where
  "lastDot s = (if CHR ''.'' \<in> set s
     then int (length s) - 1 - int (length (takeWhile (\<lambda>c. c \<noteq> CHR ''.'') (rev s))) else -1)"

definition CONTENT_TYPES :: "(string \<times> string) list" where
  "CONTENT_TYPES =
     [(''txt'', ''text/plain''), (''log'', ''text/plain''), (''md'', ''text/markdown''),
      (''csv'', ''text/csv''), (''json'', ''application/json''), (''html'', ''text/html''),
      (''htm'', ''text/html''), (''pdf'', ''application/pdf''), (''png'', ''image/png''),
      (''jpg'', ''image/jpeg''), (''jpeg'', ''image/jpeg''), (''gif'', ''image/gif''),
      (''webp'', ''image/webp''), (''svg'', ''image/svg+xml''), (''zip'', ''application/zip''),
      (''gz'', ''application/gzip''), (''tar'', ''application/x-tar''), (''mp3'', ''audio/mpeg''),
      (''wav'', ''audio/wav''), (''mp4'', ''video/mp4''), (''webm'', ''video/webm'')]"

definition contentTypeForFileName :: "string \<Rightarrow> string" where
  "contentTypeForFileName fileName =
     (let dot = lastDot fileName;
          extension = (if dot \<le> 0 then [] else toLowerCase (drop (nat dot + 1) fileName)) in
      case map_of CONTENT_TYPES extension of
        Some t \<Rightarrow> t | None \<Rightarrow> ''application/octet-stream'')"

section \<open>Segments\<close>

definition ok_segment :: "string \<Rightarrow> bool" where
  "ok_segment s = (s \<noteq> [] \<and> s \<noteq> ''.'' \<and> s \<noteq> ''..'' \<and> SLASH \<notin> set s)"

text \<open>A home below the root, written without empty or dot segments.\<close>

definition wf_home :: "string \<Rightarrow> bool" where
  "wf_home home =
     (prefix [SLASH] home \<and> NUL \<notin> set home \<and> list_all ok_segment (split_on SLASH (drop 1 home)))"

lemma push_ok: "list_all ok_segment segs \<Longrightarrow> SLASH \<notin> set s \<Longrightarrow> list_all ok_segment (push_segment segs s)"
  by (auto simp: push_segment_def ok_segment_def list_all_iff dest: in_set_butlastD)

lemma foldl_push_ok:
  "list_all ok_segment segs \<Longrightarrow> \<forall>s \<in> set ss. SLASH \<notin> set s \<Longrightarrow>
   list_all ok_segment (foldl push_segment segs ss)"
  by (induction ss arbitrary: segs) (auto intro: push_ok)

lemma split_on_no_sep: "s \<in> set (split_on c t) \<Longrightarrow> c \<notin> set s"
  using split_by_no_sep by fastforce

lemma resolved_ok: "list_all ok_segment (foldl push_segment [] (split_on SLASH s))"
  by (rule foldl_push_ok) (auto dest: split_on_no_sep)

lemma foldl_push_plain:
  "list_all ok_segment ss \<Longrightarrow> foldl push_segment segs ss = segs @ ss"
  by (induction ss arbitrary: segs) (auto simp: push_segment_def ok_segment_def)

lemma split_ok: "ss \<noteq> [] \<Longrightarrow> list_all ok_segment ss \<Longrightarrow> split_on SLASH (join [SLASH] ss) = ss"
  by (intro split_join) (auto simp: ok_segment_def list_all_iff)


section \<open>Confinement\<close>

abbreviation home_segments :: "string \<Rightarrow> string list" where
  "home_segments home \<equiv> split_on SLASH (drop 1 home)"

lemma join_ok_eq_Nil: "list_all ok_segment ss \<Longrightarrow> join [SLASH] ss = [] \<longleftrightarrow> ss = []"
proof (cases ss)
  case (Cons s rest)
  then show "list_all ok_segment ss \<Longrightarrow> ?thesis" by (cases rest) (auto simp: ok_segment_def)
qed simp

lemma join_head:
  assumes "rel \<noteq> []" and "ok_segment (hd rel)"
  shows "\<not> prefix [SLASH] (join [SLASH] rel)"
proof -
  obtain r rest where rel: "rel = r # rest" using assms(1) by (cases rel) auto
  with assms(2) obtain c cs where "r = c # cs" "c \<noteq> SLASH" by (cases r) (auto simp: ok_segment_def)
  with rel show ?thesis by (cases rest) auto
qed

lemma wf_home_join: "wf_home home \<Longrightarrow> home = SLASH # join [SLASH] (home_segments home)"
  by (auto simp: wf_home_def join_split_on prefix_def)

lemma inside_iff:
  assumes "list_all ok_segment hs" and "hs \<noteq> []" and "list_all ok_segment segs"
  shows "join [SLASH] segs = join [SLASH] hs \<or> prefix (join [SLASH] hs @ [SLASH]) (join [SLASH] segs) \<longleftrightarrow>
    prefix hs segs"
proof
  assume l: "join [SLASH] segs = join [SLASH] hs \<or> prefix (join [SLASH] hs @ [SLASH]) (join [SLASH] segs)"
  then have "segs \<noteq> []" using join_ok_eq_Nil [OF assms(1)] assms(2) by auto
  then have s: "split_on SLASH (join [SLASH] segs) = segs" using assms(3) by (rule split_ok)
  have h: "split_on SLASH (join [SLASH] hs) = hs" using assms(2,1) by (rule split_ok)
  from l show "prefix hs segs"
  proof
    assume "join [SLASH] segs = join [SLASH] hs"
    then have "split_on SLASH (join [SLASH] segs) = hs" by (simp only: h)
    then show ?thesis by (simp only: s prefix_order.order_refl)
  next
    assume "prefix (join [SLASH] hs @ [SLASH]) (join [SLASH] segs)"
    then obtain r where "join [SLASH] segs = join [SLASH] hs @ SLASH # r" by (auto simp: prefix_def)
    with s have "segs = split_on SLASH (join [SLASH] hs @ SLASH # r)" by simp
    also have "\<dots> = hs @ split_on SLASH r" by (simp only: split_by_append_sep h)
    finally have "segs = hs @ split_on SLASH r" .
    then show ?thesis by simp
  qed
next
  assume "prefix hs segs"
  then obtain t where "segs = hs @ t" by (auto simp: prefix_def)
  then show "join [SLASH] segs = join [SLASH] hs \<or> prefix (join [SLASH] hs @ [SLASH]) (join [SLASH] segs)"
    using assms(2) by (cases "t = []") (auto simp: join_append)
qed

lemma resolve_segments:
  assumes "wf_home home" and "input \<noteq> []" and "NUL \<notin> set input"
    and "foldl push_segment [] (split_on SLASH (path_source home input)) = segs"
  shows "resolveComputerPath home input = Inr (Inr
    \<lparr>hp_path = SLASH # join [SLASH] segs,
     hp_relative = (if prefix (home_segments home) segs
                    then join [SLASH] (drop (length (home_segments home)) segs) else []),
     hp_outside = (\<not> prefix (home_segments home) segs)\<rparr>)"
proof -
  have ok: "list_all ok_segment (home_segments home)" "list_all ok_segment segs"
    using assms(1) resolved_ok assms(4) by (auto simp: wf_home_def)
  have h: "home = SLASH # join [SLASH] (home_segments home)" using assms(1) by (rule wf_home_join)
  have "home \<noteq> [SLASH]"
    using h ok(1) join_ok_eq_Nil [OF ok(1)] by (metis list.inject split_by_neq_Nil)
  moreover have "SLASH # join [SLASH] segs \<noteq> home \<and> \<not> prefix (home @ [SLASH]) (SLASH # join [SLASH] segs) \<longleftrightarrow>
      \<not> prefix (home_segments home) segs"
  proof -
    have "SLASH # join [SLASH] segs = home \<longleftrightarrow> join [SLASH] segs = join [SLASH] (home_segments home)"
      by (subst h) simp
    moreover have "prefix (home @ [SLASH]) (SLASH # join [SLASH] segs) \<longleftrightarrow>
        prefix (join [SLASH] (home_segments home) @ [SLASH]) (join [SLASH] segs)"
      by (subst h) simp
    ultimately show ?thesis using inside_iff [OF ok(1) split_by_neq_Nil ok(2)] by blast
  qed
  ultimately show ?thesis
    using assms by (simp add: resolveComputerPath_def Let_def wf_home_def)
qed

lemma confine_inside:
  assumes "confineToHome home input = Inr (Inr v)" and "wf_home home"
  obtains rel where "list_all ok_segment rel" and "hp_relative v = join [SLASH] rel"
    and "hp_path v = SLASH # join [SLASH] (home_segments home @ rel)"
    and "foldl push_segment [] (split_on SLASH (path_source home input)) = home_segments home @ rel"
    and "NUL \<notin> set input" and "input \<noteq> []"
proof -
  have i: "input \<noteq> []" "NUL \<notin> set input"
    using assms(1) by (auto simp: confineToHome_def resolveComputerPath_def split: if_splits)
  define segs where "segs = foldl push_segment [] (split_on SLASH (path_source home input))"
  from assms(1) resolve_segments [OF assms(2) i segs_def [symmetric]]
  have p: "prefix (home_segments home) segs"
    and v: "hp_path v = SLASH # join [SLASH] segs"
      "hp_relative v = join [SLASH] (drop (length (home_segments home)) segs)"
    by (auto simp: confineToHome_def split: if_splits)
  then obtain rel where rel: "segs = home_segments home @ rel" by (auto simp: prefix_def)
  moreover have "list_all ok_segment segs" by (simp add: segs_def resolved_ok)
  ultimately have "list_all ok_segment rel" by simp
  moreover have "hp_relative v = join [SLASH] rel" using v(2) rel by simp
  ultimately show ?thesis using that [of rel] v(1) i rel segs_def by simp
qed

lemma confine_plain:
  assumes "wf_home home" and "list_all ok_segment rel" and "NUL \<notin> set input"
    and "input = SLASH # join [SLASH] (home_segments home @ rel) \<or> rel \<noteq> [] \<and> input = join [SLASH] rel"
  shows "confineToHome home input = Inr (Inr
    \<lparr>hp_path = SLASH # join [SLASH] (home_segments home @ rel), hp_relative = join [SLASH] rel\<rparr>)"
proof -
  have ok: "list_all ok_segment (home_segments home @ rel)"
    using assms(1,2) by (simp add: wf_home_def)
  have "path_source home input = join [SLASH] (home_segments home @ rel)"
  proof (cases "input = SLASH # join [SLASH] (home_segments home @ rel)")
    case True
    then show ?thesis by (simp add: path_source_def)
  next
    case False
    with assms(4) have r: "rel \<noteq> []" "input = join [SLASH] rel" by auto
    then have "\<not> prefix [SLASH] input"
      using assms(2) join_head [of rel] by (auto simp: list_all_iff)
    then show ?thesis using r by (simp add: path_source_def join_append join_split_on)
  qed
  then have "foldl push_segment [] (split_on SLASH (path_source home input)) = home_segments home @ rel"
    using ok by (simp add: split_ok foldl_push_plain)
  moreover have "input \<noteq> []" using assms(4) join_ok_eq_Nil [OF assms(2)] by (metis list.distinct(1))
  ultimately show ?thesis
    using resolve_segments [OF assms(1) _ assms(3)] by (simp add: confineToHome_def)
qed

lemma foldl_push_subset: "set (foldl push_segment segs ss) \<subseteq> set segs \<union> set ss"
proof (induction ss arbitrary: segs)
  case Nil
  show ?case by simp
next
  case (Cons s ss)
  have "set (push_segment segs s) \<subseteq> set segs \<union> {s}"
    by (auto simp: push_segment_def dest: in_set_butlastD)
  with Cons.IH [of "push_segment segs s"] show ?case by auto
qed

lemma confined_no_NUL:
  assumes "confineToHome home input = Inr (Inr v)" and "wf_home home"
  shows "NUL \<notin> set (hp_path v)"
proof -
  obtain rel where r: "hp_path v = SLASH # join [SLASH] (home_segments home @ rel)" "NUL \<notin> set input"
    and f: "foldl push_segment [] (split_on SLASH (path_source home input)) = home_segments home @ rel"
    by (rule confine_inside [OF assms]) blast
  have "set x \<subseteq> set (path_source home input)" if "x \<in> set (home_segments home @ rel)" for x
    using that foldl_push_subset [of "[]" "split_on SLASH (path_source home input)"] split_by_chars
    unfolding f by fastforce
  moreover have "NUL \<notin> set (path_source home input)"
    using r(2) assms(2) by (auto simp: path_source_def wf_home_def dest: in_set_dropD)
  ultimately show ?thesis using r(1) set_join_subset [of "[SLASH]" "home_segments home @ rel"] by auto
qed

section \<open>Attachment names\<close>

lemma attachmentFileName_ok:
  "ok_segment (attachmentFileName n)" and attachmentFileName_length:
  "length (attachmentFileName n) \<le> MAX_ATTACHMENT_FILE_NAME_LENGTH"
  and attachmentFileName_chars:
  "c \<in> set (attachmentFileName n) \<Longrightarrow> 32 \<le> code_unit c \<and> c \<noteq> CHR 0x5C"
proof -
  define sep where "sep = (\<lambda>c. c = CHR 0x5C \<or> c = SLASH)"
  define b where "b = last (split_by sep n)"
  define x where "x = trim (withoutControlCharacters b)"
  have n: "attachmentFileName n = (if x = [] \<or> x = ''.'' \<or> x = ''..'' then ''file''
      else take MAX_ATTACHMENT_FILE_NAME_LENGTH x)"
    by (simp add: attachmentFileName_def x_def b_def sep_def Let_def)
  have "b \<in> set (split_by sep n)" by (simp add: b_def)
  then have bs: "c \<in> set b \<Longrightarrow> \<not> sep c" for c using split_by_no_sep by blast
  have xs: "c \<in> set x \<Longrightarrow> \<not> sep c \<and> 32 \<le> code_unit c" for c
    using bs set_trim [of "withoutControlCharacters b"]
    by (auto simp: x_def withoutControlCharacters_def)
  have t: "take MAX_ATTACHMENT_FILE_NAME_LENGTH x \<noteq> ''.''"
    "take MAX_ATTACHMENT_FILE_NAME_LENGTH x \<noteq> ''..''" if "x \<noteq> ''.''" "x \<noteq> ''..''"
  proof -
    have "length (take MAX_ATTACHMENT_FILE_NAME_LENGTH x) < 200 \<Longrightarrow>
        take MAX_ATTACHMENT_FILE_NAME_LENGTH x = x"
      by (simp add: MAX_ATTACHMENT_FILE_NAME_LENGTH_def)
    then show "take MAX_ATTACHMENT_FILE_NAME_LENGTH x \<noteq> ''.''"
      "take MAX_ATTACHMENT_FILE_NAME_LENGTH x \<noteq> ''..''"
      using that by force+
  qed
  have fallback: "c \<in> set ''file'' \<Longrightarrow> 32 \<le> code_unit c \<and> c \<noteq> CHR 0x5C" for c
    by (auto simp: code_unit_def)
  show "ok_segment (attachmentFileName n)"
    using t xs by (auto simp: n ok_segment_def sep_def MAX_ATTACHMENT_FILE_NAME_LENGTH_def
        dest: in_set_takeD)
  show "length (attachmentFileName n) \<le> MAX_ATTACHMENT_FILE_NAME_LENGTH"
    by (simp add: n MAX_ATTACHMENT_FILE_NAME_LENGTH_def)
  show "c \<in> set (attachmentFileName n) \<Longrightarrow> 32 \<le> code_unit c \<and> c \<noteq> CHR 0x5C"
    using xs [of c] fallback [of c] by (auto simp: n sep_def dest: in_set_takeD split: if_splits)
qed

lemma attachment_segments:
  "attachmentWorkspacePath i n = join [SLASH] [MESSAGE_ATTACHMENTS_DIRECTORY, i, attachmentFileName n]"
  by (simp add: attachmentWorkspacePath_def)

lemma attachment_confined:
  assumes "wf_home home" and "ok_segment i" and "NUL \<notin> set i"
  shows "confineToHome home (attachmentWorkspacePath i n) = Inr (Inr
    \<lparr>hp_path = home @ [SLASH] @ attachmentWorkspacePath i n, hp_relative = attachmentWorkspacePath i n\<rparr>)"
proof -
  let ?rel = "[MESSAGE_ATTACHMENTS_DIRECTORY, i, attachmentFileName n]"
  have ok: "list_all ok_segment ?rel"
    using assms(2) attachmentFileName_ok
    by (simp add: MESSAGE_ATTACHMENTS_DIRECTORY_def) (simp add: ok_segment_def)
  have "NUL \<notin> set (attachmentFileName n)"
    using attachmentFileName_chars [of NUL n] by (auto simp: code_unit_def)
  then have nul: "NUL \<notin> set (attachmentWorkspacePath i n)"
    using assms(3) by (simp add: attachmentWorkspacePath_def MESSAGE_ATTACHMENTS_DIRECTORY_def)
  have "SLASH # join [SLASH] (home_segments home @ ?rel) = home @ [SLASH] @ attachmentWorkspacePath i n"
    using wf_home_join [OF assms(1)] unfolding attachment_segments
    by (subst join_append) (simp_all add: join_split_on)
  with confine_plain [OF assms(1) ok nul] show ?thesis by (simp add: attachment_segments)
qed

end
