(* ===== verification/Egress.thy ===== *)
theory Egress
  imports Prelude
begin

text \<open>
  The egress allowlist (\<open>egress-policy.ts\<close>): the strict parser of its entries and the decision
  for one destination. \<open>new URL(url).hostname\<close> is the argument \<open>hostname\<close> of \<open>decideEgress\<close>,
  \<open>None\<close> when the constructor throws.
\<close>

section \<open>Model\<close>

datatype egress_rule = Host_rule string | Subdomains_rule string

type_synonym egress_allowlist = "egress_rule list"

definition EMPTY_EGRESS_ALLOWLIST :: egress_allowlist where
  "EMPTY_EGRESS_ALLOWLIST = []"

datatype egress_decision =
    Egress_allowed string
  | Egress_needs_approval string string
  | Egress_refused

datatype egress_rejection =
    Rej_blank | Rej_scheme | Rej_credentials | Rej_port | Rej_path | Rej_wildcard | Rej_malformed
  | Rej_duplicate

datatype egress_error = InvalidEgressHost string egress_rejection

abbreviation DOT :: char where "DOT \<equiv> CHR ''.''"

text \<open>\<open>/^[a-z0-9](?:[a-z0-9-]{0,61}[a-z0-9])?$/\<close>.\<close>

definition hostname_label :: "string \<Rightarrow> bool" where
  "hostname_label s =
     (s \<noteq> [] \<and> length s \<le> 63 \<and> label_char (hd s) \<and> label_char (last s) \<and>
      list_all (\<lambda>c. label_char c \<or> c = CHR ''-'') s)"

definition ipv4_part :: "string \<Rightarrow> bool" where
  "ipv4_part s =
     (s \<noteq> [] \<and> length s \<le> 3 \<and> list_all is_digit s \<and> parse_dec s \<le> 255 \<and> dec (parse_dec s) = s)"

definition isIpv4 :: "string \<Rightarrow> bool" where
  "isIpv4 host = (let parts = split_on DOT host in length parts = 4 \<and> list_all ipv4_part parts)"

definition isHostname :: "string \<Rightarrow> bool" where
  "isHostname host =
     (host \<noteq> [] \<and> length host \<le> 253 \<and> list_all hostname_label (split_on DOT host))"

text \<open>\<open>host.toLowerCase().replace(/\\.$/, "")\<close>.\<close>

definition strip_dot :: "string \<Rightarrow> string" where
  "strip_dot s = (if s \<noteq> [] \<and> last s = DOT then butlast s else s)"

definition normalizeHostEntry :: "string \<Rightarrow> egress_rejection + string" where
  "normalizeHostEntry entry =
     (let trimmed = trim entry; wildcard = prefix ''*.'' trimmed;
          rawHost = (if wildcard then drop 2 trimmed else trimmed);
          host = strip_dot (toLowerCase rawHost) in
      if trimmed = [] then Inl Rej_blank
      else if sublist ''://'' trimmed then Inl Rej_scheme
      else if CHR ''@'' \<in> set trimmed then Inl Rej_credentials
      else if wildcard \<and> rawHost = [] then Inl Rej_wildcard
      else if CHR ''*'' \<in> set rawHost then Inl Rej_wildcard
      else if CHR '':'' \<in> set rawHost then Inl Rej_port
      else if list_ex (\<lambda>c. c \<in> {CHR ''/'', CHR ''?'', CHR ''#''}) rawHost then Inl Rej_path
      else if host \<noteq> [] \<and> list_all (\<lambda>c. is_digit c \<or> c = DOT) host
      then (if \<not> isIpv4 host then Inl Rej_malformed
            else if wildcard then Inl Rej_wildcard
            else Inr host)
      else if \<not> isHostname host then Inl Rej_malformed
      else Inr host)"

definition rule_key :: "bool \<Rightarrow> string \<Rightarrow> string" where
  "rule_key wildcard host = (if wildcard then ''*'' else []) @ '':'' @ host"

definition parseEntry ::
  "egress_rule list \<times> string list \<Rightarrow> string \<Rightarrow> egress_error + (egress_rule list \<times> string list)" where
  "parseEntry st entry =
     (let (rules, seen) = st; wildcard = prefix ''*.'' (trim entry) in
      case normalizeHostEntry entry of
        Inl reason \<Rightarrow> Inl (InvalidEgressHost entry reason)
      | Inr host \<Rightarrow>
          let key = rule_key wildcard host in
          if key \<in> set seen then Inl (InvalidEgressHost entry Rej_duplicate)
          else Inr (rules @ [if wildcard then Subdomains_rule host else Host_rule host], key # seen))"

definition parseEgressAllowlist :: "string list \<Rightarrow> egress_error + egress_allowlist" where
  "parseEgressAllowlist entries = bindE (foldE parseEntry ([], []) entries) (\<lambda>st. Inr (fst st))"

definition normalizeHost :: "string \<Rightarrow> string" where
  "normalizeHost host = strip_dot (toLowerCase (trim host))"

fun ruleMatches :: "egress_rule \<Rightarrow> string \<Rightarrow> bool" where
  "ruleMatches (Host_rule h) host = (host = h)"
| "ruleMatches (Subdomains_rule d) host = suffix (DOT # d) host"

definition isHostAllowed :: "egress_allowlist \<Rightarrow> string \<Rightarrow> bool" where
  "isHostAllowed allowlist host =
     (let normalized = normalizeHost host in
      normalized \<noteq> [] \<and> list_ex (\<lambda>rule. ruleMatches rule normalized) allowlist)"

definition parseUrl :: "(string \<Rightarrow> string option) \<Rightarrow> string \<Rightarrow> string option" where
  "parseUrl hostname url = (if trim url = [] then None else hostname url)"

definition decideEgress ::
  "(string \<Rightarrow> string option) \<Rightarrow> egress_allowlist \<Rightarrow> string \<Rightarrow> egress_decision" where
  "decideEgress hostname allowlist url =
     (case parseUrl hostname url of
        None \<Rightarrow> Egress_refused
      | Some h \<Rightarrow>
          let host = normalizeHost h in
          if host = [] then Egress_refused
          else if isHostAllowed allowlist host then Egress_allowed host
          else Egress_needs_approval host url)"

section \<open>Hosts\<close>

definition valid_host :: "string \<Rightarrow> bool" where
  "valid_host h = (isIpv4 h \<or> isHostname h)"

fun wf_rule :: "egress_rule \<Rightarrow> bool" where
  "wf_rule (Host_rule h) = valid_host h"
| "wf_rule (Subdomains_rule d) = isHostname d"

lemma normalizeHostEntry_valid:
  "normalizeHostEntry e = Inr h \<Longrightarrow> valid_host h \<and> (prefix ''*.'' (trim e) \<longrightarrow> isHostname h)"
  by (auto simp: normalizeHostEntry_def Let_def valid_host_def split: if_splits)

fun key_of :: "egress_rule \<Rightarrow> string" where
  "key_of (Host_rule h) = rule_key False h"
| "key_of (Subdomains_rule d) = rule_key True d"

lemma key_of_inj: "key_of r = key_of r' \<Longrightarrow> r = r'"
  by (cases r; cases r') (auto simp: rule_key_def)

lemma parseEntry_Inr:
  "parseEntry (rules, seen) e = Inr (rules', seen') \<Longrightarrow>
   \<exists>r. rules' = rules @ [r] \<and> seen' = key_of r # seen \<and> wf_rule r \<and> key_of r \<notin> set seen"
  using normalizeHostEntry_valid [of e]
  by (auto simp: parseEntry_def Let_def split: sum.splits if_splits)

lemma parseEntries_Inr:
  "foldE parseEntry (rules, seen) es = Inr (rules', seen') \<Longrightarrow>
   \<exists>rs. rules' = rules @ rs \<and> length rs = length es \<and> list_all wf_rule rs \<and>
     distinct (map key_of rs) \<and> set (map key_of rs) \<inter> set seen = {}"
proof (induction es arbitrary: rules seen)
  case Nil
  then show ?case by auto
next
  case (Cons e es)
  then obtain ru se where 1: "parseEntry (rules, seen) e = Inr (ru, se)"
    and 2: "foldE parseEntry (ru, se) es = Inr (rules', seen')"
    by (auto simp: result_simps)
  obtain r where r: "ru = rules @ [r]" "se = key_of r # seen" "wf_rule r" "key_of r \<notin> set seen"
    using parseEntry_Inr [OF 1] by blast
  obtain rs where rs: "rules' = ru @ rs" "length rs = length es" "list_all wf_rule rs"
      "distinct (map key_of rs)" "set (map key_of rs) \<inter> set se = {}"
    using Cons.IH [OF 2] by blast
  have "rules' = rules @ (r # rs) \<and> length (r # rs) = length (e # es) \<and> list_all wf_rule (r # rs) \<and>
      distinct (map key_of (r # rs)) \<and> set (map key_of (r # rs)) \<inter> set seen = {}"
    using r rs by auto
  then show ?case by blast
qed

lemma parseEgressAllowlist_Inr:
  assumes "parseEgressAllowlist es = Inr rs"
  shows "length rs = length es" and "list_all wf_rule rs" and "distinct rs"
proof -
  from assms obtain seen where "foldE parseEntry ([], []) es = Inr (rs, seen)"
    by (auto simp: parseEgressAllowlist_def result_simps)
  from parseEntries_Inr [OF this] have "length rs = length es \<and> list_all wf_rule rs \<and> distinct (map key_of rs)"
    by auto
  then show "length rs = length es" "list_all wf_rule rs" "distinct rs"
    by (auto simp: distinct_map)
qed

text \<open>A wildcard covers strict subdomains only.\<close>

lemma subdomain_not_apex: "\<not> ruleMatches (Subdomains_rule d) d"
  by (auto simp: suffix_def dest: arg_cong [where f = length])

lemma subdomain_longer: "ruleMatches (Subdomains_rule d) h \<Longrightarrow> length d < length h"
  by (auto simp: suffix_def)

end
