(* ===== verification/Dangerous_Actions.thy ===== *)
theory Dangerous_Actions
  imports Files Egress
begin

text \<open>
  The register of dangerous actions (\<open>dangerous-actions.ts\<close>): the classes a connector's tool
  name declares, the credential-store test, one definition per rule and the classification of a
  call in the order the code runs the rules.
\<close>

section \<open>Model\<close>

datatype danger_class =
    Credential_access | Credential_request | Write_outside_home | Egress_unlisted | Send | Delete_class

definition DANGEROUS_ACTION_CLASSES :: "danger_class list" where
  "DANGEROUS_ACTION_CLASSES =
     [Credential_access, Credential_request, Write_outside_home, Egress_unlisted, Send, Delete_class]"

fun class_name :: "danger_class \<Rightarrow> string" where
  "class_name Credential_access = ''credential_access''"
| "class_name Credential_request = ''credential_request''"
| "class_name Write_outside_home = ''write_outside_home''"
| "class_name Egress_unlisted = ''egress_unlisted''"
| "class_name Send = ''send''"
| "class_name Delete_class = ''delete''"

definition isDangerousActionClass :: "js \<Rightarrow> bool" where
  "isDangerousActionClass v =
     (case v of JStr s \<Rightarrow> s \<in> set (map class_name DANGEROUS_ACTION_CLASSES) | _ \<Rightarrow> False)"

definition CREDENTIAL_STORE_DIRECTORIES :: "string list" where
  "CREDENTIAL_STORE_DIRECTORIES =
     [''.ssh'', ''.aws'', ''.gnupg'', ''.kube'', ''.docker'', ''.password-store'', ''.secrets'', ''gcloud'']"

definition CREDENTIAL_STORE_FILES :: "string list" where
  "CREDENTIAL_STORE_FILES =
     [''.netrc'', ''.npmrc'', ''.pypirc'', ''.git-credentials'', ''.pgpass'', ''.env'', ''credentials'',
      ''id_rsa'', ''id_ed25519'', ''id_ecdsa'', ''id_dsa'']"

definition CONNECTOR_SEND_VERBS :: "string list" where
  "CONNECTOR_SEND_VERBS =
     [''send'', ''post'', ''publish'', ''reply'', ''forward'', ''share'', ''upload'', ''submit'']"

definition CONNECTOR_DELETE_VERBS :: "string list" where
  "CONNECTOR_DELETE_VERBS =
     [''delete'', ''remove'', ''destroy'', ''drop'', ''purge'', ''revoke'', ''unlink'', ''archive'',
      ''trash'', ''forget'']"

record dangerous_action =
  da_class :: danger_class
  da_summary :: string

record danger_request =
  dr_tool :: string
  dr_arguments :: js
  dr_home :: string
  dr_allowlist :: egress_allowlist
  dr_declared :: "danger_class list option"

datatype danger_verdict = Safe | Refused_invalid_url | Dangerous dangerous_action

text \<open>\<open>value.replace(/([a-z0-9])([A-Z])/g, "$1 $2")\<close>: an upper case letter never opens a match.\<close>

fun split_camel :: "string \<Rightarrow> string" where
  "split_camel [] = []"
| "split_camel [x] = [x]"
| "split_camel (x # y # ys) =
     (if label_char x \<and> is_upper y then x # CHR '' '' # split_camel (y # ys)
      else x # split_camel (y # ys))"

definition tokenize :: "string \<Rightarrow> string list" where
  "tokenize value =
     filter (\<lambda>t. t \<noteq> []) (split_by (\<lambda>c. \<not> label_char c) (toLowerCase (split_camel value)))"

definition connectorDangerousActions :: "string \<Rightarrow> danger_class list" where
  "connectorDangerousActions toolName =
     (let tokens = tokenize toolName in
      (if list_ex (\<lambda>v. v \<in> set tokens) CONNECTOR_DELETE_VERBS then [Delete_class] else []) @
      (if list_ex (\<lambda>v. v \<in> set tokens) CONNECTOR_SEND_VERBS then [Send] else []))"

definition isCredentialStorePath :: "string \<Rightarrow> bool" where
  "isCredentialStorePath path =
     (let segments = filter (\<lambda>s. s \<noteq> [])
            (map (\<lambda>s. toLowerCase (trim s)) (split_by (\<lambda>c. c = CHR 0x5C \<or> c = SLASH) path)) in
      list_ex (\<lambda>s. s \<in> set CREDENTIAL_STORE_DIRECTORIES \<or> s \<in> set CREDENTIAL_STORE_FILES) segments)"

definition declaredIncludes :: "danger_request \<Rightarrow> danger_class \<Rightarrow> bool" where
  "declaredIncludes q c = (case dr_declared q of None \<Rightarrow> False | Some cs \<Rightarrow> c \<in> set cs)"

definition readString :: "js_record \<Rightarrow> string \<Rightarrow> string option" where
  "readString r field =
     (case getf r field of JStr s \<Rightarrow> if trim s \<noteq> [] then Some s else None | _ \<Rightarrow> None)"

definition credentialAccess :: "danger_request \<Rightarrow> js_record \<Rightarrow> dangerous_action option" where
  "credentialAccess q r =
     (if \<not> declaredIncludes q Credential_access then None
      else case readString r ''path'' of
        None \<Rightarrow> None
      | Some path \<Rightarrow>
          if \<not> isCredentialStorePath path then None
          else Some \<lparr>da_class = Credential_access,
                     da_summary = ''access the credential store \"'' @ path @ ''\"''\<rparr>)"

definition credentialRequest :: "danger_request \<Rightarrow> js_record \<Rightarrow> dangerous_action option" where
  "credentialRequest q r =
     (if \<not> declaredIncludes q Credential_request then None
      else case readString r ''name'' of
        None \<Rightarrow> None
      | Some name \<Rightarrow> Some \<lparr>da_class = Credential_request,
                           da_summary = ''use the stored credential \"'' @ name @ ''\"''\<rparr>)"

definition writeOutsideHome ::
  "danger_request \<Rightarrow> js_record \<Rightarrow> range_error + dangerous_action option" where
  "writeOutsideHome q r =
     (if \<not> declaredIncludes q Write_outside_home then Inr None
      else case readString r ''path'' of
        None \<Rightarrow> Inr None
      | Some path \<Rightarrow>
          bindE (resolveComputerPath (dr_home q) path) (\<lambda>resolved.
            case resolved of
              Inl _ \<Rightarrow> Inr None
            | Inr v \<Rightarrow>
                if \<not> hp_outside v then Inr None
                else Inr (Some \<lparr>da_class = Write_outside_home,
                  da_summary = ''write outside the home to \"'' @ hp_path v @ ''\"''\<rparr>)))"

definition egressUnlisted ::
  "(string \<Rightarrow> string option) \<Rightarrow> danger_request \<Rightarrow> js_record \<Rightarrow> danger_verdict option" where
  "egressUnlisted hostname q r =
     (if \<not> declaredIncludes q Egress_unlisted then None
      else case readString r ''url'' of
        None \<Rightarrow> None
      | Some url \<Rightarrow>
          (case decideEgress hostname (dr_allowlist q) url of
             Egress_refused \<Rightarrow> Some Refused_invalid_url
           | Egress_allowed _ \<Rightarrow> Some Safe
           | Egress_needs_approval host _ \<Rightarrow> Some (Dangerous
               \<lparr>da_class = Egress_unlisted,
                da_summary = ''reach \"'' @ host @ ''\", which is not on this run's egress allowlist''\<rparr>)))"

definition connectorAction :: "danger_request \<Rightarrow> danger_class \<Rightarrow> dangerous_action option" where
  "connectorAction q c =
     (if \<not> declaredIncludes q c then None
      else Some \<lparr>da_class = c,
                 da_summary = (if c = Send then ''send through the \"'' @ dr_tool q @ ''\" tool''
                               else ''delete through the \"'' @ dr_tool q @ ''\" tool'')\<rparr>)"

definition classifyDangerousAction ::
  "(string \<Rightarrow> string option) \<Rightarrow> danger_request \<Rightarrow> range_error + danger_verdict" where
  "classifyDangerousAction hostname q =
     (let r = (case asRecord (dr_arguments q) of None \<Rightarrow> [] | Some r \<Rightarrow> r) in
      case credentialAccess q r of Some a \<Rightarrow> Inr (Dangerous a) | None \<Rightarrow>
     (case credentialRequest q r of Some a \<Rightarrow> Inr (Dangerous a) | None \<Rightarrow>
     (case connectorAction q Delete_class of Some a \<Rightarrow> Inr (Dangerous a) | None \<Rightarrow>
     (case connectorAction q Send of Some a \<Rightarrow> Inr (Dangerous a) | None \<Rightarrow>
     (case egressUnlisted hostname q r of Some v \<Rightarrow> Inr v | None \<Rightarrow>
      bindE (writeOutsideHome q r) (\<lambda>escape.
        case escape of Some a \<Rightarrow> Inr (Dangerous a) | None \<Rightarrow> Inr Safe))))))"

section \<open>What a safe verdict means\<close>

abbreviation call_record :: "danger_request \<Rightarrow> js_record" where
  "call_record q \<equiv> (case asRecord (dr_arguments q) of None \<Rightarrow> [] | Some r \<Rightarrow> r)"

lemmas danger_rules = credentialAccess_def credentialRequest_def connectorAction_def egressUnlisted_def

lemma safe_not_connector:
  assumes "classifyDangerousAction hostname q = Inr Safe"
  shows "\<not> declaredIncludes q Send" and "\<not> declaredIncludes q Delete_class"
  using assms
  by (auto simp: classifyDangerousAction_def connectorAction_def Let_def split: option.splits if_splits)

lemma safe_not_credential:
  assumes "classifyDangerousAction hostname q = Inr Safe"
  shows "declaredIncludes q Credential_access \<Longrightarrow> readString (call_record q) ''path'' = Some p \<Longrightarrow>
           \<not> isCredentialStorePath p"
    and "declaredIncludes q Credential_request \<Longrightarrow> readString (call_record q) ''name'' = None"
  using assms
  by (auto simp: classifyDangerousAction_def credentialAccess_def credentialRequest_def Let_def
      split: option.splits if_splits)

lemma safe_egress:
  assumes "classifyDangerousAction hostname q = Inr Safe"
    and "declaredIncludes q Egress_unlisted" and "readString (call_record q) ''url'' = Some u"
  shows "\<exists>h. decideEgress hostname (dr_allowlist q) u = Egress_allowed h"
proof -
  have "egressUnlisted hostname q (call_record q) \<noteq> None"
    using assms(2,3) by (auto simp: egressUnlisted_def split: egress_decision.splits)
  with assms(1) have "egressUnlisted hostname q (call_record q) = Some Safe"
    by (auto simp: classifyDangerousAction_def Let_def split: option.splits)
  with assms(2,3) show ?thesis by (auto simp: egressUnlisted_def split: egress_decision.splits)
qed

lemma safe_write:
  assumes "classifyDangerousAction hostname q = Inr Safe"
    and "declaredIncludes q Write_outside_home" and "readString (call_record q) ''path'' = Some p"
    and "egressUnlisted hostname q (call_record q) = None"
    and "resolveComputerPath (dr_home q) p = Inr (Inr v)"
  shows "\<not> hp_outside v"
  using assms
  by (auto simp: classifyDangerousAction_def writeOutsideHome_def Let_def result_simps
      split: option.splits if_splits)

section \<open>Verbs in tool names\<close>

definition word_char :: "char \<Rightarrow> bool" where
  "word_char c = (label_char c \<or> is_upper c)"

lemma split_camel_sep:
  "\<not> word_char c \<Longrightarrow> split_camel (a @ c # b) = split_camel a @ c # split_camel b"
proof (induction a rule: split_camel.induct)
  case 1
  then show ?case by (cases b) (auto simp: word_char_def)
next
  case (2 x)
  then show ?case by (cases b) (auto simp: word_char_def)
next
  case (3 x y ys)
  then show ?case by (cases "label_char x \<and> is_upper y") auto
qed

lemma split_camel_lower: "list_all label_char s \<Longrightarrow> split_camel s = s"
proof (induction s rule: split_camel.induct)
  case (3 x y ys)
  moreover have "\<not> (label_char y \<and> is_upper y)"
    by (auto simp: label_char_def is_lower_def is_digit_def is_upper_def)
  ultimately show ?case by auto
qed simp_all

lemma lower_not_word: "\<not> word_char c \<Longrightarrow> \<not> label_char (lower_char c)"
  using code_unit_lt [of c]
  by (auto simp: word_char_def label_char_def lower_char_def is_lower_def is_digit_def is_upper_def Let_def)

lemma toLowerCase_lower: "list_all label_char s \<Longrightarrow> toLowerCase s = s"
  by (auto simp: toLowerCase_def list_all_iff label_char_def intro: map_idI lower_char_fixed)

lemma verb_is_token:
  assumes "list_all label_char v" and "v \<noteq> []" and "\<not> word_char c" and "\<not> word_char d"
  shows "v \<in> set (tokenize (a @ c # v @ d # b))"
proof -
  let ?p = "\<lambda>c. \<not> label_char c"
  have "toLowerCase (split_camel (a @ c # v @ d # b)) =
      toLowerCase (split_camel a) @ lower_char c # v @ lower_char d # toLowerCase (split_camel b)"
    using assms(1,3,4) toLowerCase_lower [OF assms(1)] split_camel_lower [OF assms(1)]
    by (simp add: split_camel_sep toLowerCase_def)
  moreover have "split_by ?p v = [v]" using assms(1) by (intro split_by_none) (simp add: list_all_iff)
  ultimately have "v \<in> set (split_by ?p (toLowerCase (split_camel (a @ c # v @ d # b))))"
    using lower_not_word [OF assms(3)] lower_not_word [OF assms(4)]
    by (simp add: split_by_append_sep)
  with assms(2) show ?thesis by (simp add: tokenize_def)
qed

end
