(* ===== verification/Messaging.thy ===== *)
theory Messaging
  imports Run_State Files
begin

text \<open>
  Sends and message content (\<open>messaging-policy.ts\<close>, \<open>message-blocks.ts\<close>): the validation
  of a send, the decision between replay, steer and a new run, the blocks a message stores as
  JSON, and what is read back from them.
\<close>

section \<open>Message blocks\<close>

record file_block =
  fb_attachmentId :: string
  fb_filename :: string
  fb_contentType :: string
  fb_sizeBytes :: nat

datatype message_block = Text_block string | File_block file_block

text \<open>The JSON value of a block, as the \<open>blocks\<close> column stores it.\<close>

fun block_value :: "message_block \<Rightarrow> js" where
  "block_value (Text_block t) = JObj [(''type'', JStr ''text''), (''text'', JStr t)]"
| "block_value (File_block f) =
     JObj [(''type'', JStr ''file''), (''attachmentId'', JStr (fb_attachmentId f)),
           (''filename'', JStr (fb_filename f)), (''contentType'', JStr (fb_contentType f)),
           (''sizeBytes'', js_int (int (fb_sizeBytes f)))]"

definition textMessageBlocks :: "string \<Rightarrow> message_block list" where
  "textMessageBlocks text = [Text_block text]"

definition messageBlocksForSend :: "string \<Rightarrow> file_block list \<Rightarrow> message_block list" where
  "messageBlocksForSend text files = Text_block text # map File_block files"

text \<open>\<open>isTextMessageBlock\<close> and \<open>isFileMessageBlock\<close>, returning what the guard admits.\<close>

definition isTextMessageBlock :: "js \<Rightarrow> string option" where
  "isTextMessageBlock v =
     (case v of
        JObj r \<Rightarrow> if getf r ''type'' = JStr ''text'' then as_string (getf r ''text'') else None
      | _ \<Rightarrow> None)"

definition nonempty_string :: "js \<Rightarrow> string option" where
  "nonempty_string v = (case v of JStr s \<Rightarrow> if s \<noteq> [] then Some s else None | _ \<Rightarrow> None)"

definition natural_size :: "js \<Rightarrow> nat option" where
  "natural_size v =
     (case v of JNum n \<Rightarrow> if isSafeInteger n \<and> to_int n \<ge> 0 then Some (nat (to_int n)) else None
      | _ \<Rightarrow> None)"

definition isFileMessageBlock :: "js \<Rightarrow> file_block option" where
  "isFileMessageBlock v =
     (case v of
        JObj r \<Rightarrow>
          if getf r ''type'' = JStr ''file'' then
            (case (nonempty_string (getf r ''attachmentId''), nonempty_string (getf r ''filename''),
                   nonempty_string (getf r ''contentType''), natural_size (getf r ''sizeBytes'')) of
               (Some a, Some f, Some c, Some n) \<Rightarrow>
                 Some \<lparr>fb_attachmentId = a, fb_filename = f, fb_contentType = c, fb_sizeBytes = n\<rparr>
             | _ \<Rightarrow> None)
          else None
      | _ \<Rightarrow> None)"

definition isMessageBlock :: "js \<Rightarrow> bool" where
  "isMessageBlock v = (isTextMessageBlock v \<noteq> None \<or> isFileMessageBlock v \<noteq> None)"

fun collect_texts :: "js list \<Rightarrow> string list \<Rightarrow> string option" where
  "collect_texts [] texts = Some (join [] texts)"
| "collect_texts (b # bs) texts =
     (case isTextMessageBlock b of
        Some t \<Rightarrow> collect_texts bs (texts @ [t])
      | None \<Rightarrow> if isFileMessageBlock b = None then None else collect_texts bs texts)"

definition messageText :: "js \<Rightarrow> string option" where
  "messageText blocks =
     (case blocks of JArr bs \<Rightarrow> if length bs = 0 then None else collect_texts bs [] | _ \<Rightarrow> None)"

fun collect_files :: "js list \<Rightarrow> file_block list \<Rightarrow> file_block list option" where
  "collect_files [] files = Some files"
| "collect_files (b # bs) files =
     (case isTextMessageBlock b of
        Some _ \<Rightarrow> collect_files bs files
      | None \<Rightarrow> (case isFileMessageBlock b of
                   None \<Rightarrow> None | Some f \<Rightarrow> collect_files bs (files @ [f])))"

definition messageFiles :: "js \<Rightarrow> file_block list option" where
  "messageFiles blocks = (case blocks of JArr bs \<Rightarrow> collect_files bs [] | _ \<Rightarrow> None)"

definition attachment_line :: "file_block \<Rightarrow> string" where
  "attachment_line f =
     ''- '' @ attachmentWorkspacePath (fb_attachmentId f) (fb_filename f) @ '' ('' @
     fb_contentType f @ '', '' @ dec (fb_sizeBytes f) @ '' bytes)''"

definition messagePromptWithAttachments :: "string \<Rightarrow> js \<Rightarrow> string" where
  "messagePromptWithAttachments text blocks =
     (case messageFiles blocks of
        None \<Rightarrow> text
      | Some files \<Rightarrow>
          if length files = 0 then text
          else text @ [CHR 0x0A, CHR 0x0A] @
               ''Files attached to this message are in the computer's home directory:'' @ [CHR 0x0A] @
               join [CHR 0x0A] (map attachment_line files))"

section \<open>Sends\<close>

definition MAX_MESSAGE_TEXT_LENGTH :: nat where "MAX_MESSAGE_TEXT_LENGTH = 32000"
definition MAX_CLIENT_NONCE_LENGTH :: nat where "MAX_CLIENT_NONCE_LENGTH = 200"

record send_request =
  sr_text :: js
  sr_clientNonce :: js
  sr_attachmentIds :: "string list option"

text \<open>The status of an active run is read from the database, so it may be a name this build does
  not know.\<close>

record active_run =
  ar_runId :: string
  ar_status :: js

record existing_send =
  es_messageId :: string
  es_runId :: "string option"
  es_request :: send_request

record message_context =
  mc_activeRun :: "active_run option"
  mc_existingSend :: "existing_send option"

datatype message_action =
    Start_run
  | Steer string
  | Replay string "string option"

datatype reuse_reason = Different_text | Different_attachments

datatype message_rule_error =
    EmptyMessage
  | MessageTooLong nat
  | MissingClientNonce
  | ClientNonceTooLong nat
  | ClientNonceReused string reuse_reason
  | TooManyAttachments nat

abbreviation ids_of :: "string list option \<Rightarrow> string list" where
  "ids_of x \<equiv> (case x of None \<Rightarrow> [] | Some ids \<Rightarrow> ids)"

definition validateRequest :: "send_request \<Rightarrow> message_rule_error option" where
  "validateRequest q =
     (if blank_or_absent (sr_text q) then Some EmptyMessage
      else if length (str_of (sr_text q)) > MAX_MESSAGE_TEXT_LENGTH
      then Some (MessageTooLong (length (str_of (sr_text q))))
      else if blank_or_absent (sr_clientNonce q) then Some MissingClientNonce
      else if length (str_of (sr_clientNonce q)) > MAX_CLIENT_NONCE_LENGTH
      then Some (ClientNonceTooLong (length (str_of (sr_clientNonce q))))
      else if length (ids_of (sr_attachmentIds q)) > MAX_ATTACHMENTS_PER_MESSAGE
      then Some (TooManyAttachments (length (ids_of (sr_attachmentIds q))))
      else None)"

definition sameAttachmentIds :: "string list option \<Rightarrow> string list option \<Rightarrow> bool" where
  "sameAttachmentIds left right =
     (let l = ids_of left; r = ids_of right in
      length l = length r \<and> list_all (\<lambda>i. l ! i = r ! i) [0..<length l])"

definition status_of_name :: "js \<Rightarrow> run_status option" where
  "status_of_name v = (case v of JStr s \<Rightarrow> find (\<lambda>st. status_name st = s) RUN_STATUSES | _ \<Rightarrow> None)"

definition counts_as_active :: "js \<Rightarrow> bool" where
  "counts_as_active v =
     (\<not> isRunStatus v \<or> (case status_of_name v of None \<Rightarrow> False | Some st \<Rightarrow> isActiveStatus st))"

definition decideMessageSend ::
  "send_request \<Rightarrow> message_context \<Rightarrow> message_rule_error + message_action" where
  "decideMessageSend q cx =
     (case validateRequest q of
        Some e \<Rightarrow> Inl e
      | None \<Rightarrow>
        (case mc_existingSend cx of
           Some ex \<Rightarrow>
             if sr_text (es_request ex) \<noteq> sr_text q
             then Inl (ClientNonceReused (es_messageId ex) Different_text)
             else if \<not> sameAttachmentIds (sr_attachmentIds (es_request ex)) (sr_attachmentIds q)
             then Inl (ClientNonceReused (es_messageId ex) Different_attachments)
             else Inr (Replay (es_messageId ex) (es_runId ex))
         | None \<Rightarrow>
           (case mc_activeRun cx of
              Some run \<Rightarrow>
                if counts_as_active (ar_status run) then Inr (Steer (ar_runId run)) else Inr Start_run
            | None \<Rightarrow> Inr Start_run)))"

section \<open>Facts\<close>

definition wf_file :: "file_block \<Rightarrow> bool" where
  "wf_file f =
     (fb_attachmentId f \<noteq> [] \<and> fb_filename f \<noteq> [] \<and> fb_contentType f \<noteq> [] \<and>
      int (fb_sizeBytes f) \<le> max_safe_integer)"

fun wf_block :: "message_block \<Rightarrow> bool" where
  "wf_block (Text_block t) = True"
| "wf_block (File_block f) = wf_file f"

lemma text_of_block_value [simp]:
  "isTextMessageBlock (block_value (Text_block t)) = Some t"
  "isTextMessageBlock (block_value (File_block f)) = None"
  by (simp_all add: isTextMessageBlock_def)

lemma natural_size_int [simp]:
  "int n \<le> max_safe_integer \<Longrightarrow> natural_size (js_int (int n)) = Some n"
  using isSafeInteger_of_int [of "int n"] to_int_of_int [of "int n"]
  by (simp add: natural_size_def js_int_def)

lemma file_of_block_value [simp]:
  "wf_file f \<Longrightarrow> isFileMessageBlock (block_value (File_block f)) = Some f"
  by (simp add: isFileMessageBlock_def wf_file_def nonempty_string_def)

declare block_value.simps [simp del]

fun block_text :: "message_block \<Rightarrow> string" where
  "block_text (Text_block t) = t"
| "block_text (File_block f) = []"

fun block_files :: "message_block \<Rightarrow> file_block list" where
  "block_files (Text_block t) = []"
| "block_files (File_block f) = [f]"

lemma join_Nil_concat: "join [] xs = concat xs"
  by (induction "[] :: string" xs rule: join.induct) auto

lemma collect_texts_blocks:
  "list_all wf_block bs \<Longrightarrow> collect_texts (map block_value bs) texts = Some (concat texts @ concat (map block_text bs))"
proof (induction bs arbitrary: texts)
  case Nil
  then show ?case by (simp add: join_Nil_concat)
next
  case (Cons b bs)
  then show ?case by (cases b) simp_all
qed

lemma collect_files_blocks:
  "list_all wf_block bs \<Longrightarrow> collect_files (map block_value bs) files = Some (files @ concat (map block_files bs))"
proof (induction bs arbitrary: files)
  case Nil
  then show ?case by simp
next
  case (Cons b bs)
  then show ?case by (cases b) simp_all
qed

lemma message_round_trip:
  assumes "list_all wf_file fs"
  shows "messageText (JArr (map block_value (messageBlocksForSend t fs))) = Some t"
    and "messageFiles (JArr (map block_value (messageBlocksForSend t fs))) = Some fs"
proof -
  have wf: "list_all wf_block (messageBlocksForSend t fs)"
    using assms by (simp add: messageBlocksForSend_def list_all_iff)
  have t: "concat (map block_text (map File_block fs)) = []" by (induction fs) simp_all
  have f: "concat (map block_files (map File_block fs)) = fs" by (induction fs) simp_all
  show "messageText (JArr (map block_value (messageBlocksForSend t fs))) = Some t"
    using collect_texts_blocks [OF wf, of "[]"] t by (simp add: messageText_def messageBlocksForSend_def)
  show "messageFiles (JArr (map block_value (messageBlocksForSend t fs))) = Some fs"
    using collect_files_blocks [OF wf, of "[]"] f by (simp add: messageFiles_def messageBlocksForSend_def)
qed

lemma sameAttachmentIds_iff: "sameAttachmentIds l r \<longleftrightarrow> ids_of l = ids_of r"
  by (auto simp: sameAttachmentIds_def Let_def list_all_iff intro: nth_equalityI)

lemma status_of_name_name [simp]: "status_of_name (JStr (status_name st)) = Some st"
  by (cases st) (simp_all add: status_of_name_def RUN_STATUSES_def)

lemma counts_as_active_name [simp]: "counts_as_active (JStr (status_name st)) = isActiveStatus st"
  by (cases st) (simp_all add: counts_as_active_def isRunStatus_def RUN_STATUSES_def status_of_name_def)

end
