(* ===== verification/Bot_Secrets.thy ===== *)
theory Bot_Secrets
  imports Prelude
begin

text \<open>
  Bot secrets (\<open>bot-secrets.ts\<close>): the shapes of a name, an origin and an authentication, the
  parser of a destination, and the one header a value rides in, with its UTF-8 and base64
  encoding. \<open>new URL\<close> is the argument \<open>url\<close>, giving the components the code reads.
\<close>

section \<open>Model\<close>

record url_parts =
  u_protocol :: string
  u_username :: string
  u_password :: string
  u_pathname :: string
  u_search :: string
  u_hash :: string
  u_origin :: string

datatype bot_secret_status = S_stored | S_forgotten

fun status_text :: "bot_secret_status \<Rightarrow> string" where
  "status_text S_stored = ''stored''"
| "status_text S_forgotten = ''forgotten''"

definition isBotSecretStatus :: "js \<Rightarrow> bool" where
  "isBotSecretStatus v = (case v of JStr s \<Rightarrow> s \<in> {''stored'', ''forgotten''} | _ \<Rightarrow> False)"

datatype bot_secret_auth = Bearer | Header string | Basic string

record bot_secret_destination =
  sd_name :: string
  sd_origin :: string
  sd_auth :: bot_secret_auth

datatype destination_rejection = Invalid_name | Invalid_origin | Invalid_auth

definition MAX_BOT_SECRET_USERNAME_LENGTH :: nat where "MAX_BOT_SECRET_USERNAME_LENGTH = 200"

text \<open>\<open>/^[!#$%&'*+.^_`|~0-9A-Za-z-]{1,120}$/\<close>.\<close>

definition token_char :: "char \<Rightarrow> bool" where
  "token_char c = (is_digit c \<or> is_upper c \<or> is_lower c \<or>
     code_unit c \<in> {33, 35, 36, 37, 38, 39, 42, 43, 46, 94, 95, 96, 124, 126, 45})"

definition headerNamePattern :: "string \<Rightarrow> bool" where
  "headerNamePattern s = (1 \<le> length s \<and> length s \<le> 120 \<and> list_all token_char s)"

definition FORBIDDEN_HEADERS :: "string list" where
  "FORBIDDEN_HEADERS =
     [''host'', ''connection'', ''content-length'', ''content-type'', ''transfer-encoding'', ''te'',
      ''trailer'', ''upgrade'', ''cookie'', ''origin'', ''referer'', ''x-porkbot-proxy-token'']"

text \<open>\<open>forbiddenHeaderPattern\<close> on a name of token characters, matched without regard to case.\<close>

definition forbiddenHeaderPattern :: "string \<Rightarrow> bool" where
  "forbiddenHeaderPattern s =
     (let n = toLowerCase s in
      n \<in> set FORBIDDEN_HEADERS \<or> prefix ''proxy-'' n \<or> prefix ''sec-'' n \<or> sublist ''forwarded'' n)"

definition isBotSecretName :: "js \<Rightarrow> bool" where
  "isBotSecretName v =
     (case v of
        JStr (c # cs) \<Rightarrow> is_lower c \<and> length cs \<le> 63 \<and> list_all (\<lambda>c. label_char c \<or> c = CHR ''_'') cs
      | _ \<Rightarrow> False)"

definition isBotSecretOrigin :: "(string \<Rightarrow> url_parts option) \<Rightarrow> js \<Rightarrow> bool" where
  "isBotSecretOrigin url v =
     (case v of
        JStr s \<Rightarrow>
          length s \<le> 2048 \<and>
          (case url s of
             None \<Rightarrow> False
           | Some u \<Rightarrow> u_protocol u = ''https:'' \<and> u_username u = [] \<and> u_password u = [] \<and>
               u_pathname u = ''/'' \<and> u_search u = [] \<and> u_hash u = [])
      | _ \<Rightarrow> False)"

definition parseBotSecretAuth :: "js \<Rightarrow> bot_secret_auth option" where
  "parseBotSecretAuth v =
     (case asRecord v of
        None \<Rightarrow> None
      | Some r \<Rightarrow>
          if getf r ''type'' = JStr ''bearer'' then Some Bearer
          else if getf r ''type'' = JStr ''header'' then
            (case getf r ''name'' of
               JStr name \<Rightarrow> if \<not> headerNamePattern name \<or> forbiddenHeaderPattern name then None
                            else Some (Header name)
             | _ \<Rightarrow> None)
          else if getf r ''type'' = JStr ''basic'' then
            (case getf r ''username'' of
               JStr u \<Rightarrow> if length u = 0 \<or> length u > MAX_BOT_SECRET_USERNAME_LENGTH \<or>
                            list_ex (\<lambda>c. c \<in> {CHR '':'', CHR 0x0D, CHR 0x0A}) u then None
                         else Some (Basic u)
             | _ \<Rightarrow> None)
          else None)"

definition parseBotSecretDestination ::
  "(string \<Rightarrow> url_parts option) \<Rightarrow> js \<Rightarrow> destination_rejection + bot_secret_destination" where
  "parseBotSecretDestination url v =
     (case asRecord v of
        None \<Rightarrow> Inl Invalid_name
      | Some r \<Rightarrow>
          if \<not> isBotSecretName (getf r ''name'') then Inl Invalid_name
          else if \<not> isBotSecretOrigin url (getf r ''origin'') then Inl Invalid_origin
          else case parseBotSecretAuth (getf r ''auth'') of
            None \<Rightarrow> Inl Invalid_auth
          | Some auth \<Rightarrow>
              (case url (str_of (getf r ''origin'')) of
                 None \<Rightarrow> Inl Invalid_origin
               | Some u \<Rightarrow> Inr \<lparr>sd_name = str_of (getf r ''name''), sd_origin = u_origin u, sd_auth = auth\<rparr>))"

definition sameBotSecretDestination :: "bot_secret_destination \<Rightarrow> bot_secret_destination \<Rightarrow> bool" where
  "sameBotSecretDestination left right =
     (sd_origin left = sd_origin right \<and>
      (case (sd_auth left, sd_auth right) of
         (Bearer, Bearer) \<Rightarrow> True
       | (Header a, Header b) \<Rightarrow> a = b
       | (Basic a, Basic b) \<Rightarrow> a = b
       | _ \<Rightarrow> False))"

section \<open>The header\<close>

text \<open>\<open>TextEncoder.encode\<close> on code units below 256, and \<open>btoa\<close>.\<close>

definition utf8_char :: "char \<Rightarrow> nat list" where
  "utf8_char c =
     (let n = code_unit c in if n < 128 then [n] else [192 + n div 64, 128 + n mod 64])"

definition utf8 :: "string \<Rightarrow> nat list" where
  "utf8 s = concat (map utf8_char s)"

definition b64_char :: "nat \<Rightarrow> char" where
  "b64_char v =
     (if v < 26 then char_of (65 + v) else if v < 52 then char_of (71 + v)
      else if v < 62 then char_of (v - 4) else if v = 62 then CHR ''+'' else CHR ''/'')"

fun btoa :: "nat list \<Rightarrow> string" where
  "btoa [] = []"
| "btoa [a] = [b64_char (a div 4), b64_char (a mod 4 * 16), CHR ''='', CHR ''='']"
| "btoa [a, b] =
     [b64_char (a div 4), b64_char (a mod 4 * 16 + b div 16), b64_char (b mod 16 * 4), CHR ''='']"
| "btoa (a # b # c # rest) =
     b64_char (a div 4) # b64_char (a mod 4 * 16 + b div 16) # b64_char (b mod 16 * 4 + c div 64) #
     b64_char (c mod 64) # btoa rest"

definition base64Utf8 :: "string \<Rightarrow> string" where
  "base64Utf8 value = btoa (utf8 value)"

fun botSecretCredentialHeader :: "bot_secret_destination \<Rightarrow> string \<Rightarrow> string \<times> string" where
  "botSecretCredentialHeader d value =
     (case sd_auth d of
        Header name \<Rightarrow> (name, value)
      | Basic username \<Rightarrow> (''authorization'', ''Basic '' @ base64Utf8 (username @ '':'' @ value))
      | Bearer \<Rightarrow> (''authorization'', ''Bearer '' @ value))"

section \<open>Decoding\<close>

definition b64_val :: "char \<Rightarrow> nat" where
  "b64_val c =
     (let n = code_unit c in
      if 65 \<le> n \<and> n \<le> 90 then n - 65 else if 97 \<le> n \<and> n \<le> 122 then n - 71
      else if 48 \<le> n \<and> n \<le> 57 then n + 4 else if n = 43 then 62 else 63)"

lemma b64_val_char: "v < 64 \<Longrightarrow> b64_val (b64_char v) = v"
  by (auto simp: b64_val_def b64_char_def Let_def) (simp add: code_unit_def)+

lemma b64_char_not_pad: "v < 64 \<Longrightarrow> b64_char v \<noteq> CHR ''=''"
proof
  assume v: "v < 64" "b64_char v = CHR ''=''"
  then have "code_unit (b64_char v) = 61" by (simp add: code_unit_def)
  then show False using v(1) by (auto simp: b64_char_def code_unit_def of_char_of split: if_splits)
qed

fun atob :: "string \<Rightarrow> nat list" where
  "atob (w # x # y # z # rest) =
     (if z = CHR ''='' then
        (if y = CHR ''='' then [b64_val w * 4 + b64_val x div 16]
         else [b64_val w * 4 + b64_val x div 16, b64_val x mod 16 * 16 + b64_val y div 4])
      else (b64_val w * 4 + b64_val x div 16) # (b64_val x mod 16 * 16 + b64_val y div 4) #
           (b64_val y mod 4 * 64 + b64_val z) # atob rest)"
| "atob _ = []"

lemma atob_btoa: "list_all (\<lambda>b. b < 256) bs \<Longrightarrow> atob (btoa bs) = bs"
proof (induction bs rule: btoa.induct)
  case (2 a)
  then have "a div 4 < 64" "a mod 4 * 16 < 64" by (simp_all add: less_mult_imp_div_less)
  then show ?case by (simp add: b64_val_char)
next
  case (3 a b)
  then have s: "a div 4 < 64" "a mod 4 * 16 + b div 16 < 64" "b mod 16 * 4 < 64" by auto
  moreover have "a div 4 * 4 + (a mod 4 * 16 + b div 16) div 16 = a"
    "(a mod 4 * 16 + b div 16) mod 16 * 16 + b mod 16 * 4 div 4 = b" using 3 by auto
  ultimately show ?case by (simp add: b64_val_char b64_char_not_pad)
next
  case (4 a b c rest)
  then have s: "a div 4 < 64" "a mod 4 * 16 + b div 16 < 64" "b mod 16 * 4 + c div 64 < 64" "c mod 64 < 64"
    by auto
  moreover have "a div 4 * 4 + (a mod 4 * 16 + b div 16) div 16 = a"
    "(a mod 4 * 16 + b div 16) mod 16 * 16 + (b mod 16 * 4 + c div 64) div 4 = b"
    "(b mod 16 * 4 + c div 64) mod 4 * 64 + c mod 64 = c" using 4 by auto
  ultimately show ?case using 4 by (simp add: b64_val_char b64_char_not_pad)
qed simp


fun utf8_decode :: "nat list \<Rightarrow> string" where
  "utf8_decode [] = []"
| "utf8_decode (n # ns) =
     (if n < 128 then char_of n # utf8_decode ns
      else (case ns of [] \<Rightarrow> [] | m # ms \<Rightarrow> char_of ((n - 192) * 64 + (m - 128)) # utf8_decode ms))"

lemma utf8_decode_encode: "utf8_decode (utf8 s) = s"
proof (induction s)
  case (Cons c s)
  have "(code_unit c div 64) * 64 + code_unit c mod 64 = code_unit c" by simp
  with Cons show ?case by (simp add: utf8_def utf8_char_def Let_def)
qed (simp add: utf8_def)

lemma utf8_bytes: "list_all (\<lambda>b. b < 256) (utf8 s)"
proof (induction s)
  case (Cons c s)
  have "code_unit c div 64 < 4" using code_unit_lt [of c] by simp
  moreover have "code_unit c mod 64 < 128" using mod_less_divisor [of 64 "code_unit c"] by linarith
  ultimately have "list_all (\<lambda>b. b < 256) (utf8_char c)" by (simp add: utf8_char_def Let_def)
  with Cons show ?case by (simp add: utf8_def)
qed (simp add: utf8_def)

lemma base64Utf8_decode: "utf8_decode (atob (base64Utf8 s)) = s"
  by (simp add: base64Utf8_def atob_btoa [OF utf8_bytes] utf8_decode_encode)

lemma parseAuth_header:
  "parseBotSecretAuth v = Some (Header n) \<Longrightarrow> headerNamePattern n \<and> \<not> forbiddenHeaderPattern n"
  by (auto simp: parseBotSecretAuth_def split: option.splits if_splits js.splits)

lemma parseAuth_basic:
  "parseBotSecretAuth v = Some (Basic u) \<Longrightarrow>
   u \<noteq> [] \<and> length u \<le> MAX_BOT_SECRET_USERNAME_LENGTH \<and> CHR '':'' \<notin> set u \<and> CHR 0x0A \<notin> set u \<and> CHR 0x0D \<notin> set u"
  by (auto simp: parseBotSecretAuth_def list_ex_iff split: option.splits if_splits js.splits)

text \<open>A header name is made of token characters, so it cannot end the header or start another.\<close>

lemma headerName_safe:
  "headerNamePattern n \<Longrightarrow> c \<in> set n \<Longrightarrow> c \<notin> {CHR 0x0A, CHR 0x0D, CHR '' '', CHR '':''}"
  by (auto simp: headerNamePattern_def list_all_iff token_char_def is_digit_def is_upper_def is_lower_def
      code_unit_def)

end
