(* ===== verification/Deployment.thy ===== *)
theory Deployment
  imports Prelude "HOL-Library.Word"
begin

text \<open>
  The small policies a deployment is configured by: who may sign up (\<open>signup-policy.ts\<close>), what
  is worth a notification (\<open>notification-policy.ts\<close>), whether a disk budget is enforced
  (\<open>disk-quota.ts\<close>) and the isolated network of a computer (\<open>computer-network.ts\<close>), whose
  FNV-1a hash is computed on 32-bit words.
\<close>

unbundle bit_operations_syntax

section \<open>Signup\<close>

record deployment_settings =
  signupsEnabled :: js
  adminEmail :: "string option"

datatype settings_resolution =
    Settings_absent
  | Settings_configured deployment_settings
  | Settings_conflict nat

definition resolveDeploymentSettings :: "deployment_settings list \<Rightarrow> settings_resolution" where
  "resolveDeploymentSettings rows =
     (case rows of
        [] \<Rightarrow> Settings_absent
      | first # _ \<Rightarrow> if length rows > 1 then Settings_conflict (length rows)
                      else Settings_configured first)"

datatype signup_role = Owner | Member

datatype signup_decision = Signup_ok signup_role | Signups_closed | Invalid_email

definition normalizeEmail :: "string \<Rightarrow> string" where
  "normalizeEmail email = toLowerCase (trim email)"

definition isOwnerEmail :: "string \<Rightarrow> string option \<Rightarrow> bool" where
  "isOwnerEmail email admin =
     (case admin of
        None \<Rightarrow> False
      | Some a \<Rightarrow>
          let configured = normalizeEmail a in
          if length configured = 0 then False else normalizeEmail email = configured)"

definition decideSignup :: "js \<Rightarrow> deployment_settings option \<Rightarrow> signup_decision" where
  "decideSignup email settings =
     (case settings of
        None \<Rightarrow> Signups_closed
      | Some s \<Rightarrow>
          if signupsEnabled s \<noteq> JBool True then Signups_closed
          else if blank_or_absent email then Invalid_email
          else Signup_ok (if isOwnerEmail (str_of email) (adminEmail s) then Owner else Member))"

lemma decideSignup_ok:
  "decideSignup email settings = Signup_ok role \<longleftrightarrow>
   (\<exists>s e. settings = Some s \<and> signupsEnabled s = JBool True \<and> email = JStr e \<and> \<not> is_blank e \<and>
          role = (if isOwnerEmail e (adminEmail s) then Owner else Member))"
proof (cases "blank_or_absent email")
  case True
  then have "\<not> (\<exists>e. email = JStr e \<and> \<not> is_blank e)" using blank_or_absent_JStr by blast
  with True show ?thesis by (auto simp: decideSignup_def split: option.splits)
next
  case False
  then obtain e where "email = JStr e" "\<not> is_blank e" using blank_or_absent_JStr by blast
  with False show ?thesis by (auto simp: decideSignup_def split: option.splits)
qed

lemma isOwnerEmail_iff:
  "isOwnerEmail e admin \<longleftrightarrow>
   (\<exists>a. admin = Some a \<and> \<not> is_blank a \<and> normalizeEmail e = normalizeEmail a)"
  by (auto simp: isOwnerEmail_def normalizeEmail_def toLowerCase_def Let_def trim_eq_Nil
      split: option.splits)

section \<open>Notifications\<close>

datatype notification_kind = N_completed | N_failed | N_needs_approval | N_stalled

fun notification_name :: "notification_kind \<Rightarrow> string" where
  "notification_name N_completed = ''run.completed''"
| "notification_name N_failed = ''run.failed''"
| "notification_name N_needs_approval = ''run.needs_approval''"
| "notification_name N_stalled = ''run.stalled''"

definition NOTIFICATION_KINDS :: "notification_kind list" where
  "NOTIFICATION_KINDS = [N_completed, N_failed, N_needs_approval, N_stalled]"

type_synonym notification_preferences = "notification_kind \<Rightarrow> bool"

definition DEFAULT_NOTIFICATION_PREFERENCES :: notification_preferences where
  "DEFAULT_NOTIFICATION_PREFERENCES = (\<lambda>_. False)"

definition isNotificationKind :: "string \<Rightarrow> notification_kind option" where
  "isNotificationKind s = find (\<lambda>k. notification_name k = s) NOTIFICATION_KINDS"

definition overlay :: "notification_preferences \<Rightarrow> string \<times> bool \<Rightarrow> notification_preferences" where
  "overlay resolved p =
     (case isNotificationKind (fst p) of None \<Rightarrow> resolved | Some k \<Rightarrow> resolved(k := snd p))"

definition resolveNotificationPreferences :: "(string \<times> bool) list \<Rightarrow> notification_preferences" where
  "resolveNotificationPreferences stored = foldl overlay DEFAULT_NOTIFICATION_PREFERENCES stored"

definition shouldNotify :: "notification_preferences \<Rightarrow> notification_kind \<Rightarrow> bool" where
  "shouldNotify preferences kind = preferences kind"

lemma isNotificationKind_iff: "isNotificationKind s = Some k \<longleftrightarrow> s = notification_name k"
  by (cases k) (auto simp: isNotificationKind_def NOTIFICATION_KINDS_def split: if_splits)

lemma overlay_at: "overlay p (s, b) k = (if s = notification_name k then b else p k)"
proof (cases "isNotificationKind s")
  case None
  then have "s \<noteq> notification_name k" by (metis isNotificationKind_iff option.distinct(1))
  with None show ?thesis by (simp add: overlay_def)
next
  case (Some j)
  then have s: "s = notification_name j" by (simp add: isNotificationKind_iff)
  have "notification_name j = notification_name k \<longleftrightarrow> j = k" by (cases j; cases k) simp_all
  with s Some show ?thesis by (auto simp: overlay_def)
qed

lemma resolve_last_row:
  "resolveNotificationPreferences rows k =
   (case map_of (rev rows) (notification_name k) of None \<Rightarrow> False | Some b \<Rightarrow> b)"
proof (induction rows rule: rev_induct)
  case Nil
  show ?case by (simp add: resolveNotificationPreferences_def DEFAULT_NOTIFICATION_PREFERENCES_def)
next
  case (snoc r rows)
  obtain s b where r: "r = (s, b)" by (cases r)
  have "resolveNotificationPreferences (rows @ [r]) k =
      (if s = notification_name k then b else resolveNotificationPreferences rows k)"
    by (simp add: resolveNotificationPreferences_def r overlay_at)
  with snoc show ?case by (simp add: r)
qed

section \<open>Disk quota\<close>

datatype disk_quota_mode = Auto | None_mode | Storage_opt

record driver_info =
  di_driver :: string
  di_backingFilesystem :: "string option"

record disk_quota_capability =
  dc_driver :: string
  dc_backingFilesystem :: "string option"
  dc_supported :: bool
  dc_detail :: string

record disk_quota_decision = disk_quota_capability +
  dq_mode :: disk_quota_mode
  dq_applied :: bool
  dq_enforced :: bool

definition normalized :: "string option \<Rightarrow> string" where
  "normalized v = (case v of None \<Rightarrow> [] | Some s \<Rightarrow> toLowerCase (trim s))"

definition classifyDiskQuota :: "driver_info \<Rightarrow> disk_quota_capability" where
  "classifyDiskQuota info =
     (let driver = normalized (Some (di_driver info));
          fs = map_option (\<lambda>s. toLowerCase (trim s)) (di_backingFilesystem info);
          answer = (\<lambda>supported detail.
            \<lparr>dc_driver = driver, dc_backingFilesystem = fs, dc_supported = supported, dc_detail = detail\<rparr>) in
      if driver = ''btrfs''
      then answer True ''btrfs answers a write-layer quota through subvolume project quotas''
      else if driver = ''overlay2'' \<and> normalized fs = ''xfs''
      then answer True ''overlay2 over xfs answers a write-layer quota with pquota mounted''
      else if driver = []
      then answer False ''the daemon reported no storage driver, so a write-layer quota cannot be promised''
      else if driver = ''overlay2''
      then answer False (''overlay2 answers a write-layer quota only over xfs with pquota; this daemon's backing filesystem is '' @
             (case fs of None \<Rightarrow> ''unreported'' | Some f \<Rightarrow> ''\"'' @ f @ ''\"''))
      else answer False (''the \"'' @ driver @ ''\" storage driver does not answer a write-layer quota''))"

definition quota_decision ::
  "disk_quota_capability \<Rightarrow> disk_quota_mode \<Rightarrow> bool \<Rightarrow> bool \<Rightarrow> string \<Rightarrow> disk_quota_decision" where
  "quota_decision c mode applied enforced detail =
     \<lparr>dc_driver = dc_driver c, dc_backingFilesystem = dc_backingFilesystem c,
      dc_supported = dc_supported c, dc_detail = detail, dq_mode = mode, dq_applied = applied,
      dq_enforced = enforced\<rparr>"

fun decideDiskQuota :: "disk_quota_mode \<Rightarrow> driver_info \<Rightarrow> disk_quota_decision" where
  "decideDiskQuota None_mode info =
     quota_decision (classifyDiskQuota info) None_mode False False
       ''PORKBOT_COMPUTER_DISK_QUOTA=none: the write layer is unbounded and belongs to the host's disk''"
| "decideDiskQuota Storage_opt info =
     (let c = classifyDiskQuota info in
      quota_decision c Storage_opt True (dc_supported c)
        (if dc_supported c
         then ''PORKBOT_COMPUTER_DISK_QUOTA=storage-opt: enforced ('' @ dc_detail c @ '')''
         else ''PORKBOT_COMPUTER_DISK_QUOTA=storage-opt: the create will carry the quota and '' @
              (if dc_driver c = [] then ''a daemon that named no driver''
               else ''the \"'' @ dc_driver c @ ''\" driver'') @
              '' will refuse it because it does not answer it''))"
| "decideDiskQuota Auto info =
     (let c = classifyDiskQuota info in
      quota_decision c Auto (dc_supported c) (dc_supported c)
        (if dc_supported c
         then ''PORKBOT_COMPUTER_DISK_QUOTA=auto: enforced ('' @ dc_detail c @ '')''
         else ''PORKBOT_COMPUTER_DISK_QUOTA=auto: not enforced, because '' @ dc_detail c @
              ''; raise the host or move the daemon to btrfs or overlay2 over xfs with pquota''))"

lemma classifyDiskQuota_supported:
  "dc_supported (classifyDiskQuota info) \<longleftrightarrow>
   normalized (Some (di_driver info)) = ''btrfs'' \<or>
   normalized (Some (di_driver info)) = ''overlay2'' \<and>
     (\<exists>fs. di_backingFilesystem info = Some fs \<and> normalized (Some (normalized (Some fs))) = ''xfs'')"
  by (auto simp: classifyDiskQuota_def Let_def normalized_def split: option.splits)

lemma decideDiskQuota_fields:
  "dq_enforced (decideDiskQuota m info) \<longleftrightarrow> m \<noteq> None_mode \<and> dc_supported (classifyDiskQuota info)"
  "dq_applied (decideDiskQuota m info) \<longleftrightarrow>
     m = Storage_opt \<or> m = Auto \<and> dc_supported (classifyDiskQuota info)"
  by (cases m; simp add: quota_decision_def Let_def)+

section \<open>The network of a computer\<close>

record computer_identity =
  computerId :: string
  botId :: string

record network_plan =
  np_name :: string
  np_driver :: string
  np_internal :: bool
  np_gatewayMode :: string
  np_hostNetwork :: bool
  np_publishPorts :: bool

datatype plan_problem =
    Not_prefixed | Reserved_name | Name_too_long | External_route | Reachable_gateway | Host_network
  | Published_ports

definition COMPUTER_NETWORK_PREFIX :: string where "COMPUTER_NETWORK_PREFIX = ''porkbot-bot''"

definition RESERVED_NETWORK_NAMES :: "string list" where
  "RESERVED_NETWORK_NAMES = [''host'', ''bridge'', ''default'', ''none'']"

definition MAX_COMPUTER_NETWORK_NAME_LENGTH :: nat where "MAX_COMPUTER_NETWORK_NAME_LENGTH = 63"
definition MAX_BOT_SLUG_LENGTH :: nat where "MAX_BOT_SLUG_LENGTH = 24"
definition MAX_COMPUTER_SLUG_LENGTH :: nat where "MAX_COMPUTER_SLUG_LENGTH = 16"

definition fnv_step :: "32 word \<Rightarrow> char \<Rightarrow> 32 word" where
  "fnv_step h c = (h XOR of_nat (code_unit c)) * 0x01000193"

definition fnv1a :: "string \<Rightarrow> 32 word" where
  "fnv1a input = foldl fnv_step 0x811c9dc5 input"

text \<open>\<open>hash.toString(16)\<close> and \<open>padStart(8, "0")\<close>.\<close>

definition hex_digit :: "nat \<Rightarrow> char" where
  "hex_digit d = (if d < 10 then char_of (48 + d) else char_of (87 + d))"

fun hex :: "nat \<Rightarrow> string" where
  "hex n = (if n < 16 then [hex_digit n] else hex (n div 16) @ [hex_digit (n mod 16)])"

declare hex.simps [simp del]

definition padStart8 :: "string \<Rightarrow> string" where
  "padStart8 s = replicate (8 - length s) (CHR ''0'') @ s"

definition identityHash :: "string \<Rightarrow> string" where
  "identityHash input = padStart8 (hex (unat (fnv1a input)))"

text \<open>
  Runs of characters outside \<open>[a-z0-9]\<close> become one dash and the outer dashes are dropped, which
  leaves the non-empty runs inside the class joined by single dashes.
\<close>

definition slug :: "string \<Rightarrow> string" where
  "slug value =
     (let normalized = join ''-'' (filter (\<lambda>t. t \<noteq> [])
            (split_by (\<lambda>c. \<not> label_char c) (toLowerCase value))) in
      if normalized = [] then ''computer'' else normalized)"

definition planComputerNetwork :: "computer_identity \<Rightarrow> range_error + network_plan" where
  "planComputerNetwork c =
     (if trim (computerId c) = [] \<or> trim (botId c) = [] then Inl (RangeError ''computer'')
      else Inr \<lparr>np_name = COMPUTER_NETWORK_PREFIX @ ''-'' @ take MAX_BOT_SLUG_LENGTH (slug (botId c)) @
                  ''-'' @ take MAX_COMPUTER_SLUG_LENGTH (slug (computerId c)) @ ''-'' @
                  identityHash (botId c @ [CHR 0x00] @ computerId c),
                np_driver = ''bridge'', np_internal = True, np_gatewayMode = ''isolated'',
                np_hostNetwork = False, np_publishPorts = False\<rparr>)"

definition computerNetworkPlanProblems :: "network_plan \<Rightarrow> plan_problem list" where
  "computerNetworkPlanProblems p =
     (if \<not> prefix (COMPUTER_NETWORK_PREFIX @ ''-'') (np_name p) then [Not_prefixed] else []) @
     (if np_name p \<in> set RESERVED_NETWORK_NAMES then [Reserved_name] else []) @
     (if length (np_name p) > MAX_COMPUTER_NETWORK_NAME_LENGTH then [Name_too_long] else []) @
     (if \<not> np_internal p \<or> np_driver p \<noteq> ''bridge'' then [External_route] else []) @
     (if np_gatewayMode p \<noteq> ''isolated'' then [Reachable_gateway] else []) @
     (if np_hostNetwork p then [Host_network] else []) @
     (if np_publishPorts p then [Published_ports] else [])"

definition assertComputerNetworkPlan ::
  "network_plan \<Rightarrow> (string \<times> plan_problem list) + network_plan" where
  "assertComputerNetworkPlan p =
     (let problems = computerNetworkPlanProblems p in
      if length problems > 0 then Inl (np_name p, problems) else Inr p)"

lemma length_hex: "n < 16 ^ k \<Longrightarrow> 0 < k \<Longrightarrow> length (hex n) \<le> k"
proof (induction n arbitrary: k rule: hex.induct)
  case (1 n)
  show ?case
  proof (cases "n < 16")
    case True
    then show ?thesis using "1.prems" by (subst hex.simps) simp
  next
    case False
    obtain j where k: "k = Suc j" using "1.prems"(2) by (cases k) auto
    have j: "0 < j" using False "1.prems"(1) k by (cases j) auto
    have "n div 16 < 16 ^ j" using "1.prems"(1) k by (simp add: less_mult_imp_div_less)
    with "1.IH" [OF False _ j] False show ?thesis by (subst hex.simps) (simp add: k)
  qed
qed

lemma length_identityHash [simp]: "length (identityHash s) = 8"
proof -
  have "unat (fnv1a s) < 16 ^ 8" using unsigned_less [of "fnv1a s"] by simp
  then have "length (hex (unat (fnv1a s))) \<le> 8" by (rule length_hex) simp
  then show ?thesis by (simp add: identityHash_def padStart8_def)
qed

lemma plan_name_length:
  "planComputerNetwork c = Inr p \<Longrightarrow> length (np_name p) \<le> 62"
  by (auto simp: planComputerNetwork_def COMPUTER_NETWORK_PREFIX_def MAX_BOT_SLUG_LENGTH_def
      MAX_COMPUTER_SLUG_LENGTH_def split: if_splits)

lemma plan_no_problems:
  assumes "planComputerNetwork c = Inr p"
  shows "computerNetworkPlanProblems p = []"
proof -
  have "prefix (COMPUTER_NETWORK_PREFIX @ ''-'') (np_name p)"
    using assms by (auto simp: planComputerNetwork_def split: if_splits)
  moreover from this have "np_name p \<notin> set RESERVED_NETWORK_NAMES"
    by (auto simp: RESERVED_NETWORK_NAMES_def COMPUTER_NETWORK_PREFIX_def)
  ultimately show ?thesis
    using assms plan_name_length [OF assms]
    by (auto simp: computerNetworkPlanProblems_def MAX_COMPUTER_NETWORK_NAME_LENGTH_def
        planComputerNetwork_def split: if_splits)
qed

end
