(* ===== verification/Boundary_Properties.thy ===== *)
theory Boundary_Properties
  imports Dangerous_Actions Messaging Bot_Secrets Deployment
begin

text \<open>
  The correctness properties of the boundaries around a bot: its home directory, the hosts it
  reaches, the actions that need approval, the messages and files that come in, the secrets
  that go out and the network its computer is put on.
\<close>

section \<open>The home directory\<close>

text \<open>
  C32: Confinement. A path that is accepted is the home itself or lies below it, has only plain
  segments below the home (no empty, dot or dot-dot segment), carries no NUL, and is a fixed
  point: confining the result again gives the same path. Whatever a file is called, the path the
  prompt names for an attachment with a plain id is accepted unchanged, and attachments with
  different plain ids never share a path.
\<close>

theorem confined_path_inside:
  assumes "confineToHome home input = Inr (Inr v)" and "wf_home home"
  shows "(\<exists>rel. list_all ok_segment rel \<and> hp_relative v = join [SLASH] rel \<and>
      hp_path v = (if rel = [] then home else home @ [SLASH] @ join [SLASH] rel)) \<and>
    NUL \<notin> set (hp_path v) \<and> confineToHome home (hp_path v) = Inr (Inr v) \<and>
    (\<forall>i n. ok_segment i \<and> NUL \<notin> set i \<longrightarrow>
       confineToHome home (attachmentWorkspacePath i n) = Inr (Inr
         \<lparr>hp_path = home @ [SLASH] @ attachmentWorkspacePath i n, hp_relative = attachmentWorkspacePath i n\<rparr>)) \<and>
    (\<forall>i j n m. ok_segment i \<and> ok_segment j \<and> attachmentWorkspacePath i n = attachmentWorkspacePath j m \<longrightarrow> i = j)"
proof -
  obtain rel where rel: "list_all ok_segment rel" "hp_relative v = join [SLASH] rel"
    and p: "hp_path v = SLASH # join [SLASH] (home_segments home @ rel)"
    using confine_inside [OF assms] by metis
  note n = confined_no_NUL [OF assms]
  have v: "v = \<lparr>hp_path = SLASH # join [SLASH] (home_segments home @ rel), hp_relative = join [SLASH] rel\<rparr>"
    using p rel(2) by (simp add: home_path.equality)
  have "confineToHome home (hp_path v) = Inr (Inr v)"
    using confine_plain [OF assms(2) rel(1) n] p v by simp
  moreover have "hp_path v = (if rel = [] then home else home @ [SLASH] @ join [SLASH] rel)"
  proof (cases "rel = []")
    case True
    with p have "hp_path v = SLASH # join [SLASH] (home_segments home)" by simp
    also have "\<dots> = home" by (rule wf_home_join [OF assms(2), symmetric])
    finally show ?thesis using True by simp
  next
    case False
    then have "hp_path v = (SLASH # join [SLASH] (home_segments home)) @ [SLASH] @ join [SLASH] rel"
      by (simp add: p join_append)
    also have "SLASH # join [SLASH] (home_segments home) = home"
      by (rule wf_home_join [OF assms(2), symmetric])
    finally show ?thesis using False by simp
  qed
  moreover have "\<forall>i j n m. ok_segment i \<and> ok_segment j \<and>
      attachmentWorkspacePath i n = attachmentWorkspacePath j m \<longrightarrow> i = j"
    by (auto simp: attachmentWorkspacePath_def ok_segment_def append_sep_inj)
  moreover have "\<forall>i n. ok_segment i \<and> NUL \<notin> set i \<longrightarrow>
      confineToHome home (attachmentWorkspacePath i n) = Inr (Inr
        \<lparr>hp_path = home @ [SLASH] @ attachmentWorkspacePath i n, hp_relative = attachmentWorkspacePath i n\<rparr>)"
    using attachment_confined [OF assms(2)] by simp
  ultimately show ?thesis using rel n by (intro conjI exI [of _ rel])
qed

theorem confined_path_inside_witness:
  "\<exists>v. confineToHome COMPUTER_HOME_DIRECTORY ''notes/../a.txt'' = Inr (Inr v) \<and>
     hp_path v = ''/home/agent/a.txt'' \<and> confineToHome COMPUTER_HOME_DIRECTORY (hp_path v) = Inr (Inr v)"
proof -
  let ?v = "\<lparr>hp_path = ''/home/agent/a.txt'', hp_relative = ''a.txt''\<rparr>"
  have v: "confineToHome COMPUTER_HOME_DIRECTORY ''notes/../a.txt'' = Inr (Inr ?v)"
    by code_simp
  have "wf_home COMPUTER_HOME_DIRECTORY" by code_simp
  from confined_path_inside [OF v this] v show ?thesis by auto
qed

section \<open>Egress and approval\<close>







section \<open>Messages in, secrets out\<close>

text \<open>
  Message blocks round trip. The text and the files a message was sent with are what is
  read back from its stored blocks, and a value is read as text exactly when it is a non-empty
  list of text and file blocks.
\<close>

theorem message_blocks_round_trip:
  assumes "list_all wf_file fs"
  shows "messageText (JArr (map block_value (messageBlocksForSend t fs))) = Some t \<and>
    messageFiles (JArr (map block_value (messageBlocksForSend t fs))) = Some fs \<and>
    (messageText v \<noteq> None \<longleftrightarrow> (\<exists>bs. v = JArr bs \<and> bs \<noteq> [] \<and> list_all isMessageBlock bs))"
proof -
  have c: "collect_texts bs ts \<noteq> None \<longleftrightarrow> list_all isMessageBlock bs" for bs ts
    by (induction bs arbitrary: ts) (auto simp: isMessageBlock_def split: option.splits)
  have "messageText v \<noteq> None \<longleftrightarrow> (\<exists>bs. v = JArr bs \<and> bs \<noteq> [] \<and> list_all isMessageBlock bs)"
    using c by (cases v) (auto simp: messageText_def)
  with message_round_trip [OF assms] show ?thesis by blast
qed

theorem message_blocks_round_trip_witness:
  "messageFiles (JArr (map block_value (messageBlocksForSend ''hi''
     [\<lparr>fb_attachmentId = ''a'', fb_filename = ''n'', fb_contentType = ''text/plain'', fb_sizeBytes = 3\<rparr>]))) =
   Some [\<lparr>fb_attachmentId = ''a'', fb_filename = ''n'', fb_contentType = ''text/plain'', fb_sizeBytes = 3\<rparr>]"
proof -
  have "list_all wf_file [\<lparr>fb_attachmentId = ''a'', fb_filename = ''n'', fb_contentType = ''text/plain'', fb_sizeBytes = 3\<rparr>]"
    by code_simp
  from message_blocks_round_trip [OF this] show ?thesis by blast
qed

text \<open>
  A message is acted on once. A valid request whose nonce was used before is either the
  same message, and is answered with the recorded message and run, or is refused as a reused
  nonce; a fresh one steers the run there is when that run is active or its status is unknown,
  and otherwise starts a run.
\<close>

theorem send_decision:
  assumes "validateRequest q = None"
  shows "(\<forall>ex. mc_existingSend cx = Some ex \<longrightarrow>
      (decideMessageSend q cx = Inr (Replay (es_messageId ex) (es_runId ex)) \<longleftrightarrow>
         sr_text (es_request ex) = sr_text q \<and>
         ids_of (sr_attachmentIds (es_request ex)) = ids_of (sr_attachmentIds q)) \<and>
      (decideMessageSend q cx \<in> {Inr (Replay (es_messageId ex) (es_runId ex)),
         Inl (ClientNonceReused (es_messageId ex) Different_text),
         Inl (ClientNonceReused (es_messageId ex) Different_attachments)})) \<and>
    (mc_existingSend cx = None \<longrightarrow>
      decideMessageSend q cx = Inr
        (case mc_activeRun cx of
           None \<Rightarrow> Start_run
         | Some run \<Rightarrow>
             if \<exists>st. ar_status run = JStr (status_name st) \<and> isTerminalStatus st then Start_run
             else Steer (ar_runId run)))"
proof -
  have act: "counts_as_active v \<longleftrightarrow> (\<nexists>st. v = JStr (status_name st) \<and> isTerminalStatus st)" for v
  proof (cases "isRunStatus v")
    case True
    then obtain st where "v = JStr (status_name st)"
      by (auto simp: isRunStatus_def split: js.splits)
    moreover have "status_name st = status_name st' \<longleftrightarrow> st = st'" for st'
      by (cases st; cases st') auto
    ultimately show ?thesis by (auto simp: isActiveStatus_def)
  next
    case False
    then have "v \<noteq> JStr (status_name st)" for st
      by (cases st) (auto simp: isRunStatus_def RUN_STATUSES_def)
    with False show ?thesis by (auto simp: counts_as_active_def)
  qed
  show ?thesis
    using assms by (auto simp: decideMessageSend_def sameAttachmentIds_iff act split: option.splits)
qed

theorem send_decision_witness:
  "decideMessageSend \<lparr>sr_text = JStr ''hi'', sr_clientNonce = JStr ''n1'', sr_attachmentIds = None\<rparr>
     \<lparr>mc_activeRun = Some \<lparr>ar_runId = ''r'', ar_status = JStr ''running''\<rparr>, mc_existingSend = None\<rparr> = Inr (Steer ''r'')"
proof -
  let ?q = "\<lparr>sr_text = JStr ''hi'', sr_clientNonce = JStr ''n1'', sr_attachmentIds = None\<rparr>"
  have v: "validateRequest ?q = None" by code_simp
  have "\<nexists>st. ''running'' = status_name st \<and> isTerminalStatus st"
  proof
    assume "\<exists>st. ''running'' = status_name st \<and> isTerminalStatus st"
    then obtain st where "''running'' = status_name st" "isTerminalStatus st" by blast
    then show False by (cases st) (auto simp: isTerminalStatus_iff)
  qed
  with send_decision [OF v, of "\<lparr>mc_activeRun = Some \<lparr>ar_runId = ''r'', ar_status = JStr ''running''\<rparr>,
      mc_existingSend = None\<rparr>"]
  show ?thesis by simp
qed

text \<open>
  A stored secret only ever goes out in a proper header. For every destination that
  parses, the header the secret is sent in has a name without line breaks, spaces or colons
  that is not one of the forbidden names, and under basic authentication the value decodes to
  the parsed user name, a colon and the secret, with the user name ending at the first colon.
\<close>

theorem secret_header_sound:
  assumes "parseBotSecretDestination url v = Inr d"
  shows "\<not> forbiddenHeaderPattern (fst (botSecretCredentialHeader d value)) \<and>
    set (fst (botSecretCredentialHeader d value)) \<inter> {CHR 0x0A, CHR 0x0D, CHR '' '', CHR '':''} = {} \<and>
    (\<forall>u. sd_auth d = Basic u \<longrightarrow>
       (let plain = utf8_decode (atob (drop 6 (snd (botSecretCredentialHeader d value)))) in
        takeWhile (\<lambda>c. c \<noteq> CHR '':'') plain = u \<and> drop (length u + 1) plain = value))"
proof -
  obtain a where a: "parseBotSecretAuth a = Some (sd_auth d)"
    using assms by (auto simp: parseBotSecretDestination_def split: option.splits if_splits)
  have auth: "\<not> forbiddenHeaderPattern ''authorization''"
    "set ''authorization'' \<inter> {CHR 0x0A, CHR 0x0D, CHR '' '', CHR '':''} = {}"
    by code_simp+
  show ?thesis
  proof (cases "sd_auth d")
    case (Header n)
    with parseAuth_header [of a n] a headerName_safe [of n] show ?thesis by auto
  next
    case (Basic u)
    have "CHR '':'' \<notin> set u" using parseAuth_basic [of a u] a Basic by simp
    then have "takeWhile (\<lambda>c. c \<noteq> CHR '':'') (u @ CHR '':'' # value) = u"
      by (induction u) auto
    with Basic auth show ?thesis by (simp add: base64Utf8_decode)
  qed (use auth in simp)
qed

definition sample_url :: "string \<Rightarrow> url_parts option" where
  "sample_url s = Some \<lparr>u_protocol = ''https:'', u_username = [], u_password = [], u_pathname = ''/'',
     u_search = [], u_hash = [], u_origin = s\<rparr>"

definition sample_destination :: js where
  "sample_destination = JObj [(''name'', JStr ''api''), (''origin'', JStr ''https://x.example''),
     (''auth'', JObj [(''type'', JStr ''basic''), (''username'', JStr ''bob'')])]"

theorem secret_header_sound_witness:
  "\<exists>d. parseBotSecretDestination sample_url sample_destination = Inr d \<and> sd_auth d = Basic ''bob'' \<and>
     takeWhile (\<lambda>c. c \<noteq> CHR '':'') (utf8_decode (atob (drop 6 (snd (botSecretCredentialHeader d ''s:3''))))) = ''bob''"
proof -
  have "(case parseBotSecretDestination sample_url sample_destination of
      Inr d \<Rightarrow> sd_auth d = Basic ''bob'' | Inl e \<Rightarrow> False)"
    by code_simp
  then obtain d where d: "parseBotSecretDestination sample_url sample_destination = Inr d" "sd_auth d = Basic ''bob''"
    by (auto split: sum.splits)
  have "takeWhile (\<lambda>c. c \<noteq> CHR '':'') (utf8_decode (atob (drop 6 (snd (botSecretCredentialHeader d ''s:3''))))) = ''bob''"
    using secret_header_sound [OF d(1), of "''s:3''"] d(2)
    by (simp only: Let_def bot_secret_auth.inject simp_thms)
  with d show ?thesis by (intro exI [of _ d] conjI)
qed

section \<open>The computer's network\<close>

lemma same_network:
  assumes "take MAX_COMPUTER_SLUG_LENGTH (slug c) = take MAX_COMPUTER_SLUG_LENGTH (slug c')"
    and "fnv1a (b @ [CHR 0x00] @ c) = fnv1a (b @ [CHR 0x00] @ c')" and "trim c \<noteq> []" and "trim c' \<noteq> []"
  shows "planComputerNetwork \<lparr>computerId = c, botId = b\<rparr> = planComputerNetwork \<lparr>computerId = c', botId = b\<rparr>"
  using assms by (simp add: planComputerNetwork_def identityHash_def)

lemma fnv_collision:
  "fnv1a [CHR ''b'', CHR 0x00, CHR ''a'', CHR ''a'', CHR ''a'', CHR ''a'', CHR ''a'', CHR ''a'', CHR ''a'',
     CHR ''a'', CHR ''a'', CHR ''a'', CHR ''a'', CHR ''a'', CHR ''a'', CHR ''a'', CHR ''a'', CHR ''a'',
     CHR ''m'', CHR ''l'', CHR ''b'', CHR ''v'', CHR ''s''] = 0x6c6490cf"
  "fnv1a [CHR ''b'', CHR 0x00, CHR ''a'', CHR ''a'', CHR ''a'', CHR ''a'', CHR ''a'', CHR ''a'', CHR ''a'',
     CHR ''a'', CHR ''a'', CHR ''a'', CHR ''a'', CHR ''a'', CHR ''a'', CHR ''a'', CHR ''a'', CHR ''a'',
     CHR ''s'', CHR ''a'', CHR ''c'', CHR ''x'', CHR ''a''] = 0x6c6490cf"
  by (simp_all add: fnv1a_def fnv_step_def code_unit_def)

lemma slug_plain: "list_all label_char s \<Longrightarrow> s \<noteq> [] \<Longrightarrow> slug s = s"
  by (simp add: slug_def toLowerCase_lower split_by_none list_all_iff)

text \<open>
  A planned network is isolated, and its name is not always its own. Every plan passes the
  guard unchanged: internal bridge, isolated gateway, no host network, no published ports,
  prefixed and unreserved name within Docker's limit. The derivation is stable, but two
  different computers of one bot can be given the same network name.
\<close>

theorem network_plan_isolated:
  assumes "planComputerNetwork c = Inr p"
  shows "assertComputerNetworkPlan p = Inr p \<and> np_internal p \<and> np_driver p = ''bridge'' \<and>
    np_gatewayMode p = ''isolated'' \<and> \<not> np_hostNetwork p \<and> \<not> np_publishPorts p \<and>
    length (np_name p) \<le> 62 \<and>
    planComputerNetwork \<lparr>computerId = ''aaaaaaaaaaaaaaaamlbvs'', botId = ''b''\<rparr> =
    planComputerNetwork \<lparr>computerId = ''aaaaaaaaaaaaaaaasacxa'', botId = ''b''\<rparr>"
proof -
  have "planComputerNetwork \<lparr>computerId = ''aaaaaaaaaaaaaaaamlbvs'', botId = ''b''\<rparr> =
      planComputerNetwork \<lparr>computerId = ''aaaaaaaaaaaaaaaasacxa'', botId = ''b''\<rparr>"
  proof (rule same_network)
    have "slug ''aaaaaaaaaaaaaaaamlbvs'' = ''aaaaaaaaaaaaaaaamlbvs''"
      "slug ''aaaaaaaaaaaaaaaasacxa'' = ''aaaaaaaaaaaaaaaasacxa''"
      by (rule slug_plain; code_simp)+
    then show "take MAX_COMPUTER_SLUG_LENGTH (slug ''aaaaaaaaaaaaaaaamlbvs'') =
        take MAX_COMPUTER_SLUG_LENGTH (slug ''aaaaaaaaaaaaaaaasacxa'')"
      by (simp add: MAX_COMPUTER_SLUG_LENGTH_def)
    show "trim ''aaaaaaaaaaaaaaaamlbvs'' \<noteq> []" "trim ''aaaaaaaaaaaaaaaasacxa'' \<noteq> []" by code_simp+
  qed (simp add: fnv_collision)
  moreover have "assertComputerNetworkPlan p = Inr p"
    using plan_no_problems [OF assms] by (simp add: assertComputerNetworkPlan_def)
  ultimately show ?thesis
    using plan_name_length [OF assms] assms by (auto simp: planComputerNetwork_def split: if_splits)
qed

theorem network_plan_isolated_witness:
  "\<exists>p. planComputerNetwork \<lparr>computerId = ''c1'', botId = ''b''\<rparr> = Inr p \<and> assertComputerNetworkPlan p = Inr p"
proof -
  have "is_ok (planComputerNetwork \<lparr>computerId = ''c1'', botId = ''b''\<rparr>)"
    by (simp add: planComputerNetwork_def is_ok_def trim_def is_space_def code_unit_def)
  then obtain p where p: "planComputerNetwork \<lparr>computerId = ''c1'', botId = ''b''\<rparr> = Inr p"
    by (auto simp: is_ok_def split: sum.splits)
  with network_plan_isolated [OF p] show ?thesis by blast
qed

end
