(* ===== verification/Calendar.thy ===== *)
theory Calendar
  imports Prelude
begin

text \<open>
  The proleptic Gregorian calendar of the JavaScript \<open>Date\<close>: \<open>Date.UTC\<close>, \<open>getUTCFullYear\<close>,
  \<open>getUTCMonth\<close>, \<open>getUTCDate\<close> and \<open>getUTCDay\<close> on instants in milliseconds (within the range of
  a valid date), with the proof that taking an instant apart and putting it together is the
  identity on days.
\<close>

abbreviation MINUTE_MS :: int where "MINUTE_MS \<equiv> 60000"
abbreviation HOUR_MS :: int where "HOUR_MS \<equiv> 3600000"
abbreviation DAY_MS :: int where "DAY_MS \<equiv> 86400000"

section \<open>Years\<close>

definition leap :: "int \<Rightarrow> bool" where
  "leap y = (y mod 4 = 0 \<and> (y mod 100 \<noteq> 0 \<or> y mod 400 = 0))"

text \<open>The day number of the first of January, counted from the epoch (\<open>DayFromYear\<close>).\<close>

definition dayFromYear :: "int \<Rightarrow> int" where
  "dayFromYear y =
     365 * (y - 1970) + (y - 1969) div 4 - (y - 1901) div 100 + (y - 1601) div 400"

text \<open>The year of a day: the estimate from the mean length of a year is off by at most one.\<close>

definition yearFromDay :: "int \<Rightarrow> int" where
  "yearFromDay d =
     (let y = 1970 + (400 * d) div 146097 in
      if dayFromYear y > d then y - 1 else if dayFromYear (y + 1) \<le> d then y + 1 else y)"

lemma dayFromYear_bounds:
  "400 * dayFromYear y \<le> 146097 * (y - 1970) + 593"
  "400 * dayFromYear y \<ge> 146097 * (y - 1970) - 608"
  unfolding dayFromYear_def by simp_all

lemma dayFromYear_less: "dayFromYear y < dayFromYear (y + 1)"
  using dayFromYear_bounds(1) [of y] dayFromYear_bounds(2) [of "y + 1"] by simp

lemma yearFromDay_bounds: "dayFromYear (yearFromDay d) \<le> d \<and> d < dayFromYear (yearFromDay d + 1)"
proof -
  define n where "n = (400 * d) div 146097"
  have n: "146097 * n \<le> 400 * d" "400 * d < 146097 * n + 146097"
    by (auto simp: n_def)
  have lo: "dayFromYear (1970 + n - 1) \<le> d"
    using dayFromYear_bounds(1) [of "1970 + n - 1"] n by simp
  have hi: "d < dayFromYear (1970 + n + 1 + 1)"
    using dayFromYear_bounds(2) [of "1970 + n + 1 + 1"] n by simp
  show ?thesis
    using lo hi unfolding yearFromDay_def Let_def n_def [symmetric] by simp
qed

lemma dayFromYear_mono: "x \<le> y \<Longrightarrow> dayFromYear x \<le> dayFromYear y"
proof (induction "nat (y - x)" arbitrary: y)
  case 0
  then show ?case by simp
next
  case (Suc n)
  then have "dayFromYear x \<le> dayFromYear (y - 1)" by simp
  then show ?case using dayFromYear_less [of "y - 1"] by simp
qed

lemma yearFromDay_unique:
  assumes "dayFromYear y \<le> d" and "d < dayFromYear (y + 1)"
  shows "yearFromDay d = y"
  using assms yearFromDay_bounds [of d] dayFromYear_mono [of "yearFromDay d + 1" y]
    dayFromYear_mono [of "y + 1" "yearFromDay d"]
  by linarith

lemma div_next:
  assumes "0 < k"
  shows "(z + 1) div k = z div k + (if (z + 1) mod k = 0 then 1 else (0 :: int))"
proof (cases "z mod k + 1 = k")
  case True
  have "z + 1 = k * (z div k) + z mod k + 1" by simp
  also have "\<dots> = k * (z div k + 1)" by (simp only: distrib_left mult_1_right add.assoc True)
  finally have "z + 1 = k * (z div k + 1)" .
  then show ?thesis using assms by simp
next
  case False
  have r: "0 \<le> z mod k + 1" "z mod k + 1 < k" 
    using False pos_mod_bound [OF assms, of z] pos_mod_sign [OF assms, of z] by linarith+
  have z: "z + 1 = k * (z div k) + (z mod k + 1)" by simp
  have "(z + 1) div k = z div k" by (rule int_div_pos_eq [OF z r])
  moreover have "(z + 1) mod k = z mod k + 1" by (rule int_mod_pos_eq [OF z r])
  moreover have "z mod k + 1 \<noteq> 0" using assms pos_mod_sign [of k z] by linarith
  ultimately show ?thesis by simp
qed

lemma mod_shift: "(y - k * c) mod k = y mod (k :: int)"
  using mod_mult_self2 [of y k "- c"] by simp

lemma leap_days:
  assumes "q \<Longrightarrow> p" and "r \<Longrightarrow> q"
    and "x = 365 + (if p then 1 else 0) - (if q then 1 else 0) + (if r then 1 else (0 :: int))"
  shows "x = (if p \<and> (\<not> q \<or> r) then 366 else 365)"
  using assms(1,2) unfolding assms(3) by (cases p; cases q; cases r) simp_all

lemma year_length: "dayFromYear (y + 1) - dayFromYear y = (if leap y then 366 else 365)"
proof -
  have 4: "(y + 1 - 1969) div 4 = (y - 1969) div 4 + (if y mod 4 = 0 then 1 else 0)"
    using div_next [of 4 "y - 1969"] mod_shift [of y 4 492] by simp
  have 100: "(y + 1 - 1901) div 100 = (y - 1901) div 100 + (if y mod 100 = 0 then 1 else 0)"
    using div_next [of 100 "y - 1901"] mod_shift [of y 100 19] by simp
  have 400: "(y + 1 - 1601) div 400 = (y - 1601) div 400 + (if y mod 400 = 0 then 1 else 0)"
    using div_next [of 400 "y - 1601"] mod_shift [of y 400 4] by simp
  have sum: "365 * (y + 1 - 1970) + (a + p) - (b + q) + (c + r) - (365 * (y - 1970) + a - b + c) =
      365 + p - q + r" for a b c p q r :: int by simp
  show ?thesis
    unfolding leap_def
  proof (rule leap_days)
    show "y mod 100 = 0 \<Longrightarrow> y mod 4 = 0"
      using dvd_trans [of 4 100 y] by (simp add: mod_eq_0_iff_dvd)
    show "y mod 400 = 0 \<Longrightarrow> y mod 100 = 0"
      using dvd_trans [of 100 400 y] by (simp add: mod_eq_0_iff_dvd)
    show "dayFromYear (y + 1) - dayFromYear y = 365 + (if y mod 4 = 0 then 1 else 0) -
        (if y mod 100 = 0 then 1 else 0) + (if y mod 400 = 0 then 1 else 0)"
      unfolding dayFromYear_def 4 100 400 by (rule sum)
  qed
qed

section \<open>Months and days\<close>

text \<open>Days before the first of a month (1 to 12; 13 is the length of the year).\<close>

definition daysBefore :: "bool \<Rightarrow> int \<Rightarrow> int" where
  "daysBefore l m =
     (let k = (if l then 1 else 0) in
      if m \<le> 1 then 0 else if m = 2 then 31 else if m = 3 then 59 + k else if m = 4 then 90 + k
      else if m = 5 then 120 + k else if m = 6 then 151 + k else if m = 7 then 181 + k
      else if m = 8 then 212 + k else if m = 9 then 243 + k else if m = 10 then 273 + k
      else if m = 11 then 304 + k else if m = 12 then 334 + k else 365 + k)"

definition monthOfYday :: "bool \<Rightarrow> int \<Rightarrow> int" where
  "monthOfYday l n =
     (if n < daysBefore l 2 then 1 else if n < daysBefore l 3 then 2 else if n < daysBefore l 4 then 3
      else if n < daysBefore l 5 then 4 else if n < daysBefore l 6 then 5 else if n < daysBefore l 7 then 6
      else if n < daysBefore l 8 then 7 else if n < daysBefore l 9 then 8 else if n < daysBefore l 10 then 9
      else if n < daysBefore l 11 then 10 else if n < daysBefore l 12 then 11 else 12)"

definition dayOf :: "int \<Rightarrow> int" where
  "dayOf ms = ms div DAY_MS"

definition getUTCFullYear :: "int \<Rightarrow> int" where
  "getUTCFullYear ms = yearFromDay (dayOf ms)"

definition yday :: "int \<Rightarrow> int" where
  "yday ms = dayOf ms - dayFromYear (getUTCFullYear ms)"

text \<open>The month counted from one, \<open>getUTCMonth() + 1\<close>.\<close>

definition utcMonth :: "int \<Rightarrow> int" where
  "utcMonth ms = monthOfYday (leap (getUTCFullYear ms)) (yday ms)"

definition getUTCDate :: "int \<Rightarrow> int" where
  "getUTCDate ms = yday ms - daysBefore (leap (getUTCFullYear ms)) (utcMonth ms) + 1"

definition getUTCDay :: "int \<Rightarrow> int" where
  "getUTCDay ms = (dayOf ms + 4) mod 7"

text \<open>
  \<open>Date.UTC(year, month - 1, day, hour, minute)\<close> for a month from 1 to 12; a year from 0 to 99
  means the twentieth century.
\<close>

definition dateUTC :: "int \<Rightarrow> int \<Rightarrow> int \<Rightarrow> int \<Rightarrow> int \<Rightarrow> int" where
  "dateUTC year month day hour minute =
     (let y = (if 0 \<le> year \<and> year \<le> 99 then 1900 + year else year) in
      (dayFromYear y + daysBefore (leap y) month + day - 1) * DAY_MS + hour * HOUR_MS + minute * MINUTE_MS)"

lemma yday_bounds: "0 \<le> yday ms \<and> yday ms < (if leap (getUTCFullYear ms) then 366 else 365)"
  using yearFromDay_bounds [of "dayOf ms"] year_length [of "getUTCFullYear ms"]
  by (simp add: yday_def getUTCFullYear_def)

lemma monthOfYday_bounds:
  assumes "0 \<le> n" and "n < (if l then 366 else 365)"
  shows "1 \<le> monthOfYday l n \<and> monthOfYday l n \<le> 12 \<and>
    daysBefore l (monthOfYday l n) \<le> n \<and> n < daysBefore l (monthOfYday l n + 1)"
  using assms by (cases l) (auto simp: monthOfYday_def daysBefore_def Let_def)

lemma utcMonth_bounds: "1 \<le> utcMonth ms \<and> utcMonth ms \<le> 12"
  using monthOfYday_bounds yday_bounds unfolding utcMonth_def by blast

lemma year_after_epoch: "0 \<le> ms \<Longrightarrow> 1970 \<le> getUTCFullYear ms"
proof (rule ccontr)
  assume ms: "0 \<le> ms" and "\<not> 1970 \<le> getUTCFullYear ms"
  then have "getUTCFullYear ms + 1 \<le> 1970" by simp
  then have "dayFromYear (getUTCFullYear ms + 1) \<le> dayFromYear 1970" by (rule dayFromYear_mono)
  also have "\<dots> = 0" by (simp add: dayFromYear_def)
  finally have "dayOf ms < 0" using yearFromDay_bounds [of "dayOf ms"] by (simp add: getUTCFullYear_def)
  with ms show False by (simp add: dayOf_def pos_imp_zdiv_neg_iff)
qed

text \<open>Taking an instant apart and putting the parts together.\<close>

lemma dateUTC_parts_year:
  assumes "\<not> (0 \<le> getUTCFullYear ms \<and> getUTCFullYear ms \<le> 99)"
  shows "dateUTC (getUTCFullYear ms) (utcMonth ms) (getUTCDate ms) hour minute =
    ms div DAY_MS * DAY_MS + hour * HOUR_MS + minute * MINUTE_MS"
proof -
  have "dateUTC (getUTCFullYear ms) (utcMonth ms) (getUTCDate ms) hour minute =
      (dayFromYear (getUTCFullYear ms) + daysBefore (leap (getUTCFullYear ms)) (utcMonth ms) +
       getUTCDate ms - 1) * DAY_MS + hour * HOUR_MS + minute * MINUTE_MS"
    unfolding dateUTC_def Let_def using assms by (simp only: if_False)
  also have "dayFromYear (getUTCFullYear ms) + daysBefore (leap (getUTCFullYear ms)) (utcMonth ms) +
      getUTCDate ms - 1 = ms div DAY_MS"
    by (simp add: getUTCDate_def yday_def dayOf_def)
  finally show ?thesis .
qed

lemma dateUTC_parts:
  assumes "0 \<le> ms"
  shows "dateUTC (getUTCFullYear ms) (utcMonth ms) (getUTCDate ms) hour minute =
    ms div DAY_MS * DAY_MS + hour * HOUR_MS + minute * MINUTE_MS"
  using year_after_epoch [OF assms] by (intro dateUTC_parts_year) simp

lemma day_bounds: "a div DAY_MS * DAY_MS \<le> a \<and> a < a div DAY_MS * DAY_MS + DAY_MS"
proof -
  define q r where "q = a div DAY_MS" and "r = a mod DAY_MS"
  have "a = q * DAY_MS + r" unfolding q_def r_def by (rule div_mult_mod_eq [symmetric])
  moreover have "0 \<le> r" "r < DAY_MS" by (simp_all add: r_def)
  ultimately show ?thesis unfolding q_def [symmetric] by linarith
qed

text \<open>In the years \<open>Date.UTC\<close> moves to the twentieth century, the result is later.\<close>

lemma dateUTC_early_years:
  assumes "0 \<le> getUTCFullYear ms" and "getUTCFullYear ms \<le> 99" and "0 \<le> hour" and "0 \<le> minute"
  shows "ms < dateUTC (getUTCFullYear ms) (utcMonth ms) (getUTCDate ms) hour minute"
proof -
  let ?y = "getUTCFullYear ms"
  have d1: "1 \<le> getUTCDate ms"
    using monthOfYday_bounds [of "yday ms" "leap ?y"] yday_bounds [of ms]
    by (simp add: getUTCDate_def utcMonth_def)
  have b0: "0 \<le> daysBefore l m" for l m by (simp add: daysBefore_def Let_def)
  have "dayOf ms < dayFromYear (?y + 1)"
    using yearFromDay_bounds [of "dayOf ms"] by (simp add: getUTCFullYear_def)
  also have "\<dots> \<le> dayFromYear (1900 + ?y)" by (rule dayFromYear_mono) simp
  finally have "dayOf ms + 1 \<le> dayFromYear (1900 + ?y) + daysBefore (leap (1900 + ?y)) (utcMonth ms) + getUTCDate ms - 1"
    using d1 b0 [of "leap (1900 + ?y)" "utcMonth ms"] by linarith
  then have "(dayOf ms + 1) * DAY_MS \<le>
      (dayFromYear (1900 + ?y) + daysBefore (leap (1900 + ?y)) (utcMonth ms) + getUTCDate ms - 1) * DAY_MS"
    by (rule mult_right_mono) simp
  moreover have "ms < (dayOf ms + 1) * DAY_MS" using day_bounds [of ms] by (simp add: dayOf_def distrib_right)
  moreover have "dateUTC ?y (utcMonth ms) (getUTCDate ms) hour minute =
      (dayFromYear (1900 + ?y) + daysBefore (leap (1900 + ?y)) (utcMonth ms) + getUTCDate ms - 1) * DAY_MS +
      hour * HOUR_MS + minute * MINUTE_MS"
    using assms(1,2) by (simp add: dateUTC_def Let_def)
  ultimately show ?thesis using assms(3,4) by linarith
qed

lemma same_day_parts:
  assumes "ms div DAY_MS = ms' div DAY_MS"
  shows "getUTCFullYear ms = getUTCFullYear ms'" and "utcMonth ms = utcMonth ms'"
    and "getUTCDate ms = getUTCDate ms'" and "getUTCDay ms = getUTCDay ms'"
  using assms by (simp_all add: getUTCFullYear_def utcMonth_def getUTCDate_def getUTCDay_def yday_def dayOf_def)

end
