(* ===== verification/Schedule.thy ===== *)
theory Schedule
  imports Calendar
begin

text \<open>
  The contract of a schedule: the next slot after an instant is strictly later. What follows for
  every schedule: walking its slots never visits an instant twice.
\<close>

fun slots :: "(int \<Rightarrow> 'e + int) \<Rightarrow> nat \<Rightarrow> int \<Rightarrow> 'e + int list" where
  "slots upcoming 0 a = Inr []"
| "slots upcoming (Suc n) a =
     bindE (upcoming a) (\<lambda>b. bindE (slots upcoming n b) (\<lambda>bs. Inr (b # bs)))"

locale schedule =
  fixes upcoming :: "int \<Rightarrow> 'e + int"
  assumes upcoming_after: "upcoming a = Inr b \<Longrightarrow> a < b"
begin

lemma slots_increase: "slots upcoming n a = Inr bs \<Longrightarrow> sorted_wrt (<) (a # bs)"
proof (induction n arbitrary: a bs)
  case 0
  then show ?case by simp
next
  case (Suc n)
  then obtain b cs where b: "upcoming a = Inr b" and cs: "slots upcoming n b = Inr cs" and "bs = b # cs"
    by (auto simp: result_simps)
  with Suc.IH [OF cs] upcoming_after [OF b] show ?case by fastforce
qed

lemma slots_distinct: "slots upcoming n a = Inr bs \<Longrightarrow> distinct (a # bs)"
  using slots_increase strict_sorted_iff by blast

end

end
