(* ===== verification/Routine_Schedule.thy ===== *)
theory Routine_Schedule
  imports Schedule
begin

text \<open>
  Routine schedules (\<open>routine-schedule.ts\<close>): the cron parser, the search for the next fire and
  the decision for a due slot. \<open>Intl.DateTimeFormat\<close> is the argument \<open>zones\<close>: for a timezone
  the runtime knows, the local wall clock at an instant (\<open>wallClockAt\<close>), encoded as the
  milliseconds a UTC calendar would show.
\<close>

section \<open>Expressions\<close>

definition ROUTINE_MISS_GRACE_MS :: int where "ROUTINE_MISS_GRACE_MS = 5 * 60 * 1000"
definition MAX_FIRE_HORIZON_DAYS :: nat where "MAX_FIRE_HORIZON_DAYS = 366 * 8"
definition MAX_WALL_CLOCK_SHIFT_MINUTES :: nat where "MAX_WALL_CLOCK_SHIFT_MINUTES = 2 * 24 * 60"

record routine_cron =
  cron_expression :: string
  cron_minutes :: "int list"
  cron_hours :: "int list"
  cron_daysOfMonth :: "int list"
  cron_months :: "int list"
  cron_daysOfWeek :: "int list"
  cron_dayOfMonthUnrestricted :: bool
  cron_dayOfWeekUnrestricted :: bool

datatype cron_detail =
    Field_count nat
  | Empty_element string
  | Matches_nothing string
  | Range_reversed string string
  | Step_needs_range string string
  | Step_not_number string string
  | Step_below_one string
  | Not_a_value string string
  | Value_outside string string

datatype routine_error =
    InvalidRoutineCron string cron_detail
  | InvalidRoutineTimezone string
  | UnreachableRoutineSchedule string string
  | Invalid_search_date
  | Clock_moved_too_far string

definition upper_char :: "char \<Rightarrow> char" where
  "upper_char c = (if is_lower c then char_of (code_unit c - 32) else c)"

definition MONTH_NAMES :: "(string \<times> nat) list" where
  "MONTH_NAMES =
     [(''JAN'', 1), (''FEB'', 2), (''MAR'', 3), (''APR'', 4), (''MAY'', 5), (''JUN'', 6),
      (''JUL'', 7), (''AUG'', 8), (''SEP'', 9), (''OCT'', 10), (''NOV'', 11), (''DEC'', 12)]"

definition WEEKDAY_NAMES :: "(string \<times> nat) list" where
  "WEEKDAY_NAMES =
     [(''SUN'', 0), (''MON'', 1), (''TUE'', 2), (''WED'', 3), (''THU'', 4), (''FRI'', 5), (''SAT'', 6)]"

definition is_number :: "string \<Rightarrow> bool" where
  "is_number s = (s \<noteq> [] \<and> list_all is_digit s)"

definition parseValue ::
  "string \<Rightarrow> string \<Rightarrow> nat \<Rightarrow> nat \<Rightarrow> (string \<times> nat) list \<Rightarrow> cron_detail + nat" where
  "parseValue text field minimum maximum names =
     (case (case map_of names (map upper_char text) of
              Some v \<Rightarrow> Some v
            | None \<Rightarrow> if is_number text then Some (parse_dec text) else None) of
        None \<Rightarrow> Inl (Not_a_value field text)
      | Some value \<Rightarrow>
          if value < minimum \<or> value > maximum then Inl (Value_outside field text) else Inr value)"

definition parseStep :: "string \<Rightarrow> string \<Rightarrow> cron_detail + nat" where
  "parseStep text field =
     (if \<not> is_number text then Inl (Step_not_number field text)
      else if parse_dec text < 1 then Inl (Step_below_one field)
      else Inr (parse_dec text))"

text \<open>\<open>for (let value = start; value <= end; value += step)\<close>, for a positive step.\<close>

function stepped :: "nat \<Rightarrow> nat \<Rightarrow> nat \<Rightarrow> nat list" where
  "stepped start stop step =
     (if start \<le> stop \<and> 1 \<le> step then start # stepped (start + step) stop step else [])"
  by pat_completeness auto
termination by (relation "measure (\<lambda>(start, stop, step). Suc stop - start)") auto

declare stepped.simps [simp del]

definition before_char :: "char \<Rightarrow> string \<Rightarrow> string" where
  "before_char c s = takeWhile (\<lambda>x. x \<noteq> c) s"

definition after_char :: "char \<Rightarrow> string \<Rightarrow> string" where
  "after_char c s = drop 1 (dropWhile (\<lambda>x. x \<noteq> c) s)"

definition parsePart ::
  "string \<Rightarrow> string \<Rightarrow> nat \<Rightarrow> nat \<Rightarrow> (string \<times> nat) list \<Rightarrow> cron_detail + nat list" where
  "parsePart part field minimum maximum names =
     (let slash = CHR ''/'' \<in> set part;
          base = before_char (CHR ''/'') part in
      bindE (if slash then parseStep (after_char (CHR ''/'') part) field else Inr 1) (\<lambda>step.
        if base = ''*'' then Inr (stepped minimum maximum step)
        else if CHR ''-'' \<in> set base then
          bindE (parseValue (before_char (CHR ''-'') base) field minimum maximum names) (\<lambda>start.
          bindE (parseValue (after_char (CHR ''-'') base) field minimum maximum names) (\<lambda>stop.
            if start > stop then Inl (Range_reversed field base)
            else Inr (stepped start stop step)))
        else
          bindE (parseValue base field minimum maximum names) (\<lambda>value.
            if slash then Inl (Step_needs_range field part) else Inr [value])))"

definition parseField ::
  "string \<Rightarrow> string \<Rightarrow> nat \<Rightarrow> nat \<Rightarrow> (string \<times> nat) list \<Rightarrow> cron_detail + nat list" where
  "parseField text field minimum maximum names =
     bindE (foldE (\<lambda>values part.
              if part = [] then Inl (Empty_element field)
              else bindE (parsePart part field minimum maximum names) (\<lambda>vs. Inr (values @ vs)))
            [] (split_on (CHR '','') text)) (\<lambda>values.
       if values = [] then Inl (Matches_nothing field) else Inr (sort (remdups values)))"

text \<open>\<open>expression.trim().split(/\\s+/)\<close>.\<close>

definition cron_fields :: "string \<Rightarrow> string list" where
  "cron_fields expression =
     (if trim expression = [] then [[]]
      else filter (\<lambda>f. f \<noteq> []) (split_by is_space (trim expression)))"

definition parseFields :: "string \<Rightarrow> cron_detail + routine_cron" where
  "parseFields expression =
     (case cron_fields expression of
        [mi, ho, dm, mo, dw] \<Rightarrow>
          bindE (parseField mi ''minute'' 0 59 []) (\<lambda>minutes.
          bindE (parseField ho ''hour'' 0 23 []) (\<lambda>hours.
          bindE (parseField dm ''day of month'' 1 31 []) (\<lambda>daysOfMonth.
          bindE (parseField mo ''month'' 1 12 MONTH_NAMES) (\<lambda>months.
          bindE (parseField dw ''day of week'' 0 7 WEEKDAY_NAMES) (\<lambda>parsed.
            let daysOfWeek = sort (remdups (map (\<lambda>v. if v = 7 then 0 else v) parsed)) in
            Inr \<lparr>cron_expression = expression, cron_minutes = map int minutes,
                 cron_hours = map int hours, cron_daysOfMonth = map int daysOfMonth,
                 cron_months = map int months, cron_daysOfWeek = map int daysOfWeek,
                 cron_dayOfMonthUnrestricted = (length daysOfMonth = 31),
                 cron_dayOfWeekUnrestricted = (length daysOfWeek = 7)\<rparr>)))))
      | fs \<Rightarrow> Inl (Field_count (length fs)))"

definition parseRoutineCron :: "string \<Rightarrow> routine_error + routine_cron" where
  "parseRoutineCron expression =
     (case parseFields expression of
        Inl d \<Rightarrow> Inl (InvalidRoutineCron expression d)
      | Inr c \<Rightarrow> Inr c)"

section \<open>The next fire\<close>

type_synonym zone = "int \<Rightarrow> int"

definition isRoutineTimezone :: "(string \<Rightarrow> zone option) \<Rightarrow> string \<Rightarrow> bool" where
  "isRoutineTimezone zones timezone = (zones timezone \<noteq> None)"

definition offsetAt :: "zone \<Rightarrow> int \<Rightarrow> int" where
  "offsetAt zone instant = zone instant - instant"

definition dayMatches :: "routine_cron \<Rightarrow> int \<Rightarrow> int \<Rightarrow> int \<Rightarrow> bool" where
  "dayMatches c year month day =
     (let dayOfMonth = (day \<in> set (cron_daysOfMonth c));
          dayOfWeek = (getUTCDay (dateUTC year month day 0 0) \<in> set (cron_daysOfWeek c)) in
      if cron_dayOfMonthUnrestricted c \<and> cron_dayOfWeekUnrestricted c then True
      else if cron_dayOfMonthUnrestricted c then dayOfWeek
      else if cron_dayOfWeekUnrestricted c then dayOfMonth
      else dayOfMonth \<or> dayOfWeek)"

text \<open>The walk of \<open>resolveWallClock\<close>, with the number of iterations the loop has left.\<close>

fun walk_clock :: "string \<Rightarrow> zone \<Rightarrow> int \<Rightarrow> nat \<Rightarrow> int \<Rightarrow> routine_error + int" where
  "walk_clock timezone zone wall 0 candidate = Inl (Clock_moved_too_far timezone)"
| "walk_clock timezone zone wall (Suc n) candidate =
     (if zone candidate \<ge> wall then Inr candidate
      else walk_clock timezone zone wall n (candidate + MINUTE_MS))"

definition resolveWallClock :: "string \<Rightarrow> zone \<Rightarrow> int \<Rightarrow> routine_error + int" where
  "resolveWallClock timezone zone wall =
     (let before = wall - offsetAt zone (wall - DAY_MS); after = wall - offsetAt zone (wall + DAY_MS) in
      walk_clock timezone zone wall (MAX_WALL_CLOCK_SHIFT_MINUTES + 1) (min before after))"

text \<open>A search loop that returns at its first hit, and stops at an exception.\<close>

fun first_hit :: "('a \<Rightarrow> 'e + 'b option) \<Rightarrow> 'a list \<Rightarrow> 'e + 'b option" where
  "first_hit f [] = Inr None"
| "first_hit f (x # xs) =
     (case f x of Inl e \<Rightarrow> Inl e | Inr (Some y) \<Rightarrow> Inr (Some y) | Inr None \<Rightarrow> first_hit f xs)"

definition tryTime ::
  "string \<Rightarrow> zone \<Rightarrow> int \<Rightarrow> int \<Rightarrow> int \<Rightarrow> int \<times> int \<Rightarrow> routine_error + int option" where
  "tryTime timezone zone afterMs startWall wall hm =
     (let candidateWall = dateUTC (getUTCFullYear wall) (utcMonth wall) (getUTCDate wall) (fst hm) (snd hm) in
      if candidateWall < startWall then Inr None
      else bindE (resolveWallClock timezone zone candidateWall) (\<lambda>instant.
        if instant > afterMs then Inr (Some instant) else Inr None))"

definition tryDay ::
  "routine_cron \<Rightarrow> string \<Rightarrow> zone \<Rightarrow> int \<Rightarrow> int \<Rightarrow> int \<Rightarrow> routine_error + int option" where
  "tryDay c timezone zone afterMs startWall wall =
     (if utcMonth wall \<notin> set (cron_months c) \<or>
         \<not> dayMatches c (getUTCFullYear wall) (utcMonth wall) (getUTCDate wall)
      then Inr None
      else first_hit (tryTime timezone zone afterMs startWall wall)
             (List.product (cron_hours c) (cron_minutes c)))"

definition search_fire ::
  "routine_cron \<Rightarrow> string \<Rightarrow> zone \<Rightarrow> int \<Rightarrow> routine_error + int" where
  "search_fire c timezone zone afterMs =
     (let startWall = zone afterMs div MINUTE_MS * MINUTE_MS + MINUTE_MS;
          startDay = startWall div DAY_MS * DAY_MS in
      bindE (first_hit (\<lambda>k. tryDay c timezone zone afterMs startWall (startDay + int k * DAY_MS))
               [0..<Suc MAX_FIRE_HORIZON_DAYS]) (\<lambda>hit.
        case hit of
          Some instant \<Rightarrow> Inr instant
        | None \<Rightarrow> Inl (UnreachableRoutineSchedule (cron_expression c) timezone)))"

definition nextRoutineFire ::
  "(string \<Rightarrow> zone option) \<Rightarrow> routine_cron \<Rightarrow> string \<Rightarrow> int option \<Rightarrow> routine_error + int" where
  "nextRoutineFire zones c timezone after =
     (case after of
        None \<Rightarrow> Inl Invalid_search_date
      | Some afterMs \<Rightarrow>
          (case zones timezone of
             None \<Rightarrow> Inl (InvalidRoutineTimezone timezone)
           | Some zone \<Rightarrow> search_fire c timezone zone afterMs))"

section \<open>Due slots\<close>

datatype routine_due =
    Fire int int int
  | Miss int int int
  | Wait int

definition decideRoutineDue ::
  "(string \<Rightarrow> zone option) \<Rightarrow> routine_cron \<Rightarrow> string \<Rightarrow> int \<Rightarrow> int \<Rightarrow> routine_error + routine_due" where
  "decideRoutineDue zones c timezone nextRunAt now =
     (let lateByMs = now - nextRunAt in
      if lateByMs < 0 then Inr (Wait nextRunAt)
      else if lateByMs \<le> ROUTINE_MISS_GRACE_MS then
        bindE (nextRoutineFire zones c timezone (Some nextRunAt)) (\<lambda>n. Inr (Fire nextRunAt n lateByMs))
      else
        bindE (nextRoutineFire zones c timezone (Some now)) (\<lambda>n. Inr (Miss nextRunAt n lateByMs)))"

end
