(* ===== verification/Routine_Facts.thy ===== *)
theory Routine_Facts
  imports Routine_Schedule
begin

text \<open>
  What the routine schedule guarantees: a parsed field is a strictly ascending list inside its
  range; a fire is strictly after the instant asked from and at the first minute of the local
  clock that reaches a matching wall time; in a zone with a fixed offset it is the earliest
  matching minute, and an unreachable schedule has none in the horizon.
\<close>

section \<open>Parsed fields\<close>

lemma stepped_range:
  "v \<in> set (stepped start stop step) \<Longrightarrow> start \<le> v \<and> v \<le> stop"
  by (induction start stop step rule: stepped.induct)
    (subst (asm) (2) stepped.simps, fastforce split: if_splits)

lemma parseValue_range: "parseValue t f lo hi ns = Inr v \<Longrightarrow> lo \<le> v \<and> v \<le> hi"
  by (auto simp: parseValue_def split: option.splits if_splits)

lemma parsePart_range: "parsePart p f lo hi ns = Inr vs \<Longrightarrow> v \<in> set vs \<Longrightarrow> lo \<le> v \<and> v \<le> hi"
  by (auto simp: parsePart_def Let_def result_simps split: if_splits
      dest!: stepped_range parseValue_range)

lemma parseField_range:
  assumes "parseField t f lo hi ns = Inr vs"
  shows "\<forall>v \<in> set vs. lo \<le> v \<and> v \<le> hi" and "sorted vs" and "distinct vs" and "vs \<noteq> []"
proof -
  let ?step = "\<lambda>values part. if part = [] then Inl (Empty_element f)
      else bindE (parsePart part f lo hi ns) (\<lambda>vs. Inr (values @ vs))"
  from assms obtain ws where ws: "foldE ?step [] (split_on (CHR '','') t) = Inr ws" "ws \<noteq> []"
    and vs: "vs = sort (remdups ws)"
    by (auto simp: parseField_def result_simps split: if_splits)
  have "\<forall>v \<in> set ws. lo \<le> v \<and> v \<le> hi"
  proof (rule foldE_invariant [where P = "\<lambda>ws. \<forall>v \<in> set ws. lo \<le> v \<and> v \<le> hi", OF _ _ ws(1)])
    show "\<forall>v \<in> set s'. lo \<le> v \<and> v \<le> hi"
      if "\<forall>v \<in> set s. lo \<le> v \<and> v \<le> hi" "?step s x = Inr s'" for s x s'
      using that by (auto simp: result_simps split: if_splits dest: parsePart_range)
  qed simp
  then show "\<forall>v \<in> set vs. lo \<le> v \<and> v \<le> hi" by (simp add: vs)
  show "sorted vs" "distinct vs" by (simp_all add: vs)
  show "vs \<noteq> []" using ws(2) vs by (metis remdups_eq_nil_right_iff set_empty set_sort)
qed

definition ascending_in :: "int \<Rightarrow> int \<Rightarrow> int list \<Rightarrow> bool" where
  "ascending_in lo hi xs = (sorted_wrt (<) xs \<and> xs \<noteq> [] \<and> list_all (\<lambda>x. lo \<le> x \<and> x \<le> hi) xs)"

definition wf_cron :: "routine_cron \<Rightarrow> bool" where
  "wf_cron c =
     (ascending_in 0 59 (cron_minutes c) \<and> ascending_in 0 23 (cron_hours c) \<and>
      ascending_in 1 31 (cron_daysOfMonth c) \<and> ascending_in 1 12 (cron_months c) \<and>
      ascending_in 0 6 (cron_daysOfWeek c) \<and>
      (cron_dayOfMonthUnrestricted c \<longrightarrow> set (cron_daysOfMonth c) = {1..31}) \<and>
      (cron_dayOfWeekUnrestricted c \<longrightarrow> set (cron_daysOfWeek c) = {0..6}))"

lemma ascending_map_int:
  assumes "sorted vs" and "distinct vs" and "vs \<noteq> []" and "\<forall>v \<in> set vs. lo \<le> v \<and> v \<le> hi"
  shows "ascending_in (int lo) (int hi) (map int vs)"
proof -
  have "sorted_wrt (<) vs" using assms(1,2) by (simp add: strict_sorted_iff)
  with assms(3,4) show ?thesis by (simp add: ascending_in_def sorted_wrt_map list_all_iff)
qed

lemma parseField_ascending:
  assumes "parseField t f lo hi ns = Inr vs"
  shows "ascending_in (int lo) (int hi) (map int vs)"
  by (rule ascending_map_int [OF parseField_range(2,3,4,1) [OF assms]])

lemma full_range:
  assumes "ascending_in lo hi xs" and "int (length xs) = hi - lo + 1"
  shows "set xs = {lo..hi}"
proof (rule card_subset_eq)
  show "set xs \<subseteq> {lo..hi}" using assms(1) by (auto simp: ascending_in_def list_all_iff)
  have "distinct xs" using assms(1) by (simp add: ascending_in_def strict_sorted_iff)
  then show "card (set xs) = card {lo..hi}" using assms(2) by (simp add: distinct_card)
qed simp

lemma parseRoutineCron_wf:
  assumes "parseRoutineCron e = Inr c"
  shows "wf_cron c \<and> cron_expression c = e"
proof -
  from assms obtain mi ho dm mo dw minutes hours dom months parsed where
    p: "parseField mi ''minute'' 0 59 [] = Inr minutes" "parseField ho ''hour'' 0 23 [] = Inr hours"
      "parseField dm ''day of month'' 1 31 [] = Inr dom" "parseField mo ''month'' 1 12 MONTH_NAMES = Inr months"
      "parseField dw ''day of week'' 0 7 WEEKDAY_NAMES = Inr parsed"
    and c: "c = (let dow = sort (remdups (map (\<lambda>v. if v = 7 then 0 else v) parsed)) in
        \<lparr>cron_expression = e, cron_minutes = map int minutes, cron_hours = map int hours,
         cron_daysOfMonth = map int dom, cron_months = map int months, cron_daysOfWeek = map int dow,
         cron_dayOfMonthUnrestricted = (length dom = 31), cron_dayOfWeekUnrestricted = (length dow = 7)\<rparr>)"
    by (auto simp: parseRoutineCron_def parseFields_def result_simps Let_def
        split: sum.splits list.splits)
  define dow where "dow = sort (remdups (map (\<lambda>v. if v = 7 then 0 else v) parsed))"
  have r: "\<forall>v \<in> set parsed. v \<le> 7" "parsed \<noteq> []" using parseField_range [OF p(5)] by auto
  have "ascending_in (int 0) (int 6) (map int dow)"
  proof (rule ascending_map_int)
    have "set dow = (\<lambda>v. if v = 7 then 0 else v) ` set parsed" by (simp add: dow_def)
    with r(2) show "dow \<noteq> []" by (metis image_is_empty set_empty)
    show "\<forall>v \<in> set dow. 0 \<le> v \<and> v \<le> 6" using r(1) by (auto simp: dow_def)
  qed (simp_all add: dow_def)
  then have d: "ascending_in 0 6 (map int dow)" by simp
  note a = parseField_ascending [OF p(1)] parseField_ascending [OF p(2)] parseField_ascending [OF p(3)]
    parseField_ascending [OF p(4)]
  have "length dom = 31 \<Longrightarrow> set (map int dom) = {1..31}" using full_range [of 1 31 "map int dom"] a(3) by simp
  moreover have "length dow = 7 \<Longrightarrow> set (map int dow) = {0..6}" using full_range [OF d] by simp
  ultimately show ?thesis
    using a d unfolding c wf_cron_def Let_def dow_def [symmetric] by simp
qed

section \<open>Searching\<close>

lemma first_hit_Some:
  "first_hit f xs = Inr (Some y) \<Longrightarrow>
   \<exists>ys x zs. xs = ys @ x # zs \<and> f x = Inr (Some y) \<and> (\<forall>z \<in> set ys. f z = Inr None)"
proof (induction xs)
  case Nil
  then show ?case by simp
next
  case (Cons a xs)
  show ?case
  proof (cases "f a = Inr (Some y)")
    case True
    then have "a # xs = [] @ a # xs \<and> f a = Inr (Some y) \<and> (\<forall>z \<in> set []. f z = Inr None)" by simp
    then show ?thesis by blast
  next
    case False
    with Cons.prems have fa: "f a = Inr None" and "first_hit f xs = Inr (Some y)"
      by (auto split: sum.splits option.splits)
    with Cons.IH obtain ys x zs where "xs = ys @ x # zs" "f x = Inr (Some y)" "\<forall>z \<in> set ys. f z = Inr None"
      by blast
    with fa have "a # xs = (a # ys) @ x # zs \<and> f x = Inr (Some y) \<and> (\<forall>z \<in> set (a # ys). f z = Inr None)"
      by simp
    then show ?thesis by blast
  qed
qed

lemma first_hit_None: "first_hit f xs = Inr None \<longleftrightarrow> (\<forall>x \<in> set xs. f x = Inr None)"
  by (induction xs) (auto split: sum.splits option.splits)

lemma first_hit_Inl: "first_hit f xs = Inl e \<Longrightarrow> \<exists>x \<in> set xs. f x = Inl e"
  by (induction xs) (auto split: sum.splits option.splits)

lemma walk_clock_Inr:
  "walk_clock tz zone wall n c = Inr i \<Longrightarrow>
   wall \<le> zone i \<and> (i = c \<or> c < i \<and> zone (i - MINUTE_MS) < wall)"
proof (induction n arbitrary: c)
  case (Suc n)
  show ?case
  proof (cases "zone c \<ge> wall")
    case True
    with Suc.prems show ?thesis by simp
  next
    case False
    with Suc.prems Suc.IH [of "c + MINUTE_MS"] show ?thesis by fastforce
  qed
qed simp

text \<open>The wall times a schedule names.\<close>

definition hourOf :: "int \<Rightarrow> int" where "hourOf w = w mod DAY_MS div HOUR_MS"
definition minuteOf :: "int \<Rightarrow> int" where "minuteOf w = w mod HOUR_MS div MINUTE_MS"

definition cronMatches :: "routine_cron \<Rightarrow> int \<Rightarrow> bool" where
  "cronMatches c w =
     (w mod MINUTE_MS = 0 \<and> minuteOf w \<in> set (cron_minutes c) \<and> hourOf w \<in> set (cron_hours c) \<and>
      utcMonth w \<in> set (cron_months c) \<and> dayMatches c (getUTCFullYear w) (utcMonth w) (getUTCDate w))"


lemma wall_parts:
  assumes "D mod DAY_MS = 0" and "0 \<le> h" and "h \<le> 23" and "0 \<le> m" and "m \<le> 59"
    and "w = D + h * HOUR_MS + m * MINUTE_MS"
  shows "w div DAY_MS * DAY_MS = D" and "hourOf w = h" and "minuteOf w = m" and "w mod MINUTE_MS = 0"
proof -
  obtain k where D: "D = DAY_MS * k" using assms(1) by auto
  let ?r = "h * HOUR_MS + m * MINUTE_MS"
  have r: "0 \<le> ?r" "?r < DAY_MS" using assms(2-5) by linarith+
  have w: "w = DAY_MS * k + ?r" using assms(6) D by simp
  have "w div DAY_MS = k" by (rule int_div_pos_eq [OF w r])
  then show "w div DAY_MS * DAY_MS = D" using D by simp
  have "w mod DAY_MS = ?r" by (rule int_mod_pos_eq [OF w r])
  moreover have "?r div HOUR_MS = h"
    by (rule int_div_pos_eq [of _ _ _ "m * MINUTE_MS"]) (use assms(4,5) in linarith)+
  ultimately show "hourOf w = h" by (simp add: hourOf_def)
  have h: "w = HOUR_MS * (24 * k + h) + m * MINUTE_MS" unfolding w by simp
  have "w mod HOUR_MS = m * MINUTE_MS"
    by (rule int_mod_pos_eq [OF h]) (use assms(4,5) in linarith)+
  then show "minuteOf w = m" by (simp add: minuteOf_def)
  have "w = MINUTE_MS * (1440 * k + 60 * h + m)" using w by simp
  then show "w mod MINUTE_MS = 0" by simp
qed

lemma wall_split:
  assumes "w mod MINUTE_MS = 0"
  shows "w = w div DAY_MS * DAY_MS + hourOf w * HOUR_MS + minuteOf w * MINUTE_MS"
    and "0 \<le> hourOf w \<and> hourOf w \<le> 23" and "0 \<le> minuteOf w \<and> minuteOf w \<le> 59"
proof -
  define r where "r = w mod DAY_MS"
  define s where "s = w mod HOUR_MS"
  have r: "0 \<le> r" "r < DAY_MS" by (simp_all add: r_def)
  have s: "0 \<le> s" "s < HOUR_MS" by (simp_all add: s_def)
  have rs: "r mod HOUR_MS = s" unfolding r_def s_def by (rule mod_mod_cancel) simp
  have sm: "s mod MINUTE_MS = 0" unfolding s_def using assms by (simp add: mod_mod_cancel)
  define q qh qm where "q = w div DAY_MS" and "qh = r div HOUR_MS" and "qm = s div MINUTE_MS"
  have q: "hourOf w = qh" "minuteOf w = qm"
    by (simp_all add: hourOf_def minuteOf_def r_def s_def qh_def qm_def)
  have 1: "w = q * DAY_MS + r" unfolding q_def r_def by (rule div_mult_mod_eq [symmetric])
  have 2: "r = qh * HOUR_MS + s"
    unfolding qh_def rs [symmetric] by (rule div_mult_mod_eq [symmetric])
  have "s = qm * MINUTE_MS + s mod MINUTE_MS"
    unfolding qm_def by (rule div_mult_mod_eq [symmetric])
  then have 3: "s = qm * MINUTE_MS" unfolding sm by (simp only: add_0_right)
  show "w = w div DAY_MS * DAY_MS + hourOf w * HOUR_MS + minuteOf w * MINUTE_MS"
    unfolding q q_def [symmetric] using 1 2 3 by linarith
  show "0 \<le> hourOf w \<and> hourOf w \<le> 23" "0 \<le> minuteOf w \<and> minuteOf w \<le> 59"
    unfolding q using r s 2 3 by linarith+
qed

lemma day_start: "D mod DAY_MS = 0 \<Longrightarrow> D div DAY_MS * DAY_MS = D"
  by (simp add: dvd_div_mult_self mod_eq_0_iff_dvd)

lemma days_mod: "(q * DAY_MS + k * DAY_MS) mod DAY_MS = 0"
  by (simp only: distrib_right [symmetric] mod_mult_self2_is_0)

lemma days_div: "(q * DAY_MS + k * DAY_MS) div DAY_MS = q + k"
  by (simp only: distrib_right [symmetric]) simp

lemma next_minute: "x < x div MINUTE_MS * MINUTE_MS + MINUTE_MS"
proof -
  define q r where "q = x div MINUTE_MS" and "r = x mod MINUTE_MS"
  have "x = q * MINUTE_MS + r" unfolding q_def r_def by (rule div_mult_mod_eq [symmetric])
  moreover have "r < MINUTE_MS" by (simp add: r_def)
  ultimately show ?thesis unfolding q_def [symmetric] by linarith
qed

lemma next_minute_le:
  assumes "w mod MINUTE_MS = 0" and "x < w"
  shows "x div MINUTE_MS * MINUTE_MS + MINUTE_MS \<le> w"
proof -
  obtain k where w: "w = MINUTE_MS * k" using assms(1) by auto
  define q r where "q = x div MINUTE_MS" and "r = x mod MINUTE_MS"
  have "x = q * MINUTE_MS + r" unfolding q_def r_def by (rule div_mult_mod_eq [symmetric])
  moreover have "0 \<le> r" by (simp add: r_def)
  ultimately have "MINUTE_MS * q < MINUTE_MS * k" using assms(2) w by linarith
  then have "q + 1 \<le> k" by simp
  then show ?thesis unfolding q_def [symmetric] w by simp
qed

section \<open>Fires\<close>

lemma tryTime_wall:
  assumes "0 \<le> D" and "D mod DAY_MS = 0"
  shows "tryTime tz zone a sw D (h, m) =
    (let w = D + h * HOUR_MS + m * MINUTE_MS in
     if w < sw then Inr None
     else bindE (resolveWallClock tz zone w) (\<lambda>i. if a < i then Inr (Some i) else Inr None))"
  unfolding tryTime_def fst_conv snd_conv dateUTC_parts [OF assms(1)] day_start [OF assms(2)] Let_def ..

lemma tryDay_hit:
  assumes "tryDay c tz zone a sw D = Inr (Some i)" and "0 \<le> D" and "D mod DAY_MS = 0" and "wf_cron c"
  shows "\<exists>w. cronMatches c w \<and> sw \<le> w \<and> w div DAY_MS * DAY_MS = D \<and> resolveWallClock tz zone w = Inr i \<and> a < i"
proof -
  from assms(1) have month: "utcMonth D \<in> set (cron_months c)"
      "dayMatches c (getUTCFullYear D) (utcMonth D) (getUTCDate D)"
    and hit: "first_hit (tryTime tz zone a sw D) (List.product (cron_hours c) (cron_minutes c)) = Inr (Some i)"
    by (auto simp: tryDay_def split: if_splits)
  from first_hit_Some [OF hit] obtain h m where
    hm: "(h, m) \<in> set (List.product (cron_hours c) (cron_minutes c))"
    and t: "tryTime tz zone a sw D (h, m) = Inr (Some i)"
    by (metis in_set_conv_decomp prod.exhaust)
  let ?w = "D + h * HOUR_MS + m * MINUTE_MS"
  have b: "0 \<le> h" "h \<le> 23" "0 \<le> m" "m \<le> 59" "h \<in> set (cron_hours c)" "m \<in> set (cron_minutes c)"
    using hm assms(4) by (auto simp: wf_cron_def ascending_in_def list_all_iff)
  note w = wall_parts [OF assms(3) b(1-4) refl]
  have "?w div DAY_MS = D div DAY_MS" 
    using w(1) day_start [OF assms(3)] by (metis mult_cancel_right zero_neq_numeral)
  then have "cronMatches c ?w"
    using w(2-4) b(5,6) month same_day_parts [of ?w D] by (simp add: cronMatches_def)
  moreover have "sw \<le> ?w \<and> resolveWallClock tz zone ?w = Inr i \<and> a < i"
    using t by (auto simp: tryTime_wall [OF assms(2,3)] Let_def result_simps split: if_splits)
  ultimately show ?thesis using w(1) by blast
qed

lemma search_fire_hit:
  assumes "search_fire c tz zone a = Inr i"
  obtains k ys zs where "[0..<Suc MAX_FIRE_HORIZON_DAYS] = ys @ k # zs"
    and "tryDay c tz zone a (zone a div MINUTE_MS * MINUTE_MS + MINUTE_MS)
      ((zone a div MINUTE_MS * MINUTE_MS + MINUTE_MS) div DAY_MS * DAY_MS + int k * DAY_MS) = Inr (Some i)"
    and "\<forall>j \<in> set ys. tryDay c tz zone a (zone a div MINUTE_MS * MINUTE_MS + MINUTE_MS)
      ((zone a div MINUTE_MS * MINUTE_MS + MINUTE_MS) div DAY_MS * DAY_MS + int j * DAY_MS) = Inr None"
  using assms
  by (auto simp: search_fire_def Let_def result_simps simp del: upt_Suc split: option.splits
      dest!: first_hit_Some)

lemma tryDay_after: "tryDay c tz zone a sw D = Inr (Some i) \<Longrightarrow> a < i"
  by (auto simp: tryDay_def tryTime_def Let_def result_simps split: if_splits dest!: first_hit_Some)

lemma search_fire_after: "search_fire c tz zone a = Inr i \<Longrightarrow> a < i"
  by (erule search_fire_hit) (rule tryDay_after)

lemma nextRoutineFire_after: "nextRoutineFire zones c tz (Some a) = Inr i \<Longrightarrow> a < i"
  by (auto simp: nextRoutineFire_def search_fire_after split: option.splits)

interpretation routine: schedule "\<lambda>a. nextRoutineFire zones c tz (Some a)" for zones c tz
  by unfold_locales (rule nextRoutineFire_after)


text \<open>In any zone: a fire is where the local clock first reaches a wall time the schedule names.\<close>

lemma search_fire_sound:
  assumes "search_fire c tz zone a = Inr i" and "wf_cron c" and "0 \<le> zone a"
  shows "\<exists>w. cronMatches c w \<and> zone a < w \<and> resolveWallClock tz zone w = Inr i \<and> w \<le> zone i"
proof -
  let ?sw = "zone a div MINUTE_MS * MINUTE_MS + MINUTE_MS"
  have sw: "zone a < ?sw" by (rule next_minute)
  obtain k where k: "tryDay c tz zone a ?sw (?sw div DAY_MS * DAY_MS + int k * DAY_MS) = Inr (Some i)"
    by (rule search_fire_hit [OF assms(1)]) blast
  have "0 \<le> ?sw div DAY_MS" using sw assms(3) by (simp add: pos_imp_zdiv_nonneg_iff)
  then have D: "0 \<le> ?sw div DAY_MS * DAY_MS + int k * DAY_MS" by simp
  have D0: "(?sw div DAY_MS * DAY_MS + int k * DAY_MS) mod DAY_MS = 0"
    by (rule days_mod)
  obtain w where w: "cronMatches c w" "?sw \<le> w" "resolveWallClock tz zone w = Inr i"
    using tryDay_hit [OF k D D0 assms(2)] by blast
  have "w \<le> zone i" using w(3) walk_clock_Inr unfolding resolveWallClock_def Let_def by blast
  with w sw show ?thesis by (intro exI [of _ w]) simp
qed

section \<open>Fixed offsets\<close>

text \<open>A zone without transitions, whose offset is a whole number of minutes.\<close>

definition fixed_zone :: "int \<Rightarrow> zone" where
  "fixed_zone off t = (t + off) div 1000 * 1000"

lemma fixed_zone_minute: "(t + off) mod MINUTE_MS = 0 \<Longrightarrow> fixed_zone off t = t + off"
proof -
  assume "(t + off) mod MINUTE_MS = 0"
  then have "1000 dvd t + off" using dvd_trans [of 1000 MINUTE_MS "t + off"] by (simp add: mod_eq_0_iff_dvd)
  then show ?thesis by (simp add: fixed_zone_def)
qed

lemma resolve_fixed:
  assumes "w mod MINUTE_MS = 0" and "off mod MINUTE_MS = 0"
  shows "resolveWallClock tz (fixed_zone off) w = Inr (w - off)"
proof -
  have z: "fixed_zone off (w + d) = w + d + off" if "d mod MINUTE_MS = 0" for d
    using assms that by (intro fixed_zone_minute) (simp add: mod_eq_0_iff_dvd)
  have "offsetAt (fixed_zone off) (w - DAY_MS) = off" "offsetAt (fixed_zone off) (w + DAY_MS) = off"
    using z [of "- DAY_MS"] z [of DAY_MS] by (simp_all add: offsetAt_def)
  moreover have "fixed_zone off (w - off) = w" using z [of "- off"] assms(2)
    by (simp add: mod_eq_0_iff_dvd)
  ultimately show ?thesis by (simp add: resolveWallClock_def Let_def)
qed

lemma product_sorted:
  assumes "sorted_wrt (<) hs" and "sorted_wrt (<) ms" and "\<forall>m \<in> set ms. 0 \<le> m \<and> m \<le> 59"
  shows "sorted_wrt (\<lambda>p q. fst p * HOUR_MS + snd p * MINUTE_MS < fst q * HOUR_MS + snd q * MINUTE_MS)
    (List.product hs ms)"
  using assms(1)
proof (induction hs)
  case (Cons h hs)
  have "sorted_wrt (\<lambda>p q. fst p * HOUR_MS + snd p * MINUTE_MS < fst q * HOUR_MS + snd q * MINUTE_MS)
      (map (Pair h) ms)"
    using assms(2) by (simp add: sorted_wrt_map)
  moreover have "h * HOUR_MS + m * MINUTE_MS < h' * HOUR_MS + m' * MINUTE_MS"
    if "h' \<in> set hs" "m \<in> set ms" "m' \<in> set ms" for h' m m'
  proof -
    have "h < h'" "0 \<le> m'" "m \<le> 59" using that Cons.prems assms(3) by auto
    then show ?thesis by linarith
  qed
  ultimately show ?case using Cons by (auto simp: sorted_wrt_append)
qed simp

lemma tryTime_fixed:
  assumes "cronMatches c w" and "0 \<le> w" and "sw \<le> w" and "a < w - off" and "off mod MINUTE_MS = 0"
  shows "tryTime tz (fixed_zone off) a sw (w div DAY_MS * DAY_MS) (hourOf w, minuteOf w) = Inr (Some (w - off))"
proof -
  have m: "w mod MINUTE_MS = 0" using assms(1) by (simp add: cronMatches_def)
  have D: "0 \<le> w div DAY_MS * DAY_MS" "w div DAY_MS * DAY_MS mod DAY_MS = 0"
    using assms(2) by (simp_all add: pos_imp_zdiv_nonneg_iff)
  show ?thesis
    unfolding tryTime_wall [OF D] wall_split(1) [OF m, symmetric] Let_def resolve_fixed [OF m assms(5)]
    using assms(3,4) by simp
qed

lemma tryDay_open:
  assumes "cronMatches c w"
  shows "tryDay c tz zone a sw (w div DAY_MS * DAY_MS) =
    first_hit (tryTime tz zone a sw (w div DAY_MS * DAY_MS)) (List.product (cron_hours c) (cron_minutes c))"
    and "(hourOf w, minuteOf w) \<in> set (List.product (cron_hours c) (cron_minutes c))"
  using assms same_day_parts [of "w div DAY_MS * DAY_MS" w] by (simp_all add: tryDay_def cronMatches_def)

lemma tryDay_not_None:
  assumes "cronMatches c w" and "0 \<le> w" and "sw \<le> w" and "a < w - off" and "off mod MINUTE_MS = 0"
  shows "tryDay c tz (fixed_zone off) a sw (w div DAY_MS * DAY_MS) \<noteq> Inr None"
proof
  assume "tryDay c tz (fixed_zone off) a sw (w div DAY_MS * DAY_MS) = Inr None"
  then have "tryTime tz (fixed_zone off) a sw (w div DAY_MS * DAY_MS) (hourOf w, minuteOf w) = Inr None"
    unfolding tryDay_open(1) [OF assms(1)] first_hit_None using tryDay_open(2) [OF assms(1)] by blast
  with tryTime_fixed [OF assms, of tz] show False by simp
qed

lemma tryDay_min:
  assumes "cronMatches c w" and "0 \<le> w" and "sw \<le> w" and "a < w - off" and "off mod MINUTE_MS = 0"
    and "wf_cron c" and "tryDay c tz (fixed_zone off) a sw (w div DAY_MS * DAY_MS) = Inr (Some i)"
  shows "i \<le> w - off"
proof -
  let ?D = "w div DAY_MS * DAY_MS" and ?hm = "(hourOf w, minuteOf w)"
  let ?t = "\<lambda>p. fst p * HOUR_MS + snd p * MINUTE_MS"
  have D: "0 \<le> ?D" "?D mod DAY_MS = 0" using assms(2) by (simp_all add: pos_imp_zdiv_nonneg_iff)
  have m: "w mod MINUTE_MS = 0" using assms(1) by (simp add: cronMatches_def)
  from assms(7) have fh: "first_hit (tryTime tz (fixed_zone off) a sw ?D)
      (List.product (cron_hours c) (cron_minutes c)) = Inr (Some i)"
    unfolding tryDay_open(1) [OF assms(1)] .
  then obtain ys h mi zs where l: "List.product (cron_hours c) (cron_minutes c) = ys @ (h, mi) # zs"
    and hit: "tryTime tz (fixed_zone off) a sw ?D (h, mi) = Inr (Some i)"
    and ys: "\<forall>z \<in> set ys. tryTime tz (fixed_zone off) a sw ?D z = Inr None"
  proof -
    obtain ys x zs where 1: "List.product (cron_hours c) (cron_minutes c) = ys @ x # zs"
      "tryTime tz (fixed_zone off) a sw ?D x = Inr (Some i)"
      "\<forall>z \<in> set ys. tryTime tz (fixed_zone off) a sw ?D z = Inr None"
      using first_hit_Some [OF fh] by blast
    obtain h mi where "x = (h, mi)" by (cases x)
    with 1 show thesis by (intro that [of ys h mi zs]) simp_all
  qed
  have "sorted_wrt (\<lambda>p q. ?t p < ?t q) (ys @ (h, mi) # zs)"
    unfolding l [symmetric]
    using assms(6) by (intro product_sorted) (auto simp: wf_cron_def ascending_in_def list_all_iff)
  moreover have "?hm \<notin> set ys" using ys tryTime_fixed [OF assms(1-5)] by force
  moreover have "?hm \<in> set (ys @ (h, mi) # zs)" using tryDay_open(2) [OF assms(1)] l by simp
  ultimately have le: "?t (h, mi) \<le> ?t ?hm" by (auto simp: sorted_wrt_append)
  have "(h, mi) \<in> set (List.product (cron_hours c) (cron_minutes c))" unfolding l by simp
  then have b: "0 \<le> h" "h \<le> 23" "0 \<le> mi" "mi \<le> 59"
    using assms(6) by (auto simp: wf_cron_def ascending_in_def list_all_iff)
  note v = wall_parts(4) [OF D(2) b refl]
  have "i = ?D + h * HOUR_MS + mi * MINUTE_MS - off"
    using hit unfolding tryTime_wall [OF D] Let_def resolve_fixed [OF v assms(5)]
    by (simp split: if_splits)
  with le wall_split(1) [OF m] show ?thesis by simp
qed


lemma tryDay_no_error:
  assumes "wf_cron c" and "off mod MINUTE_MS = 0" and "0 \<le> D" and "D mod DAY_MS = 0"
  shows "tryDay c tz (fixed_zone off) a sw D \<noteq> Inl e"
proof
  assume "tryDay c tz (fixed_zone off) a sw D = Inl e"
  then obtain h m where hm: "(h, m) \<in> set (List.product (cron_hours c) (cron_minutes c))"
    and t: "tryTime tz (fixed_zone off) a sw D (h, m) = Inl e"
    by (auto simp: tryDay_def split: if_splits dest!: first_hit_Inl)
  have b: "0 \<le> h" "h \<le> 23" "0 \<le> m" "m \<le> 59"
    using hm assms(1) by (auto simp: wf_cron_def ascending_in_def list_all_iff)
  from t show False
    unfolding tryTime_wall [OF assms(3,4)] Let_def resolve_fixed [OF wall_parts(4) [OF assms(4) b refl] assms(2)]
    by (simp split: if_splits)
qed

lemma fixed_start: "fixed_zone off a div MINUTE_MS = (a + off) div MINUTE_MS"
proof -
  have "(a + off) div 1000 * 1000 div (1000 * 60) = (a + off) div 1000 * 1000 div 1000 div 60"
    by (rule zdiv_zmult2_eq) simp
  also have "\<dots> = (a + off) div (1000 * 60)"
    by (simp add: zdiv_zmult2_eq [symmetric])
  finally show ?thesis by (simp add: fixed_zone_def)
qed

abbreviation start_wall :: "int \<Rightarrow> int \<Rightarrow> int" where
  "start_wall off a \<equiv> (a + off) div MINUTE_MS * MINUTE_MS + MINUTE_MS"

lemma day_mono: "x \<le> y \<Longrightarrow> x div DAY_MS \<le> y div DAY_MS"
  by (rule zdiv_mono1) simp_all

text \<open>The day a matching wall time is searched on, and the verdict of that day.\<close>

lemma match_day:
  assumes "cronMatches c w" and "a + off < w" and "0 \<le> a + off"
  shows "start_wall off a \<le> w" and "0 \<le> w"
    and "\<exists>j. w div DAY_MS * DAY_MS = start_wall off a div DAY_MS * DAY_MS + int j * DAY_MS \<and>
           int j = w div DAY_MS - start_wall off a div DAY_MS"
proof -
  show sw: "start_wall off a \<le> w"
    using assms(1,2) by (intro next_minute_le) (simp_all add: cronMatches_def)
  show "0 \<le> w" using assms(2,3) by simp
  define q s where "q = w div DAY_MS" and "s = start_wall off a div DAY_MS"
  have "s \<le> q" unfolding q_def s_def using sw by (rule day_mono)
  then have "q * DAY_MS = s * DAY_MS + int (nat (q - s)) * DAY_MS \<and> int (nat (q - s)) = q - s"
    by (simp add: left_diff_distrib)
  then show "\<exists>j. w div DAY_MS * DAY_MS = start_wall off a div DAY_MS * DAY_MS + int j * DAY_MS \<and>
           int j = w div DAY_MS - start_wall off a div DAY_MS"
    unfolding q_def s_def by blast
qed

lemma tryDay_fixed:
  assumes "tryDay c tz (fixed_zone off) a (start_wall off a)
      (start_wall off a div DAY_MS * DAY_MS + int k * DAY_MS) = Inr (Some t)"
    and "wf_cron c" and "off mod MINUTE_MS = 0" and "0 \<le> a + off"
  shows "cronMatches c (t + off)"
    and "(t + off) div DAY_MS * DAY_MS = start_wall off a div DAY_MS * DAY_MS + int k * DAY_MS"
proof -
  have "0 \<le> start_wall off a" using next_minute [of "a + off"] assms(4) by linarith
  then have "0 \<le> start_wall off a div DAY_MS" by (simp add: pos_imp_zdiv_nonneg_iff)
  then have D: "0 \<le> start_wall off a div DAY_MS * DAY_MS + int k * DAY_MS" by simp
  obtain w where w: "cronMatches c w" "resolveWallClock tz (fixed_zone off) w = Inr t"
    "w div DAY_MS * DAY_MS = start_wall off a div DAY_MS * DAY_MS + int k * DAY_MS"
    using tryDay_hit [OF assms(1) D days_mod assms(2)] by blast
  have "w = t + off" using w(1,2) resolve_fixed [OF _ assms(3)] by (auto simp: cronMatches_def)
  with w show "cronMatches c (t + off)"
    "(t + off) div DAY_MS * DAY_MS = start_wall off a div DAY_MS * DAY_MS + int k * DAY_MS"
    by simp_all
qed

lemma fixed_match:
  assumes "search_fire c tz (fixed_zone off) a = Inr t" and "wf_cron c"
    and "off mod MINUTE_MS = 0" and "0 \<le> a + off"
  shows "cronMatches c (t + off)"
proof -
  obtain k where "tryDay c tz (fixed_zone off) a (start_wall off a)
      (start_wall off a div DAY_MS * DAY_MS + int k * DAY_MS) = Inr (Some t)"
    using search_fire_hit [OF assms(1)] unfolding fixed_start by blast
  from tryDay_fixed(1) [OF this assms(2-4)] show ?thesis .
qed

lemma upt_prefix:
  assumes "[0..<n] = ys @ k # zs"
  shows "set ys = {0..<k}"
proof -
  have s: "sorted_wrt (<) (ys @ k # zs)" unfolding assms [symmetric] by simp
  have "set (ys @ k # zs) = {0..<n}" unfolding assms [symmetric] by simp
  then have n: "j \<in> set (ys @ k # zs) \<longleftrightarrow> j < n" for j by auto
  then have "k < n" by (metis in_set_conv_decomp)
  show ?thesis
  proof (intro set_eqI iffI)
    fix j
    assume "j \<in> set ys"
    then show "j \<in> {0..<k}" using s by (simp add: sorted_wrt_append)
  next
    fix j
    assume j: "j \<in> {0..<k}"
    then have "j \<in> set (ys @ k # zs)" using n [of j] \<open>k < n\<close> by simp
    with j s show "j \<in> set ys" by (auto simp: sorted_wrt_append)
  qed
qed

lemma fixed_first:
  assumes "search_fire c tz (fixed_zone off) a = Inr t" and "wf_cron c"
    and "off mod MINUTE_MS = 0" and "0 \<le> a + off" and "cronMatches c (t' + off)" and "a < t'"
  shows "t \<le> t'"
proof -
  let ?w = "t' + off" and ?s = "start_wall off a div DAY_MS * DAY_MS"
  obtain k ys zs where l: "[0..<Suc MAX_FIRE_HORIZON_DAYS] = ys @ k # zs"
    and hit: "tryDay c tz (fixed_zone off) a (start_wall off a) (?s + int k * DAY_MS) = Inr (Some t)"
    and no: "\<forall>j \<in> set ys. tryDay c tz (fixed_zone off) a (start_wall off a) (?s + int j * DAY_MS) = Inr None"
    by (rule search_fire_hit [OF assms(1), unfolded fixed_start])
  have aw: "a + off < ?w" "a < ?w - off" using assms(6) by simp_all
  note m = match_day [OF assms(5) aw(1) assms(4)]
  obtain j where j: "?w div DAY_MS * DAY_MS = ?s + int j * DAY_MS" using m(3) by blast
  note kys = upt_prefix [OF l]
  consider "j < k" | "j = k" | "k < j" by linarith
  then show ?thesis
  proof cases
    case 1
    then have "tryDay c tz (fixed_zone off) a (start_wall off a) (?w div DAY_MS * DAY_MS) = Inr None"
      using no kys j by simp
    with tryDay_not_None [OF assms(5) m(2,1) aw(2) assms(3)] show ?thesis by blast
  next
    case 2
    with hit j have "tryDay c tz (fixed_zone off) a (start_wall off a) (?w div DAY_MS * DAY_MS) = Inr (Some t)"
      by simp
    from tryDay_min [OF assms(5) m(2,1) aw(2) assms(3,2) this] show ?thesis by simp
  next
    case 3
    note h = tryDay_fixed [OF hit assms(2-4)]
    have "(t + off) div DAY_MS * DAY_MS < ?w div DAY_MS * DAY_MS" unfolding h(2) j using 3 by simp
    then have "(t + off) div DAY_MS < ?w div DAY_MS" by simp
    then have "\<not> ?w \<le> t + off" using day_mono [of ?w "t + off"] by linarith
    then show ?thesis by simp
  qed
qed

text \<open>In such a zone a schedule is unreachable only when the whole horizon holds no match.\<close>

lemma fixed_unreachable:
  assumes "search_fire c tz (fixed_zone off) a = Inl e" and "wf_cron c"
    and "off mod MINUTE_MS = 0" and "0 \<le> a + off" and "cronMatches c w" and "a + off < w"
  shows "int MAX_FIRE_HORIZON_DAYS < w div DAY_MS - start_wall off a div DAY_MS"
proof (rule ccontr)
  assume "\<not> ?thesis"
  note m = match_day [OF assms(5,6,4)]
  obtain j where j: "w div DAY_MS * DAY_MS = start_wall off a div DAY_MS * DAY_MS + int j * DAY_MS"
    "int j = w div DAY_MS - start_wall off a div DAY_MS" using m(3) by blast
  with \<open>\<not> ?thesis\<close> have jn: "j \<in> set [0..<Suc MAX_FIRE_HORIZON_DAYS]" by (simp del: upt_Suc)
  let ?f = "\<lambda>k. tryDay c tz (fixed_zone off) a (start_wall off a)
      (start_wall off a div DAY_MS * DAY_MS + int k * DAY_MS)"
  have nf: "?f j \<noteq> Inr None"
    using tryDay_not_None [OF assms(5) m(2,1) _ assms(3), where tz = tz] assms(6) j(1) by simp
  have D: "0 \<le> start_wall off a div DAY_MS * DAY_MS + int k * DAY_MS" for k
  proof -
    have "0 \<le> start_wall off a" using next_minute [of "a + off"] assms(4) by linarith
    then have "0 \<le> start_wall off a div DAY_MS" by (simp add: pos_imp_zdiv_nonneg_iff)
    then show ?thesis by simp
  qed
  have ok: "?f k \<noteq> Inl e'" for k e'
    using tryDay_no_error [OF assms(2,3) D days_mod] by blast
  have "first_hit ?f [0..<Suc MAX_FIRE_HORIZON_DAYS] \<noteq> Inl e'" for e'
    using first_hit_Inl [of ?f _ e'] ok [of _ e'] by auto
  moreover have "first_hit ?f [0..<Suc MAX_FIRE_HORIZON_DAYS] \<noteq> Inr None"
    using nf jn by (simp only: first_hit_None) blast
  ultimately show False using assms(1)
    unfolding search_fire_def Let_def fixed_start
    by (auto simp: result_simps simp del: upt_Suc split: option.splits)
qed

end
