(* ===== verification/Backup_Policy.thy ===== *)
theory Backup_Policy
  imports Schedule
begin

text \<open>
  Backup decisions (\<open>backup-policy.ts\<close>): object keys, when a nightly run and a restore drill are
  due, what retention deletes, which alerts are raised, and the sealed key envelope. A \<open>Date\<close> is
  an optional instant in milliseconds, \<open>None\<close> being an invalid date; \<open>lastModified\<close> is the
  instant \<open>Date.parse\<close> reads from it; an ISO string that names an episode is the instant it
  prints, which determines it.
\<close>

type_synonym js_date = "int option"

section \<open>Keys\<close>

datatype backup_run_status = B_running | B_succeeded | B_failed

datatype backup_alert_kind =
    Backup_missed | Backup_failed | Backup_stalled | Drill_missed | Drill_failed

definition BACKUP_OBJECT_PREFIX :: string where "BACKUP_OBJECT_PREFIX = ''backups''"

definition backupPostgresKey :: "string \<Rightarrow> string" where
  "backupPostgresKey runId = BACKUP_OBJECT_PREFIX @ ''/postgres/'' @ runId @ ''.dump.enc''"

definition backupHomesKey :: "string \<Rightarrow> string \<Rightarrow> string" where
  "backupHomesKey runId sourceKey = BACKUP_OBJECT_PREFIX @ ''/homes/'' @ runId @ ''/'' @ sourceKey @ ''.enc''"

definition run_id_char :: "char \<Rightarrow> bool" where
  "run_id_char c = (is_digit c \<or> (97 \<le> code_unit c \<and> code_unit c \<le> 102) \<or> c = CHR ''-'')"

text \<open>\<open>([0-9a-f-]{36})(?:\\.|\\/|$)\<close> at the head of what follows the prefix.\<close>

definition match_run_id :: "string \<Rightarrow> string option" where
  "match_run_id rest =
     (let i = take 36 rest; tail = drop 36 rest in
      if length i = 36 \<and> list_all run_id_char i \<and>
         (tail = [] \<or> hd tail = CHR ''.'' \<or> hd tail = CHR ''/'')
      then Some i else None)"

definition backupRunIdFromKey :: "string \<Rightarrow> string option" where
  "backupRunIdFromKey key =
     (if prefix ''backups/postgres/'' key then match_run_id (drop 17 key)
      else if prefix ''backups/homes/'' key then match_run_id (drop 14 key)
      else None)"

section \<open>Schedules\<close>

record nightly_schedule =
  hourUtc :: jsnum
  minuteUtc :: jsnum

definition DEFAULT_BACKUP_SCHEDULE :: nightly_schedule where
  "DEFAULT_BACKUP_SCHEDULE = \<lparr>hourUtc = Fin 3, minuteUtc = Fin 0\<rparr>"

definition assertSchedule :: "nightly_schedule \<Rightarrow> range_error + unit" where
  "assertSchedule s =
     (if \<not> isInteger (hourUtc s) \<or> to_int (hourUtc s) < 0 \<or> to_int (hourUtc s) > 23 \<or>
         \<not> isInteger (minuteUtc s) \<or> to_int (minuteUtc s) < 0 \<or> to_int (minuteUtc s) > 59
      then Inl (RangeError ''schedule'') else Inr ())"

definition assertInstant :: "js_date \<Rightarrow> string \<Rightarrow> range_error + int" where
  "assertInstant d label = (case d of None \<Rightarrow> Inl (RangeError label) | Some ms \<Rightarrow> Inr ms)"

definition nextBackupAt :: "js_date \<Rightarrow> nightly_schedule \<Rightarrow> range_error + int" where
  "nextBackupAt after s =
     bindE (assertSchedule s) (\<lambda>_.
     bindE (assertInstant after ''the backup cursor'') (\<lambda>afterMs.
       let candidate = dateUTC (getUTCFullYear afterMs) (utcMonth afterMs) (getUTCDate afterMs)
                         (to_int (hourUtc s)) (to_int (minuteUtc s)) in
       Inr (if candidate > afterMs then candidate else candidate + 24 * 60 * 60 * 1000)))"

definition isBackupDue :: "js_date \<Rightarrow> js_date option \<Rightarrow> nightly_schedule \<Rightarrow> range_error + bool" where
  "isBackupDue now lastAttemptAt s =
     bindE (assertInstant now ''the backup clock'') (\<lambda>nowMs.
       case lastAttemptAt of
         None \<Rightarrow> Inr True
       | Some attempt \<Rightarrow> bindE (nextBackupAt attempt s) (\<lambda>n. Inr (nowMs \<ge> n)))"

record drill_due_input =
  dd_now :: js_date
  dd_lastDrillAt :: "js_date option"
  dd_lastBackupAt :: "js_date option"
  dd_intervalDays :: "jsnum option"

definition isDrillDue :: "drill_due_input \<Rightarrow> range_error + bool" where
  "isDrillDue i =
     (let days = (case dd_intervalDays i of None \<Rightarrow> Fin 30 | Some d \<Rightarrow> d) in
      if \<not> isInteger days \<or> to_int days < 1 then Inl (RangeError ''intervalDays'')
      else case dd_lastBackupAt i of
        None \<Rightarrow> Inr False
      | Some _ \<Rightarrow>
          (case dd_lastDrillAt i of
             None \<Rightarrow> Inr True
           | Some drill \<Rightarrow>
               bindE (assertInstant drill ''the last drill'') (\<lambda>lastDrillMs.
               bindE (assertInstant (dd_now i) ''the drill clock'') (\<lambda>nowMs.
                 Inr (nowMs - lastDrillMs \<ge> to_int days * 24 * 60 * 60 * 1000)))))"

section \<open>Retention\<close>

record backup_object =
  bo_key :: string
  bo_lastModified :: js_date

record retention_input =
  rt_now :: js_date
  rt_retentionDays :: jsnum
  rt_protect :: "string list option"

definition selectExpiredBackupKeys ::
  "backup_object list \<Rightarrow> retention_input \<Rightarrow> range_error + string list" where
  "selectExpiredBackupKeys objects i =
     (if \<not> isInteger (rt_retentionDays i) \<or> to_int (rt_retentionDays i) < 1
      then Inl (RangeError ''retentionDays'')
      else bindE (assertInstant (rt_now i) ''the retention clock'') (\<lambda>nowMs.
        let cutoffMs = nowMs - to_int (rt_retentionDays i) * 24 * 60 * 60 * 1000;
            protected = (case rt_protect i of None \<Rightarrow> [] | Some ks \<Rightarrow> ks) in
        foldE (\<lambda>expired obj.
            bindE (assertInstant (bo_lastModified obj) ''lastModified'') (\<lambda>modifiedMs.
              Inr (if modifiedMs < cutoffMs \<and> bo_key obj \<notin> set protected
                   then expired @ [bo_key obj] else expired))) [] objects))"

section \<open>Alerts\<close>

record backup_alert_run =
  al_status :: backup_run_status
  al_startedAt :: js_date
  al_finishedAt :: "js_date option"

record backup_alert_input =
  ai_now :: js_date
  ai_lastRun :: "backup_alert_run option"
  ai_lastSuccessAt :: "js_date option"
  ai_lastDrillAt :: "js_date option"
  ai_lastDrillRun :: "backup_alert_run option"
  ai_stalenessMs :: "jsnum option"
  ai_drillStalenessMs :: "jsnum option"
  ai_runTimeoutMs :: "jsnum option"

datatype episode = Never | Episode_at int

type_synonym backup_alert = "backup_alert_kind \<times> episode"

definition DEFAULT_STALENESS_MS :: jsnum where "DEFAULT_STALENESS_MS = Fin (36 * 60 * 60 * 1000)"
definition DEFAULT_DRILL_STALENESS_MS :: jsnum where
  "DEFAULT_DRILL_STALENESS_MS = Fin (45 * 24 * 60 * 60 * 1000)"
definition DEFAULT_RUN_TIMEOUT_MS :: jsnum where "DEFAULT_RUN_TIMEOUT_MS = Fin (6 * 60 * 60 * 1000)"

definition positive :: "jsnum option \<Rightarrow> jsnum \<Rightarrow> string \<Rightarrow> range_error + rat" where
  "positive v dflt label =
     (case (case v of None \<Rightarrow> dflt | Some x \<Rightarrow> x) of
        Fin q \<Rightarrow> if q \<le> 0 then Inl (RangeError label) else Inr q
      | _ \<Rightarrow> Inl (RangeError label))"

text \<open>\<open>date.toISOString()\<close>, which throws for an invalid date.\<close>

definition iso_episode :: "js_date \<Rightarrow> range_error + episode" where
  "iso_episode d = bindE (assertInstant d ''toISOString'') (\<lambda>ms. Inr (Episode_at ms))"

definition openRunAlert ::
  "backup_alert_run option \<Rightarrow> backup_alert_kind \<Rightarrow> int \<Rightarrow> rat \<Rightarrow> range_error + backup_alert list" where
  "openRunAlert run kind nowMs timeoutMs =
     (case run of
        None \<Rightarrow> Inr []
      | Some r \<Rightarrow>
          if al_status r \<noteq> B_running then Inr []
          else bindE (assertInstant (al_startedAt r) ''the run's start'') (\<lambda>startMs.
            if of_int (nowMs - startMs) \<le> timeoutMs then Inr []
            else bindE (iso_episode (al_startedAt r)) (\<lambda>e. Inr [(kind, e)])))"

definition runAlerts ::
  "backup_alert_run option \<Rightarrow> backup_alert_kind \<Rightarrow> backup_alert_kind \<Rightarrow> int \<Rightarrow> rat \<Rightarrow>
   range_error + backup_alert list" where
  "runAlerts run failed stalled nowMs timeoutMs =
     (case run of
        Some r \<Rightarrow>
          if al_status r = B_failed
          then bindE (iso_episode (al_startedAt r)) (\<lambda>e. Inr [(failed, e)])
          else openRunAlert run stalled nowMs timeoutMs
      | None \<Rightarrow> openRunAlert run stalled nowMs timeoutMs)"

definition optionalInstant :: "js_date option \<Rightarrow> string \<Rightarrow> range_error + int option" where
  "optionalInstant d label =
     (case d of None \<Rightarrow> Inr None | Some x \<Rightarrow> bindE (assertInstant x label) (\<lambda>ms. Inr (Some ms)))"

definition decideBackupAlerts :: "backup_alert_input \<Rightarrow> range_error + backup_alert list" where
  "decideBackupAlerts i =
     bindE (assertInstant (ai_now i) ''the alert clock'') (\<lambda>nowMs.
     bindE (positive (ai_stalenessMs i) DEFAULT_STALENESS_MS ''the staleness window'') (\<lambda>stalenessMs.
     bindE (positive (ai_drillStalenessMs i) DEFAULT_DRILL_STALENESS_MS ''the drill staleness window'') (\<lambda>drillStalenessMs.
     bindE (positive (ai_runTimeoutMs i) DEFAULT_RUN_TIMEOUT_MS ''the run timeout'') (\<lambda>runTimeoutMs.
     bindE (runAlerts (ai_lastRun i) Backup_failed Backup_stalled nowMs runTimeoutMs) (\<lambda>backupRun.
     bindE (optionalInstant (ai_lastSuccessAt i) ''the last success'') (\<lambda>lastSuccess.
     let backupMissed = (case lastSuccess of
           None \<Rightarrow> [(Backup_missed, Never)]
         | Some s \<Rightarrow> if of_int (nowMs - s) > stalenessMs then [(Backup_missed, Episode_at s)] else []) in
     bindE (optionalInstant (ai_lastDrillAt i) ''the last drill'') (\<lambda>lastDrill.
     bindE (runAlerts (ai_lastDrillRun i) Drill_failed Drill_failed nowMs runTimeoutMs) (\<lambda>drillRun.
     let drillMissed = (case (lastDrill, lastSuccess) of
           (None, Some s) \<Rightarrow> if of_int (nowMs - s) > drillStalenessMs then [(Drill_missed, Episode_at s)] else []
         | (None, None) \<Rightarrow> []
         | (Some d, _) \<Rightarrow> if of_int (nowMs - d) > drillStalenessMs then [(Drill_missed, Episode_at d)] else []) in
     Inr (backupRun @ backupMissed @ drillRun @ drillMissed)))))))))"

section \<open>The key envelope\<close>

record envelope_kdf =
  kdf_salt :: string
  kdf_n :: nat
  kdf_r :: nat
  kdf_p :: nat
  kdf_keyLength :: nat

record key_envelope =
  env_kdf :: envelope_kdf
  env_iv :: string
  env_authTag :: string
  env_ciphertext :: string

datatype envelope_error =
    Not_an_object | Bad_version | Kdf_not_object | Bad_kdf_name | Bad_cost string | Bad_key_length
  | Bad_cipher | Bad_base64url string

definition base64url_char :: "char \<Rightarrow> bool" where
  "base64url_char c = (is_upper c \<or> is_lower c \<or> is_digit c \<or> c = CHR ''_'' \<or> c = CHR ''-'')"

definition base64url :: "js \<Rightarrow> string \<Rightarrow> envelope_error + string" where
  "base64url v field =
     (case v of
        JStr s \<Rightarrow> if s \<noteq> [] \<and> list_all base64url_char s then Inr s else Inl (Bad_base64url field)
      | _ \<Rightarrow> Inl (Bad_base64url field))"

definition kdf_cost :: "js_record \<Rightarrow> string \<Rightarrow> envelope_error + nat" where
  "kdf_cost r field =
     (case getf r field of
        JNum n \<Rightarrow> if isInteger n \<and> to_int n \<ge> 1 then Inr (nat (to_int n)) else Inl (Bad_cost field)
      | _ \<Rightarrow> Inl (Bad_cost field))"

definition parseBackupKeyEnvelope :: "js \<Rightarrow> envelope_error + key_envelope" where
  "parseBackupKeyEnvelope v =
     (case v of
        JObj e \<Rightarrow>
          bindE (guardE Bad_version (getf e ''version'' = JStr ''v1'')) (\<lambda>_.
          (case getf e ''kdf'' of
             JObj kdf \<Rightarrow>
               bindE (guardE Bad_kdf_name (getf kdf ''name'' = JStr ''scrypt'')) (\<lambda>_.
               bindE (kdf_cost kdf ''n'') (\<lambda>n.
               bindE (kdf_cost kdf ''r'') (\<lambda>r.
               bindE (kdf_cost kdf ''p'') (\<lambda>p.
               bindE (kdf_cost kdf ''keyLength'') (\<lambda>keyLength.
               bindE (guardE Bad_key_length (keyLength = 32)) (\<lambda>_.
               bindE (guardE Bad_cipher (getf e ''cipher'' = JStr ''aes-256-gcm'')) (\<lambda>_.
               bindE (base64url (getf kdf ''salt'') ''kdf.salt'') (\<lambda>salt.
               bindE (base64url (getf e ''iv'') ''iv'') (\<lambda>iv.
               bindE (base64url (getf e ''authTag'') ''authTag'') (\<lambda>authTag.
               bindE (base64url (getf e ''ciphertext'') ''ciphertext'') (\<lambda>ciphertext.
                 Inr \<lparr>env_kdf = \<lparr>kdf_salt = salt, kdf_n = n, kdf_r = r, kdf_p = p, kdf_keyLength = 32\<rparr>,
                      env_iv = iv, env_authTag = authTag, env_ciphertext = ciphertext\<rparr>)))))))))))
           | _ \<Rightarrow> Inl Kdf_not_object))
      | _ \<Rightarrow> Inl Not_an_object)"

text \<open>
  \<open>JSON.stringify\<close> of the authenticated fields. A base64url string needs no escaping, and an
  integer below \<open>10\<^sup>2\<^sup>1\<close> prints in decimal.
\<close>

definition backupEnvelopeAad :: "key_envelope \<Rightarrow> string" where
  "backupEnvelopeAad e =
     (let k = env_kdf e in
      ''{\"version\":\"v1\",\"kdf\":{\"name\":\"scrypt\",\"salt\":\"'' @ kdf_salt k @
      ''\",\"n\":'' @ dec (kdf_n k) @ '',\"r\":'' @ dec (kdf_r k) @ '',\"p\":'' @ dec (kdf_p k) @
      '',\"keyLength\":'' @ dec (kdf_keyLength k) @ ''},\"cipher\":\"aes-256-gcm\",\"iv\":\"'' @ env_iv e @ ''\"}'')"


lemma assertInstant_Some [simp]: "assertInstant (Some t) l = Inr t"
  by (simp add: assertInstant_def)

lemma assertInstant_Inr [simp]: "assertInstant d l = Inr t \<longleftrightarrow> d = Some t"
  by (cases d) (simp_all add: assertInstant_def)

section \<open>Facts about keys\<close>

definition is_run_id :: "string \<Rightarrow> bool" where
  "is_run_id i = (length i = 36 \<and> list_all run_id_char i)"

lemma match_run_id_append:
  "is_run_id i \<Longrightarrow> match_run_id (i @ CHR ''.'' # s) = Some i"
  "is_run_id i \<Longrightarrow> match_run_id (i @ CHR ''/'' # s) = Some i"
  by (simp_all add: match_run_id_def is_run_id_def)

lemma key_round_trip:
  assumes "is_run_id i"
  shows "backupRunIdFromKey (backupPostgresKey i) = Some i"
    and "backupRunIdFromKey (backupHomesKey i s) = Some i"
  using match_run_id_append [OF assms]
  by (simp_all add: backupRunIdFromKey_def backupPostgresKey_def backupHomesKey_def BACKUP_OBJECT_PREFIX_def)

section \<open>Facts about the nightly slot\<close>

lemma assertSchedule_Inr:
  "assertSchedule s = Inr u \<longleftrightarrow> isInteger (hourUtc s) \<and> 0 \<le> to_int (hourUtc s) \<and> to_int (hourUtc s) \<le> 23 \<and>
     isInteger (minuteUtc s) \<and> 0 \<le> to_int (minuteUtc s) \<and> to_int (minuteUtc s) \<le> 59"
  by (auto simp: assertSchedule_def)

abbreviation slot_ms :: "nightly_schedule \<Rightarrow> int" where
  "slot_ms s \<equiv> to_int (hourUtc s) * HOUR_MS + to_int (minuteUtc s) * MINUTE_MS"

lemma nextBackupAt_slot:
  assumes "nextBackupAt (Some a) s = Inr b" and "0 \<le> a"
  shows "a < b" and "b \<le> a + DAY_MS" and "b mod DAY_MS = slot_ms s"
proof -
  define D h where "D = a div DAY_MS * DAY_MS" and "h = slot_ms s"
  have s: "0 \<le> h" "h < DAY_MS"
    using assms(1) by (auto simp: nextBackupAt_def result_simps assertSchedule_Inr h_def)
  have b: "b = (if D + h > a then D + h else D + h + DAY_MS)"
    using assms(1) by (auto simp: nextBackupAt_def result_simps Let_def dateUTC_parts [OF assms(2)] D_def h_def)
  have d: "D \<le> a" "a < D + DAY_MS" using day_bounds [of a] by (simp_all add: D_def)
  show "a < b" "b \<le> a + DAY_MS" using b d s by (auto split: if_splits)
  have "D mod DAY_MS = 0" by (simp add: D_def)
  then have "(D + h) mod DAY_MS = h" using s by (metis add_0 mod_add_left_eq mod_pos_pos_trivial)
  then have "b mod DAY_MS = h" using b by (auto split: if_splits)
  then show "b mod DAY_MS = slot_ms s" by (simp add: h_def)
qed

lemma nextBackupAt_after:
  assumes "nextBackupAt (Some a) s = Inr b"
  shows "a < b"
proof -
  define h m where "h = to_int (hourUtc s)" and "m = to_int (minuteUtc s)"
  define c where "c = dateUTC (getUTCFullYear a) (utcMonth a) (getUTCDate a) h m"
  have s: "0 \<le> h" "0 \<le> m"
    using assms by (auto simp: nextBackupAt_def result_simps assertSchedule_Inr h_def m_def)
  have b: "b = (if c > a then c else c + DAY_MS)"
    using assms by (auto simp: nextBackupAt_def result_simps Let_def c_def h_def m_def)
  have "a < c + DAY_MS"
  proof (cases "0 \<le> getUTCFullYear a \<and> getUTCFullYear a \<le> 99")
    case True
    with dateUTC_early_years [of a h m] s show ?thesis by (simp add: c_def)
  next
    case False
    with dateUTC_parts_year [of a h m] day_bounds [of a] s show ?thesis by (simp add: c_def)
  qed
  with b show ?thesis by (simp split: if_splits)
qed

interpretation nightly: schedule "\<lambda>a. nextBackupAt (Some a) s" for s
  by unfold_locales (rule nextBackupAt_after)

lemma selectExpired_filter:
  assumes "selectExpiredBackupKeys os i = Inr ks"
  shows "\<exists>now. rt_now i = Some now \<and> ks = map bo_key (filter (\<lambda>b.
    (case bo_lastModified b of None \<Rightarrow> False
     | Some t \<Rightarrow> t < now - to_int (rt_retentionDays i) * 24 * 60 * 60 * 1000) \<and>
    bo_key b \<notin> set (case rt_protect i of None \<Rightarrow> [] | Some ps \<Rightarrow> ps)) os)"
proof -
  define prot where "prot = (case rt_protect i of None \<Rightarrow> [] | Some ps \<Rightarrow> ps)"
  from assms obtain now where now: "rt_now i = Some now"
    by (auto simp: selectExpiredBackupKeys_def result_simps split: if_splits)
  define cut where "cut = now - to_int (rt_retentionDays i) * 24 * 60 * 60 * 1000"
  let ?f = "\<lambda>expired obj. bindE (assertInstant (bo_lastModified obj) ''lastModified'') (\<lambda>m.
      Inr (if m < cut \<and> bo_key obj \<notin> set prot then expired @ [bo_key obj] else expired))"
  have loop: "foldE ?f acc os = Inr ks \<Longrightarrow> ks = acc @ map bo_key (filter (\<lambda>b.
      (case bo_lastModified b of None \<Rightarrow> False | Some t \<Rightarrow> t < cut) \<and> bo_key b \<notin> set prot) os)" for acc
  proof (induction os arbitrary: acc)
    case (Cons x xs)
    from Cons.prems obtain t where t: "bo_lastModified x = Some t" by (auto simp: result_simps)
    with Cons.prems show ?case
      using Cons.IH [of acc] Cons.IH [of "acc @ [bo_key x]"] by (auto simp: t split: if_splits)
  qed simp
  have "foldE ?f [] os = Inr ks"
    using assms now by (auto simp: selectExpiredBackupKeys_def Let_def cut_def prot_def split: if_splits)
  from loop [OF this] have "ks = map bo_key (filter (\<lambda>b.
      (case bo_lastModified b of None \<Rightarrow> False | Some t \<Rightarrow> t < cut) \<and> bo_key b \<notin> set prot) os)"
    by (simp only: append_Nil)
  with now show ?thesis unfolding cut_def prot_def by blast
qed

section \<open>Facts about the envelope\<close>

lemma dec_no_comma: "CHR '','' \<notin> set (dec n)" "CHR ''}'' \<notin> set (dec n)"
  using dec_digits [of "CHR '',''" n] dec_digits [of "CHR ''}''" n]
  by (auto simp: is_digit_def code_unit_def)

definition wf_envelope :: "key_envelope \<Rightarrow> bool" where
  "wf_envelope e =
     (list_all (\<lambda>s. s \<noteq> [] \<and> list_all base64url_char s)
        [kdf_salt (env_kdf e), env_iv e, env_authTag e, env_ciphertext e] \<and>
      1 \<le> kdf_n (env_kdf e) \<and> 1 \<le> kdf_r (env_kdf e) \<and> 1 \<le> kdf_p (env_kdf e) \<and>
      kdf_keyLength (env_kdf e) = 32)"

definition envelope_value :: "key_envelope \<Rightarrow> js" where
  "envelope_value e =
     JObj [(''version'', JStr ''v1''),
       (''kdf'', JObj [(''name'', JStr ''scrypt''), (''salt'', JStr (kdf_salt (env_kdf e))),
          (''n'', js_int (int (kdf_n (env_kdf e)))), (''r'', js_int (int (kdf_r (env_kdf e)))),
          (''p'', js_int (int (kdf_p (env_kdf e)))), (''keyLength'', js_int (int (kdf_keyLength (env_kdf e))))]),
       (''cipher'', JStr ''aes-256-gcm''), (''iv'', JStr (env_iv e)), (''authTag'', JStr (env_authTag e)),
       (''ciphertext'', JStr (env_ciphertext e))]"

lemma base64url_Inr: "base64url v f = Inr s \<longleftrightarrow> v = JStr s \<and> s \<noteq> [] \<and> list_all base64url_char s"
  by (auto simp: base64url_def split: js.splits)

lemma base64url_no_quote: "list_all base64url_char s \<Longrightarrow> CHR 0x22 \<notin> set s"
  by (auto simp: list_all_iff base64url_char_def is_upper_def is_lower_def is_digit_def code_unit_def)

lemma parse_envelope_value:
  assumes "wf_envelope e"
  shows "parseBackupKeyEnvelope (envelope_value e) = Inr e"
proof -
  have i: "isInteger (Fin (rat_of_nat n))" "to_int (Fin (rat_of_nat n)) = int n" for n by simp_all
  have c: "kdf_cost r f = Inr n" if "getf r f = js_int (int n)" "1 \<le> n" for r f n
    using that i [of n] by (simp add: kdf_cost_def js_int_def)
  have b: "base64url (JStr s) f = Inr s" if "s \<noteq> []" "list_all base64url_char s" for s f
    using that by (simp add: base64url_def)
  have k: "kdf_cost r f = Inr 32" if "getf r f = js_int 32" for r f
    using c [of r f 32] that by simp
  have "env_kdf e = \<lparr>kdf_salt = kdf_salt (env_kdf e), kdf_n = kdf_n (env_kdf e), kdf_r = kdf_r (env_kdf e),
      kdf_p = kdf_p (env_kdf e), kdf_keyLength = 32\<rparr>"
    using assms by (simp add: wf_envelope_def)
  then have e: "\<lparr>env_kdf = \<lparr>kdf_salt = kdf_salt (env_kdf e), kdf_n = kdf_n (env_kdf e), kdf_r = kdf_r (env_kdf e),
      kdf_p = kdf_p (env_kdf e), kdf_keyLength = 32\<rparr>, env_iv = env_iv e, env_authTag = env_authTag e,
      env_ciphertext = env_ciphertext e\<rparr> = e" by simp
  show ?thesis
    using assms e
    by (simp add: parseBackupKeyEnvelope_def envelope_value_def wf_envelope_def c b k guardE_def)
qed

lemma parse_envelope_wf: "parseBackupKeyEnvelope v = Inr e \<Longrightarrow> wf_envelope e"
  by (auto simp: parseBackupKeyEnvelope_def result_simps base64url_Inr wf_envelope_def kdf_cost_def
      split: js.splits if_splits)

lemma aad_inj:
  assumes "wf_envelope e" and "wf_envelope f" and "backupEnvelopeAad e = backupEnvelopeAad f"
  shows "env_kdf e = env_kdf f \<and> env_iv e = env_iv f"
proof -
  have q: "CHR 0x22 \<notin> set (kdf_salt (env_kdf e))" "CHR 0x22 \<notin> set (kdf_salt (env_kdf f))"
    "CHR 0x22 \<notin> set (env_iv e)" "CHR 0x22 \<notin> set (env_iv f)"
    using assms(1,2) base64url_no_quote by (auto simp: wf_envelope_def)
  have "kdf_salt (env_kdf e) = kdf_salt (env_kdf f) \<and> kdf_n (env_kdf e) = kdf_n (env_kdf f) \<and>
      kdf_r (env_kdf e) = kdf_r (env_kdf f) \<and> kdf_p (env_kdf e) = kdf_p (env_kdf f) \<and>
      kdf_keyLength (env_kdf e) = kdf_keyLength (env_kdf f) \<and> env_iv e = env_iv f"
    using assms(3) q by (simp add: backupEnvelopeAad_def Let_def append_sep_inj dec_no_comma)
  then show ?thesis by (auto intro: envelope_kdf.equality)
qed

end
