(* ===== verification/Backoff.thy ===== *)
theory Backoff
  imports Prelude
begin

text \<open>
  Bounded exponential backoff (\<open>backoff.ts\<close>), over exact rationals: a double of the source is a
  rational, and the rounding of its intermediate results is not modelled. \<open>Math.round\<close> is
  \<open>\<lfloor>x + 1/2\<rfloor>\<close>; the value a call of the random source returns is an argument.
\<close>

record backoff_policy =
  baseDelayMs :: jsnum
  maxDelayMs :: jsnum
  multiplier :: jsnum
  jitterRatio :: jsnum

definition DEFAULT_BACKOFF :: backoff_policy where
  "DEFAULT_BACKOFF =
     \<lparr>baseDelayMs = Fin 1000, maxDelayMs = Fin 30000, multiplier = Fin 2, jitterRatio = Fin (1 / 2)\<rparr>"

fun fin :: "jsnum \<Rightarrow> rat" where
  "fin (Fin q) = q"
| "fin _ = 0"

definition assertPositiveFinite :: "jsnum \<Rightarrow> string \<Rightarrow> range_error + unit" where
  "assertPositiveFinite v field = (if \<not> isFinite v \<or> fin v \<le> 0 then Inl (RangeError field) else Inr ())"

definition assertPolicy :: "backoff_policy \<Rightarrow> range_error + unit" where
  "assertPolicy p =
     bindE (assertPositiveFinite (baseDelayMs p) ''baseDelayMs'') (\<lambda>_.
     bindE (assertPositiveFinite (maxDelayMs p) ''maxDelayMs'') (\<lambda>_.
       if fin (maxDelayMs p) < fin (baseDelayMs p) then Inl (RangeError ''maxDelayMs'')
       else if \<not> isFinite (multiplier p) \<or> fin (multiplier p) < 1 then Inl (RangeError ''multiplier'')
       else if \<not> isFinite (jitterRatio p) \<or> fin (jitterRatio p) < 0 \<or> fin (jitterRatio p) > 1
       then Inl (RangeError ''jitterRatio'')
       else Inr ()))"

definition js_round :: "rat \<Rightarrow> int" where
  "js_round x = \<lfloor>x + 1 / 2\<rfloor>"

definition ceiling_ms :: "backoff_policy \<Rightarrow> nat \<Rightarrow> rat" where
  "ceiling_ms p attempt = min (fin (baseDelayMs p) * fin (multiplier p) ^ (attempt - 1)) (fin (maxDelayMs p))"

definition backoffDelayMs :: "jsnum \<Rightarrow> backoff_policy option \<Rightarrow> jsnum \<Rightarrow> range_error + int" where
  "backoffDelayMs attempt policy unit =
     (if \<not> isSafeInteger attempt \<or> to_int attempt < 1 then Inl (RangeError ''attempt'')
      else
        let p = (case policy of None \<Rightarrow> DEFAULT_BACKOFF | Some p \<Rightarrow> p) in
        bindE (assertPolicy p) (\<lambda>_.
          if \<not> isFinite unit \<or> fin unit < 0 \<or> fin unit > 1 then Inl (RangeError ''random'')
          else
            let ceiling = ceiling_ms p (nat (to_int attempt));
                jittered = ceiling * (1 - fin (jitterRatio p) + fin (jitterRatio p) * fin unit)
            in Inr (js_round jittered)))"

section \<open>Bounds\<close>

lemma assertPolicy_Inr:
  "assertPolicy p = Inr () \<longleftrightarrow>
   isFinite (baseDelayMs p) \<and> 0 < fin (baseDelayMs p) \<and> isFinite (maxDelayMs p) \<and>
   fin (baseDelayMs p) \<le> fin (maxDelayMs p) \<and> isFinite (multiplier p) \<and> 1 \<le> fin (multiplier p) \<and>
   isFinite (jitterRatio p) \<and> 0 \<le> fin (jitterRatio p) \<and> fin (jitterRatio p) \<le> 1"
  by (auto simp: assertPolicy_def assertPositiveFinite_def bindE_def)

lemma js_round_mono: "x \<le> y \<Longrightarrow> js_round x \<le> js_round y"
  unfolding js_round_def by (rule floor_mono) simp

lemma js_round_int [simp]: "js_round (of_int k) = k"
  unfolding js_round_def by linarith

lemma ceiling_bounds:
  assumes "assertPolicy p = Inr ()"
  shows "fin (baseDelayMs p) \<le> ceiling_ms p n" and "ceiling_ms p n \<le> fin (maxDelayMs p)"
proof -
  have "fin (baseDelayMs p) * 1 \<le> fin (baseDelayMs p) * fin (multiplier p) ^ (n - 1)"
    using assms by (intro mult_left_mono one_le_power) (auto simp: assertPolicy_Inr)
  then show "fin (baseDelayMs p) \<le> ceiling_ms p n"
    using assms by (simp add: ceiling_ms_def assertPolicy_Inr)
  show "ceiling_ms p n \<le> fin (maxDelayMs p)" by (simp add: ceiling_ms_def)
qed

lemma ceiling_mono:
  assumes "assertPolicy p = Inr ()" and "m \<le> n"
  shows "ceiling_ms p m \<le> ceiling_ms p n"
proof -
  have "fin (multiplier p) ^ (m - 1) \<le> fin (multiplier p) ^ (n - 1)"
    using assms by (intro power_increasing) (auto simp: assertPolicy_Inr)
  then have "fin (baseDelayMs p) * fin (multiplier p) ^ (m - 1) \<le> fin (baseDelayMs p) * fin (multiplier p) ^ (n - 1)"
    using assms(1) by (intro mult_left_mono) (auto simp: assertPolicy_Inr)
  then show ?thesis by (simp add: ceiling_ms_def min_def)
qed

lemma jitter_factor:
  assumes "0 \<le> j" and "j \<le> 1" and "0 \<le> u" and "u \<le> (1 :: rat)"
  shows "1 - j \<le> 1 - j + j * u" and "1 - j + j * u \<le> 1"
  using assms mult_left_mono [of u 1 j] by simp_all

lemma backoffDelayMs_Inr:
  assumes "backoffDelayMs attempt (Some p) unit = Inr d"
  shows "assertPolicy p = Inr ()" and "0 \<le> fin unit" and "fin unit \<le> 1" and "1 \<le> to_int attempt"
    and "d = js_round (ceiling_ms p (nat (to_int attempt)) *
               (1 - fin (jitterRatio p) + fin (jitterRatio p) * fin unit))"
  using assms by (auto simp: backoffDelayMs_def Let_def result_simps split: if_splits)

lemma backoff_bounds:
  assumes "backoffDelayMs attempt (Some p) unit = Inr d"
  shows "js_round ((1 - fin (jitterRatio p)) * ceiling_ms p (nat (to_int attempt))) \<le> d"
    and "d \<le> js_round (fin (maxDelayMs p))" and "0 \<le> d"
proof -
  note i = backoffDelayMs_Inr [OF assms]
  let ?c = "ceiling_ms p (nat (to_int attempt))" and ?j = "fin (jitterRatio p)"
  have j: "0 \<le> ?j" "?j \<le> 1" "0 < fin (baseDelayMs p)" using i(1) by (auto simp: assertPolicy_Inr)
  have c: "0 \<le> ?c" "?c \<le> fin (maxDelayMs p)"
    using ceiling_bounds [OF i(1), of "nat (to_int attempt)"] j(3) by linarith+
  note f = jitter_factor [OF j(1,2) i(2,3)]
  have lo: "(1 - ?j) * ?c \<le> ?c * (1 - ?j + ?j * fin unit)"
    using mult_right_mono [OF f(1) c(1)] by (simp add: mult.commute)
  have hi: "?c * (1 - ?j + ?j * fin unit) \<le> fin (maxDelayMs p)"
    using mult_left_mono [OF f(2) c(1)] c(2) by simp
  show "js_round ((1 - ?j) * ?c) \<le> d" unfolding i(5) by (rule js_round_mono [OF lo])
  show "d \<le> js_round (fin (maxDelayMs p))" unfolding i(5) by (rule js_round_mono [OF hi])
  have "0 \<le> (1 - ?j) * ?c" using j c by simp
  then have "js_round (of_int 0) \<le> js_round ((1 - ?j) * ?c)" by (intro js_round_mono) simp
  with \<open>js_round ((1 - ?j) * ?c) \<le> d\<close> show "0 \<le> d" by (simp only: js_round_int)
qed

end
