(* ===== verification/Time_Properties.thy ===== *)
theory Time_Properties
  imports Routine_Facts Backup_Policy Backoff
begin

text \<open>
  The correctness properties of the parts that read a clock: the firing of routines, the
  retry delays and the backup alerts, with the sealed key envelope.
\<close>

section \<open>Routines\<close>

text \<open>
  C36: A routine fires on its schedule. Whatever the time zone does, an instant the search
  returns for a parsed expression lies after the instant it was asked about and is the
  resolution of a wall-clock minute that matches every field of the expression and had not
  been reached on the zone's clock; on the zone's clock the instant is not before that minute. Slots
  computed one from the other strictly increase, so no slot fires twice.
\<close>

theorem routine_fires_on_schedule:
  assumes "parseRoutineCron e = Inr c" and "zones tz = Some zone" and "0 \<le> zone a"
  shows "(\<forall>i. nextRoutineFire zones c tz (Some a) = Inr i \<longrightarrow>
      a < i \<and> (\<exists>w. cronMatches c w \<and> zone a < w \<and> w \<le> zone i \<and> resolveWallClock tz zone w = Inr i)) \<and>
    (\<forall>n bs. slots (\<lambda>a. nextRoutineFire zones c tz (Some a)) n a = Inr bs \<longrightarrow> sorted_wrt (<) (a # bs))"
proof -
  have "a < i \<and> (\<exists>w. cronMatches c w \<and> zone a < w \<and> w \<le> zone i \<and> resolveWallClock tz zone w = Inr i)"
    if "nextRoutineFire zones c tz (Some a) = Inr i" for i
  proof -
    have "search_fire c tz zone a = Inr i" using that assms(2) by (simp add: nextRoutineFire_def)
    from search_fire_sound [OF this _ assms(3)] search_fire_after [OF this] parseRoutineCron_wf [OF assms(1)]
    show ?thesis by blast
  qed
  then show ?thesis using routine.slots_increase by blast
qed

definition weekday_cron :: routine_cron where
  "weekday_cron =
     \<lparr>cron_expression = ''30 9 * * 1-5'', cron_minutes = [30], cron_hours = [9],
      cron_daysOfMonth = map int [1..<32], cron_months = map int [1..<13], cron_daysOfWeek = [1, 2, 3, 4, 5],
      cron_dayOfMonthUnrestricted = True, cron_dayOfWeekUnrestricted = False\<rparr>"

lemma weekday_cron_parses: "parseRoutineCron ''30 9 * * 1-5'' = Inr weekday_cron"
  by code_simp

definition sample_zones :: "string \<Rightarrow> zone option" where
  "sample_zones tz = (if tz = ''UTC'' then Some (fixed_zone 0) else None)"

lemma search_fire_first_day:
  assumes "sw = zone a div MINUTE_MS * MINUTE_MS + MINUTE_MS"
    and "tryDay c tz zone a sw (sw div DAY_MS * DAY_MS) = Inr (Some i)"
  shows "search_fire c tz zone a = Inr i"
proof -
  have "[0..<Suc MAX_FIRE_HORIZON_DAYS] = 0 # [Suc 0..<Suc MAX_FIRE_HORIZON_DAYS]"
    by (rule upt_conv_Cons) simp
  with assms show ?thesis by (simp add: search_fire_def Let_def del: upt_Suc)
qed

lemma weekday_fire: "nextRoutineFire sample_zones weekday_cron ''UTC'' (Some 0) = Inr 34200000"
proof -
  have "tryDay weekday_cron ''UTC'' (fixed_zone 0) 0 60000 (60000 div DAY_MS * DAY_MS) = Inr (Some 34200000)"
    by code_simp
  then have "search_fire weekday_cron ''UTC'' (fixed_zone 0) 0 = Inr 34200000"
    by (intro search_fire_first_day [of 60000]) (simp_all add: fixed_zone_def)
  then show ?thesis by (simp add: nextRoutineFire_def sample_zones_def)
qed

theorem routine_fires_on_schedule_witness:
  "\<exists>w. cronMatches weekday_cron w \<and> fixed_zone 0 0 < w \<and> resolveWallClock ''UTC'' (fixed_zone 0) w = Inr 34200000"
proof -
  note weekday_fire
  moreover have "sample_zones ''UTC'' = Some (fixed_zone 0)" by (simp add: sample_zones_def)
  moreover have "0 \<le> fixed_zone 0 0" by (simp add: fixed_zone_def)
  ultimately show ?thesis
    using routine_fires_on_schedule [OF weekday_cron_parses, of sample_zones "''UTC''" "fixed_zone 0" 0] by blast
qed

text \<open>
  C37: The next fire is the earliest. In a zone at a fixed offset, the instant returned reads as
  a match of the expression and no match lies between the instant asked about and it; and the
  search gives up only if no match lies within the horizon of eight years. The due decision on
  top of it fires a slot at most five minutes late, skips an older one, and in both cases names
  a next slot that is later than the one decided.
\<close>

theorem routine_next_is_earliest:
  assumes "parseRoutineCron e = Inr c" and "zones tz = Some (fixed_zone off)"
    and "off mod MINUTE_MS = 0" and "0 \<le> a + off"
  shows "(case nextRoutineFire zones c tz (Some a) of
      Inr t \<Rightarrow> cronMatches c (t + off) \<and> a < t \<and> (\<forall>t'. a < t' \<and> t' < t \<longrightarrow> \<not> cronMatches c (t' + off))
    | Inl _ \<Rightarrow> \<forall>w. a + off < w \<and> w div DAY_MS - start_wall off a div DAY_MS \<le> int MAX_FIRE_HORIZON_DAYS \<longrightarrow>
        \<not> cronMatches c w) \<and>
    (case decideRoutineDue zones c tz a now of
      Inr (Wait n) \<Rightarrow> now < a \<and> n = a
    | Inr (Fire s n late) \<Rightarrow> s = a \<and> a < n \<and> 0 \<le> late \<and> late \<le> ROUTINE_MISS_GRACE_MS
    | Inr (Miss s n late) \<Rightarrow> s = a \<and> now < n \<and> ROUTINE_MISS_GRACE_MS < late
    | Inl _ \<Rightarrow> a \<le> now)"
proof
  have wf: "wf_cron c" using parseRoutineCron_wf [OF assms(1)] by blast
  have s: "nextRoutineFire zones c tz (Some a) = search_fire c tz (fixed_zone off) a"
    using assms(2) by (simp add: nextRoutineFire_def)
  show "case nextRoutineFire zones c tz (Some a) of
      Inr t \<Rightarrow> cronMatches c (t + off) \<and> a < t \<and> (\<forall>t'. a < t' \<and> t' < t \<longrightarrow> \<not> cronMatches c (t' + off))
    | Inl _ \<Rightarrow> \<forall>w. a + off < w \<and> w div DAY_MS - start_wall off a div DAY_MS \<le> int MAX_FIRE_HORIZON_DAYS \<longrightarrow>
        \<not> cronMatches c w"
  proof (cases "search_fire c tz (fixed_zone off) a")
    case (Inr t)
    have "\<not> cronMatches c (t' + off)" if "a < t'" "t' < t" for t'
      using fixed_first [OF Inr wf assms(3,4) _ that(1)] that(2) by fastforce
    then show ?thesis
      using s Inr fixed_match [OF Inr wf assms(3,4)] search_fire_after [OF Inr] by simp
  next
    case (Inl err)
    then show ?thesis using s fixed_unreachable [OF Inl wf assms(3,4)] by fastforce
  qed
  show "case decideRoutineDue zones c tz a now of
      Inr (Wait n) \<Rightarrow> now < a \<and> n = a
    | Inr (Fire s n late) \<Rightarrow> s = a \<and> a < n \<and> 0 \<le> late \<and> late \<le> ROUTINE_MISS_GRACE_MS
    | Inr (Miss s n late) \<Rightarrow> s = a \<and> now < n \<and> ROUTINE_MISS_GRACE_MS < late
    | Inl _ \<Rightarrow> a \<le> now"
    using nextRoutineFire_after [of zones c tz]
    by (auto simp: decideRoutineDue_def Let_def bindE_def split: sum.splits)
qed

theorem routine_next_is_earliest_witness:
  "\<not> cronMatches weekday_cron 34140000"
proof -
  note weekday_fire
  moreover have "sample_zones ''UTC'' = Some (fixed_zone 0)" by (simp add: sample_zones_def)
  ultimately show ?thesis
    using routine_next_is_earliest [OF weekday_cron_parses, of sample_zones "''UTC''" 0 0 0] by simp
qed

section \<open>Retries\<close>

text \<open>
  Retry delays are bounded. A delay that is returned comes from an accepted policy and a
  random value between 0 and 1; it is not negative, not above the rounded maximum and not below
  the unjittered part of the ceiling, and the ceiling grows with the attempt from the base delay
  up to the maximum. With whole-number limits the rounding never exceeds the maximum.
\<close>

theorem backoff_delay_bounded:
  assumes "backoffDelayMs attempt (Some p) unit = Inr d" and "fin (maxDelayMs p) = of_int m"
  shows "0 \<le> d \<and> d \<le> m \<and>
    js_round ((1 - fin (jitterRatio p)) * ceiling_ms p (nat (to_int attempt))) \<le> d \<and>
    (\<forall>k n. k \<le> n \<longrightarrow> fin (baseDelayMs p) \<le> ceiling_ms p k \<and> ceiling_ms p k \<le> ceiling_ms p n \<and> ceiling_ms p n \<le> of_int m)"
  using backoff_bounds [OF assms(1)] ceiling_bounds [OF backoffDelayMs_Inr(1) [OF assms(1)]]
    ceiling_mono [OF backoffDelayMs_Inr(1) [OF assms(1)]] assms(2) by simp

theorem backoff_delay_bounded_witness:
  "backoffDelayMs (Fin 9) (Some DEFAULT_BACKOFF) (Fin (1 / 2)) = Inr 22500 \<and> (22500 :: int) \<le> 30000"
proof -
  have d: "backoffDelayMs (Fin 9) (Some DEFAULT_BACKOFF) (Fin (1 / 2)) = Inr 22500" by code_simp
  have "fin (maxDelayMs DEFAULT_BACKOFF) = of_int 30000" by (simp add: DEFAULT_BACKOFF_def)
  from backoff_delay_bounded [OF d this] d show ?thesis by simp
qed

section \<open>Backups\<close>

lemma runAlerts_kinds:
  assumes "runAlerts run failed stalled now rt = Inr as"
  shows "fst ` set as \<subseteq> {failed, stalled}"
  using assms
  by (auto simp: runAlerts_def openRunAlert_def bindE_def split: option.splits if_splits sum.splits)

lemma decideBackupAlerts_undrilled:
  assumes "decideBackupAlerts i = Inr alerts" and "ai_now i = Some now"
    and "ai_lastSuccessAt i = Some (Some s)" and "ai_lastDrillAt i = None"
    and "positive (ai_stalenessMs i) DEFAULT_STALENESS_MS ''the staleness window'' = Inr st"
    and "positive (ai_drillStalenessMs i) DEFAULT_DRILL_STALENESS_MS ''the drill staleness window'' = Inr ds"
  shows "\<exists>rt bk drill.
    runAlerts (ai_lastRun i) Backup_failed Backup_stalled now rt = Inr bk \<and>
    runAlerts (ai_lastDrillRun i) Drill_failed Drill_failed now rt = Inr drill \<and>
    alerts = bk @ (if of_int (now - s) > st then [(Backup_missed, Episode_at s)] else []) @
      drill @ (if of_int (now - s) > ds then [(Drill_missed, Episode_at s)] else [])"
  using assms(1)
  by (auto simp: decideBackupAlerts_def assms(2-6) optionalInstant_def Let_def bindE_def split: sum.splits) blast+

definition healthy_undrilled :: backup_alert_input where
  "healthy_undrilled =
     \<lparr>ai_now = Some (400 * DAY_MS), ai_lastRun = None, ai_lastSuccessAt = Some (Some (399 * DAY_MS)),
      ai_lastDrillAt = None, ai_lastDrillRun = None, ai_stalenessMs = None, ai_drillStalenessMs = None,
      ai_runTimeoutMs = None\<rparr>"

text \<open>
  The alerts of a deployment that never drilled. With a valid clock, windows and instants,
  a missed-backup alert is raised exactly when the newest success is older than the staleness
  window. But a deployment on which no drill has ever succeeded gets a missed-drill alert only
  if its newest backup is older than the drill window: the code measures from the newest
  success, not from the first backup that armed the drill, so while backups keep succeeding the
  missing drill is never announced.
\<close>

theorem drill_missed_silent:
  assumes "decideBackupAlerts i = Inr alerts" and "ai_now i = Some now"
    and "ai_lastSuccessAt i = Some (Some s)" and "ai_lastDrillAt i = None"
    and "positive (ai_stalenessMs i) DEFAULT_STALENESS_MS ''the staleness window'' = Inr st"
    and "positive (ai_drillStalenessMs i) DEFAULT_DRILL_STALENESS_MS ''the drill staleness window'' = Inr ds"
  shows "((Backup_missed, Episode_at s) \<in> set alerts \<longleftrightarrow> of_int (now - s) > st) \<and>
    ((\<exists>ep. (Drill_missed, ep) \<in> set alerts) \<longleftrightarrow> of_int (now - s) > ds)"
proof -
  obtain rt bk drill where d: "alerts = bk @ (if of_int (now - s) > st then [(Backup_missed, Episode_at s)] else []) @
      drill @ (if of_int (now - s) > ds then [(Drill_missed, Episode_at s)] else [])"
    and b: "runAlerts (ai_lastRun i) Backup_failed Backup_stalled now rt = Inr bk"
    and r: "runAlerts (ai_lastDrillRun i) Drill_failed Drill_failed now rt = Inr drill"
    using decideBackupAlerts_undrilled [OF assms] by blast
  show ?thesis using runAlerts_kinds [OF b] runAlerts_kinds [OF r] unfolding d by auto
qed

theorem drill_missed_silent_witness:
  "decideBackupAlerts healthy_undrilled = Inr [] \<and> \<not> (\<exists>ep. (Drill_missed, ep) \<in> set ([] :: backup_alert list))"
proof -
  have d: "decideBackupAlerts healthy_undrilled = Inr []" by code_simp
  have st: "positive (ai_stalenessMs healthy_undrilled) DEFAULT_STALENESS_MS ''the staleness window'' = Inr 129600000"
    by code_simp
  have ds: "positive (ai_drillStalenessMs healthy_undrilled) DEFAULT_DRILL_STALENESS_MS
      ''the drill staleness window'' = Inr 3888000000"
    by code_simp
  have "ai_now healthy_undrilled = Some (400 * DAY_MS)"
    "ai_lastSuccessAt healthy_undrilled = Some (Some (399 * DAY_MS))" "ai_lastDrillAt healthy_undrilled = None"
    by (simp_all add: healthy_undrilled_def)
  from drill_missed_silent [OF d this st ds] d show ?thesis by simp
qed

text \<open>
  The sealed envelope. Parsing accepts exactly the values that a well-formed envelope
  prints to, up to fields it does not read, and what it accepts is well-formed: non-empty
  base64url fields, positive costs and a 32-byte key. The authenticated data of two accepted
  envelopes is equal only if their key derivation parameters and their initialisation vectors
  are equal, so neither can be exchanged under a seal.
\<close>

theorem envelope_sealed:
  "(wf_envelope e \<longleftrightarrow> (\<exists>v. parseBackupKeyEnvelope v = Inr e)) \<and>
   (wf_envelope e \<longrightarrow> parseBackupKeyEnvelope (envelope_value e) = Inr e) \<and>
   (parseBackupKeyEnvelope v = Inr e \<and> parseBackupKeyEnvelope w = Inr f \<longrightarrow>
    backupEnvelopeAad e = backupEnvelopeAad f \<longleftrightarrow> env_kdf e = env_kdf f \<and> env_iv e = env_iv f)"
proof (intro conjI impI)
  show "wf_envelope e \<longleftrightarrow> (\<exists>v. parseBackupKeyEnvelope v = Inr e)"
    using parse_envelope_value parse_envelope_wf by blast
  show "parseBackupKeyEnvelope (envelope_value e) = Inr e" if "wf_envelope e"
    using that by (rule parse_envelope_value)
  assume "parseBackupKeyEnvelope v = Inr e \<and> parseBackupKeyEnvelope w = Inr f"
  then show "backupEnvelopeAad e = backupEnvelopeAad f \<longleftrightarrow> env_kdf e = env_kdf f \<and> env_iv e = env_iv f"
    using aad_inj parse_envelope_wf by (fastforce simp: backupEnvelopeAad_def Let_def)
qed

definition sample_envelope :: key_envelope where
  "sample_envelope =
     \<lparr>env_kdf = \<lparr>kdf_salt = ''c2FsdA'', kdf_n = 16384, kdf_r = 8, kdf_p = 1, kdf_keyLength = 32\<rparr>,
      env_iv = ''aXY'', env_authTag = ''dGFn'', env_ciphertext = ''Y3Q''\<rparr>"

theorem envelope_sealed_witness:
  "parseBackupKeyEnvelope (envelope_value sample_envelope) = Inr sample_envelope"
proof -
  have "wf_envelope sample_envelope" by code_simp
  then show ?thesis using envelope_sealed [of sample_envelope] by blast
qed

end
