(* ===== verification/Ip_Address.thy ===== *)
theory Ip_Address
  imports Egress
begin

text \<open>
  What the URL guard uses of the platform: the address text \<open>isIP\<close> of \<open>node:net\<close> accepts and the
  number it denotes, \<open>Number(text)\<close>, and the \<open>BlockList\<close> of \<open>node:net\<close>. An address is a
  number below \<open>2\<^sup>1\<^sup>2\<^sup>8\<close>: an IPv4 address is compared in its mapped form
  \<open>::ffff:a.b.c.d\<close>, as \<open>SocketAddress::is_in_network\<close> does for the mixed cases. \<open>isIpv4\<close> of
  the egress policy is the grammar of \<open>net.isIPv4\<close> too.
\<close>

section \<open>Numbers in text\<close>

abbreviation COLON :: char where "COLON \<equiv> CHR '':''"

definition hex_char :: "char \<Rightarrow> bool" where
  "hex_char c =
     (is_digit c \<or> (97 \<le> code_unit c \<and> code_unit c \<le> 102) \<or> (65 \<le> code_unit c \<and> code_unit c \<le> 70))"

definition hex_val :: "char \<Rightarrow> nat" where
  "hex_val c =
     (if is_digit c then code_unit c - 48
      else if 97 \<le> code_unit c then code_unit c - 87 else code_unit c - 55)"

definition parse_base :: "int \<Rightarrow> string \<Rightarrow> int" where
  "parse_base b s = foldl (\<lambda>a c. b * a + int (hex_val c)) 0 s"

text \<open>
  \<open>Number(text)\<close>: trimmed text, empty for \<open>0\<close>, a prefixed integer, \<open>Infinity\<close> or a signed decimal
  literal with an optional fraction and exponent. The value is exact: the rounding to a double is
  left out.
\<close>

definition scale10 :: "rat \<Rightarrow> int \<Rightarrow> rat" where
  "scale10 q e = (if 0 \<le> e then q * 10 ^ nat e else q / 10 ^ nat (- e))"

definition is_digits :: "string \<Rightarrow> bool" where
  "is_digits s = (s \<noteq> [] \<and> list_all is_digit s)"

definition exponent_of :: "string \<Rightarrow> int option" where
  "exponent_of s =
     (case s of
        [] \<Rightarrow> Some 0
      | _ # CHR ''-'' # ds \<Rightarrow> if is_digits ds then Some (- int (parse_dec ds)) else None
      | _ # CHR ''+'' # ds \<Rightarrow> if is_digits ds then Some (int (parse_dec ds)) else None
      | _ # ds \<Rightarrow> if is_digits ds then Some (int (parse_dec ds)) else None)"

definition unsigned_decimal :: "string \<Rightarrow> rat option" where
  "unsigned_decimal s =
     (let is_e = (\<lambda>c. c = CHR ''e'' \<or> c = CHR ''E'');
          mantissa = takeWhile (\<lambda>c. \<not> is_e c) s;
          whole = takeWhile (\<lambda>c. c \<noteq> DOT) mantissa;
          fraction = drop 1 (dropWhile (\<lambda>c. c \<noteq> DOT) mantissa) in
      if is_digits (whole @ fraction)
      then map_option
             (\<lambda>e. scale10 (of_nat (parse_dec (whole @ fraction))) (e - int (length fraction)))
             (exponent_of (dropWhile (\<lambda>c. \<not> is_e c) s))
      else None)"

definition digits_below :: "int \<Rightarrow> string \<Rightarrow> bool" where
  "digits_below b s = (s \<noteq> [] \<and> list_all (\<lambda>c. hex_char c \<and> int (hex_val c) < b) s)"

definition prefixed_integer :: "string \<Rightarrow> jsnum option" where
  "prefixed_integer s =
     (let base = (case toLowerCase (take 2 s) of
                    [z, x] \<Rightarrow> if z = CHR ''0'' \<and> x = CHR ''x'' then 16
                              else if z = CHR ''0'' \<and> x = CHR ''o'' then 8
                              else if z = CHR ''0'' \<and> x = CHR ''b'' then 2 else 0
                  | _ \<Rightarrow> 0) in
      if base = 0 then None
      else Some (if digits_below base (drop 2 s) then Fin (of_int (parse_base base (drop 2 s))) else NaN))"

definition signed_decimal :: "string \<Rightarrow> jsnum" where
  "signed_decimal s =
     (let negative = (take 1 s = ''-''); body = (if take 1 s \<in> {''-'', ''+''} then drop 1 s else s) in
      if body = ''Infinity'' then (if negative then NegInf else PosInf)
      else case unsigned_decimal body of
             None \<Rightarrow> NaN
           | Some q \<Rightarrow> Fin (if negative then - q else q))"

definition js_Number :: "string \<Rightarrow> jsnum" where
  "js_Number text =
     (let s = trim text in
      if s = [] then Fin 0
      else case prefixed_integer s of Some v \<Rightarrow> v | None \<Rightarrow> signed_decimal s)"

section \<open>Addresses\<close>

datatype ip_family = Ipv4 | Ipv6

definition v4_octets :: "string \<Rightarrow> int list option" where
  "v4_octets s =
     (if isIpv4 s then Some (map (\<lambda>p. int (parse_dec p)) (split_on DOT s)) else None)"

definition value_of :: "int \<Rightarrow> int list \<Rightarrow> int" where
  "value_of base ds = foldl (\<lambda>a d. base * a + d) 0 ds"

definition v6_segment :: "string \<Rightarrow> bool" where
  "v6_segment s = (s \<noteq> [] \<and> length s \<le> 4 \<and> list_all hex_char s)"

text \<open>The text before and after the first \<open>"::"\<close>.\<close>

fun split_double :: "string \<Rightarrow> (string \<times> string) option" where
  "split_double (a # b # r) =
     (if a = COLON \<and> b = COLON then Some ([], r)
      else map_option (\<lambda>(h, t). (a # h, t)) (split_double (b # r)))"
| "split_double _ = None"

definition tokens :: "string \<Rightarrow> string list" where
  "tokens s = (if s = [] then [] else split_on COLON s)"

fun octet_groups :: "int list \<Rightarrow> int list" where
  "octet_groups [a, b, c, d] = [256 * a + b, 256 * c + d]"
| "octet_groups _ = []"

text \<open>The groups the tokens denote: hexadecimal segments, the last of which may be an IPv4 address.\<close>

fun inet6_tokens :: "string list \<Rightarrow> int list option" where
  "inet6_tokens [] = Some []"
| "inet6_tokens [t] =
     (case v4_octets t of
        Some os \<Rightarrow> Some (octet_groups os)
      | None \<Rightarrow> if v6_segment t then Some [parse_base 16 t] else None)"
| "inet6_tokens (t # u # ts) =
     (if v6_segment t
      then map_option (\<lambda>gs. parse_base 16 t # gs) (inet6_tokens (u # ts)) else None)"

definition inet6_head :: "string \<Rightarrow> int list option" where
  "inet6_head s =
     (if list_all v6_segment (tokens s)
      then Some (map (\<lambda>t. parse_base 16 t) (tokens s)) else None)"

text \<open>
  The eight groups of an IPv6 address: all written out, or with one \<open>"::"\<close> that stands for
  at least one zero group. This is the address form of the regular expression of
  \<open>net.isIPv6\<close>, whose alternatives enumerate how many segments stand before the \<open>"::"\<close>.
\<close>

definition inet6 :: "string \<Rightarrow> int list option" where
  "inet6 s =
     (case split_double s of
        None \<Rightarrow>
          (case inet6_tokens (split_on COLON s) of
             Some gs \<Rightarrow> if length gs = 8 then Some gs else None
           | None \<Rightarrow> None)
      | Some (h, t) \<Rightarrow>
          (case (inet6_head h, inet6_tokens (tokens t)) of
             (Some hs, Some ts) \<Rightarrow>
               if length hs + length ts \<le> 7
               then Some (hs @ replicate (8 - length hs - length ts) 0 @ ts) else None
           | _ \<Rightarrow> None))"

definition zone_char :: "char \<Rightarrow> bool" where
  "zone_char c = (is_digit c \<or> is_lower c \<or> is_upper c \<or> c \<in> {CHR ''-'', DOT, COLON})"

definition before_zone :: "string \<Rightarrow> string" where
  "before_zone s = takeWhile (\<lambda>c. c \<noteq> CHR ''%'') s"

definition isIPv6 :: "string \<Rightarrow> bool" where
  "isIPv6 s =
     (inet6 (before_zone s) \<noteq> None \<and>
      (case dropWhile (\<lambda>c. c \<noteq> CHR ''%'') s of
         [] \<Rightarrow> True | _ # z \<Rightarrow> z \<noteq> [] \<and> list_all zone_char z))"

definition isIP :: "string \<Rightarrow> ip_family option" where
  "isIP s = (if isIpv4 s then Some Ipv4 else if isIPv6 s then Some Ipv6 else None)"

section \<open>\<open>BlockList\<close>\<close>

definition mapped :: "int \<Rightarrow> int" where
  "mapped v4 = 0xffff * 2 ^ 32 + v4"

fun address_value :: "ip_family \<Rightarrow> string \<Rightarrow> int option" where
  "address_value Ipv4 s = map_option (\<lambda>os. mapped (value_of 256 os)) (v4_octets s)"
| "address_value Ipv6 s = map_option (value_of 65536) (inet6 s)"

record subnet =
  sn_network :: int
  sn_prefix :: nat

definition in_network :: "int \<Rightarrow> subnet \<Rightarrow> bool" where
  "in_network a n =
     (a div 2 ^ (128 - sn_prefix n) = sn_network n div 2 ^ (128 - sn_prefix n))"

text \<open>
  \<open>addSubnet\<close> throws for a network that is no address of the family and for a prefix that is no
  integer of the family's range; \<open>check\<close> throws for a text that is no address of the family.
\<close>

fun family_bits :: "ip_family \<Rightarrow> int" where
  "family_bits Ipv4 = 32"
| "family_bits Ipv6 = 128"

definition addSubnet :: "string \<Rightarrow> jsnum \<Rightarrow> ip_family \<Rightarrow> subnet option" where
  "addSubnet network bits f =
     (case address_value f network of
        None \<Rightarrow> None
      | Some a \<Rightarrow>
          if isInteger bits \<and> 0 \<le> to_int bits \<and> to_int bits \<le> family_bits f
          then Some \<lparr> sn_network = a, sn_prefix = nat (128 - family_bits f + to_int bits) \<rparr>
          else None)"

definition block_check :: "subnet list \<Rightarrow> string \<Rightarrow> ip_family \<Rightarrow> bool option" where
  "block_check subnets address f =
     map_option (\<lambda>a. list_ex (in_network a) subnets) (address_value f address)"

section \<open>Lemmas on addresses\<close>

lemma parse_base_bound:
  "list_all hex_char s \<Longrightarrow> 0 \<le> parse_base 16 s \<and> parse_base 16 s < 16 ^ length s"
proof (induction s rule: rev_induct)
  case Nil
  then show ?case by (simp add: parse_base_def)
next
  case (snoc c s)
  then have "hex_val c < 16" by (auto simp: hex_val_def hex_char_def is_digit_def)
  with snoc show ?case by (simp add: parse_base_def)
qed

lemma v6_segment_bound: "v6_segment s \<Longrightarrow> 0 \<le> parse_base 16 s \<and> parse_base 16 s < 65536"
proof -
  assume s: "v6_segment s"
  then have b: "0 \<le> parse_base 16 s \<and> parse_base 16 s < 16 ^ length s"
    by (intro parse_base_bound) (simp add: v6_segment_def)
  have "(16::int) ^ length s \<le> 16 ^ 4" using s by (intro power_increasing) (auto simp: v6_segment_def)
  with b show ?thesis by simp
qed

definition group_ok :: "int \<Rightarrow> bool" where
  "group_ok g \<longleftrightarrow> 0 \<le> g \<and> g < 65536"

definition octet_ok :: "int \<Rightarrow> bool" where
  "octet_ok v \<longleftrightarrow> 0 \<le> v \<and> v < 256"

lemma v4_octets_Some:
  assumes "v4_octets s = Some os"
  shows "length os = 4" and "list_all octet_ok os"
proof -
  have os: "os = map (\<lambda>p. int (parse_dec p)) (split_on DOT s)" and ip: "isIpv4 s"
    using assms by (auto simp: v4_octets_def split: if_splits)
  show "length os = 4" using ip by (simp add: os isIpv4_def Let_def)
  have "octet_ok (int (parse_dec p))" if "ipv4_part p" for p
    using that by (simp add: ipv4_part_def octet_ok_def)
  then show "list_all octet_ok os" using ip by (simp add: os isIpv4_def Let_def list_all_iff)
qed

lemma length_4E: "length xs = 4 \<Longrightarrow> (\<And>a b c d. xs = [a, b, c, d] \<Longrightarrow> P) \<Longrightarrow> P"
  by (cases xs; cases "tl xs"; cases "tl (tl xs)"; cases "tl (tl (tl xs))") auto

lemma v4_octetsE:
  assumes "v4_octets s = Some os"
  obtains a b c d where "os = [a, b, c, d]" "octet_ok a" "octet_ok b" "octet_ok c" "octet_ok d"
  using v4_octets_Some [OF assms] by (elim length_4E) auto

lemma inet6_tokens_groups: "inet6_tokens ts = Some gs \<Longrightarrow> list_all group_ok gs"
proof (induction ts arbitrary: gs rule: inet6_tokens.induct)
  case 1
  then show ?case by simp
next
  case (2 t)
  then show ?case
    by (auto simp: group_ok_def octet_ok_def v6_segment_bound split: option.splits if_splits
        elim!: v4_octetsE)
next
  case (3 t u ts)
  then show ?case by (auto simp: group_ok_def v6_segment_bound split: if_splits)
qed

lemma inet6_head_groups: "inet6_head s = Some gs \<Longrightarrow> list_all group_ok gs"
  by (auto simp: inet6_head_def list_all_iff group_ok_def v6_segment_bound split: if_splits)

lemma inet6_Some:
  assumes "inet6 s = Some gs"
  shows "length gs = 8" and "list_all group_ok gs"
proof -
  have r: "list_all group_ok (replicate n 0)" for n
    by (simp add: list_all_iff group_ok_def)
  show "length gs = 8" "list_all group_ok gs"
    using assms r
    by (auto simp: inet6_def dest: inet6_tokens_groups inet6_head_groups
        split: option.splits prod.splits if_splits)
qed

lemma length_8E:
  assumes "length xs = 8"
  obtains a b c d e f g h where "xs = [a, b, c, d, e, f, g, h]"
proof -
  have "length (take 4 xs) = 4" "length (drop 4 xs) = 4" using assms by simp_all
  then show thesis
    using that append_take_drop_id [of 4 xs] by (elim length_4E) (metis append.simps)
qed

section \<open>Prefixes\<close>

lemma value_of_Nil [simp]: "value_of b [] = 0"
  by (simp add: value_of_def)

lemma value_of_snoc: "value_of b (ds @ [d]) = b * value_of b ds + d"
  by (simp add: value_of_def)

lemma value_of_append:
  "value_of b (xs @ ys) = value_of b xs * b ^ length ys + value_of b ys"
  by (induction ys rule: rev_induct)
    (simp_all add: value_of_snoc algebra_simps flip: append_assoc)

lemma value_of_bounds:
  "0 < b \<Longrightarrow> list_all (\<lambda>d. 0 \<le> d \<and> d < b) ds \<Longrightarrow>
   0 \<le> value_of b ds \<and> value_of b ds < b ^ length ds"
proof (induction ds rule: rev_induct)
  case Nil
  then show ?case by simp
next
  case (snoc d ds)
  then have v: "0 \<le> value_of b ds" "value_of b ds + 1 \<le> b ^ length ds" and d: "0 \<le> d" "d < b"
    by auto
  have "b * value_of b ds + d < b * (value_of b ds + 1)" using d by (simp add: algebra_simps)
  also have "\<dots> \<le> b * b ^ length ds" using v snoc.prems(1) by (intro mult_left_mono) auto
  finally show ?case using v d snoc.prems(1) by (simp add: value_of_snoc)
qed

lemma div_digits:
  fixes b :: int
  assumes "0 \<le> r" and "r < b"
  shows "(b * q + r) div b = q"
  using assms by simp

lemma digit_eq_iff:
  fixes b :: int
  assumes "0 \<le> x" "x < b" "0 \<le> y" "y < b"
  shows "b * p + x = b * q + y \<longleftrightarrow> p = q \<and> x = y"
  using div_digits [OF assms(1,2), of p] div_digits [OF assms(3,4), of q] by auto

lemma value_of_div:
  assumes "0 < b" and "list_all (\<lambda>d. 0 \<le> d \<and> d < b) ys"
  shows "value_of b (xs @ ys) div b ^ length ys = value_of b xs"
  using value_of_bounds [OF assms] div_digits [of "value_of b ys" "b ^ length ys" "value_of b xs"]
  by (simp add: value_of_append mult.commute)

lemma value_of_inj:
  assumes "0 < b" and "length xs = length ys"
    and "list_all (\<lambda>d. 0 \<le> d \<and> d < b) xs" and "list_all (\<lambda>d. 0 \<le> d \<and> d < b) ys"
  shows "value_of b xs = value_of b ys \<longleftrightarrow> xs = ys"
  using assms(2-4)
proof (induction xs arbitrary: ys rule: rev_induct)
  case Nil
  then show ?case by simp
next
  case (snoc x xs)
  then obtain y zs where ys: "ys = zs @ [y]" by (cases ys rule: rev_cases) auto
  then show ?case using snoc digit_eq_iff [of x b y] by (simp add: value_of_snoc)
qed

text \<open>
  A prefix of \<open>16 * k + r\<close> bits compares the first \<open>k\<close> groups and the high \<open>r\<close> bits of
  the next one.
\<close>

lemma in_network_groups:
  assumes gs: "length gs = 8" "list_all group_ok gs" and ns: "length ns = 8" "list_all group_ok ns"
    and p: "p = 16 * k + r" "k < 8" "r < 16"
  shows "in_network (value_of 65536 gs) \<lparr> sn_network = value_of 65536 ns, sn_prefix = p \<rparr> \<longleftrightarrow>
     take k gs = take k ns \<and> (gs ! k) div 2 ^ (16 - r) = (ns ! k) div 2 ^ (16 - r)"
proof -
  have e: "(2::int) ^ (128 - p) = 65536 ^ (7 - k) * 2 ^ (16 - r)"
  proof -
    have "128 - p = 16 * (7 - k) + (16 - r)" using p by auto
    then have "(2::int) ^ (128 - p) = (2 ^ 16) ^ (7 - k) * 2 ^ (16 - r)"
      by (metis power_add power_mult)
    then show ?thesis by simp
  qed
  have r: "(2::int) ^ r * 2 ^ (16 - r) = 65536"
  proof -
    have "(2::int) ^ r * 2 ^ (16 - r) = 2 ^ (r + (16 - r))" by (simp only: power_add)
    then show ?thesis using p by simp
  qed
  have digits: "list_all (\<lambda>d. 0 \<le> d \<and> d < 2 ^ r) [x div 2 ^ (16 - r)]" if "group_ok x" for x :: int
  proof -
    have "x div 2 ^ (16 - r) * 2 ^ (16 - r) \<le> x"
      using div_mult_mod_eq [of x "2 ^ (16 - r)"] pos_mod_sign [of "2 ^ (16 - r)" x]
        zero_less_power [of "2::int" "16 - r"] by linarith
    also have "\<dots> < 2 ^ r * 2 ^ (16 - r)" using that r by (simp add: group_ok_def)
    finally have "x div 2 ^ (16 - r) < 2 ^ r" by simp
    then show ?thesis using that by (simp add: group_ok_def pos_imp_zdiv_nonneg_iff)
  qed
  have split: "value_of 65536 xs div 2 ^ (128 - p) =
      2 ^ r * value_of 65536 (take k xs) + (xs ! k) div 2 ^ (16 - r)"
    if xs: "length xs = 8" "list_all group_ok xs" for xs
  proof -
    have c: "xs = (take k xs @ [xs ! k]) @ drop (Suc k) xs"
      using xs p by (simp add: id_take_nth_drop)
    have ok: "list_all (\<lambda>d. 0 \<le> d \<and> d < 65536) (drop (Suc k) xs)"
      using xs(2) by (auto simp: list_all_iff group_ok_def dest: in_set_dropD)
    have "length (drop (Suc k) xs) = 7 - k" using xs p by simp
    then have "value_of 65536 xs div 65536 ^ (7 - k) = value_of 65536 (take k xs @ [xs ! k])"
      using value_of_div [OF _ ok, of "take k xs @ [xs ! k]"] c by simp
    moreover have "(65536 * v + g) div 2 ^ (16 - r) = 2 ^ r * v + g div 2 ^ (16 - r)" for v g :: int
    proof -
      have "65536 * v = (2 ^ r * v) * 2 ^ (16 - r)" unfolding r [symmetric] by (simp only: ac_simps)
      then have "65536 * v + g = g + (2 ^ r * v) * 2 ^ (16 - r)" by simp
      then show ?thesis by (metis add.commute div_mult_self1 power_not_zero zero_neq_numeral)
    qed
    ultimately show ?thesis by (simp add: e zdiv_zmult2_eq value_of_snoc)
  qed
  have ok: "group_ok (xs ! k)" "list_all (\<lambda>d. 0 \<le> d \<and> d < 65536) (take k xs)"
    if "length xs = 8" "list_all group_ok xs" for xs
    using that p by (auto simp: list_all_iff group_ok_def dest: in_set_takeD)
  show ?thesis
    using digits [OF ok(1) [OF gs]] digits [OF ok(1) [OF ns]] gs(1) ns(1)
      value_of_inj [OF _ _ ok(2) [OF gs] ok(2) [OF ns]]
    by (simp add: in_network_def split [OF gs] split [OF ns] digit_eq_iff)
qed

end
