(* ===== verification/Url_Safety.thy ===== *)
theory Url_Safety
  imports Ip_Address
begin

text \<open>
  The guard of every fetch of a user-supplied URL (\<open>url-safety.ts\<close>): the list of refused
  ranges and the check of one address, the pre-flight of a URL, the lookup the socket uses, and
  the fetch that follows redirects. \<open>new URL(text)\<close> and \<open>new URL(text, base)\<close>, the resolver and
  the peer that answers a request are fields of the environment; a peer and a resolver are asked
  once per hop, so they are indexed by it.
\<close>

unbundle bit_operations_syntax

section \<open>Refused ranges\<close>

record blocked_rule =
  rule_family :: ip_family
  cidr :: string
  rule_note :: string

definition v4_rule :: "string \<Rightarrow> string \<Rightarrow> blocked_rule" where
  "v4_rule c n = \<lparr> rule_family = Ipv4, cidr = c, rule_note = n \<rparr>"

definition v6_rule :: "string \<Rightarrow> string \<Rightarrow> blocked_rule" where
  "v6_rule c n = \<lparr> rule_family = Ipv6, cidr = c, rule_note = n \<rparr>"

definition BLOCKED_ADDRESS_RULES :: "blocked_rule list" where
  "BLOCKED_ADDRESS_RULES =
     [v4_rule ''0.0.0.0/8'' ''unspecified and this-network'',
      v4_rule ''10.0.0.0/8'' ''private'',
      v4_rule ''100.64.0.0/10''
        ''carrier-grade NAT, including the Alibaba metadata address 100.100.100.200'',
      v4_rule ''127.0.0.0/8'' ''loopback'',
      v4_rule ''169.254.0.0/16''
        ''link-local, including the cloud metadata address 169.254.169.254'',
      v4_rule ''172.16.0.0/12'' ''private'',
      v4_rule ''192.0.0.0/24'' ''IETF protocol assignments'',
      v4_rule ''192.0.2.0/24'' ''TEST-NET-1 documentation'',
      v4_rule ''192.88.99.0/24'' ''deprecated 6to4 relay anycast'',
      v4_rule ''192.168.0.0/16'' ''private'',
      v4_rule ''198.18.0.0/15'' ''benchmarking'',
      v4_rule ''198.51.100.0/24'' ''TEST-NET-2 documentation'',
      v4_rule ''203.0.113.0/24'' ''TEST-NET-3 documentation'',
      v4_rule ''224.0.0.0/4'' ''multicast'',
      v4_rule ''240.0.0.0/4'' ''reserved, including the broadcast address'',
      v6_rule ''::/96'' ''unspecified, loopback and deprecated IPv4-compatible'',
      v6_rule ''100::/64'' ''discard-only'',
      v6_rule ''2001::/32'' ''Teredo tunnelling'',
      v6_rule ''2001:20::/28'' ''ORCHIDv2 identifiers'',
      v6_rule ''2001:db8::/32'' ''documentation'',
      v6_rule ''3fff::/20'' ''documentation'',
      v6_rule ''fc00::/7'' ''unique-local, including the AWS IPv6 metadata address fd00:ec2::254'',
      v6_rule ''fe80::/10'' ''link-local'',
      v6_rule ''fec0::/10'' ''deprecated site-local'',
      v6_rule ''ff00::/8'' ''multicast'']"

text \<open>
  One rule of \<open>blockListFor\<close>. Without a slash \<open>indexOf\<close> is \<open>-1\<close>: the network loses its last
  character and the prefix is read from the whole text. The cache of compiled lists is not
  observable. \<open>None\<close> is the exception of \<open>addSubnet\<close>.
\<close>

definition compile_rule :: "blocked_rule \<Rightarrow> subnet option" where
  "compile_rule r =
     (let c = cidr r;
          network = (if CHR ''/'' \<in> set c then takeWhile (\<lambda>x. x \<noteq> CHR ''/'') c else butlast c);
          bits = js_Number (if CHR ''/'' \<in> set c then drop 1 (dropWhile (\<lambda>x. x \<noteq> CHR ''/'') c) else c) in
      addSubnet network bits (rule_family r))"

fun blockListFor :: "blocked_rule list \<Rightarrow> subnet list option" where
  "blockListFor [] = Some []"
| "blockListFor (r # rs) =
     (case compile_rule r of
        None \<Rightarrow> None
      | Some n \<Rightarrow> map_option (\<lambda>ns. n # ns) (blockListFor rs))"

definition normalizeAddress :: "string \<Rightarrow> (string \<times> ip_family) option" where
  "normalizeAddress address =
     (let bare = before_zone address in map_option (\<lambda>f. (bare, f)) (isIP bare))"

section \<open>The address an address carries\<close>

definition octet_ok_js :: "jsnum \<Rightarrow> bool" where
  "octet_ok_js v = (isInteger v \<and> \<not> to_int v < 0 \<and> \<not> to_int v > 255)"

definition shift_or :: "int \<Rightarrow> int \<Rightarrow> int" where
  "shift_or a b = push_bit 8 a OR b"

text \<open>
  The loop of \<open>parseGroups\<close>. \<open>v6_segment\<close> is the test \<open>/^[0-9a-f]{1,4}$/i\<close>, on which
  \<open>parseInt(token, 16)\<close> is \<open>parse_base 16\<close>.
\<close>

fun parse_tokens :: "string list \<Rightarrow> int list option" where
  "parse_tokens [] = Some []"
| "parse_tokens (token # rest) =
     (if DOT \<in> set token
      then if rest \<noteq> [] then None
           else case map js_Number (split_on DOT token) of
                  [a, b, c, d] \<Rightarrow>
                    if list_all octet_ok_js [a, b, c, d]
                    then Some [shift_or (to_int a) (to_int b), shift_or (to_int c) (to_int d)]
                    else None
                | _ \<Rightarrow> None
      else if \<not> v6_segment token then None
      else map_option (\<lambda>gs. parse_base 16 token # gs) (parse_tokens rest))"

definition parseGroups :: "string \<Rightarrow> int list option" where
  "parseGroups text = (if text = [] then Some [] else parse_tokens (split_on COLON text))"

definition ipv6Groups :: "string \<Rightarrow> int list option" where
  "ipv6Groups address =
     (let separator = split_double address;
          headText = (case separator of None \<Rightarrow> address | Some (h, _) \<Rightarrow> h);
          tailText = (case separator of None \<Rightarrow> [] | Some (_, t) \<Rightarrow> t) in
      case (parseGroups headText, parseGroups tailText) of
        (Some hs, Some ts) \<Rightarrow>
          if separator = None then (if length hs = 8 then Some hs else None)
          else let missing = 8 - int (length hs) - int (length ts) in
               if missing < 1 then None
               else Some (hs @ replicate (nat missing) 0 @ ts)
      | _ \<Rightarrow> None)"

definition group_at :: "int list \<Rightarrow> nat \<Rightarrow> int" where
  "group_at gs i = (if i < length gs then gs ! i else 0)"

definition isMapped :: "int list \<Rightarrow> bool" where
  "isMapped gs =
     (group_at gs 0 + group_at gs 1 + group_at gs 2 + group_at gs 3 + group_at gs 4 = 0 \<and>
      group_at gs 5 = 0xffff)"

definition isNat64 :: "int list \<Rightarrow> bool" where
  "isNat64 gs =
     (group_at gs 0 = 0x64 \<and> group_at gs 1 = 0xff9b \<and>
      group_at gs 2 + group_at gs 3 + group_at gs 4 + group_at gs 5 = 0)"

definition isNat64Local :: "int list \<Rightarrow> bool" where
  "isNat64Local gs = (group_at gs 0 = 0x64 \<and> group_at gs 1 = 0xff9b \<and> group_at gs 2 = 1)"

definition isSixToFour :: "int list \<Rightarrow> bool" where
  "isSixToFour gs = (group_at gs 0 = 0x2002)"

definition dotted :: "int \<Rightarrow> int \<Rightarrow> int \<Rightarrow> int \<Rightarrow> string" where
  "dotted a b c d =
     dec (nat a) @ DOT # dec (nat b) @ DOT # dec (nat c) @ DOT # dec (nat d)"

definition embeddedIpv4 :: "string \<Rightarrow> string option" where
  "embeddedIpv4 address =
     (case ipv6Groups address of
        None \<Rightarrow> None
      | Some gs \<Rightarrow>
          if \<not> isMapped gs \<and> \<not> isNat64 gs \<and> \<not> isNat64Local gs \<and> \<not> isSixToFour gs then None
          else let high = (if isSixToFour gs then group_at gs 1 else group_at gs 6);
                   low = (if isSixToFour gs then group_at gs 2 else group_at gs 7) in
               Some (dotted (drop_bit 8 high) (high AND 0xff) (drop_bit 8 low) (low AND 0xff)))"

definition isBlockedAddress :: "blocked_rule list \<Rightarrow> string \<Rightarrow> bool option" where
  "isBlockedAddress rules address =
     (case normalizeAddress address of
        None \<Rightarrow> Some True
      | Some (bare, f) \<Rightarrow>
          (case blockListFor rules of
             None \<Rightarrow> None
           | Some blockList \<Rightarrow>
               (case (if f = Ipv6 then embeddedIpv4 bare else None) of
                  None \<Rightarrow> block_check blockList bare f
                | Some embedded \<Rightarrow>
                    (case block_check blockList embedded Ipv4 of
                       None \<Rightarrow> None
                     | Some True \<Rightarrow> Some True
                     | Some False \<Rightarrow> block_check blockList bare f))))"

section \<open>The pre-flight of a URL\<close>

record url =
  url_href :: string
  url_protocol :: string
  url_username :: string
  url_password :: string
  url_hostname :: string
  url_origin :: string

datatype blocked_url_reason =
  Invalid_url | Insecure_scheme | Embedded_credentials | Blocked_address

datatype blocked_url_error = BlockedUrlError blocked_url_reason "string option" "string option"

datatype url_input = Url_text string | Url_object url

text \<open>\<open>hostname.startsWith("[") && hostname.endsWith("]") ? hostname.slice(1, -1) : hostname\<close>.\<close>

definition host_literal :: "string \<Rightarrow> string" where
  "host_literal h =
     (if take 1 h = ''['' \<and> h \<noteq> [] \<and> last h = CHR '']'' then butlast (tl h) else h)"

definition assertAllowedUrl ::
  "(string \<Rightarrow> url option) \<Rightarrow> url_input \<Rightarrow> blocked_url_error + url" where
  "assertAllowedUrl new_url input =
     (case new_url (case input of Url_text t \<Rightarrow> t | Url_object u \<Rightarrow> url_href u) of
        None \<Rightarrow> Inl (BlockedUrlError Invalid_url None None)
      | Some u \<Rightarrow>
          if url_protocol u \<noteq> ''https:''
          then Inl (BlockedUrlError Insecure_scheme (Some (url_hostname u)) None)
          else if url_username u \<noteq> [] \<or> url_password u \<noteq> []
          then Inl (BlockedUrlError Embedded_credentials (Some (url_hostname u)) None)
          else let literal = host_literal (url_hostname u) in
               if isIP literal \<noteq> None \<and> isBlockedAddress BLOCKED_ADDRESS_RULES literal = Some True
               then Inl (BlockedUrlError Blocked_address (Some (url_hostname u)) (Some literal))
               else Inr u)"

section \<open>The lookup of a connection\<close>

record resolved_address =
  ra_address :: string
  ra_family :: int

record lookup_options =
  lo_family :: "int option"
  lo_all :: bool

text \<open>
  What the callback is called with; \<open>Lookup_threw\<close> when compiling the rules throws, after
  which the callback is not called.
\<close>

datatype lookup_result =
    Lookup_refused blocked_url_error
  | Lookup_failed string
  | Lookup_all "resolved_address list"
  | Lookup_one string int
  | Lookup_threw

fun find_blocked :: "blocked_rule list \<Rightarrow> resolved_address list \<Rightarrow> resolved_address option option" where
  "find_blocked rules [] = Some None"
| "find_blocked rules (a # as) =
     (case isBlockedAddress rules (ra_address a) of
        None \<Rightarrow> None
      | Some True \<Rightarrow> Some (Some a)
      | Some False \<Rightarrow> find_blocked rules as)"

definition guarded_lookup ::
  "(string \<Rightarrow> int \<Rightarrow> string + resolved_address list) \<Rightarrow> blocked_rule list \<Rightarrow> string \<Rightarrow>
   lookup_options \<Rightarrow> lookup_result" where
  "guarded_lookup resolve rules hostname opts =
     (let family = (case lo_family opts of
                      Some f \<Rightarrow> if f = 4 \<or> f = 6 then f else 0 | None \<Rightarrow> 0) in
      case resolve hostname family of
        Inl cause \<Rightarrow> Lookup_failed cause
      | Inr answers \<Rightarrow>
          let resolved = map (\<lambda>a. a\<lparr> ra_family := if ra_family a = 6 then 6 else 4 \<rparr>) answers in
          (case find_blocked rules resolved of
             None \<Rightarrow> Lookup_threw
           | Some (Some b) \<Rightarrow>
               Lookup_refused (BlockedUrlError Blocked_address (Some hostname) (Some (ra_address b)))
           | Some None \<Rightarrow>
               (case resolved of
                  [] \<Rightarrow> Lookup_refused (BlockedUrlError Blocked_address (Some hostname) None)
                | first # _ \<Rightarrow>
                    if lo_all opts then Lookup_all resolved
                    else Lookup_one (ra_address first) (ra_family first))))"

section \<open>The small parser reads what the platform accepts\<close>

lemma shift_or_eq: "octet_ok b \<Longrightarrow> shift_or a b = 256 * a + b"
proof -
  assume b: "octet_ok b"
  then have t: "take_bit 8 b = b" by (simp add: octet_ok_def take_bit_int_eq_self_iff)
  have "push_bit 8 a AND b = 0"
    by (rule bit_eqI, subst t [symmetric]) (auto simp: bit_simps)
  then have "shift_or a b = push_bit 8 a + b"
    by (simp add: shift_or_def disjunctive_add_eq_or)
  then show ?thesis by (simp add: push_bit_eq_mult)
qed

lemma is_digit_not_space: "is_digit c \<Longrightarrow> \<not> is_space c"
  by (auto simp: is_digit_def is_space_def)

lemma js_Number_digits:
  assumes "is_digits s"
  shows "js_Number s = Fin (of_nat (parse_dec s))"
proof -
  have d: "c \<in> set s \<Longrightarrow> is_digit c" for c using assms by (simp add: is_digits_def list_all_iff)
  have ne: "is_digit c \<Longrightarrow> c \<noteq> CHR ''e'' \<and> c \<noteq> CHR ''E'' \<and> c \<noteq> DOT \<and> c \<noteq> CHR ''x'' \<and>
      c \<noteq> CHR ''o'' \<and> c \<noteq> CHR ''b'' \<and> c \<noteq> CHR ''-'' \<and> c \<noteq> CHR ''+'' \<and> c \<noteq> CHR ''I''" for c
    by (auto simp: is_digit_def code_unit_def)
  have trim: "trim s = s" using d by (intro trim_no_space) (auto dest: is_digit_not_space)
  have pre: "prefixed_integer s = None"
    by (use d ne lower_char_fixed in
        \<open>cases s; cases "tl s"; auto simp: prefixed_integer_def Let_def toLowerCase_def\<close>)
  have "take 1 s \<noteq> ''-''" "take 1 s \<noteq> ''+''" "s \<noteq> ''Infinity''"
    using d ne by (cases s; auto)+
  moreover have "unsigned_decimal s = Some (of_nat (parse_dec s))"
  proof -
    have e: "takeWhile (\<lambda>c. \<not> (c = CHR ''e'' \<or> c = CHR ''E'')) s = s"
      "dropWhile (\<lambda>c. \<not> (c = CHR ''e'' \<or> c = CHR ''E'')) s = []"
      "takeWhile (\<lambda>c. c \<noteq> DOT) s = s" "dropWhile (\<lambda>c. c \<noteq> DOT) s = []"
      using d ne by (auto simp: takeWhile_eq_all_conv dropWhile_eq_Nil_conv)
    show ?thesis using assms
      unfolding unsigned_decimal_def Let_def e by (simp add: exponent_of_def scale10_def)
  qed
  ultimately have "signed_decimal s = Fin (of_nat (parse_dec s))"
    by (simp add: signed_decimal_def)
  then show ?thesis using assms by (simp add: js_Number_def trim pre is_digits_def)
qed

lemma js_Number_octet:
  assumes "ipv4_part s"
  shows "octet_ok_js (js_Number s)" and "to_int (js_Number s) = int (parse_dec s)"
proof -
  have "js_Number s = Fin (of_int (int (parse_dec s)))"
    using assms js_Number_digits [of s] by (simp add: is_digits_def ipv4_part_def)
  then show "octet_ok_js (js_Number s)" "to_int (js_Number s) = int (parse_dec s)"
    using assms by (simp_all add: octet_ok_js_def ipv4_part_def)
qed

lemma v6_segment_no_dot: "v6_segment t \<Longrightarrow> DOT \<notin> set t"
  by (auto simp: v6_segment_def list_all_iff hex_char_def is_digit_def code_unit_def)

lemma isIpv4_dot: "isIpv4 t \<Longrightarrow> DOT \<in> set t"
proof (rule ccontr)
  assume "isIpv4 t" "DOT \<notin> set t"
  moreover from this have "split_on DOT t = [t]" by (intro split_by_none) auto
  ultimately show False by (simp add: isIpv4_def Let_def)
qed

lemma parse_tokens_inet6: "inet6_tokens ts = Some gs \<Longrightarrow> parse_tokens ts = Some gs"
proof (induction ts arbitrary: gs rule: inet6_tokens.induct)
  case 1
  then show ?case by simp
next
  case (2 t)
  show ?case
  proof (cases "isIpv4 t")
    case True
    then have "length (split_on DOT t) = 4" and parts: "list_all ipv4_part (split_on DOT t)"
      by (simp_all add: isIpv4_def Let_def)
    then obtain a b c d where s: "split_on DOT t = [a, b, c, d]" by (elim length_4E)
    have ok: "ipv4_part a" "ipv4_part b" "ipv4_part c" "ipv4_part d" using parts by (simp_all add: s)
    have "octet_ok (int (parse_dec b))" "octet_ok (int (parse_dec d))"
      using ok by (simp_all add: ipv4_part_def octet_ok_def)
    moreover have "gs = octet_groups (map (\<lambda>p. int (parse_dec p)) [a, b, c, d])"
      using 2 True by (simp add: v4_octets_def s)
    ultimately show ?thesis
      using isIpv4_dot [OF True] ok by (simp add: s js_Number_octet shift_or_eq)
  next
    case False
    with 2 show ?thesis by (auto simp: v4_octets_def v6_segment_no_dot split: if_splits)
  qed
next
  case (3 t u ts)
  then show ?case by (auto simp: v6_segment_no_dot split: if_splits)
qed

lemma parse_tokens_head:
  "list_all v6_segment ts \<Longrightarrow> parse_tokens ts = Some (map (\<lambda>t. parse_base 16 t) ts)"
  by (induction ts) (auto simp: v6_segment_no_dot)

lemma split_on_neq_empty: "s \<noteq> [] \<Longrightarrow> inet6_tokens (split_on COLON s) = inet6_tokens (tokens s)"
  by (simp add: tokens_def)

theorem ipv6Groups_inet6: "inet6 s = Some gs \<Longrightarrow> ipv6Groups s = Some gs"
proof -
  assume i: "inet6 s = Some gs"
  show ?thesis
  proof (cases "split_double s")
    case None
    with i have g: "inet6_tokens (split_on COLON s) = Some gs" "length gs = 8"
      by (auto simp: inet6_def split: option.splits if_splits)
    then have "s \<noteq> []" by (auto simp: v4_octets_def isIpv4_def v6_segment_def)
    with g None show ?thesis
      by (simp add: ipv6Groups_def parseGroups_def parse_tokens_inet6)
  next
    case (Some ht)
    then obtain h t where ht: "split_double s = Some (h, t)" by (cases ht) auto
    with i obtain hs ts where g: "inet6_head h = Some hs" "inet6_tokens (tokens t) = Some ts"
        "length hs + length ts \<le> 7" "gs = hs @ replicate (8 - length hs - length ts) 0 @ ts"
      by (auto simp: inet6_def split: option.splits if_splits)
    have "parseGroups h = Some hs"
      using g(1) by (auto simp: inet6_head_def parseGroups_def tokens_def parse_tokens_head
          split: if_splits)
    moreover have "parseGroups t = Some ts"
      using g(2) by (auto simp: parseGroups_def tokens_def parse_tokens_inet6 split: if_splits)
    moreover have "nat (8 - int (length hs) - int (length ts)) = 8 - length hs - length ts"
      using g(3) by arith
    ultimately show ?thesis using ht g(3,4) by (simp add: ipv6Groups_def Let_def)
  qed
qed

section \<open>What the rules refuse\<close>

text \<open>
  The refused addresses in terms of octets and groups, written down independently of the CIDR
  texts: special-purpose IPv4 ranges, special-purpose IPv6 ranges, and every IPv6 form that
  carries an IPv4 address in one of the former.
\<close>

definition private_v4 :: "int \<Rightarrow> int \<Rightarrow> int \<Rightarrow> bool" where
  "private_v4 a b c \<longleftrightarrow>
     a = 0 \<or> a = 10 \<or> a = 127 \<or> 224 \<le> a \<or>
     (a = 100 \<and> 64 \<le> b \<and> b \<le> 127) \<or> (a = 169 \<and> b = 254) \<or> (a = 172 \<and> 16 \<le> b \<and> b \<le> 31) \<or>
     (a = 192 \<and> b = 168) \<or> (a = 192 \<and> b = 0 \<and> (c = 0 \<or> c = 2)) \<or> (a = 192 \<and> b = 88 \<and> c = 99) \<or>
     (a = 198 \<and> (b = 18 \<or> b = 19)) \<or> (a = 198 \<and> b = 51 \<and> c = 100) \<or> (a = 203 \<and> b = 0 \<and> c = 113)"

fun private_v6 :: "int list \<Rightarrow> bool" where
  "private_v6 [g1, g2, g3, g4, g5, g6, g7, g8] \<longleftrightarrow>
     (g1 = 0 \<and> g2 = 0 \<and> g3 = 0 \<and> g4 = 0 \<and> g5 = 0 \<and> g6 = 0) \<or>
     (g1 = 0x100 \<and> g2 = 0 \<and> g3 = 0 \<and> g4 = 0) \<or>
     (g1 = 0x2001 \<and> (g2 = 0 \<or> (0x20 \<le> g2 \<and> g2 \<le> 0x2f) \<or> g2 = 0xdb8)) \<or>
     (g1 = 0x3fff \<and> g2 \<le> 0xfff) \<or>
     (0xfc00 \<le> g1 \<and> g1 \<le> 0xfdff) \<or> 0xfe80 \<le> g1"
| "private_v6 _ \<longleftrightarrow> True"

fun carried_v4 :: "int list \<Rightarrow> (int \<times> int) option" where
  "carried_v4 [g1, g2, g3, g4, g5, g6, g7, g8] =
     (if g1 = 0x2002 then Some (g2, g3)
      else if [g1, g2, g3, g4, g5, g6] = [0, 0, 0, 0, 0, 0xffff] then Some (g7, g8)
      else if [g1, g2, g3, g4, g5, g6] = [0x64, 0xff9b, 0, 0, 0, 0] then Some (g7, g8)
      else if [g1, g2, g3] = [0x64, 0xff9b, 1] then Some (g7, g8)
      else None)"
| "carried_v4 _ = None"

definition refused_v6 :: "int list \<Rightarrow> bool" where
  "refused_v6 gs \<longleftrightarrow>
     private_v6 gs \<or>
     (case carried_v4 gs of
        None \<Rightarrow> False | Some (h, l) \<Rightarrow> private_v4 (h div 256) (h mod 256) (l div 256))"

definition refused_text :: "string \<Rightarrow> bool" where
  "refused_text s =
     (case v4_octets (before_zone s) of
        Some os \<Rightarrow> private_v4 (os ! 0) (os ! 1) (os ! 2)
      | None \<Rightarrow> (case inet6 (before_zone s) of Some gs \<Rightarrow> refused_v6 gs | None \<Rightarrow> True))"

text \<open>The compiled list: the groups of each network and the length of its prefix.\<close>

definition v4_networks :: "(int list \<times> nat) list" where
  "v4_networks =
     [([0, 0, 0, 0, 0, 0xffff, 0, 0], 104), ([0, 0, 0, 0, 0, 0xffff, 0x0a00, 0], 104),
      ([0, 0, 0, 0, 0, 0xffff, 0x6440, 0], 106), ([0, 0, 0, 0, 0, 0xffff, 0x7f00, 0], 104),
      ([0, 0, 0, 0, 0, 0xffff, 0xa9fe, 0], 112), ([0, 0, 0, 0, 0, 0xffff, 0xac10, 0], 108),
      ([0, 0, 0, 0, 0, 0xffff, 0xc000, 0], 120), ([0, 0, 0, 0, 0, 0xffff, 0xc000, 0x200], 120),
      ([0, 0, 0, 0, 0, 0xffff, 0xc058, 0x6300], 120), ([0, 0, 0, 0, 0, 0xffff, 0xc0a8, 0], 112),
      ([0, 0, 0, 0, 0, 0xffff, 0xc612, 0], 111), ([0, 0, 0, 0, 0, 0xffff, 0xc633, 0x6400], 120),
      ([0, 0, 0, 0, 0, 0xffff, 0xcb00, 0x7100], 120), ([0, 0, 0, 0, 0, 0xffff, 0xe000, 0], 100),
      ([0, 0, 0, 0, 0, 0xffff, 0xf000, 0], 100)]"

definition v6_networks :: "(int list \<times> nat) list" where
  "v6_networks =
     [([0, 0, 0, 0, 0, 0, 0, 0], 96), ([0x100, 0, 0, 0, 0, 0, 0, 0], 64),
      ([0x2001, 0, 0, 0, 0, 0, 0, 0], 32), ([0x2001, 0x20, 0, 0, 0, 0, 0, 0], 28),
      ([0x2001, 0xdb8, 0, 0, 0, 0, 0, 0], 32), ([0x3fff, 0, 0, 0, 0, 0, 0, 0], 20),
      ([0xfc00, 0, 0, 0, 0, 0, 0, 0], 7), ([0xfe80, 0, 0, 0, 0, 0, 0, 0], 10),
      ([0xfec0, 0, 0, 0, 0, 0, 0, 0], 10), ([0xff00, 0, 0, 0, 0, 0, 0, 0], 8)]"

definition network_of :: "int list \<times> nat \<Rightarrow> subnet" where
  "network_of n = \<lparr> sn_network = value_of 65536 (fst n), sn_prefix = snd n \<rparr>"

lemmas text_simps =
  isIpv4_def ipv4_part_def is_digit_def code_unit_def parse_dec_def digit_val_def dec.simps
  digit_char_def char_of_def bit_0 inet6_head_def tokens_def v6_segment_def hex_char_def
  parse_base_def hex_val_def

lemma v4_networks_text:
  shows "v4_octets ''0.0.0.0'' = Some [0, 0, 0, 0]"
    "v4_octets ''10.0.0.0'' = Some [10, 0, 0, 0]"
    "v4_octets ''100.64.0.0'' = Some [100, 64, 0, 0]"
    "v4_octets ''127.0.0.0'' = Some [127, 0, 0, 0]"
    "v4_octets ''169.254.0.0'' = Some [169, 254, 0, 0]"
    "v4_octets ''172.16.0.0'' = Some [172, 16, 0, 0]"
    "v4_octets ''192.0.0.0'' = Some [192, 0, 0, 0]"
    "v4_octets ''192.0.2.0'' = Some [192, 0, 2, 0]"
    "v4_octets ''192.88.99.0'' = Some [192, 88, 99, 0]"
    "v4_octets ''192.168.0.0'' = Some [192, 168, 0, 0]"
    "v4_octets ''198.18.0.0'' = Some [198, 18, 0, 0]"
    "v4_octets ''198.51.100.0'' = Some [198, 51, 100, 0]"
    "v4_octets ''203.0.113.0'' = Some [203, 0, 113, 0]"
    "v4_octets ''224.0.0.0'' = Some [224, 0, 0, 0]"
    "v4_octets ''240.0.0.0'' = Some [240, 0, 0, 0]"
  by (simp_all add: v4_octets_def text_simps)

lemma v6_networks_text:
  shows "inet6 ''::'' = Some [0, 0, 0, 0, 0, 0, 0, 0]"
    "inet6 ''100::'' = Some [256, 0, 0, 0, 0, 0, 0, 0]"
    "inet6 ''2001::'' = Some [8193, 0, 0, 0, 0, 0, 0, 0]"
    "inet6 ''2001:20::'' = Some [8193, 32, 0, 0, 0, 0, 0, 0]"
    "inet6 ''2001:db8::'' = Some [8193, 3512, 0, 0, 0, 0, 0, 0]"
    "inet6 ''3fff::'' = Some [16383, 0, 0, 0, 0, 0, 0, 0]"
    "inet6 ''fc00::'' = Some [64512, 0, 0, 0, 0, 0, 0, 0]"
    "inet6 ''fe80::'' = Some [65152, 0, 0, 0, 0, 0, 0, 0]"
    "inet6 ''fec0::'' = Some [65216, 0, 0, 0, 0, 0, 0, 0]"
    "inet6 ''ff00::'' = Some [65280, 0, 0, 0, 0, 0, 0, 0]"
  by (simp_all add: inet6_def v4_octets_def text_simps numeral_eq_Suc)

lemma compiled_rules:
  "map compile_rule BLOCKED_ADDRESS_RULES = map (\<lambda>n. Some (network_of n)) (v4_networks @ v6_networks)"
  by (simp add: BLOCKED_ADDRESS_RULES_def v4_networks_def v6_networks_def compile_rule_def
      v4_rule_def v6_rule_def addSubnet_def v4_networks_text v6_networks_text js_Number_digits
      is_digits_def is_digit_def code_unit_def parse_dec_def digit_val_def mapped_def value_of_def
      network_of_def)

lemma blockListFor_map:
  "map compile_rule rs = map (\<lambda>n. Some (f n)) ns \<Longrightarrow> blockListFor rs = Some (map f ns)"
  by (induction rs arbitrary: ns) auto

lemma blockListFor_rules:
  "blockListFor BLOCKED_ADDRESS_RULES = Some (map network_of (v4_networks @ v6_networks))"
  by (rule blockListFor_map [OF compiled_rules])

lemma in_network_of:
  assumes "length gs = 8" "list_all group_ok gs" "length ns = 8" "list_all group_ok ns" "p < 128"
  shows "in_network (value_of 65536 gs) (network_of (ns, p)) \<longleftrightarrow>
     take (p div 16) gs = take (p div 16) ns \<and>
     (gs ! (p div 16)) div 2 ^ (16 - p mod 16) = (ns ! (p div 16)) div 2 ^ (16 - p mod 16)"
  unfolding network_of_def fst_conv snd_conv
  using assms by (intro in_network_groups) auto

lemma networks_ok:
  "list_all (\<lambda>(ns, p). length ns = 8 \<and> list_all group_ok ns \<and> p < 128) (v4_networks @ v6_networks)"
  by (simp add: v4_networks_def v6_networks_def group_ok_def)

lemma list_ex_networks:
  assumes "length gs = 8" "list_all group_ok gs" "set nets \<subseteq> set (v4_networks @ v6_networks)"
  shows "list_ex (in_network (value_of 65536 gs)) (map network_of nets) \<longleftrightarrow>
     list_ex (\<lambda>(ns, p). take (p div 16) gs = take (p div 16) ns \<and>
        (gs ! (p div 16)) div 2 ^ (16 - p mod 16) = (ns ! (p div 16)) div 2 ^ (16 - p mod 16)) nets"
proof -
  have "in_network (value_of 65536 gs) (network_of n) \<longleftrightarrow>
      (case n of (ns, p) \<Rightarrow> take (p div 16) gs = take (p div 16) ns \<and>
        (gs ! (p div 16)) div 2 ^ (16 - p mod 16) = (ns ! (p div 16)) div 2 ^ (16 - p mod 16))"
    if "n \<in> set nets" for n
  proof -
    have "n \<in> set (v4_networks @ v6_networks)" using that assms(3) by blast
    then have "case n of (ns, p) \<Rightarrow> length ns = 8 \<and> list_all group_ok ns \<and> p < 128"
      using networks_ok by (simp only: list_all_iff)
    then show ?thesis using assms(1,2) by (cases n) (simp add: in_network_of)
  qed
  then show ?thesis by (simp add: list_ex_iff)
qed

lemma mapped_value:
  "mapped (value_of 256 [a, b, c, d]) =
   value_of 65536 [0, 0, 0, 0, 0, 0xffff, 256 * a + b, 256 * c + d]"
  by (simp add: mapped_def value_of_def)

lemma octets_group_ok: "octet_ok a \<Longrightarrow> octet_ok b \<Longrightarrow> group_ok (256 * a + b)"
  by (simp add: octet_ok_def group_ok_def)

lemma octet_prefix:
  assumes "octet_ok b"
  shows "(256 * a + b) div 4096 = a div 16" "(256 * a + b) div 256 = a"
    "(256 * a + b) div 64 = 4 * a + b div 64" "(256 * a + b) div 16 = 16 * a + b div 16"
    "(256 * a + b) div 2 = 128 * a + b div 2"
proof -
  have k: "(m * q + b) div m = q + b div m" if "0 < m" for m q :: int
    using that by simp
  show d: "(256 * a + b) div 256 = a" using assms by (simp add: octet_ok_def)
  have "(256 * a + b) div 4096 = (256 * a + b) div 256 div 16" by (simp flip: zdiv_zmult2_eq)
  then show "(256 * a + b) div 4096 = a div 16" by (simp only: d)
  show "(256 * a + b) div 64 = 4 * a + b div 64" using k [of 64 "4 * a"] by simp
  show "(256 * a + b) div 16 = 16 * a + b div 16" using k [of 16 "16 * a"] by simp
  show "(256 * a + b) div 2 = 128 * a + b div 2" using k [of 2 "128 * a"] by simp
qed

lemma octet_pairs:
  assumes "0 \<le> a" "a < 256" "0 \<le> b" "b < (256::int)"
  shows "4 * a + b div 64 = 401 \<longleftrightarrow> a = 100 \<and> 64 \<le> b \<and> b \<le> 127"
    and "16 * a + b div 16 = 2753 \<longleftrightarrow> a = 172 \<and> 16 \<le> b \<and> b \<le> 31"
    and "128 * a + b div 2 = 25353 \<longleftrightarrow> a = 198 \<and> (b = 18 \<or> b = 19)"
    and "a div 16 = 14 \<or> a div 16 = 15 \<longleftrightarrow> 224 \<le> a"
    and "256 * a + b = 43518 \<longleftrightarrow> a = 169 \<and> b = 254"
    and "256 * a + b = 49152 \<longleftrightarrow> a = 192 \<and> b = 0"
    and "256 * a + b = 49240 \<longleftrightarrow> a = 192 \<and> b = 88"
    and "256 * a + b = 49320 \<longleftrightarrow> a = 192 \<and> b = 168"
    and "256 * a + b = 50739 \<longleftrightarrow> a = 198 \<and> b = 51"
    and "256 * a + b = 51968 \<longleftrightarrow> a = 203 \<and> b = 0"
    and "b div 256 = 0" and "(256 * a + b) div 65536 = 0"
proof -
  have "b div 64 = 1 \<longleftrightarrow> 64 \<le> b \<and> b \<le> 127" "0 \<le> b div 64 \<and> b div 64 < 4" using assms by auto
  then show "4 * a + b div 64 = 401 \<longleftrightarrow> a = 100 \<and> 64 \<le> b \<and> b \<le> 127"
    using digit_eq_iff [of "b div 64" 4 1 a 100] by simp
  have "b div 16 = 1 \<longleftrightarrow> 16 \<le> b \<and> b \<le> 31" "0 \<le> b div 16 \<and> b div 16 < 16" using assms by auto
  then show "16 * a + b div 16 = 2753 \<longleftrightarrow> a = 172 \<and> 16 \<le> b \<and> b \<le> 31"
    using digit_eq_iff [of "b div 16" 16 1 a 172] by simp
  have "b div 2 = 9 \<longleftrightarrow> b = 18 \<or> b = 19" "0 \<le> b div 2 \<and> b div 2 < 128" using assms by auto
  then show "128 * a + b div 2 = 25353 \<longleftrightarrow> a = 198 \<and> (b = 18 \<or> b = 19)"
    using digit_eq_iff [of "b div 2" 128 9 a 198] by simp
  show "a div 16 = 14 \<or> a div 16 = 15 \<longleftrightarrow> 224 \<le> a" "b div 256 = 0" "(256 * a + b) div 65536 = 0"
    using assms by auto
  show "256 * a + b = 43518 \<longleftrightarrow> a = 169 \<and> b = 254" "256 * a + b = 49152 \<longleftrightarrow> a = 192 \<and> b = 0"
    "256 * a + b = 49240 \<longleftrightarrow> a = 192 \<and> b = 88" "256 * a + b = 49320 \<longleftrightarrow> a = 192 \<and> b = 168"
    "256 * a + b = 50739 \<longleftrightarrow> a = 198 \<and> b = 51" "256 * a + b = 51968 \<longleftrightarrow> a = 203 \<and> b = 0"
    using assms digit_eq_iff [of b 256 254 a 169] digit_eq_iff [of b 256 0 a 192]
      digit_eq_iff [of b 256 88 a 192] digit_eq_iff [of b 256 168 a 192]
      digit_eq_iff [of b 256 51 a 198] digit_eq_iff [of b 256 0 a 203] by simp_all
qed

lemma v4_networks_private:
  assumes "octet_ok a" "octet_ok b" "octet_ok c" "octet_ok d"
  shows "list_ex (in_network (mapped (value_of 256 [a, b, c, d]))) (map network_of v4_networks) \<longleftrightarrow>
     private_v4 a b c"
proof -
  let ?gs = "[0, 0, 0, 0, 0, 0xffff, 256 * a + b, 256 * c + d]"
  have gs: "length ?gs = 8" "list_all group_ok ?gs"
    using assms by (simp_all add: octets_group_ok) (simp_all add: group_ok_def)
  have ok: "0 \<le> a" "a < 256" "0 \<le> b" "b < 256" "0 \<le> c" "c < 256" "0 \<le> d" "d < 256"
    using assms by (simp_all add: octet_ok_def)
  show ?thesis
    unfolding mapped_value
    apply (subst list_ex_networks [OF gs])
     apply simp
    apply (simp add: v4_networks_def octet_prefix(1,3-5) octet_pairs [OF ok(1-4)]
        octet_pairs(11,12) [OF ok(5-8)] assms)
    apply (simp only: private_v4_def conj_disj_distribL disj_ac)
    done
qed

lemma group_ranges:
  assumes "0 \<le> g" "g < (65536::int)"
  shows "g div 16 = 2 \<longleftrightarrow> 0x20 \<le> g \<and> g \<le> 0x2f" and "g div 4096 = 0 \<longleftrightarrow> g \<le> 0xfff"
    and "g div 512 = 126 \<longleftrightarrow> 0xfc00 \<le> g \<and> g \<le> 0xfdff"
    and "g div 64 = 1018 \<or> g div 64 = 1019 \<or> g div 256 = 255 \<longleftrightarrow> 0xfe80 \<le> g"
    and "g div 65536 = 0"
  using assms by auto

lemma v6_networks_private:
  assumes "list_all group_ok gs" "length gs = 8"
  shows "list_ex (in_network (value_of 65536 gs)) (map network_of v6_networks) \<longleftrightarrow> private_v6 gs"
proof -
  obtain g1 g2 g3 g4 g5 g6 g7 g8 where gs: "gs = [g1, g2, g3, g4, g5, g6, g7, g8]"
    using assms(2) by (elim length_8E)
  have ok: "0 \<le> g1" "g1 < 65536" "0 \<le> g2" "g2 < 65536" "0 \<le> g3" "g3 < 65536"
    "0 \<le> g5" "g5 < 65536" "0 \<le> g7" "g7 < 65536"
    using assms(1) by (simp_all add: gs group_ok_def)
  show ?thesis
    apply (subst list_ex_networks [OF assms(2,1)])
     apply simp
    apply (simp add: v6_networks_def gs group_ranges [OF ok(1,2)] group_ranges(1,2) [OF ok(3,4)]
        group_ranges(5) [OF ok(5,6)] group_ranges(5) [OF ok(7,8)] group_ranges(5) [OF ok(9,10)])
    apply (simp only: conj_disj_distribL disj_ac)
    done
qed

text \<open>An IPv4 range only holds mapped addresses.\<close>

lemma v4_networks_mapped:
  assumes "list_all group_ok gs" "length gs = 8"
    and "list_ex (in_network (value_of 65536 gs)) (map network_of v4_networks)"
  shows "take 6 gs = [0, 0, 0, 0, 0, 0xffff]"
proof -
  obtain g1 g2 g3 g4 g5 g6 g7 g8 where gs: "gs = [g1, g2, g3, g4, g5, g6, g7, g8]"
    using assms(2) by (elim length_8E)
  show ?thesis
    using assms(3) by (subst (asm) list_ex_networks [OF assms(2,1)]) (auto simp: v4_networks_def gs)
qed

lemma v4_octets_dotted:
  assumes "octet_ok a" "octet_ok b" "octet_ok c" "octet_ok d"
  shows "v4_octets (dotted a b c d) = Some [a, b, c, d]"
proof -
  have nodot: "split_on DOT (dec n) = [dec n]" for n
    by (rule split_by_none) (auto dest!: dec_digits simp: is_digit_def code_unit_def)
  have split: "split_on DOT (dotted a b c d) = [dec (nat a), dec (nat b), dec (nat c), dec (nat d)]"
    by (simp add: dotted_def split_by_append_sep nodot)
  have "ipv4_part (dec (nat x))" if "octet_ok x" for x
  proof -
    have n: "nat x < 256" using that by (simp add: octet_ok_def nat_less_iff)
    have "length (dec n) \<le> 3" if "n < 256" for n
      using that by (subst dec.simps, subst dec.simps, subst dec.simps) auto
    then show ?thesis using n by (auto simp: ipv4_part_def list_all_iff dest: dec_digits)
  qed
  then show ?thesis
    using assms by (simp add: v4_octets_def isIpv4_def Let_def split octet_ok_def)
qed

lemma byte_split:
  "group_ok g \<Longrightarrow> octet_ok (g div 256) \<and> octet_ok (g mod 256)"
  by (auto simp: group_ok_def octet_ok_def)

lemma embeddedIpv4_carried:
  assumes "inet6 s = Some gs"
  shows "embeddedIpv4 s =
     map_option (\<lambda>(h, l). dotted (h div 256) (h mod 256) (l div 256) (l mod 256)) (carried_v4 gs)"
proof -
  obtain g1 g2 g3 g4 g5 g6 g7 g8 where gs: "gs = [g1, g2, g3, g4, g5, g6, g7, g8]"
    using inet6_Some(1) [OF assms] by (elim length_8E)
  have ok: "0 \<le> g1" "0 \<le> g2" "0 \<le> g3" "0 \<le> g4" "0 \<le> g5" "0 \<le> g6"
    using inet6_Some(2) [OF assms] by (simp_all add: gs group_ok_def)
  have m: "isMapped gs \<longleftrightarrow> [g1, g2, g3, g4, g5, g6] = [0, 0, 0, 0, 0, 0xffff]"
    using ok by (auto simp: isMapped_def gs group_at_def)
  have n: "isNat64 gs \<longleftrightarrow> [g1, g2, g3, g4, g5, g6] = [0x64, 0xff9b, 0, 0, 0, 0]"
    using ok by (auto simp: isNat64_def gs group_at_def)
  have bits: "drop_bit 8 x = x div 256" "x AND 255 = x mod 256" for x :: int
    using take_bit_eq_mask [of 8 x]
    by (simp_all add: drop_bit_eq_div take_bit_eq_mod mask_eq_exp_minus_1)
  show ?thesis
    using m n
    by (simp add: embeddedIpv4_def ipv6Groups_inet6 [OF assms] isNat64Local_def isSixToFour_def
        gs group_at_def Let_def bits)
qed

lemma block_check_v4:
  assumes "v4_octets s = Some os"
  shows "block_check (map network_of (v4_networks @ v6_networks)) s Ipv4 =
     Some (private_v4 (os ! 0) (os ! 1) (os ! 2))"
proof -
  obtain a b c d where os: "os = [a, b, c, d]" and ok: "octet_ok a" "octet_ok b" "octet_ok c" "octet_ok d"
    using assms by (elim v4_octetsE)
  let ?gs = "[0, 0, 0, 0, 0, 0xffff, 256 * a + b, 256 * c + d]"
  have "list_all group_ok ?gs" using ok by (simp_all add: octets_group_ok) (simp_all add: group_ok_def)
  then have "\<not> list_ex (in_network (mapped (value_of 256 os))) (map network_of v6_networks)"
    using v6_networks_private [of ?gs] by (simp add: os mapped_value)
  then show ?thesis
    using assms v4_networks_private [OF ok] by (simp add: block_check_def os)
qed

lemma block_check_v6:
  assumes "inet6 s = Some gs"
  shows "block_check (map network_of (v4_networks @ v6_networks)) s Ipv6 =
     Some (list_ex (in_network (value_of 65536 gs)) (map network_of v4_networks) \<or> private_v6 gs)"
  using assms v6_networks_private [OF inet6_Some(2,1) [OF assms]]
  by (simp add: block_check_def)

text \<open>A mapped address in an IPv4 range carries an address of that range.\<close>

lemma v4_networks_carried:
  assumes "list_all group_ok gs" "length gs = 8"
    and "list_ex (in_network (value_of 65536 gs)) (map network_of v4_networks)"
  shows "refused_v6 gs"
proof -
  obtain h l where gs: "gs = [0, 0, 0, 0, 0, 0xffff, h, l]"
    using v4_networks_mapped [OF assms] assms(2) by (elim length_8E) auto
  have ok: "group_ok h" "group_ok l" using assms(1) by (simp_all add: gs)
  have "value_of 65536 gs = mapped (value_of 256 [h div 256, h mod 256, l div 256, l mod 256])"
    by (simp add: mapped_value gs)
  then have "private_v4 (h div 256) (h mod 256) (l div 256)"
    using assms(3) v4_networks_private byte_split ok by simp
  then show ?thesis by (simp add: refused_v6_def gs)
qed

lemma isBlockedAddress_refused:
  "isBlockedAddress BLOCKED_ADDRESS_RULES s = Some (refused_text s)"
proof (cases "v4_octets (before_zone s)")
  case (Some os)
  then have "isIpv4 (before_zone s)" by (auto simp: v4_octets_def split: if_splits)
  then show ?thesis
    using block_check_v4 [OF Some] Some
    by (simp add: isBlockedAddress_def normalizeAddress_def isIP_def blockListFor_rules refused_text_def
        del: map_append)
next
  case None
  then have n4: "\<not> isIpv4 (before_zone s)" by (auto simp: v4_octets_def split: if_splits)
  have zone: "before_zone (before_zone s) = before_zone s"
    "dropWhile (\<lambda>c. c \<noteq> CHR ''%'') (before_zone s) = []"
    by (auto simp: before_zone_def takeWhile_eq_all_conv dropWhile_eq_Nil_conv dest: set_takeWhileD)
  show ?thesis
  proof (cases "inet6 (before_zone s)")
    case v6: None
    then show ?thesis
      using None n4 by (simp add: isBlockedAddress_def normalizeAddress_def isIP_def isIPv6_def zone
          refused_text_def)
  next
    case v6: (Some gs)
    have norm: "normalizeAddress s = Some (before_zone s, Ipv6)"
      using v6 n4 by (simp add: normalizeAddress_def isIP_def isIPv6_def zone)
    note ok = inet6_Some [OF v6]
    show ?thesis
    proof (cases "carried_v4 gs")
      case c: None
      then have "\<not> list_ex (in_network (value_of 65536 gs)) (map network_of v4_networks)"
        using v4_networks_mapped [OF ok(2,1)] ok(1) by (elim length_8E) auto
      then show ?thesis
        using norm c None v6 block_check_v6 [OF v6] embeddedIpv4_carried [OF v6]
        by (simp add: isBlockedAddress_def blockListFor_rules refused_text_def refused_v6_def
            del: map_append)
    next
      case c: (Some hl)
      then obtain h l where hl: "carried_v4 gs = Some (h, l)" by (cases hl) auto
      then have "group_ok h" "group_ok l"
        using ok by (auto elim!: length_8E split: if_splits)
      then have o: "v4_octets (dotted (h div 256) (h mod 256) (l div 256) (l mod 256)) =
          Some [h div 256, h mod 256, l div 256, l mod 256]"
        using v4_octets_dotted byte_split by blast
      show ?thesis
        using norm hl None v6 block_check_v6 [OF v6] embeddedIpv4_carried [OF v6] block_check_v4 [OF o]
          v4_networks_carried [OF ok(2,1)]
        by (auto simp: isBlockedAddress_def blockListFor_rules refused_text_def refused_v6_def
            simp del: map_append split: bool.splits)
    qed
  qed
qed

end
