(* ===== verification/Safe_Fetch.thy ===== *)
theory Safe_Fetch
  imports Url_Safety "HOL-Library.Char_ord" "HOL-Library.List_Lexorder"
begin

text \<open>
  The fetch of \<open>url-safety.ts\<close>: the headers a request carries, the response made of a message, and
  the loop over redirects with its trace of requests. A \<open>Headers\<close> object is the list of its
  pairs, names in lower case; values are taken to be valid header values. The socket of
  \<open>node:net\<close> dials a literal address directly and asks the guarded lookup for any other host.
\<close>

section \<open>Headers\<close>

type_synonym headers = "(string \<times> string) list"

definition new_Headers :: "headers \<Rightarrow> headers" where
  "new_Headers h = map (\<lambda>(n, v). (toLowerCase n, v)) h"

definition headers_append :: "string \<Rightarrow> string \<Rightarrow> headers \<Rightarrow> headers" where
  "headers_append n v h = h @ [(toLowerCase n, v)]"

definition headers_delete :: "string \<Rightarrow> headers \<Rightarrow> headers" where
  "headers_delete n h = filter (\<lambda>(m, _). m \<noteq> toLowerCase n) h"

definition headers_set :: "string \<Rightarrow> string \<Rightarrow> headers \<Rightarrow> headers" where
  "headers_set n v h = headers_append n v (headers_delete n h)"

definition header_values :: "string \<Rightarrow> headers \<Rightarrow> string list" where
  "header_values n h = map snd (filter (\<lambda>(m, _). m = toLowerCase n) h)"

definition headers_get :: "string \<Rightarrow> headers \<Rightarrow> string option" where
  "headers_get n h =
     (case header_values n h of [] \<Rightarrow> None | vs \<Rightarrow> Some (join '', '' vs))"

text \<open>
  Iterating a \<open>Headers\<close> object: names in order, the values of one name combined, but for
  \<open>set-cookie\<close>.
\<close>

definition headers_entries :: "headers \<Rightarrow> headers" where
  "headers_entries h =
     concat (map (\<lambda>n. if n = ''set-cookie'' then map (\<lambda>v. (n, v)) (header_values n h)
                      else [(n, join '', '' (header_values n h))])
        (sort (remdups (map fst h))))"

definition record_set :: "string \<Rightarrow> string \<Rightarrow> headers \<Rightarrow> headers" where
  "record_set n v r = upsert fst (n, v) r"

definition nodeHeaders :: "headers option \<Rightarrow> headers option" where
  "nodeHeaders h =
     map_option (\<lambda>hs. fold (\<lambda>(n, v) r. record_set n v r) (headers_entries (new_Headers hs)) []) h"

definition sensitive_names :: "string list" where
  "sensitive_names = [''authorization'', ''cookie'', ''proxy-authorization'']"

definition stripSensitiveHeaders :: "headers option \<Rightarrow> headers option" where
  "stripSensitiveHeaders h = map_option (\<lambda>hs. fold headers_delete sensitive_names (new_Headers hs)) h"

definition stripBodyHeaders :: "headers option \<Rightarrow> headers option" where
  "stripBodyHeaders h =
     map_option (\<lambda>hs. fold headers_delete [''content-length'', ''content-type'', ''transfer-encoding'']
        (new_Headers hs)) h"

section \<open>Responses\<close>

datatype header_value = Header_one string | Header_many "string list" | Header_undefined

record incoming =
  in_headers :: "(string \<times> header_value) list"
  in_status :: "int option"
  in_message :: "string option"

record response =
  resp_status :: int
  resp_text :: string
  resp_headers :: headers
  resp_body :: bool
  resp_url :: string
  resp_redirected :: bool

fun copy_header :: "string \<times> header_value \<Rightarrow> headers \<Rightarrow> headers" where
  "copy_header (n, Header_undefined) h = h"
| "copy_header (n, Header_many vs) h = fold (headers_append n) vs h"
| "copy_header (n, Header_one v) h = headers_set n v h"

text \<open>
  \<open>new Response(body, init)\<close> throws for a status outside 200 to 599 and for a body with a null
  body status; that is \<open>None\<close>.
\<close>

definition response_valid :: "bool \<Rightarrow> int \<Rightarrow> bool" where
  "response_valid body status =
     (200 \<le> status \<and> status \<le> 599 \<and> \<not> (body \<and> status \<in> {204, 205, 304}))"

definition toResponse :: "incoming \<Rightarrow> url \<Rightarrow> string \<Rightarrow> nat \<Rightarrow> response option" where
  "toResponse m u verb hops =
     (let hs = fold copy_header (in_headers m) [];
          status = (case in_status m of Some s \<Rightarrow> s | None \<Rightarrow> 500);
          hasBody = (verb \<noteq> ''HEAD'' \<and> status \<noteq> 204 \<and> status \<noteq> 304 \<and> status \<ge> 200) in
      if response_valid hasBody status
      then Some \<lparr> resp_status = status, resp_text = (case in_message m of Some t \<Rightarrow> t | None \<Rightarrow> []),
                  resp_headers = hs, resp_body = hasBody, resp_url = url_href u,
                  resp_redirected = (0 < hops) \<rparr>
      else None)"

section \<open>One request\<close>

datatype fetch_body = Body_text string | Body_bytes "int list" | Body_stream "int list"

datatype redirect_mode = Follow | Redirect_error | Manual

record fetch_init =
  init_method :: "string option"
  init_headers :: "headers option"
  init_body :: "fetch_body option"
  init_signal :: "nat option"
  init_redirect :: "redirect_mode option"

fun isReplayableBody :: "fetch_body \<Rightarrow> bool" where
  "isReplayableBody (Body_text _) = True"
| "isReplayableBody (Body_bytes _) = True"
| "isReplayableBody (Body_stream _) = False"

text \<open>A request on the wire: the hop, the target, the addresses the socket may dial, and the message.\<close>

record wire =
  w_target :: url
  w_dials :: "string list"
  w_method :: string
  w_headers :: "headers option"
  w_body :: "fetch_body option"

record fetch_env =
  new_url :: "string \<Rightarrow> url option"
  relative_url :: "string \<Rightarrow> url \<Rightarrow> url option"
  resolve_host :: "nat \<Rightarrow> string \<Rightarrow> int \<Rightarrow> string + resolved_address list"
  socket_lookup :: lookup_options
  rules_of :: "blocked_rule list"
  peer :: "nat \<Rightarrow> wire \<Rightarrow> string + incoming"

datatype fetch_error =
    Blocked_url blocked_url_error
  | Network_error string
  | Uncaught_exception
  | Streaming_redirect
  | Redirect_refused string
  | Too_many_redirects nat string
  | Invalid_redirect

text \<open>The addresses the connection may dial, or why there is none.\<close>

definition socket_dials :: "fetch_env \<Rightarrow> nat \<Rightarrow> string \<Rightarrow> fetch_error + string list" where
  "socket_dials E hop hostname =
     (let host = host_literal hostname in
      if isIP host \<noteq> None then Inr [host]
      else case guarded_lookup (resolve_host E hop) (rules_of E) host (socket_lookup E) of
             Lookup_refused e \<Rightarrow> Inl (Blocked_url e)
           | Lookup_failed cause \<Rightarrow> Inl (Network_error cause)
           | Lookup_all as \<Rightarrow> Inr (map ra_address as)
           | Lookup_one a _ \<Rightarrow> Inr [a]
           | Lookup_threw \<Rightarrow> Inl Uncaught_exception)"

definition method_of :: "fetch_init \<Rightarrow> string" where
  "method_of init = (case init_method init of Some m \<Rightarrow> m | None \<Rightarrow> ''GET'')"

text \<open>
  \<open>requestOnce\<close>: the response, or the error the promise rejects with. The response is built in the
  listener of the message, so an exception of \<open>toResponse\<close> there is uncaught.
\<close>

definition requestOnce ::
  "fetch_env \<Rightarrow> url \<Rightarrow> fetch_init \<Rightarrow> nat \<Rightarrow> wire list \<times> (fetch_error + response)" where
  "requestOnce E target init hops =
     (case socket_dials E hops (url_hostname target) of
        Inl e \<Rightarrow> ([], Inl e)
      | Inr dials \<Rightarrow>
          let w = \<lparr> w_target = target, w_dials = dials, w_method = method_of init,
                    w_headers = nodeHeaders (init_headers init), w_body = init_body init \<rparr> in
          ([w],
           case peer E hops w of
             Inl cause \<Rightarrow> Inl (Network_error cause)
           | Inr m \<Rightarrow>
               (case toResponse m target (method_of init) hops of
                  None \<Rightarrow> Inl Uncaught_exception | Some r \<Rightarrow> Inr r)))"

section \<open>Redirects\<close>

definition redirectStatuses :: "int list" where
  "redirectStatuses = [301, 302, 303, 307, 308]"

definition maxRedirects :: nat where
  "maxRedirects = 20"

definition ascii_upper :: "char \<Rightarrow> char" where
  "ascii_upper c = (if is_lower c then char_of (code_unit c - 32) else c)"

text \<open>\<open>method.toUpperCase() === "POST"\<close>: only a case variant of the letters maps to it.\<close>

definition dropsBodyOnRedirect :: "int \<Rightarrow> string \<Rightarrow> bool" where
  "dropsBodyOnRedirect status verb =
     (status = 303 \<or> ((status = 301 \<or> status = 302) \<and> map ascii_upper verb = ''POST''))"

definition redirectInit :: "fetch_init \<Rightarrow> int \<Rightarrow> url \<Rightarrow> url \<Rightarrow> fetch_init" where
  "redirectInit init status from_url to_url =
     (let verb = method_of init;
          dropBody = dropsBodyOnRedirect status verb;
          sameOrigin = (if url_origin from_url = url_origin to_url then init_headers init
                        else stripSensitiveHeaders (init_headers init));
          hs = (if dropBody then stripBodyHeaders sameOrigin else sameOrigin) in
      \<lparr> init_method = Some (if dropBody then ''GET'' else verb),
        init_headers = hs,
        init_body = (if dropBody then None else init_body init),
        init_signal = init_signal init,
        init_redirect = Some (case init_redirect init of Some m \<Rightarrow> m | None \<Rightarrow> Follow) \<rparr>)"

text \<open>
  What \<open>fetchWithRedirects\<close> does with a response: it returns, throws, or goes on with the next
  target.
\<close>

datatype redirect_step = Return_response response | Throw fetch_error | Next_hop url fetch_init

definition redirect_decision ::
  "fetch_env \<Rightarrow> nat \<Rightarrow> nat \<Rightarrow> url \<Rightarrow> fetch_init \<Rightarrow> response \<Rightarrow> redirect_step" where
  "redirect_decision E limit hops target init response =
     (case headers_get ''location'' (resp_headers response) of
        None \<Rightarrow> Return_response response
      | Some location \<Rightarrow>
          let mode = (case init_redirect init of Some m \<Rightarrow> m | None \<Rightarrow> Follow);
              streaming = (case init_body init of None \<Rightarrow> False | Some b \<Rightarrow> \<not> isReplayableBody b) in
          if resp_status response \<notin> set redirectStatuses then Return_response response
          else if mode = Manual then Return_response response
          else if mode = Follow \<and> streaming \<and>
                  \<not> dropsBodyOnRedirect (resp_status response) (method_of init)
          then Throw Streaming_redirect
          else if mode = Redirect_error then Throw (Redirect_refused (url_origin target))
          else if limit \<le> hops then Throw (Too_many_redirects limit (url_origin target))
          else case relative_url E location target of
                 None \<Rightarrow> Throw Invalid_redirect
               | Some u \<Rightarrow>
                   (case assertAllowedUrl (new_url E) (Url_object u) of
                      Inl e \<Rightarrow> Throw (Blocked_url e)
                    | Inr next_url \<Rightarrow>
                        Next_hop next_url (redirectInit init (resp_status response) target next_url)))"

lemma redirect_decision_hops:
  "redirect_decision E limit hops target init response = Next_hop u i \<Longrightarrow> hops < limit"
  by (auto simp: redirect_decision_def Let_def split: option.splits if_splits)

function fetchWithRedirects ::
  "fetch_env \<Rightarrow> nat \<Rightarrow> nat \<Rightarrow> url \<Rightarrow> fetch_init \<Rightarrow> wire list \<times> (fetch_error + response)" where
  "fetchWithRedirects E limit hops target init =
     (case requestOnce E target init hops of
        (ws, Inl e) \<Rightarrow> (ws, Inl e)
      | (ws, Inr response) \<Rightarrow>
          (case redirect_decision E limit hops target init response of
             Return_response r \<Rightarrow> (ws, Inr r)
           | Throw e \<Rightarrow> (ws, Inl e)
           | Next_hop next_url next_init \<Rightarrow>
               let (rest, result) = fetchWithRedirects E limit (Suc hops) next_url next_init in
               (ws @ rest, result)))"
  by pat_completeness auto

termination
  by (relation "measure (\<lambda>(E, limit, hops, target, init). limit - hops)")
    (auto dest: redirect_decision_hops)

declare fetchWithRedirects.simps [simp del]

definition safe_fetch ::
  "fetch_env \<Rightarrow> nat \<Rightarrow> url_input \<Rightarrow> fetch_init \<Rightarrow> wire list \<times> (fetch_error + response)" where
  "safe_fetch E limit input init =
     (case assertAllowedUrl (new_url E) input of
        Inl e \<Rightarrow> ([], Inl (Blocked_url e))
      | Inr target \<Rightarrow> fetchWithRedirects E limit 0 target init)"

section \<open>Every hop\<close>

lemmas redirect_decision_splits = option.splits if_splits sum.splits

lemma redirect_decision_Next:
  assumes "redirect_decision E limit hops target init response = Next_hop u i"
  shows "\<exists>v. assertAllowedUrl (new_url E) (Url_object v) = Inr u"
    and "i = redirectInit init (resp_status response) target u"
  using assms by (auto simp: redirect_decision_def Let_def split: redirect_decision_splits)

lemma fetch_requests:
  "length (fst (fetchWithRedirects E limit hops target init)) \<le> Suc (limit - hops)"
proof (induction E limit hops target init rule: fetchWithRedirects.induct)
  case (1 E limit hops target init)
  have one: "length (fst (requestOnce E target init hops)) \<le> 1"
    by (auto simp: requestOnce_def Let_def split: sum.splits)
  show ?case
  proof (cases "\<exists>ws r u i. requestOnce E target init hops = (ws, Inr r) \<and>
      redirect_decision E limit hops target init r = Next_hop u i")
    case True
    then obtain ws r u i where s: "requestOnce E target init hops = (ws, Inr r)"
        "redirect_decision E limit hops target init r = Next_hop u i" by blast
    have "length (fst (fetchWithRedirects E limit (Suc hops) u i)) \<le> Suc (limit - Suc hops)"
      using "1.IH" [OF s(1) [symmetric] refl s(2)] by simp
    moreover have "hops < limit" using redirect_decision_hops [OF s(2)] .
    ultimately show ?thesis
      using one s by (subst fetchWithRedirects.simps) (auto split: prod.splits)
  next
    case False
    then have "fst (fetchWithRedirects E limit hops target init) = fst (requestOnce E target init hops)"
      by (subst fetchWithRedirects.simps) (auto split: prod.splits sum.splits redirect_step.splits)
    then show ?thesis using one by simp
  qed
qed

text \<open>What every followed redirect keeps holds at every request.\<close>

lemma fetch_trace_invariant:
  assumes step: "\<And>hops target init r u i. P target init \<Longrightarrow>
      redirect_decision E limit hops target init r = Next_hop u i \<Longrightarrow> P u i"
    and base: "\<And>hops target init w. P target init \<Longrightarrow>
      w \<in> set (fst (requestOnce E target init hops)) \<Longrightarrow> Q w"
  shows "P target init \<Longrightarrow> w \<in> set (fst (fetchWithRedirects E limit hops target init)) \<Longrightarrow> Q w"
  using step base
proof (induction E limit hops target init rule: fetchWithRedirects.induct)
  case (1 E limit hops target init)
  obtain ws res where r: "requestOnce E target init hops = (ws, res)" by fastforce
  from "1.prems"(2) r consider (here) "w \<in> set ws"
    | (next_hop) resp u i where "res = Inr resp"
        "redirect_decision E limit hops target init resp = Next_hop u i"
        "w \<in> set (fst (fetchWithRedirects E limit (Suc hops) u i))"
    by (subst (asm) fetchWithRedirects.simps)
      (auto split: sum.splits redirect_step.splits prod.splits)
  then show ?case
  proof cases
    case here
    then have "w \<in> set (fst (requestOnce E target init hops))" by (simp add: r)
    with "1.prems"(1) show ?thesis by (rule "1.prems"(4))
  next
    case next_hop
    have "requestOnce E target init hops = (ws, Inr resp)" using r next_hop(1) by simp
    from "1.IH" [OF this [symmetric] refl next_hop(2) _ next_hop(3)] show ?thesis
      using "1.prems"(3) [OF "1.prems"(1) next_hop(2)] "1.prems"(3,4) by blast
  qed
qed

section \<open>Only public addresses are dialled\<close>

definition preflight :: "url \<Rightarrow> bool" where
  "preflight u \<longleftrightarrow>
     url_protocol u = ''https:'' \<and> url_username u = [] \<and> url_password u = [] \<and>
     (isIP (host_literal (url_hostname u)) \<noteq> None \<longrightarrow> \<not> refused_text (host_literal (url_hostname u)))"

lemma assertAllowedUrl_preflight: "assertAllowedUrl parse input = Inr u \<Longrightarrow> preflight u"
  by (auto simp: assertAllowedUrl_def preflight_def isBlockedAddress_refused Let_def
      split: option.splits if_splits)

lemma find_blocked_None:
  "find_blocked BLOCKED_ADDRESS_RULES as = Some None \<Longrightarrow> a \<in> set as \<Longrightarrow> \<not> refused_text (ra_address a)"
  by (induction as) (auto simp: isBlockedAddress_refused split: bool.splits)

text \<open>The addresses handed to the socket, all of which were searched for a blocked one.\<close>

fun lookup_addresses :: "lookup_result \<Rightarrow> string list" where
  "lookup_addresses (Lookup_all as) = map ra_address as"
| "lookup_addresses (Lookup_one a _) = [a]"
| "lookup_addresses _ = []"

lemma guarded_lookup_searched:
  assumes "x \<in> set (lookup_addresses (guarded_lookup resolve rules host opts))"
  shows "\<exists>as. find_blocked rules as = Some None \<and> x \<in> ra_address ` set as"
proof -
  define f where "f = (case lo_family opts of Some f \<Rightarrow> if f = 4 \<or> f = 6 then f else 0 | None \<Rightarrow> 0)"
  from assms obtain answers where "resolve host f = Inr answers"
    by (cases "resolve host f") (auto simp: guarded_lookup_def f_def [symmetric])
  then obtain rs where "guarded_lookup resolve rules host opts =
      (case find_blocked rules rs of
         None \<Rightarrow> Lookup_threw
       | Some (Some b) \<Rightarrow>
           Lookup_refused (BlockedUrlError Blocked_address (Some host) (Some (ra_address b)))
       | Some None \<Rightarrow>
           (case rs of
              [] \<Rightarrow> Lookup_refused (BlockedUrlError Blocked_address (Some host) None)
            | first # _ \<Rightarrow>
                if lo_all opts then Lookup_all rs
                else Lookup_one (ra_address first) (ra_family first)))"
    by (simp add: guarded_lookup_def f_def [symmetric] Let_def)
  then show ?thesis
    using assms by (cases rs; intro exI [of _ rs]) (auto split: option.splits if_splits)
qed

lemma guarded_lookup_allowed:
  "x \<in> set (lookup_addresses (guarded_lookup resolve BLOCKED_ADDRESS_RULES host opts)) \<Longrightarrow>
   \<not> refused_text x"
  using guarded_lookup_searched find_blocked_None by blast

lemma socket_dials_allowed:
  assumes "rules_of E = BLOCKED_ADDRESS_RULES" and "preflight u"
    and "socket_dials E hops (url_hostname u) = Inr ds" and "x \<in> set ds"
  shows "\<not> refused_text x"
proof (cases "isIP (host_literal (url_hostname u)) = None")
  case True
  then have "x \<in> set (lookup_addresses (guarded_lookup (resolve_host E hops) BLOCKED_ADDRESS_RULES
      (host_literal (url_hostname u)) (socket_lookup E)))"
    using assms by (auto simp: socket_dials_def Let_def split: lookup_result.splits)
  then show ?thesis by (rule guarded_lookup_allowed)
next
  case False
  then show ?thesis using assms by (auto simp: socket_dials_def preflight_def)
qed

lemma requestOnce_wire:
  assumes "w \<in> set (fst (requestOnce E target init hops))"
  shows "w_target w = target" and "w_headers w = nodeHeaders (init_headers init)"
    and "socket_dials E hops (url_hostname target) = Inr (w_dials w)"
    and "w_method w = method_of init" and "w_body w = init_body init"
  using assms by (auto simp: requestOnce_def Let_def split: sum.splits)

lemma fetch_dials_allowed:
  assumes "rules_of E = BLOCKED_ADDRESS_RULES" and "preflight target"
    and "w \<in> set (fst (fetchWithRedirects E limit hops target init))"
  shows "preflight (w_target w) \<and> list_all (\<lambda>x. \<not> refused_text x) (w_dials w)"
proof (rule fetch_trace_invariant [where P = "\<lambda>u i. preflight u", OF _ _ assms(2,3)])
  fix hops target init r u i
  assume "redirect_decision E limit hops target init r = Next_hop u i"
  then show "preflight u" using redirect_decision_Next(1) assertAllowedUrl_preflight by blast
next
  fix hops target init w
  assume "preflight target" and "w \<in> set (fst (requestOnce E target init hops))"
  then show "preflight (w_target w) \<and> list_all (\<lambda>x. \<not> refused_text x) (w_dials w)"
    using socket_dials_allowed [OF assms(1)] by (auto simp: requestOnce_wire list_all_iff dest: requestOnce_wire)
qed

section \<open>Credentials stay at their origin\<close>

lemma lower_char_idem [simp]: "lower_char (lower_char c) = lower_char c"
  by (auto simp: lower_char_def Let_def code_unit_def of_char_of)

lemma toLowerCase_idem [simp]: "toLowerCase (toLowerCase s) = toLowerCase s"
  by (simp add: toLowerCase_def)

lemma fold_headers_delete:
  "fold headers_delete ns h = filter (\<lambda>(m, _). m \<notin> toLowerCase ` set ns) h"
  by (induction ns arbitrary: h) (auto simp: headers_delete_def case_prod_beta intro!: filter_cong)

lemma record_set_names: "fst ` set (record_set n v r) = insert n (fst ` set r)"
proof -
  have "set (map fst (record_set n v r)) = insert n (fst ` set r)"
    unfolding record_set_def keys_upsert by auto
  then show ?thesis by simp
qed

lemma fold_record_names:
  "fst ` set (fold (\<lambda>(n, v). record_set n v) es r) = fst ` set es \<union> fst ` set r"
proof (induction es arbitrary: r)
  case Nil
  then show ?case by simp
next
  case (Cons e es)
  then show ?case by (simp add: case_prod_beta record_set_names)
qed

lemma headers_entries_names: "fst ` set (headers_entries h) \<subseteq> fst ` set h"
  by (force simp: headers_entries_def split: if_splits)

text \<open>One header, in any spelling; the headers of a hop carry it as long as the origin has not changed.\<close>

definition carries :: "string \<Rightarrow> headers option \<Rightarrow> bool" where
  "carries n h \<longleftrightarrow> (case h of None \<Rightarrow> False | Some hs \<Rightarrow> n \<in> (\<lambda>x. toLowerCase (fst x)) ` set hs)"

lemma new_Headers_names: "fst ` set (new_Headers hs) = (\<lambda>x. toLowerCase (fst x)) ` set hs"
  by (force simp: new_Headers_def)

lemma sensitive_lower: "n \<in> set sensitive_names \<Longrightarrow> toLowerCase n = n \<and> n \<noteq> ''set-cookie'' \<and>
    n \<notin> toLowerCase ` set [''content-length'', ''content-type'', ''transfer-encoding'']"
proof -
  have "list_all (\<lambda>n. toLowerCase n = n \<and> n \<noteq> ''set-cookie'' \<and>
      n \<notin> toLowerCase ` set [''content-length'', ''content-type'', ''transfer-encoding'']) sensitive_names"
    by code_simp
  then show "n \<in> set sensitive_names \<Longrightarrow> toLowerCase n = n \<and> n \<noteq> ''set-cookie'' \<and>
      n \<notin> toLowerCase ` set [''content-length'', ''content-type'', ''transfer-encoding'']"
    unfolding list_all_iff by blast
qed

lemma headers_entries_keep: "n \<in> fst ` set h \<Longrightarrow> n \<noteq> ''set-cookie'' \<Longrightarrow> n \<in> fst ` set (headers_entries h)"
proof -
  assume n: "n \<in> fst ` set h" "n \<noteq> ''set-cookie''"
  let ?f = "\<lambda>n. if n = ''set-cookie'' then map (\<lambda>v. (n, v)) (header_values n h) else [(n, join '', '' (header_values n h))]"
  have "(n, join '', '' (header_values n h)) \<in> set (?f n)" using n(2) by simp
  moreover have "n \<in> set (sort (remdups (map fst h)))" using n(1) by simp
  ultimately have "(n, join '', '' (header_values n h)) \<in> set (headers_entries h)"
    unfolding headers_entries_def set_concat set_map by blast
  then show ?thesis by (metis fst_conv imageI)
qed

lemma entries_lower: "m \<in> fst ` set (headers_entries (new_Headers hs)) \<Longrightarrow> toLowerCase m = m"
  using headers_entries_names [of "new_Headers hs"] by (auto simp: new_Headers_names)

lemma carries_nodeHeaders:
  assumes "n \<in> set sensitive_names"
  shows "carries n (nodeHeaders h) \<longleftrightarrow> carries n h"
proof (cases h)
  case (Some hs)
  let ?es = "headers_entries (new_Headers hs)"
  have names: "fst ` set (fold (\<lambda>(n, v). record_set n v) ?es []) = fst ` set ?es" by (simp add: fold_record_names)
  have "carries n (nodeHeaders h) \<longleftrightarrow> n \<in> toLowerCase ` fst ` set (fold (\<lambda>(n, v). record_set n v) ?es [])"
    by (simp add: Some carries_def nodeHeaders_def image_image)
  also have "\<dots> \<longleftrightarrow> n \<in> fst ` set ?es" unfolding names using entries_lower by (metis (no_types, lifting) image_iff)
  also have "\<dots> \<longleftrightarrow> n \<in> fst ` set (new_Headers hs)"
    using headers_entries_names headers_entries_keep sensitive_lower [OF assms] by blast
  finally show ?thesis by (simp add: Some carries_def new_Headers_names)
qed (simp add: carries_def nodeHeaders_def)

lemma carries_strip:
  assumes "n \<in> set sensitive_names"
  shows "\<not> carries n (stripSensitiveHeaders h)" and "carries n (stripBodyHeaders h) \<longleftrightarrow> carries n h"
proof -
  note low = sensitive_lower [OF assms]
  have del: "(\<lambda>x. toLowerCase (fst x)) ` set (fold headers_delete ns (new_Headers hs)) =
      (\<lambda>x. toLowerCase (fst x)) ` set hs - toLowerCase ` set ns" for ns hs
    by (force simp: fold_headers_delete new_Headers_def)
  have kept: "carries n (map_option (\<lambda>hs. fold headers_delete ns (new_Headers hs)) h) \<longleftrightarrow>
      carries n h \<and> n \<notin> toLowerCase ` set ns" for ns
    by (cases h) (simp_all add: carries_def del)
  have "n \<in> toLowerCase ` set sensitive_names" using assms low by (metis imageI)
  then show "\<not> carries n (stripSensitiveHeaders h)" by (simp only: stripSensitiveHeaders_def kept simp_thms)
  show "carries n (stripBodyHeaders h) \<longleftrightarrow> carries n h"
    unfolding stripBodyHeaders_def kept using low by blast
qed

lemma carries_redirectInit:
  "n \<in> set sensitive_names \<Longrightarrow> carries n (init_headers (redirectInit init status a b)) \<longleftrightarrow>
     url_origin a = url_origin b \<and> carries n (init_headers init)"
  by (auto simp: redirectInit_def Let_def carries_strip)

lemma fetch_credentials:
  assumes "n \<in> set sensitive_names" and "k < length (fst (fetchWithRedirects E limit hops target init))"
  shows "w_target (fst (fetchWithRedirects E limit hops target init) ! 0) = target \<and>
    (carries n (w_headers (fst (fetchWithRedirects E limit hops target init) ! k)) \<longleftrightarrow>
      carries n (init_headers init) \<and>
      (\<forall>j \<le> k. url_origin (w_target (fst (fetchWithRedirects E limit hops target init) ! j)) = url_origin target))"
  using assms(2)
proof (induction E limit hops target init arbitrary: k rule: fetchWithRedirects.induct)
  case (1 E limit hops target init)
  let ?f = "fst (fetchWithRedirects E limit hops target init)"
  obtain ws res where q: "requestOnce E target init hops = (ws, res)" by fastforce
  have "ws \<noteq> []"
    using "1.prems" q by (subst (asm) fetchWithRedirects.simps) (auto simp: requestOnce_def Let_def split: sum.splits prod.splits)
  then obtain w where ws: "ws = [w]" "w_target w = target" "w_headers w = nodeHeaders (init_headers init)"
    using q by (auto simp: requestOnce_def Let_def split: sum.splits)
  show ?case
  proof (cases "\<exists>r u i. res = Inr r \<and> redirect_decision E limit hops target init r = Next_hop u i")
    case False
    then have "?f = [w]" using q ws(1)
      by (subst fetchWithRedirects.simps) (auto split: sum.splits redirect_step.splits)
    then show ?thesis using "1.prems" ws carries_nodeHeaders [OF assms(1)] by simp
  next
    case True
    then obtain r u i where n: "res = Inr r" "redirect_decision E limit hops target init r = Next_hop u i" by blast
    let ?g = "fst (fetchWithRedirects E limit (Suc hops) u i)"
    have f: "?f = w # ?g" using q ws(1) n by (subst fetchWithRedirects.simps) (auto split: prod.splits)
    have i: "carries n (init_headers i) \<longleftrightarrow> url_origin target = url_origin u \<and> carries n (init_headers init)"
      using redirect_decision_Next(2) [OF n(2)] carries_redirectInit [OF assms(1)] by simp
    show ?thesis
    proof (cases k)
      case 0
      then show ?thesis using ws carries_nodeHeaders [OF assms(1)] by (simp add: f)
    next
      case (Suc m)
      then have m: "m < length ?g" using "1.prems" by (simp add: f)
      note ih = "1.IH" [OF q [symmetric] n(1) n(2) m]
      have split: "(\<forall>j \<le> k. url_origin (w_target (?f ! j)) = url_origin target) \<longleftrightarrow>
          (\<forall>j \<le> m. url_origin (w_target (?g ! j)) = url_origin target)"
        unfolding Suc f using ws(2) by (auto simp: nth_Cons split: nat.splits)
      show ?thesis
      proof (cases "url_origin u = url_origin target")
        case True
        then show ?thesis using ih i ws(2) unfolding split by (simp add: f Suc)
      next
        case False
        then have "\<not> (\<forall>j \<le> m. url_origin (w_target (?g ! j)) = url_origin target)" using ih by (metis le0)
        then show ?thesis using ih i ws(2) False unfolding split by (simp add: f Suc)
      qed
    qed
  qed
qed

end
