(* ===== verification/Fetch_Properties.thy ===== *)
theory Fetch_Properties
  imports Safe_Fetch
begin

text \<open>
  The properties of the URL guard: which addresses it refuses, what a fetch may dial, where
  credentials may go, and that a fetch ends. \<open>demo_env\<close> is a concrete environment for the
  witnesses: one host redirects to another.
\<close>

section \<open>A concrete environment\<close>

definition url_of :: "string \<Rightarrow> url" where
  "url_of host =
     \<lparr> url_href = ''https://'' @ host @ ''/'', url_protocol = ''https:'', url_username = [],
       url_password = [], url_hostname = host, url_origin = ''https://'' @ host \<rparr>"

definition demo_urls :: "url list" where
  "demo_urls = [url_of ''a.example'', url_of ''b.example'', url_of ''[fd00::1]'']"

definition demo_parse :: "string \<Rightarrow> url option" where
  "demo_parse t = find (\<lambda>u. url_href u = t) demo_urls"

fun demo_peer :: "nat \<Rightarrow> wire \<Rightarrow> string + incoming" where
  "demo_peer 0 w = Inr \<lparr> in_headers = [(''location'', Header_one ''https://b.example/'')],
                         in_status = Some 302, in_message = Some ''Found'' \<rparr>"
| "demo_peer (Suc 0) w = Inr \<lparr> in_headers = [], in_status = Some 200, in_message = Some ''OK'' \<rparr>"
| "demo_peer _ w = Inr \<lparr> in_headers = [], in_status = Some 205, in_message = None \<rparr>"

definition demo_env :: fetch_env where
  "demo_env =
     \<lparr> new_url = demo_parse, relative_url = (\<lambda>t _. demo_parse t),
       resolve_host = (\<lambda>_ _ _. Inr [\<lparr> ra_address = ''93.184.216.34'', ra_family = 4 \<rparr>,
                                    \<lparr> ra_address = ''2606:2800:21f::1'', ra_family = 6 \<rparr>]),
       socket_lookup = \<lparr> lo_family = None, lo_all = True \<rparr>,
       rules_of = BLOCKED_ADDRESS_RULES, peer = demo_peer \<rparr>"

definition demo_init :: fetch_init where
  "demo_init =
     \<lparr> init_method = Some ''POST'', init_headers = Some [(''Authorization'', ''Bearer t'')],
       init_body = Some (Body_text ''x''), init_signal = None, init_redirect = None \<rparr>"

abbreviation demo_fetch :: "wire list \<times> (fetch_error + response)" where
  "demo_fetch \<equiv> safe_fetch demo_env maxRedirects (Url_text ''https://a.example/'') demo_init"

abbreviation demo_dials :: "string list" where
  "demo_dials \<equiv> [''93.184.216.34'', ''2606:2800:21f::1'']"

lemma demo_hosts: "isIP ''a.example'' = None" "isIP ''b.example'' = None"
  by code_simp+

lemma demo_addresses:
  "isBlockedAddress BLOCKED_ADDRESS_RULES ''93.184.216.34'' = Some False"
  "isBlockedAddress BLOCKED_ADDRESS_RULES ''2606:2800:21f::1'' = Some False"
  unfolding isBlockedAddress_refused by code_simp+

lemma demo_socket:
  "socket_dials demo_env hop ''a.example'' = Inr demo_dials"
  "socket_dials demo_env hop ''b.example'' = Inr demo_dials"
  by (simp_all add: socket_dials_def host_literal_def demo_hosts guarded_lookup_def demo_env_def
      demo_addresses)

lemma demo_allowed:
  "assertAllowedUrl (new_url demo_env) (Url_text ''https://a.example/'') = Inr (url_of ''a.example'')"
  "assertAllowedUrl (new_url demo_env) (Url_object (url_of ''b.example'')) = Inr (url_of ''b.example'')"
  by (simp_all add: assertAllowedUrl_def demo_env_def demo_parse_def demo_urls_def url_of_def
      host_literal_def demo_hosts Let_def)

definition demo_next :: fetch_init where
  "demo_next = redirectInit demo_init 302 (url_of ''a.example'') (url_of ''b.example'')"

abbreviation demo_wire :: "string \<Rightarrow> fetch_init \<Rightarrow> wire" where
  "demo_wire host init \<equiv>
     \<lparr> w_target = url_of host, w_dials = demo_dials, w_method = method_of init,
       w_headers = nodeHeaders (init_headers init), w_body = init_body init \<rparr>"

lemma demo_relative:
  "relative_url demo_env ''https://b.example/'' u = Some (url_of ''b.example'')"
  by (simp add: demo_env_def demo_parse_def demo_urls_def url_of_def)

lemma demo_hostname [simp]: "url_hostname (url_of h) = h"
  by (simp add: url_of_def)

lemma demo_peer_env [simp]: "peer demo_env = demo_peer"
  by (simp add: demo_env_def)

lemma demo_first:
  "\<exists>r. requestOnce demo_env (url_of ''a.example'') demo_init 0 = ([demo_wire ''a.example'' demo_init], Inr r) \<and>
     resp_status r = 302 \<and> headers_get ''location'' (resp_headers r) = Some ''https://b.example/''"
  by (simp add: requestOnce_def demo_socket toResponse_def response_valid_def headers_set_def
      headers_append_def headers_delete_def headers_get_def header_values_def toLowerCase_def
      lower_char_def code_unit_def Let_def)

lemma demo_second:
  "\<exists>r. requestOnce demo_env (url_of ''b.example'') demo_next 1 = ([demo_wire ''b.example'' demo_next], Inr r) \<and>
     headers_get ''location'' (resp_headers r) = None"
  by (simp add: requestOnce_def demo_socket toResponse_def response_valid_def headers_get_def
      header_values_def Let_def)

lemma demo_trace: "fst demo_fetch = [demo_wire ''a.example'' demo_init, demo_wire ''b.example'' demo_next]"
proof -
  obtain r where r: "requestOnce demo_env (url_of ''a.example'') demo_init 0 =
      ([demo_wire ''a.example'' demo_init], Inr r)" "resp_status r = 302"
      "headers_get ''location'' (resp_headers r) = Some ''https://b.example/''"
    using demo_first by blast
  obtain r' where r': "requestOnce demo_env (url_of ''b.example'') demo_next 1 =
      ([demo_wire ''b.example'' demo_next], Inr r')"
      "headers_get ''location'' (resp_headers r') = None"
    using demo_second by blast
  have n: "redirect_decision demo_env 20 0 (url_of ''a.example'') demo_init r =
      Next_hop (url_of ''b.example'') demo_next"
    using r by (simp add: redirect_decision_def demo_init_def demo_allowed demo_relative
        redirectStatuses_def method_of_def demo_next_def)
  have "fst (fetchWithRedirects demo_env 20 1 (url_of ''b.example'') demo_next) =
      [demo_wire ''b.example'' demo_next]"
    using r' by (subst fetchWithRedirects.simps) (simp add: redirect_decision_def)
  then have "fst (fetchWithRedirects demo_env 20 0 (url_of ''a.example'') demo_init) =
      [demo_wire ''a.example'' demo_init, demo_wire ''b.example'' demo_next]"
    using r n by (subst fetchWithRedirects.simps) (auto split: prod.splits)
  then show ?thesis by (simp add: safe_fetch_def demo_allowed maxRedirects_def)
qed

lemma safe_fetch_trace:
  assumes "w \<in> set (fst (safe_fetch E limit input init))"
  obtains target where "assertAllowedUrl (new_url E) input = Inr target"
    and "w \<in> set (fst (fetchWithRedirects E limit 0 target init))"
  using assms by (auto simp: safe_fetch_def split: sum.splits)

section \<open>Properties\<close>

text \<open>
  C13: The address check refuses exactly the special-purpose IPv4 ranges (this-network, private,
  carrier-grade NAT, loopback, link-local, documentation, benchmarking, multicast, reserved), the
  special-purpose IPv6 ranges, every mapped, NAT64 or 6to4 address that carries one of those IPv4
  addresses, and every text that is no address; it never throws on the shipped rules.
\<close>

theorem blocked_addresses_exact:
  "isBlockedAddress BLOCKED_ADDRESS_RULES s = Some (refused_text s)"
  by (rule isBlockedAddress_refused)

text \<open>
  C12: Whatever URL a caller passes, whatever the resolver answers at each hop and wherever the
  peers redirect, every request of a fetch goes over https to a URL without credentials, and every
  address its socket may dial is one the address check clears.
\<close>

theorem fetch_reaches_public_only:
  assumes "rules_of E = BLOCKED_ADDRESS_RULES"
    and "w \<in> set (fst (safe_fetch E limit input init))"
  shows "url_protocol (w_target w) = ''https:'' \<and> url_username (w_target w) = [] \<and>
     url_password (w_target w) = [] \<and>
     list_all (\<lambda>x. isBlockedAddress BLOCKED_ADDRESS_RULES x = Some False) (w_dials w)"
proof -
  obtain target where t: "assertAllowedUrl (new_url E) input = Inr target"
      "w \<in> set (fst (fetchWithRedirects E limit 0 target init))"
    using safe_fetch_trace [OF assms(2)] .
  have "preflight (w_target w) \<and> list_all (\<lambda>x. \<not> refused_text x) (w_dials w)"
    using fetch_dials_allowed [OF assms(1) assertAllowedUrl_preflight [OF t(1)] t(2)] .
  then show ?thesis by (simp add: preflight_def isBlockedAddress_refused)
qed

theorem fetch_reaches_public_only_witness:
  "w_dials (hd (fst demo_fetch)) = demo_dials \<and>
   list_all (\<lambda>x. isBlockedAddress BLOCKED_ADDRESS_RULES x = Some False) (w_dials (hd (fst demo_fetch)))"
proof -
  have "hd (fst demo_fetch) \<in> set (fst demo_fetch)" by (simp add: demo_trace)
  moreover have "rules_of demo_env = BLOCKED_ADDRESS_RULES" by (simp add: demo_env_def)
  ultimately have "list_all (\<lambda>x. isBlockedAddress BLOCKED_ADDRESS_RULES x = Some False)
      (w_dials (hd (fst demo_fetch)))"
    using fetch_reaches_public_only by blast
  then show ?thesis by (simp add: demo_trace)
qed

text \<open>
  C29: Credentials are sent until the first hop to another origin and never after it. The request of a hop
  carries an \<open>authorization\<close>, \<open>cookie\<close> or \<open>proxy-authorization\<close> header, in any spelling, exactly when
  the caller gave that header and this and every request before it went to the origin the caller
  named; a redirect back to that origin does not restore them.
\<close>

theorem fetch_credentials_stay:
  assumes "assertAllowedUrl (new_url E) input = Inr target" and "n \<in> set sensitive_names"
    and "k < length (fst (safe_fetch E limit input init))"
  shows "carries n (w_headers (fst (safe_fetch E limit input init) ! k)) \<longleftrightarrow>
    carries n (init_headers init) \<and>
    (\<forall>j \<le> k. url_origin (w_target (fst (safe_fetch E limit input init) ! j)) = url_origin target)"
  using fetch_credentials [OF assms(2)] assms(1,3) by (auto simp: safe_fetch_def)

theorem fetch_credentials_stay_witness:
  "carries ''authorization'' (w_headers (fst demo_fetch ! 0)) \<and>
   \<not> carries ''authorization'' (w_headers (fst demo_fetch ! 1))"
proof -
  have n: "''authorization'' \<in> set sensitive_names" by (simp add: sensitive_names_def)
  have l: "0 < length (fst demo_fetch)" "1 < length (fst demo_fetch)" by (simp_all add: demo_trace)
  have "carries ''authorization'' (init_headers demo_init)" by code_simp
  moreover have "w_target (fst demo_fetch ! 0) = url_of ''a.example''" "w_target (fst demo_fetch ! 1) = url_of ''b.example''"
    "url_origin (url_of ''b.example'') \<noteq> url_origin (url_of ''a.example'')"
    by (simp_all add: demo_trace url_of_def)
  ultimately show ?thesis
    using fetch_credentials_stay [OF demo_allowed(1) n l(1)] fetch_credentials_stay [OF demo_allowed(1) n l(2)]
    by auto
qed

text \<open>
  A fetch ends: with a limit of \<open>n\<close> redirects it makes at most \<open>n + 1\<close> requests,
  however long the peers go on redirecting, and the shipped fetch at most 21.
\<close>

theorem fetch_terminates:
  "length (fst (safe_fetch E limit input init)) \<le> limit + 1 \<and>
   length (fst (safe_fetch E maxRedirects input init)) \<le> 21"
proof -
  have "length (fst (safe_fetch E n input init)) \<le> n + 1" for n
    using fetch_requests [of E n 0] by (auto simp: safe_fetch_def split: sum.splits)
  from this [of limit] this [of maxRedirects] show ?thesis by (simp add: maxRedirects_def)
qed

text \<open>
  A request whose connection is allowed ends in an uncaught exception, and not in a rejection
  the caller can handle, exactly when the peer answers with a status outside 200 to 599, or with
  205 to a request that is not a \<open>HEAD\<close>.
\<close>

theorem response_status_uncaught:
  assumes "socket_dials E hops (url_hostname target) = Inr dials"
    and "requestOnce E target init hops = ([w], res)" and "peer E hops w = Inr m"
    and "in_status m = Some status"
  shows "res = Inl Uncaught_exception \<longleftrightarrow>
     status < 200 \<or> 599 < status \<or> (status = 205 \<and> method_of init \<noteq> ''HEAD'')"
proof -
  have "res = (case toResponse m target (method_of init) hops of
      None \<Rightarrow> Inl Uncaught_exception | Some r \<Rightarrow> Inr r)"
    using assms by (auto simp: requestOnce_def Let_def)
  moreover have "toResponse m target (method_of init) hops = None \<longleftrightarrow>
      status < 200 \<or> 599 < status \<or> (status = 205 \<and> method_of init \<noteq> ''HEAD'')"
    using assms(4) by (auto simp: toResponse_def response_valid_def Let_def)
  ultimately show ?thesis by (cases "toResponse m target (method_of init) hops") auto
qed

theorem response_status_uncaught_witness:
  "snd (requestOnce demo_env (url_of ''a.example'') demo_init 2) = Inl Uncaught_exception"
proof -
  have d: "socket_dials demo_env 2 (url_hostname (url_of ''a.example'')) = Inr demo_dials"
    by (simp add: demo_socket)
  obtain res where r: "requestOnce demo_env (url_of ''a.example'') demo_init 2 =
      ([demo_wire ''a.example'' demo_init], res)"
    by (simp add: requestOnce_def Let_def demo_socket)
  have p: "peer demo_env 2 (demo_wire ''a.example'' demo_init) =
      Inr \<lparr> in_headers = [], in_status = Some 205, in_message = None \<rparr>"
    by (simp add: numeral_2_eq_2)
  have "method_of demo_init \<noteq> ''HEAD''" by (simp add: method_of_def demo_init_def)
  then show ?thesis using response_status_uncaught [OF d r p] r by simp
qed

end
