(* ===== verification/Tool_Dispatch.thy ===== *)
theory Tool_Dispatch
  imports Run_Database
begin

text \<open>
  The tool dispatcher (\<open>tool-dispatcher.ts\<close>): the registrations and their checks, and the
  execution of one call over a ledger. The ledger, the heartbeat and the handlers act on a shared
  state that other workers change in between. \<open>tool_ledger\<close> is the contract the dispatcher relies
  on; the ledger over the effect rows meets it.
\<close>

section \<open>Registrations\<close>

text \<open>
  What a handler raises: the typed loss of a lease, the dispatcher's own budget error, Effect's
  wrapper around another value, or any other value.
\<close>

datatype thrown =
    Thrown_lease_lost string
  | Thrown_duration string jsnum
  | Thrown_unknown thrown
  | Thrown_value js

datatype handler_exit =
    Exit_success tool_value
  | Exit_fail thrown
  | Exit_die
  | Exit_interrupted
  | Exit_timeout

record 's registration =
  rg_name :: string
  rg_description :: string
  rg_parameters :: js
  rg_maxDurationMs :: jsnum
  rg_execute :: "tool_call \<Rightarrow> 's \<Rightarrow> handler_exit \<times> 's"

datatype registration_error_reason =
    Invalid_lease_ttl | Empty_name | Untrimmed_name | Duplicate_name | Empty_description
  | Invalid_parameters | Invalid_duration | Duration_exceeds_lease

datatype registration_error = ToolRegistrationError registration_error_reason string

type_synonym 's registry = "(string \<times> 's registration) list"

fun num_le :: "jsnum \<Rightarrow> jsnum \<Rightarrow> bool" where
  "num_le (Fin a) (Fin b) = (a \<le> b)"
| "num_le _ _ = False"

definition positive_integer :: "jsnum \<Rightarrow> bool" where
  "positive_integer n = (isSafeInteger n \<and> \<not> num_le n (Fin 0))"

definition validateRegistration ::
  "'s registration \<Rightarrow> jsnum \<Rightarrow> 's registry \<Rightarrow> registration_error + unit" where
  "validateRegistration r leaseTtlMs registry =
     (let name = rg_name r; fail = (\<lambda>reason. Inl (ToolRegistrationError reason name)) in
      if trim name = [] then fail Empty_name
      else if name \<noteq> trim name then fail Untrimmed_name
      else if map_of registry name \<noteq> None then fail Duplicate_name
      else if trim (rg_description r) = [] then fail Empty_description
      else if \<not> isRecord (rg_parameters r) then fail Invalid_parameters
      else if \<not> positive_integer (rg_maxDurationMs r) then fail Invalid_duration
      else if \<not> num_le (rg_maxDurationMs r) leaseTtlMs then fail Duration_exceeds_lease
      else Inr ())"

definition register ::
  "jsnum \<Rightarrow> 's registry \<Rightarrow> 's registration \<Rightarrow> registration_error + 's registry" where
  "register leaseTtlMs registry r =
     bindE (validateRegistration r leaseTtlMs registry) (\<lambda>_. Inr (registry @ [(rg_name r, r)]))"

record tool_definition =
  td_name :: string
  td_description :: string
  td_parameters :: js

record 's dispatcher =
  dp_registry :: "'s registry"
  dp_definitions :: "tool_definition list"

definition createToolDispatcher ::
  "'s registration list \<Rightarrow> jsnum \<Rightarrow> registration_error + 's dispatcher" where
  "createToolDispatcher registrations leaseTtlMs =
     (if \<not> positive_integer leaseTtlMs then Inl (ToolRegistrationError Invalid_lease_ttl [])
      else bindE (foldE (register leaseTtlMs) [] registrations) (\<lambda>registry.
        Inr \<lparr> dp_registry = registry,
              dp_definitions = map (\<lambda>r. \<lparr> td_name = rg_name r, td_description = rg_description r,
                                         td_parameters = rg_parameters r \<rparr>) registrations \<rparr>))"

definition canHandle :: "'s dispatcher \<Rightarrow> string \<Rightarrow> bool" where
  "canHandle d tool = (map_of (dp_registry d) tool \<noteq> None)"

section \<open>Failures\<close>

definition PROVIDER_FAILURE_KINDS :: "string list" where
  "PROVIDER_FAILURE_KINDS =
     [''gone'', ''not_found'', ''rate_limited'', ''timed_out'', ''auth_failed'']"

definition isProviderFailure :: "js \<Rightarrow> bool" where
  "isProviderFailure v =
     (case v of
        JObj r \<Rightarrow>
          (case getf r ''kind'' of
             JStr k \<Rightarrow> k \<in> set PROVIDER_FAILURE_KINDS \<and>
               (case getf r ''detail'' of JUndefined \<Rightarrow> True | JStr _ \<Rightarrow> True | _ \<Rightarrow> False)
           | _ \<Rightarrow> False)
      | _ \<Rightarrow> False)"

definition genericFailure :: "string \<Rightarrow> string" where
  "genericFailure tool = ''tool \"'' @ tool @ ''\" failed''"

definition providerFailure :: "string \<Rightarrow> js_record \<Rightarrow> string" where
  "providerFailure tool r =
     (let kind = str_of (getf r ''kind''); detail = str_of (getf r ''detail'') in
      if detail = [] then genericFailure tool @ '' ('' @ kind @ '')''
      else genericFailure tool @ '' ('' @ kind @ ''): '' @ detail)"

text \<open>\<open>String(n)\<close> of the budget, which was checked to be a positive integer.\<close>

definition durationMessage :: "string \<Rightarrow> jsnum \<Rightarrow> string" where
  "durationMessage tool ms =
     ''tool \"'' @ tool @ ''\" exceeded its '' @ dec (nat (to_int ms)) @ ''ms budget''"

definition unwrap_unknown :: "thrown \<Rightarrow> thrown" where
  "unwrap_unknown t = (case t of Thrown_unknown c \<Rightarrow> c | _ \<Rightarrow> t)"

definition failureMessage :: "thrown option \<Rightarrow> string \<Rightarrow> string" where
  "failureMessage failure tool =
     (case map_option unwrap_unknown failure of
        None \<Rightarrow> genericFailure tool
      | Some (Thrown_duration t ms) \<Rightarrow> durationMessage t ms
      | Some (Thrown_value (JObj r)) \<Rightarrow>
          if isProviderFailure (JObj r) then providerFailure tool r else genericFailure tool
      | Some _ \<Rightarrow> genericFailure tool)"

section \<open>Execution\<close>

datatype dispatch_error =
    InvalidToolCallError string
  | UnknownToolError string
  | ToolCallConflictError string string string
  | ToolLedgerError string
  | Ledger_not_found string string
  | Dispatch_lease_lost string
  | Dispatch_interrupted

record 's call_ledger =
  lg_begin :: "tool_call \<Rightarrow> 's \<Rightarrow> (ledger_error + tool_call_admission) \<times> 's"
  lg_complete :: "tool_call \<Rightarrow> tool_value \<Rightarrow> 's \<Rightarrow> (ledger_error + tool_outcome) \<times> 's"
  lg_fail :: "tool_call \<Rightarrow> string \<Rightarrow> 's \<Rightarrow> (ledger_error + tool_outcome) \<times> 's"

definition missingField :: "tool_call \<Rightarrow> string option" where
  "missingField call =
     (if trim (tc_runId call) = [] then Some ''runId''
      else if trim (tc_callId call) = [] then Some ''callId''
      else if trim (tc_tool call) = [] then Some ''tool''
      else None)"

definition ledgerCall :: "string \<Rightarrow> ledger_error + 'a \<Rightarrow> dispatch_error + 'a" where
  "ledgerCall operation r =
     (case r of
        Inl (NotFoundError what i) \<Rightarrow> Inl (Ledger_not_found what i)
      | Inl Claim_lost \<Rightarrow> Inl (ToolLedgerError operation)
      | Inr a \<Rightarrow> Inr a)"

text \<open>The outcome of a handler: what \<open>timeoutFail\<close>, \<open>map\<close> and \<open>catchAllCause\<close> make of its exit.\<close>

definition handler_outcome :: "'s registration \<Rightarrow> handler_exit \<Rightarrow> dispatch_error + tool_outcome" where
  "handler_outcome r e =
     (case e of
        Exit_success v \<Rightarrow> Inr (Outcome_completed v)
      | Exit_interrupted \<Rightarrow> Inl Dispatch_interrupted
      | Exit_fail (Thrown_lease_lost i) \<Rightarrow> Inl (Dispatch_lease_lost i)
      | Exit_fail t \<Rightarrow> Inr (Outcome_failed (failureMessage (Some t) (rg_name r)))
      | Exit_timeout \<Rightarrow>
          Inr (Outcome_failed (failureMessage (Some (Thrown_duration (rg_name r) (rg_maxDurationMs r))) (rg_name r)))
      | Exit_die \<Rightarrow> Inr (Outcome_failed (failureMessage None (rg_name r))))"

text \<open>A completed admission read back from the ledger; a missing value is SQL \<open>null\<close>.\<close>

definition replayed :: "js option \<Rightarrow> tool_outcome" where
  "replayed r = Outcome_completed (Json (case r of None \<Rightarrow> JNull | Some v \<Rightarrow> v))"

text \<open>The result, the state after it, and whether the handler was run.\<close>

definition settle_call ::
  "'s call_ledger \<Rightarrow> tool_call \<Rightarrow> tool_outcome \<Rightarrow> 's \<Rightarrow> (dispatch_error + tool_outcome) \<times> 's" where
  "settle_call lg call outcome s =
     (case outcome of
        Outcome_completed v \<Rightarrow> let (res, s') = lg_complete lg call v s in (ledgerCall ''complete'' res, s')
      | Outcome_failed m \<Rightarrow> let (res, s') = lg_fail lg call m s in (ledgerCall ''fail'' res, s'))"

definition run_handler ::
  "'s call_ledger \<Rightarrow> ('s \<Rightarrow> (string + unit) \<times> 's) \<Rightarrow> 's registration \<Rightarrow> tool_call \<Rightarrow> 's \<Rightarrow>
   (dispatch_error + tool_outcome) \<times> 's \<times> bool" where
  "run_handler lg hb r call s =
     (let (beat, s1) = hb s in
      case beat of
        Inl i \<Rightarrow> (Inl (Dispatch_lease_lost i), s1, False)
      | Inr _ \<Rightarrow>
          let (e, s2) = rg_execute r call s1 in
          (case handler_outcome r e of
             Inl err \<Rightarrow> (Inl err, s2, True)
           | Inr outcome \<Rightarrow> let (res, s3) = settle_call lg call outcome s2 in (res, s3, True)))"

definition executeTool ::
  "'s call_ledger \<Rightarrow> ('s \<Rightarrow> (string + unit) \<times> 's) \<Rightarrow> 's registry \<Rightarrow> tool_call \<Rightarrow> 's \<Rightarrow>
   (dispatch_error + tool_outcome) \<times> 's \<times> bool" where
  "executeTool lg hb registry call s =
     (case missingField call of
        Some field \<Rightarrow> (Inl (InvalidToolCallError field), s, False)
      | None \<Rightarrow>
          (case map_of registry (tc_tool call) of
             None \<Rightarrow> (Inl (UnknownToolError (tc_tool call)), s, False)
           | Some r \<Rightarrow>
               let (admission, s1) = lg_begin lg call s in
               (case ledgerCall ''begin'' admission of
                  Inl err \<Rightarrow> (Inl err, s1, False)
                | Inr (Settled_completed v) \<Rightarrow> (Inr (replayed v), s1, False)
                | Inr (Settled_failed m) \<Rightarrow> (Inr (Outcome_failed m), s1, False)
                | Inr In_flight \<Rightarrow>
                    (Inl (ToolCallConflictError (tc_runId call) (tc_callId call) ''in_flight''), s1, False)
                | Inr Call_id_reused \<Rightarrow>
                    (Inl (ToolCallConflictError (tc_runId call) (tc_callId call) ''call_id_reused''), s1, False)
                | Inr Started \<Rightarrow> run_handler lg hb r call s1)))"

text \<open>The ledger over the effect rows, as \<open>createExternalEffectLedger\<close> builds it for one space.\<close>

definition db_ledger ::
  "(js \<Rightarrow> js) \<Rightarrow> (js \<Rightarrow> js \<Rightarrow> bool) \<Rightarrow> string \<Rightarrow> run_tables call_ledger" where
  "db_ledger redact jsonb_eq spaceId =
     \<lparr> lg_begin = (\<lambda>call db. ledger_begin redact jsonb_eq db spaceId call),
       lg_complete = (\<lambda>call v db. ledger_complete db spaceId call v),
       lg_fail = (\<lambda>call m db. ledger_fail db spaceId call m) \<rparr>"

section \<open>The registry\<close>

lemma register_Inr:
  "register ttl reg r = Inr reg' \<Longrightarrow>
   reg' = reg @ [(rg_name r, r)] \<and> rg_name r \<notin> fst ` set reg \<and> rg_name r \<noteq> [] \<and>
   isRecord (rg_parameters r) \<and> positive_integer (rg_maxDurationMs r) \<and> num_le (rg_maxDurationMs r) ttl"
  by (auto simp: register_def validateRegistration_def Let_def result_simps map_of_eq_None_iff
      trim_def split: if_splits)

definition registration_ok :: "jsnum \<Rightarrow> 's registration \<Rightarrow> bool" where
  "registration_ok ttl r \<longleftrightarrow> rg_name r \<noteq> [] \<and> isRecord (rg_parameters r) \<and>
     positive_integer (rg_maxDurationMs r) \<and> num_le (rg_maxDurationMs r) ttl"

lemma registrations_Inr:
  "foldE (register ttl) reg rs = Inr reg' \<Longrightarrow> distinct (map fst reg) \<Longrightarrow>
   reg' = reg @ map (\<lambda>r. (rg_name r, r)) rs \<and> distinct (map fst reg') \<and> list_all (registration_ok ttl) rs"
proof (induction rs arbitrary: reg)
  case Nil
  then show ?case by simp
next
  case (Cons r rs)
  then obtain g where g: "register ttl reg r = Inr g" "foldE (register ttl) g rs = Inr reg'"
    by (auto simp: result_simps)
  note r = register_Inr [OF g(1)]
  then have "distinct (map fst g)" using Cons.prems(2) by simp
  note ih = Cons.IH [OF g(2) this]
  have "registration_ok ttl r" using r by (simp add: registration_ok_def)
  moreover have "reg' = reg @ map (\<lambda>r. (rg_name r, r)) (r # rs)" using ih r by simp
  ultimately show ?case using ih by (metis list.pred_inject(2))
qed

section \<open>The contract of a ledger\<close>

text \<open>What a later attempt is told about a call that ended with an outcome.\<close>

fun replays :: "tool_outcome \<Rightarrow> tool_call_admission \<Rightarrow> bool" where
  "replays (Outcome_completed (Json v)) a = (a = Settled_completed (Some (json_of v)))"
| "replays (Outcome_completed Unserializable) a = False"
| "replays (Outcome_failed m) a = (a = Settled_failed m)"

text \<open>The outcome a replay answers with: the recorded JSON form of it.\<close>

fun json_outcome :: "tool_outcome \<Rightarrow> tool_outcome" where
  "json_outcome (Outcome_completed (Json v)) = Outcome_completed (Json (json_of v))"
| "json_outcome out = out"

definition same_call :: "tool_call \<Rightarrow> tool_call \<Rightarrow> bool" where
  "same_call c d \<longleftrightarrow> tc_runId c = tc_runId d \<and> tc_callId c = tc_callId d"

locale tool_ledger =
  fixes lg :: "'s call_ledger" and ok :: "'s \<Rightarrow> bool" and others :: "'s \<Rightarrow> 's \<Rightarrow> bool"
  assumes others_refl: "others s s"
    and others_trans: "others s t \<Longrightarrow> others t u \<Longrightarrow> others s u"
    and others_ok: "others s t \<Longrightarrow> ok s \<Longrightarrow> ok t"
    and begin_step: "others s (snd (lg_begin lg c s))"
    and complete_step: "others s (snd (lg_complete lg c v s))"
    and fail_step: "others s (snd (lg_fail lg c m s))"
    and started_once: "ok s \<Longrightarrow> fst (lg_begin lg c s) = Inr Started \<Longrightarrow>
      others (snd (lg_begin lg c s)) t \<Longrightarrow> same_call c d \<Longrightarrow> fst (lg_begin lg d t) \<noteq> Inr Started"
    and completed_replays: "ok s \<Longrightarrow> fst (lg_begin lg c s) = Inr Started \<Longrightarrow>
      others (snd (lg_begin lg c s)) t \<Longrightarrow> fst (lg_complete lg c v t) = Inr out \<Longrightarrow>
      \<exists>a. fst (lg_begin lg c (snd (lg_complete lg c v t))) = Inr a \<and> replays out a"
    and failed_replays: "ok s \<Longrightarrow> fst (lg_begin lg c s) = Inr Started \<Longrightarrow>
      others (snd (lg_begin lg c s)) t \<Longrightarrow> m \<noteq> [] \<Longrightarrow> fst (lg_fail lg c m t) = Inr out \<Longrightarrow>
      \<exists>a. fst (lg_begin lg c (snd (lg_fail lg c m t))) = Inr a \<and> replays out a"
    and settled_final: "ok s \<Longrightarrow> fst (lg_begin lg c s) = Inr a \<Longrightarrow>
      a = Settled_completed r \<or> a = Settled_failed m \<Longrightarrow> others s t \<Longrightarrow> fst (lg_begin lg c t) = Inr a"
begin

text \<open>The heartbeat and the handlers of a dispatcher change the state only as other workers may.\<close>

definition fair_heartbeat :: "('s \<Rightarrow> (string + unit) \<times> 's) \<Rightarrow> bool" where
  "fair_heartbeat hb \<longleftrightarrow> (\<forall>s. others s (snd (hb s)))"

definition fair_registry :: "'s registry \<Rightarrow> bool" where
  "fair_registry reg \<longleftrightarrow> (\<forall>(n, r) \<in> set reg. \<forall>c s. others s (snd (rg_execute r c s)))"

lemma settle_step: "others s (snd (settle_call lg c out s))"
  using complete_step fail_step by (simp add: settle_call_def split_beta split: tool_outcome.split)

lemma failureMessage_nonempty: "failureMessage f t \<noteq> []"
  by (auto simp: failureMessage_def genericFailure_def providerFailure_def durationMessage_def Let_def
      split: option.splits thrown.splits js.splits)

text \<open>The call was begun, its handler ran, and what the ledger recorded is what is returned.\<close>

lemma handler_ran:
  assumes "executeTool lg hb reg c s = (res, t, True)" and "fair_heartbeat hb" and "fair_registry reg"
  obtains r s1 s2 where "map_of reg (tc_tool c) = Some r" and "missingField c = None"
    and "fst (lg_begin lg c s) = Inr Started" and "snd (lg_begin lg c s) = s1" and "fst (hb s1) = Inr ()"
    and "others s1 s2" and "(\<exists>e. res = Inl e) \<and> t = s2 \<or>
      (\<exists>out. (\<forall>m. out = Outcome_failed m \<longrightarrow> m \<noteq> []) \<and> (res, t) = settle_call lg c out s2)"
proof -
  obtain r where r: "map_of reg (tc_tool c) = Some r" "missingField c = None"
    using assms(1) by (auto simp: executeTool_def split: option.splits)
  define s1 where "s1 = snd (lg_begin lg c s)"
  have st: "fst (lg_begin lg c s) = Inr Started"
    and run: "run_handler lg hb r c s1 = (res, t, True)"
    using assms(1) r
    by (auto simp: executeTool_def s1_def split_beta ledgerCall_def
        split: sum.splits ledger_error.splits tool_call_admission.splits)
  define s2 where "s2 = snd (rg_execute r c (snd (hb s1)))"
  have hb: "fst (hb s1) = Inr ()"
    using run by (auto simp: run_handler_def split_beta split: sum.splits)
  have "(tc_tool c, r) \<in> set reg" using r(1) by (rule map_of_SomeD)
  then have "others s1 s2"
    using assms(2,3) others_trans unfolding fair_heartbeat_def fair_registry_def s2_def by blast
  moreover have "(\<exists>e. res = Inl e) \<and> t = s2 \<or>
      (\<exists>out. (\<forall>m. out = Outcome_failed m \<longrightarrow> m \<noteq> []) \<and> (res, t) = settle_call lg c out s2)"
  proof (cases "handler_outcome r (fst (rg_execute r c (snd (hb s1))))")
    case (Inl e)
    then have "res = Inl e" "t = s2" using run hb by (simp_all add: run_handler_def split_beta s2_def)
    then show ?thesis by blast
  next
    case (Inr out)
    then have "\<forall>m. out = Outcome_failed m \<longrightarrow> m \<noteq> []"
      by (auto simp: handler_outcome_def failureMessage_nonempty split: handler_exit.splits thrown.splits)
    then show ?thesis
      using run hb Inr by (auto simp: run_handler_def split_beta s2_def intro!: exI [of _ out])
  qed
  ultimately show thesis using that r st hb s1_def by blast
qed

lemma executeTool_step:
  assumes "fair_heartbeat hb" and "fair_registry reg"
  shows "others s (fst (snd (executeTool lg hb reg c s)))"
proof (cases "snd (snd (executeTool lg hb reg c s))")
  case True
  then obtain res t where e: "executeTool lg hb reg c s = (res, t, True)"
    by (metis prod.collapse)
  obtain s1 s2 where "snd (lg_begin lg c s) = s1" "others s1 s2"
      "t = s2 \<or> (\<exists>out. t = snd (settle_call lg c out s2))"
    using handler_ran [OF e assms] by (metis snd_conv)
  then have "others s t" using begin_step settle_step others_trans by metis
  then show ?thesis by (simp add: e)
next
  case False
  have hb: "others (snd (lg_begin lg c s)) (snd (hb (snd (lg_begin lg c s))))"
    using assms(1) by (simp add: fair_heartbeat_def)
  show ?thesis
    using False others_refl begin_step [of s c] others_trans [OF begin_step [of s c] hb]
    by (auto simp: executeTool_def run_handler_def split_beta ledgerCall_def
        split: option.splits sum.splits ledger_error.splits tool_call_admission.splits)
qed

lemma handler_once:
  assumes "ok s" and "executeTool lg hb reg c s = (res, t, True)" and "fair_heartbeat hb"
    and "fair_registry reg" and "others t u" and "same_call c d"
  shows "\<not> snd (snd (executeTool lg hb' reg' d u))"
proof -
  obtain s1 s2 where b: "fst (lg_begin lg c s) = Inr Started" "snd (lg_begin lg c s) = s1" "others s1 s2"
      "t = s2 \<or> (\<exists>out. t = snd (settle_call lg c out s2))"
    using handler_ran [OF assms(2-4)] by (metis snd_conv)
  then have "others (snd (lg_begin lg c s)) u" using settle_step others_trans assms(5) by metis
  then have "fst (lg_begin lg d u) \<noteq> Inr Started" using started_once assms(1,6) b(1) by blast
  then show ?thesis
    by (auto simp: executeTool_def split_beta ledgerCall_def
        split: option.splits sum.splits ledger_error.splits tool_call_admission.splits)
qed

lemma replay_known:
  assumes "fst (lg_begin lg c u) = Inr a" and "replays out a" and "missingField c = None"
    and "map_of reg (tc_tool c) \<noteq> None"
  shows "fst (executeTool lg hb reg c u) = Inr (json_outcome out) \<and> \<not> snd (snd (executeTool lg hb reg c u))"
  using assms
  by (cases out rule: json_outcome.cases)
    (auto simp: executeTool_def split_beta ledgerCall_def replayed_def)

lemma outcome_replayed:
  assumes "ok s" and "executeTool lg hb reg c s = (Inr out, t, invoked)" and "fair_heartbeat hb"
    and "fair_registry reg" and "others t u" and "map_of reg' (tc_tool c) \<noteq> None"
  shows "fst (executeTool lg hb' reg' c u) = Inr (if invoked then json_outcome out else out) \<and>
    \<not> snd (snd (executeTool lg hb' reg' c u))"
proof (cases invoked)
  case True
  then have e: "executeTool lg hb reg c s = (Inr out, t, True)" using assms(2) by simp
  obtain s1 s2 out' where b: "missingField c = None" "fst (lg_begin lg c s) = Inr Started"
      "snd (lg_begin lg c s) = s1" "others s1 s2" "\<forall>m. out' = Outcome_failed m \<longrightarrow> m \<noteq> []"
      "(Inr out, t) = settle_call lg c out' s2"
    using handler_ran [OF e assms(3,4)] by (metis Inl_Inr_False)
  have "\<exists>a. fst (lg_begin lg c t) = Inr a \<and> replays out a"
  proof (cases out')
    case (Outcome_completed v)
    then have "fst (lg_complete lg c v s2) = Inr out" "t = snd (lg_complete lg c v s2)"
      using b(6) by (auto simp: settle_call_def split_beta ledgerCall_def split: sum.splits ledger_error.splits)
    then show ?thesis using completed_replays assms(1) b(2-4) by blast
  next
    case (Outcome_failed m)
    then have "fst (lg_fail lg c m s2) = Inr out" "t = snd (lg_fail lg c m s2)"
      using b(6) by (auto simp: settle_call_def split_beta ledgerCall_def split: sum.splits ledger_error.splits)
    then show ?thesis using failed_replays assms(1) b(2-5) Outcome_failed by blast
  qed
  then obtain a where a: "fst (lg_begin lg c t) = Inr a" "replays out a" by blast
  then have sa: "\<exists>r m. a = Settled_completed r \<or> a = Settled_failed m" by (cases "(out, a)" rule: replays.cases) auto
  have "ok t" using executeTool_step [OF assms(3,4), of s c] others_ok assms(1) e by simp
  then have "fst (lg_begin lg c u) = Inr a" using settled_final a(1) sa assms(5) by blast
  then show ?thesis using replay_known [OF _ a(2) b(1) assms(6)] True by simp
next
  case False
  obtain a where a: "fst (lg_begin lg c s) = Inr a" "missingField c = None" "t = snd (lg_begin lg c s)"
      "(\<exists>r. a = Settled_completed r \<and> out = replayed r) \<or> (\<exists>m. a = Settled_failed m \<and> out = Outcome_failed m)"
    using assms(2) False
    by (auto simp: executeTool_def run_handler_def split_beta ledgerCall_def
        split: option.splits sum.splits ledger_error.splits tool_call_admission.splits)
  have "others s u" using begin_step others_trans assms(5) a(3) by blast
  then have "fst (lg_begin lg c u) = Inr a" using settled_final assms(1) a(1,4) by blast
  then show ?thesis
    using a(2,4) assms(6) False
    by (auto simp: executeTool_def split_beta ledgerCall_def replayed_def)
qed

end

section \<open>The ledger of the database\<close>

abbreviation db_others :: "run_tables \<Rightarrow> run_tables \<Rightarrow> bool" where
  "db_others \<equiv> run_db_step\<^sup>*\<^sup>*"

lemma ledger_begin_state: "snd (ledger_begin redact jsonb_eq db s c) = snd (claim_effect redact db s c)"
  by (simp add: ledger_begin_def split_beta)

lemma ledger_begin_Started:
  "fst (ledger_begin redact jsonb_eq db s c) = Inr Started \<longleftrightarrow> fst (claim_effect redact db s c)"
  by (auto simp: ledger_begin_def split_beta existing_claim_def split: option.splits effect_status.splits)

lemma ledger_begin_known:
  assumes "find_effect db (tc_runId c) (tc_callId c) = Some e"
  shows "ledger_begin redact jsonb_eq db s c = (existing_claim redact jsonb_eq db s c, db)"
  by (simp add: ledger_begin_def claim_effect_taken [OF assms])

lemma claimed_in_table:
  assumes "wf_run_tables db" and "fst (claim_effect redact db s c)"
    and "db_others (snd (claim_effect redact db s c)) db'"
  obtains e where "find_effect db' (tc_runId c) (tc_callId c) = Some e" and "claim_of redact s c e"
    and "wf_run_tables db'"
  using claim_effect_started [OF assms(2)] steps_effect [OF assms(3)] claim_of_evolves
    steps_wf [OF assms(3) claim_effect_wf [OF assms(1) refl]] that by metis

text \<open>A settlement that is acknowledged found the claim open, and leaves it settled.\<close>

lemma existing_effect:
  assumes "wf_run_tables db" and "e \<in> set (effects db)" and "ef_spaceId e = s"
    and "ef_runId e = tc_runId c" and "ef_key e = tc_callId c"
  shows "find_effect db (tc_runId c) (tc_callId c) = Some e"
  using find_key_distinct [of effect_id "effects db" e] assms
  by (simp add: find_effect_def wf_run_tables_def)

lemma settled_claim:
  assumes "find_effect db (tc_runId c) (tc_callId c) = Some e" and "wf_run_tables db"
    and "settled (returning (claimed_by s c) f (effects db)) = Inr ()"
  shows "ef_status e = E_running \<and> ef_spaceId e = s"
proof -
  obtain x where x: "x \<in> set (effects db)" "claimed_by s c x"
    using assms(3) by (auto simp: settled_def returning_def filter_empty_conv split: if_splits)
  then have "find_effect db (tc_runId c) (tc_callId c) = Some x"
    by (intro existing_effect [OF assms(2)]) (auto simp: claimed_by_def)
  with assms(1) x(2) show ?thesis by (simp add: claimed_by_def)
qed

lemma failed_claim:
  assumes "find_effect db (tc_runId c) (tc_callId c) = Some e" and "claim_of redact s c e"
    and "wf_run_tables db" and "fst (failClaim db s c m) = Inr out" and "m \<noteq> []" and "\<And>v. jsonb_eq v v"
  shows "\<exists>a. fst (ledger_begin redact jsonb_eq (snd (failClaim db s c m)) s c) = Inr a \<and> replays out a"
proof -
  have st: "ef_status e = E_running" "ef_spaceId e = s" and out: "out = Outcome_failed m"
    using assms(4) settled_claim [OF assms(1,3)] by (auto simp: failClaim_def Let_def result_simps)
  have "find_effect (snd (failClaim db s c m)) (tc_runId c) (tc_callId c) = Some (fail_effect (Some m) e)"
    using find_effect_key [OF assms(1)] st assms(1)
    by (subst find_effect_fail [where P = "claimed_by s c" and x = "Some m" and db = db])
      (auto simp: failClaim_def Let_def claimed_by_def)
  moreover have "claim_of redact s c (fail_effect (Some m) e)"
    using assms(2) by (simp add: claim_of_def fail_effect_def)
  ultimately have "fst (ledger_begin redact jsonb_eq (snd (failClaim db s c m)) s c) =
      Inr (admitted (fail_effect (Some m) e))"
    using ledger_begin_known existing_claim_of [where jsonb_eq = jsonb_eq, OF _ _ assms(6)] by simp
  moreover have "admitted (fail_effect (Some m) e) = Settled_failed m"
    using assms(5) by (simp add: admitted_def fail_effect_def error_result_def storedError_def)
  ultimately show ?thesis by (simp add: out)
qed

lemma completed_known:
  assumes "find_effect db (tc_runId c) (tc_callId c) = Some e" and "claim_of redact s c e"
    and "wf_run_tables db" and "fst (ledger_complete db s c v) = Inr out" and "\<And>v. jsonb_eq v v"
  shows "\<exists>a. fst (ledger_begin redact jsonb_eq (snd (ledger_complete db s c v)) s c) = Inr a \<and> replays out a"
proof (cases v)
  case (Json x)
  have st: "ef_status e = E_running" and out: "out = Outcome_completed (Json x)"
    using assms(4) settled_claim [OF assms(1,3)] by (auto simp: ledger_complete_def Json Let_def result_simps)
  have "ledger_begin redact jsonb_eq (snd (ledger_complete db s c v)) s c =
      (existing_claim redact jsonb_eq (snd (ledger_complete db s c v)) s c, snd (ledger_complete db s c v))"
    using completed_claim [OF assms(1,2) st] Json by (intro ledger_begin_known) simp
  then show ?thesis
    using completed_reply [where jsonb_eq = jsonb_eq, OF assms(1,2) st assms(5)] by (simp add: Json out)
next
  case Unserializable
  then have "ledger_complete db s c v = failClaim db s c unrecordableResultMessage"
    by (simp add: ledger_complete_def)
  then show ?thesis
    using failed_claim [where jsonb_eq = jsonb_eq, OF assms(1-3) _ _ assms(5)] assms(4)
    by (simp add: unrecordableResultMessage_def)
qed

lemma settled_claim_final:
  assumes "wf_run_tables db" and "fst (ledger_begin redact jsonb_eq db s c) = Inr a"
    and "a = Settled_completed r \<or> a = Settled_failed m" and "db_others db db'"
  shows "fst (ledger_begin redact jsonb_eq db' s c) = Inr a"
proof -
  have ns: "\<not> fst (claim_effect redact db s c)"
    using assms(2,3) ledger_begin_Started [of redact jsonb_eq db s c] by auto
  then have "fst (ledger_begin redact jsonb_eq db s c) = existing_claim redact jsonb_eq db s c"
    by (auto simp: ledger_begin_def split_beta claim_effect_def)
  with assms(2) have ex: "existing_claim redact jsonb_eq db s c = Inr a" by simp
  then obtain e where e: "find (\<lambda>e. ef_spaceId e = s \<and> ef_runId e = tc_runId c \<and> ef_key e = tc_callId c)
      (effects db) = Some e"
    by (auto simp: existing_claim_def split: option.splits)
  then have key: "e \<in> set (effects db)" "ef_spaceId e = s" "ef_runId e = tc_runId c" "ef_key e = tc_callId c"
    by (auto simp: find_Some_iff)
  have sub: "existing_claim redact jsonb_eq d s c =
      (if ef_kind e \<noteq> tc_tool c \<or> \<not> jsonb_eq (ef_request e) (argumentsJson redact c) then Inr Call_id_reused
       else Inr (admitted e))" if "find_effect d (tc_runId c) (tc_callId c) = Some e" "wf_run_tables d" for d
  proof -
    have "find (\<lambda>e. ef_spaceId e = s \<and> ef_runId e = tc_runId c \<and> ef_key e = tc_callId c) (effects d) = Some e"
    proof (rule find_conj [where Q = "\<lambda>e. effect_id e = (tc_runId c, tc_callId c)"])
      show "find (\<lambda>e. effect_id e = (tc_runId c, tc_callId c)) (effects d) = Some e"
        using that(1) by (simp only: find_effect_def)
    qed (simp_all add: key)
    then show ?thesis by (simp add: existing_claim_def admitted_def)
  qed
  note f = existing_effect [OF assms(1) key]
  have "is_settled e"
    using ex sub [OF f assms(1)] assms(3)
    by (auto simp: admitted_def is_settled_def split: if_splits effect_status.splits)
  then have f': "find_effect db' (tc_runId c) (tc_callId c) = Some e"
    using steps_effect [OF assms(4) f] by (auto simp: effect_evolves_def)
  have "existing_claim redact jsonb_eq db' s c = existing_claim redact jsonb_eq db s c"
    by (simp only: sub [OF f assms(1)] sub [OF f' steps_wf [OF assms(4,1)]])
  then show ?thesis using ex by (simp only: ledger_begin_known [OF f'] fst_conv)
qed

text \<open>
  The equality of \<open>jsonb\<close> values is a parameter that holds at least between equal values.
\<close>

definition reflexive_eq :: "('a \<Rightarrow> 'a \<Rightarrow> bool) \<Rightarrow> 'a \<Rightarrow> 'a \<Rightarrow> bool" where
  "reflexive_eq R a b \<longleftrightarrow> a = b \<or> R a b"

interpretation dbl: tool_ledger "db_ledger redact (reflexive_eq R) s" wf_run_tables db_others for redact R s
proof unfold_locales
  fix db db' db'' :: run_tables and c d :: tool_call and v m out a r
  let ?lg = "db_ledger redact (reflexive_eq R) s"
  note defs = db_ledger_def ledger_begin_state ledger_begin_Started ledger_fail_def
  show "db_others db db" by simp
  show "db_others db db' \<Longrightarrow> db_others db' db'' \<Longrightarrow> db_others db db''" by (rule rtranclp_trans)
  show "db_others db db' \<Longrightarrow> wf_run_tables db \<Longrightarrow> wf_run_tables db'" by (rule steps_wf)
  show "db_others db (snd (lg_begin ?lg c db))"
    by (auto simp: defs intro: run_db_step.claim_call)
  show "db_others db (snd (lg_complete ?lg c v db))"
    by (auto simp: defs intro: run_db_step.complete_call)
  show "db_others db (snd (lg_fail ?lg c m db))"
    using run_db_step.fail_call [of db s c m] by (auto simp: defs)
  have known: "\<exists>e. find_effect db' (tc_runId c) (tc_callId c) = Some e \<and> claim_of redact s c e \<and> wf_run_tables db'"
    if "wf_run_tables db" "fst (lg_begin ?lg c db) = Inr Started" "db_others (snd (lg_begin ?lg c db)) db'"
    using claimed_in_table [of db redact s c db'] that by (metis defs(2,3) call_ledger.select_convs(1) db_ledger_def)
  show "fst (lg_begin ?lg d db') \<noteq> Inr Started"
    if "wf_run_tables db" "fst (lg_begin ?lg c db) = Inr Started"
      "db_others (snd (lg_begin ?lg c db)) db'" "same_call c d"
    using known [OF that(1-3)] that(4) claim_effect_taken [of db' d]
    by (auto simp: defs same_call_def)
  show "\<exists>a. fst (lg_begin ?lg c (snd (lg_complete ?lg c v db'))) = Inr a \<and> replays out a"
    if "wf_run_tables db" "fst (lg_begin ?lg c db) = Inr Started"
      "db_others (snd (lg_begin ?lg c db)) db'" "fst (lg_complete ?lg c v db') = Inr out"
    using known [OF that(1-3)] that(4) completed_known [where jsonb_eq = "reflexive_eq R"]
    by (auto simp: db_ledger_def reflexive_eq_def)
  show "\<exists>a. fst (lg_begin ?lg c (snd (lg_fail ?lg c m db'))) = Inr a \<and> replays out a"
    if "wf_run_tables db" "fst (lg_begin ?lg c db) = Inr Started"
      "db_others (snd (lg_begin ?lg c db)) db'" "m \<noteq> []" "fst (lg_fail ?lg c m db') = Inr out"
    using known [OF that(1-3)] that(4,5) failed_claim [where jsonb_eq = "reflexive_eq R"]
    by (auto simp: db_ledger_def ledger_fail_def reflexive_eq_def)
  show "fst (lg_begin ?lg c db') = Inr a"
    if "wf_run_tables db" "fst (lg_begin ?lg c db) = Inr a" "a = Settled_completed r \<or> a = Settled_failed m"
      "db_others db db'"
    using settled_claim_final [of db redact "reflexive_eq R" s c a r m db'] that
    unfolding db_ledger_def call_ledger.select_convs by blast
qed

end
