(* ===== verification/Approval_Gate.thy ===== *)
theory Approval_Gate
  imports Approval_Store Dangerous_Actions
begin

text \<open>
  The approval gate (\<open>approval-gate.ts\<close>) and the dangerous-action guard (\<open>danger-guard.ts\<close>): opening
  the durable gate of a call, waiting on it, and authorizing a call by its classification. The
  wait is a loop that polls the store without a bound of its own, so it is a partial function; its
  environment gives, for each poll, the clocks of the waiting process and of the server and what
  other writers do meanwhile.
\<close>

section \<open>Opening\<close>

datatype gate_error =
    ApprovalStoreError string
  | Gate_not_found string string
  | Gate_invalid_call string
  | GateTimeoutError string

definition storeCall :: "string \<Rightarrow> approval_error + 'a \<Rightarrow> gate_error + 'a" where
  "storeCall operation r =
     (case r of
        Inl (Approval_not_found what i) \<Rightarrow> Inl (Gate_not_found what i)
      | Inl Check_violation \<Rightarrow> Inl (ApprovalStoreError operation)
      | Inr a \<Rightarrow> Inr a)"

definition blankField :: "string \<Rightarrow> string \<Rightarrow> string option" where
  "blankField callId tool =
     (if trim callId = [] then Some ''callId''
      else if trim tool = [] then Some ''tool''
      else None)"

fun positive_ms :: "jsnum \<Rightarrow> bool" where
  "positive_ms n = (isSafeInteger n \<and> 0 < to_int n)"

definition APPROVAL_POLL_INTERVAL_MS :: int where
  "APPROVAL_POLL_INTERVAL_MS = 1000"

text \<open>The checks of \<open>createApprovalGate\<close>: the timeout in milliseconds, or the error it throws.\<close>

definition createApprovalGate :: "jsnum \<Rightarrow> jsnum \<Rightarrow> range_error + int" where
  "createApprovalGate timeoutMs pollIntervalMs =
     (if \<not> positive_ms timeoutMs then Inl (RangeError ''timeout'')
      else if \<not> positive_ms pollIntervalMs then Inl (RangeError ''poll interval'')
      else Inr (to_int timeoutMs))"

definition gate_open ::
  "(js \<Rightarrow> js) \<Rightarrow> writers \<Rightarrow> int \<Rightarrow> int \<Rightarrow> approval_tables \<Rightarrow> string \<Rightarrow> string \<Rightarrow> string \<Rightarrow> string \<Rightarrow> js \<Rightarrow>
   (gate_error + approval_row) \<times> approval_tables" where
  "gate_open redact w now timeoutMs db spaceId rid callId tool args =
     (case blankField callId tool of
        Some field \<Rightarrow> (Inl (Gate_invalid_call field), db)
      | None \<Rightarrow>
          let (r, db') = approval_open w db spaceId
                \<lparr> aq_runId = rid, aq_callId = callId, aq_tool = tool, aq_arguments = redact args,
                  aq_expiresAt = now + timeoutMs \<rparr> in
          (storeCall ''open'' r, db'))"

section \<open>Waiting\<close>

record gate_env =
  ge_before :: "nat \<Rightarrow> writers"
  ge_clock :: "nat \<Rightarrow> int"
  ge_between :: "nat \<Rightarrow> writers"
  ge_server :: "nat \<Rightarrow> int"
  ge_inside :: "nat \<Rightarrow> writers"

text \<open>One round of the loop of \<open>waitFor\<close>; \<open>None\<close> is the sleep before the next round.\<close>

definition poll_round ::
  "gate_env \<Rightarrow> string \<Rightarrow> string \<Rightarrow> string \<Rightarrow> nat \<Rightarrow> approval_tables \<Rightarrow>
   (gate_error + approval_row) option \<times> approval_tables" where
  "poll_round E spaceId rid callId i db =
     (let db1 = ge_before E i db in
      case findApproval db1 spaceId rid callId of
        None \<Rightarrow> (Some (Inl (Gate_not_found ''approval'' callId)), db1)
      | Some current \<Rightarrow>
          if ap_status current = Approved \<or> ap_status current = Denied then (Some (Inr current), db1)
          else if ap_status current = Timed_out then (Some (Inl (GateTimeoutError (ap_callId current))), db1)
          else if ap_expiresAt current \<le> ge_clock E i then
            (let (r, db2) = resolveTimeout (ge_server E i) (ge_inside E i) (ge_between E i db1) spaceId rid callId in
             case storeCall ''time_out'' r of
               Inl e \<Rightarrow> (Some (Inl e), db2)
             | Inr row \<Rightarrow>
                 if ap_status row = Timed_out then (Some (Inl (GateTimeoutError (ap_callId row))), db2)
                 else if ap_status row = Approved \<or> ap_status row = Denied
                 then (Some (Inr row), db2)
                 else (None, db2))
          else (None, db1))"

partial_function (option) waitFor ::
  "gate_env \<Rightarrow> string \<Rightarrow> string \<Rightarrow> string \<Rightarrow> nat \<Rightarrow> approval_tables \<Rightarrow>
   ((gate_error + approval_row) \<times> approval_tables) option" where
  "waitFor E spaceId rid callId i db =
     (case poll_round E spaceId rid callId i db of
        (Some r, db') \<Rightarrow> Some (r, db')
      | (None, db') \<Rightarrow> waitFor E spaceId rid callId (Suc i) db')"

section \<open>Authorizing a call\<close>

record guard_options =
  go_store :: bool
  go_home :: "string option"
  go_allowlist :: "egress_allowlist option"
  go_timeoutMs :: "jsnum option"
  go_pollIntervalMs :: "jsnum option"

datatype action_authorization =
    Auth_allowed
  | Auth_refused_url
  | Auth_unavailable dangerous_action
  | Auth_approved dangerous_action approval_row
  | Auth_denied dangerous_action approval_row
  | Auth_timed_out dangerous_action

text \<open>A range error is a defect of the configuration; the others are the gate's own errors.\<close>

datatype authorize_error = Auth_defect range_error | Auth_gate gate_error

definition of_decided :: "dangerous_action \<Rightarrow> gate_error + approval_row \<Rightarrow> authorize_error + action_authorization" where
  "of_decided action r =
     (case r of
        Inr row \<Rightarrow> Inr (if ap_status row = Approved then Auth_approved action row else Auth_denied action row)
      | Inl (GateTimeoutError _) \<Rightarrow> Inr (Auth_timed_out action)
      | Inl e \<Rightarrow> Inl (Auth_gate e))"

lemma of_decided_not_allowed: "of_decided action r \<noteq> Inr Auth_allowed"
  by (auto simp: of_decided_def split: sum.splits gate_error.splits)

definition default_ms :: "int \<Rightarrow> jsnum option \<Rightarrow> jsnum" where
  "default_ms d n = (case n of None \<Rightarrow> Fin (of_int d) | Some v \<Rightarrow> v)"

text \<open>
  \<open>authorize\<close> of \<open>createDangerousActionGuard\<close>, with the clock at the opening, the writers between the
  statements of the opening and the environment of the wait.
\<close>

definition authorize ::
  "(string \<Rightarrow> string option) \<Rightarrow> (js \<Rightarrow> js) \<Rightarrow> guard_options \<Rightarrow> int \<Rightarrow> writers \<Rightarrow> gate_env \<Rightarrow> string \<Rightarrow>
   tool_call \<Rightarrow> danger_class list option \<Rightarrow> approval_tables \<Rightarrow>
   ((authorize_error + action_authorization) \<times> approval_tables) option" where
  "authorize hostname redact options now w E spaceId call declared db =
     (case classifyDangerousAction hostname
        \<lparr> dr_tool = tc_tool call, dr_arguments = tc_arguments call,
          dr_home = (case go_home options of None \<Rightarrow> COMPUTER_HOME_DIRECTORY | Some h \<Rightarrow> h),
          dr_allowlist = (case go_allowlist options of None \<Rightarrow> EMPTY_EGRESS_ALLOWLIST | Some l \<Rightarrow> l),
          dr_declared = declared \<rparr> of
        Inl e \<Rightarrow> Some (Inl (Auth_defect e), db)
      | Inr Safe \<Rightarrow> Some (Inr Auth_allowed, db)
      | Inr Refused_invalid_url \<Rightarrow> Some (Inr Auth_refused_url, db)
      | Inr (Dangerous action) \<Rightarrow>
          if \<not> go_store options then Some (Inr (Auth_unavailable action), db)
          else
            (case createApprovalGate (default_ms DEFAULT_APPROVAL_TIMEOUT_MS (go_timeoutMs options))
               (default_ms APPROVAL_POLL_INTERVAL_MS (go_pollIntervalMs options)) of
               Inl e \<Rightarrow> Some (Inl (Auth_defect e), db)
             | Inr timeoutMs \<Rightarrow>
                 (case gate_open redact w now timeoutMs db spaceId (tc_runId call) (tc_callId call)
                    (tc_tool call) (tc_arguments call) of
                    (Inl e, db1) \<Rightarrow> Some (Inl (Auth_gate e), db1)
                  | (Inr requested, db1) \<Rightarrow>
                      map_option (\<lambda>(r, db2). (of_decided action r, db2))
                        (waitFor E spaceId (ap_runId requested) (ap_callId requested) 0 db1))))"

text \<open>The result a refused or denied call reports to the model.\<close>

fun refusal_fields :: "dangerous_action \<Rightarrow> string \<Rightarrow> string \<Rightarrow> js_record" where
  "refusal_fields action reason message =
     [(''ok'', JBool False), (''reason'', JStr reason), (''class'', JStr (class_name (da_class action))),
      (''message'', JStr message)]"

fun actionRefusalResult :: "action_authorization \<Rightarrow> js option" where
  "actionRefusalResult Auth_refused_url =
     Some (JObj [(''ok'', JBool False), (''reason'', JStr ''invalid_url''),
                 (''message'', JStr ''the URL is not a valid destination'')])"
| "actionRefusalResult (Auth_unavailable action) =
     Some (JObj (refusal_fields action ''approval_unavailable''
       (''this run has no approval gate, so '' @ da_summary action @ '' was refused'')))"
| "actionRefusalResult (Auth_timed_out action) =
     Some (JObj (refusal_fields action ''approval_timed_out''
       (''no one answered the approval request to '' @ da_summary action @ '' before the deadline'')))"
| "actionRefusalResult (Auth_denied action row) =
     Some (JObj (refusal_fields action ''approval_denied''
       (''the operator denied a request to '' @ da_summary action) @
       (case ap_reason row of None \<Rightarrow> [] | Some r \<Rightarrow> [(''operatorReason'', JStr r)])))"
| "actionRefusalResult _ = None"

section \<open>The wait ends\<close>

lemma gate_evolves_keys:
  "gate_evolves a b \<Longrightarrow> ap_runId b = ap_runId a \<and> ap_callId b = ap_callId a \<and> ap_expiresAt b = ap_expiresAt a"
  by (auto simp: gate_evolves_def)

definition fair_env :: "gate_env \<Rightarrow> bool" where
  "fair_env E \<longleftrightarrow> (\<forall>i. fair_writers (ge_before E i) \<and> fair_writers (ge_between E i) \<and> fair_writers (ge_inside E i))"

lemma resolveTimeout_result:
  assumes "wf_approvals db" and "findApproval db s i k = Some a" and "fair_writers w"
  obtains b where "fst (resolveTimeout now w db s i k) = Inr b"
    and "findApproval (snd (resolveTimeout now w db s i k)) s i k = Some b"
    and "gate_evolves a b" and "wf_approvals (snd (resolveTimeout now w db s i k))"
    and "ap_expiresAt a \<le> now \<Longrightarrow> ap_status b \<noteq> Pending"
proof -
  let ?t = "timeoutApproval now db s i k"
  have wf: "wf_approvals (snd ?t)"
    using approval_step_wf [OF approval_step.expired assms(1)] .
  obtain a1 where a1: "findApproval (snd ?t) s i k = Some a1" "gate_evolves a a1"
    using findApproval_steps [OF r_into_rtranclp [where r = approval_step, OF approval_step.expired] assms(1,2)]
    by blast
  show thesis
  proof (cases "fst ?t")
    case (Some b)
    then have "findApproval (snd ?t) s i k = Some b"
      using timeout.cas_hit [where now = now, OF assms(1)] wf by (simp add: timeout_statement)
    moreover have "ap_status b \<noteq> Pending"
      using Some assms(1,2) timeout.cas_result [where now = now, OF assms(1)]
      by (auto simp: timeout_statement timed_out_def split: if_splits)
    moreover have "resolveTimeout now w db s i k = (Inr b, snd ?t)"
      using Some by (cases ?t) (simp add: resolveTimeout_def)
    ultimately show thesis using that [of b] a1 wf by simp
  next
    case None
    then have same: "snd ?t = db" using timeout.cas_miss [where now = now] by (simp add: timeout_statement)
    have p: "ap_expiresAt a \<le> now \<Longrightarrow> ap_status a \<noteq> Pending"
      using None assms(1,2) timeout.cas_result [where now = now, OF assms(1)]
      by (auto simp: timeout_statement split: if_splits)
    obtain b where b: "findApproval (w db) s i k = Some b" "gate_evolves a b" "wf_approvals (w db)"
      using fair_writersD [OF assms(3,1)] assms(2) by blast
    have "ap_expiresAt a \<le> now \<Longrightarrow> ap_status b \<noteq> Pending"
      using p gate_final [OF b(2)] by auto
    moreover have "resolveTimeout now w db s i k = (Inr b, w db)"
      using None same b(1) by (cases ?t) (simp add: resolveTimeout_def)
    ultimately show thesis using that [of b] b by simp
  qed
qed

text \<open>What a finished wait says about the gate it waited on.\<close>

definition wait_answer :: "approval_tables \<Rightarrow> string \<Rightarrow> string \<Rightarrow> string \<Rightarrow> gate_error + approval_row \<Rightarrow> bool" where
  "wait_answer db s i k r \<longleftrightarrow>
     (\<exists>a. findApproval db s i k = Some a \<and> ap_status a \<noteq> Pending \<and>
        r = (if ap_status a = Timed_out then Inl (GateTimeoutError k) else Inr a))"

lemma wait_answerI:
  "findApproval db s i k = Some a \<Longrightarrow> ap_status a \<noteq> Pending \<Longrightarrow> ap_callId a = k \<Longrightarrow>
   r = (if ap_status a = Timed_out then Inl (GateTimeoutError (ap_callId a)) else Inr a) \<Longrightarrow>
   wait_answer db s i k r"
  by (auto simp: wait_answer_def)

lemma findApproval_key: "findApproval db s i k = Some a \<Longrightarrow> ap_callId a = k \<and> ap_runId a = i \<and> ap_spaceId a = s"
  by (auto simp: findApproval_def find_Some_iff)

lemma poll_round_cases:
  assumes "wf_approvals db" and "findApproval db s i k = Some a" and "fair_env E"
    and "poll_round E s i k n db = (r, db')"
  shows "wf_approvals db' \<and> (\<exists>b. findApproval db' s i k = Some b \<and> gate_evolves a b) \<and>
    (case r of None \<Rightarrow> \<not> (ap_expiresAt a \<le> ge_clock E n \<and> ap_expiresAt a \<le> ge_server E n)
     | Some res \<Rightarrow> wait_answer db' s i k res)"
proof -
  have fair: "fair_writers (ge_before E n)" "fair_writers (ge_between E n)" "fair_writers (ge_inside E n)"
    using assms(3) by (simp_all add: fair_env_def)
  define db1 where "db1 = ge_before E n db"
  obtain a1 where a1: "findApproval db1 s i k = Some a1" "gate_evolves a a1" and wf1: "wf_approvals db1"
    using fair_writersD [OF fair(1) assms(1)] assms(2) unfolding db1_def by blast
  note key = findApproval_key [OF a1(1)] and e = gate_evolves_keys [OF a1(2)]
  consider (decided) "ap_status a1 \<noteq> Pending" | (early) "ap_status a1 = Pending" "\<not> ap_expiresAt a1 \<le> ge_clock E n"
    | (due) "ap_status a1 = Pending" "ap_expiresAt a1 \<le> ge_clock E n" by blast
  then show ?thesis
  proof cases
    case decided
    then have "db' = db1" "r = Some (if ap_status a1 = Timed_out then Inl (GateTimeoutError (ap_callId a1)) else Inr a1)"
      using assms(4) a1(1) by (cases "ap_status a1"; simp add: poll_round_def db1_def [symmetric])+
    then show ?thesis using a1 wf1 decided key by (auto intro: wait_answerI)
  next
    case early
    then have "db' = db1" "r = None" using assms(4) a1(1) by (auto simp: poll_round_def db1_def [symmetric])
    then show ?thesis using a1 wf1 early e by auto
  next
    case due
    define db2 where "db2 = ge_between E n db1"
    obtain a2 where a2: "findApproval db2 s i k = Some a2" "gate_evolves a1 a2" and wf2: "wf_approvals db2"
      using fair_writersD [OF fair(2) wf1] a1(1) unfolding db2_def by blast
    let ?res = "resolveTimeout (ge_server E n) (ge_inside E n) db2 s i k"
    obtain b where b: "fst ?res = Inr b" "findApproval (snd ?res) s i k = Some b" "gate_evolves a2 b"
        "wf_approvals (snd ?res)" "ap_expiresAt a2 \<le> ge_server E n \<Longrightarrow> ap_status b \<noteq> Pending"
      using resolveTimeout_result [OF wf2 a2(1) fair(3), where now = "ge_server E n"] by blast
    have r: "db' = snd ?res" "r = (if ap_status b = Pending then None
        else Some (if ap_status b = Timed_out then Inl (GateTimeoutError (ap_callId b)) else Inr b))"
      using assms(4) a1(1) due b(1)
      by (cases "ap_status b"; simp add: poll_round_def db1_def [symmetric] db2_def [symmetric] storeCall_def split_beta)+
    have ev: "gate_evolves a b" using a1(2) a2(2) b(3) gate_evolves_trans by blast
    have "ap_expiresAt a2 = ap_expiresAt a" using gate_evolves_keys a1(2) a2(2) by metis
    then show ?thesis using r b ev findApproval_key [OF b(2)] by (auto intro: wait_answerI)
  qed
qed

lemma waitFor_sound:
  assumes "waitFor E s i k n db = Some (r, db')" and "wf_approvals db" and "findApproval db s i k = Some a"
    and "fair_env E"
  shows "wait_answer db' s i k r \<and> wf_approvals db' \<and> (\<exists>b. findApproval db' s i k = Some b \<and> gate_evolves a b)"
proof -
  define P where "P = (\<lambda>E s i k (n :: nat) db (y :: (gate_error + approval_row) \<times> approval_tables).
    \<forall>a. wf_approvals db \<longrightarrow> findApproval db s i k = Some a \<longrightarrow> fair_env E \<longrightarrow>
      wait_answer (snd y) s i k (fst y) \<and> wf_approvals (snd y) \<and>
      (\<exists>b. findApproval (snd y) s i k = Some b \<and> gate_evolves a b))"
  have "P E s i k n db (r, db')"
  proof (rule waitFor.raw_induct [OF _ assms(1)])
    fix f E s i k n db y
    assume ih: "\<And>E s i k n db y. f E s i k n db = Some y \<Longrightarrow> P E s i k n db y"
      and body: "(case poll_round E s i k n db of (None, db') \<Rightarrow> f E s i k (Suc n) db'
          | (Some r, db') \<Rightarrow> Some (r, db')) = Some y"
    obtain q db1 where q: "poll_round E s i k n db = (q, db1)" by fastforce
    show "P E s i k n db y"
      unfolding P_def
    proof (intro allI impI)
      fix a
      assume a: "wf_approvals db" "findApproval db s i k = Some a" "fair_env E"
      note r = poll_round_cases [OF a q]
      show "wait_answer (snd y) s i k (fst y) \<and> wf_approvals (snd y) \<and>
          (\<exists>b. findApproval (snd y) s i k = Some b \<and> gate_evolves a b)"
      proof (cases q)
        case None
        obtain b where b: "findApproval db1 s i k = Some b" "gate_evolves a b" using r by blast
        have "P E s i k (Suc n) db1 y" using ih body q None by simp
        then obtain c where "wait_answer (snd y) s i k (fst y)" "wf_approvals (snd y)"
            "findApproval (snd y) s i k = Some c" "gate_evolves b c"
          using r b a(3) unfolding P_def by blast
        then show ?thesis using gate_evolves_trans [OF b(2)] by blast
      next
        case (Some res)
        then show ?thesis using body q r by auto
      qed
    qed
  qed
  then show ?thesis using assms(2-4) unfolding P_def by simp
qed

text \<open>Once both clocks have reached the deadline at some poll, the wait has ended by then.\<close>

lemma waitFor_ends:
  assumes "wf_approvals db" and "findApproval db s i k = Some a" and "fair_env E" and "n \<le> m"
    and "ap_expiresAt a \<le> ge_clock E m" and "ap_expiresAt a \<le> ge_server E m"
  shows "\<exists>y. waitFor E s i k n db = Some y"
  using assms
proof (induction "m - n" arbitrary: n db a)
  case 0
  then have "n = m" by simp
  obtain q db1 where q: "poll_round E s i k n db = (q, db1)" by fastforce
  have "q \<noteq> None"
    using poll_round_cases [OF "0.prems"(1-3) q] "0.prems"(5,6) \<open>n = m\<close> by (auto split: option.splits)
  then show ?case using q by (subst waitFor.simps) auto
next
  case (Suc d)
  obtain q db1 where q: "poll_round E s i k n db = (q, db1)" by fastforce
  note r = poll_round_cases [OF Suc.prems(1-3) q]
  then obtain b where b: "findApproval db1 s i k = Some b" "gate_evolves a b" "wf_approvals db1" by blast
  have "\<exists>y. waitFor E s i k (Suc n) db1 = Some y"
    using Suc.hyps(1) [OF _ b(3,1) Suc.prems(3)] Suc.hyps(2) Suc.prems gate_evolves_keys [OF b(2)] by simp
  then show ?case using q by (subst waitFor.simps) (cases q, auto)
qed

section \<open>What an authorization means\<close>

text \<open>Nobody but the opener of a gate makes it appear, and only for a run of the space.\<close>

lemma step_no_run:
  assumes "approval_step db db'" and "\<not> list_ex (\<lambda>r. rw_id r = i \<and> rw_spaceId r = s) (runs db)"
    and "findApproval db s i k = None"
  shows "\<not> list_ex (\<lambda>r. rw_id r = i \<and> rw_spaceId r = s) (runs db') \<and> findApproval db' s i k = None"
  using assms
proof cases
  case (opened s' q)
  then show ?thesis using assms(2,3)
    by (auto simp: insert_approval_def findApproval_def find_None_iff pending_row_def)
next
  case (expired now s' i' k')
  then show ?thesis using assms(2,3)
    by (auto simp: timeoutApproval_def Let_def findApproval_def find_None_iff update_where_def timed_out_def)
next
  case (decided now s' u v)
  then show ?thesis using assms(2,3)
    by (auto simp: vote_statement_def Let_def findApproval_def find_None_iff update_where_def voted_def)
qed

lemma steps_no_run:
  "approval_step\<^sup>*\<^sup>* db db' \<Longrightarrow> \<not> list_ex (\<lambda>r. rw_id r = i \<and> rw_spaceId r = s) (runs db) \<Longrightarrow>
   findApproval db s i k = None \<Longrightarrow>
   \<not> list_ex (\<lambda>r. rw_id r = i \<and> rw_spaceId r = s) (runs db') \<and> findApproval db' s i k = None"
proof (induction rule: rtranclp_induct)
  case (step db1 db2)
  then show ?case using step_no_run [OF step.hyps(2)] by blast
qed simp

lemma other_space:
  assumes "wf_approvals db" and "find_gate db i k = Some b"
  shows "findApproval db s i k = None \<longleftrightarrow> ap_spaceId b \<noteq> s"
proof (cases "findApproval db s i k")
  case None
  then show ?thesis using findApproval_iff [OF assms(1), of s i k b] assms(2) by simp
next
  case (Some a)
  then show ?thesis using findApproval_iff [OF assms(1), of s i k a] assms(2) by simp
qed

lemma insert_approval_skips:
  assumes "insert_approval db s q = (res, db1)" and "\<nexists>x. res = Inr (Some x)" and "res \<noteq> Inl Check_violation"
    and "wf_approvals db" and "approval_step\<^sup>*\<^sup>* db1 db2"
    and "findApproval db s (aq_runId q) (aq_callId q) = None"
  shows "findApproval db2 s (aq_runId q) (aq_callId q) = None"
proof -
  have same: "db1 = db" using assms(1,2) by (auto simp: insert_approval_def split: if_splits)
  show ?thesis
  proof (cases "list_ex (\<lambda>r. rw_id r = aq_runId q \<and> rw_spaceId r = s) (runs db)")
    case True
    then have "list_ex (\<lambda>a. approval_id a = (aq_runId q, aq_callId q)) (approvals db)"
      using assms(1-3) by (auto simp: insert_approval_def split: if_splits)
    then obtain b where b: "find_gate db (aq_runId q) (aq_callId q) = Some b"
      unfolding find_gate_def by (metis find_None_iff list_ex_iff not_None_eq)
    then obtain c where c: "find_gate db2 (aq_runId q) (aq_callId q) = Some c" "gate_evolves b c"
      using steps_gate assms(5) same by blast
    have "ap_spaceId b \<noteq> s" using other_space [OF assms(4) b] assms(6) by simp
    then have "ap_spaceId c \<noteq> s" using c(2) by (simp add: gate_evolves_def)
    moreover have "wf_approvals db2" using approval_steps_wf assms(4,5) same by blast
    ultimately show ?thesis using other_space c(1) by blast
  next
    case False
    then show ?thesis using steps_no_run assms(5,6) same by blast
  qed
qed

lemma approval_open_row:
  assumes "approval_open w db s q = (Inr a, db')" and "wf_approvals db" and "fair_writers w"
  shows "wf_approvals db' \<and> findApproval db' s (aq_runId q) (aq_callId q) = Some a \<and>
    gate_evolves (case findApproval db s (aq_runId q) (aq_callId q) of None \<Rightarrow> pending_row s q | Some b \<Rightarrow> b) a"
proof -
  obtain res db1 where ins: "insert_approval db s q = (res, db1)" by fastforce
  have wf1: "wf_approvals db1"
    using approval_step_wf [OF approval_step.opened assms(2), of s q] ins by simp
  show ?thesis
  proof (cases "\<exists>x. res = Inr (Some x)")
    case True
    then have x: "res = Inr (Some a)" "db' = db1" using assms(1) ins by (auto simp: approval_open_def)
    then have a: "a = pending_row s q" "db1 = db\<lparr>approvals := approvals db @ [pending_row s q]\<rparr>"
      and new: "\<not> list_ex (\<lambda>a. approval_id a = (aq_runId q, aq_callId q)) (approvals db)"
      using ins by (auto simp: insert_approval_def split: if_splits)
    moreover have "find_gate db1 (aq_runId q) (aq_callId q) = Some (pending_row s q)"
      using find_key_distinct [of approval_id "approvals db1" "pending_row s q"] wf1 calculation(2)
      by (simp add: find_gate_def wf_approvals_def pending_row_def)
    moreover have "findApproval db s (aq_runId q) (aq_callId q) = None"
      using new by (auto simp: findApproval_def find_None_iff list_ex_iff)
    ultimately show ?thesis
      using wf1 x(2) findApproval_iff [OF wf1] by (simp add: pending_row_def gate_evolves_refl)
  next
    case False
    then have w: "db' = w db1" "findApproval (w db1) s (aq_runId q) (aq_callId q) = Some a"
      using assms(1) ins by (auto simp: approval_open_def split: sum.splits option.splits)
    have same: "db1 = db" using ins False by (auto simp: insert_approval_def split: if_splits)
    have "res \<noteq> Inl Check_violation" using assms(1) ins by (auto simp: approval_open_def)
    then obtain b where b: "findApproval db s (aq_runId q) (aq_callId q) = Some b"
      using insert_approval_skips [OF ins False _ assms(2), of "w db1"] assms(3) w(2)
      by (cases "findApproval db s (aq_runId q) (aq_callId q)") (simp_all add: fair_writers_def)
    obtain c where "findApproval (w db1) s (aq_runId q) (aq_callId q) = Some c" "gate_evolves b c"
      using fair_writersD(2) [OF assms(3) wf1] b same by blast
    then show ?thesis using fair_writersD(1) [OF assms(3) wf1] w b by simp
  qed
qed

lemma authorize_dangerous:
  assumes "authorize hostname redact options now w E s call declared db = Some (Inr res, db')"
    and "wf_approvals db" and "fair_writers w" and "fair_env E"
    and "classifyDangerousAction hostname
      \<lparr> dr_tool = tc_tool call, dr_arguments = tc_arguments call,
        dr_home = (case go_home options of None \<Rightarrow> COMPUTER_HOME_DIRECTORY | Some h \<Rightarrow> h),
        dr_allowlist = (case go_allowlist options of None \<Rightarrow> EMPTY_EGRESS_ALLOWLIST | Some l \<Rightarrow> l),
        dr_declared = declared \<rparr> = Inr (Dangerous action)"
    and "go_store options"
  shows "\<exists>t row. createApprovalGate (default_ms DEFAULT_APPROVAL_TIMEOUT_MS (go_timeoutMs options))
      (default_ms APPROVAL_POLL_INTERVAL_MS (go_pollIntervalMs options)) = Inr t \<and>
    findApproval db' s (tc_runId call) (tc_callId call) = Some row \<and> wf_gate row \<and>
    gate_evolves (case findApproval db s (tc_runId call) (tc_callId call) of
        None \<Rightarrow> pending_row s \<lparr> aq_runId = tc_runId call, aq_callId = tc_callId call, aq_tool = tc_tool call,
          aq_arguments = redact (tc_arguments call), aq_expiresAt = now + t \<rparr>
      | Some b \<Rightarrow> b) row \<and>
    ap_status row \<noteq> Pending \<and>
    res = (case ap_status row of Approved \<Rightarrow> Auth_approved action row | Denied \<Rightarrow> Auth_denied action row
             | _ \<Rightarrow> Auth_timed_out action)"
proof -
  obtain t requested db1 r where
    t: "createApprovalGate (default_ms DEFAULT_APPROVAL_TIMEOUT_MS (go_timeoutMs options))
      (default_ms APPROVAL_POLL_INTERVAL_MS (go_pollIntervalMs options)) = Inr t"
    and o: "gate_open redact w now t db s (tc_runId call) (tc_callId call) (tc_tool call) (tc_arguments call) =
        (Inr requested, db1)"
    and w: "waitFor E s (ap_runId requested) (ap_callId requested) 0 db1 = Some (r, db')"
    and res: "of_decided action r = Inr res"
    using assms(1,5,6)
    by (auto simp: authorize_def split: sum.splits danger_verdict.splits if_splits prod.splits)
  let ?q = "\<lparr> aq_runId = tc_runId call, aq_callId = tc_callId call, aq_tool = tc_tool call,
      aq_arguments = redact (tc_arguments call), aq_expiresAt = now + t \<rparr>"
  have ao: "approval_open w db s ?q = (Inr requested, db1)"
    using o by (cases "approval_open w db s ?q")
      (auto simp: gate_open_def storeCall_def split: option.splits sum.splits approval_error.splits)
  have g: "wf_approvals db1" "findApproval db1 s (tc_runId call) (tc_callId call) = Some requested"
      "gate_evolves (case findApproval db s (tc_runId call) (tc_callId call) of None \<Rightarrow> pending_row s ?q | Some b \<Rightarrow> b)
         requested"
    using approval_open_row [OF ao assms(2,3)] by simp_all
  note key = findApproval_key [OF g(2)]
  obtain row where row: "findApproval db' s (tc_runId call) (tc_callId call) = Some row" "ap_status row \<noteq> Pending"
      "r = (if ap_status row = Timed_out then Inl (GateTimeoutError (tc_callId call)) else Inr row)"
    and wf: "wf_approvals db'" and ev: "gate_evolves requested row"
    using waitFor_sound [OF w g(1) _ assms(4), of requested] g(2) key by (auto simp: wait_answer_def)
  have "wf_gate row" using findApproval_wf [OF wf row(1)] .
  moreover note t row(1,2) gate_evolves_trans [OF g(3) ev]
  moreover have "res = (case ap_status row of Approved \<Rightarrow> Auth_approved action row | Denied \<Rightarrow> Auth_denied action row
             | _ \<Rightarrow> Auth_timed_out action)"
    using row(2,3) res by (cases "ap_status row"; simp add: of_decided_def)
  ultimately show ?thesis by blast
qed

end
