(* ===== verification/Action_Properties.thy ===== *)
theory Action_Properties
  imports Tool_Dispatch Approval_Gate
begin

text \<open>
  The correctness properties of what a run does to the outside: a tool call through the
  dispatcher, and the approval a dangerous call waits for.
\<close>

section \<open>Dispatching a tool call\<close>

text \<open>
  C5: A tool call runs its handler at most once. When a dispatcher that was accepted ran the
  handler of a call, the handler is that of a registration whose budget fits the run lease, and the
  heartbeat had succeeded after the durable claim. Whatever workers, reclaims, the handler itself
  and settlements do afterwards, no later dispatch under the same call id runs a handler again; and
  when the call came back with an outcome, every later dispatch of it answers with the recorded
  form of that outcome.
\<close>

theorem dispatch_once:
  assumes "createToolDispatcher rs ttl = Inr d" and "wf_run_tables db"
    and "executeTool (db_ledger redact (reflexive_eq R) s) hb (dp_registry d) c db = (res, db1, True)"
    and "\<forall>x. run_db_step\<^sup>*\<^sup>* x (snd (hb x))"
    and "\<forall>r \<in> set rs. \<forall>c x. run_db_step\<^sup>*\<^sup>* x (snd (rg_execute r c x))"
    and "run_db_step\<^sup>*\<^sup>* db1 db2"
  shows "(\<exists>r \<in> set rs. rg_name r = tc_tool c \<and> num_le (rg_maxDurationMs r) ttl) \<and>
    fst (claim_effect redact db s c) \<and> fst (hb (snd (claim_effect redact db s c))) = Inr () \<and>
    (\<forall>hb' reg' e. tc_runId e = tc_runId c \<and> tc_callId e = tc_callId c \<longrightarrow>
       \<not> snd (snd (executeTool (db_ledger redact (reflexive_eq R) s) hb' reg' e db2))) \<and>
    (\<forall>out hb'. res = Inr out \<longrightarrow>
       fst (executeTool (db_ledger redact (reflexive_eq R) s) hb' (dp_registry d) c db2) =
         Inr (json_outcome out))"
proof -
  let ?lg = "db_ledger redact (reflexive_eq R) s"
  have reg: "dp_registry d = map (\<lambda>r. (rg_name r, r)) rs" "list_all (registration_ok ttl) rs"
    using assms(1) registrations_Inr [of ttl "[]" rs]
    by (auto simp: createToolDispatcher_def result_simps split: if_splits)
  have fh: "dbl.fair_heartbeat hb" using assms(4) by (simp add: dbl.fair_heartbeat_def)
  have fr: "dbl.fair_registry (dp_registry d)" using assms(5) by (auto simp: dbl.fair_registry_def reg)
  obtain r where r: "map_of (dp_registry d) (tc_tool c) = Some r" "fst (lg_begin ?lg c db) = Inr Started"
      "fst (hb (snd (lg_begin ?lg c db))) = Inr ()"
    using dbl.handler_ran [OF assms(3) fh fr] by metis
  have "(tc_tool c, r) \<in> set (dp_registry d)" using r(1) by (rule map_of_SomeD)
  then have "r \<in> set rs \<and> rg_name r = tc_tool c \<and> num_le (rg_maxDurationMs r) ttl"
    using reg by (auto simp: list_all_iff registration_ok_def)
  moreover have "fst (claim_effect redact db s c) \<and> fst (hb (snd (claim_effect redact db s c))) = Inr ()"
    using r(2,3) by (simp add: db_ledger_def ledger_begin_Started ledger_begin_state)
  ultimately show ?thesis
    using dbl.handler_once [OF assms(2,3) fh fr assms(6)] r(1)
      dbl.outcome_replayed [where invoked = True, OF assms(2) _ fh fr assms(6)] assms(3)
    by (auto simp: same_call_def)
qed

definition demo_tables :: run_tables where
  "demo_tables = \<lparr> runs = [queued_row ''r'' ''s'' ''b'' ''t''], attempts = [], effects = [] \<rparr>"

definition demo_tool :: "run_tables registration" where
  "demo_tool = \<lparr> rg_name = ''shell'', rg_description = ''runs a command'', rg_parameters = JObj [],
     rg_maxDurationMs = Fin 1000, rg_execute = (\<lambda>c x. (Exit_success (Json (JStr ''ok'')), x)) \<rparr>"

definition demo_call :: tool_call where
  "demo_call = \<lparr> tc_runId = ''r'', tc_callId = ''c'', tc_tool = ''shell'', tc_arguments = JNull \<rparr>"

definition demo_dispatcher :: "run_tables dispatcher" where
  "demo_dispatcher = \<lparr> dp_registry = [(''shell'', demo_tool)], dp_definitions =
     [\<lparr> td_name = ''shell'', td_description = ''runs a command'', td_parameters = JObj [] \<rparr>] \<rparr>"

abbreviation demo_beat :: "run_tables \<Rightarrow> (string + unit) \<times> run_tables" where
  "demo_beat x \<equiv> (Inr (), x)"

lemma demo_created: "createToolDispatcher [demo_tool] (Fin 60000) = Inr demo_dispatcher"
  by (simp add: createToolDispatcher_def positive_integer_def register_def validateRegistration_def
      demo_tool_def demo_dispatcher_def trim_def is_space_def code_unit_def Let_def max_safe_integer_def)

abbreviation demo_execute ::
  "run_tables \<Rightarrow> (dispatch_error + tool_outcome) \<times> run_tables \<times> bool" where
  "demo_execute \<equiv> executeTool (db_ledger id (reflexive_eq (=)) ''s'') demo_beat (dp_registry demo_dispatcher) demo_call"

lemma demo_ran: "snd (snd (demo_execute demo_tables))"
  by code_simp

theorem dispatch_once_witness:
  "snd (snd (demo_execute demo_tables)) \<and> \<not> snd (snd (demo_execute (fst (snd (demo_execute demo_tables)))))"
proof -
  have wf: "wf_run_tables demo_tables" by (simp add: wf_run_tables_def demo_tables_def)
  have h: "\<forall>x. run_db_step\<^sup>*\<^sup>* x (snd (demo_beat x))"
    "\<forall>r \<in> set [demo_tool]. \<forall>c x. run_db_step\<^sup>*\<^sup>* x (snd (rg_execute r c x))"
    by (simp_all add: demo_tool_def)
  have e: "demo_execute demo_tables =
      (fst (demo_execute demo_tables), fst (snd (demo_execute demo_tables)), True)"
    using demo_ran by (intro prod_eqI) auto
  show ?thesis using dispatch_once [OF demo_created wf e h rtranclp.rtrancl_refl] demo_ran by blast
qed

section \<open>Waiting for an approval\<close>

text \<open>
  C26: A wait on an approval ends. Let other processes vote on, expire and open gates between any
  two statements of the wait. If at some poll both the waiting process and the server read a
  clock at or past the deadline, the polling loop returns by then; and whenever it returns, the
  gate is resolved in the table and the answer is that resolution: the row of an approval or a
  denial, or the timeout error.
\<close>

theorem gate_wait_ends:
  assumes "wf_approvals db" and "findApproval db s i k = Some a" and "fair_env E"
    and "ap_expiresAt a \<le> ge_clock E n" and "ap_expiresAt a \<le> ge_server E n"
  shows "\<exists>r db' b. waitFor E s i k 0 db = Some (r, db') \<and> findApproval db' s i k = Some b \<and>
    gate_evolves a b \<and> wf_gate b \<and> ap_status b \<noteq> Pending \<and>
    r = (if ap_status b = Timed_out then Inl (GateTimeoutError k) else Inr b)"
proof -
  obtain r db' where w: "waitFor E s i k 0 db = Some (r, db')"
    using waitFor_ends [OF assms(1-3) _ assms(4,5), of 0] by auto
  obtain b where "findApproval db' s i k = Some b" "gate_evolves a b" "wf_approvals db'"
      "wait_answer db' s i k r"
    using waitFor_sound [OF w assms(1-3)] by blast
  then show ?thesis
    using w findApproval_wf by (intro exI [of _ r] exI [of _ db'] exI [of _ b]) (auto simp: wait_answer_def)
qed

definition open_gate :: approval_row where
  "open_gate = pending_row ''s'' \<lparr> aq_runId = ''r'', aq_callId = ''c'', aq_tool = ''shell'',
     aq_arguments = JNull, aq_expiresAt = 600000 \<rparr>"

definition open_tables :: approval_tables where
  "open_tables = \<lparr> runs = [], attempts = [], effects = [], approvals = [open_gate] \<rparr>"

text \<open>Nobody votes; the process polls every minute and the server's clock is five seconds behind.\<close>

definition quiet_env :: gate_env where
  "quiet_env = \<lparr> ge_before = (\<lambda>_ db. db), ge_clock = (\<lambda>i. 60000 * int i), ge_between = (\<lambda>_ db. db),
     ge_server = (\<lambda>i. 60000 * int i - 5000), ge_inside = (\<lambda>_ db. db) \<rparr>"

theorem gate_wait_ends_witness:
  "\<exists>r db'. waitFor quiet_env ''s'' ''r'' ''c'' 0 open_tables = Some (r, db')"
proof -
  have wf: "wf_approvals open_tables"
    by (simp add: wf_approvals_def open_tables_def open_gate_def wf_gate_def pending_row_def)
  have f: "findApproval open_tables ''s'' ''r'' ''c'' = Some open_gate"
    by (simp add: findApproval_def open_tables_def open_gate_def pending_row_def)
  have e: "fair_env quiet_env" by (simp add: fair_env_def quiet_env_def fair_writers_def)
  have "ap_expiresAt open_gate \<le> ge_clock quiet_env 11" "ap_expiresAt open_gate \<le> ge_server quiet_env 11"
    by (simp_all add: open_gate_def quiet_env_def pending_row_def)
  from gate_wait_ends [OF wf f e this] show ?thesis by blast
qed

text \<open>
  C7: A call proceeds only if it is harmless or approved. What the guard answers is settled by the
  policy's verdict on the call. A safe call is allowed and a call whose destination is no URL is
  refused, both without touching the store. A dangerous call is refused when there is no store to
  ask; with one, the answer is the resolution of the row the store holds for the call: approved, with
  the operator who voted before the deadline, denied, or timed out. When no gate was open under the
  call's id before, that row is the one opened for this very call, with its tool, its redacted
  arguments and the configured deadline; otherwise it is the row that was open, resolved, whose tool
  and arguments the guard does not compare with the call's. Every answer but the safe one and the
  approved one carries a refusal for the model.
\<close>

theorem guard_requires_approval:
  assumes "authorize hostname redact options now w E s call declared db = Some (Inr res, db')"
    and "wf_approvals db" and "fair_writers w" and "fair_env E"
  shows "(case classifyDangerousAction hostname
      \<lparr> dr_tool = tc_tool call, dr_arguments = tc_arguments call,
        dr_home = (case go_home options of None \<Rightarrow> COMPUTER_HOME_DIRECTORY | Some h \<Rightarrow> h),
        dr_allowlist = (case go_allowlist options of None \<Rightarrow> EMPTY_EGRESS_ALLOWLIST | Some l \<Rightarrow> l),
        dr_declared = declared \<rparr> of
      Inl e \<Rightarrow> False
    | Inr Safe \<Rightarrow> res = Auth_allowed \<and> db' = db
    | Inr Refused_invalid_url \<Rightarrow> res = Auth_refused_url \<and> db' = db
    | Inr (Dangerous action) \<Rightarrow>
        if \<not> go_store options then res = Auth_unavailable action \<and> db' = db
        else \<exists>t row. createApprovalGate (default_ms DEFAULT_APPROVAL_TIMEOUT_MS (go_timeoutMs options))
            (default_ms APPROVAL_POLL_INTERVAL_MS (go_pollIntervalMs options)) = Inr t \<and>
          findApproval db' s (tc_runId call) (tc_callId call) = Some row \<and>
          gate_evolves (case findApproval db s (tc_runId call) (tc_callId call) of
              None \<Rightarrow> pending_row s \<lparr> aq_runId = tc_runId call, aq_callId = tc_callId call, aq_tool = tc_tool call,
                aq_arguments = redact (tc_arguments call), aq_expiresAt = now + t \<rparr>
            | Some opened \<Rightarrow> opened) row \<and>
          (case ap_status row of
             Pending \<Rightarrow> False
           | Approved \<Rightarrow> res = Auth_approved action row \<and> ap_decidedBy row \<noteq> None \<and>
               (\<exists>u. ap_decidedAt row = Some u \<and> u < ap_expiresAt row)
           | Denied \<Rightarrow> res = Auth_denied action row \<and> ap_decidedBy row \<noteq> None
           | Timed_out \<Rightarrow> res = Auth_timed_out action)) \<and>
    (actionRefusalResult res = None \<longleftrightarrow> res = Auth_allowed \<or> (\<exists>action row. res = Auth_approved action row))"
    (is "(case ?v of Inl e \<Rightarrow> False | Inr v \<Rightarrow> ?P v) \<and> ?R")
proof
  show "case ?v of Inl e \<Rightarrow> False | Inr v \<Rightarrow> ?P v"
  proof (cases ?v)
    case (Inl e)
    then show ?thesis using assms(1) by (simp add: authorize_def)
  next
    case (Inr v)
    show ?thesis
    proof (cases "\<exists>action. v = Dangerous action \<and> go_store options")
      case True
      then obtain action where a: "v = Dangerous action" "go_store options" by blast
      obtain t row where "createApprovalGate (default_ms DEFAULT_APPROVAL_TIMEOUT_MS (go_timeoutMs options))
            (default_ms APPROVAL_POLL_INTERVAL_MS (go_pollIntervalMs options)) = Inr t"
          "findApproval db' s (tc_runId call) (tc_callId call) = Some row"
          "gate_evolves (case findApproval db s (tc_runId call) (tc_callId call) of
              None \<Rightarrow> pending_row s \<lparr> aq_runId = tc_runId call, aq_callId = tc_callId call, aq_tool = tc_tool call,
                aq_arguments = redact (tc_arguments call), aq_expiresAt = now + t \<rparr>
            | Some opened \<Rightarrow> opened) row"
        and r: "wf_gate row" "ap_status row \<noteq> Pending"
          "res = (case ap_status row of Approved \<Rightarrow> Auth_approved action row | Denied \<Rightarrow> Auth_denied action row
             | _ \<Rightarrow> Auth_timed_out action)"
        using authorize_dangerous [OF assms Inr [unfolded a(1)] a(2)] by blast
      moreover have "case ap_status row of
             Pending \<Rightarrow> False
           | Approved \<Rightarrow> res = Auth_approved action row \<and> ap_decidedBy row \<noteq> None \<and>
               (\<exists>u. ap_decidedAt row = Some u \<and> u < ap_expiresAt row)
           | Denied \<Rightarrow> res = Auth_denied action row \<and> ap_decidedBy row \<noteq> None
           | Timed_out \<Rightarrow> res = Auth_timed_out action"
        using r by (cases "ap_status row") (simp_all add: wf_gate_def)
      ultimately show ?thesis using Inr a by auto
    next
      case False
      then show ?thesis using Inr assms(1) by (cases v) (auto simp: authorize_def)
    qed
  qed
  show ?R by (cases res) simp_all
qed

definition delete_call :: tool_call where
  "delete_call = \<lparr> tc_runId = ''r'', tc_callId = ''c'', tc_tool = ''mail'',
     tc_arguments = JObj [(''id'', JStr ''7'')] \<rparr>"

definition guard_asking :: guard_options where
  "guard_asking = \<lparr> go_store = True, go_home = None, go_allowlist = None, go_timeoutMs = None,
     go_pollIntervalMs = None \<rparr>"

definition no_gates :: approval_tables where
  "no_gates = \<lparr> runs = runs demo_tables, attempts = [], effects = [], approvals = [] \<rparr>"

text \<open>The operator approves the call a second after it was asked, before the second poll.\<close>

definition voting_env :: gate_env where
  "voting_env = quiet_env\<lparr>ge_before := (\<lambda>i db. if i = 1
     then snd (vote_statement 1000 db ''s'' ''operator''
       \<lparr>vi_runId = ''r'', vi_callId = ''c'', vi_vote = Approve, vi_reason = None\<rparr>)
     else db)\<rparr>"

abbreviation ask_to_delete ::
  "danger_class list option \<Rightarrow> ((authorize_error + action_authorization) \<times> approval_tables) option" where
  "ask_to_delete declared \<equiv> authorize (\<lambda>_. None) id guard_asking 0 id voting_env ''s'' delete_call declared no_gates"

definition approved_row :: approval_row where
  "approved_row = (pending_row ''s'' \<lparr> aq_runId = ''r'', aq_callId = ''c'', aq_tool = ''mail'',
     aq_arguments = JObj [(''id'', JStr ''7'')], aq_expiresAt = DEFAULT_APPROVAL_TIMEOUT_MS \<rparr>)
     \<lparr>ap_status := Approved, ap_decidedBy := Some ''operator'', ap_decidedAt := Some 1000\<rparr>"

definition deletion :: dangerous_action where
  "deletion = the (connectorAction \<lparr> dr_tool = ''mail'', dr_arguments = JObj [], dr_home = [],
     dr_allowlist = EMPTY_EGRESS_ALLOWLIST, dr_declared = Some [Delete_class] \<rparr> Delete_class)"

lemma asked:
  "ask_to_delete (Some [Delete_class]) =
     Some (Inr (Auth_approved deletion approved_row), no_gates\<lparr>approvals := [approved_row]\<rparr>)"
  by (code_simp, subst waitFor.simps, code_simp, subst waitFor.simps, code_simp)

theorem guard_requires_approval_witness:
  "\<exists>action row db'. ask_to_delete (Some [Delete_class]) = Some (Inr (Auth_approved action row), db') \<and>
     findApproval db' ''s'' ''r'' ''c'' = Some row \<and> ap_tool row = ''mail'' \<and>
     ap_arguments row = JObj [(''id'', JStr ''7'')] \<and> ap_decidedBy row \<noteq> None"
proof -
  have h: "wf_approvals no_gates" "fair_writers id" "fair_env voting_env"
    by (simp_all add: wf_approvals_def no_gates_def fair_writers_def fair_env_def voting_env_def quiet_env_def
        r_into_rtranclp approval_step.decided)
  have c: "classifyDangerousAction (\<lambda>_. None)
      \<lparr> dr_tool = tc_tool delete_call, dr_arguments = tc_arguments delete_call,
        dr_home = (case go_home guard_asking of None \<Rightarrow> COMPUTER_HOME_DIRECTORY | Some h \<Rightarrow> h),
        dr_allowlist = (case go_allowlist guard_asking of None \<Rightarrow> EMPTY_EGRESS_ALLOWLIST | Some l \<Rightarrow> l),
        dr_declared = Some [Delete_class] \<rparr> = Inr (Dangerous deletion)"
    "findApproval no_gates ''s'' (tc_runId delete_call) (tc_callId delete_call) = None" "go_store guard_asking"
    by code_simp+
  obtain t row where r: "findApproval (no_gates\<lparr>approvals := [approved_row]\<rparr>) ''s'' (tc_runId delete_call)
        (tc_callId delete_call) = Some row"
      "gate_evolves (pending_row ''s'' \<lparr> aq_runId = tc_runId delete_call, aq_callId = tc_callId delete_call,
        aq_tool = tc_tool delete_call, aq_arguments = id (tc_arguments delete_call), aq_expiresAt = 0 + t \<rparr>) row"
      "case ap_status row of Pending \<Rightarrow> False
       | Approved \<Rightarrow> Auth_approved deletion approved_row = Auth_approved deletion row \<and> ap_decidedBy row \<noteq> None \<and>
           (\<exists>u. ap_decidedAt row = Some u \<and> u < ap_expiresAt row)
       | Denied \<Rightarrow> Auth_approved deletion approved_row = Auth_denied deletion row \<and> ap_decidedBy row \<noteq> None
       | Timed_out \<Rightarrow> Auth_approved deletion approved_row = Auth_timed_out deletion"
    using guard_requires_approval [OF asked h, THEN conjunct1, unfolded c] c(3)
    by (simp only: sum.case danger_verdict.case option.case not_True_eq_False if_False) blast
  have "row = approved_row \<and> ap_decidedBy row \<noteq> None" using r(3) by (cases "ap_status row") auto
  then show ?thesis using asked r(1,2)
    by (intro exI [of _ deletion] exI [of _ row] exI [of _ "no_gates\<lparr>approvals := [approved_row]\<rparr>"])
      (simp add: gate_evolves_def pending_row_def delete_call_def, auto)
qed

end
