(* ===== verification/Thread_Store.thy ===== *)
theory Thread_Store
  imports Table Messaging Event_Reducer
begin

text \<open>
  The durable half of a thread: messages and steering (\<open>messages.ts\<close>), the submission that starts a
  run (\<open>run-creation.ts\<close>) and the event rows (\<open>run-event-sink.ts\<close>), over one set of tables. A
  command that the source runs in a transaction is one function from tables to tables, and on an
  exception it answers with the tables it was given. The ids the database generates are arguments.
\<close>

section \<open>Tables\<close>

record thread_row =
  th_id :: string
  th_spaceId :: string
  th_botId :: string
  th_nextMessageSeq :: nat
  th_nextEventSeq :: nat

record message_row =
  mg_id :: string
  mg_threadId :: string
  mg_seq :: nat
  mg_role :: message_role
  mg_blocks :: js
  mg_clientNonce :: string
  mg_runId :: "string option"

record task_row =
  tk_id :: string
  tk_spaceId :: string
  tk_botId :: string
  tk_threadId :: string
  tk_userId :: string
  tk_prompt :: string

record created_run =
  cr_id :: string
  cr_spaceId :: string
  cr_botId :: string
  cr_threadId :: string
  cr_taskId :: string
  cr_userId :: string
  cr_status :: run_status
  cr_trigger :: string
  cr_clientNonce :: string
  cr_sourceMessageId :: "string option"

record steering_row =
  sg_messageId :: string
  sg_botId :: string
  sg_userId :: string
  sg_runId :: string
  sg_claimedAt :: "int option"

record event_row =
  er_spaceId :: string
  er_threadId :: string
  er_seq :: nat
  er_type :: string
  er_payload :: js
  er_runId :: string

record conversation =
  cv_threads :: "thread_row list"
  cv_tasks :: "task_row list"
  cv_runs :: "created_run list"
  cv_messages :: "message_row list"
  cv_steering :: "steering_row list"
  cv_events :: "event_row list"

datatype store_failure =
    Not_found string string
  | Run_not_active string run_status
  | Unique_key
  | Defect string

abbreviation message_position :: "message_row \<Rightarrow> string \<times> nat" where
  "message_position m \<equiv> (mg_threadId m, mg_seq m)"

abbreviation message_nonce :: "message_row \<Rightarrow> string \<times> string" where
  "message_nonce m \<equiv> (mg_threadId m, mg_clientNonce m)"

abbreviation run_nonce :: "created_run \<Rightarrow> string \<times> string" where
  "run_nonce r \<equiv> (cr_spaceId r, cr_clientNonce r)"

text \<open>A transaction: an exception rolls everything back.\<close>

definition transaction :: "'s \<Rightarrow> 'e + 'a \<times> 's \<Rightarrow> ('e + 'a) \<times> 's" where
  "transaction db r = (case r of Inl e \<Rightarrow> (Inl e, db) | Inr (a, db') \<Rightarrow> (Inr a, db'))"

section \<open>Messages\<close>

definition in_thread :: "conversation \<Rightarrow> string \<Rightarrow> string \<Rightarrow> bool" where
  "in_thread db spaceId tid = list_ex (\<lambda>t. th_id t = tid \<and> th_spaceId t = spaceId) (cv_threads db)"

definition advance :: "thread_row \<Rightarrow> thread_row" where
  "advance t = t\<lparr>th_nextMessageSeq := th_nextMessageSeq t + 1\<rparr>"

text \<open>
  \<open>update thread set next_message_seq = next_message_seq + 1 where .. and P returning ..\<close>: the row
  after the update, and the tables.
\<close>

definition advance_where ::
  "(thread_row \<Rightarrow> bool) \<Rightarrow> conversation \<Rightarrow> string \<Rightarrow> string \<Rightarrow> thread_row option \<times> conversation" where
  "advance_where P db spaceId tid =
     (let Q = (\<lambda>t. th_id t = tid \<and> th_spaceId t = spaceId \<and> P t) in
      (first_row (returning Q advance (cv_threads db)),
       db\<lparr>cv_threads := update_where Q advance (cv_threads db)\<rparr>))"

definition allocateMessageSeq ::
  "conversation \<Rightarrow> string \<Rightarrow> string \<Rightarrow> store_failure + nat \<times> conversation" where
  "allocateMessageSeq db spaceId tid =
     (case advance_where (\<lambda>_. True) db spaceId tid of
        (None, _) \<Rightarrow> Inl (Not_found ''thread'' tid)
      | (Some t, db') \<Rightarrow> Inr (th_nextMessageSeq t - 1, db'))"

definition insertMessage ::
  "conversation \<Rightarrow> message_row \<Rightarrow> store_failure + message_row \<times> conversation" where
  "insertMessage db m =
     (if list_ex (\<lambda>x. message_position x = message_position m \<or> message_nonce x = message_nonce m)
           (cv_messages db)
      then Inl Unique_key
      else Inr (m, db\<lparr>cv_messages := cv_messages db @ [m]\<rparr>))"

definition listForThread :: "conversation \<Rightarrow> string \<Rightarrow> string \<Rightarrow> int \<Rightarrow> nat \<Rightarrow> message_row list" where
  "listForThread db spaceId tid afterSeq limit =
     (if in_thread db spaceId tid
      then take limit (sort_key mg_seq
        (filter (\<lambda>m. mg_threadId m = tid \<and> afterSeq < int (mg_seq m)) (cv_messages db)))
      else [])"

definition findByNonce :: "conversation \<Rightarrow> string \<Rightarrow> string \<Rightarrow> string \<Rightarrow> message_row option" where
  "findByNonce db spaceId tid nonce =
     (if in_thread db spaceId tid
      then find (\<lambda>m. mg_threadId m = tid \<and> mg_clientNonce m = nonce) (cv_messages db) else None)"

definition findSourceForRun :: "conversation \<Rightarrow> string \<Rightarrow> string \<Rightarrow> message_row option" where
  "findSourceForRun db spaceId rid =
     (case find (\<lambda>r. cr_id r = rid \<and> cr_spaceId r = spaceId) (cv_runs db) of
        None \<Rightarrow> None
      | Some r \<Rightarrow>
          (case cr_sourceMessageId r of
             None \<Rightarrow> None | Some i \<Rightarrow> find (\<lambda>m. mg_id m = i) (cv_messages db)))"

definition missingThreadOrRun :: "conversation \<Rightarrow> string \<Rightarrow> string \<Rightarrow> string \<Rightarrow> store_failure" where
  "missingThreadOrRun db spaceId tid rid =
     (if in_thread db spaceId tid then Not_found ''run'' rid else Not_found ''thread'' tid)"

text \<open>A send whose nonce is taken is answered with the row that holds it.\<close>

definition replay_nonce ::
  "string \<Rightarrow> string \<Rightarrow> string \<Rightarrow> (store_failure + message_row) \<times> conversation \<Rightarrow>
   (store_failure + message_row) \<times> conversation" where
  "replay_nonce spaceId tid nonce r =
     (case r of
        (Inl Unique_key, db) \<Rightarrow>
          (case findByNonce db spaceId tid nonce of
             None \<Rightarrow> (Inl Unique_key, db) | Some m \<Rightarrow> (Inr m, db))
      | _ \<Rightarrow> r)"

record new_message =
  nm_id :: string
  nm_threadId :: string
  nm_runId :: string
  nm_clientNonce :: string
  nm_blocks :: js

definition message_at :: "new_message \<Rightarrow> message_role \<Rightarrow> nat \<Rightarrow> message_row" where
  "message_at i role n =
     \<lparr>mg_id = nm_id i, mg_threadId = nm_threadId i, mg_seq = n, mg_role = role, mg_blocks = json_of (nm_blocks i),
      mg_clientNonce = nm_clientNonce i, mg_runId = Some (nm_runId i)\<rparr>"

definition appendAssistant ::
  "conversation \<Rightarrow> string \<Rightarrow> new_message \<Rightarrow> (store_failure + message_row) \<times> conversation" where
  "appendAssistant db spaceId i =
     replay_nonce spaceId (nm_threadId i) (nm_clientNonce i) (transaction db
       (case advance_where (\<lambda>t. list_ex (\<lambda>r. cr_id r = nm_runId i \<and> cr_spaceId r = spaceId \<and>
           cr_threadId r = nm_threadId i) (cv_runs db)) db spaceId (nm_threadId i) of
          (None, _) \<Rightarrow> Inl (missingThreadOrRun db spaceId (nm_threadId i) (nm_runId i))
        | (Some t, db') \<Rightarrow> insertMessage db' (message_at i Assistant (th_nextMessageSeq t - 1))))"

definition steerRefusal :: "conversation \<Rightarrow> string \<Rightarrow> string \<Rightarrow> string \<Rightarrow> store_failure" where
  "steerRefusal db spaceId tid rid =
     (if \<not> in_thread db spaceId tid then Not_found ''thread'' tid
      else case find (\<lambda>r. cr_id r = rid \<and> cr_spaceId r = spaceId \<and> cr_threadId r = tid) (cv_runs db) of
             None \<Rightarrow> Not_found ''run'' rid
           | Some r \<Rightarrow> Run_not_active rid (cr_status r))"

definition steer ::
  "conversation \<Rightarrow> string \<Rightarrow> string \<Rightarrow> new_message \<Rightarrow> (store_failure + message_row) \<times> conversation" where
  "steer db spaceId userId i =
     replay_nonce spaceId (nm_threadId i) (nm_clientNonce i) (transaction db
       (case advance_where (\<lambda>t. list_ex (\<lambda>r. cr_id r = nm_runId i \<and> cr_spaceId r = spaceId \<and>
           cr_threadId r = nm_threadId i \<and> cr_botId r = th_botId t \<and>
           cr_status r \<in> set ACTIVE_RUN_STATUSES) (cv_runs db)) db spaceId (nm_threadId i) of
          (None, _) \<Rightarrow> Inl (steerRefusal db spaceId (nm_threadId i) (nm_runId i))
        | (Some t, db') \<Rightarrow>
            bindE (insertMessage db' (message_at i User (th_nextMessageSeq t - 1))) (\<lambda>(m, db2).
              Inr (m, db2\<lparr>cv_steering := cv_steering db2 @
                [\<lparr>sg_messageId = mg_id m, sg_botId = th_botId t, sg_userId = userId,
                  sg_runId = nm_runId i, sg_claimedAt = None\<rparr>]\<rparr>))))"

definition claimSteeringMessages ::
  "int \<Rightarrow> conversation \<Rightarrow> string \<Rightarrow> string \<Rightarrow> (string \<times> string) list \<times> conversation" where
  "claimSteeringMessages now db spaceId rid =
     (let P = (\<lambda>s. sg_runId s = rid \<and> sg_claimedAt s = None \<and>
                list_ex (\<lambda>r. cr_id r = rid \<and> cr_spaceId r = spaceId \<and>
                  cr_status r \<in> set ACTIVE_RUN_STATUSES) (cv_runs db));
          claimed = map sg_messageId (filter P (cv_steering db)) in
      (map (\<lambda>m. (mg_id m, case messageText (mg_blocks m) of None \<Rightarrow> [] | Some t \<Rightarrow> t))
         (sort_key mg_seq (filter (\<lambda>m. mg_id m \<in> set claimed) (cv_messages db))),
       db\<lparr>cv_steering := update_where P (\<lambda>s. s\<lparr>sg_claimedAt := Some now\<rparr>) (cv_steering db)\<rparr>))"

text \<open>
  Clearing a thread. Deleting a message deletes its steering row and clears the source link of the
  run it started, as the foreign keys say.
\<close>

definition clearThread ::
  "conversation \<Rightarrow> string \<Rightarrow> string \<Rightarrow> (store_failure + unit) \<times> conversation" where
  "clearThread db spaceId tid =
     (if \<not> in_thread db spaceId tid then (Inl (Not_found ''thread'' tid), db)
      else
        (let gone = map mg_id (filter (\<lambda>m. mg_threadId m = tid) (cv_messages db)) in
         (Inr (), db\<lparr>
            cv_threads := update_where (\<lambda>t. th_id t = tid \<and> th_spaceId t = spaceId)
              (\<lambda>t. t\<lparr>th_nextMessageSeq := 0, th_nextEventSeq := 0\<rparr>) (cv_threads db),
            cv_events := filter (\<lambda>e. \<not> (er_spaceId e = spaceId \<and> er_threadId e = tid)) (cv_events db),
            cv_messages := filter (\<lambda>m. mg_threadId m \<noteq> tid) (cv_messages db),
            cv_steering := filter (\<lambda>s. sg_messageId s \<notin> set gone) (cv_steering db),
            cv_runs := update_where (\<lambda>r. \<exists>i \<in> set gone. cr_sourceMessageId r = Some i)
              (\<lambda>r. r\<lparr>cr_sourceMessageId := None\<rparr>) (cv_runs db)\<rparr>)))"

section \<open>Starting a run\<close>

record submission =
  sb_taskId :: string
  sb_runId :: string
  sb_messageId :: string
  sb_threadId :: string
  sb_clientNonce :: string
  sb_prompt :: string
  sb_blocks :: js

definition new_task :: "string \<Rightarrow> string \<Rightarrow> submission \<Rightarrow> thread_row \<Rightarrow> task_row" where
  "new_task spaceId userId i t =
     \<lparr>tk_id = sb_taskId i, tk_spaceId = spaceId, tk_botId = th_botId t, tk_threadId = th_id t,
      tk_userId = userId, tk_prompt = sb_prompt i\<rparr>"

definition new_run :: "string \<Rightarrow> string \<Rightarrow> submission \<Rightarrow> task_row \<Rightarrow> created_run" where
  "new_run spaceId userId i t =
     \<lparr>cr_id = sb_runId i, cr_spaceId = spaceId, cr_botId = tk_botId t, cr_threadId = tk_threadId t,
      cr_taskId = tk_id t, cr_userId = userId, cr_status = INITIAL_RUN_STATUS, cr_trigger = ''message'',
      cr_clientNonce = sb_clientNonce i, cr_sourceMessageId = None\<rparr>"

definition source_message :: "submission \<Rightarrow> nat \<Rightarrow> message_row" where
  "source_message i n =
     \<lparr>mg_id = sb_messageId i, mg_threadId = sb_threadId i, mg_seq = n, mg_role = User,
      mg_blocks = json_of (sb_blocks i), mg_clientNonce = sb_clientNonce i, mg_runId = Some (sb_runId i)\<rparr>"

text \<open>\<open>createOnce\<close>; the settled submission, whose run was not inserted, is \<open>None\<close> and rolled back.\<close>

definition createOnce ::
  "conversation \<Rightarrow> string \<Rightarrow> string \<Rightarrow> submission \<Rightarrow>
   store_failure + ((created_run \<times> task_row \<times> message_row) option \<times> conversation)" where
  "createOnce db spaceId userId i =
     (case find (\<lambda>t. th_id t = sb_threadId i \<and> th_spaceId t = spaceId) (cv_threads db) of
        None \<Rightarrow> Inl (Not_found ''thread'' (sb_threadId i))
      | Some t \<Rightarrow>
          (let task = new_task spaceId userId i t; run = new_run spaceId userId i task in
           if list_ex (\<lambda>r. run_nonce r = run_nonce run) (cv_runs db) then Inr (None, db)
           else
             bindE (allocateMessageSeq
                (db\<lparr>cv_tasks := cv_tasks db @ [task], cv_runs := cv_runs db @ [run]\<rparr>) spaceId (sb_threadId i))
              (\<lambda>(n, db1).
             bindE (insertMessage db1 (source_message i n)) (\<lambda>(m, db2).
               Inr (Some (run\<lparr>cr_sourceMessageId := Some (mg_id m)\<rparr>, task, m),
                    db2\<lparr>cv_runs := update_where (\<lambda>r. cr_id r = cr_id run \<and> cr_spaceId r = spaceId)
                      (\<lambda>r. r\<lparr>cr_sourceMessageId := Some (mg_id m)\<rparr>) (cv_runs db2)\<rparr>)))))"

definition readRunByNonce :: "conversation \<Rightarrow> string \<Rightarrow> string \<Rightarrow> created_run option" where
  "readRunByNonce db spaceId nonce =
     find (\<lambda>r. cr_spaceId r = spaceId \<and> cr_clientNonce r = nonce) (cv_runs db)"

definition replayedRow :: "string \<Rightarrow> string \<Rightarrow> 'r option \<Rightarrow> store_failure + 'r" where
  "replayedRow what rid row =
     (case row of None \<Rightarrow> Inl (Defect (''the run-creation replay found no '' @ what)) | Some r \<Rightarrow> Inr r)"

definition readByNonce ::
  "conversation \<Rightarrow> string \<Rightarrow> string \<Rightarrow> store_failure + (created_run \<times> task_row \<times> message_row) option" where
  "readByNonce db spaceId nonce =
     (case readRunByNonce db spaceId nonce of
        None \<Rightarrow> Inr None
      | Some run \<Rightarrow>
          (case cr_sourceMessageId run of
             None \<Rightarrow> Inl (Defect ''the run-creation replay found a run without its source message'')
           | Some i \<Rightarrow>
               bindE (replayedRow ''task'' (cr_id run)
                  (find (\<lambda>t. tk_id t = cr_taskId run \<and> tk_spaceId t = spaceId) (cv_tasks db))) (\<lambda>task.
               bindE (replayedRow ''message'' (cr_id run)
                  (find (\<lambda>m. mg_id m = i \<and> mg_threadId m = cr_threadId run) (cv_messages db))) (\<lambda>m.
               Inr (Some (run, task, m))))))"

definition createRunAndTask ::
  "conversation \<Rightarrow> string \<Rightarrow> string \<Rightarrow> submission \<Rightarrow>
   (store_failure + created_run \<times> task_row \<times> message_row) \<times> conversation" where
  "createRunAndTask db spaceId userId i =
     (case createOnce db spaceId userId i of
        Inl e \<Rightarrow> (Inl e, db)
      | Inr (Some created, db') \<Rightarrow> (Inr created, db')
      | Inr (None, _) \<Rightarrow>
          (case readByNonce db spaceId (sb_clientNonce i) of
             Inl e \<Rightarrow> (Inl e, db)
           | Inr (Some existing) \<Rightarrow> (Inr existing, db)
           | Inr None \<Rightarrow> (Inl (Not_found ''thread'' (sb_threadId i)), db)))"

section \<open>Events\<close>

definition payload_of :: "run_event \<Rightarrow> js" where
  "payload_of e = json_of (JObj (event_fields e))"

definition event_row_of :: "string \<Rightarrow> run_event \<Rightarrow> event_row" where
  "event_row_of spaceId e =
     \<lparr>er_spaceId = spaceId, er_threadId = threadId (ev_base e), er_seq = seq (ev_base e),
      er_type = event_type e, er_payload = payload_of e, er_runId = runId (ev_base e)\<rparr>"

definition sink_append ::
  "conversation \<Rightarrow> string \<Rightarrow> run_event \<Rightarrow> (store_failure + unit) \<times> conversation" where
  "sink_append db spaceId e =
     (let tid = threadId (ev_base e); rid = runId (ev_base e); n = seq (ev_base e) in
      if in_thread db spaceId tid \<and>
         list_ex (\<lambda>r. cr_id r = rid \<and> cr_spaceId r = spaceId \<and> cr_threadId r = tid) (cv_runs db)
      then if list_ex (\<lambda>x. er_threadId x = tid \<and> er_seq x = n) (cv_events db) then (Inl Unique_key, db)
           else (Inr (), db\<lparr>
             cv_threads := update_where (\<lambda>t. th_id t = tid \<and> th_spaceId t = spaceId)
               (\<lambda>t. t\<lparr>th_nextEventSeq := max (th_nextEventSeq t) (n + 1)\<rparr>) (cv_threads db),
             cv_events := cv_events db @ [event_row_of spaceId e]\<rparr>)
      else if in_thread db spaceId tid then (Inl (Not_found ''run'' rid), db)
      else (Inl (Not_found ''thread'' tid), db))"

definition stored_of :: "event_row \<Rightarrow> stored_event_row" where
  "stored_of x =
     \<lparr>row_payload = er_payload x, row_seq = Fin (of_nat (er_seq x)), row_threadId = er_threadId x,
      row_runId = Some (er_runId x), row_type = er_type x\<rparr>"

definition listAfter ::
  "conversation \<Rightarrow> string \<Rightarrow> string \<Rightarrow> int \<Rightarrow> nat \<Rightarrow> run_event_error + run_event list" where
  "listAfter db spaceId tid afterSeq limit =
     mapE (\<lambda>x. storedRunEvent (stored_of x))
       (if in_thread db spaceId tid
        then take limit (sort_key er_seq
          (filter (\<lambda>x. er_threadId x = tid \<and> afterSeq < int (er_seq x)) (cv_events db)))
        else [])"

end
