(* ===== verification/Thread_Facts.thy ===== *)
theory Thread_Facts
  imports Thread_Store
begin

text \<open>
  The invariant of the thread tables under any interleaving of their commands: what the counters,
  the unique indexes and the links between rows guarantee.
\<close>

section \<open>Commands as steps\<close>

definition fresh_thread :: "string \<Rightarrow> string \<Rightarrow> string \<Rightarrow> thread_row" where
  "fresh_thread i s b = \<lparr>th_id = i, th_spaceId = s, th_botId = b, th_nextMessageSeq = 0, th_nextEventSeq = 0\<rparr>"

inductive conv_step :: "conversation \<Rightarrow> conversation \<Rightarrow> bool" where
  open_thread: "i \<notin> th_id ` set (cv_threads db) \<Longrightarrow>
    conv_step db (db\<lparr>cv_threads := cv_threads db @ [fresh_thread i s b]\<rparr>)"
| assistant: "nm_id i \<notin> mg_id ` set (cv_messages db) \<Longrightarrow> conv_step db (snd (appendAssistant db s i))"
| steered: "nm_id i \<notin> mg_id ` set (cv_messages db) \<Longrightarrow> conv_step db (snd (steer db s u i))"
| claimed: "conv_step db (snd (claimSteeringMessages now db s rid))"
| cleared: "conv_step db (snd (clearThread db s tid))"
| created: "sb_messageId i \<notin> mg_id ` set (cv_messages db) \<Longrightarrow> sb_runId i \<notin> cr_id ` set (cv_runs db) \<Longrightarrow>
    sb_taskId i \<notin> tk_id ` set (cv_tasks db) \<Longrightarrow> conv_step db (snd (createRunAndTask db s u i))"
| event_stored: "conv_step db (snd (sink_append db s e))"
| progress: "canTransition st st' \<Longrightarrow> conv_step db (db\<lparr>cv_runs := update_where
    (\<lambda>r. cr_id r = rid \<and> cr_status r = st) (\<lambda>r. r\<lparr>cr_status := st'\<rparr>) (cv_runs db)\<rparr>)"

section \<open>Adding a message\<close>

definition thread_of :: "conversation \<Rightarrow> string \<Rightarrow> thread_row option" where
  "thread_of db tid = find (\<lambda>t. th_id t = tid) (cv_threads db)"

definition positions :: "conversation \<Rightarrow> string \<Rightarrow> nat list" where
  "positions db tid = map mg_seq (filter (\<lambda>m. mg_threadId m = tid) (cv_messages db))"

definition wf_transcript :: "conversation \<Rightarrow> bool" where
  "wf_transcript db \<longleftrightarrow>
     distinct (map th_id (cv_threads db)) \<and> distinct (map mg_id (cv_messages db)) \<and>
     distinct (map message_nonce (cv_messages db)) \<and>
     (\<forall>t \<in> set (cv_threads db). positions db (th_id t) = [0..<th_nextMessageSeq t]) \<and>
     (\<forall>m \<in> set (cv_messages db). thread_of db (mg_threadId m) \<noteq> None)"

definition adds_message :: "conversation \<Rightarrow> message_row \<Rightarrow> conversation \<Rightarrow> bool" where
  "adds_message db m db' \<longleftrightarrow>
     (\<exists>t. thread_of db (mg_threadId m) = Some t \<and> mg_seq m = th_nextMessageSeq t) \<and>
     mg_id m \<notin> mg_id ` set (cv_messages db) \<and> message_nonce m \<notin> message_nonce ` set (cv_messages db) \<and>
     cv_threads db' = update_where (\<lambda>t. th_id t = mg_threadId m) advance (cv_threads db) \<and>
     cv_messages db' = cv_messages db @ [m]"

interpretation adv: keyed_update th_id advance
  by unfold_locales (simp add: advance_def)

lemma adds_message_wf:
  assumes "wf_transcript db" and "adds_message db m db'"
  shows "wf_transcript db'"
proof -
  obtain t where t: "thread_of db (mg_threadId m) = Some t" "mg_seq m = th_nextMessageSeq t"
    using assms(2) by (auto simp: adds_message_def)
  have th: "cv_threads db' = update_where (\<lambda>t. th_id t = mg_threadId m) advance (cv_threads db)"
    and ms: "cv_messages db' = cv_messages db @ [m]" using assms(2) by (simp_all add: adds_message_def)
  have find: "thread_of db' i = map_option (\<lambda>t. if th_id t = mg_threadId m then advance t else t) (thread_of db i)"
    for i by (simp add: thread_of_def th adv.find_update)
  have pos: "positions db' (th_id x) = [0..<th_nextMessageSeq x]" if xin: "x \<in> set (cv_threads db')" for x
  proof -
    obtain y where y: "y \<in> set (cv_threads db)" "x = (if th_id y = mg_threadId m then advance y else y)"
      using xin [unfolded th update_where_set] by blast
    have old: "positions db (th_id y) = [0..<th_nextMessageSeq y]" using assms(1) y(1) by (simp add: wf_transcript_def)
    show ?thesis
    proof (cases "th_id y = mg_threadId m")
      case True
      then have "y = t"
        using t(1) y(1) assms(1) find_key_distinct [of th_id "cv_threads db" y]
        by (simp add: thread_of_def wf_transcript_def)
      then show ?thesis using True old y(2) t(2) by (simp add: positions_def ms advance_def)
    next
      case False
      then show ?thesis using old y(2) by (simp add: positions_def ms)
    qed
  qed
  have "distinct (map th_id (cv_threads db'))" using assms(1) by (simp add: th wf_transcript_def)
  moreover have "distinct (map mg_id (cv_messages db'))" "distinct (map message_nonce (cv_messages db'))"
    using assms by (simp_all add: ms wf_transcript_def adds_message_def)
  moreover have "thread_of db' (mg_threadId x) \<noteq> None" if "x \<in> set (cv_messages db')" for x
    using that assms(1) t(1) by (auto simp: ms find wf_transcript_def)
  ultimately show ?thesis using pos by (simp add: wf_transcript_def)
qed

text \<open>An advanced row is the thread's, before the update; the statement changes no other row.\<close>

lemma advance_where_Some:
  assumes "advance_where P db s tid = (Some t', db')" and "distinct (map th_id (cv_threads db))"
  obtains t where "thread_of db tid = Some t" and "th_spaceId t = s" and "P t" and "t' = advance t"
    and "db' = db\<lparr>cv_threads := update_where (\<lambda>t. th_id t = tid) advance (cv_threads db)\<rparr>"
proof -
  let ?Q = "\<lambda>t. th_id t = tid \<and> th_spaceId t = s \<and> P t"
  have r: "returning ?Q advance (cv_threads db) =
      (case thread_of db tid of None \<Rightarrow> [] | Some t \<Rightarrow> if ?Q t then [advance t] else [])"
    unfolding thread_of_def by (rule adv.returning_unique [OF assms(2)]) simp
  then obtain t where t: "thread_of db tid = Some t" "?Q t" "t' = advance t"
    using assms(1) by (auto simp: advance_where_def Let_def split: option.splits if_splits)
  have "x = t" if "x \<in> set (cv_threads db)" "th_id x = tid" for x
    using that t(1) find_key_distinct [of th_id "cv_threads db" x] assms(2) by (auto simp: thread_of_def)
  then have "update_where ?Q advance (cv_threads db) = update_where (\<lambda>t. th_id t = tid) advance (cv_threads db)"
    using t(2) by (auto simp: update_where_def)
  then show thesis using that t assms(1) by (simp add: advance_where_def Let_def)
qed

lemma insertMessage_Inr:
  "insertMessage db m = Inr (m', db') \<Longrightarrow>
   m' = m \<and> message_nonce m \<notin> message_nonce ` set (cv_messages db) \<and>
   db' = db\<lparr>cv_messages := cv_messages db @ [m]\<rparr>"
  by (auto simp: insertMessage_def list_ex_iff split: if_splits)

lemma replay_nonce_state: "snd (replay_nonce s t n r) = snd r"
  by (auto simp: replay_nonce_def split: prod.splits sum.splits store_failure.splits option.splits)

lemma in_thread_thread_of:
  "distinct (map th_id (cv_threads db)) \<Longrightarrow>
   in_thread db s tid \<longleftrightarrow> (\<exists>t. thread_of db tid = Some t \<and> th_spaceId t = s)"
  using find_key_distinct [of th_id "cv_threads db"] find_key_Some [of th_id tid "cv_threads db"]
  unfolding in_thread_def thread_of_def list_ex_iff by metis

text \<open>The rows a command may add to the transcript, and what it leaves alone.\<close>

lemma appendAssistant_step:
  assumes "distinct (map th_id (cv_threads db))" and "nm_id i \<notin> mg_id ` set (cv_messages db)"
    and "db' = snd (appendAssistant db s i)"
  shows "db' = db \<or> (\<exists>m. adds_message db m db' \<and>
    db' = db\<lparr>cv_threads := cv_threads db', cv_messages := cv_messages db @ [m]\<rparr>)"
proof -
  let ?P = "\<lambda>t. list_ex (\<lambda>r. cr_id r = nm_runId i \<and> cr_spaceId r = s \<and> cr_threadId r = nm_threadId i) (cv_runs db)"
  obtain res db1 where a: "advance_where ?P db s (nm_threadId i) = (res, db1)" by fastforce
  show ?thesis
  proof (cases res)
    case None
    then show ?thesis using assms(3) a by (simp add: appendAssistant_def replay_nonce_state transaction_def)
  next
    case (Some t')
    obtain t where t: "thread_of db (nm_threadId i) = Some t" "t' = advance t"
        "db1 = db\<lparr>cv_threads := update_where (\<lambda>t. th_id t = nm_threadId i) advance (cv_threads db)\<rparr>"
      using advance_where_Some [OF a [unfolded Some] assms(1)] by metis
    let ?m = "message_at i Assistant (th_nextMessageSeq t' - 1)"
    show ?thesis
    proof (cases "insertMessage db1 ?m")
      case (Inl e)
      then show ?thesis using assms(3) a Some by (simp add: appendAssistant_def replay_nonce_state transaction_def)
    next
      case (Inr q)
      then obtain m' db2 where q: "insertMessage db1 ?m = Inr (m', db2)" by (cases q) auto
      note ins = insertMessage_Inr [OF q]
      have "db' = db2" using assms(3) a Some q by (simp add: appendAssistant_def replay_nonce_state transaction_def)
      then have "adds_message db ?m db'"
        using ins t assms(2) by (auto simp: adds_message_def message_at_def advance_def)
      then show ?thesis using \<open>db' = db2\<close> ins t by (intro disjI2 exI [of _ ?m]) simp
    qed
  qed
qed

lemma steer_step:
  assumes "distinct (map th_id (cv_threads db))" and "nm_id i \<notin> mg_id ` set (cv_messages db)"
    and "db' = snd (steer db s u i)"
  shows "db' = db \<or> (\<exists>m b. adds_message db m db' \<and>
    db' = db\<lparr>cv_threads := cv_threads db', cv_messages := cv_messages db @ [m],
      cv_steering := cv_steering db @ [\<lparr>sg_messageId = mg_id m, sg_botId = b, sg_userId = u,
        sg_runId = nm_runId i, sg_claimedAt = None\<rparr>]\<rparr>)"
proof -
  let ?P = "\<lambda>t. list_ex (\<lambda>r. cr_id r = nm_runId i \<and> cr_spaceId r = s \<and> cr_threadId r = nm_threadId i \<and>
      cr_botId r = th_botId t \<and> cr_status r \<in> set ACTIVE_RUN_STATUSES) (cv_runs db)"
  obtain res db1 where a: "advance_where ?P db s (nm_threadId i) = (res, db1)" by fastforce
  show ?thesis
  proof (cases res)
    case None
    then show ?thesis using assms(3) a by (simp add: steer_def replay_nonce_state transaction_def)
  next
    case (Some t')
    obtain t where t: "thread_of db (nm_threadId i) = Some t" "t' = advance t"
        "db1 = db\<lparr>cv_threads := update_where (\<lambda>t. th_id t = nm_threadId i) advance (cv_threads db)\<rparr>"
      using advance_where_Some [OF a [unfolded Some] assms(1)] by metis
    let ?m = "message_at i User (th_nextMessageSeq t' - 1)"
    show ?thesis
    proof (cases "insertMessage db1 ?m")
      case (Inl e)
      then show ?thesis using assms(3) a Some by (simp add: steer_def replay_nonce_state transaction_def)
    next
      case (Inr q)
      then obtain m' db2 where q: "insertMessage db1 ?m = Inr (m', db2)" by (cases q) auto
      note ins = insertMessage_Inr [OF q]
      have d: "db' = db2\<lparr>cv_steering := cv_steering db2 @ [\<lparr>sg_messageId = mg_id ?m, sg_botId = th_botId t',
          sg_userId = u, sg_runId = nm_runId i, sg_claimedAt = None\<rparr>]\<rparr>"
        using assms(3) a Some q ins by (simp add: steer_def replay_nonce_state transaction_def)
      then have "adds_message db ?m db'"
        using ins t assms(2) by (auto simp: adds_message_def message_at_def advance_def)
      then show ?thesis using d ins t by (intro disjI2 exI [of _ ?m] exI [of _ "th_botId t'"]) simp
    qed
  qed
qed

text \<open>The tables neither command writes.\<close>

lemma appendAssistant_keeps:
  assumes "distinct (map th_id (cv_threads db))" and "nm_id i \<notin> mg_id ` set (cv_messages db)"
    and "db' = snd (appendAssistant db s i)"
  shows "cv_runs db' = cv_runs db" and "cv_tasks db' = cv_tasks db" and "cv_steering db' = cv_steering db"
    and "set (cv_messages db) \<subseteq> set (cv_messages db')"
proof -
  consider "db' = db"
    | m where "db' = db\<lparr>cv_threads := cv_threads db', cv_messages := cv_messages db @ [m]\<rparr>"
    using appendAssistant_step [OF assms] by blast
  then have "cv_runs db' = cv_runs db \<and> cv_tasks db' = cv_tasks db \<and> cv_steering db' = cv_steering db \<and>
      set (cv_messages db) \<subseteq> set (cv_messages db')"
  proof cases
    case 2
    show ?thesis by (subst 2, subst 2, subst 2, subst (2) 2) auto
  qed simp
  then show "cv_runs db' = cv_runs db" "cv_tasks db' = cv_tasks db" "cv_steering db' = cv_steering db"
    "set (cv_messages db) \<subseteq> set (cv_messages db')" by blast+
qed

lemma steer_keeps:
  assumes "distinct (map th_id (cv_threads db))" and "nm_id i \<notin> mg_id ` set (cv_messages db)"
    and "db' = snd (steer db s u i)"
  shows "cv_runs db' = cv_runs db" and "cv_tasks db' = cv_tasks db"
    and "set (cv_messages db) \<subseteq> set (cv_messages db')"
proof -
  consider "db' = db"
    | m b where "db' = db\<lparr>cv_threads := cv_threads db', cv_messages := cv_messages db @ [m],
      cv_steering := cv_steering db @ [\<lparr>sg_messageId = mg_id m, sg_botId = b, sg_userId = u,
        sg_runId = nm_runId i, sg_claimedAt = None\<rparr>]\<rparr>"
    using steer_step [OF assms] by blast
  then have "cv_runs db' = cv_runs db \<and> cv_tasks db' = cv_tasks db \<and> set (cv_messages db) \<subseteq> set (cv_messages db')"
  proof cases
    case 2
    show ?thesis by (subst 2, subst 2, subst (2) 2) auto
  qed simp
  then show "cv_runs db' = cv_runs db" "cv_tasks db' = cv_tasks db"
    "set (cv_messages db) \<subseteq> set (cv_messages db')" by blast+
qed

lemma createOnce_Some:
  assumes "createOnce db s u i = Inr (Some (r, k, m), db')" and "distinct (map th_id (cv_threads db))"
    and "sb_messageId i \<notin> mg_id ` set (cv_messages db)" and "sb_runId i \<notin> cr_id ` set (cv_runs db)"
  shows "adds_message db m db'" and "mg_id m = sb_messageId i" and "mg_threadId m = sb_threadId i"
    and "tk_id k = sb_taskId i" and "tk_spaceId k = s"
    and "r = (new_run s u i k)\<lparr>cr_sourceMessageId := Some (mg_id m)\<rparr>" and "tk_threadId k = sb_threadId i"
    and "run_nonce r \<notin> run_nonce ` set (cv_runs db)"
    and "db' = db\<lparr>cv_threads := cv_threads db', cv_messages := cv_messages db @ [m],
        cv_tasks := cv_tasks db @ [k], cv_runs := cv_runs db @ [r]\<rparr>"
proof -
  obtain t0 where t0: "find (\<lambda>t. th_id t = sb_threadId i \<and> th_spaceId t = s) (cv_threads db) = Some t0"
    using assms(1) by (auto simp: createOnce_def split: option.splits)
  define task where "task = new_task s u i t0"
  define run where "run = new_run s u i task"
  define db0 where "db0 = db\<lparr>cv_tasks := cv_tasks db @ [task], cv_runs := cv_runs db @ [run]\<rparr>"
  have nn: "\<not> list_ex (\<lambda>r. run_nonce r = run_nonce run) (cv_runs db)"
    using assms(1) t0 by (auto simp: createOnce_def Let_def task_def [symmetric] run_def [symmetric] split: if_splits)
  let ?linked = "\<lambda>d. d\<lparr>cv_runs := update_where (\<lambda>r. cr_id r = cr_id run \<and> cr_spaceId r = s)
           (\<lambda>r. r\<lparr>cr_sourceMessageId := Some (mg_id m)\<rparr>) (cv_runs d)\<rparr>"
  have "bindE (allocateMessageSeq db0 s (sb_threadId i)) (\<lambda>(n, db1).
      bindE (insertMessage db1 (source_message i n)) (\<lambda>(m, db2).
        Inr (Some (run\<lparr>cr_sourceMessageId := Some (mg_id m)\<rparr>, task, m),
             db2\<lparr>cv_runs := update_where (\<lambda>r. cr_id r = cr_id run \<and> cr_spaceId r = s)
               (\<lambda>r. r\<lparr>cr_sourceMessageId := Some (mg_id m)\<rparr>) (cv_runs db2)\<rparr>))) = Inr (Some (r, k, m), db')"
    using assms(1) nn
    by (simp add: createOnce_def Let_def t0 task_def [symmetric] run_def [symmetric] db0_def [symmetric])
  then obtain n db1 db2 where al: "allocateMessageSeq db0 s (sb_threadId i) = Inr (n, db1)"
    and ins: "insertMessage db1 (source_message i n) = Inr (m, db2)"
    and res: "r = run\<lparr>cr_sourceMessageId := Some (mg_id m)\<rparr>" "k = task" "db' = ?linked db2"
    by (auto simp: bindE_eq_Inr)
  obtain t' where aw: "advance_where (\<lambda>_. True) db0 s (sb_threadId i) = (Some t', db1)" "n = th_nextMessageSeq t' - 1"
    using al by (auto simp: allocateMessageSeq_def split: prod.splits option.splits)
  have "distinct (map th_id (cv_threads db0))" using assms(2) by (simp add: db0_def)
  from advance_where_Some [OF aw(1) this] obtain t where t0': "thread_of db0 (sb_threadId i) = Some t" "t' = advance t"
      and d1: "db1 = db0\<lparr>cv_threads := update_where (\<lambda>t. th_id t = sb_threadId i) advance (cv_threads db0)\<rparr>"
    by blast
  then have t: "thread_of db (sb_threadId i) = Some t" "t' = advance t"
      "db1 = db0\<lparr>cv_threads := update_where (\<lambda>t. th_id t = sb_threadId i) advance (cv_threads db)\<rparr>"
    by (simp_all add: thread_of_def db0_def)
  have m: "m = source_message i n" "message_nonce m \<notin> message_nonce ` set (cv_messages db)"
    using insertMessage_Inr [OF ins] t(3) by (auto simp: db0_def)
  show "mg_id m = sb_messageId i" "mg_threadId m = sb_threadId i" by (simp_all add: m source_message_def)
  show "tk_id k = sb_taskId i" "tk_spaceId k = s" by (simp_all add: res task_def new_task_def)
  show "tk_threadId k = sb_threadId i" using find_Some_iff [of _ "cv_threads db" t0] t0
    by (auto simp: res task_def new_task_def)
  show "r = (new_run s u i k)\<lparr>cr_sourceMessageId := Some (mg_id m)\<rparr>" by (simp add: res run_def)
  show "run_nonce r \<notin> run_nonce ` set (cv_runs db)" using nn by (auto simp: res list_ex_iff)
  have "update_where (\<lambda>r. cr_id r = cr_id run \<and> cr_spaceId r = s) (\<lambda>r. r\<lparr>cr_sourceMessageId := Some (mg_id m)\<rparr>)
      (cv_runs db @ [run]) = cv_runs db @ [r]"
    using assms(4) by (force simp: update_where_def res run_def new_run_def intro!: map_idI)
  then have d: "db' = db1\<lparr>cv_messages := cv_messages db @ [m], cv_runs := cv_runs db @ [r]\<rparr>"
    using insertMessage_Inr [OF ins] by (simp add: res t(3) db0_def)
  show "db' = db\<lparr>cv_threads := cv_threads db', cv_messages := cv_messages db @ [m],
        cv_tasks := cv_tasks db @ [k], cv_runs := cv_runs db @ [r]\<rparr>"
    by (simp add: d t(3) db0_def res(2))
  show "adds_message db m db'"
    using t m assms(3) aw(2) by (auto simp: adds_message_def d db0_def source_message_def advance_def)
qed

lemma createRunAndTask_step:
  assumes "db' = snd (createRunAndTask db s u i)" and "db' \<noteq> db"
  obtains r k m where "createOnce db s u i = Inr (Some (r, k, m), db')"
    and "fst (createRunAndTask db s u i) = Inr (r, k, m)"
  using assms
  by (cases "createOnce db s u i")
    (auto simp: createRunAndTask_def split: sum.splits option.splits prod.splits)

section \<open>The transcript under every command\<close>

lemma wf_transcript_cong:
  "map th_id (cv_threads db') = map th_id (cv_threads db) \<Longrightarrow>
   map th_nextMessageSeq (cv_threads db') = map th_nextMessageSeq (cv_threads db) \<Longrightarrow>
   cv_messages db' = cv_messages db \<Longrightarrow> wf_transcript db \<Longrightarrow> wf_transcript db'"
proof -
  assume a: "map th_id (cv_threads db') = map th_id (cv_threads db)"
    "map th_nextMessageSeq (cv_threads db') = map th_nextMessageSeq (cv_threads db)"
    "cv_messages db' = cv_messages db" and w: "wf_transcript db"
  have l: "length (cv_threads db') = length (cv_threads db)" using a(1) by (rule map_eq_imp_length_eq)
  have nth: "th_id (cv_threads db' ! k) = th_id (cv_threads db ! k)"
      "th_nextMessageSeq (cv_threads db' ! k) = th_nextMessageSeq (cv_threads db ! k)"
    if "k < length (cv_threads db)" for k
    using that a(1,2) l by (metis nth_map)+
  have "positions db' i = positions db i" for i by (simp add: positions_def a(3))
  then have "\<forall>t \<in> set (cv_threads db'). positions db' (th_id t) = [0..<th_nextMessageSeq t]"
    using w nth l nth_mem by (auto simp: wf_transcript_def in_set_conv_nth [of _ "cv_threads db'"])
  moreover have "thread_of db' i = None \<longleftrightarrow> thread_of db i = None" for i
    using a(1) by (simp add: thread_of_def find_None_key flip: set_map)
  ultimately show ?thesis using w a(1,3) by (simp add: wf_transcript_def)
qed

lemma open_thread_wf:
  assumes "wf_transcript db" and "i \<notin> th_id ` set (cv_threads db)"
  shows "wf_transcript (db\<lparr>cv_threads := cv_threads db @ [fresh_thread i s b]\<rparr>)" (is "wf_transcript ?d")
proof -
  have none: "thread_of db i = None" using assms(2) by (simp add: thread_of_def find_None_key)
  then have "positions db i = []"
    using assms(1) by (auto simp: positions_def wf_transcript_def filter_empty_conv)
  moreover have "positions ?d = positions db" by (simp add: positions_def fun_eq_iff)
  moreover have "thread_of db j \<noteq> None \<Longrightarrow> thread_of ?d j \<noteq> None" for j
    by (auto simp: thread_of_def find_append_rows)
  ultimately show ?thesis using assms by (auto simp: wf_transcript_def fresh_thread_def)
qed

interpretation clr: keyed_update th_id "\<lambda>t. t\<lparr>th_nextMessageSeq := 0, th_nextEventSeq := 0\<rparr>"
  by unfold_locales simp

lemma clearThread_wf:
  assumes "wf_transcript db"
  shows "wf_transcript (snd (clearThread db s tid))" (is "wf_transcript ?d")
proof (cases "in_thread db s tid")
  case False
  then show ?thesis using assms by (simp add: clearThread_def)
next
  case True
  let ?Q = "\<lambda>t. th_id t = tid \<and> th_spaceId t = s"
  have d: "distinct (map th_id (cv_threads db))" using assms by (simp add: wf_transcript_def)
  have th: "cv_threads ?d = update_where ?Q (\<lambda>t. t\<lparr>th_nextMessageSeq := 0, th_nextEventSeq := 0\<rparr>) (cv_threads db)"
    and ms: "cv_messages ?d = filter (\<lambda>m. mg_threadId m \<noteq> tid) (cv_messages db)"
    using True by (simp_all add: clearThread_def Let_def)
  obtain t0 where t0: "thread_of db tid = Some t0" "th_spaceId t0 = s"
    using True d by (auto simp: in_thread_thread_of)
  have pos: "positions ?d j = (if j = tid then [] else positions db j)" for j
    by (auto simp: positions_def ms intro!: arg_cong [of _ _ "map mg_seq"] filter_cong)
  have "positions ?d (th_id x) = [0..<th_nextMessageSeq x]" if xin: "x \<in> set (cv_threads ?d)" for x
  proof -
    obtain y where y: "y \<in> set (cv_threads db)"
        "x = (if ?Q y then y\<lparr>th_nextMessageSeq := 0, th_nextEventSeq := 0\<rparr> else y)"
      using xin [unfolded th update_where_set] by blast
    have "th_id y = tid \<Longrightarrow> y = t0"
      using find_key_distinct [OF d y(1)] t0(1) by (simp add: thread_of_def)
    then show ?thesis using y t0(2) assms by (auto simp: pos wf_transcript_def)
  qed
  moreover have "thread_of ?d (mg_threadId m) \<noteq> None" if "m \<in> set (cv_messages ?d)" for m
    using that assms by (auto simp: thread_of_def th ms clr.find_update wf_transcript_def)
  ultimately show ?thesis
    using assms by (simp add: wf_transcript_def th ms distinct_map_filter)
qed

lemma conv_step_wf:
  assumes "conv_step db db'" and "wf_transcript db"
  shows "wf_transcript db'"
proof -
  have d: "distinct (map th_id (cv_threads db))" using assms(2) by (simp add: wf_transcript_def)
  show ?thesis
    using assms(1)
  proof cases
    case (open_thread i s b)
    then show ?thesis using open_thread_wf assms(2) by simp
  next
    case (assistant i s)
    then show ?thesis using appendAssistant_step [OF d assistant(2,1)] assms(2) adds_message_wf by metis
  next
    case (steered i s u)
    then show ?thesis using steer_step [OF d steered(2,1)] assms(2) adds_message_wf by metis
  next
    case (claimed now s rid)
    then show ?thesis using assms(2)
      by (auto intro: wf_transcript_cong simp: claimSteeringMessages_def Let_def)
  next
    case (cleared s tid)
    then show ?thesis using clearThread_wf [OF assms(2)] by simp
  next
    case (created i s u)
    show ?thesis
    proof (cases "db' = db")
      case False
      from createRunAndTask_step [OF created(1) this]
      obtain r k m where "createOnce db s u i = Inr (Some (r, k, m), db')" by metis
      from createOnce_Some(1) [OF this d created(2,3)] show ?thesis
        using adds_message_wf assms(2) by blast
    qed (use assms(2) in simp)
  next
    case (event_stored s e)
    show ?thesis
      by (rule wf_transcript_cong [OF _ _ _ assms(2)])
        (auto simp: event_stored sink_append_def Let_def update_where_def)
  next
    case (progress st st' rid)
    then show ?thesis using assms(2) by (auto intro: wf_transcript_cong)
  qed
qed

definition no_rows :: conversation where
  "no_rows = \<lparr>cv_threads = [], cv_tasks = [], cv_runs = [], cv_messages = [], cv_steering = [], cv_events = []\<rparr>"

lemma no_rows_wf: "wf_transcript no_rows"
  by (simp add: wf_transcript_def no_rows_def)

lemma reachable_wf: "conv_step\<^sup>*\<^sup>* no_rows db \<Longrightarrow> wf_transcript db"
  by (induction rule: rtranclp_induct) (simp_all add: no_rows_wf conv_step_wf)

section \<open>Links between rows\<close>

definition source_linked :: "message_row list \<Rightarrow> created_run \<Rightarrow> bool" where
  "source_linked ms r = (case cr_sourceMessageId r of None \<Rightarrow> True
     | Some i \<Rightarrow> \<exists>m \<in> set ms. mg_id m = i \<and> mg_threadId m = cr_threadId r)"

definition task_linked :: "task_row list \<Rightarrow> created_run \<Rightarrow> bool" where
  "task_linked ks r = (\<exists>k \<in> set ks. tk_id k = cr_taskId r \<and> tk_spaceId k = cr_spaceId r)"

definition wf_links :: "conversation \<Rightarrow> bool" where
  "wf_links db \<longleftrightarrow>
     distinct (map cr_id (cv_runs db)) \<and> distinct (map run_nonce (cv_runs db)) \<and>
     distinct (map tk_id (cv_tasks db)) \<and>
     (\<forall>r \<in> set (cv_runs db). task_linked (cv_tasks db) r \<and> source_linked (cv_messages db) r)"

lemma wf_links_messages:
  "wf_links db \<Longrightarrow> cv_runs db' = cv_runs db \<Longrightarrow> cv_tasks db' = cv_tasks db \<Longrightarrow>
   set (cv_messages db) \<subseteq> set (cv_messages db') \<Longrightarrow> wf_links db'"
  by (fastforce simp: wf_links_def source_linked_def split: option.splits)

lemma wf_links_created:
  assumes "wf_links db" and "createOnce db s u i = Inr (Some (r, k, m), db')"
    and "distinct (map th_id (cv_threads db))" and "sb_messageId i \<notin> mg_id ` set (cv_messages db)"
    and "sb_runId i \<notin> cr_id ` set (cv_runs db)" and "sb_taskId i \<notin> tk_id ` set (cv_tasks db)"
  shows "wf_links db'"
proof -
  note c = createOnce_Some [OF assms(2-5)]
  have r: "cr_id r = sb_runId i" "cr_taskId r = tk_id k" "cr_spaceId r = s" "cr_threadId r = sb_threadId i"
      "cr_sourceMessageId r = Some (mg_id m)"
    using c(6,7) by (simp_all add: new_run_def)
  have rows: "cv_runs db' = cv_runs db @ [r]" "cv_tasks db' = cv_tasks db @ [k]"
      "cv_messages db' = cv_messages db @ [m]" by (subst c(9), simp)+
  have "task_linked (cv_tasks db') x \<and> source_linked (cv_messages db') x" if "x \<in> set (cv_runs db)" for x
    using that assms(1) by (fastforce simp: wf_links_def task_linked_def source_linked_def rows split: option.splits)
  moreover have "task_linked (cv_tasks db') r" "source_linked (cv_messages db') r"
    using r c(3,5) by (auto simp: task_linked_def source_linked_def rows)
  ultimately show ?thesis
    using assms(1,5,6) r(1) c(4,8) by (simp add: wf_links_def rows ball_Un)
qed

lemma wf_links_update:
  assumes "wf_links db" and "cv_tasks db' = cv_tasks db" and "cv_runs db' = update_where P f (cv_runs db)"
    and "\<And>r. cr_id (f r) = cr_id r" "\<And>r. run_nonce (f r) = run_nonce r" "\<And>r. cr_taskId (f r) = cr_taskId r"
    and "\<And>r. r \<in> set (cv_runs db) \<Longrightarrow> source_linked (cv_messages db') (if P r then f r else r)"
  shows "wf_links db'"
proof -
  have "map cr_id (cv_runs db') = map cr_id (cv_runs db)" "map run_nonce (cv_runs db') = map run_nonce (cv_runs db)"
    using assms(4,5) by (simp_all add: assms(3) update_where_def)
  moreover have "task_linked (cv_tasks db) (if P r then f r else r) = task_linked (cv_tasks db) r" for r
    using assms(5) [of r] assms(6) [of r] by (simp add: task_linked_def)
  ultimately show ?thesis
    using assms(1,2,7) by (auto simp: wf_links_def assms(3) update_where_set)
qed

lemma wf_links_cleared:
  assumes "wf_links db"
  shows "wf_links (snd (clearThread db s tid))"
proof (cases "in_thread db s tid")
  case False
  then show ?thesis using assms by (simp add: clearThread_def)
next
  case True
  let ?gone = "mg_id ` {m \<in> set (cv_messages db). mg_threadId m = tid}"
  let ?P = "\<lambda>r. \<exists>i \<in> ?gone. cr_sourceMessageId r = Some i"
  show ?thesis
  proof (rule wf_links_update [OF assms, where P = ?P and f = "\<lambda>r. r\<lparr>cr_sourceMessageId := None\<rparr>"])
    fix r assume "r \<in> set (cv_runs db)"
    then have "source_linked (cv_messages db) r" using assms by (simp add: wf_links_def)
    then have "source_linked (filter (\<lambda>m. mg_threadId m \<noteq> tid) (cv_messages db)) r \<or> ?P r"
      by (cases "cr_sourceMessageId r") (auto simp: source_linked_def)
    then show "source_linked (cv_messages (snd (clearThread db s tid)))
        (if ?P r then r\<lparr>cr_sourceMessageId := None\<rparr> else r)"
      using True by (auto simp: clearThread_def Let_def source_linked_def)
  qed (use True in \<open>simp_all add: clearThread_def Let_def\<close>)
qed

lemma source_linked_status [simp]: "source_linked ms (r\<lparr>cr_status := st\<rparr>) = source_linked ms r"
  by (simp add: source_linked_def split: option.splits)

lemma wf_links_progress:
  assumes "wf_links db"
  shows "wf_links (db\<lparr>cv_runs := update_where P (\<lambda>r. r\<lparr>cr_status := st\<rparr>) (cv_runs db)\<rparr>)"
  by (rule wf_links_update [OF assms, where P = P and f = "\<lambda>r. r\<lparr>cr_status := st\<rparr>"])
    (use assms in \<open>auto simp: wf_links_def\<close>)

lemma conv_step_links:
  assumes "conv_step db db'" and "wf_links db" and d: "distinct (map th_id (cv_threads db))"
  shows "wf_links db'"
  using assms(1)
proof cases
  case (assistant i s)
  note k = appendAssistant_keeps [OF d assistant(2,1)]
  show ?thesis by (rule wf_links_messages [OF assms(2) k(1,2,4)])
next
  case (steered i s u)
  note k = steer_keeps [OF d steered(2,1)]
  show ?thesis by (rule wf_links_messages [OF assms(2) k])
next
  case (created i s u)
  show ?thesis
  proof (cases "db' = db")
    case False
    from createRunAndTask_step [OF created(1) this]
    obtain r k m where "createOnce db s u i = Inr (Some (r, k, m), db')" by metis
    from wf_links_created [OF assms(2) this d created(2-4)] show ?thesis .
  qed (use assms(2) in simp)
next
  case (event_stored s e)
  show ?thesis
    by (rule wf_links_messages [OF assms(2)]) (auto simp: event_stored sink_append_def Let_def)
qed (use assms(2) in \<open>auto intro: wf_links_messages wf_links_cleared wf_links_progress
    simp: claimSteeringMessages_def Let_def\<close>)

lemma reachable_links: "conv_step\<^sup>*\<^sup>* no_rows db \<Longrightarrow> wf_links db"
proof (induction rule: rtranclp_induct)
  case base
  then show ?case by (simp add: wf_links_def no_rows_def)
next
  case (step y z)
  then show ?case using reachable_wf [OF step(1)] by (auto simp: wf_transcript_def intro: conv_step_links)
qed

section \<open>Answering a submission again\<close>

lemma find_pair:
  assumes "distinct (map f xs)" and "x \<in> set xs" and "\<And>y. P y \<longleftrightarrow> f y = f x"
  shows "find P xs = Some x"
  using find_key_distinct [OF assms(1,2)] assms(3) by (simp add: ext [of P "\<lambda>y. f y = f x"])

lemma find_refined:
  assumes "distinct (map f xs)" and "x \<in> set xs" and "P x" and "\<And>y. P y \<Longrightarrow> f y = f x"
  shows "find P xs = Some x"
  using find_key_distinct [OF assms(1,2)] assms(3)
  by (rule find_conj [where Q = "\<lambda>y. f y = f x", rotated]) (rule assms(4))

text \<open>
  What \<open>readByNonce\<close> answers once a run holds the nonce: the run with its task and source message,
  or a defect when the message was deleted.
\<close>

lemma readByNonce_held:
  assumes "wf_links db" and "distinct (map mg_id (cv_messages db))" and "r \<in> set (cv_runs db)"
  shows "case cr_sourceMessageId r of
      None \<Rightarrow> \<exists>e. readByNonce db (cr_spaceId r) (cr_clientNonce r) = Inl (Defect e)
    | Some j \<Rightarrow> \<exists>k \<in> set (cv_tasks db). \<exists>m \<in> set (cv_messages db). tk_id k = cr_taskId r \<and> mg_id m = j \<and>
        readByNonce db (cr_spaceId r) (cr_clientNonce r) = Inr (Some (r, k, m))"
proof -
  have f: "readRunByNonce db (cr_spaceId r) (cr_clientNonce r) = Some r"
    unfolding readRunByNonce_def
    by (rule find_pair [of run_nonce]) (use assms in \<open>auto simp: wf_links_def\<close>)
  show ?thesis
  proof (cases "cr_sourceMessageId r")
    case None
    then show ?thesis by (simp add: readByNonce_def f)
  next
    case (Some j)
    obtain m where m: "m \<in> set (cv_messages db)" "mg_id m = j" "mg_threadId m = cr_threadId r"
      using assms(1,3) Some by (fastforce simp: wf_links_def source_linked_def)
    obtain k where k: "k \<in> set (cv_tasks db)" "tk_id k = cr_taskId r" "tk_spaceId k = cr_spaceId r"
      using assms(1,3) by (auto simp: wf_links_def task_linked_def)
    have "find (\<lambda>x. mg_id x = j \<and> mg_threadId x = cr_threadId r) (cv_messages db) = Some m"
      by (rule find_refined [of mg_id]) (use assms(2) m in auto)
    moreover have "find (\<lambda>x. tk_id x = cr_taskId r \<and> tk_spaceId x = cr_spaceId r) (cv_tasks db) = Some k"
      by (rule find_refined [of tk_id]) (use assms(1) k in \<open>auto simp: wf_links_def\<close>)
    ultimately have "readByNonce db (cr_spaceId r) (cr_clientNonce r) = Inr (Some (r, k, m))"
      by (simp add: readByNonce_def f Some replayedRow_def)
    then show ?thesis using Some m k by auto
  qed
qed

lemma createOnce_held:
  assumes "r \<in> set (cv_runs db)" and "cr_clientNonce r = sb_clientNonce i" and "in_thread db (cr_spaceId r) (sb_threadId i)"
  shows "createOnce db (cr_spaceId r) u i = Inr (None, db)"
proof -
  obtain t where "find (\<lambda>t. th_id t = sb_threadId i \<and> th_spaceId t = cr_spaceId r) (cv_threads db) = Some t"
    using assms(3) by (cases "find (\<lambda>t. th_id t = sb_threadId i \<and> th_spaceId t = cr_spaceId r) (cv_threads db)")
      (auto simp: in_thread_def list_ex_iff find_None_iff)
  then show ?thesis using assms(1,2) by (auto simp: createOnce_def Let_def new_run_def list_ex_iff)
qed

lemma createRunAndTask_held:
  assumes "wf_links db" and "distinct (map mg_id (cv_messages db))" and "r \<in> set (cv_runs db)"
    and "cr_clientNonce r = sb_clientNonce i" and "in_thread db (cr_spaceId r) (sb_threadId i)"
  shows "snd (createRunAndTask db (cr_spaceId r) u i) = db"
    and "cr_sourceMessageId r = None \<Longrightarrow> \<exists>e. fst (createRunAndTask db (cr_spaceId r) u i) = Inl (Defect e)"
    and "cr_sourceMessageId r = Some j \<Longrightarrow> \<exists>k \<in> set (cv_tasks db). \<exists>m \<in> set (cv_messages db).
      tk_id k = cr_taskId r \<and> mg_id m = j \<and> fst (createRunAndTask db (cr_spaceId r) u i) = Inr (r, k, m)"
  using readByNonce_held [OF assms(1-3)] createOnce_held [OF assms(3-5)] assms(4)
  by (auto simp: createRunAndTask_def split: option.splits sum.splits)

section \<open>Events written and read back\<close>

text \<open>The event a reader gets: what \<open>JSON.stringify\<close> makes of its two open fields.\<close>

fun json_event :: "run_event \<Rightarrow> run_event" where
  "json_event (ToolRequested b c t a) = ToolRequested b c t (json_of a)"
| "json_event (ToolCompleted b c v a d) = ToolCompleted b c (json_of v) a d"
| "json_event e = e"

fun carries_undefined :: "run_event \<Rightarrow> bool" where
  "carries_undefined (ToolRequested b c t a) = (a = JUndefined)"
| "carries_undefined (ToolCompleted b c v a d) = (v = JUndefined)"
| "carries_undefined e = False"

lemma json_event_base [simp]: "ev_base (json_event e) = ev_base e"
  by (cases e) simp_all

lemma json_event_wf [simp]: "wf_event (json_event e) = wf_event e"
  by (cases e) (simp_all add: wf_event_def)

lemma stored_value:
  assumes "\<not> carries_undefined e"
  shows "JObj (spread (payload_props (payload_of e)) (row_base_fields (stored_of (event_row_of s e)) (runId (ev_base e))))
    = event_value (json_event e)"
  using assms
  by (cases e) (auto simp: payload_of_def stored_of_def event_row_of_def spread_def row_base_fields_def
      event_value_def opt_field_def artifact_value_def js_int_def split: option.splits)

lemma stored_round_trip:
  assumes "wf_event e" and "\<not> carries_undefined e"
  shows "storedRunEvent (stored_of (event_row_of s e)) = Inr (json_event e)"
proof -
  have "row_runId (stored_of (event_row_of s e)) = Some (runId (ev_base e))"
    "row_payload (stored_of (event_row_of s e)) = payload_of e"
    by (simp_all add: stored_of_def event_row_of_def)
  then show ?thesis
    using parse_event_value [of "json_event e"] assms(1)
    by (simp add: storedRunEvent_def stored_value [OF assms(2)])
qed

lemma stored_undefined:
  assumes "wf_event e" and "carries_undefined e"
  shows "storedRunEvent (stored_of (event_row_of s e)) =
    malformed ((case e of ToolRequested _ _ _ _ \<Rightarrow> ''arguments'' | _ \<Rightarrow> ''result'') @ '' must be present'') JUndefined"
proof -
  let ?r = "spread (payload_props (payload_of e)) (row_base_fields (stored_of (event_row_of s e)) (runId (ev_base e)))"
  have cols: "row_runId (stored_of (event_row_of s e)) = Some (runId (ev_base e))"
    "row_payload (stored_of (event_row_of s e)) = payload_of e" by (simp_all add: stored_of_def event_row_of_def)
  note unf = payload_of_def stored_of_def event_row_of_def row_base_fields_def spread_def
  have base: "parseBase ?r = Inr (ev_base e)" "getf ?r ''schemaVersion'' = RUN_EVENT_SCHEMA_VERSION"
      "getf ?r ''type'' = JStr (event_type e)"
    using assms(1) by (auto simp: parseBase_Inr wf_event_def unf js_int_def)
  have "parseByType (JStr (event_type e)) (ev_base e) ?r =
      malformed ((case e of ToolRequested _ _ _ _ \<Rightarrow> ''arguments'' | _ \<Rightarrow> ''result'') @ '' must be present'') JUndefined"
  proof -
    consider (req) b c t where "e = ToolRequested b c t JUndefined"
      | (res) b c a d where "e = ToolCompleted b c JUndefined a d"
      using assms(2) by (cases e) auto
    then show ?thesis
    proof cases
      case req
      then show ?thesis using assms(1)
        by (simp add: parseByType_def parser_defs unf wf_event_def requireString_def requirePresent_def malformed_def)
    next
      case res
      then have "requireString ?r ''callId'' False = Inr c" "\<not> hasOwn ?r ''result''"
        using assms(1) by (cases a; cases d; simp add: unf wf_event_def requireString_Inr opt_field_def)+
      then show ?thesis using res
        by (simp add: parseByType_def parser_defs requirePresent_def malformed_def)
    qed
  qed
  then show ?thesis using base by (simp add: storedRunEvent_def parseRunEvent_def cols)
qed

definition event_position :: "event_row \<Rightarrow> string \<times> nat" where
  "event_position y = (er_threadId y, er_seq y)"

definition append_all :: "string \<Rightarrow> conversation \<Rightarrow> run_event list \<Rightarrow> store_failure + conversation" where
  "append_all s = foldE (\<lambda>db e. case sink_append db s e of (Inl x, _) \<Rightarrow> Inl x | (Inr _, db') \<Rightarrow> Inr db')"

lemma list_ex_update_where:
  "(\<And>x. P (f x) = P x) \<Longrightarrow> list_ex P (update_where Q f xs) = list_ex P xs"
  by (induction xs) (auto simp: update_where_def)

lemma sink_append_Inr:
  assumes "sink_append db s e = (Inr x, db')"
  shows "cv_events db' = cv_events db @ [event_row_of s e]"
    and "in_thread db' s' t \<longleftrightarrow> in_thread db s' t" and "in_thread db s (threadId (ev_base e))"
    and "\<forall>y \<in> set (cv_events db). \<not> (er_threadId y = threadId (ev_base e) \<and> er_seq y = seq (ev_base e))"
proof -
  have ok: "in_thread db s (threadId (ev_base e))"
      "\<not> list_ex (\<lambda>x. er_threadId x = threadId (ev_base e) \<and> er_seq x = seq (ev_base e)) (cv_events db)"
    and db': "db' = db\<lparr>cv_threads := update_where (\<lambda>t. th_id t = threadId (ev_base e) \<and> th_spaceId t = s)
        (\<lambda>t. t\<lparr>th_nextEventSeq := max (th_nextEventSeq t) (seq (ev_base e) + 1)\<rparr>) (cv_threads db),
      cv_events := cv_events db @ [event_row_of s e]\<rparr>"
    using assms by (simp_all add: sink_append_def Let_def split: if_splits)
  show "cv_events db' = cv_events db @ [event_row_of s e]" "in_thread db' s' t \<longleftrightarrow> in_thread db s' t"
    by (simp_all add: db' in_thread_def list_ex_update_where)
  show "in_thread db s (threadId (ev_base e))"
    "\<forall>y \<in> set (cv_events db). \<not> (er_threadId y = threadId (ev_base e) \<and> er_seq y = seq (ev_base e))"
    using ok by (simp_all add: list_ex_iff)
qed

lemma append_all_Inr:
  assumes "append_all s db es = Inr db'"
  shows "cv_events db' = cv_events db @ map (event_row_of s) es \<and> (in_thread db' s' t \<longleftrightarrow> in_thread db s' t) \<and>
    (distinct (map event_position (cv_events db)) \<longrightarrow> distinct (map event_position (cv_events db'))) \<and>
    (\<forall>e \<in> set es. in_thread db s (threadId (ev_base e)))"
  using assms
proof (induction es arbitrary: db)
  case (Cons e es)
  obtain x db1 where a: "sink_append db s e = (Inr x, db1)" and r: "append_all s db1 es = Inr db'"
    using Cons.prems by (auto simp: append_all_def result_simps split: prod.splits sum.splits)
  have "event_position (event_row_of s e) \<notin> event_position ` set (cv_events db)"
    using sink_append_Inr(4) [OF a] by (auto simp: event_row_of_def event_position_def)
  then have "distinct (map event_position (cv_events db)) \<Longrightarrow> distinct (map event_position (cv_events db1))"
    by (simp add: sink_append_Inr(1) [OF a])
  then have "distinct (map event_position (cv_events db)) \<longrightarrow> distinct (map event_position (cv_events db'))"
    using Cons.IH [OF r] by blast
  moreover have "cv_events db' = cv_events db @ map (event_row_of s) (e # es)"
    "in_thread db' s' t \<longleftrightarrow> in_thread db s' t" "\<forall>e \<in> set (e # es). in_thread db s (threadId (ev_base e))"
    using Cons.IH [OF r] sink_append_Inr(1-3) [OF a] by simp_all
  ultimately show ?case by blast
qed (simp add: append_all_def)

lemma sort_key_map: "sort_key g (map f xs) = map f (sort_key (\<lambda>x. g (f x)) xs)"
proof (induction xs)
  case (Cons x xs)
  have "insort_key g (f a) (map f ys) = map f (insort_key (\<lambda>x. g (f x)) a ys)" for a ys
    by (induction ys) simp_all
  then show ?case using Cons by simp
qed simp

text \<open>Reading a thread past a position after some appends, when every event of it can be read back.\<close>

lemma listAfter_appended:
  assumes "append_all s db es = Inr db'" and "in_thread db s t"
    and "\<forall>y \<in> set (cv_events db). er_threadId y = t \<longrightarrow> int (er_seq y) \<le> a"
    and "\<forall>e \<in> set es. threadId (ev_base e) = t \<longrightarrow> a < int (ev_seq e) \<and> wf_event e \<and> \<not> carries_undefined e"
  shows "listAfter db' s t a n =
    Inr (map json_event (take n (sort_key ev_seq (filter (\<lambda>e. threadId (ev_base e) = t) es))))"
proof -
  note ap = append_all_Inr [OF assms(1), of s t]
  let ?mine = "filter (\<lambda>e. threadId (ev_base e) = t) es"
  have "filter (\<lambda>x. er_threadId x = t \<and> a < int (er_seq x)) (cv_events db') = map (event_row_of s) ?mine"
  proof -
    have "filter (\<lambda>x. er_threadId x = t \<and> a < int (er_seq x)) (cv_events db) = []"
      using assms(3) by (auto simp: filter_empty_conv)
    moreover have "filter (\<lambda>e. threadId (ev_base e) = t \<and> a < int (ev_seq e)) es = ?mine"
      using assms(4) by (auto intro: filter_cong)
    ultimately show ?thesis using ap by (simp add: filter_map comp_def event_row_of_def)
  qed
  then have rows: "listAfter db' s t a n =
      mapE (\<lambda>x. storedRunEvent (stored_of x)) (map (event_row_of s) (take n (sort_key ev_seq ?mine)))"
    using ap assms(2) by (simp add: listAfter_def sort_key_map take_map event_row_of_def)
  have "mapE (\<lambda>x. storedRunEvent (stored_of x)) (map (event_row_of s) xs) = Inr (map json_event xs)"
    if "set xs \<subseteq> set ?mine" for xs
    using that assms(4) by (induction xs) (auto simp: stored_round_trip)
  moreover have "set (take n (sort_key ev_seq ?mine)) \<subseteq> set ?mine" by (auto dest: in_set_takeD)
  ultimately show ?thesis unfolding rows by blast
qed

section \<open>A run keeps its identity\<close>

definition same_run :: "created_run \<Rightarrow> created_run \<Rightarrow> bool" where
  "same_run r r' \<longleftrightarrow> cr_id r' = cr_id r \<and> run_nonce r' = run_nonce r \<and> cr_taskId r' = cr_taskId r \<and>
     cr_threadId r' = cr_threadId r \<and> cr_trigger r' = cr_trigger r \<and>
     cr_sourceMessageId r' \<in> {None, cr_sourceMessageId r}"

lemma same_run_refl [simp]: "same_run r r"
  by (simp add: same_run_def)

lemma same_run_trans: "same_run r r' \<Longrightarrow> same_run r' r'' \<Longrightarrow> same_run r r''"
  by (auto simp: same_run_def)

lemma conv_step_runs:
  assumes "conv_step db db'" and d: "distinct (map th_id (cv_threads db))" and "r \<in> set (cv_runs db)"
  shows "\<exists>r' \<in> set (cv_runs db'). same_run r r'"
proof -
  have upd: "\<exists>r' \<in> set (update_where P f (cv_runs db)). same_run r r'" if "\<And>x. same_run x (f x)" for P f
    using that assms(3) by (intro bexI [of _ "if P r then f r else r"]) (simp, simp only: update_where_set, blast)
  have self: ?thesis if "set (cv_runs db) \<subseteq> set (cv_runs db')" using that assms(3) same_run_refl by blast
  show ?thesis
    using assms(1)
  proof cases
    case (assistant i s)
    from appendAssistant_keeps(1) [OF d assistant(2,1)] show ?thesis by (intro self) simp
  next
    case (steered i s u)
    from steer_keeps(1) [OF d steered(2,1)] show ?thesis by (intro self) simp
  next
    case (created i s u)
    show ?thesis
    proof (cases "db' = db")
      case False
      from createRunAndTask_step [OF created(1) this]
      obtain x k m where "createOnce db s u i = Inr (Some (x, k, m), db')" by metis
      from createOnce_Some(9) [OF this d created(2,3)] have "cv_runs db' = cv_runs db @ [x]"
        by (metis conversation.select_convs(3) conversation.surjective conversation.update_convs(3))
      then show ?thesis by (intro self) auto
    qed (use self in simp)
  next
    case (cleared s tid)
    show ?thesis
    proof (cases "in_thread db s tid")
      case True
      then show ?thesis unfolding cleared by (simp add: clearThread_def Let_def) (rule upd, simp add: same_run_def)
    qed (use self in \<open>simp add: cleared clearThread_def\<close>)
  next
    case (progress st st' rid)
    show ?thesis unfolding progress by simp (rule upd, simp add: same_run_def)
  next
    case (event_stored s e)
    then have "cv_runs db' = cv_runs db" by (auto simp: sink_append_def Let_def)
    then show ?thesis by (intro self) simp
  qed (use self in \<open>simp_all add: claimSteeringMessages_def Let_def\<close>)
qed

lemma conv_steps_runs:
  assumes "conv_step\<^sup>*\<^sup>* db db'" and "wf_transcript db" and "r \<in> set (cv_runs db)"
  shows "wf_transcript db' \<and> (\<exists>r' \<in> set (cv_runs db'). same_run r r')"
  using assms(1)
proof (induction rule: rtranclp_induct)
  case base
  then show ?case using assms(2,3) same_run_refl by blast
next
  case (step y z)
  then obtain r' where "r' \<in> set (cv_runs y)" "same_run r r'" by blast
  with step show ?case
    using conv_step_wf conv_step_runs [of y z r'] by (auto simp: wf_transcript_def intro: same_run_trans)
qed

section \<open>Steering rows\<close>

definition wf_steering :: "conversation \<Rightarrow> bool" where
  "wf_steering db \<longleftrightarrow> distinct (map sg_messageId (cv_steering db)) \<and>
     sg_messageId ` set (cv_steering db) \<subseteq> mg_id ` set (cv_messages db)"

lemma wf_steering_messages:
  "wf_steering db \<Longrightarrow> map sg_messageId (cv_steering db') = map sg_messageId (cv_steering db) \<Longrightarrow>
   set (cv_messages db) \<subseteq> set (cv_messages db') \<Longrightarrow> wf_steering db'"
  unfolding wf_steering_def by (metis image_mono image_set order_trans)

lemma wf_steering_cleared:
  assumes "wf_steering db" and "distinct (map mg_id (cv_messages db))"
  shows "wf_steering (snd (clearThread db s tid))"
proof (cases "in_thread db s tid")
  case True
  let ?gone = "mg_id ` {m \<in> set (cv_messages db). mg_threadId m = tid}"
  have "i \<in> mg_id ` {m \<in> set (cv_messages db). mg_threadId m \<noteq> tid}"
    if "i \<in> mg_id ` set (cv_messages db)" "i \<notin> ?gone" for i
    using that by auto
  then show ?thesis
    using assms(1) True
    by (auto simp: wf_steering_def clearThread_def Let_def distinct_map_filter)
qed (use assms in \<open>simp add: clearThread_def\<close>)

lemma conv_step_steering:
  assumes "conv_step db db'" and "wf_steering db" and wf: "wf_transcript db"
  shows "wf_steering db'"
proof -
  have d: "distinct (map th_id (cv_threads db))" "distinct (map mg_id (cv_messages db))"
    using wf by (simp_all add: wf_transcript_def)
  have same: "wf_steering db'" if "cv_steering db' = cv_steering db" "set (cv_messages db) \<subseteq> set (cv_messages db')"
    using wf_steering_messages [OF assms(2)] that by simp
  show ?thesis
    using assms(1)
  proof cases
    case (assistant i s)
    note k = appendAssistant_keeps [OF d(1) assistant(2,1)]
    show ?thesis by (rule same [OF k(3,4)])
  next
    case (steered i s u)
    from steer_step [OF d(1) steered(2,1)] show ?thesis
    proof
      assume "\<exists>m b. adds_message db m db' \<and> db' = db\<lparr>cv_threads := cv_threads db', cv_messages := cv_messages db @ [m],
        cv_steering := cv_steering db @ [\<lparr>sg_messageId = mg_id m, sg_botId = b, sg_userId = u,
          sg_runId = nm_runId i, sg_claimedAt = None\<rparr>]\<rparr>"
      then obtain m b where m: "adds_message db m db'" "db' = db\<lparr>cv_threads := cv_threads db', cv_messages := cv_messages db @ [m],
        cv_steering := cv_steering db @ [\<lparr>sg_messageId = mg_id m, sg_botId = b, sg_userId = u,
          sg_runId = nm_runId i, sg_claimedAt = None\<rparr>]\<rparr>" by blast
      have "cv_messages db' = cv_messages db @ [m]" "map sg_messageId (cv_steering db') = map sg_messageId (cv_steering db) @ [mg_id m]"
        by (subst m(2), simp)+
      moreover have "mg_id m \<notin> mg_id ` set (cv_messages db)" using m(1) by (simp add: adds_message_def)
      ultimately show ?thesis
        using assms(2) unfolding wf_steering_def by (auto simp flip: set_map)
    qed (use assms(2) in simp)
  next
    case (claimed now s rid)
    show ?thesis
      by (rule wf_steering_messages [OF assms(2)])
        (auto simp: claimed claimSteeringMessages_def Let_def update_where_def)
  next
    case (created i s u)
    show ?thesis
    proof (cases "db' = db")
      case False
      from createRunAndTask_step [OF created(1) this]
      obtain x k m where "createOnce db s u i = Inr (Some (x, k, m), db')" by metis
      note c = createOnce_Some(9) [OF this d(1) created(2,3)]
      show ?thesis by (rule same) (subst c, simp, subst c, auto)
    qed (use assms(2) in simp)
  next
    case (cleared s tid)
    then show ?thesis using wf_steering_cleared [OF assms(2) d(2)] by simp
  next
    case (event_stored s e)
    show ?thesis by (rule same) (auto simp: event_stored sink_append_def Let_def)
  qed (use same in auto)
qed

lemma reachable_steering: "conv_step\<^sup>*\<^sup>* no_rows db \<Longrightarrow> wf_steering db"
proof (induction rule: rtranclp_induct)
  case base
  then show ?case by (simp add: wf_steering_def no_rows_def)
next
  case (step y z)
  then show ?case using conv_step_steering reachable_wf by blast
qed

end
