(* ===== verification/Replay_Facts.thy ===== *)
theory Replay_Facts
  imports Thread_Facts Reducer_Convergence
begin

text \<open>
  What the stored form of events does to the fold: reducing the events as the tables give them back
  yields the snapshot that reducing the events as they were emitted yields, with the arguments and
  results of its calls in their JSON form. The reducer compares no argument and no result, so the
  JSON form is a homomorphism of every handler, of the drain and of the whole fold.
\<close>

section \<open>The JSON form of a snapshot\<close>

definition json_call :: "tool_call_snapshot \<Rightarrow> tool_call_snapshot" where
  "json_call c = c\<lparr>tc_arguments := json_of (tc_arguments c), tc_result := map_option json_of (tc_result c)\<rparr>"

definition json_run :: "run_snapshot \<Rightarrow> run_snapshot" where
  "json_run r = r\<lparr>rs_toolCalls := map json_call (rs_toolCalls r)\<rparr>"

definition json_snapshot :: "thread_snapshot \<Rightarrow> thread_snapshot" where
  "json_snapshot s = s\<lparr>ts_runs := map json_run (ts_runs s), ts_pendingEvents := map json_event (ts_pendingEvents s)\<rparr>"

lemma json_call_simps [simp]:
  "tc_callId (json_call c) = tc_callId c" "tc_status (json_call c) = tc_status c"
  "tc_approval (json_call c) = tc_approval c" "approval_is st (json_call c) = approval_is st c"
  by (simp_all add: json_call_def approval_is_def)

lemma json_run_simps [simp]:
  "rs_runId (json_run r) = rs_runId r" "rs_status (json_run r) = rs_status r"
  "rs_toolCalls (json_run r) = map json_call (rs_toolCalls r)"
  "(json_run r)\<lparr>rs_status := st\<rparr> = json_run (r\<lparr>rs_status := st\<rparr>)"
  "(json_run r)\<lparr>rs_failure := x\<rparr> = json_run (r\<lparr>rs_failure := x\<rparr>)"
  "(json_run r)\<lparr>rs_cancelReason := y\<rparr> = json_run (r\<lparr>rs_cancelReason := y\<rparr>)"
  "json_run (freshRun i) = freshRun i" "hasPendingApproval (json_run r) = hasPendingApproval r"
  by (simp_all add: json_run_def freshRun_def hasPendingApproval_def list_ex_iff)

lemma json_snapshot_simps [simp]:
  "ts_threadId (json_snapshot s) = ts_threadId s" "ts_lastSeq (json_snapshot s) = ts_lastSeq s"
  "ts_messages (json_snapshot s) = ts_messages s" "ts_runs (json_snapshot s) = map json_run (ts_runs s)"
  "ts_pendingEvents (json_snapshot s) = map json_event (ts_pendingEvents s)"
  by (simp_all add: json_snapshot_def)

lemma find_map_key: "(\<And>x. P (f x) = Q x) \<Longrightarrow> find P (map f xs) = map_option f (find Q xs)"
  by (induction xs) simp_all

lemma findRun_json [simp]: "findRun (json_snapshot s) i = map_option json_run (findRun s i)"
  by (simp add: findRun_def find_map_key)

lemma findCall_json [simp]: "findCall (json_run r) c = map_option json_call (findCall r c)"
  by (simp add: findCall_def find_map_key)

lemma findMessage_json [simp]: "findMessage (json_snapshot s) i m = findMessage s i m"
  by (simp add: findMessage_def)

lemma upsert_map: "(\<And>x. key (f x) = key x) \<Longrightarrow> upsert key (f x) (map f xs) = map f (upsert key x xs)"
  by (simp add: upsert_def comp_def list_ex_iff if_distrib cong: if_cong)

lemma withRun_json [simp]: "withRun (json_snapshot s) (json_run r) = json_snapshot (withRun s r)"
  by (simp add: withRun_def json_snapshot_def upsert_map)

lemma withMessage_json [simp]: "withMessage (json_snapshot s) m = json_snapshot (withMessage s m)"
  and closeMessages_json [simp]: "closeMessages (json_snapshot s) i = json_snapshot (closeMessages s i)"
  by (simp_all add: withMessage_def closeMessages_def json_snapshot_def)

lemma existingOrFresh_json [simp]: "existingOrFresh (json_snapshot s) i = json_run (existingOrFresh s i)"
  by (simp add: existingOrFresh_def split: option.split)

lemma updateCall_json:
  "(\<And>x. x \<in> set (rs_toolCalls r) \<Longrightarrow> tc_callId x = c \<Longrightarrow> g (json_call x) = json_call (f x)) \<Longrightarrow>
   updateCall c g (json_run r) = json_run (updateCall c f r)"
  by (simp add: updateCall_def json_run_def comp_def if_distrib cong: if_cong)

section \<open>The handlers\<close>

abbreviation json_result :: "reduce_result \<Rightarrow> reduce_result" where
  "json_result \<equiv> map_sum id json_snapshot"

lemma asRunning_json [simp]:
  "asRunning (json_snapshot s) i = map_sum id (map_prod json_snapshot json_run) (asRunning s i)"
  by (simp add: asRunning_def Let_def split: sum.split)

lemma asTerminal_json [simp]:
  "asTerminal (json_snapshot s) i st = map_sum id (map_prod json_snapshot json_run) (asTerminal s i st)"
  by (simp add: asTerminal_def Let_def split: sum.split)

lemma bindE_json:
  "(\<And>a b. g (json_snapshot a) (json_run b) = json_result (f a b)) \<Longrightarrow>
   bindE (map_sum id (map_prod json_snapshot json_run) m) (\<lambda>(a, b). g a b) = json_result (bindE m (\<lambda>(a, b). f a b))"
  by (cases m) auto

lemma completeRunMessages_json [simp]:
  "completeRunMessages (json_snapshot s) i m = json_result (completeRunMessages s i m)"
  by (simp add: completeRunMessages_def split: option.split)

lemma json_run_call:
  "(json_run run)\<lparr>rs_toolCalls := map json_call (rs_toolCalls run) @ [json_call x]\<rparr> =
     json_run (run\<lparr>rs_toolCalls := rs_toolCalls run @ [x]\<rparr>)"
  by (simp add: json_run_def)

lemma reduceToolRequested_json:
  "reduceToolRequested (json_snapshot s) i c t (json_of a) = json_result (reduceToolRequested s i c t a)"
  unfolding reduceToolRequested_def asRunning_json
proof (rule bindE_json)
  fix s' run
  let ?new = "\<lambda>a. \<lparr>tc_callId = c, tc_tool = t, tc_arguments = a, tc_status = TRequested, tc_result = None,
      tc_artifact = None, tc_error = None, tc_durationMs = None, tc_approval = None\<rparr>"
  have "?new (json_of a) = json_call (?new a)" by (simp add: json_call_def)
  moreover have "list_ex (\<lambda>x. tc_callId x = c) (map json_call cs) = list_ex (\<lambda>x. tc_callId x = c) cs" for cs
    by (simp add: list_ex_iff)
  ultimately show "(if list_ex (\<lambda>x. tc_callId x = c) (rs_toolCalls (json_run run))
        then Inl (ToolCallConflict c TC_duplicate_request)
        else Inr (withRun (json_snapshot s') ((json_run run)\<lparr>rs_toolCalls := rs_toolCalls (json_run run) @ [?new (json_of a)]\<rparr>))) =
      json_result (if list_ex (\<lambda>x. tc_callId x = c) (rs_toolCalls run)
        then Inl (ToolCallConflict c TC_duplicate_request)
        else Inr (withRun s' (run\<lparr>rs_toolCalls := rs_toolCalls run @ [?new a]\<rparr>)))"
    by (simp only: json_run_simps json_run_call withRun_json if_distrib [of json_result] map_sum.simps id_apply)
qed

lemma approve_json:
  "updateCall c (\<lambda>x. x\<lparr>tc_approval := a\<rparr>) (json_run r) = json_run (updateCall c (\<lambda>x. x\<lparr>tc_approval := a\<rparr>) r)"
  by (rule updateCall_json) (simp add: json_call_def)

lemma reduceApprovalRequested_json:
  "reduceApprovalRequested (json_snapshot s) i c x = json_result (reduceApprovalRequested s i c x)"
  unfolding reduceApprovalRequested_def asRunning_json
  by (rule bindE_json) (simp add: approve_json Let_def split: option.split sum.split)

lemma reduceApprovalResolved_json:
  "reduceApprovalResolved (json_snapshot s) i c d x = json_result (reduceApprovalResolved s i c d x)"
  by (simp add: reduceApprovalResolved_def approve_json Let_def split: option.split sum.split)

fun json_resolution :: "tool_resolution \<Rightarrow> tool_resolution" where
  "json_resolution (Completion v a d) = Completion (json_of v) a d"
| "json_resolution (ToolFailure e d) = ToolFailure e d"

lemma resolvedCall_json [simp]:
  "resolvedCall (json_resolution r) (json_call c) = json_call (resolvedCall r c)"
  "is_completion (json_resolution r) = is_completion r"
  by (cases r; simp add: json_call_def)+

lemma reduceToolResolution_json:
  "reduceToolResolution (json_snapshot s) i c (json_resolution r) = json_result (reduceToolResolution s i c r)"
proof -
  have "updateCall c (\<lambda>_. resolvedCall (json_resolution r) (json_call x)) (json_run y) =
      json_run (updateCall c (\<lambda>_. resolvedCall r x) y)" for x y
    by (rule updateCall_json) simp
  then show ?thesis by (auto simp add: reduceToolResolution_def simp del: resolvedCall_json(1) split: option.split)
qed

lemma token_steer_json:
  "reduceTokenDelta (json_snapshot s) i m d = json_result (reduceTokenDelta s i m d)"
  "reduceRunSteered (json_snapshot s) i m t = json_result (reduceRunSteered s i m t)"
  unfolding reduceTokenDelta_def reduceRunSteered_def asRunning_json
  by (rule bindE_json, simp split: option.split)+

lemma terminal_json:
  "reduceRunCompleted (json_snapshot s) i m = json_result (reduceRunCompleted s i m)"
  "reduceRunFailed (json_snapshot s) i e c = json_result (reduceRunFailed s i e c)"
  "reduceRunCancelled (json_snapshot s) i x = json_result (reduceRunCancelled s i x)"
  unfolding reduceRunCompleted_def reduceRunFailed_def reduceRunCancelled_def asTerminal_json
  by (rule bindE_json, simp split: option.split)+

lemma reduceRunStarted_json:
  "reduceRunStarted (json_snapshot s) i = json_result (reduceRunStarted s i)"
  by (simp add: reduceRunStarted_def Let_def split: sum.split)

lemma applyEvent_json: "applyEvent (json_snapshot s) (json_event e) = json_result (applyEvent s e)"
proof (cases e)
  case (ToolCompleted b c v a d)
  then show ?thesis using reduceToolResolution_json [of s _ c "Completion v a d"] by simp
next
  case (ToolFailed b c x d)
  then show ?thesis using reduceToolResolution_json [of s _ c "ToolFailure x d"] by simp
qed (simp_all add: reduceRunStarted_json token_steer_json terminal_json reduceToolRequested_json
    reduceApprovalRequested_json reduceApprovalResolved_json)

section \<open>The fold\<close>

lemma applyAtCursor_json: "applyAtCursor (json_snapshot s) (json_event e) = json_result (applyAtCursor s e)"
proof (cases "applyEvent s e")
  case (Inr s')
  then show ?thesis
    by (simp add: applyAtCursor_def applyEvent_json filter_map comp_def json_snapshot_def [of "_\<lparr>ts_lastSeq := _, ts_pendingEvents := _\<rparr>"])
qed (simp add: applyAtCursor_def applyEvent_json)

lemma drainPending_json: "drainPending (json_snapshot s) = json_result (drainPending s)"
proof (induction s rule: drainPending.induct)
  case (1 s)
  let ?P = "\<lambda>e. ev_seq e = ts_lastSeq s + 1"
  have f: "find (\<lambda>e. ev_seq e = Suc (ts_lastSeq s)) (map json_event es) =
      map_option json_event (find (\<lambda>e. ev_seq e = Suc (ts_lastSeq s)) es)" for es
    by (rule find_map_key) simp
  show ?case
  proof (cases "find ?P (ts_pendingEvents s)")
    case None
    then show ?thesis by (subst (1 2) drainPending.simps) (simp add: f)
  next
    case (Some e)
    show ?thesis
    proof (cases "applyAtCursor s e")
      case (Inl x)
      then show ?thesis using Some by (subst (1 2) drainPending.simps) (simp add: f applyAtCursor_json)
    next
      case (Inr s')
      then show ?thesis using Some 1 [OF Some Inr]
        by (subst (1 2) drainPending.simps) (simp add: f applyAtCursor_json id_def)
    qed
  qed
qed

lemma sort_key_json: "sort_key ev_seq (map json_event es) = map json_event (sort_key ev_seq es)"
  by (simp add: sort_key_map)

lemma reduceParsedEvent_json:
  "reduceParsedEvent (json_snapshot s) (json_event e) = json_result (reduceParsedEvent s e)"
proof -
  have p: "withPending (json_snapshot s) (json_event e) = json_snapshot (withPending s e)"
    using sort_key_json [of "ts_pendingEvents s @ [e]"] by (simp add: withPending_def json_snapshot_def)
  have "list_ex (\<lambda>p. ev_seq p = ev_seq e) (map json_event es) = list_ex (\<lambda>p. ev_seq p = ev_seq e) es" for es
    by (simp add: list_ex_iff)
  moreover have "bindE (applyAtCursor (json_snapshot s) (json_event e)) drainPending =
      json_result (bindE (applyAtCursor s e) drainPending)"
    by (cases "applyAtCursor s e") (simp_all add: applyAtCursor_json drainPending_json)
  ultimately show ?thesis using p by (simp add: reduceParsedEvent_def)
qed

lemma reduceRunEvents_json:
  assumes "list_all wf_event es"
  shows "reduceRunEvents (json_snapshot s) (map event_value (map json_event es)) =
    json_result (reduceRunEvents s (map event_value es))"
  using assms
proof (induction es arbitrary: s)
  case (Cons e es)
  have "reduceRunEvent (json_snapshot s) (event_value (json_event e)) = json_result (reduceRunEvent s (event_value e))"
    using Cons.prems parse_event_value [of e] parse_event_value [of "json_event e"]
    by (simp add: reduceRunEvent_def reduceParsedEvent_json)
  then show ?case using Cons by (cases "reduceRunEvent s (event_value e)") (simp_all add: reduceRunEvents_def)
qed (simp add: reduceRunEvents_def)

end
