(* ===== verification/Store_Properties.thy ===== *)
theory Store_Properties
  imports Replay_Facts Thread_Properties
begin

text \<open>
  The correctness properties of the thread tables: the transcript has no gaps and no repeated
  sends, a submission is answered once, steering is claimed once, and what the event rows give
  back is what the live stream carried.
\<close>

section \<open>A sample conversation\<close>

definition sample_submission :: submission where
  "sample_submission = \<lparr>sb_taskId = ''k'', sb_runId = ''r'', sb_messageId = ''m'', sb_threadId = ''t'',
     sb_clientNonce = ''n'', sb_prompt = ''hi'', sb_blocks = JArr []\<rparr>"

definition opened :: conversation where
  "opened = no_rows\<lparr>cv_threads := [fresh_thread ''t'' ''s'' ''b'']\<rparr>"

definition submitted :: conversation where
  "submitted = snd (createRunAndTask opened ''s'' ''u'' sample_submission)"

lemma opened_reachable: "conv_step\<^sup>*\<^sup>* no_rows opened"
  using conv_step.open_thread [of "''t''" no_rows "''s''" "''b''"]
  by (intro r_into_rtranclp) (simp add: opened_def no_rows_def)

lemma submitted_reachable: "conv_step\<^sup>*\<^sup>* no_rows submitted"
  using opened_reachable
proof (rule rtranclp.rtrancl_into_rtrancl)
  show "conv_step opened submitted"
    unfolding submitted_def
    by (rule conv_step.created) (simp_all add: opened_def no_rows_def)
qed

lemma sample_created_once:
  "\<exists>r k m. createOnce opened ''s'' ''u'' sample_submission = Inr (Some (r, k, m), submitted)"
proof -
  have "map_sum id fst (createOnce opened ''s'' ''u'' sample_submission) \<noteq> Inr None"
    "is_ok (createOnce opened ''s'' ''u'' sample_submission)" by code_simp+
  then obtain r k m db1 where c: "createOnce opened ''s'' ''u'' sample_submission = Inr (Some (r, k, m), db1)"
    by (cases "createOnce opened ''s'' ''u'' sample_submission") (auto simp: is_ok_def)
  then have "submitted = db1" by (simp add: submitted_def createRunAndTask_def)
  with c show ?thesis by blast
qed

section \<open>Positions of a transcript\<close>

lemma upt_above: "filter (\<lambda>k. a < int k) [0..<n] = [nat (a + 1)..<n]"
proof (induction n)
  case (Suc n)
  then show ?case by (cases "a < int n") (auto simp: nat_le_iff)
qed simp

lemma sorted_positions: "map f (sort_key f xs) = sort (map f xs)"
  using sort_key_map [of "\<lambda>x. x" f xs] by simp

text \<open>
  C16: The transcript of a thread has no gaps. Whatever sends, answers, steering, claims, clears and
  events interleave, a page of messages after a position holds exactly the next positions up to the
  thread's counter, in order, and no two messages of a thread carry the same nonce.
\<close>

theorem transcript_gapless:
  assumes "conv_step\<^sup>*\<^sup>* no_rows db" and "t \<in> set (cv_threads db)"
  shows "map mg_seq (listForThread db (th_spaceId t) (th_id t) a n) = take n [nat (a + 1)..<th_nextMessageSeq t] \<and>
    distinct (map mg_clientNonce (listForThread db (th_spaceId t) (th_id t) a n))"
proof -
  note wf = reachable_wf [OF assms(1)]
  let ?ms = "filter (\<lambda>m. mg_threadId m = th_id t \<and> a < int (mg_seq m)) (cv_messages db)"
  have l: "listForThread db (th_spaceId t) (th_id t) a n = take n (sort_key mg_seq ?ms)"
    using assms(2) by (auto simp: listForThread_def in_thread_def list_ex_iff)
  have "map mg_seq ?ms = filter (\<lambda>k. a < int k) (positions db (th_id t))"
    by (simp add: positions_def filter_map comp_def conj_commute)
  also have "\<dots> = [nat (a + 1)..<th_nextMessageSeq t]"
    using wf assms(2) by (simp add: wf_transcript_def upt_above)
  finally have seqs: "map mg_seq (sort_key mg_seq ?ms) = [nat (a + 1)..<th_nextMessageSeq t]"
    by (simp add: sorted_positions sorted_sort_id)
  have "distinct (map message_nonce ?ms)"
    using wf by (simp add: wf_transcript_def distinct_map_filter)
  then have "inj_on mg_clientNonce (set ?ms)" "distinct ?ms" by (auto simp: distinct_map inj_on_def)
  then have "distinct (map mg_clientNonce (take n (sort_key mg_seq ?ms)))"
    using set_take_subset [of n "sort_key mg_seq ?ms"] by (auto simp: distinct_map intro: inj_on_subset)
  then show ?thesis using seqs by (simp add: l flip: take_map)
qed

theorem transcript_gapless_witness:
  "map mg_seq (listForThread submitted ''s'' ''t'' (-1) 10) = [0]"
proof -
  have t: "fresh_thread ''t'' ''s'' ''b''\<lparr>th_nextMessageSeq := 1\<rparr> \<in> set (cv_threads submitted)"
    by code_simp
  show ?thesis
    using transcript_gapless [OF submitted_reachable t, of "-1" 10] by (simp add: fresh_thread_def)
qed

section \<open>Submissions\<close>

text \<open>
  C15: A submission is carried out once. One that creates a run adds exactly its task, run and message
  and names them in its answer; whenever the same nonce comes again, in any later state, nothing
  changes and the answer is the same run with its task and its source message, unless that message
  has been deleted.
\<close>

theorem submission_once:
  assumes "conv_step\<^sup>*\<^sup>* no_rows db" and "createOnce db s u i = Inr (Some (r, k, m), db1)"
    and "sb_messageId i \<notin> mg_id ` set (cv_messages db)" "sb_runId i \<notin> cr_id ` set (cv_runs db)"
      "sb_taskId i \<notin> tk_id ` set (cv_tasks db)"
    and "conv_step\<^sup>*\<^sup>* db1 db2" and "sb_clientNonce i' = sb_clientNonce i" and "in_thread db2 s (sb_threadId i')"
  shows "createRunAndTask db s u i = (Inr (r, k, m), db1) \<and>
    cv_runs db1 = cv_runs db @ [r] \<and> cv_tasks db1 = cv_tasks db @ [k] \<and> cv_messages db1 = cv_messages db @ [m] \<and>
    (\<exists>r' \<in> set (cv_runs db2). run_nonce r' = run_nonce r \<and> cr_id r' = cr_id r \<and> cr_taskId r' = cr_taskId r \<and>
       snd (createRunAndTask db2 s u' i') = db2 \<and>
       (case cr_sourceMessageId r' of
          None \<Rightarrow> \<exists>e. fst (createRunAndTask db2 s u' i') = Inl (Defect e)
        | Some j \<Rightarrow> j = mg_id m \<and> (\<exists>k' \<in> set (cv_tasks db2). \<exists>m' \<in> set (cv_messages db2).
            tk_id k' = tk_id k \<and> mg_id m' = mg_id m \<and> fst (createRunAndTask db2 s u' i') = Inr (r', k', m'))))"
proof -
  note wf = reachable_wf [OF assms(1)]
  then have d: "distinct (map th_id (cv_threads db))" by (simp add: wf_transcript_def)
  note c = createOnce_Some [OF assms(2) d assms(3,4)]
  have answer: "createRunAndTask db s u i = (Inr (r, k, m), db1)" by (simp add: createRunAndTask_def assms(2))
  have rows: "cv_runs db1 = cv_runs db @ [r]" "cv_tasks db1 = cv_tasks db @ [k]" "cv_messages db1 = cv_messages db @ [m]"
    by (subst c(9), simp)+
  have "conv_step db db1" using conv_step.created [of i db s u] assms(3-5) answer by simp
  then have re: "conv_step\<^sup>*\<^sup>* no_rows db1" "conv_step\<^sup>*\<^sup>* no_rows db2"
    using assms(1,6) by (auto intro: rtranclp_trans)
  obtain r' where r': "r' \<in> set (cv_runs db2)" "same_run r r'"
    using conv_steps_runs [OF assms(6) reachable_wf [OF re(1)], of r] rows by auto
  have r: "cr_spaceId r = s" "cr_clientNonce r = sb_clientNonce i" "cr_taskId r = tk_id k"
      "cr_sourceMessageId r = Some (mg_id m)"
    using c(6) by (simp_all add: new_run_def)
  have "cr_spaceId r' = s" "cr_clientNonce r' = sb_clientNonce i'" using r' r assms(7) by (auto simp: same_run_def)
  note held = createRunAndTask_held [OF reachable_links [OF re(2)] _ r'(1) this(2), unfolded this(1), OF _ assms(8)]
  have md: "distinct (map mg_id (cv_messages db2))" using reachable_wf [OF re(2)] by (simp add: wf_transcript_def)
  have "cr_sourceMessageId r' = None \<or> cr_sourceMessageId r' = Some (mg_id m)" "cr_taskId r' = tk_id k"
    using r' r by (auto simp: same_run_def)
  then show ?thesis
    using answer rows r' held [OF md, where u = u']
    by (intro conjI bexI [of _ r']) (auto simp: same_run_def split: option.splits)
qed

theorem submission_once_witness:
  "\<exists>r k m. createRunAndTask opened ''s'' ''u'' sample_submission = (Inr (r, k, m), submitted) \<and>
     snd (createRunAndTask submitted ''s'' ''u'' sample_submission) = submitted"
proof -
  obtain r k m where c: "createOnce opened ''s'' ''u'' sample_submission = Inr (Some (r, k, m), submitted)"
    using sample_created_once by blast
  have "in_thread submitted ''s'' (sb_threadId sample_submission)" by code_simp
  then show ?thesis
    using submission_once [OF opened_reachable c, of submitted sample_submission "''u''"]
    by (auto simp: opened_def no_rows_def)
qed

text \<open>
  A retry after the thread was cleared has no answer. Clearing deletes the source message and
  leaves the run with its nonce, so the same submission sent again is neither carried out nor
  replayed: it ends in the error that reports an impossible state, and so does every further retry.
\<close>

theorem cleared_submission_defect:
  assumes "conv_step\<^sup>*\<^sup>* no_rows db" and "createOnce db s u i = Inr (Some (r, k, m), db1)"
    and "sb_messageId i \<notin> mg_id ` set (cv_messages db)" "sb_runId i \<notin> cr_id ` set (cv_runs db)"
      "sb_taskId i \<notin> tk_id ` set (cv_tasks db)"
  shows "fst (clearThread db1 s (sb_threadId i)) = Inr () \<and>
    (\<exists>e. createRunAndTask (snd (clearThread db1 s (sb_threadId i))) s u' i =
       (Inl (Defect e), snd (clearThread db1 s (sb_threadId i))))"
proof -
  have d: "distinct (map th_id (cv_threads db))"
    using reachable_wf [OF assms(1)] by (simp add: wf_transcript_def)
  note c = createOnce_Some [OF assms(2) d assms(3,4)]
  let ?db2 = "snd (clearThread db1 s (sb_threadId i))"
  have "conv_step db db1"
    using conv_step.created [of i db s u] assms(3-5) by (simp add: createRunAndTask_def assms(2))
  then have re: "conv_step\<^sup>*\<^sup>* no_rows ?db2"
    using assms(1) conv_step.cleared [of db1 s "sb_threadId i"] by (meson rtranclp.rtrancl_into_rtrancl)
  have "in_thread db s (sb_threadId i)"
    using assms(2) by (force simp: createOnce_def in_thread_def list_ex_iff find_Some_iff split: option.splits)
  moreover have "cv_threads db1 = update_where (\<lambda>t. th_id t = mg_threadId m) advance (cv_threads db)"
    using c(1) by (simp add: adds_message_def)
  ultimately have it: "in_thread db1 s (sb_threadId i)"
    by (simp add: in_thread_def list_ex_update_where advance_def)
  then have it2: "in_thread ?db2 s (sb_threadId i)"
    by (simp add: clearThread_def Let_def in_thread_def list_ex_update_where)
  have rows: "cv_runs db1 = cv_runs db @ [r]" "cv_messages db1 = cv_messages db @ [m]" by (subst c(9), simp)+
  have r: "cr_spaceId r = s" "cr_clientNonce r = sb_clientNonce i" "cr_sourceMessageId r = Some (mg_id m)"
    using c(6) by (simp_all add: new_run_def)
  have "r\<lparr>cr_sourceMessageId := None\<rparr> \<in> set (cv_runs ?db2)"
    using it r(3) c(3) by (simp add: clearThread_def Let_def rows update_where_def)
  from createRunAndTask_held(1,2) [OF reachable_links [OF re] _ this, of i u'] reachable_wf [OF re]
  have "snd (createRunAndTask ?db2 s u' i) = ?db2" "\<exists>e. fst (createRunAndTask ?db2 s u' i) = Inl (Defect e)"
    using it2 r by (simp_all add: wf_transcript_def)
  then show ?thesis using it by (auto simp: clearThread_def Let_def prod_eq_iff)
qed

theorem cleared_submission_defect_witness:
  "\<exists>e. createRunAndTask (snd (clearThread submitted ''s'' ''t'')) ''s'' ''u'' sample_submission =
     (Inl (Defect e), snd (clearThread submitted ''s'' ''t''))"
proof -
  obtain r k m where c: "createOnce opened ''s'' ''u'' sample_submission = Inr (Some (r, k, m), submitted)"
    using sample_created_once by blast
  show ?thesis
    using cleared_submission_defect [OF opened_reachable c, of "''u''"]
    by (simp add: opened_def no_rows_def) (simp add: sample_submission_def)
qed

section \<open>Steering\<close>

text \<open>
  Steering is claimed once. A claim by an active run returns exactly the messages sent to it and
  not claimed before, in transcript order; afterwards no claim of any run, in any space and at any
  time, returns one of them. A run that is not active claims nothing.
\<close>

theorem steering_claimed_once:
  assumes "conv_step\<^sup>*\<^sup>* no_rows db" and "claimSteeringMessages now db s rid = (out, db')"
  shows "(if list_ex (\<lambda>r. cr_id r = rid \<and> cr_spaceId r = s \<and> isActiveStatus (cr_status r)) (cv_runs db)
     then set (map fst out) = {sg_messageId x | x. x \<in> set (cv_steering db) \<and> sg_runId x = rid \<and> sg_claimedAt x = None}
     else out = [] \<and> db' = db) \<and>
    (\<exists>ms. sorted (map mg_seq ms) \<and> distinct ms \<and> set ms \<subseteq> set (cv_messages db) \<and> map fst out = map mg_id ms) \<and>
    set (map fst (fst (claimSteeringMessages now' db' s' rid'))) \<inter> set (map fst out) = {}"
proof -
  let ?act = "list_ex (\<lambda>r. cr_id r = rid \<and> cr_spaceId r = s \<and> cr_status r \<in> set ACTIVE_RUN_STATUSES) (cv_runs db)"
  let ?P = "\<lambda>x. sg_runId x = rid \<and> sg_claimedAt x = None \<and> ?act"
  let ?ids = "sg_messageId ` {x \<in> set (cv_steering db). ?P x}"
  let ?ms = "sort_key mg_seq (filter (\<lambda>m. mg_id m \<in> ?ids) (cv_messages db))"
  have st: "wf_steering db" and md: "distinct (map mg_id (cv_messages db))"
    using reachable_steering [OF assms(1)] reachable_wf [OF assms(1)] by (simp_all add: wf_transcript_def)
  have fo: "map fst out = map mg_id ?ms"
    and db': "db' = db\<lparr>cv_steering := update_where ?P (\<lambda>s. s\<lparr>sg_claimedAt := Some now\<rparr>) (cv_steering db)\<rparr>"
    using assms(2) by (auto simp: claimSteeringMessages_def Let_def comp_def)
  have ids: "set (map fst out) = ?ids"
  proof -
    have "?ids \<subseteq> mg_id ` set (cv_messages db)" using st by (auto simp: wf_steering_def)
    moreover have "set (map mg_id ?ms) = mg_id ` set (cv_messages db) \<inter> ?ids" by auto
    ultimately show ?thesis unfolding fo by blast
  qed
  have inactive: "\<not> ?act \<Longrightarrow> out = [] \<and> db' = db"
    using ids by (auto simp: db' update_where_def)
  have "x \<notin> ?ids" if x: "x \<in> set (map fst (fst (claimSteeringMessages now' db' s' rid')))" for x
  proof
    assume "x \<in> ?ids"
    then obtain y where y: "y \<in> set (cv_steering db)" "?P y" "sg_messageId y = x" by auto
    obtain z where z: "z \<in> set (cv_steering db')" "sg_claimedAt z = None" "sg_messageId z = x"
      using x by (auto simp: claimSteeringMessages_def Let_def)
    then obtain w where w: "w \<in> set (cv_steering db)" "z = (if ?P w then w\<lparr>sg_claimedAt := Some now\<rparr> else w)"
      unfolding db' by (auto simp: update_where_set simp del: if_split)
    then have "\<not> ?P w" "sg_messageId w = x" using z by (auto split: if_splits)
    then show False
      using y w(1) st by (auto simp: wf_steering_def distinct_map inj_on_def)
  qed
  then have again: "set (map fst (fst (claimSteeringMessages now' db' s' rid'))) \<inter> set (map fst out) = {}"
    unfolding ids by blast
  have order: "\<exists>ms. sorted (map mg_seq ms) \<and> distinct ms \<and> set ms \<subseteq> set (cv_messages db) \<and> map fst out = map mg_id ms"
    using md fo by (intro exI [of _ ?ms]) (auto simp: distinct_map)
  have "isActiveStatus st \<longleftrightarrow> st \<in> set ACTIVE_RUN_STATUSES" for st
    by (cases st) (simp_all add: ACTIVE_RUN_STATUSES_def RUN_STATUSES_def)
  then have "if list_ex (\<lambda>r. cr_id r = rid \<and> cr_spaceId r = s \<and> isActiveStatus (cr_status r)) (cv_runs db)
     then set (map fst out) = {sg_messageId x | x. x \<in> set (cv_steering db) \<and> sg_runId x = rid \<and> sg_claimedAt x = None}
     else out = [] \<and> db' = db"
    using ids inactive by auto
  then show ?thesis using again order by blast
qed

definition steered_db :: conversation where
  "steered_db = snd (steer (submitted\<lparr>cv_runs := update_where (\<lambda>r. cr_id r = ''r'' \<and> cr_status r = Queued)
     (\<lambda>r. r\<lparr>cr_status := Running\<rparr>) (cv_runs submitted)\<rparr>) ''s'' ''u''
     \<lparr>nm_id = ''m2'', nm_threadId = ''t'', nm_runId = ''r'', nm_clientNonce = ''n2'', nm_blocks = JArr []\<rparr>)"

lemma steered_db_reachable: "conv_step\<^sup>*\<^sup>* no_rows steered_db"
proof -
  let ?run = "submitted\<lparr>cv_runs := update_where (\<lambda>r. cr_id r = ''r'' \<and> cr_status r = Queued)
     (\<lambda>r. r\<lparr>cr_status := Running\<rparr>) (cv_runs submitted)\<rparr>"
  let ?i = "\<lparr>nm_id = ''m2'', nm_threadId = ''t'', nm_runId = ''r'', nm_clientNonce = ''n2'', nm_blocks = JArr []\<rparr>"
  have "canTransition Queued Running" by code_simp
  then have "conv_step submitted ?run" by (rule conv_step.progress)
  moreover have "conv_step ?run steered_db"
    unfolding steered_db_def by (rule conv_step.steered) code_simp
  ultimately show ?thesis
    using submitted_reachable by (meson rtranclp.rtrancl_into_rtrancl)
qed

theorem steering_claimed_once_witness:
  "map fst (fst (claimSteeringMessages 5 steered_db ''s'' ''r'')) = [''m2''] \<and>
   ''m2'' \<notin> set (map fst (fst (claimSteeringMessages 6 (snd (claimSteeringMessages 5 steered_db ''s'' ''r'')) ''s'' ''r'')))"
proof -
  have "map fst (fst (claimSteeringMessages 5 steered_db ''s'' ''r'')) = [''m2'']" by code_simp
  then show ?thesis
    using steering_claimed_once [OF steered_db_reachable, of 5 "''s''" "''r''" "fst (claimSteeringMessages 5 steered_db ''s'' ''r'')"
        "snd (claimSteeringMessages 5 steered_db ''s'' ''r'')" 6 "''s''" "''r''"]
    by auto
qed

section \<open>Events\<close>

text \<open>
  C40: What is read back of a stored event. A well-formed event comes back as itself up to the JSON form
  of its arguments or result, whose missing fields are gone and whose numbers that are not finite are
  null; an event whose arguments or result are undefined is accepted by the live parser and by the
  table and is refused by every later read of its thread.
\<close>

theorem stored_event_exact:
  assumes "wf_event e"
  shows "parseRunEvent (event_value e) = Inr e \<and>
    storedRunEvent (stored_of (event_row_of s e)) =
      (if carries_undefined e
       then malformed ((case e of ToolRequested _ _ _ _ \<Rightarrow> ''arguments'' | _ \<Rightarrow> ''result'') @ '' must be present'') JUndefined
       else Inr (json_event e))"
proof (cases "carries_undefined e")
  case False
  then show ?thesis using assms stored_round_trip parse_event_value by simp
next
  case True
  then show ?thesis
    using assms stored_undefined [of e s] parse_event_value by simp
qed

theorem stored_event_exact_witness:
  "storedRunEvent (stored_of (event_row_of ''s'' (ToolCompleted (sample_base 3) ''c'' JUndefined None None))) =
     malformed ''result must be present'' JUndefined"
proof -
  have "wf_event (ToolCompleted (sample_base 3) ''c'' JUndefined None None)" by code_simp
  from stored_event_exact [OF this, of "''s''"] show ?thesis by simp
qed

text \<open>
  C17: A replay agrees with the live stream. Events of this and of other threads were appended in
  whatever order the workers wrote them; those of the thread are well formed, carry no undefined
  argument or result and lie past the position a client's snapshot has reached, and the rows stored
  before lie at or before it. Then reading past that position returns the thread's new events in
  sequence order in their stored form, and reducing what was read gives the error or the snapshot
  that reducing the events as they were emitted, in the order they were written, gives, with the
  arguments and results of its calls in JSON form.
\<close>

theorem replay_matches_live:
  assumes "append_all s db es = Inr db'" and "in_thread db s (ts_threadId snap)"
    and "distinct (map event_position (cv_events db))"
    and "\<forall>y \<in> set (cv_events db). er_threadId y = ts_threadId snap \<longrightarrow> er_seq y \<le> ts_lastSeq snap"
    and "\<forall>e \<in> set es. threadId (ev_base e) = ts_threadId snap \<longrightarrow>
      ts_lastSeq snap < ev_seq e \<and> wf_event e \<and> \<not> carries_undefined e"
    and "length es \<le> n" and "ts_pendingEvents snap = []"
    and "emitted = filter (\<lambda>e. threadId (ev_base e) = ts_threadId snap) es"
  shows "listAfter db' s (ts_threadId snap) (int (ts_lastSeq snap)) n = Inr (map json_event (sort_key ev_seq emitted)) \<and>
    sorted_wrt (<) (map ev_seq (sort_key ev_seq emitted)) \<and>
    reduceRunEvents (json_snapshot snap) (map event_value (map json_event (sort_key ev_seq emitted))) =
      map_sum id json_snapshot (reduceRunEvents snap (map event_value emitted))"
proof -
  have ap: "cv_events db' = cv_events db @ map (event_row_of s) es" "distinct (map event_position (cv_events db'))"
    using append_all_Inr [OF assms(1)] assms(3) by blast+
  have "distinct (map (\<lambda>e. (threadId (ev_base e), ev_seq e)) es)"
    using ap by (simp add: event_position_def event_row_of_def comp_def)
  then have "distinct (map (\<lambda>e. (threadId (ev_base e), ev_seq e)) emitted)"
    unfolding assms(8) by (rule distinct_map_filter)
  then have ds: "distinct (map ev_seq emitted)" by (auto simp: assms(8) distinct_map inj_on_def)
  have wf: "list_all wf_event emitted" "list_all (\<lambda>e. threadId (ev_base e) = ts_threadId snap) emitted"
    using assms(5) by (auto simp: assms(8) list_all_iff)
  have "length (sort_key ev_seq emitted) \<le> n"
    unfolding assms(8) by (simp add: le_trans [OF length_filter_le assms(6)])
  then have l: "listAfter db' s (ts_threadId snap) (int (ts_lastSeq snap)) n = Inr (map json_event (sort_key ev_seq emitted))"
    using listAfter_appended [OF assms(1,2), of "int (ts_lastSeq snap)" n] assms(4,5,8) by simp
  have ss: "sorted_wrt (<) (map ev_seq (sort_key ev_seq emitted))"
    using ds by (simp add: strict_sorted_iff distinct_map)
  have con: "consistent_events (ts_threadId snap) (map event_value xs) xs" if "set xs = set emitted" for xs
  proof (rule consistent_values)
    show "list_all wf_event xs" "list_all (\<lambda>e. threadId (ev_base e) = ts_threadId snap) xs"
      using that wf by (auto simp: list_all_iff)
    have "inj_on ev_seq (set xs)" using ds by (simp add: that distinct_map)
    then show "distinct (map ev_seq (remdups xs))" by (simp add: distinct_map)
  qed
  have "reduceRunEvents snap (map event_value (sort_key ev_seq emitted)) = reduceRunEvents snap (map event_value emitted)"
    by (rule reduce_same_set [OF con con _ assms(7)]) simp_all
  moreover have "list_all wf_event (sort_key ev_seq emitted)" using wf by (simp add: list_all_iff)
  ultimately show ?thesis using l ss reduceRunEvents_json [of "sort_key ev_seq emitted" snap] by simp
qed

theorem replay_matches_live_witness:
  "\<exists>db'. append_all ''s'' submitted (map (nth sample_stream) [1, 0, 2]) = Inr db' \<and>
     listAfter db' ''s'' ''t'' 0 10 = Inr (map (nth sample_stream) [0, 1, 2]) \<and>
     reduceRunEvents (json_snapshot sample_thread) (map event_value (map (nth sample_stream) [0, 1, 2])) =
       map_sum id json_snapshot (reduceRunEvents sample_thread (map event_value (map (nth sample_stream) [1, 0, 2])))"
proof -
  let ?es = "map (nth sample_stream) [1, 0, 2]"
  have "is_ok (append_all ''s'' submitted ?es)" by code_simp
  then obtain db' where a: "append_all ''s'' submitted ?es = Inr db'" by (auto simp: is_ok_def split: sum.splits)
  have "cv_events submitted = []" "in_thread submitted ''s'' ''t''" "ts_lastSeq sample_thread = 0"
    "ts_threadId sample_thread = ''t''" "ts_pendingEvents sample_thread = []"
    "?es = filter (\<lambda>e. threadId (ev_base e) = ts_threadId sample_thread) ?es" by code_simp+
  moreover have "list_all (\<lambda>e. threadId (ev_base e) = ts_threadId sample_thread \<longrightarrow>
      ts_lastSeq sample_thread < ev_seq e \<and> wf_event e \<and> \<not> carries_undefined e) ?es"
    by code_simp
  moreover have "map json_event (sort_key ev_seq ?es) = map (nth sample_stream) [0, 1, 2]" by code_simp
  ultimately show ?thesis
    using replay_matches_live [OF a, of sample_thread 10 ?es] a unfolding list_all_iff by force
qed

end
