(* ===== verification/Routine_Store.thy ===== *)
theory Routine_Store
  imports Thread_Store Routine_Schedule "HOL-Library.Char_ord" "HOL-Library.List_Lexorder"
    "HOL-Library.Product_Lexorder"
begin

text \<open>
  The durable half of routines (\<open>routines.ts\<close>, and the routine commands of \<open>run-creation.ts\<close>) and
  the worker's minute job that settles due slots (\<open>routine-schedule.ts\<close> of the worker). The tables
  extend those of a conversation. The database's clock and its instants count microseconds, a
  \<open>Date\<close> counts milliseconds, and reading a column into a \<open>Date\<close> truncates. The ids the database
  generates are arguments; the zone database is the argument \<open>zones\<close>.
\<close>

section \<open>Tables\<close>

record routine_row =
  rt_id :: string
  rt_spaceId :: string
  rt_botId :: string
  rt_userId :: string
  rt_threadId :: string
  rt_instruction :: string
  rt_cron :: string
  rt_timezone :: string
  rt_enabled :: bool
  rt_nextRunAt :: int
  rt_deletedAt :: "int option"

record occurrence_row =
  oc_id :: string
  oc_routineId :: string
  oc_scheduledFor :: int
  oc_runId :: "string option"

record routine_db = conversation +
  rd_bots :: "(string \<times> string) list"
  rd_routines :: "routine_row list"
  rd_occurrences :: "occurrence_row list"

definition to_date :: "int \<Rightarrow> int" where "to_date us = us div 1000"

definition from_date :: "int \<Rightarrow> int" where "from_date ms = ms * 1000"

abbreviation slot_of :: "occurrence_row \<Rightarrow> string \<times> int" where
  "slot_of x \<equiv> (oc_routineId x, oc_scheduledFor x)"

section \<open>Schedule errors at the boundary\<close>

datatype schedule_problem = Invalid_cron | Invalid_timezone | Unreachable

datatype routine_failure =
    Store_failure store_failure
  | InvalidRoutineSchedule schedule_problem routine_error
  | Schedule_defect routine_error

definition asInvalidRoutineSchedule :: "routine_error \<Rightarrow> routine_failure" where
  "asInvalidRoutineSchedule e =
     (case e of
        InvalidRoutineCron _ _ \<Rightarrow> InvalidRoutineSchedule Invalid_cron e
      | InvalidRoutineTimezone _ \<Rightarrow> InvalidRoutineSchedule Invalid_timezone e
      | UnreachableRoutineSchedule _ _ \<Rightarrow> InvalidRoutineSchedule Unreachable e
      | _ \<Rightarrow> Schedule_defect e)"

definition scheduleBoundary :: "routine_error + 'a \<Rightarrow> routine_failure + 'a" where
  "scheduleBoundary r = map_sum asInvalidRoutineSchedule id r"

definition assertRoutineTimezone :: "(string \<Rightarrow> zone option) \<Rightarrow> string \<Rightarrow> routine_failure + unit" where
  "assertRoutineTimezone zones timezone =
     (if isRoutineTimezone zones timezone then Inr ()
      else Inl (asInvalidRoutineSchedule (InvalidRoutineTimezone timezone)))"

section \<open>Reads\<close>

definition requiredRow :: "string \<Rightarrow> string \<Rightarrow> 'r list \<Rightarrow> routine_failure + 'r" where
  "requiredRow resource i rows =
     (case rows of [] \<Rightarrow> Inl (Store_failure (Not_found resource i)) | r # _ \<Rightarrow> Inr r)"

definition findRoutine :: "routine_db \<Rightarrow> string \<Rightarrow> string \<Rightarrow> routine_failure + routine_row" where
  "findRoutine db spaceId i =
     requiredRow ''routine'' i
       (filter (\<lambda>r. rt_id r = i \<and> rt_spaceId r = spaceId \<and> rt_deletedAt r = None) (rd_routines db))"

text \<open>The rows stand in the order of their creation.\<close>

definition listRoutines :: "routine_db \<Rightarrow> string \<Rightarrow> string option \<Rightarrow> routine_row list" where
  "listRoutines db spaceId botId =
     filter (\<lambda>r. rt_spaceId r = spaceId \<and> rt_deletedAt r = None \<and>
       (case botId of None \<Rightarrow> True | Some b \<Rightarrow> rt_botId r = b)) (rd_routines db)"

definition ROUTINE_OUTCOME_DEFAULT_LIMIT :: int where "ROUTINE_OUTCOME_DEFAULT_LIMIT = 20"
definition ROUTINE_OUTCOME_MAX_LIMIT :: int where "ROUTINE_OUTCOME_MAX_LIMIT = 200"
definition ROUTINE_PREVIEW_DEFAULT_COUNT :: int where "ROUTINE_PREVIEW_DEFAULT_COUNT = 5"
definition ROUTINE_PREVIEW_MAX_COUNT :: int where "ROUTINE_PREVIEW_MAX_COUNT = 10"

definition truncate_rat :: "rat \<Rightarrow> int" where
  "truncate_rat q = (if q < 0 then - \<lfloor>- q\<rfloor> else \<lfloor>q\<rfloor>)"

definition bounded_count :: "int \<Rightarrow> int \<Rightarrow> jsnum option \<Rightarrow> int" where
  "bounded_count fallback maximum requested =
     (case requested of
        Some (Fin q) \<Rightarrow> min (max (truncate_rat q) 1) maximum
      | _ \<Rightarrow> fallback)"

definition outcomeLimit :: "jsnum option \<Rightarrow> int" where
  "outcomeLimit requested = bounded_count ROUTINE_OUTCOME_DEFAULT_LIMIT ROUTINE_OUTCOME_MAX_LIMIT requested"

definition previewCount :: "jsnum option \<Rightarrow> int" where
  "previewCount requested = bounded_count ROUTINE_PREVIEW_DEFAULT_COUNT ROUTINE_PREVIEW_MAX_COUNT requested"

datatype outcome_status = Missed_slot | Success_run | Failure_run | Cancelled_run | Running_run

definition outcome_of :: "routine_db \<Rightarrow> occurrence_row \<Rightarrow> outcome_status" where
  "outcome_of db x =
     (case oc_runId x of
        None \<Rightarrow> Missed_slot
      | Some i \<Rightarrow>
          (case map_option cr_status (find (\<lambda>r. cr_id r = i) (cv_runs db)) of
             Some Completed \<Rightarrow> Success_run
           | Some Failed \<Rightarrow> Failure_run
           | Some Cancelled \<Rightarrow> Cancelled_run
           | _ \<Rightarrow> Running_run))"

definition listOutcomes ::
  "routine_db \<Rightarrow> string \<Rightarrow> string \<Rightarrow> jsnum option \<Rightarrow>
   routine_failure + (string \<times> int \<times> string option \<times> outcome_status) list" where
  "listOutcomes db spaceId i limit =
     bindE (findRoutine db spaceId i) (\<lambda>_.
       Inr (map (\<lambda>x. (oc_id x, oc_scheduledFor x, oc_runId x, outcome_of db x))
         (take (nat (outcomeLimit limit))
           (rev (sort_key (\<lambda>x. (oc_scheduledFor x, oc_id x))
             (filter (\<lambda>x. oc_routineId x = i) (rd_occurrences db)))))))"

text \<open>The preview loop: each fire is searched after the one before.\<close>

fun preview_from ::
  "(string \<Rightarrow> zone option) \<Rightarrow> routine_cron \<Rightarrow> string \<Rightarrow> nat \<Rightarrow> int \<Rightarrow> routine_failure + int list" where
  "preview_from zones cron timezone 0 after = Inr []"
| "preview_from zones cron timezone (Suc n) after =
     bindE (scheduleBoundary (nextRoutineFire zones cron timezone (Some after))) (\<lambda>fire_at.
     bindE (preview_from zones cron timezone n fire_at) (\<lambda>rest. Inr (fire_at # rest)))"

definition previewRoutineSchedule ::
  "(string \<Rightarrow> zone option) \<Rightarrow> int \<Rightarrow> string \<Rightarrow> string \<Rightarrow> jsnum option \<Rightarrow> routine_failure + int list" where
  "previewRoutineSchedule zones now cronText timezone requested =
     bindE (scheduleBoundary (parseRoutineCron cronText)) (\<lambda>cron.
     bindE (assertRoutineTimezone zones timezone) (\<lambda>_.
       preview_from zones cron timezone (nat (previewCount requested)) (to_date now)))"

definition ROUTINE_SCHEDULER_BATCH_LIMIT :: nat where "ROUTINE_SCHEDULER_BATCH_LIMIT = 50"

definition listDueRoutines :: "int \<Rightarrow> routine_db \<Rightarrow> nat \<Rightarrow> routine_row list" where
  "listDueRoutines now db limit =
     take limit (sort_key (\<lambda>r. (rt_nextRunAt r, rt_id r))
       (filter (\<lambda>r. rt_enabled r \<and> rt_deletedAt r = None \<and> rt_nextRunAt r \<le> now) (rd_routines db)))"

section \<open>The operator's commands\<close>

record new_routine =
  nr_botId :: string
  nr_instruction :: string
  nr_cron :: string
  nr_timezone :: string

record routine_patch =
  pt_instruction :: "string option"
  pt_cron :: "string option"
  pt_timezone :: "string option"
  pt_enabled :: "bool option"

definition not_blank :: "string \<Rightarrow> bool" where
  "not_blank s = list_ex (\<lambda>c. c \<noteq> CHR '' '') s"

text \<open>The table's check constraint.\<close>

definition routine_identifiers_check :: "routine_row \<Rightarrow> bool" where
  "routine_identifiers_check r =
     (not_blank (rt_instruction r) \<and> not_blank (rt_cron r) \<and> not_blank (rt_timezone r))"

definition check_violation :: routine_failure where
  "check_violation = Store_failure (Defect ''routine_identifiers_check'')"

definition createRoutine ::
  "(string \<Rightarrow> zone option) \<Rightarrow> int \<Rightarrow> routine_db \<Rightarrow> string \<Rightarrow> string \<Rightarrow> string \<times> string \<Rightarrow> new_routine \<Rightarrow>
   (routine_failure + routine_row) \<times> routine_db" where
  "createRoutine zones now db spaceId userId ids input =
     transaction db
       (bindE (scheduleBoundary (parseRoutineCron (nr_cron input))) (\<lambda>cron.
        bindE (assertRoutineTimezone zones (nr_timezone input)) (\<lambda>_.
        if (nr_botId input, spaceId) \<notin> set (rd_bots db)
        then Inl (Store_failure (Not_found ''bot'' (nr_botId input)))
        else
          bindE (scheduleBoundary (nextRoutineFire zones cron (nr_timezone input) (Some (to_date now)))) (\<lambda>fire_at.
            let thread = \<lparr>th_id = fst ids, th_spaceId = spaceId, th_botId = nr_botId input,
                  th_nextMessageSeq = 0, th_nextEventSeq = 0\<rparr>;
                row = \<lparr>rt_id = snd ids, rt_spaceId = spaceId, rt_botId = nr_botId input, rt_userId = userId,
                  rt_threadId = fst ids, rt_instruction = nr_instruction input, rt_cron = nr_cron input,
                  rt_timezone = nr_timezone input, rt_enabled = True, rt_nextRunAt = from_date fire_at,
                  rt_deletedAt = None\<rparr> in
            if routine_identifiers_check row
            then Inr (row, db\<lparr>cv_threads := cv_threads db @ [thread], rd_routines := rd_routines db @ [row]\<rparr>)
            else Inl check_violation))))"

definition or_stored :: "'a option \<Rightarrow> 'a \<Rightarrow> 'a" where
  "or_stored patch stored = (case patch of None \<Rightarrow> stored | Some v \<Rightarrow> v)"

definition changes :: "'a option \<Rightarrow> 'a \<Rightarrow> bool" where
  "changes patch stored = (case patch of None \<Rightarrow> False | Some v \<Rightarrow> v \<noteq> stored)"

text \<open>
  An edit reads the row, computes its assignments from what it read and from the clock, and then
  writes them in a statement of its own; \<open>edit_plan\<close> is the first part.
\<close>

definition edit_plan ::
  "(string \<Rightarrow> zone option) \<Rightarrow> int \<Rightarrow> routine_row \<Rightarrow> routine_patch \<Rightarrow>
   routine_failure + (routine_row \<Rightarrow> routine_row)" where
  "edit_plan zones now current patch =
     (let cronText = or_stored (pt_cron patch) (rt_cron current);
          timezone = or_stored (pt_timezone patch) (rt_timezone current);
          scheduleChanged = (changes (pt_cron patch) (rt_cron current) \<or>
            changes (pt_timezone patch) (rt_timezone current));
          reenabled = (pt_enabled patch = Some True \<and> \<not> rt_enabled current);
          edited = (\<lambda>r. r\<lparr>rt_instruction := or_stored (pt_instruction patch) (rt_instruction r),
            rt_cron := or_stored (pt_cron patch) (rt_cron r),
            rt_timezone := or_stored (pt_timezone patch) (rt_timezone r),
            rt_enabled := or_stored (pt_enabled patch) (rt_enabled r)\<rparr>) in
      if scheduleChanged \<or> reenabled
      then
        bindE (scheduleBoundary (parseRoutineCron cronText)) (\<lambda>cron.
        bindE (assertRoutineTimezone zones timezone) (\<lambda>_.
        bindE (scheduleBoundary (nextRoutineFire zones cron timezone (Some (to_date now)))) (\<lambda>fire_at.
          Inr (\<lambda>r. (edited r)\<lparr>rt_nextRunAt := from_date fire_at\<rparr>))))
      else Inr edited)"

definition edit_statement ::
  "routine_db \<Rightarrow> string \<Rightarrow> string \<Rightarrow> (routine_row \<Rightarrow> routine_row) \<Rightarrow> (routine_failure + routine_row) \<times> routine_db" where
  "edit_statement db spaceId i f =
     (let P = (\<lambda>r. rt_id r = i \<and> rt_spaceId r = spaceId \<and> rt_deletedAt r = None);
          rows = returning P f (rd_routines db) in
      transaction db
        (if list_all routine_identifiers_check rows
         then bindE (requiredRow ''routine'' i rows) (\<lambda>r.
           Inr (r, db\<lparr>rd_routines := update_where P f (rd_routines db)\<rparr>))
         else Inl check_violation))"

text \<open>\<open>updateRoutine\<close>, with \<open>other\<close> the writers that run between its two statements.\<close>

definition updateRoutine ::
  "(string \<Rightarrow> zone option) \<Rightarrow> int \<Rightarrow> (routine_db \<Rightarrow> routine_db) \<Rightarrow> routine_db \<Rightarrow> string \<Rightarrow> string \<Rightarrow> routine_patch \<Rightarrow>
   (routine_failure + routine_row) \<times> routine_db" where
  "updateRoutine zones now other db spaceId i patch =
     (case bindE (findRoutine db spaceId i) (\<lambda>current. edit_plan zones now current patch) of
        Inl e \<Rightarrow> (Inl e, db)
      | Inr f \<Rightarrow> edit_statement (other db) spaceId i f)"

definition removeRoutine ::
  "int \<Rightarrow> routine_db \<Rightarrow> string \<Rightarrow> string \<Rightarrow> (routine_failure + routine_row) \<times> routine_db" where
  "removeRoutine now db spaceId i =
     (let P = (\<lambda>r. rt_id r = i \<and> rt_spaceId r = spaceId \<and> rt_deletedAt r = None);
          f = (\<lambda>r. r\<lparr>rt_enabled := False, rt_deletedAt := Some now\<rparr>) in
      (requiredRow ''routine'' i (returning P f (rd_routines db)),
       db\<lparr>rd_routines := update_where P f (rd_routines db)\<rparr>))"

section \<open>Runs of a routine\<close>

definition dec_int :: "int \<Rightarrow> string" where
  "dec_int n = (if n < 0 then CHR ''-'' # dec (nat (- n)) else dec (nat n))"

definition routineRunNonce :: "string \<Rightarrow> int \<Rightarrow> string" where
  "routineRunNonce routineId scheduledFor = ''routine:'' @ routineId @ '':'' @ dec_int scheduledFor"

definition routineTestRunNonce :: "string \<Rightarrow> string \<Rightarrow> string" where
  "routineTestRunNonce routineId clientNonce = ''routine-test:'' @ routineId @ '':'' @ clientNonce"

definition routine_task :: "string \<Rightarrow> routine_row \<Rightarrow> string \<Rightarrow> task_row" where
  "routine_task spaceId r taskId =
     \<lparr>tk_id = taskId, tk_spaceId = spaceId, tk_botId = rt_botId r, tk_threadId = rt_threadId r,
      tk_userId = rt_userId r, tk_prompt = rt_instruction r\<rparr>"

definition routine_run :: "string \<Rightarrow> routine_row \<Rightarrow> task_row \<Rightarrow> string \<Rightarrow> string \<Rightarrow> created_run" where
  "routine_run spaceId r task i nonce =
     \<lparr>cr_id = i, cr_spaceId = spaceId, cr_botId = rt_botId r, cr_threadId = rt_threadId r,
      cr_taskId = tk_id task, cr_userId = rt_userId r, cr_status = INITIAL_RUN_STATUS, cr_trigger = ''routine'',
      cr_clientNonce = nonce, cr_sourceMessageId = None\<rparr>"

text \<open>
  The task and the run of a routine, inserted unless the nonce is taken; an insert that conflicts
  throws and is rolled back, which is \<open>None\<close>.
\<close>

definition insert_routine_run ::
  "routine_db \<Rightarrow> string \<Rightarrow> routine_row \<Rightarrow> string \<times> string \<Rightarrow> string \<Rightarrow> (created_run \<times> routine_db) option" where
  "insert_routine_run db spaceId r ids nonce =
     (let task = routine_task spaceId r (fst ids); run = routine_run spaceId r task (snd ids) nonce in
      if list_ex (\<lambda>x. run_nonce x = run_nonce run) (cv_runs db) then None
      else Some (run, db\<lparr>cv_tasks := cv_tasks db @ [task], cv_runs := cv_runs db @ [run]\<rparr>))"

definition createRoutineTestRun ::
  "routine_db \<Rightarrow> string \<Rightarrow> string \<times> string \<Rightarrow> string \<Rightarrow> string \<Rightarrow> (store_failure + created_run) \<times> routine_db" where
  "createRoutineTestRun db spaceId ids i nonce =
     (case find (\<lambda>r. rt_id r = i \<and> rt_spaceId r = spaceId \<and> rt_deletedAt r = None) (rd_routines db) of
        None \<Rightarrow> (Inl (Not_found ''routine'' i), db)
      | Some r \<Rightarrow>
          (case insert_routine_run db spaceId r ids (routineTestRunNonce i nonce) of
             Some (run, db') \<Rightarrow> (Inr run, db')
           | None \<Rightarrow>
               (case find (\<lambda>x. run_nonce x = (spaceId, routineTestRunNonce i nonce)) (cv_runs db) of
                  Some existing \<Rightarrow> (Inr existing, db)
                | None \<Rightarrow> (Inl (Not_found ''routine'' i), db))))"

record slot_input =
  sl_routineId :: string
  sl_scheduledFor :: int
  sl_nextRunAt :: int

record slot_ids =
  si_occurrence :: string
  si_task :: string
  si_run :: string

text \<open>\<open>select .. for update\<close>: the routine while it is live and its cursor stands at the slot.\<close>

definition at_slot :: "string \<Rightarrow> slot_input \<Rightarrow> routine_row \<Rightarrow> bool" where
  "at_slot spaceId i r =
     (rt_id r = sl_routineId i \<and> rt_spaceId r = spaceId \<and> to_date (rt_nextRunAt r) = sl_scheduledFor i)"

definition firing_routine :: "routine_db \<Rightarrow> string \<Rightarrow> slot_input \<Rightarrow> routine_row option" where
  "firing_routine db spaceId i =
     find (\<lambda>r. at_slot spaceId i r \<and> rt_enabled r \<and> rt_deletedAt r = None) (rd_routines db)"

definition slot_settled :: "routine_db \<Rightarrow> slot_input \<Rightarrow> bool" where
  "slot_settled db i = list_ex (\<lambda>x. slot_of x = (sl_routineId i, sl_scheduledFor i)) (rd_occurrences db)"

definition add_occurrence :: "string \<Rightarrow> slot_input \<Rightarrow> string option \<Rightarrow> routine_db \<Rightarrow> routine_db" where
  "add_occurrence occId i linked db =
     db\<lparr>rd_occurrences := rd_occurrences db @
       [\<lparr>oc_id = occId, oc_routineId = sl_routineId i, oc_scheduledFor = sl_scheduledFor i, oc_runId = linked\<rparr>]\<rparr>"

text \<open>The advance, which throws when no row is at the slot any more.\<close>

definition advance_cursor ::
  "routine_db \<Rightarrow> string \<Rightarrow> slot_input \<Rightarrow> string \<Rightarrow> store_failure + routine_db" where
  "advance_cursor db spaceId i what =
     (let f = (\<lambda>r. r\<lparr>rt_nextRunAt := from_date (sl_nextRunAt i)\<rparr>) in
      if returning (at_slot spaceId i) f (rd_routines db) = []
      then Inl (Defect (''the routine moved while its slot was '' @ what))
      else Inr (db\<lparr>rd_routines := update_where (at_slot spaceId i) f (rd_routines db)\<rparr>))"

definition fireRoutineOnce ::
  "routine_db \<Rightarrow> string \<Rightarrow> slot_ids \<Rightarrow> slot_input \<Rightarrow>
   store_failure + (created_run \<times> string) option \<times> routine_db" where
  "fireRoutineOnce db spaceId ids i =
     (case firing_routine db spaceId i of
        None \<Rightarrow> Inr (None, db)
      | Some r \<Rightarrow>
          if slot_settled db i then Inr (None, db)
          else
            (case insert_routine_run db spaceId r (si_task ids, si_run ids)
                    (routineRunNonce (rt_id r) (sl_scheduledFor i)) of
               None \<Rightarrow> Inl Unique_key
             | Some (run, db1) \<Rightarrow>
                 bindE (advance_cursor (add_occurrence (si_occurrence ids) i (Some (cr_id run)) db1)
                   spaceId i ''firing'') (\<lambda>db2. Inr (Some (run, si_occurrence ids), db2))))"

text \<open>\<open>createRoutineRun\<close>: the taken nonce, here \<open>Unique_key\<close>, is a settled slot.\<close>

definition createRoutineRun ::
  "routine_db \<Rightarrow> string \<Rightarrow> slot_ids \<Rightarrow> slot_input \<Rightarrow>
   (store_failure + (created_run \<times> string) option) \<times> routine_db" where
  "createRoutineRun db spaceId ids i =
     (case transaction db (fireRoutineOnce db spaceId ids i) of
        (Inl Unique_key, db') \<Rightarrow> (Inr None, db')
      | r \<Rightarrow> r)"

definition recordMissedOccurrence ::
  "routine_db \<Rightarrow> string \<Rightarrow> string \<Rightarrow> slot_input \<Rightarrow> (store_failure + string option) \<times> routine_db" where
  "recordMissedOccurrence db spaceId occId i =
     transaction db
       (case firing_routine db spaceId i of
          None \<Rightarrow> Inr (None, db)
        | Some r \<Rightarrow>
            if slot_settled db i then Inr (None, db)
            else bindE (advance_cursor (add_occurrence occId i None db) spaceId i ''missed'')
              (\<lambda>db'. Inr (Some occId, db')))"

section \<open>The minute job\<close>

datatype slot_outcome = Fired | Missed | Skipped | Invalid | Slot_failed

record delivery =
  dl_runId :: string
  dl_spaceId :: string

text \<open>
  The state of the job: the tables and the deliveries handed to the queue. \<open>enqueue\<close> says whether
  the queue took a delivery; a refusal is an exception. \<open>now\<close> is the clock the scan carried.
\<close>

record scheduler =
  sc_db :: routine_db
  sc_queue :: "delivery list"

definition settleSlot ::
  "(string \<Rightarrow> zone option) \<Rightarrow> (delivery \<Rightarrow> bool) \<Rightarrow> int \<Rightarrow> slot_ids \<Rightarrow> routine_row \<Rightarrow> scheduler \<Rightarrow>
   (store_failure + slot_outcome) \<times> scheduler" where
  "settleSlot zones enqueue now ids candidate st =
     (case bindE (parseRoutineCron (rt_cron candidate)) (\<lambda>cron.
             decideRoutineDue zones cron (rt_timezone candidate) (to_date (rt_nextRunAt candidate)) (to_date now)) of
        Inl _ \<Rightarrow> (Inr Invalid, st)
      | Inr (Wait _) \<Rightarrow> (Inr Skipped, st)
      | Inr (Miss scheduledFor nextRunAt _) \<Rightarrow>
          (case recordMissedOccurrence (sc_db st) (rt_spaceId candidate) (si_occurrence ids)
                  \<lparr>sl_routineId = rt_id candidate, sl_scheduledFor = scheduledFor, sl_nextRunAt = nextRunAt\<rparr> of
             (Inl e, db) \<Rightarrow> (Inl e, st\<lparr>sc_db := db\<rparr>)
           | (Inr None, db) \<Rightarrow> (Inr Skipped, st\<lparr>sc_db := db\<rparr>)
           | (Inr (Some _), db) \<Rightarrow> (Inr Missed, st\<lparr>sc_db := db\<rparr>))
      | Inr (Fire scheduledFor nextRunAt _) \<Rightarrow>
          (case createRoutineRun (sc_db st) (rt_spaceId candidate) ids
                  \<lparr>sl_routineId = rt_id candidate, sl_scheduledFor = scheduledFor, sl_nextRunAt = nextRunAt\<rparr> of
             (Inl e, db) \<Rightarrow> (Inl e, st\<lparr>sc_db := db\<rparr>)
           | (Inr None, db) \<Rightarrow> (Inr Skipped, st\<lparr>sc_db := db\<rparr>)
           | (Inr (Some (run, _)), db) \<Rightarrow>
               (let d = \<lparr>dl_runId = cr_id run, dl_spaceId = cr_spaceId run\<rparr> in
                if enqueue d then (Inr Fired, st\<lparr>sc_db := db, sc_queue := sc_queue st @ [d]\<rparr>)
                else (Inl (Defect ''enqueue''), st\<lparr>sc_db := db\<rparr>))))"

definition settleSafely ::
  "(string \<Rightarrow> zone option) \<Rightarrow> (delivery \<Rightarrow> bool) \<Rightarrow> int \<Rightarrow> slot_ids \<Rightarrow> routine_row \<Rightarrow> scheduler \<Rightarrow>
   slot_outcome \<times> scheduler" where
  "settleSafely zones enqueue now ids candidate st =
     (case settleSlot zones enqueue now ids candidate st of
        (Inl _, st') \<Rightarrow> (Slot_failed, st')
      | (Inr x, st') \<Rightarrow> (x, st'))"

fun settle_all ::
  "(string \<Rightarrow> zone option) \<Rightarrow> (delivery \<Rightarrow> bool) \<Rightarrow> int \<Rightarrow> (slot_ids \<times> routine_row) list \<Rightarrow> scheduler \<Rightarrow>
   slot_outcome list \<times> scheduler" where
  "settle_all zones enqueue now [] st = ([], st)"
| "settle_all zones enqueue now ((ids, candidate) # rest) st =
     (let (x, st1) = settleSafely zones enqueue now ids candidate st;
          (xs, st2) = settle_all zones enqueue now rest st1 in (x # xs, st2))"

text \<open>The scan and the settling of one pass; the re-delivery of stranded runs is not modelled.\<close>

definition routineTick ::
  "(string \<Rightarrow> zone option) \<Rightarrow> (delivery \<Rightarrow> bool) \<Rightarrow> (string \<Rightarrow> slot_ids) \<Rightarrow> int \<Rightarrow> scheduler \<Rightarrow> slot_outcome list \<times> scheduler" where
  "routineTick zones enqueue fresh now st =
     (let due = listDueRoutines now (sc_db st) ROUTINE_SCHEDULER_BATCH_LIMIT in
      settle_all zones enqueue now (map (\<lambda>r. (fresh (rt_id r), r)) due) st)"

end
