(* ===== verification/Routine_Properties.thy ===== *)
theory Routine_Properties
  imports Routine_Store Thread_Facts Time_Properties
begin

text \<open>
  The correctness properties of the routine store and the scheduler's pass over it: a slot is
  settled at most once whatever operators and schedulers do, a due slot is settled in one pass,
  and what becomes of a routine whose cursor stands at a slot that is settled already.
\<close>

section \<open>What the commands do\<close>

lemma advance_cursor_Inr:
  assumes "r \<in> set (rd_routines db)" and "at_slot s i r"
  shows "advance_cursor db s i what = Inr (db\<lparr>rd_routines :=
    update_where (at_slot s i) (\<lambda>r. r\<lparr>rt_nextRunAt := from_date (sl_nextRunAt i)\<rparr>) (rd_routines db)\<rparr>)"
  using assms by (auto simp: advance_cursor_def returning_Nil)

lemma firing_routine_Some:
  "firing_routine db s i = Some r \<Longrightarrow>
   r \<in> set (rd_routines db) \<and> at_slot s i r \<and> rt_enabled r \<and> rt_deletedAt r = None"
  by (auto simp: firing_routine_def find_Some_iff)

definition settled_tables ::
  "routine_db \<Rightarrow> string \<Rightarrow> string \<Rightarrow> slot_input \<Rightarrow> string option \<Rightarrow> routine_db" where
  "settled_tables db s occ i linked = (add_occurrence occ i linked db)\<lparr>rd_routines :=
     update_where (at_slot s i) (\<lambda>r. r\<lparr>rt_nextRunAt := from_date (sl_nextRunAt i)\<rparr>) (rd_routines db)\<rparr>"

lemma recordMissed_eq:
  "recordMissedOccurrence db s occ i =
     (if firing_routine db s i = None \<or> slot_settled db i then (Inr None, db)
      else (Inr (Some occ), settled_tables db s occ i None))"
proof (cases "firing_routine db s i")
  case (Some r)
  then show ?thesis
    using advance_cursor_Inr [of r "add_occurrence occ i None db" s i "''missed''"] firing_routine_Some [OF Some]
    by (auto simp: recordMissedOccurrence_def transaction_def settled_tables_def add_occurrence_def)
qed (simp add: recordMissedOccurrence_def transaction_def)

lemma createRoutineRun_eq:
  "createRoutineRun db s ids i =
     (case firing_routine db s i of
        None \<Rightarrow> (Inr None, db)
      | Some r \<Rightarrow>
          if slot_settled db i then (Inr None, db)
          else
            (case insert_routine_run db s r (si_task ids, si_run ids) (routineRunNonce (rt_id r) (sl_scheduledFor i)) of
               None \<Rightarrow> (Inr None, db)
             | Some (run, db1) \<Rightarrow>
                 (Inr (Some (run, si_occurrence ids)),
                  settled_tables db1 s (si_occurrence ids) i (Some (cr_id run)))))"
proof (cases "firing_routine db s i")
  case (Some r)
  then have "r \<in> set (rd_routines db)" "at_slot s i r" using firing_routine_Some by blast+
  then have "advance_cursor (add_occurrence (si_occurrence ids) i l db1) s i ''firing'' =
      Inr (settled_tables db1 s (si_occurrence ids) i l)"
    if "rd_routines db1 = rd_routines db" for db1 l
    using that advance_cursor_Inr [of r "add_occurrence (si_occurrence ids) i l db1" s i "''firing''"]
    by (simp add: settled_tables_def add_occurrence_def)
  then show ?thesis
    using Some by (auto simp: createRoutineRun_def fireRoutineOnce_def transaction_def insert_routine_run_def Let_def)
qed (simp add: createRoutineRun_def fireRoutineOnce_def transaction_def)

section \<open>The ledger under every command\<close>

definition conversation_of :: "routine_db \<Rightarrow> conversation" where
  "conversation_of db = \<lparr>cv_threads = cv_threads db, cv_tasks = cv_tasks db, cv_runs = cv_runs db,
     cv_messages = cv_messages db, cv_steering = cv_steering db, cv_events = cv_events db\<rparr>"

definition with_conversation :: "conversation \<Rightarrow> routine_db \<Rightarrow> routine_db" where
  "with_conversation c db = db\<lparr>cv_threads := cv_threads c, cv_tasks := cv_tasks c, cv_runs := cv_runs c,
     cv_messages := cv_messages c, cv_steering := cv_steering c, cv_events := cv_events c\<rparr>"

inductive routine_step :: "(string \<Rightarrow> zone option) \<Rightarrow> routine_db \<Rightarrow> routine_db \<Rightarrow> bool" for zones where
  fired: "si_task ids \<notin> tk_id ` set (cv_tasks db) \<Longrightarrow> si_run ids \<notin> cr_id ` set (cv_runs db) \<Longrightarrow>
    routine_step zones db (snd (createRoutineRun db s ids i))"
| missed: "routine_step zones db (snd (recordMissedOccurrence db s occ i))"
| tested: "fst ids \<notin> tk_id ` set (cv_tasks db) \<Longrightarrow> snd ids \<notin> cr_id ` set (cv_runs db) \<Longrightarrow>
    routine_step zones db (snd (createRoutineTestRun db s ids i nonce))"
| opened: "fst ids \<notin> th_id ` set (cv_threads db) \<Longrightarrow> snd ids \<notin> rt_id ` set (rd_routines db) \<Longrightarrow>
    routine_step zones db (snd (createRoutine zones now db s u ids input))"
| edited: "edit_plan zones now current patch = Inr f \<Longrightarrow> routine_step zones db (snd (edit_statement db s i f))"
| removed: "routine_step zones db (snd (removeRoutine now db s i))"
| conversed: "conv_step (conversation_of db) c \<Longrightarrow> routine_step zones db (with_conversation c db)"

definition occurrence_linked :: "created_run list \<Rightarrow> occurrence_row \<Rightarrow> bool" where
  "occurrence_linked runs x = (case oc_runId x of None \<Rightarrow> True
     | Some k \<Rightarrow> \<exists>r \<in> set runs. cr_id r = k \<and> cr_trigger r = ''routine'' \<and>
         cr_clientNonce r = routineRunNonce (oc_routineId x) (oc_scheduledFor x))"

definition wf_routines :: "routine_db \<Rightarrow> bool" where
  "wf_routines db \<longleftrightarrow> distinct (map rt_id (rd_routines db)) \<and> distinct (map slot_of (rd_occurrences db)) \<and>
     wf_transcript (conversation_of db) \<and> wf_links (conversation_of db) \<and>
     (\<forall>x \<in> set (rd_occurrences db). occurrence_linked (cv_runs db) x)"

lemma conversation_of_simps [simp]:
  "cv_threads (conversation_of db) = cv_threads db" "cv_tasks (conversation_of db) = cv_tasks db"
  "cv_runs (conversation_of db) = cv_runs db" "cv_messages (conversation_of db) = cv_messages db"
  "cv_steering (conversation_of db) = cv_steering db" "cv_events (conversation_of db) = cv_events db"
  by (simp_all add: conversation_of_def)

lemma conversation_of_update [simp]:
  "conversation_of (db\<lparr>rd_routines := x\<rparr>) = conversation_of db"
  "conversation_of (db\<lparr>rd_occurrences := y\<rparr>) = conversation_of db"
  "conversation_of (with_conversation c db) = c"
  by (simp_all add: conversation_of_def with_conversation_def)

lemma settled_tables_simps [simp]:
  "conversation_of (settled_tables db s occ i l) = conversation_of db"
  "cv_runs (settled_tables db s occ i l) = cv_runs db"
  "map rt_id (rd_routines (settled_tables db s occ i l)) = map rt_id (rd_routines db)"
  "rd_occurrences (settled_tables db s occ i l) = rd_occurrences db @
     [\<lparr>oc_id = occ, oc_routineId = sl_routineId i, oc_scheduledFor = sl_scheduledFor i, oc_runId = l\<rparr>]"
  by (simp_all add: settled_tables_def add_occurrence_def update_where_def conversation_of_def)

lemma insert_routine_run_wf:
  assumes "insert_routine_run db s r ids nonce = Some (run, db')" and "wf_routines db"
    and "fst ids \<notin> tk_id ` set (cv_tasks db)" and "snd ids \<notin> cr_id ` set (cv_runs db)"
  shows "wf_routines db'" and "run \<in> set (cv_runs db')" and "cr_trigger run = ''routine''"
    and "cr_clientNonce run = nonce" and "rd_occurrences db' = rd_occurrences db" and "rd_routines db' = rd_routines db"
    and "cr_id run = snd ids"
proof -
  define task where "task = routine_task s r (fst ids)"
  have run: "run = routine_run s r task (snd ids) nonce"
    and db': "db' = db\<lparr>cv_tasks := cv_tasks db @ [task], cv_runs := cv_runs db @ [run]\<rparr>"
    and fresh: "run_nonce run \<notin> run_nonce ` set (cv_runs db)"
    using assms(1) by (auto simp: insert_routine_run_def Let_def task_def list_ex_iff split: if_splits)
  show "run \<in> set (cv_runs db')" "rd_occurrences db' = rd_occurrences db" "rd_routines db' = rd_routines db"
    by (simp_all add: db')
  show "cr_trigger run = ''routine''" "cr_clientNonce run = nonce" "cr_id run = snd ids"
    by (simp_all add: run routine_run_def)
  have w: "wf_transcript (conversation_of db)" using assms(2) unfolding wf_routines_def by blast
  have "wf_transcript (conversation_of db')" by (rule wf_transcript_cong [OF _ _ _ w]) (simp_all add: db')
  moreover have "wf_links (conversation_of db')"
  proof -
    have old: "wf_links (conversation_of db)" using assms(2) by (simp add: wf_routines_def)
    have "task_linked (cv_tasks db @ [task]) x" if "x = run \<or> task_linked (cv_tasks db) x" for x
      using that by (auto simp: task_linked_def run routine_run_def task_def routine_task_def)
    moreover have "source_linked ms run" for ms by (simp add: source_linked_def run routine_run_def)
    moreover have "cr_id run = snd ids" "tk_id task = fst ids"
      by (simp_all add: run routine_run_def task_def routine_task_def)
    ultimately show ?thesis using old assms(3,4) fresh by (simp add: wf_links_def db' ball_Un)
  qed
  moreover have "occurrence_linked (cv_runs db') x" if "x \<in> set (rd_occurrences db)" for x
    using that assms(2) by (fastforce simp: wf_routines_def occurrence_linked_def db' split: option.splits)
  ultimately show "wf_routines db'" using assms(2) by (simp add: wf_routines_def db')
qed

lemma settled_tables_wf:
  assumes "wf_routines db" and "\<not> slot_settled db i"
    and "occurrence_linked (cv_runs db) \<lparr>oc_id = occ, oc_routineId = sl_routineId i, oc_scheduledFor = sl_scheduledFor i, oc_runId = l\<rparr>"
  shows "wf_routines (settled_tables db s occ i l)"
  using assms by (auto simp: wf_routines_def slot_settled_def list_ex_iff)

lemma edit_plan_id: "edit_plan zones now current patch = Inr f \<Longrightarrow> rt_id (f r) = rt_id r"
  by (auto simp: edit_plan_def Let_def result_simps split: if_splits)

lemma wf_routines_update:
  assumes "wf_routines db" and "\<And>r. rt_id (f r) = rt_id r"
  shows "wf_routines (db\<lparr>rd_routines := update_where P f (rd_routines db)\<rparr>)"
  using assms unfolding wf_routines_def by (simp add: update_where_def comp_def if_distrib cong: if_cong)

lemma edit_statement_db:
  "snd (edit_statement db s i f) \<in> {db, db\<lparr>rd_routines :=
     update_where (\<lambda>r. rt_id r = i \<and> rt_spaceId r = s \<and> rt_deletedAt r = None) f (rd_routines db)\<rparr>}"
  by (auto simp: edit_statement_def Let_def transaction_def split: sum.splits prod.splits)
    (auto simp: result_simps)

lemma createRoutine_wf:
  assumes "wf_routines db" and "fst ids \<notin> th_id ` set (cv_threads db)" and "snd ids \<notin> rt_id ` set (rd_routines db)"
  shows "wf_routines (snd (createRoutine zones now db s u ids input))" (is "wf_routines ?db")
proof (cases "fst (createRoutine zones now db s u ids input)")
  case (Inl e)
  then have "?db = db" by (auto simp: createRoutine_def transaction_def split: sum.splits)
  then show ?thesis using assms(1) by simp
next
  case (Inr r)
  then obtain fire_at where
    row: "r = \<lparr>rt_id = snd ids, rt_spaceId = s, rt_botId = nr_botId input, rt_userId = u,
       rt_threadId = fst ids, rt_instruction = nr_instruction input, rt_cron = nr_cron input,
       rt_timezone = nr_timezone input, rt_enabled = True, rt_nextRunAt = from_date fire_at, rt_deletedAt = None\<rparr>"
    and db: "?db = db\<lparr>cv_threads := cv_threads db @ [fresh_thread (fst ids) s (nr_botId input)],
       rd_routines := rd_routines db @ [r]\<rparr>"
    by (auto simp: createRoutine_def transaction_def Let_def fresh_thread_def result_simps split: sum.splits if_splits)
  have "conversation_of ?db = (conversation_of db)\<lparr>cv_threads := cv_threads (conversation_of db) @ [fresh_thread (fst ids) s (nr_botId input)]\<rparr>"
    by (simp add: db conversation_of_def)
  moreover have "wf_transcript (conversation_of db)" "wf_links (conversation_of db)"
    using assms(1) unfolding wf_routines_def by blast+
  ultimately have "wf_transcript (conversation_of ?db)" "wf_links (conversation_of ?db)"
    using open_thread_wf [of "conversation_of db" "fst ids" s "nr_botId input"] assms(2) by (simp_all add: wf_links_def)
  then show ?thesis using assms(1,3) unfolding wf_routines_def by (simp add: db row)
qed

lemma conversed_wf:
  assumes "wf_routines db" and "conv_step (conversation_of db) c"
  shows "wf_routines (with_conversation c db)"
proof -
  have w: "wf_transcript (conversation_of db)" "wf_links (conversation_of db)"
    using assms(1) unfolding wf_routines_def by blast+
  have d: "distinct (map th_id (cv_threads (conversation_of db)))" using w(1) unfolding wf_transcript_def by blast
  have "occurrence_linked (cv_runs c) x" if lk: "occurrence_linked (cv_runs db) x" for x
  proof (cases "oc_runId x")
    case (Some k)
    then obtain r where r: "r \<in> set (cv_runs db)" "cr_id r = k" "cr_trigger r = ''routine''"
        "cr_clientNonce r = routineRunNonce (oc_routineId x) (oc_scheduledFor x)"
      using lk by (auto simp: occurrence_linked_def)
    then obtain r' where "r' \<in> set (cv_runs c)" "same_run r r'"
      using conv_step_runs [OF assms(2) d, of r] by auto
    then show ?thesis using Some r by (auto simp: occurrence_linked_def same_run_def intro!: bexI [of _ r'])
  qed (simp add: occurrence_linked_def)
  moreover have "cv_runs (with_conversation c db) = cv_runs c" "rd_routines (with_conversation c db) = rd_routines db"
    "rd_occurrences (with_conversation c db) = rd_occurrences db" by (simp_all add: with_conversation_def)
  ultimately show ?thesis
    using assms(1) conv_step_wf [OF assms(2) w(1)] conv_step_links [OF assms(2) w(2) d]
    unfolding wf_routines_def by simp
qed

lemma createRoutineRun_wf:
  assumes "wf_routines db" and "si_task ids \<notin> tk_id ` set (cv_tasks db)" and "si_run ids \<notin> cr_id ` set (cv_runs db)"
  shows "wf_routines (snd (createRoutineRun db s ids i))"
proof (cases "firing_routine db s i")
  case (Some r)
  let ?ins = "insert_routine_run db s r (si_task ids, si_run ids) (routineRunNonce (rt_id r) (sl_scheduledFor i))"
  show ?thesis
  proof (cases "slot_settled db i \<or> ?ins = None")
    case False
    then obtain run db1 where ins: "?ins = Some (run, db1)" by (cases ?ins) auto
    note w = insert_routine_run_wf [OF ins assms(1)]
    have "rt_id r = sl_routineId i" using firing_routine_Some [OF Some] by (simp add: at_slot_def)
    then have "wf_routines (settled_tables db1 s (si_occurrence ids) i (Some (cr_id run)))"
      using w assms(2,3) False by (intro settled_tables_wf) (auto simp: slot_settled_def occurrence_linked_def)
    then show ?thesis using Some ins False by (simp add: createRoutineRun_eq)
  qed (use Some assms(1) in \<open>auto simp: createRoutineRun_eq\<close>)
qed (use assms(1) in \<open>simp add: createRoutineRun_eq\<close>)

lemma routine_step_wf:
  assumes "routine_step zones db db'" and "wf_routines db"
  shows "wf_routines db'"
  using assms(1)
proof cases
  case (fired ids s i)
  then show ?thesis using createRoutineRun_wf [OF assms(2)] by simp
next
  case (missed s occ i)
  then show ?thesis
    using settled_tables_wf [OF assms(2), of i occ None] assms(2) by (simp add: recordMissed_eq occurrence_linked_def)
next
  case (tested ids s i nonce)
  then show ?thesis
    using insert_routine_run_wf(1) [OF _ assms(2)] assms(2)
    by (auto simp: createRoutineTestRun_def split: option.splits)
next
  case (opened ids now s u input)
  then show ?thesis using createRoutine_wf [OF assms(2)] by simp
next
  case (edited now current patch f s i)
  then show ?thesis
    using edit_statement_db [of db s i f] wf_routines_update [OF assms(2) edit_plan_id [OF edited(2)]] assms(2) by auto
next
  case (removed now s i)
  then show ?thesis using wf_routines_update [OF assms(2)] by (simp add: removeRoutine_def Let_def)
next
  case (conversed c)
  then show ?thesis using conversed_wf [OF assms(2)] by simp
qed

definition no_routines :: "(string \<times> string) list \<Rightarrow> routine_db" where
  "no_routines bots = \<lparr>cv_threads = [], cv_tasks = [], cv_runs = [], cv_messages = [], cv_steering = [], cv_events = [],
     rd_bots = bots, rd_routines = [], rd_occurrences = []\<rparr>"

lemma routine_reachable_wf: "(routine_step zones)\<^sup>*\<^sup>* (no_routines bots) db \<Longrightarrow> wf_routines db"
proof (induction rule: rtranclp_induct)
  case base
  have "conversation_of (no_routines bots) = no_rows" by (simp add: conversation_of_def no_routines_def no_rows_def)
  then show ?case by (simp add: wf_routines_def no_rows_wf wf_links_def) (simp add: no_routines_def no_rows_def)
qed (rule routine_step_wf)

section \<open>One pass over many routines\<close>

text \<open>What settling another routine's slot leaves as it is of the routine \<open>i\<close>.\<close>

definition keeps_routine :: "string \<Rightarrow> routine_db \<Rightarrow> routine_db \<Rightarrow> bool" where
  "keeps_routine i db db' \<longleftrightarrow> map rt_id (rd_routines db') = map rt_id (rd_routines db) \<and>
     filter (\<lambda>r. rt_id r = i) (rd_routines db') = filter (\<lambda>r. rt_id r = i) (rd_routines db) \<and>
     filter (\<lambda>x. oc_routineId x = i) (rd_occurrences db') = filter (\<lambda>x. oc_routineId x = i) (rd_occurrences db) \<and>
     (\<forall>s t. (s, routineRunNonce i t) \<in> run_nonce ` set (cv_runs db') \<longleftrightarrow>
        (s, routineRunNonce i t) \<in> run_nonce ` set (cv_runs db))"

lemma keeps_routine_refl [simp]: "keeps_routine i db db"
  by (simp add: keeps_routine_def)

lemma keeps_routine_trans: "keeps_routine i a b \<Longrightarrow> keeps_routine i b c \<Longrightarrow> keeps_routine i a c"
  unfolding keeps_routine_def by (elim conjE) (intro conjI; simp)

lemma keeps_routine_mem:
  assumes "keeps_routine i db db'" and "rt_id r = i"
  shows "r \<in> set (rd_routines db') \<longleftrightarrow> r \<in> set (rd_routines db)"
proof -
  have "r \<in> set (filter (\<lambda>r. rt_id r = i) (rd_routines db')) \<longleftrightarrow> r \<in> set (filter (\<lambda>r. rt_id r = i) (rd_routines db))"
    using assms(1) unfolding keeps_routine_def by simp
  then show ?thesis using assms(2) by simp
qed

lemma keeps_routine_slot:
  assumes "keeps_routine i db db'"
  shows "(i, t) \<in> slot_of ` set (rd_occurrences db') \<longleftrightarrow> (i, t) \<in> slot_of ` set (rd_occurrences db)"
proof -
  have "(i, t) \<in> slot_of ` set os \<longleftrightarrow> (i, t) \<in> slot_of ` set (filter (\<lambda>x. oc_routineId x = i) os)" for os
    by force
  from this [of "rd_occurrences db'"] this [of "rd_occurrences db"] assms show ?thesis
    unfolding keeps_routine_def by simp
qed

lemma marked_inj:
  assumes "c \<notin> set x" and "c \<notin> set y" and "a @ c # x = b @ c # y"
  shows "a = b \<and> x = y"
proof -
  have t: "takeWhile (\<lambda>z. z \<noteq> c) (rev (a @ c # x)) = rev x" if "c \<notin> set x" for a x
    using that by (subst rev_append, simp, subst takeWhile_append2) auto
  have "x = y" using t [OF assms(1), of a] t [OF assms(2), of b] assms(3) by (metis rev_rev_ident)
  then show ?thesis using assms(3) by simp
qed

lemma routineRunNonce_inj: "routineRunNonce i t = routineRunNonce j u \<Longrightarrow> i = j"
proof -
  have "CHR '':'' \<notin> set (dec n)" for n using dec_digits [of "CHR '':''" n] by (auto simp: is_digit_def code_unit_def)
  then have c: "CHR '':'' \<notin> set (dec_int n)" for n by (simp add: dec_int_def)
  show "i = j" if "routineRunNonce i t = routineRunNonce j u"
    using marked_inj [OF c c, of i t j u] that by (simp add: routineRunNonce_def)
qed

lemma settled_tables_keeps:
  assumes "sl_routineId k \<noteq> i" shows "keeps_routine i db (settled_tables db s occ k l)"
proof -
  have "filter (\<lambda>r. rt_id r = i) (update_where (at_slot s k) f rows) = filter (\<lambda>r. rt_id r = i) rows"
    if "\<And>r. rt_id (f r) = rt_id r" for f rows
    using that assms by (induction rows) (auto simp: update_where_def at_slot_def)
  then have "filter (\<lambda>r. rt_id r = i) (rd_routines (settled_tables db s occ k l)) = filter (\<lambda>r. rt_id r = i) (rd_routines db)"
    by (simp add: settled_tables_def)
  then show ?thesis using assms by (simp add: keeps_routine_def)
qed

lemma insert_run_keeps:
  assumes "insert_routine_run db s r ids (routineRunNonce j t) = Some (run, db')" and "j \<noteq> i"
  shows "keeps_routine i db db'"
proof -
  have "\<And>u. routineRunNonce i u \<noteq> routineRunNonce j t" using routineRunNonce_inj assms(2) by metis
  then show ?thesis using assms(1)
    by (auto simp: insert_routine_run_def Let_def keeps_routine_def routine_run_def split: if_splits)
qed

lemma settleSlot_keeps:
  assumes "rt_id c \<noteq> i"
  shows "keeps_routine i (sc_db st) (sc_db (snd (settleSlot zones enqueue now ids c st)))"
proof -
  have m: "keeps_routine i db (snd (recordMissedOccurrence db s occ k))" if "sl_routineId k = rt_id c" for db s occ k
    using that assms settled_tables_keeps by (simp add: recordMissed_eq)
  have f: "keeps_routine i db (snd (createRoutineRun db s x k))" if k: "sl_routineId k = rt_id c" for db s x k
  proof (cases "firing_routine db s k")
    case (Some r)
    then have "rt_id r = rt_id c" using firing_routine_Some [OF Some] k by (simp add: at_slot_def)
    then show ?thesis using Some k assms
      by (auto simp: createRoutineRun_eq split: option.splits
          intro: keeps_routine_trans [OF insert_run_keeps settled_tables_keeps])
  qed (simp add: createRoutineRun_eq)
  have "keeps_routine i db db'" if "recordMissedOccurrence db s occ k = (x, db')" "sl_routineId k = rt_id c" for db s occ k x db'
    using m [OF that(2), of db s occ] that(1) by simp
  moreover have "keeps_routine i db db'" if "createRoutineRun db s y k = (x, db')" "sl_routineId k = rt_id c" for db s y k x db'
    using f [OF that(2), of db s y] that(1) by simp
  ultimately show ?thesis
    by (auto simp: settleSlot_def Let_def split: sum.splits routine_due.splits prod.splits option.splits)
qed

lemma settleSlot_queue:
  "\<exists>ds. sc_queue (snd (settleSlot zones enqueue now ids c st)) = sc_queue st @ ds \<and>
     (\<forall>d \<in> set ds. dl_runId d = si_run ids)"
proof -
  have "cr_id run = si_run ids" if "createRoutineRun db s ids k = (Inr (Some (run, o')), db')" for db s k run o' db'
    using that by (auto simp: createRoutineRun_eq insert_routine_run_def Let_def routine_run_def split: option.splits if_splits)
  then show ?thesis
    by (auto simp: settleSlot_def Let_def split: sum.splits routine_due.splits prod.splits option.splits)
qed


lemma settle_all_others:
  assumes "\<forall>c \<in> set cs. rt_id (snd c) \<noteq> i"
  shows "keeps_routine i (sc_db st) (sc_db (snd (settle_all zones enqueue now cs st))) \<and>
    (\<exists>ds. sc_queue (snd (settle_all zones enqueue now cs st)) = sc_queue st @ ds \<and>
       (\<forall>d \<in> set ds. \<exists>c \<in> set cs. dl_runId d = si_run (fst c)))"
  using assms
proof (induction cs arbitrary: st)
  case (Cons c cs)
  obtain ids r where c: "c = (ids, r)" by (cases c)
  let ?st1 = "snd (settleSlot zones enqueue now ids r st)"
  have e: "snd (settle_all zones enqueue now (c # cs) st) = snd (settle_all zones enqueue now cs ?st1)"
    by (simp add: c settleSafely_def split_beta split: sum.split)
  obtain ds where ds: "sc_queue ?st1 = sc_queue st @ ds" "\<forall>d \<in> set ds. dl_runId d = si_run ids"
    using settleSlot_queue by blast
  obtain ds' where ds': "sc_queue (snd (settle_all zones enqueue now cs ?st1)) = sc_queue ?st1 @ ds'"
      "\<forall>d \<in> set ds'. \<exists>c \<in> set cs. dl_runId d = si_run (fst c)"
    and k: "keeps_routine i (sc_db ?st1) (sc_db (snd (settle_all zones enqueue now cs ?st1)))"
    using Cons.IH [of ?st1] Cons.prems by auto
  have "keeps_routine i (sc_db st) (sc_db ?st1)" using settleSlot_keeps Cons.prems c by simp
  from keeps_routine_trans [OF this k]
  have "keeps_routine i (sc_db st) (sc_db (snd (settle_all zones enqueue now (c # cs) st)))" unfolding e .
  moreover have "sc_queue (snd (settle_all zones enqueue now (c # cs) st)) = sc_queue st @ ds @ ds'"
    using ds ds' unfolding e by simp
  moreover have "\<forall>d \<in> set (ds @ ds'). \<exists>x \<in> set (c # cs). dl_runId d = si_run (fst x)" using ds ds' c by auto
  ultimately show ?case by blast
qed simp

text \<open>A candidate of a pass is settled from tables that hold its routine as the scan saw it.\<close>

lemma settle_all_one:
  assumes "distinct (map (\<lambda>c. rt_id (snd c)) cs)" and "(ids, r) \<in> set cs"
  shows "\<exists>st1 ds1 ds2. keeps_routine (rt_id r) (sc_db st) (sc_db st1) \<and> sc_queue st1 = sc_queue st @ ds1 \<and>
    keeps_routine (rt_id r) (sc_db (snd (settleSlot zones enqueue now ids r st1))) (sc_db (snd (settle_all zones enqueue now cs st))) \<and>
    sc_queue (snd (settle_all zones enqueue now cs st)) = sc_queue (snd (settleSlot zones enqueue now ids r st1)) @ ds2 \<and>
    (\<forall>d \<in> set (ds1 @ ds2). \<exists>c \<in> set cs. rt_id (snd c) \<noteq> rt_id r \<and> dl_runId d = si_run (fst c)) \<and>
    (r, fst (settleSafely zones enqueue now ids r st1)) \<in> set (zip (map snd cs) (fst (settle_all zones enqueue now cs st)))"
  using assms
proof (induction cs arbitrary: st)
  case (Cons c cs)
  obtain ids' r' where c: "c = (ids', r')" by (cases c)
  let ?st1 = "snd (settleSlot zones enqueue now ids' r' st)"
  have e: "snd (settle_all zones enqueue now (c # cs) st) = snd (settle_all zones enqueue now cs ?st1)"
    "fst (settle_all zones enqueue now (c # cs) st) =
      fst (settleSafely zones enqueue now ids' r' st) # fst (settle_all zones enqueue now cs ?st1)"
    by (simp_all add: c settleSafely_def split_beta split: sum.split)
  show ?case
  proof (cases "c = (ids, r)")
    case True
    then have o: "\<forall>c \<in> set cs. rt_id (snd c) \<noteq> rt_id r" using Cons.prems(1) by force
    obtain ds where "sc_queue (snd (settle_all zones enqueue now cs ?st1)) = sc_queue ?st1 @ ds"
        "\<forall>d \<in> set ds. \<exists>c \<in> set cs. dl_runId d = si_run (fst c)"
      using settle_all_others [OF o, of ?st1] by blast
    moreover have "keeps_routine (rt_id r) (sc_db ?st1) (sc_db (snd (settle_all zones enqueue now cs ?st1)))"
      using settle_all_others [OF o, of ?st1] by blast
    moreover have "\<forall>d \<in> set ([] @ ds). \<exists>x \<in> set (c # cs). rt_id (snd x) \<noteq> rt_id r \<and> dl_runId d = si_run (fst x)"
      using calculation(2) o by fastforce
    moreover have "ids' = ids" "r' = r" "snd c = r" using True c by simp_all
    ultimately show ?thesis
      by - (rule exI [of _ st], rule exI [of _ "[]"], rule exI [of _ ds], simp add: e)
  next
    case False
    then have m: "(ids, r) \<in> set cs" using Cons.prems(2) by auto
    then have n: "rt_id r' \<noteq> rt_id r" using Cons.prems(1) c by force
    obtain ds where ds: "sc_queue ?st1 = sc_queue st @ ds" "\<forall>d \<in> set ds. dl_runId d = si_run ids'"
      using settleSlot_queue by blast
    have k: "keeps_routine (rt_id r) (sc_db st) (sc_db ?st1)" using settleSlot_keeps n by simp
    have "distinct (map (\<lambda>c. rt_id (snd c)) cs)" using Cons.prems(1) by simp
    from Cons.IH [OF this m, of ?st1] obtain st1 ds1 ds2 where
      h: "keeps_routine (rt_id r) (sc_db ?st1) (sc_db st1)" "sc_queue st1 = sc_queue ?st1 @ ds1"
        "keeps_routine (rt_id r) (sc_db (snd (settleSlot zones enqueue now ids r st1))) (sc_db (snd (settle_all zones enqueue now cs ?st1)))"
        "sc_queue (snd (settle_all zones enqueue now cs ?st1)) = sc_queue (snd (settleSlot zones enqueue now ids r st1)) @ ds2"
        "\<forall>d \<in> set (ds1 @ ds2). \<exists>c \<in> set cs. rt_id (snd c) \<noteq> rt_id r \<and> dl_runId d = si_run (fst c)"
        "(r, fst (settleSafely zones enqueue now ids r st1)) \<in> set (zip (map snd cs) (fst (settle_all zones enqueue now cs ?st1)))"
      by blast
    have "\<forall>d \<in> set ((ds @ ds1) @ ds2). \<exists>x \<in> set (c # cs). rt_id (snd x) \<noteq> rt_id r \<and> dl_runId d = si_run (fst x)"
      using h(5) ds(2) n c by auto
    then show ?thesis using h ds(1) keeps_routine_trans [OF k h(1)]
      by - (rule exI [of _ st1], rule exI [of _ "ds @ ds1"], rule exI [of _ ds2], simp add: e)
  qed
qed simp

lemma due_distinct:
  assumes "distinct (map rt_id (rd_routines db))"
  shows "distinct (map rt_id (listDueRoutines now db k))"
proof -
  let ?due = "sort_key (\<lambda>r. (rt_nextRunAt r, rt_id r))
    (filter (\<lambda>r. rt_enabled r \<and> rt_deletedAt r = None \<and> rt_nextRunAt r \<le> now) (rd_routines db))"
  have "distinct (map rt_id ?due)" using assms by (auto simp: distinct_map intro: inj_on_subset)
  then show ?thesis unfolding listDueRoutines_def take_map [symmetric] by (rule distinct_take)
qed

lemma replaced_alone:
  assumes "distinct (map rt_id rs)" and "r \<in> set rs" and "rt_id y = rt_id r"
  shows "filter (\<lambda>x. rt_id x = rt_id r) (map (\<lambda>x. if x = r then y else x) rs) = [y]"
  using assms
proof (induction rs)
  case (Cons a rs)
  show ?case
  proof (cases "a = r")
    case True
    then have "\<forall>x \<in> set rs. rt_id x \<noteq> rt_id r \<and> x \<noteq> r" using Cons.prems(1) by (auto simp: image_iff)
    then have "filter (\<lambda>x. rt_id x = rt_id r) (map (\<lambda>x. if x = r then y else x) rs) = []"
      by (auto simp: filter_empty_conv)
    then show ?thesis using True assms(3) by simp
  next
    case False
    then have "rt_id a \<noteq> rt_id r" using Cons.prems by (auto simp: image_iff)
    then show ?thesis using False Cons by simp
  qed
qed simp

section \<open>Properties\<close>

text \<open>
  C18: A slot is settled at most once. Whatever operators, schedulers with stale decisions, edits that
  were planned before others, test runs and conversations do, in any order, a routine has at most one
  occurrence per slot, an occurrence that fired is linked to the routine's run of that slot, no other
  run of its space carries that slot's nonce, and settling a settled slot again changes nothing.
\<close>

theorem slot_settled_once:
  assumes "(routine_step zones)\<^sup>*\<^sup>* (no_routines bots) db"
  shows "distinct (map slot_of (rd_occurrences db)) \<and>
    (\<forall>x \<in> set (rd_occurrences db). \<forall>k. oc_runId x = Some k \<longrightarrow>
      (\<exists>r \<in> set (cv_runs db). cr_id r = k \<and> cr_trigger r = ''routine'' \<and>
         cr_clientNonce r = routineRunNonce (oc_routineId x) (oc_scheduledFor x) \<and>
         (\<forall>r' \<in> set (cv_runs db). run_nonce r' = run_nonce r \<longrightarrow> r' = r))) \<and>
    (slot_settled db i \<longrightarrow> createRoutineRun db s ids i = (Inr None, db) \<and>
       recordMissedOccurrence db s occ i = (Inr None, db))"
proof -
  note wf = routine_reachable_wf [OF assms]
  then have "distinct (map run_nonce (cv_runs db))" by (simp add: wf_routines_def wf_links_def)
  then have uniq: "r = r'" if "r \<in> set (cv_runs db)" "r' \<in> set (cv_runs db)" "run_nonce r' = run_nonce r" for r r'
    using that by (auto simp: distinct_map inj_on_def)
  have "\<exists>r \<in> set (cv_runs db). cr_id r = k \<and> cr_trigger r = ''routine'' \<and>
         cr_clientNonce r = routineRunNonce (oc_routineId x) (oc_scheduledFor x) \<and>
         (\<forall>r' \<in> set (cv_runs db). run_nonce r' = run_nonce r \<longrightarrow> r' = r)"
    if x: "x \<in> set (rd_occurrences db)" "oc_runId x = Some k" for x k
  proof -
    have "occurrence_linked (cv_runs db) x" using wf x(1) unfolding wf_routines_def by blast
    then obtain r where "r \<in> set (cv_runs db)" "cr_id r = k" "cr_trigger r = ''routine''"
        "cr_clientNonce r = routineRunNonce (oc_routineId x) (oc_scheduledFor x)"
      using x(2) by (auto simp: occurrence_linked_def)
    then show ?thesis using uniq by blast
  qed
  moreover have "slot_settled db i \<longrightarrow> createRoutineRun db s ids i = (Inr None, db) \<and>
       recordMissedOccurrence db s occ i = (Inr None, db)"
    by (auto simp: createRoutineRun_eq recordMissed_eq split: option.splits)
  ultimately show ?thesis using wf unfolding wf_routines_def by blast
qed


lemma settled_slot_skipped:
  assumes "(rt_id r, to_date (rt_nextRunAt r)) \<in> slot_of ` set (rd_occurrences (sc_db st))"
  shows "snd (settleSlot zones enqueue now ids r st) = st"
proof -
  have "slot_settled (sc_db st) \<lparr>sl_routineId = rt_id r, sl_scheduledFor = to_date (rt_nextRunAt r), sl_nextRunAt = n\<rparr>" for n
    using assms by (force simp: slot_settled_def list_ex_iff)
  then have c: "createRoutineRun (sc_db st) s k \<lparr>sl_routineId = rt_id r, sl_scheduledFor = to_date (rt_nextRunAt r), sl_nextRunAt = n\<rparr>
      = (Inr None, sc_db st)"
    "recordMissedOccurrence (sc_db st) s q \<lparr>sl_routineId = rt_id r, sl_scheduledFor = to_date (rt_nextRunAt r), sl_nextRunAt = n\<rparr>
      = (Inr None, sc_db st)" for s k n q
    by (auto simp: createRoutineRun_eq recordMissed_eq split: option.splits)
  let ?d = "bindE (parseRoutineCron (rt_cron r)) (\<lambda>cron.
     decideRoutineDue zones cron (rt_timezone r) (to_date (rt_nextRunAt r)) (to_date now))"
  have slot: "\<forall>a n l. ?d = Inr (Fire a n l) \<or> ?d = Inr (Miss a n l) \<longrightarrow> a = to_date (rt_nextRunAt r)"
    by (auto simp: decideRoutineDue_def Let_def result_simps split: if_splits)
  show ?thesis using slot c by (auto simp: settleSlot_def split: sum.splits routine_due.splits)
qed

lemma tick_keeps_settled:
  assumes "distinct (map rt_id (rd_routines (sc_db st)))" and "r \<in> set (rd_routines (sc_db st))"
    and "(rt_id r, to_date (rt_nextRunAt r)) \<in> slot_of ` set (rd_occurrences (sc_db st))"
  shows "keeps_routine (rt_id r) (sc_db st) (sc_db (snd (routineTick zones enqueue fresh now st)))"
proof -
  let ?due = "listDueRoutines now (sc_db st) ROUTINE_SCHEDULER_BATCH_LIMIT"
  let ?cs = "map (\<lambda>r. (fresh (rt_id r), r)) ?due"
  have t: "snd (routineTick zones enqueue fresh now st) = snd (settle_all zones enqueue now ?cs st)"
    by (simp add: routineTick_def)
  show ?thesis
  proof (cases "r \<in> set ?due")
    case True
    have "distinct (map (\<lambda>c. rt_id (snd c)) ?cs)" using due_distinct [OF assms(1)] by (simp add: comp_def)
    moreover have "(fresh (rt_id r), r) \<in> set ?cs" using True by auto
    ultimately obtain st1 where st1: "keeps_routine (rt_id r) (sc_db st) (sc_db st1)"
        "keeps_routine (rt_id r) (sc_db (snd (settleSlot zones enqueue now (fresh (rt_id r)) r st1)))
           (sc_db (snd (settle_all zones enqueue now ?cs st)))"
      using settle_all_one [of ?cs "fresh (rt_id r)" r st zones enqueue now] by blast
    have "snd (settleSlot zones enqueue now (fresh (rt_id r)) r st1) = st1"
      using keeps_routine_slot [OF st1(1)] assms(3) by (intro settled_slot_skipped) simp
    then show ?thesis using st1 keeps_routine_trans unfolding t by metis
  next
    case False
    have "rt_id c \<noteq> rt_id r" if "c \<in> set ?due" for c
    proof -
      have "c \<in> set (rd_routines (sc_db st))" using that by (auto simp: listDueRoutines_def dest: in_set_takeD)
      then show ?thesis using that False assms(1,2) by (auto simp: distinct_map inj_on_def)
    qed
    then have "\<forall>c \<in> set ?cs. rt_id (snd c) \<noteq> rt_id r" by auto
    then show ?thesis using settle_all_others [of ?cs "rt_id r" st] unfolding t by blast
  qed
qed

type_synonym scheduler_pass = "int \<times> (delivery \<Rightarrow> bool) \<times> (string \<Rightarrow> slot_ids)"

definition run_passes :: "(string \<Rightarrow> zone option) \<Rightarrow> scheduler_pass list \<Rightarrow> scheduler \<Rightarrow> scheduler" where
  "run_passes zones = fold (\<lambda>(now, enqueue, fresh) st. snd (routineTick zones enqueue fresh now st))"

lemma passes_keep_settled:
  assumes "distinct (map rt_id (rd_routines (sc_db st)))" and "r \<in> set (rd_routines (sc_db st))"
    and "(rt_id r, to_date (rt_nextRunAt r)) \<in> slot_of ` set (rd_occurrences (sc_db st))"
  shows "keeps_routine (rt_id r) (sc_db st) (sc_db (run_passes zones ps st))"
  using assms
proof (induction ps arbitrary: st)
  case (Cons p ps)
  obtain now enqueue fresh where p: "p = (now, enqueue, fresh)" by (cases p)
  let ?st1 = "snd (routineTick zones enqueue fresh now st)"
  note k = tick_keeps_settled [OF Cons.prems, of zones enqueue fresh now]
  have "distinct (map rt_id (rd_routines (sc_db ?st1)))" using k Cons.prems(1) by (simp add: keeps_routine_def)
  from Cons.IH [OF this] keeps_routine_mem [OF k] keeps_routine_slot [OF k] Cons.prems(2,3)
  have "keeps_routine (rt_id r) (sc_db ?st1) (sc_db (run_passes zones ps ?st1))" by simp
  then show ?case using keeps_routine_trans [OF k] by (simp add: run_passes_def p)
qed (simp add: run_passes_def)

lemma updateRoutine_row:
  assumes "updateRoutine zones t other db s i patch = (Inr r, db')"
  shows "rt_id r = i" and "r \<in> set (rd_routines db')" and "rd_occurrences db' = rd_occurrences (other db)"
    and "map rt_id (rd_routines db') = map rt_id (rd_routines (other db))"
proof -
  obtain current f where f: "edit_plan zones t current patch = Inr f" "edit_statement (other db) s i f = (Inr r, db')"
    using assms by (auto simp: updateRoutine_def result_simps split: sum.splits)
  let ?P = "\<lambda>r. rt_id r = i \<and> rt_spaceId r = s \<and> rt_deletedAt r = None"
  have u: "db' = (other db)\<lparr>rd_routines := update_where ?P f (rd_routines (other db))\<rparr>"
      "r \<in> set (returning ?P f (rd_routines (other db)))"
    using f(2) by (auto simp: edit_statement_def Let_def transaction_def requiredRow_def result_simps
        split: sum.splits prod.splits if_splits list.splits)
  then obtain x where "x \<in> set (rd_routines (other db))" "?P x" "r = f x" by (auto simp: returning_def)
  then show "rt_id r = i" "r \<in> set (rd_routines db')" using edit_plan_id [OF f(1)] u(1)
    by (auto simp: update_where_set)
  show "rd_occurrences db' = rd_occurrences (other db)"
    "map rt_id (rd_routines db') = map rt_id (rd_routines (other db))"
    using edit_plan_id [OF f(1)] by (simp_all add: u(1) update_where_def comp_def if_distrib cong: if_cong)
qed

text \<open>
  C39: An edit written after a fire it did not see stops its routine for good. When the scheduler has
  settled the slot that the edit planned before the edit is written, the edit puts the cursor on that
  settled slot; whatever passes run afterwards, with whatever clocks, queues and other routines in
  their batches, the routine's row and its occurrences stay as they are, so that it never fires
  again by itself, although every scan it is due in returns it as long as at most fifty are due.
\<close>

theorem settled_slot_blocks:
  assumes "updateRoutine zones t other db s i patch = (Inr r, db')"
    and "distinct (map rt_id (rd_routines (other db)))"
    and "(i, to_date (rt_nextRunAt r)) \<in> slot_of ` set (rd_occurrences (other db))"
    and "st = run_passes zones passes \<lparr>sc_db = db', sc_queue = q\<rparr>"
  shows "filter (\<lambda>x. rt_id x = i) (rd_routines (sc_db st)) = [r] \<and>
    filter (\<lambda>x. oc_routineId x = i) (rd_occurrences (sc_db st)) = filter (\<lambda>x. oc_routineId x = i) (rd_occurrences (other db)) \<and>
    (\<forall>now. rt_enabled r \<and> rt_deletedAt r = None \<and> rt_nextRunAt r \<le> now \<and>
       length (filter (\<lambda>x. rt_enabled x \<and> rt_deletedAt x = None \<and> rt_nextRunAt x \<le> now) (rd_routines (sc_db st)))
         \<le> ROUTINE_SCHEDULER_BATCH_LIMIT \<longrightarrow>
       r \<in> set (listDueRoutines now (sc_db st) ROUTINE_SCHEDULER_BATCH_LIMIT))"
proof -
  note u = updateRoutine_row [OF assms(1)]
  let ?st0 = "\<lparr>sc_db = db', sc_queue = q\<rparr>"
  have d: "distinct (map rt_id (rd_routines (sc_db ?st0)))" using u(4) assms(2) by simp
  have k: "keeps_routine i db' (sc_db st)"
    using passes_keep_settled [OF d, of r zones passes] u(1-3) assms(3,4) by simp
  have "filter (\<lambda>x. rt_id x = rt_id r) (map (\<lambda>x. if x = r then r else x) (rd_routines db')) = [r]"
    using replaced_alone [OF _ u(2), of r] d by simp
  then have "filter (\<lambda>x. rt_id x = i) (rd_routines (sc_db st)) = [r]" using k u(1) by (simp add: keeps_routine_def)
  moreover have "filter (\<lambda>x. oc_routineId x = i) (rd_occurrences (sc_db st)) =
      filter (\<lambda>x. oc_routineId x = i) (rd_occurrences (other db))"
    using k u(3) by (simp add: keeps_routine_def)
  moreover have "r \<in> set (rd_routines (sc_db st))" using keeps_routine_mem [OF k u(1)] u(2) by simp
  ultimately show ?thesis by (auto simp: listDueRoutines_def)
qed

section \<open>A sample routine\<close>

definition twice_cron :: routine_cron where
  "twice_cron = \<lparr>cron_expression = ''30,45 9 * * *'', cron_minutes = [30, 45], cron_hours = [9],
     cron_daysOfMonth = map int [1..<32], cron_months = map int [1..<13], cron_daysOfWeek = map int [0..<7],
     cron_dayOfMonthUnrestricted = True, cron_dayOfWeekUnrestricted = True\<rparr>"

lemma twice_cron_parses: "parseRoutineCron ''30,45 9 * * *'' = Inr twice_cron"
  by code_simp

lemma twice_fires:
  "nextRoutineFire sample_zones twice_cron ''UTC'' (Some 0) = Inr 34200000"
  "nextRoutineFire sample_zones twice_cron ''UTC'' (Some 34200000) = Inr 35100000"
proof -
  have "tryDay twice_cron ''UTC'' (fixed_zone 0) 0 60000 (60000 div DAY_MS * DAY_MS) = Inr (Some 34200000)"
    "tryDay twice_cron ''UTC'' (fixed_zone 0) 34200000 34260000 (34260000 div DAY_MS * DAY_MS) = Inr (Some 35100000)"
    by code_simp+
  then have "search_fire twice_cron ''UTC'' (fixed_zone 0) 0 = Inr 34200000"
    "search_fire twice_cron ''UTC'' (fixed_zone 0) 34200000 = Inr 35100000"
    by (intro search_fire_first_day [of 60000] search_fire_first_day [of 34260000]; simp add: fixed_zone_def)+
  then show "nextRoutineFire sample_zones twice_cron ''UTC'' (Some 0) = Inr 34200000"
    "nextRoutineFire sample_zones twice_cron ''UTC'' (Some 34200000) = Inr 35100000"
    by (simp_all add: nextRoutineFire_def sample_zones_def)
qed

definition sample_routine :: routine_row where
  "sample_routine = \<lparr>rt_id = ''q'', rt_spaceId = ''s'', rt_botId = ''b'', rt_userId = ''u'', rt_threadId = ''t'',
     rt_instruction = ''look'', rt_cron = ''30,45 9 * * *'', rt_timezone = ''UTC'', rt_enabled = True,
     rt_nextRunAt = 34200000000, rt_deletedAt = None\<rparr>"

definition sample_routines :: routine_db where
  "sample_routines = (no_routines [(''b'', ''s'')])\<lparr>cv_threads := [fresh_thread ''t'' ''s'' ''b''],
     rd_routines := [sample_routine]\<rparr>"

lemma sample_routines_reachable: "(routine_step sample_zones)\<^sup>*\<^sup>* (no_routines [(''b'', ''s'')]) sample_routines"
proof -
  let ?in = "\<lparr>nr_botId = ''b'', nr_instruction = ''look'', nr_cron = ''30,45 9 * * *'', nr_timezone = ''UTC''\<rparr>"
  have "isRoutineTimezone sample_zones ''UTC''" by (simp add: isRoutineTimezone_def sample_zones_def)
  then have "snd (createRoutine sample_zones 0 (no_routines [(''b'', ''s'')]) ''s'' ''u'' (''t'', ''q'') ?in) = sample_routines"
    using twice_fires(1)
    by (simp add: createRoutine_def transaction_def scheduleBoundary_def twice_cron_parses assertRoutineTimezone_def
        to_date_def from_date_def Let_def routine_identifiers_check_def not_blank_def sample_routines_def
        sample_routine_def fresh_thread_def no_routines_def)
  then show ?thesis
    using routine_step.opened [of "(''t'', ''q'')" "no_routines [(''b'', ''s'')]" sample_zones 0 "''s''" "''u''" ?in]
    by (intro r_into_rtranclp) (simp add: no_routines_def)
qed

definition sample_ids :: slot_ids where
  "sample_ids = \<lparr>si_occurrence = ''o'', si_task = ''k'', si_run = ''r''\<rparr>"

definition sample_slot :: slot_input where
  "sample_slot = \<lparr>sl_routineId = ''q'', sl_scheduledFor = 34200000, sl_nextRunAt = 35100000\<rparr>"

lemma sample_fired: "slot_settled (snd (createRoutineRun sample_routines ''s'' sample_ids sample_slot)) sample_slot"
  by (simp add: createRoutineRun_eq firing_routine_def at_slot_def sample_routines_def sample_routine_def sample_slot_def
      no_routines_def to_date_def slot_settled_def insert_routine_run_def settled_tables_def add_occurrence_def Let_def)

lemma sample_fired_reachable:
  "(routine_step sample_zones)\<^sup>*\<^sup>* (no_routines [(''b'', ''s'')]) (snd (createRoutineRun sample_routines ''s'' sample_ids sample_slot))"
proof -
  have "routine_step sample_zones sample_routines (snd (createRoutineRun sample_routines ''s'' sample_ids sample_slot))"
    by (rule routine_step.fired) (simp_all add: sample_routines_def no_routines_def)
  then show ?thesis using sample_routines_reachable by (meson rtranclp.rtrancl_into_rtrancl)
qed

lemmas sample_fired_wf = routine_reachable_wf [OF sample_fired_reachable]

theorem slot_settled_once_witness:
  "createRoutineRun (snd (createRoutineRun sample_routines ''s'' sample_ids sample_slot)) ''s'' sample_ids sample_slot =
     (Inr None, snd (createRoutineRun sample_routines ''s'' sample_ids sample_slot))"
  using sample_fired slot_settled_once [OF sample_fired_reachable, of sample_slot] by blast



text \<open>An edit to another expression, planned before nine thirty and written after the slot was fired.\<close>

definition late_edit :: routine_patch where
  "late_edit = \<lparr>pt_instruction = None, pt_cron = Some ''30 9 * * 1-5'', pt_timezone = None, pt_enabled = None\<rparr>"

definition raced :: routine_db where
  "raced = snd (updateRoutine sample_zones 0 (\<lambda>db. snd (createRoutineRun db ''s'' sample_ids sample_slot))
     sample_routines ''s'' ''q'' late_edit)"

lemma raced_rows:
  "updateRoutine sample_zones 0 (\<lambda>db. snd (createRoutineRun db ''s'' sample_ids sample_slot)) sample_routines ''s'' ''q'' late_edit =
     (Inr (sample_routine\<lparr>rt_cron := ''30 9 * * 1-5''\<rparr>), raced)"
  "rd_routines raced = [sample_routine\<lparr>rt_cron := ''30 9 * * 1-5''\<rparr>]"
  "map slot_of (rd_occurrences raced) = [(''q'', 34200000)]"
proof -
  let ?f = "\<lambda>r. r\<lparr>rt_cron := ''30 9 * * 1-5'', rt_nextRunAt := 34200000000\<rparr>"
  have tz: "isRoutineTimezone sample_zones ''UTC''" by (simp add: isRoutineTimezone_def sample_zones_def)
  have "edit_plan sample_zones 0 sample_routine late_edit = Inr ?f"
    using weekday_fire tz
    by (simp add: edit_plan_def late_edit_def sample_routine_def or_stored_def changes_def scheduleBoundary_def
        weekday_cron_parses assertRoutineTimezone_def to_date_def from_date_def Let_def)
  then have u: "updateRoutine sample_zones 0 (\<lambda>db. snd (createRoutineRun db ''s'' sample_ids sample_slot)) sample_routines ''s'' ''q'' late_edit =
      edit_statement (snd (createRoutineRun sample_routines ''s'' sample_ids sample_slot)) ''s'' ''q'' ?f"
    by (simp add: updateRoutine_def findRoutine_def requiredRow_def sample_routines_def sample_routine_def)
  then have r: "raced = snd (edit_statement (snd (createRoutineRun sample_routines ''s'' sample_ids sample_slot)) ''s'' ''q'' ?f)"
    by (simp add: raced_def)
  note unf = edit_statement_def Let_def transaction_def returning_def requiredRow_def
        routine_identifiers_check_def not_blank_def update_where_def createRoutineRun_eq firing_routine_def at_slot_def
        sample_routines_def sample_routine_def sample_slot_def no_routines_def to_date_def slot_settled_def
        insert_routine_run_def settled_tables_def add_occurrence_def
  have "fst (edit_statement (snd (createRoutineRun sample_routines ''s'' sample_ids sample_slot)) ''s'' ''q'' ?f) =
      Inr (sample_routine\<lparr>rt_cron := ''30 9 * * 1-5''\<rparr>)" by (simp add: unf)
  then show "updateRoutine sample_zones 0 (\<lambda>db. snd (createRoutineRun db ''s'' sample_ids sample_slot)) sample_routines ''s'' ''q'' late_edit =
     (Inr (sample_routine\<lparr>rt_cron := ''30 9 * * 1-5''\<rparr>), raced)"
    unfolding u r by (simp add: prod_eq_iff)
  show "rd_routines raced = [sample_routine\<lparr>rt_cron := ''30 9 * * 1-5''\<rparr>]"
    "map slot_of (rd_occurrences raced) = [(''q'', 34200000)]"
    by (simp_all add: r unf)
qed

theorem settled_slot_blocks_witness:
  "\<forall>passes. filter (\<lambda>x. rt_id x = ''q'') (rd_routines (sc_db (run_passes sample_zones passes \<lparr>sc_db = raced, sc_queue = []\<rparr>))) =
     [sample_routine\<lparr>rt_cron := ''30 9 * * 1-5''\<rparr>]"
proof
  fix passes
  have x: "(''q'', 34200000) \<in> slot_of ` set (rd_occurrences (snd (createRoutineRun sample_routines ''s'' sample_ids sample_slot)))"
    using sample_fired by (force simp: slot_settled_def sample_slot_def list_ex_iff)
  have ids: "distinct (map rt_id (rd_routines (snd (createRoutineRun sample_routines ''s'' sample_ids sample_slot))))"
    using sample_fired_wf unfolding wf_routines_def by blast
  show "filter (\<lambda>x. rt_id x = ''q'') (rd_routines (sc_db (run_passes sample_zones passes \<lparr>sc_db = raced, sc_queue = []\<rparr>))) =
     [sample_routine\<lparr>rt_cron := ''30 9 * * 1-5''\<rparr>]"
    using settled_slot_blocks [OF raced_rows(1), of "run_passes sample_zones passes \<lparr>sc_db = raced, sc_queue = []\<rparr>" passes "[]"] x ids
    by (simp add: sample_routine_def to_date_def)
qed

end
