(* ===== verification/Computer_Commands.thy ===== *)
theory Computer_Commands
  imports Tool_Dispatch
begin

text \<open>
  The computer lease (\<open>computer-leases.ts\<close>) and the fenced command runner above the provider seam
  (\<open>computer-commands.ts\<close>). A statement of the lease reads its snapshot and, where it meets a
  conflicting row, the row as it is then; the two states are separate arguments. The runner works
  over any ledger and any lease store on a shared state that other workers change in between; the
  provider, the hash and the host clock are arguments.
\<close>

section \<open>The lease table\<close>

record lease_holder =
  lh_botId :: string
  lh_runId :: string
  lh_owner :: string
  lh_fence :: nat

record computer_lease =
  cl_id :: string
  cl_spaceId :: string
  cl_botId :: string
  cl_runId :: string
  cl_owner :: string
  cl_fence :: nat
  cl_expiresAt :: int

record computer_db =
  cd_runs :: run_tables
  cd_leases :: "computer_lease list"

datatype lease_acquisition = Lease_held computer_lease | Lease_busy int | Lease_run_lost

definition COMPUTER_LEASE_TTL_SECONDS :: int where
  "COMPUTER_LEASE_TTL_SECONDS = RUN_LEASE_TTL_SECONDS"

definition COMPUTER_WATCHDOG_BATCH_LIMIT :: nat where "COMPUTER_WATCHDOG_BATCH_LIMIT = 50"

record hold_row =
  hr_runHeld :: bool
  hr_held :: "computer_lease option"
  hr_currentExpiresAt :: "int option"

text \<open>\<open>run_ok\<close>: the run, executing under the holder's live lease.\<close>

definition run_ok :: "int \<Rightarrow> run_tables \<Rightarrow> string \<Rightarrow> lease_holder \<Rightarrow> bool" where
  "run_ok now db spaceId h =
     list_ex (\<lambda>r. rw_botId r = lh_botId h \<and>
       holds_lease now spaceId (lh_runId h) \<lparr>lease_owner = lh_owner h, lease_fence = lh_fence h\<rparr> r) (runs db)"

definition lease_of :: "computer_lease list \<Rightarrow> string \<Rightarrow> computer_lease option" where
  "lease_of ls b = find (\<lambda>l. cl_botId l = b) ls"

definition binds :: "lease_holder \<Rightarrow> computer_lease \<Rightarrow> bool" where
  "binds h l = (cl_runId l = lh_runId h \<and> cl_owner l = lh_owner h \<and> cl_fence l = lh_fence h)"

definition new_lease :: "int \<Rightarrow> string \<Rightarrow> string \<Rightarrow> lease_holder \<Rightarrow> int \<Rightarrow> computer_lease" where
  "new_lease now newId spaceId h ttl =
     \<lparr>cl_id = newId, cl_spaceId = spaceId, cl_botId = lh_botId h, cl_runId = lh_runId h,
      cl_owner = lh_owner h, cl_fence = lh_fence h, cl_expiresAt = now + ttl * 1000\<rparr>"

definition rebind :: "computer_lease \<Rightarrow> computer_lease \<Rightarrow> computer_lease" where
  "rebind excluded l =
     l\<lparr>cl_runId := cl_runId excluded, cl_owner := cl_owner excluded, cl_fence := cl_fence excluded,
       cl_expiresAt := cl_expiresAt excluded\<rparr>"

text \<open>The upsert \<open>held\<close>: the row it returns, and the table.\<close>

definition upsert_lease ::
  "int \<Rightarrow> lease_holder \<Rightarrow> computer_lease \<Rightarrow> computer_lease list \<Rightarrow> computer_lease option \<times> computer_lease list" where
  "upsert_lease now h excluded ls =
     (case lease_of ls (cl_botId excluded) of
        None \<Rightarrow> (Some excluded, ls @ [excluded])
      | Some l \<Rightarrow>
          if cl_expiresAt l \<le> now \<or> binds h l
          then (Some (rebind excluded l),
                update_where (\<lambda>x. cl_botId x = cl_botId excluded) (rebind excluded) ls)
          else (None, ls))"

definition holdOnce ::
  "int \<Rightarrow> string \<Rightarrow> computer_db \<Rightarrow> computer_db \<Rightarrow> string \<Rightarrow> lease_holder \<Rightarrow> int \<Rightarrow> hold_row \<times> computer_db" where
  "holdOnce now newId snap db spaceId h ttl =
     (let ok = run_ok now (cd_runs snap) spaceId h;
          (held, ls) = (if ok then upsert_lease now h (new_lease now newId spaceId h ttl) (cd_leases db)
                        else (None, cd_leases db)) in
      (\<lparr>hr_runHeld = ok, hr_held = held,
        hr_currentExpiresAt = map_option cl_expiresAt (lease_of (cd_leases snap) (lh_botId h))\<rparr>,
       db\<lparr>cd_leases := ls\<rparr>))"

definition classify_hold :: "hold_row \<Rightarrow> lease_acquisition option" where
  "classify_hold row =
     (case hr_held row of
        Some l \<Rightarrow> Some (Lease_held l)
      | None \<Rightarrow>
          if \<not> hr_runHeld row then Some Lease_run_lost
          else map_option Lease_busy (hr_currentExpiresAt row))"

text \<open>
  \<open>holdComputerLease\<close>: two attempts. \<open>w\<close> is what other writers commit in between: after the
  snapshot of the first attempt, between the attempts, and after the second snapshot. \<open>newId\<close> is
  the key the database gives a row it inserts. \<open>Inl ()\<close> is the error thrown after the second miss.
\<close>

definition holdComputerLease ::
  "int \<Rightarrow> string \<Rightarrow> (nat \<Rightarrow> computer_db \<Rightarrow> computer_db) \<Rightarrow> computer_db \<Rightarrow> string \<Rightarrow> lease_holder \<Rightarrow> int \<Rightarrow>
   (unit + lease_acquisition) \<times> computer_db" where
  "holdComputerLease now newId w db spaceId h ttl =
     (let (row, db1) = holdOnce now newId db (w 0 db) spaceId h ttl in
      case classify_hold row of
        Some a \<Rightarrow> (Inr a, db1)
      | None \<Rightarrow>
          (let db2 = w 1 db1; (row2, db3) = holdOnce now newId db2 (w 2 db2) spaceId h ttl in
           case classify_hold row2 of Some a \<Rightarrow> (Inr a, db3) | None \<Rightarrow> (Inl (), db3)))"

definition releaseComputerLease :: "computer_db \<Rightarrow> string \<Rightarrow> lease_holder \<Rightarrow> bool \<times> computer_db" where
  "releaseComputerLease db spaceId h =
     (let P = (\<lambda>l. cl_spaceId l = spaceId \<and> cl_botId l = lh_botId h \<and> binds h l) in
      (list_ex P (cd_leases db), db\<lparr>cd_leases := filter (\<lambda>l. \<not> P l) (cd_leases db)\<rparr>))"

definition findExpiredComputerLeases :: "int \<Rightarrow> computer_db \<Rightarrow> nat \<Rightarrow> computer_lease list" where
  "findExpiredComputerLeases now db limit =
     take limit (sort_key (\<lambda>l. (cl_expiresAt l, cl_id l)) (filter (\<lambda>l. cl_expiresAt l \<le> now) (cd_leases db)))"

section \<open>The command runner\<close>

text \<open>
  A thrown value, by what \<open>failureMessage\<close> reads of it: the \<open>detail\<close> of an object, and the
  message of an \<open>Error\<close>.
\<close>

record thrown_object =
  to_detail :: "js option"
  to_message :: "string option"

datatype command_error =
    Cmd_lease_lost string
  | Cmd_lease_held int
  | Cmd_failed string
  | Cmd_conflict string string string
  | Cmd_ledger string
  | Cmd_provider "thrown_object option"
  | Cmd_interrupted

datatype provider_exit =
    Provider_result tool_value
  | Provider_lease_lost string
  | Provider_failed "thrown_object option"
  | Provider_interrupted

datatype ttl_error = Run_ttl_invalid | Computer_ttl_invalid | Computer_ttl_exceeds_run

definition assertLeaseTtls :: "jsnum \<Rightarrow> jsnum \<Rightarrow> ttl_error + unit" where
  "assertLeaseTtls runTtl computerTtl =
     (if \<not> positive_integer runTtl then Inl Run_ttl_invalid
      else if \<not> positive_integer computerTtl then Inl Computer_ttl_invalid
      else if \<not> num_le computerTtl runTtl then Inl Computer_ttl_exceeds_run
      else Inr ())"

definition message_or_default :: "string option \<Rightarrow> string" where
  "message_or_default message =
     (case message of
        Some t \<Rightarrow> if trim t \<noteq> [] then t else ''the computer command failed''
      | None \<Rightarrow> ''the computer command failed'')"

definition commandFailureMessage :: "thrown_object option \<Rightarrow> string" where
  "commandFailureMessage value =
     (let detail = (case value of None \<Rightarrow> None | Some v \<Rightarrow> Option.bind (to_detail v) as_string);
          message = (case value of None \<Rightarrow> None | Some v \<Rightarrow> to_message v) in
      case detail of
        Some d \<Rightarrow> if trim d \<noteq> [] then d else message_or_default message
      | None \<Rightarrow> message_or_default message)"

definition held_detail :: "int \<Rightarrow> string" where
  "held_detail seconds = ''another run holds this computer for up to '' @ dec (nat seconds) @ ''s''"

text \<open>The two errors of \<open>hold\<close> as objects.\<close>

definition hold_object :: "command_error \<Rightarrow> thrown_object option" where
  "hold_object e =
     (case e of
        Cmd_lease_held n \<Rightarrow> Some \<lparr>to_detail = Some (JStr (held_detail n)), to_message = Some (held_detail n)\<rparr>
      | Cmd_lease_lost i \<Rightarrow>
          Some \<lparr>to_detail = None, to_message = Some (''the lease on run '' @ i @ '' was lost to another worker'')\<rparr>
      | _ \<Rightarrow> None)"

definition ceil_seconds :: "int \<Rightarrow> int" where
  "ceil_seconds ms = - ((- ms) div 1000)"

definition hold_result ::
  "bool \<Rightarrow> int \<Rightarrow> string \<Rightarrow> unit + lease_acquisition \<Rightarrow> command_error + unit" where
  "hold_result second clock rid a =
     (case a of
        Inl _ \<Rightarrow> Inl (Cmd_lease_lost rid)
      | Inr Lease_run_lost \<Rightarrow> Inl (Cmd_lease_lost rid)
      | Inr (Lease_busy expiresAt) \<Rightarrow>
          if second then Inl (Cmd_lease_lost rid)
          else Inl (Cmd_lease_held (max 1 (ceil_seconds (expiresAt - clock))))
      | Inr (Lease_held _) \<Rightarrow> Inr ())"

record computer_ref =
  cf_computerId :: string
  cf_botId :: string
  cf_provider :: "string option"

record command_request =
  cq_computer :: computer_ref
  cq_runId :: string
  cq_callId :: string
  cq_tool :: string
  cq_command :: string
  cq_timeoutMs :: int

type_synonym environment = "(string \<times> string) list"

text \<open>What the provider is given.\<close>

record provider_call =
  pc_computer :: computer_ref
  pc_command :: string
  pc_timeoutMs :: int
  pc_environment :: "environment option"

definition provider_call_of :: "(int \<Rightarrow> environment) option \<Rightarrow> command_request \<Rightarrow> provider_call" where
  "provider_call_of env q =
     \<lparr>pc_computer = cq_computer q, pc_command = cq_command q, pc_timeoutMs = cq_timeoutMs q,
      pc_environment = map_option (\<lambda>f. f (cq_timeoutMs q)) env\<rparr>"

definition commandKey :: "(string \<Rightarrow> string) \<Rightarrow> string \<Rightarrow> string" where
  "commandKey sha256 callId = ''computer-command:'' @ sha256 (''computer-command'' @ [CHR 0x00] @ callId)"

definition command_call :: "(string \<Rightarrow> string) \<Rightarrow> command_request \<Rightarrow> tool_call" where
  "command_call sha256 q =
     \<lparr>tc_runId = cq_runId q, tc_callId = commandKey sha256 (cq_callId q), tc_tool = ''computer.command'',
      tc_arguments = JObj [(''tool'', JStr (cq_tool q)), (''command'', JStr (cq_command q))]\<rparr>"

definition settleFailure ::
  "'s call_ledger \<Rightarrow> tool_call \<Rightarrow> string \<Rightarrow> 's \<Rightarrow> bool \<times> 's" where
  "settleFailure lg call message s =
     (let (r, s') = lg_fail lg call message s in
      (case r of Inr (Outcome_failed _) \<Rightarrow> True | _ \<Rightarrow> False, s'))"

record 's command_env =
  ce_ledger :: "'s call_ledger"
  ce_hold :: "'s \<Rightarrow> (unit + lease_acquisition) \<times> 's"
  ce_environment :: "(int \<Rightarrow> environment) option"
  ce_provider :: "provider_call \<Rightarrow> 's \<Rightarrow> provider_exit \<times> 's"
  ce_clock :: int
  ce_leaseRunId :: string
  ce_sha256 :: "string \<Rightarrow> string"

text \<open>What follows the provider's answer: the failure is settled, or the result goes through the
  second hold and is recorded.\<close>

definition commit_command ::
  "'s command_env \<Rightarrow> command_request \<Rightarrow> provider_exit \<Rightarrow> 's \<Rightarrow> (command_error + tool_value) \<times> 's" where
  "commit_command E q p s =
     (let call = command_call (ce_sha256 E) q in
      case p of
        Provider_interrupted \<Rightarrow> (Inl Cmd_interrupted, s)
      | Provider_lease_lost i \<Rightarrow> (Inl (Cmd_lease_lost i), s)
      | Provider_failed f \<Rightarrow>
          (let (settled_ok, s') = settleFailure (ce_ledger E) call (commandFailureMessage f) s in
           (Inl (if settled_ok then Cmd_provider f else Cmd_lease_lost (cq_runId q)), s'))
      | Provider_result v \<Rightarrow>
          (let (a, s1) = ce_hold E s in
           case hold_result True (ce_clock E) (ce_leaseRunId E) a of
             Inl err \<Rightarrow> (Inl err, s1)
           | Inr _ \<Rightarrow>
               (let (r, s2) = lg_complete (ce_ledger E) call v s1 in
                (case r of Inr (Outcome_completed _) \<Rightarrow> Inr v | _ \<Rightarrow> Inl (Cmd_ledger ''complete''), s2))))"

text \<open>\<open>exec\<close>: the answer, the state after it, and whether the provider was called.\<close>

definition exec_command ::
  "'s command_env \<Rightarrow> command_request \<Rightarrow> 's \<Rightarrow> (command_error + tool_value) \<times> 's \<times> bool" where
  "exec_command E q s =
     (let call = command_call (ce_sha256 E) q; (admission, s1) = lg_begin (ce_ledger E) call s in
      case admission of
        Inl _ \<Rightarrow> (Inl (Cmd_ledger ''begin''), s1, False)
      | Inr (Settled_completed v) \<Rightarrow> (Inr (Json (case v of None \<Rightarrow> JNull | Some x \<Rightarrow> x)), s1, False)
      | Inr (Settled_failed m) \<Rightarrow> (Inl (Cmd_failed m), s1, False)
      | Inr In_flight \<Rightarrow> (Inl (Cmd_conflict (cq_runId q) (cq_callId q) ''in_flight''), s1, False)
      | Inr Call_id_reused \<Rightarrow> (Inl (Cmd_conflict (cq_runId q) (cq_callId q) ''call_id_reused''), s1, False)
      | Inr Started \<Rightarrow>
          (let (a, s2) = ce_hold E s1 in
           case hold_result False (ce_clock E) (ce_leaseRunId E) a of
             Inl err \<Rightarrow>
               (let (_, s3) = settleFailure (ce_ledger E) call (commandFailureMessage (hold_object err)) s2 in
                (Inl err, s3, False))
           | Inr _ \<Rightarrow>
               (let (p, s3) = ce_provider E (provider_call_of (ce_environment E) q) s2; (res, s4) = commit_command E q p s3 in (res, s4, True))))"

section \<open>The lease table under other writers\<close>

text \<open>
  A statement under another binding, seen from a lease that has not run out: a hold, with any
  snapshot, a release, or any statement on the runs. Releases under the lease's own binding are not
  among them: the holder's, and the watchdog's delete of a row it scanned before it was renewed.
\<close>

definition foreign :: "computer_lease \<Rightarrow> lease_holder \<Rightarrow> bool" where
  "foreign l h \<longleftrightarrow> (lh_botId h = cl_botId l \<longrightarrow> \<not> binds h l)"

inductive foreign_step :: "computer_lease \<Rightarrow> computer_db \<Rightarrow> computer_db \<Rightarrow> bool" for l where
  hold: "foreign l h \<Longrightarrow> now < cl_expiresAt l \<Longrightarrow>
    foreign_step l db (snd (holdOnce now newId snap db s h ttl))"
| release: "foreign l h \<Longrightarrow> foreign_step l db (snd (releaseComputerLease db s h))"
| on_runs: "run_db_step (cd_runs db) r \<Longrightarrow> foreign_step l db (db\<lparr>cd_runs := r\<rparr>)"

abbreviation foreign_steps :: "computer_lease \<Rightarrow> computer_db \<Rightarrow> computer_db \<Rightarrow> bool" where
  "foreign_steps l \<equiv> (foreign_step l)\<^sup>*\<^sup>*"

interpretation reb: keyed_update cl_botId "rebind x" for x
  by unfold_locales (simp add: rebind_def)

lemma find_filter_kept: "find P xs = Some y \<Longrightarrow> Q y \<Longrightarrow> find P (filter Q xs) = Some y"
  by (induction xs) (auto split: if_splits)

lemma holdOnce_parts:
  "cd_leases (snd (holdOnce now newId snap db s h ttl)) =
     (if run_ok now (cd_runs snap) s h
      then snd (upsert_lease now h (new_lease now newId s h ttl) (cd_leases db)) else cd_leases db)"
  "cd_runs (snd (holdOnce now newId snap db s h ttl)) = cd_runs db"
  "hr_runHeld (fst (holdOnce now newId snap db s h ttl)) = run_ok now (cd_runs snap) s h"
  "hr_held (fst (holdOnce now newId snap db s h ttl)) =
     (if run_ok now (cd_runs snap) s h
      then fst (upsert_lease now h (new_lease now newId s h ttl) (cd_leases db)) else None)"
  "hr_currentExpiresAt (fst (holdOnce now newId snap db s h ttl)) =
     map_option cl_expiresAt (lease_of (cd_leases snap) (lh_botId h))"
  by (auto simp: holdOnce_def Let_def split_beta)

lemma upsert_foreign:
  assumes "lease_of ls (cl_botId l) = Some l" and "foreign l h" and "now < cl_expiresAt l"
  shows "lease_of (snd (upsert_lease now h (new_lease now i s h ttl) ls)) (cl_botId l) = Some l"
    and "lh_botId h = cl_botId l \<Longrightarrow> upsert_lease now h (new_lease now i s h ttl) ls = (None, ls)"
proof -
  show k: "upsert_lease now h (new_lease now i s h ttl) ls = (None, ls)" if "lh_botId h = cl_botId l"
    using that assms by (simp add: upsert_lease_def new_lease_def foreign_def)
  show "lease_of (snd (upsert_lease now h (new_lease now i s h ttl) ls)) (cl_botId l) = Some l"
  proof (cases "lh_botId h = cl_botId l")
    case True
    then show ?thesis using k assms(1) by simp
  next
    case False
    then show ?thesis
      using assms(1) unfolding lease_of_def upsert_lease_def
      by (simp add: new_lease_def reb.find_update find_append_rows split: option.split)
  qed
qed

lemma foreign_step_keeps:
  assumes "foreign_step l db db'" and "lease_of (cd_leases db) (cl_botId l) = Some l"
  shows "lease_of (cd_leases db') (cl_botId l) = Some l"
  using assms
proof cases
  case (hold h now i snap s ttl)
  then show ?thesis using upsert_foreign(1) assms(2) by (simp add: holdOnce_parts)
next
  case (release h s)
  then show ?thesis
    using assms(2) unfolding lease_of_def
    by (auto simp: releaseComputerLease_def Let_def foreign_def intro!: find_filter_kept)
next
  case (on_runs r)
  then show ?thesis using assms(2) by simp
qed

lemma foreign_steps_keep:
  "foreign_steps l db db' \<Longrightarrow> lease_of (cd_leases db) (cl_botId l) = Some l \<Longrightarrow>
   lease_of (cd_leases db') (cl_botId l) = Some l"
  by (induction rule: rtranclp_induct) (auto intro: foreign_step_keeps)

text \<open>A held lease is the bot's row, bound to the holder, and the snapshot had the run under the live fence.\<close>

definition holds_computer :: "int \<Rightarrow> int \<Rightarrow> lease_holder \<Rightarrow> computer_lease \<Rightarrow> computer_db \<Rightarrow> bool" where
  "holds_computer now ttl h l db \<longleftrightarrow> binds h l \<and> cl_botId l = lh_botId h \<and>
     cl_expiresAt l = now + ttl * 1000 \<and> lease_of (cd_leases db) (lh_botId h) = Some l"

lemma upsert_held:
  assumes "upsert_lease now h (new_lease now i s h ttl) ls = (Some l, ls')"
  shows "binds h l" and "cl_botId l = lh_botId h" and "cl_expiresAt l = now + ttl * 1000"
    and "lease_of ls' (lh_botId h) = Some l"
proof -
  have new: "binds h (new_lease now i s h ttl)" "cl_botId (new_lease now i s h ttl) = lh_botId h"
    by (simp_all add: binds_def new_lease_def)
  have *: "binds h l \<and> cl_botId l = lh_botId h \<and> cl_expiresAt l = now + ttl * 1000 \<and>
      lease_of ls' (lh_botId h) = Some l"
  proof (cases "lease_of ls (lh_botId h)")
    case None
    then show ?thesis
      using assms new unfolding lease_of_def upsert_lease_def
      by (auto simp: find_append_rows new_lease_def)
  next
    case (Some m)
    then have "cl_botId m = lh_botId h" unfolding lease_of_def by (simp add: find_Some_iff) (metis)
    then show ?thesis
      using assms new Some unfolding lease_of_def upsert_lease_def
      by (auto simp: reb.find_update binds_def rebind_def new_lease_def split: if_splits)
  qed
  then show "binds h l" "cl_botId l = lh_botId h" "cl_expiresAt l = now + ttl * 1000"
    "lease_of ls' (lh_botId h) = Some l" by simp_all
qed

lemma holdOnce_held:
  assumes "classify_hold (fst (holdOnce now i snap db s h ttl)) = Some (Lease_held l)"
  shows "run_ok now (cd_runs snap) s h \<and> holds_computer now ttl h l (snd (holdOnce now i snap db s h ttl))"
proof -
  have h: "hr_held (fst (holdOnce now i snap db s h ttl)) = Some l"
    using assms by (auto simp: classify_hold_def split: option.splits if_splits)
  then have ok: "run_ok now (cd_runs snap) s h" by (auto simp: holdOnce_parts split: if_splits)
  then obtain ls' where "upsert_lease now h (new_lease now i s h ttl) (cd_leases db) = (Some l, ls')"
    using h by (metis holdOnce_parts(4) prod.collapse)
  then show ?thesis using upsert_held ok by (simp add: holds_computer_def holdOnce_parts)
qed

text \<open>A hold whose snapshot has no live run answers that, and writes nothing.\<close>

lemma holdOnce_lost:
  "\<not> run_ok now (cd_runs snap) s h \<Longrightarrow>
   classify_hold (fst (holdOnce now i snap db s h ttl)) = Some Lease_run_lost \<and>
   snd (holdOnce now i snap db s h ttl) = db"
  by (simp add: classify_hold_def holdOnce_parts computer_db.equality)

lemma hold_run_lost:
  "\<not> run_ok now (cd_runs db) s h \<Longrightarrow>
   holdComputerLease now i w db s h ttl = (Inr Lease_run_lost, w 0 db)"
  using holdOnce_lost [of now db s h i "w 0 db" ttl]
  by (simp add: holdComputerLease_def split_beta)

lemma hold_held:
  assumes "holdComputerLease now i w db s h ttl = (Inr (Lease_held l), db')"
  shows "run_ok now (cd_runs db) s h \<and> holds_computer now ttl h l db'"
proof -
  have "run_ok now (cd_runs db) s h" using assms hold_run_lost [of now db s h i w ttl] by fastforce
  moreover have "holds_computer now ttl h l db'"
    using assms holdOnce_held
    by (auto simp: holdComputerLease_def Let_def split_beta split: option.splits)
  ultimately show ?thesis by blast
qed

lemma hold_busy:
  assumes "lease_of (cd_leases db) (cl_botId l) = Some l" and "foreign l h" and "lh_botId h = cl_botId l"
    and "now < cl_expiresAt l" and "foreign_steps l db (w 0 db)" and "run_ok now (cd_runs db) s h"
  shows "holdComputerLease now i w db s h ttl = (Inr (Lease_busy (cl_expiresAt l)), w 0 db)"
proof -
  have "upsert_lease now h (new_lease now i s h ttl) (cd_leases (w 0 db)) = (None, cd_leases (w 0 db))"
    using upsert_foreign(2) foreign_steps_keep assms by blast
  then have "snd (holdOnce now i db (w 0 db) s h ttl) = w 0 db"
    and "classify_hold (fst (holdOnce now i db (w 0 db) s h ttl)) = Some (Lease_busy (cl_expiresAt l))"
    using assms by (simp_all add: classify_hold_def holdOnce_parts computer_db.equality)
  then show ?thesis by (simp add: holdComputerLease_def split_beta)
qed

lemma run_ok_stale:
  assumes "db_others db db'" and "wf_run_tables db" and "find_run db (lh_runId h) = Some r"
    and "lh_fence h < rw_leaseFence r"
  shows "\<not> run_ok now db' s h"
  using stale_lease [OF assms(1-3), of "\<lparr>lease_owner = lh_owner h, lease_fence = lh_fence h\<rparr>"] assms(4)
  by (auto simp: run_ok_def list_ex_iff)

section \<open>The runner over a ledger\<close>

lemma commandFailureMessage_nonempty: "commandFailureMessage f \<noteq> []"
  by (auto simp: commandFailureMessage_def message_or_default_def Let_def trim_def split: option.split)

lemma held_before: "hold_result b clock i a = Inr () \<longleftrightarrow> (\<exists>l. a = Inr (Lease_held l))"
  by (auto simp: hold_result_def split: sum.splits lease_acquisition.splits if_splits)

context tool_ledger
begin

text \<open>The lease store and the provider change the state only as other workers may.\<close>

definition fair_command :: "'s command_env \<Rightarrow> bool" where
  "fair_command E \<longleftrightarrow> ce_ledger E = lg \<and> (\<forall>s. others s (snd (ce_hold E s))) \<and>
     (\<forall>p s. others s (snd (ce_provider E p s)))"

lemma settleFailure_step: "others s (snd (settleFailure lg c m s))"
  using fail_step by (simp add: settleFailure_def split_beta)

lemma commit_step:
  assumes "fair_command E"
  shows "others s (snd (commit_command E q p s))"
proof -
  have "others s (snd (lg_complete lg c v (snd (ce_hold E s))))" for c v
    using assms others_trans complete_step unfolding fair_command_def by blast
  then show ?thesis
    using assms settleFailure_step others_refl unfolding fair_command_def
    by (auto simp: commit_command_def Let_def split_beta split: provider_exit.split sum.split)
qed

lemma command_ran:
  assumes "exec_command E q s = (res, t, True)" and "fair_command E"
  obtains s1 s2 where "fst (lg_begin lg (command_call (ce_sha256 E) q) s) = Inr Started"
    and "s1 = snd (lg_begin lg (command_call (ce_sha256 E) q) s)" and "\<exists>l. fst (ce_hold E s1) = Inr (Lease_held l)"
    and "s2 = snd (ce_provider E (provider_call_of (ce_environment E) q) (snd (ce_hold E s1)))" and "others s1 s2"
    and "(res, t) = commit_command E q (fst (ce_provider E (provider_call_of (ce_environment E) q) (snd (ce_hold E s1)))) s2"
proof -
  let ?s1 = "snd (lg_begin lg (command_call (ce_sha256 E) q) s)"
  let ?p = "ce_provider E (provider_call_of (ce_environment E) q) (snd (ce_hold E ?s1))"
  have lg: "ce_ledger E = lg" using assms(2) by (simp add: fair_command_def)
  have st: "fst (lg_begin lg (command_call (ce_sha256 E) q) s) = Inr Started"
    using assms(1) lg by (auto simp: exec_command_def Let_def split_beta split: sum.splits tool_call_admission.splits)
  then have h: "hold_result False (ce_clock E) (ce_leaseRunId E) (fst (ce_hold E ?s1)) = Inr ()"
    using assms(1) lg by (auto simp: exec_command_def Let_def split_beta split: sum.splits)
  then have c: "(res, t) = commit_command E q (fst ?p) (snd ?p)"
    using assms(1) lg st by (auto simp: exec_command_def Let_def split_beta prod_eq_iff)
  have f: "others ?s1 (snd ?p)" using assms(2) others_trans unfolding fair_command_def by blast
  have "\<exists>l. fst (ce_hold E ?s1) = Inr (Lease_held l)" using h held_before by blast
  from that [OF st refl this refl f c] show thesis .
qed

lemma provider_called_once:
  assumes "ok s" and "exec_command E q s = (res, t, True)" and "fair_command E" and "ce_ledger E' = lg"
    and "others t u" and "ce_sha256 E' = ce_sha256 E" and "cq_runId q' = cq_runId q" and "cq_callId q' = cq_callId q"
  shows "\<not> snd (snd (exec_command E' q' u))"
proof -
  let ?c = "command_call (ce_sha256 E) q" and ?d = "command_call (ce_sha256 E) q'"
  obtain s1 s2 p where b: "fst (lg_begin lg ?c s) = Inr Started" "s1 = snd (lg_begin lg ?c s)" "others s1 s2"
      "(res, t) = commit_command E q p s2"
    using command_ran [OF assms(2,3)] by metis
  have "others s2 t" using commit_step [OF assms(3)] b(4) by (metis snd_conv)
  then have "others (snd (lg_begin lg ?c s)) u" using b(2,3) assms(5) others_trans by blast
  moreover have "same_call ?c ?d" using assms(7,8) by (simp add: same_call_def command_call_def)
  ultimately have "fst (lg_begin lg ?d u) \<noteq> Inr Started" using started_once assms(1) b(1) by blast
  then show ?thesis
    using assms(4,6)
    by (auto simp: exec_command_def fair_command_def Let_def split_beta split: sum.splits tool_call_admission.splits)
qed

lemma commit_Inr:
  assumes "commit_command E q p s = (Inr v, t)" and "fair_command E"
  obtains l out where "p = Provider_result v" and "fst (ce_hold E s) = Inr (Lease_held l)"
    and "(Inr (Outcome_completed out), t) = lg_complete lg (command_call (ce_sha256 E) q) v (snd (ce_hold E s))"
proof -
  have lg: "ce_ledger E = lg" using assms(2) by (simp add: fair_command_def)
  obtain x where p: "p = Provider_result x"
    using assms(1) by (cases p) (auto simp: commit_command_def Let_def split_beta split: if_splits)
  have h: "hold_result True (ce_clock E) (ce_leaseRunId E) (fst (ce_hold E s)) = Inr ()"
    using assms(1) p by (auto simp: commit_command_def Let_def split_beta split: sum.splits)
  then obtain out where "x = v" "lg_complete lg (command_call (ce_sha256 E) q) v (snd (ce_hold E s)) =
      (Inr (Outcome_completed out), t)"
    using assms(1) p lg
    by (auto simp: commit_command_def Let_def split_beta prod_eq_iff split: sum.splits tool_outcome.splits)
  then show thesis using that p h held_before by metis
qed

end

text \<open>A ledger that acknowledges a completion with the value it was given.\<close>

locale recording_ledger = tool_ledger +
  assumes complete_value: "fst (lg_complete lg c v s) = Inr (Outcome_completed w) \<Longrightarrow> w = v"
begin

text \<open>
  A result went through both holds and was recorded; a later attempt answers with the JSON form
  of it and does not call the provider.
\<close>

lemma command_replayed:
  assumes "ok s" and "exec_command E q s = (Inr v, t, True)" and "fair_command E" and "ce_ledger E' = lg"
    and "others t u" and "ce_sha256 E' = ce_sha256 E"
  obtains x u' where "v = Json x" and "exec_command E' q u = (Inr (Json (json_of x)), u', False)"
proof -
  let ?c = "command_call (ce_sha256 E) q"
  obtain s1 s2 p where b: "fst (lg_begin lg ?c s) = Inr Started" "s1 = snd (lg_begin lg ?c s)" "others s1 s2"
      "(Inr v, t) = commit_command E q p s2"
    using command_ran [OF assms(2,3)] by metis
  obtain w where "(Inr (Outcome_completed w), t) = lg_complete lg ?c v (snd (ce_hold E s2))"
    using commit_Inr [OF b(4) [symmetric] assms(3)] by metis
  then have w: "fst (lg_complete lg ?c v (snd (ce_hold E s2))) = Inr (Outcome_completed v)"
      "t = snd (lg_complete lg ?c v (snd (ce_hold E s2)))"
    using complete_value by (metis fst_conv, metis snd_conv)
  have h: "others (snd (lg_begin lg ?c s)) (snd (ce_hold E s2))"
    using assms(3) b(2,3) others_trans unfolding fair_command_def by blast
  then obtain a where a: "fst (lg_begin lg ?c t) = Inr a" "replays (Outcome_completed v) a"
    using completed_replays [OF assms(1) b(1) h w(1)] w(2) by blast
  then obtain x where x: "v = Json x" "a = Settled_completed (Some (json_of x))" by (cases v) auto
  have "others s t" using begin_step h complete_step w(2) others_trans by metis
  then have "fst (lg_begin lg ?c u) = Inr a"
    using settled_final others_ok assms(1,5) a(1) x(2) by metis
  then have "exec_command E' q u = (Inr (Json (json_of x)), snd (lg_begin lg ?c u), False)"
    using assms(4,6) x(2) by (simp add: exec_command_def fair_command_def Let_def split_beta)
  then show thesis using that x(1) by blast
qed

end

section \<open>The ledger beside the leases\<close>

definition on_run_tables :: "(run_tables \<Rightarrow> 'a \<times> run_tables) \<Rightarrow> computer_db \<Rightarrow> 'a \<times> computer_db" where
  "on_run_tables f db = (let (r, t) = f (cd_runs db) in (r, db\<lparr>cd_runs := t\<rparr>))"

definition cd_ledger ::
  "(js \<Rightarrow> js) \<Rightarrow> (js \<Rightarrow> js \<Rightarrow> bool) \<Rightarrow> string \<Rightarrow> computer_db call_ledger" where
  "cd_ledger redact jsonb_eq spaceId =
     (let lg = db_ledger redact jsonb_eq spaceId in
      \<lparr> lg_begin = (\<lambda>call. on_run_tables (lg_begin lg call)),
        lg_complete = (\<lambda>call v. on_run_tables (lg_complete lg call v)),
        lg_fail = (\<lambda>call m. on_run_tables (lg_fail lg call m)) \<rparr>)"

text \<open>Other workers change the runs by their statements, and the lease rows in any way.\<close>

definition cd_others :: "computer_db \<Rightarrow> computer_db \<Rightarrow> bool" where
  "cd_others s t \<longleftrightarrow> db_others (cd_runs s) (cd_runs t)"

definition wf_computer_db :: "computer_db \<Rightarrow> bool" where
  "wf_computer_db s \<longleftrightarrow> wf_run_tables (cd_runs s)"

lemma cd_ledger_simps:
  "fst (lg_begin (cd_ledger redact je s) c db) = fst (lg_begin (db_ledger redact je s) c (cd_runs db))"
  "fst (lg_complete (cd_ledger redact je s) c v db) = fst (lg_complete (db_ledger redact je s) c v (cd_runs db))"
  "fst (lg_fail (cd_ledger redact je s) c m db) = fst (lg_fail (db_ledger redact je s) c m (cd_runs db))"
  "cd_runs (snd (lg_begin (cd_ledger redact je s) c db)) = snd (lg_begin (db_ledger redact je s) c (cd_runs db))"
  "cd_runs (snd (lg_complete (cd_ledger redact je s) c v db)) = snd (lg_complete (db_ledger redact je s) c v (cd_runs db))"
  "cd_runs (snd (lg_fail (cd_ledger redact je s) c m db)) = snd (lg_fail (db_ledger redact je s) c m (cd_runs db))"
  by (simp_all add: cd_ledger_def on_run_tables_def Let_def split_beta)

lemma db_ledger_value:
  "fst (lg_complete (db_ledger redact je s) c v db) = Inr (Outcome_completed w) \<Longrightarrow> w = v"
  by (cases v) (auto simp: db_ledger_def ledger_complete_def failClaim_def Let_def result_simps)

interpretation cdl: recording_ledger "cd_ledger redact (reflexive_eq R) s" wf_computer_db cd_others for redact R s
proof unfold_locales
  fix s1 s2 s3 :: computer_db and c d :: tool_call and v m out a r w
  let ?lg = "cd_ledger redact (reflexive_eq R) s"
  note defs = cd_others_def wf_computer_db_def cd_ledger_simps
  show "cd_others s1 s1" by (simp add: defs)
  show "cd_others s1 s2 \<Longrightarrow> cd_others s2 s3 \<Longrightarrow> cd_others s1 s3" by (simp add: defs)
  show "cd_others s1 s2 \<Longrightarrow> wf_computer_db s1 \<Longrightarrow> wf_computer_db s2" by (simp add: defs steps_wf)
  show "cd_others s1 (snd (lg_begin ?lg c s1))" by (simp add: defs dbl.begin_step)
  show "cd_others s1 (snd (lg_complete ?lg c v s1))" by (simp add: defs dbl.complete_step)
  show "cd_others s1 (snd (lg_fail ?lg c m s1))" by (simp add: defs dbl.fail_step)
  show "fst (lg_begin ?lg d s2) \<noteq> Inr Started"
    if "wf_computer_db s1" "fst (lg_begin ?lg c s1) = Inr Started"
      "cd_others (snd (lg_begin ?lg c s1)) s2" "same_call c d"
    using that dbl.started_once unfolding defs by blast
  show "\<exists>a. fst (lg_begin ?lg c (snd (lg_complete ?lg c v s2))) = Inr a \<and> replays out a"
    if "wf_computer_db s1" "fst (lg_begin ?lg c s1) = Inr Started"
      "cd_others (snd (lg_begin ?lg c s1)) s2" "fst (lg_complete ?lg c v s2) = Inr out"
    using that dbl.completed_replays unfolding defs by blast
  show "\<exists>a. fst (lg_begin ?lg c (snd (lg_fail ?lg c m s2))) = Inr a \<and> replays out a"
    if "wf_computer_db s1" "fst (lg_begin ?lg c s1) = Inr Started"
      "cd_others (snd (lg_begin ?lg c s1)) s2" "m \<noteq> []" "fst (lg_fail ?lg c m s2) = Inr out"
    using that dbl.failed_replays unfolding defs by blast
  show "fst (lg_begin ?lg c s2) = Inr a"
    if "wf_computer_db s1" "fst (lg_begin ?lg c s1) = Inr a" "a = Settled_completed r \<or> a = Settled_failed m"
      "cd_others s1 s2"
    using that dbl.settled_final unfolding defs by blast
  show "fst (lg_complete ?lg c v s1) = Inr (Outcome_completed w) \<Longrightarrow> w = v"
    unfolding defs by (rule db_ledger_value)
qed

end
