(* ===== verification/Computer_Properties.thy ===== *)
theory Computer_Properties
  imports Computer_Commands
begin

text \<open>
  The correctness properties of the commands a run sends to its computer: who holds the machine,
  that a command reaches the provider once, and that a run which lost its lease records nothing.
\<close>

section \<open>Holding the computer\<close>

lemma release_removes:
  assumes "binds h l" and "cl_botId l = lh_botId h"
  shows "lease_of (cd_leases (snd (releaseComputerLease db (cl_spaceId l) h))) (lh_botId h) \<noteq> Some l"
  using assms by (auto simp: lease_of_def releaseComputerLease_def Let_def find_Some_iff dest!: nth_mem)

text \<open>
  C8: The computer lease excludes other runs. A hold that succeeds saw the run executing under the
  holder's live lease, and the bot's one row is bound to the holder until the time to live runs
  out. Until then, whatever is written under other bindings, with whatever snapshots the statements
  read (holds, releases, every statement on the runs), the row stays as it is; and a hold under
  another binding is answered at once: busy, with the expiry of this lease, when its own run is
  live, and lost otherwise. It never ends in the unclassified error. A release under the lease's own
  binding is not fended off: it removes the row whatever its expiry. That release is the holder's
  and its settlement's, and it is also the watchdog's, which deletes by the binding of a row it
  scanned as expired even when the holder renewed it meanwhile.
\<close>

theorem computer_lease_excludes:
  assumes "holdComputerLease t i w db s h ttl = (Inr (Lease_held l), db1)"
    and "(foreign_step l)\<^sup>*\<^sup>* db1 db2"
    and "lh_botId h' = lh_botId h" and "\<not> binds h' l" and "t' < t + ttl * 1000"
    and "(foreign_step l)\<^sup>*\<^sup>* db2 (w' 0 db2)"
  shows "run_ok t (cd_runs db) s h \<and> binds h l \<and> cl_expiresAt l = t + ttl * 1000 \<and>
    lease_of (cd_leases db2) (lh_botId h) = Some l \<and>
    holdComputerLease t' i' w' db2 s' h' ttl' =
      (Inr (if run_ok t' (cd_runs db2) s' h' then Lease_busy (cl_expiresAt l) else Lease_run_lost), w' 0 db2) \<and>
    lease_of (cd_leases (snd (releaseComputerLease db2 (cl_spaceId l) h))) (lh_botId h) \<noteq> Some l"
proof -
  have h: "run_ok t (cd_runs db) s h" "holds_computer t ttl h l db1" using hold_held [OF assms(1)] by auto
  then have l: "binds h l" "cl_botId l = lh_botId h" "cl_expiresAt l = t + ttl * 1000"
    and l1: "lease_of (cd_leases db1) (cl_botId l) = Some l" by (auto simp: holds_computer_def)
  have l2: "lease_of (cd_leases db2) (cl_botId l) = Some l" using foreign_steps_keep [OF assms(2) l1] .
  have "holdComputerLease t' i' w' db2 s' h' ttl' =
      (Inr (if run_ok t' (cd_runs db2) s' h' then Lease_busy (cl_expiresAt l) else Lease_run_lost), w' 0 db2)"
    using hold_run_lost hold_busy [where w = w', OF l2 _ _ _ assms(6)] assms(3-5) l by (simp add: foreign_def)
  with h l l2 release_removes [OF l(1,2)] show ?thesis by simp
qed

definition live_run :: "string \<Rightarrow> run_row" where
  "live_run i = (queued_row i ''s'' ''b'' ''t'')\<lparr>ls_status := Running, ls_leaseOwner := Some ''w'',
     rw_leaseFence := 1, rw_leaseExpiresAt := Some 120000\<rparr>"

definition live_holder :: "string \<Rightarrow> lease_holder" where
  "live_holder i = \<lparr>lh_botId = ''b'', lh_runId = i, lh_owner = ''w'', lh_fence = 1\<rparr>"

definition three_runs :: computer_db where
  "three_runs = \<lparr>cd_runs = \<lparr>runs = map live_run [''1'', ''2'', ''3''], attempts = [], effects = []\<rparr>, cd_leases = []\<rparr>"

definition quiet :: "nat \<Rightarrow> computer_db \<Rightarrow> computer_db" where
  "quiet k db = db"

definition held_by :: "string \<Rightarrow> computer_db \<Rightarrow> computer_db" where
  "held_by i db = snd (holdComputerLease 0 ''lease'' quiet db ''s'' (live_holder i) 120)"

theorem computer_lease_excludes_witness:
  "fst (holdComputerLease 60000 ''x'' quiet (held_by ''1'' three_runs) ''s'' (live_holder ''2'') 120) =
     Inr (Lease_busy 120000)"
proof -
  let ?l = "new_lease 0 ''lease'' ''s'' (live_holder ''1'') 120"
  have h: "holdComputerLease 0 ''lease'' quiet three_runs ''s'' (live_holder ''1'') 120 =
      (Inr (Lease_held ?l), held_by ''1'' three_runs)"
    by code_simp
  have e: "lh_botId (live_holder ''2'') = lh_botId (live_holder ''1'')" "\<not> binds (live_holder ''2'') ?l"
    "(60000 :: int) < 0 + 120 * 1000" "run_ok 60000 (cd_runs (held_by ''1'' three_runs)) ''s'' (live_holder ''2'')"
    "cl_expiresAt ?l = 120000"
    by code_simp+
  have "(foreign_step ?l)\<^sup>*\<^sup>* (held_by ''1'' three_runs) (quiet 0 (held_by ''1'' three_runs))"
    by (simp add: quiet_def)
  from computer_lease_excludes [where w' = quiet, OF h rtranclp.rtrancl_refl e(1-3) this, of "''x''" "''s''" 120] e(4,5)
  show ?thesis by simp
qed

text \<open>
  The second attempt of a hold can miss as well: another run takes the machine inside the first
  statement, its settlement releases it between the two, and a third run takes it inside the
  second. The hold then ends in the error, although its own run is live.
\<close>

definition busy_writers :: "nat \<Rightarrow> computer_db \<Rightarrow> computer_db" where
  "busy_writers k db =
     (if k = 0 then held_by ''2'' db
      else if k = 1 then snd (releaseComputerLease db ''s'' (live_holder ''2''))
      else held_by ''3'' db)"

lemma hold_unclassified:
  "fst (holdComputerLease 0 ''x'' busy_writers three_runs ''s'' (live_holder ''1'') 120) = Inl () \<and>
   run_ok 0 (cd_runs three_runs) ''s'' (live_holder ''1'')"
  by code_simp

section \<open>Running a command\<close>

text \<open>
  C9: A command reaches the provider at most once. When a command was sent to the provider, its key
  had been claimed in the ledger and the machine was held. Whatever the provider, the lease store
  and other workers do to the runs, no later request under the same run and call id, from this
  worker or another, sends a command again; and a command that came back with a result is answered
  with the recorded form of that result ever after.
\<close>

theorem command_once:
  assumes "wf_run_tables (cd_runs db)" and "ce_ledger E = cd_ledger redact (reflexive_eq R) s"
    and "\<forall>x. run_db_step\<^sup>*\<^sup>* (cd_runs x) (cd_runs (snd (ce_hold E x)))"
    and "\<forall>p x. run_db_step\<^sup>*\<^sup>* (cd_runs x) (cd_runs (snd (ce_provider E p x)))"
    and "exec_command E q db = (res, db1, True)"
    and "run_db_step\<^sup>*\<^sup>* (cd_runs db1) (cd_runs db2)"
    and "ce_ledger E' = ce_ledger E" and "ce_sha256 E' = ce_sha256 E"
  shows "fst (claim_effect redact (cd_runs db) s (command_call (ce_sha256 E) q)) \<and>
    (\<exists>l. fst (ce_hold E (snd (lg_begin (ce_ledger E) (command_call (ce_sha256 E) q) db))) = Inr (Lease_held l)) \<and>
    (\<forall>q'. cq_runId q' = cq_runId q \<and> cq_callId q' = cq_callId q \<longrightarrow> \<not> snd (snd (exec_command E' q' db2))) \<and>
    (\<forall>v. res = Inr v \<longrightarrow>
       (\<exists>x. v = Json x \<and> fst (exec_command E' q db2) = Inr (Json (json_of x))))"
proof -
  let ?lg = "cd_ledger redact (reflexive_eq R) s" and ?c = "command_call (ce_sha256 E) q"
  have wf: "wf_computer_db db" using assms(1) by (simp add: wf_computer_db_def)
  have fair: "cdl.fair_command redact R s E"
    using assms(2-4) by (simp add: cdl.fair_command_def cd_others_def)
  have o: "cd_others db1 db2" using assms(6) by (simp add: cd_others_def)
  have st: "fst (lg_begin ?lg ?c db) = Inr Started" "\<exists>l. fst (ce_hold E (snd (lg_begin ?lg ?c db))) = Inr (Lease_held l)"
    using cdl.command_ran [OF assms(5) fair] by metis+
  have "fst (claim_effect redact (cd_runs db) s ?c)"
    using st(1) by (simp add: cd_ledger_simps db_ledger_def ledger_begin_Started)
  moreover have "\<not> snd (snd (exec_command E' q' db2))" if "cq_runId q' = cq_runId q" "cq_callId q' = cq_callId q" for q'
    using cdl.provider_called_once [OF wf assms(5) fair _ o assms(8) that] assms(2,7) by simp
  moreover have "\<exists>x. v = Json x \<and> fst (exec_command E' q db2) = Inr (Json (json_of x))" if "res = Inr v" for v
    using cdl.command_replayed [OF wf assms(5) [unfolded that] fair _ o assms(8)] assms(2,7) by (metis fst_conv)
  ultimately show ?thesis using st(2) assms(2) by auto
qed

text \<open>
  C38: A run that lost its lease neither sends nor records a command. Once the run row carries a
  fence above the holder's, whatever follows on the runs, a command is not sent to the provider;
  and a result the provider has already answered with is refused as a lost lease, and the tables
  are left as the other writers left them.
\<close>

theorem stale_command_refused:
  assumes "wf_run_tables (cd_runs db)" and "find_run (cd_runs db) (lh_runId h) = Some r"
    and "lh_fence h < rw_leaseFence r" and "run_db_step\<^sup>*\<^sup>* (cd_runs db) (cd_runs db1)"
    and "ce_ledger E = cd_ledger redact (reflexive_eq R) s"
    and "ce_hold E = (\<lambda>x. holdComputerLease now i w x s h ttl)"
  shows "\<not> snd (snd (exec_command E q db1)) \<and>
    commit_command E q (Provider_result v) db1 = (Inl (Cmd_lease_lost (ce_leaseRunId E)), w 0 db1)"
proof -
  let ?c = "command_call (ce_sha256 E) q"
  have lost: "ce_hold E x = (Inr Lease_run_lost, w 0 x)" if "run_db_step\<^sup>*\<^sup>* (cd_runs db1) (cd_runs x)" for x
    using run_ok_stale [OF rtranclp_trans [OF assms(4) that] assms(1-3)] hold_run_lost assms(6) by simp
  have "cd_others db1 (snd (lg_begin (ce_ledger E) ?c db1))" unfolding assms(5) by (rule cdl.begin_step)
  then have "ce_hold E (snd (lg_begin (ce_ledger E) ?c db1)) =
      (Inr Lease_run_lost, w 0 (snd (lg_begin (ce_ledger E) ?c db1)))"
    using lost by (simp add: cd_others_def)
  then have "\<not> snd (snd (exec_command E q db1))"
    by (auto simp: exec_command_def Let_def split_beta hold_result_def split: sum.split tool_call_admission.split)
  moreover have "commit_command E q (Provider_result v) db1 = (Inl (Cmd_lease_lost (ce_leaseRunId E)), w 0 db1)"
    using lost [of db1] by (simp add: commit_command_def hold_result_def)
  ultimately show ?thesis by blast
qed

definition demo_runner :: "string \<Rightarrow> computer_db command_env" where
  "demo_runner i = \<lparr>ce_ledger = cd_ledger id (reflexive_eq (=)) ''s'',
     ce_hold = (\<lambda>x. holdComputerLease 0 ''lease'' quiet x ''s'' (live_holder i) 120), ce_environment = None,
     ce_provider = (\<lambda>p x. (Provider_result (Json (JStr ''ok'')), x)), ce_clock = 0, ce_leaseRunId = i,
     ce_sha256 = id\<rparr>"

definition demo_command :: command_request where
  "demo_command = \<lparr>cq_computer = \<lparr>cf_computerId = ''m'', cf_botId = ''b'', cf_provider = None\<rparr>, cq_runId = ''1'',
     cq_callId = ''c'', cq_tool = ''shell'', cq_command = ''ls'', cq_timeoutMs = 1000\<rparr>"

lemma three_runs_wf: "wf_run_tables (cd_runs three_runs)"
  by (simp add: wf_run_tables_def three_runs_def live_run_def queued_row_def)

lemma demo_hold_runs: "cd_runs (snd (ce_hold (demo_runner i) x)) = cd_runs x"
  by (simp add: demo_runner_def holdComputerLease_def quiet_def holdOnce_parts Let_def split_beta split: option.split)

lemma demo_sent: "fst (exec_command (demo_runner ''1'') demo_command three_runs) = Inr (Json (JStr ''ok''))"
  "snd (snd (exec_command (demo_runner ''1'') demo_command three_runs))"
  by code_simp+

theorem command_once_witness:
  "snd (snd (exec_command (demo_runner ''1'') demo_command three_runs)) \<and>
   fst (exec_command (demo_runner ''1'') demo_command
     (fst (snd (exec_command (demo_runner ''1'') demo_command three_runs)))) = Inr (Json (JStr ''ok''))"
proof -
  let ?e = "exec_command (demo_runner ''1'') demo_command three_runs"
  have e: "?e = (Inr (Json (JStr ''ok'')), fst (snd ?e), True)" using demo_sent by (intro prod_eqI) auto
  have a: "ce_ledger (demo_runner ''1'') = cd_ledger id (reflexive_eq (=)) ''s''"
    "\<forall>x. run_db_step\<^sup>*\<^sup>* (cd_runs x) (cd_runs (snd (ce_hold (demo_runner ''1'') x)))"
    "\<forall>p x. run_db_step\<^sup>*\<^sup>* (cd_runs x) (cd_runs (snd (ce_provider (demo_runner ''1'') p x)))"
    using demo_hold_runs by (simp_all add: demo_runner_def)
  show ?thesis
    using command_once [OF three_runs_wf a e rtranclp.rtrancl_refl refl refl] demo_sent(2) by auto
qed

definition stale_holder :: lease_holder where
  "stale_holder = (live_holder ''1'')\<lparr>lh_fence := 0\<rparr>"

theorem stale_command_refused_witness:
  "let E = (demo_runner ''1'')\<lparr>ce_hold := \<lambda>x. holdComputerLease 0 ''lease'' quiet x ''s'' stale_holder 120\<rparr> in
   \<not> snd (snd (exec_command E demo_command three_runs))"
proof -
  have f: "find_run (cd_runs three_runs) (lh_runId stale_holder) = Some (live_run ''1'')"
    "lh_fence stale_holder < rw_leaseFence (live_run ''1'')"
    by (simp_all add: find_run_def three_runs_def stale_holder_def live_holder_def live_run_def queued_row_def)
  show ?thesis
    unfolding Let_def
    by (rule stale_command_refused [THEN conjunct1, OF three_runs_wf f rtranclp.rtrancl_refl])
      (simp_all add: demo_runner_def)
qed

end
