(* ===== verification/Pi_Events.thy ===== *)
theory Pi_Events
  imports Run_Events
begin

text \<open>
  The agent runtime's boundary (\<open>packages/adapters/src/pi-events.ts\<close> and
  \<open>pi-run-source.ts\<close>): the strict parser of the runtime's events, the translator that turns
  them into run events, and the session in which the event pump and the command loop share the
  translator and the outgoing mailbox. A step of the session is what one fiber does between two
  points at which it waits.
\<close>

section \<open>The vocabulary\<close>

datatype pi_stop_reason =
  Sr_pending | Sr_stop | Sr_length | Sr_toolUse | Sr_error | Sr_aborted | Sr_deferred

definition PI_STOP_REASONS :: "(string \<times> pi_stop_reason) list" where
  "PI_STOP_REASONS =
     [(''pending'', Sr_pending), (''stop'', Sr_stop), (''length'', Sr_length), (''toolUse'', Sr_toolUse),
      (''error'', Sr_error), (''aborted'', Sr_aborted), (''deferred'', Sr_deferred)]"

definition PI_ASSISTANT_MESSAGE_EVENT_TYPES :: "string list" where
  "PI_ASSISTANT_MESSAGE_EVENT_TYPES =
     [''start'', ''text_start'', ''text_delta'', ''text_end'', ''thinking_start'', ''thinking_delta'',
      ''thinking_end'', ''toolcall_start'', ''toolcall_delta'', ''toolcall_end'', ''done'', ''error'']"

record pi_event_mapping =
  pm_emits :: "string list"
  pm_terminal :: bool

definition PI_EVENT_MAPPING :: "(string \<times> pi_event_mapping) list" where
  "PI_EVENT_MAPPING =
     [(''agent_start'', \<lparr>pm_emits = [''run.started''], pm_terminal = False\<rparr>),
      (''agent_end'', \<lparr>pm_emits = [''run.completed'', ''run.failed'', ''run.cancelled''], pm_terminal = True\<rparr>),
      (''turn_start'', \<lparr>pm_emits = [], pm_terminal = False\<rparr>),
      (''turn_end'', \<lparr>pm_emits = [], pm_terminal = False\<rparr>),
      (''message_start'', \<lparr>pm_emits = [], pm_terminal = False\<rparr>),
      (''message_update'', \<lparr>pm_emits = [''token.delta''], pm_terminal = False\<rparr>),
      (''message_end'', \<lparr>pm_emits = [], pm_terminal = False\<rparr>),
      (''tool_execution_start'', \<lparr>pm_emits = [''tool.requested''], pm_terminal = False\<rparr>),
      (''tool_execution_update'', \<lparr>pm_emits = [], pm_terminal = False\<rparr>),
      (''tool_execution_end'', \<lparr>pm_emits = [''tool.completed'', ''tool.failed''], pm_terminal = False\<rparr>)]"

definition PI_EVENT_FIELDS :: "(string \<times> string list) list" where
  "PI_EVENT_FIELDS =
     [(''agent_start'', [''type'']), (''agent_end'', [''type'', ''messages'']), (''turn_start'', [''type'']),
      (''turn_end'', [''type'', ''message'', ''toolResults'']), (''message_start'', [''type'', ''message'']),
      (''message_update'', [''type'', ''message'', ''assistantMessageEvent'']),
      (''message_end'', [''type'', ''message'']),
      (''tool_execution_start'', [''type'', ''toolCallId'', ''toolName'', ''args'']),
      (''tool_execution_update'', [''type'', ''toolCallId'', ''toolName'', ''args'', ''partialResult'']),
      (''tool_execution_end'', [''type'', ''toolCallId'', ''toolName'', ''result'', ''isError''])]"

datatype pi_event_error =
    UnknownPiEventType js
  | UnknownPiEventField string string
  | UnknownPiMessageEventType js
  | MalformedPiEvent string string js
  | PiEventSequenceError string

type_synonym 'a pi_field = "pi_event_error + 'a"

record pi_usage_report =
  pu_provider :: "string option"
  pu_model :: "string option"
  pu_inputTokens :: "int option"
  pu_outputTokens :: "int option"

datatype parsed_pi_event =
    Pi_agent_start
  | Pi_agent_end pi_stop_reason "string option"
  | Pi_turn_start
  | Pi_turn_end
  | Pi_message_start string
  | Pi_message_update string string "string option"
  | Pi_message_end string "pi_usage_report option"
  | Pi_tool_start string string js
  | Pi_tool_update string
  | Pi_tool_end string string js bool

fun pi_type :: "parsed_pi_event \<Rightarrow> string" where
  "pi_type Pi_agent_start = ''agent_start''"
| "pi_type (Pi_agent_end _ _) = ''agent_end''"
| "pi_type Pi_turn_start = ''turn_start''"
| "pi_type Pi_turn_end = ''turn_end''"
| "pi_type (Pi_message_start _) = ''message_start''"
| "pi_type (Pi_message_update _ _ _) = ''message_update''"
| "pi_type (Pi_message_end _ _) = ''message_end''"
| "pi_type (Pi_tool_start _ _ _) = ''tool_execution_start''"
| "pi_type (Pi_tool_update _) = ''tool_execution_update''"
| "pi_type (Pi_tool_end _ _ _ _) = ''tool_execution_end''"

section \<open>The parser\<close>

definition pi_malformed :: "string \<Rightarrow> string \<Rightarrow> js \<Rightarrow> 'a pi_field" where
  "pi_malformed eventType reason received = Inl (MalformedPiEvent eventType reason received)"

definition pi_requireString :: "js_record \<Rightarrow> string \<Rightarrow> string \<Rightarrow> string pi_field" where
  "pi_requireString r eventType f =
     (case getf r f of
        JStr s \<Rightarrow> if s = [] then pi_malformed eventType (f @ '' must be a non-empty string'') (JStr s) else Inr s
      | v \<Rightarrow> pi_malformed eventType (f @ '' must be a non-empty string'') v)"

definition pi_requirePresent :: "js_record \<Rightarrow> string \<Rightarrow> string \<Rightarrow> js pi_field" where
  "pi_requirePresent r eventType f =
     (if \<not> hasOwn r f then pi_malformed eventType (f @ '' must be present'') JUndefined else Inr (getf r f))"

definition parseMessageRole :: "js_record \<Rightarrow> string \<Rightarrow> string pi_field" where
  "parseMessageRole r eventType =
     (case getf r ''message'' of
        JObj m \<Rightarrow>
          (case getf m ''role'' of
             JStr s \<Rightarrow> if s = [] then pi_malformed eventType ''message.role must be a non-empty string'' (JStr s) else Inr s
           | v \<Rightarrow> pi_malformed eventType ''message.role must be a non-empty string'' v)
      | v \<Rightarrow> pi_malformed eventType ''message must be an object'' v)"

definition optionalName :: "js \<Rightarrow> string option" where
  "optionalName v = (case v of JStr s \<Rightarrow> if trim s \<noteq> [] then Some s else None | _ \<Rightarrow> None)"

definition tokenCount :: "js \<Rightarrow> int option" where
  "tokenCount v =
     (case v of JNum n \<Rightarrow> if isSafeInteger n \<and> 0 \<le> to_int n then Some (to_int n) else None | _ \<Rightarrow> None)"

definition no_tokens :: "int option \<Rightarrow> bool" where
  "no_tokens n = ((case n of None \<Rightarrow> 0 | Some k \<Rightarrow> k) = 0)"

definition parseMessageUsage :: "js_record \<Rightarrow> pi_usage_report" where
  "parseMessageUsage m =
     (let silent = \<lparr>pu_provider = optionalName (getf m ''provider''), pu_model = optionalName (getf m ''model''),
                    pu_inputTokens = None, pu_outputTokens = None\<rparr> in
      case getf m ''usage'' of
        JObj u \<Rightarrow>
          let input = tokenCount (getf u ''input''); output = tokenCount (getf u ''output'') in
          if no_tokens input \<and> no_tokens output \<and> no_tokens (tokenCount (getf u ''cacheRead'')) \<and>
             no_tokens (tokenCount (getf u ''cacheWrite'')) \<and> no_tokens (tokenCount (getf u ''totalTokens''))
          then silent
          else silent\<lparr>pu_inputTokens := input, pu_outputTokens := output\<rparr>
      | _ \<Rightarrow> silent)"

definition parseMessageEnd :: "js_record \<Rightarrow> parsed_pi_event pi_field" where
  "parseMessageEnd r =
     bindE (parseMessageRole r ''message_end'') (\<lambda>role.
       if role \<noteq> ''assistant'' then Inr (Pi_message_end role None)
       else Inr (Pi_message_end role (Some (parseMessageUsage
              (case getf r ''message'' of JObj m \<Rightarrow> m | _ \<Rightarrow> [])))))"

text \<open>One turn of the loop over the messages of \<open>agent_end\<close>.\<close>

definition note_message :: "pi_stop_reason \<times> string option \<Rightarrow> js \<Rightarrow> pi_stop_reason \<times> string option" where
  "note_message acc v =
     (case v of
        JObj m \<Rightarrow>
          if getf m ''role'' \<noteq> JStr ''assistant'' then acc
          else
            (case getf m ''stopReason'' of
               JStr s \<Rightarrow> (case map_of PI_STOP_REASONS s of Some r \<Rightarrow> r | None \<Rightarrow> fst acc)
             | _ \<Rightarrow> fst acc,
             case getf m ''errorMessage'' of JStr e \<Rightarrow> Some e | _ \<Rightarrow> snd acc)
      | _ \<Rightarrow> acc)"

definition parseAgentEnd :: "js_record \<Rightarrow> parsed_pi_event pi_field" where
  "parseAgentEnd r =
     (case getf r ''messages'' of
        JArr ms \<Rightarrow> let (stopReason, errorMessage) = foldl note_message (Sr_stop, None) ms in
                   Inr (Pi_agent_end stopReason errorMessage)
      | v \<Rightarrow> pi_malformed ''agent_end'' ''messages must be an array'' v)"

definition parseMessageUpdate :: "js_record \<Rightarrow> parsed_pi_event pi_field" where
  "parseMessageUpdate r =
     bindE (parseMessageRole r ''message_update'') (\<lambda>role.
       case getf r ''assistantMessageEvent'' of
         JObj u \<Rightarrow>
           (case getf u ''type'' of
              JStr t \<Rightarrow>
                if t \<notin> set PI_ASSISTANT_MESSAGE_EVENT_TYPES then Inl (UnknownPiMessageEventType (JStr t))
                else if t = ''text_delta''
                  then (case getf u ''delta'' of
                          JStr d \<Rightarrow> Inr (Pi_message_update role t (Some d))
                        | v \<Rightarrow> pi_malformed ''message_update''
                                 ''assistantMessageEvent.delta must be a string for text_delta'' v)
                else Inr (Pi_message_update role t None)
            | v \<Rightarrow> Inl (UnknownPiMessageEventType v))
       | v \<Rightarrow> pi_malformed ''message_update'' ''assistantMessageEvent must be an object'' v)"

definition parseToolCallId :: "js_record \<Rightarrow> string \<Rightarrow> string pi_field" where
  "parseToolCallId r eventType = pi_requireString r eventType ''toolCallId''"

definition parseToolStart :: "js_record \<Rightarrow> parsed_pi_event pi_field" where
  "parseToolStart r =
     bindE (parseToolCallId r ''tool_execution_start'') (\<lambda>callId.
     bindE (pi_requireString r ''tool_execution_start'' ''toolName'') (\<lambda>name.
     bindE (pi_requirePresent r ''tool_execution_start'' ''args'') (\<lambda>args.
     Inr (Pi_tool_start callId name args))))"

definition parseToolEnd :: "js_record \<Rightarrow> parsed_pi_event pi_field" where
  "parseToolEnd r =
     bindE (parseToolCallId r ''tool_execution_end'') (\<lambda>callId.
     bindE (pi_requireString r ''tool_execution_end'' ''toolName'') (\<lambda>name.
     bindE (pi_requirePresent r ''tool_execution_end'' ''result'') (\<lambda>result.
     case getf r ''isError'' of
       JBool b \<Rightarrow> Inr (Pi_tool_end callId name result b)
     | v \<Rightarrow> pi_malformed ''tool_execution_end'' ''isError must be a boolean'' v)))"

definition parse_fields :: "string \<Rightarrow> js_record \<Rightarrow> parsed_pi_event pi_field" where
  "parse_fields t r =
     (if t = ''agent_start'' then Inr Pi_agent_start
      else if t = ''turn_start'' then Inr Pi_turn_start
      else if t = ''turn_end'' then Inr Pi_turn_end
      else if t = ''agent_end'' then parseAgentEnd r
      else if t = ''message_start''
        then bindE (parseMessageRole r ''message_start'') (\<lambda>role. Inr (Pi_message_start role))
      else if t = ''message_end'' then parseMessageEnd r
      else if t = ''message_update'' then parseMessageUpdate r
      else if t = ''tool_execution_start'' then parseToolStart r
      else if t = ''tool_execution_update''
        then bindE (parseToolCallId r ''tool_execution_update'') (\<lambda>callId. Inr (Pi_tool_update callId))
      else parseToolEnd r)"

text \<open>The two tables have the same keys (\<open>pi_tables_agree\<close>), so one lookup answers both questions.\<close>

definition parsePiEvent :: "js \<Rightarrow> parsed_pi_event pi_field" where
  "parsePiEvent v =
     (case v of
        JObj r \<Rightarrow>
          (case getf r ''type'' of
             JStr t \<Rightarrow>
               (case map_of PI_EVENT_FIELDS t of
                  None \<Rightarrow> Inl (UnknownPiEventType (JStr t))
                | Some allowed \<Rightarrow>
                    (case find (\<lambda>k. k \<notin> set allowed) (map fst r) of
                       Some k \<Rightarrow> Inl (UnknownPiEventField t k)
                     | None \<Rightarrow> parse_fields t r))
           | w \<Rightarrow> Inl (UnknownPiEventType w))
      | _ \<Rightarrow> pi_malformed ''event'' ''the event must be an object'' v)"

section \<open>The translator\<close>

record pi_translation_base =
  pb_threadId :: string
  pb_runId :: string
  pb_startSeq :: nat

record pi_translator =
  pt_nextSeq :: nat
  pt_assistantMessages :: nat
  pt_currentAssistantId :: "string option"
  pt_terminalReached :: bool
  pt_hasStarted :: bool

record pi_translation =
  tr_events :: "run_event list"
  tr_terminal :: bool
  tr_usageReport :: "pi_usage_report option"

definition new_translator :: "pi_translation_base \<Rightarrow> pi_translator" where
  "new_translator base =
     \<lparr>pt_nextSeq = pb_startSeq base, pt_assistantMessages = 0, pt_currentAssistantId = None,
      pt_terminalReached = False, pt_hasStarted = False\<rparr>"

definition pi_frame :: "pi_translation_base \<Rightarrow> nat \<Rightarrow> event_base" where
  "pi_frame base n = \<lparr>seq = n, threadId = pb_threadId base, runId = pb_runId base\<rparr>"

definition allocateSeq :: "pi_translator \<Rightarrow> nat \<times> pi_translator" where
  "allocateSeq t = (pt_nextSeq t, t\<lparr>pt_nextSeq := pt_nextSeq t + 1\<rparr>)"

definition quiet_translation :: pi_translation where
  "quiet_translation = \<lparr>tr_events = [], tr_terminal = False, tr_usageReport = None\<rparr>"

definition pi_emit :: "(nat \<Rightarrow> run_event) \<Rightarrow> pi_translator \<Rightarrow> pi_translation pi_field \<times> pi_translator" where
  "pi_emit build t =
     (let (n, t') = allocateSeq t in (Inr (quiet_translation\<lparr>tr_events := [build n]\<rparr>), t'))"

definition pi_end :: "(nat \<Rightarrow> run_event) \<Rightarrow> pi_translator \<Rightarrow> pi_translation pi_field \<times> pi_translator" where
  "pi_end build t =
     (let (n, t') = allocateSeq (t\<lparr>pt_terminalReached := True\<rparr>) in
      (Inr (quiet_translation\<lparr>tr_events := [build n], tr_terminal := True\<rparr>), t'))"

definition beginAssistant :: "pi_translator \<Rightarrow> string \<times> pi_translator" where
  "beginAssistant t =
     (let n = pt_assistantMessages t + 1; i = ''assistant-'' @ dec n in
      (i, t\<lparr>pt_assistantMessages := n, pt_currentAssistantId := Some i\<rparr>))"

definition toolErrorText :: "js \<Rightarrow> string \<Rightarrow> string" where
  "toolErrorText result toolName =
     (let texts = (case result of
          JObj r \<Rightarrow>
            (case getf r ''content'' of
               JArr parts \<Rightarrow>
                 concat (map (\<lambda>p. case p of
                     JObj q \<Rightarrow> if getf q ''type'' = JStr ''text''
                              then (case getf q ''text'' of JStr s \<Rightarrow> [s] | _ \<Rightarrow> []) else []
                   | _ \<Rightarrow> []) parts)
             | _ \<Rightarrow> [])
        | _ \<Rightarrow> []) in
      if texts \<noteq> [] then join [CHR 0x0A] texts
      else ''the Pi tool \"'' @ toolName @ ''\" failed'')"

definition stop_name :: "pi_stop_reason \<Rightarrow> string" where
  "stop_name r = (case find (\<lambda>(n, x). x = r) PI_STOP_REASONS of Some (n, _) \<Rightarrow> n | None \<Rightarrow> [])"

definition endRun ::
  "pi_translation_base \<Rightarrow> pi_stop_reason \<Rightarrow> string option \<Rightarrow> pi_translator \<Rightarrow>
   pi_translation pi_field \<times> pi_translator" where
  "endRun base stopReason errorMessage t =
     (let or_else = (\<lambda>d. case errorMessage of Some e \<Rightarrow> e | None \<Rightarrow> d);
          refused = (Inl (PiEventSequenceError
            (''agent_end arrived with a non-terminal stopReason \"'' @ stop_name stopReason @ ''\"'')), t);
          complete = pi_end (\<lambda>n. RunCompleted (pi_frame base n) (pt_currentAssistantId t)) t in
      case stopReason of
        Sr_error \<Rightarrow> pi_end (\<lambda>n. RunFailed (pi_frame base n) (or_else ''the Pi agent turn failed'') None) t
      | Sr_aborted \<Rightarrow> pi_end (\<lambda>n. RunCancelled (pi_frame base n) (Some (or_else ''aborted''))) t
      | Sr_stop \<Rightarrow> complete
      | Sr_length \<Rightarrow> complete
      | Sr_toolUse \<Rightarrow> complete
      | Sr_pending \<Rightarrow> refused
      | Sr_deferred \<Rightarrow> refused)"

definition translate_event ::
  "pi_translation_base \<Rightarrow> parsed_pi_event \<Rightarrow> pi_translator \<Rightarrow> pi_translation pi_field \<times> pi_translator" where
  "translate_event base e t =
     (case e of
        Pi_agent_start \<Rightarrow>
          if pt_hasStarted t then (Inl (PiEventSequenceError ''agent_start arrived twice''), t)
          else pi_emit (\<lambda>n. RunStarted (pi_frame base n)) (t\<lparr>pt_hasStarted := True\<rparr>)
      | Pi_message_start role \<Rightarrow>
          (Inr quiet_translation, if role = ''assistant'' then snd (beginAssistant t) else t)
      | Pi_message_update role u d \<Rightarrow>
          if u \<noteq> ''text_delta'' then (Inr quiet_translation, t)
          else (let (i, t') = (case pt_currentAssistantId t of Some i \<Rightarrow> (i, t) | None \<Rightarrow> beginAssistant t) in
                pi_emit (\<lambda>n. TokenDelta (pi_frame base n) i (case d of Some x \<Rightarrow> x | None \<Rightarrow> [])) t')
      | Pi_tool_start callId name args \<Rightarrow> pi_emit (\<lambda>n. ToolRequested (pi_frame base n) callId name args) t
      | Pi_tool_end callId name result isError \<Rightarrow>
          if isError then pi_emit (\<lambda>n. ToolFailed (pi_frame base n) callId (toolErrorText result name) None) t
          else pi_emit (\<lambda>n. ToolCompleted (pi_frame base n) callId result None None) t
      | Pi_message_end role report \<Rightarrow> (Inr (quiet_translation\<lparr>tr_usageReport := report\<rparr>), t)
      | Pi_agent_end stopReason errorMessage \<Rightarrow> endRun base stopReason errorMessage t
      | Pi_turn_start \<Rightarrow> (Inr quiet_translation, t)
      | Pi_turn_end \<Rightarrow> (Inr quiet_translation, t)
      | Pi_tool_update callId \<Rightarrow> (Inr quiet_translation, t))"

definition translate ::
  "pi_translation_base \<Rightarrow> js \<Rightarrow> pi_translator \<Rightarrow> pi_translation pi_field \<times> pi_translator" where
  "translate base v t =
     (case parsePiEvent v of
        Inl e \<Rightarrow> (Inl e, t)
      | Inr e \<Rightarrow>
          if pt_terminalReached t
          then (Inl (PiEventSequenceError (''a '' @ pi_type e @ '' event arrived after the run's terminal event'')), t)
          else translate_event base e t)"

section \<open>The session\<close>

datatype run_command =
    Command_stop "string option"
  | Command_steer string string
  | Command_approve string
  | Command_deny string "string option"

datatype session_failure =
    Fail_event pi_event_error
  | Fail_source
  | Fail_ended
  | Fail_control

datatype command_phase =
    Phase_waiting
  | Phase_stopping "string option"
  | Phase_steering string string
  | Phase_deciding
  | Phase_over

record pi_session =
  ps_translator :: pi_translator
  ps_finished :: bool
  ps_events :: "run_event list"
  ps_ended :: bool
  ps_failure :: "session_failure option"
  ps_pumping :: bool
  ps_phase :: command_phase
  ps_usage :: "pi_usage_report list"

definition new_session :: "pi_translation_base \<Rightarrow> pi_session" where
  "new_session base =
     \<lparr>ps_translator = new_translator base, ps_finished = False, ps_events = [], ps_ended = False,
      ps_failure = None, ps_pumping = True, ps_phase = Phase_waiting, ps_usage = []\<rparr>"

text \<open>An ended mailbox takes nothing.\<close>

definition offer :: "run_event \<Rightarrow> pi_session \<Rightarrow> pi_session" where
  "offer e s = (if ps_ended s then s else s\<lparr>ps_events := ps_events s @ [e]\<rparr>)"

definition session_finish :: "pi_session \<Rightarrow> pi_session" where
  "session_finish s = (if ps_finished s then s else s\<lparr>ps_finished := True, ps_ended := True\<rparr>)"

definition session_cancel :: "pi_translation_base \<Rightarrow> string \<Rightarrow> pi_session \<Rightarrow> pi_session" where
  "session_cancel base reason s =
     (if ps_finished s then s
      else let (n, t) = allocateSeq (ps_translator s) in
        (offer (RunCancelled (pi_frame base n) (Some reason)) (s\<lparr>ps_finished := True, ps_translator := t\<rparr>))
          \<lparr>ps_ended := True\<rparr>)"

definition session_fail :: "session_failure \<Rightarrow> pi_session \<Rightarrow> pi_session" where
  "session_fail cause s =
     (if ps_finished s then s
      else s\<lparr>ps_finished := True, ps_failure := Some cause, ps_ended := True\<rparr>)"

text \<open>The pump: a value of the source, its end, an exception of it, and the interruption.\<close>

definition pump_value :: "pi_translation_base \<Rightarrow> js \<Rightarrow> pi_session \<Rightarrow> pi_session" where
  "pump_value base v s =
     (let (res, t) = translate base v (ps_translator s); s1 = s\<lparr>ps_translator := t\<rparr> in
      case res of
        Inl e \<Rightarrow> (session_fail (Fail_event e) s1)\<lparr>ps_pumping := False\<rparr>
      | Inr r \<Rightarrow>
          let s2 = s1\<lparr>ps_usage := ps_usage s1 @ (case tr_usageReport r of None \<Rightarrow> [] | Some u \<Rightarrow> [u])\<rparr>;
              s3 = fold offer (tr_events r) s2 in
          if tr_terminal r then (session_finish s3)\<lparr>ps_pumping := False\<rparr>
          else if ps_finished s3 then s3\<lparr>ps_pumping := False\<rparr> else s3)"

definition pump_end :: "pi_session \<Rightarrow> pi_session" where
  "pump_end s = (if ps_finished s then s else session_fail Fail_ended s)\<lparr>ps_pumping := False\<rparr>"

definition pump_throw :: "pi_session \<Rightarrow> pi_session" where
  "pump_throw s = (session_fail Fail_source s)\<lparr>ps_pumping := False\<rparr>"

definition interrupt :: "pi_translation_base \<Rightarrow> pi_session \<Rightarrow> pi_session" where
  "interrupt base s =
     (if ps_pumping s then session_cancel base ''interrupted'' s else s)
       \<lparr>ps_pumping := False, ps_phase := Phase_over\<rparr>"

text \<open>The command loop: a command is taken, and its control answers or throws.\<close>

definition take_command :: "run_command \<Rightarrow> pi_session \<Rightarrow> pi_session" where
  "take_command c s =
     (if ps_finished s then s\<lparr>ps_phase := Phase_over\<rparr>
      else s\<lparr>ps_phase := (case c of
          Command_stop reason \<Rightarrow> Phase_stopping reason
        | Command_steer messageId text \<Rightarrow> Phase_steering messageId text
        | Command_approve callId \<Rightarrow> Phase_deciding
        | Command_deny callId reason \<Rightarrow> Phase_deciding)\<rparr>)"

definition control_answers :: "pi_translation_base \<Rightarrow> pi_session \<Rightarrow> pi_session" where
  "control_answers base s =
     (case ps_phase s of
        Phase_stopping reason \<Rightarrow>
          (session_cancel base (case reason of Some r \<Rightarrow> r | None \<Rightarrow> ''stop'') s)\<lparr>ps_phase := Phase_over\<rparr>
      | Phase_steering messageId text \<Rightarrow>
          let (n, t) = allocateSeq (ps_translator s) in
          (offer (RunSteered (pi_frame base n) messageId text) (s\<lparr>ps_translator := t\<rparr>))\<lparr>ps_phase := Phase_waiting\<rparr>
      | Phase_deciding \<Rightarrow> s\<lparr>ps_phase := Phase_waiting\<rparr>
      | Phase_waiting \<Rightarrow> s
      | Phase_over \<Rightarrow> s)"

definition control_throws :: "pi_session \<Rightarrow> pi_session" where
  "control_throws s = (session_fail Fail_control s)\<lparr>ps_phase := Phase_over\<rparr>"

inductive session_step :: "pi_translation_base \<Rightarrow> pi_session \<Rightarrow> pi_session \<Rightarrow> bool" for base where
  pumped: "ps_pumping s \<Longrightarrow> session_step base s (pump_value base v s)"
| source_end: "ps_pumping s \<Longrightarrow> session_step base s (pump_end s)"
| source_throw: "ps_pumping s \<Longrightarrow> session_step base s (pump_throw s)"
| scope_closed: "session_step base s (interrupt base s)"
| commanded: "ps_phase s = Phase_waiting \<Longrightarrow> session_step base s (take_command c s)"
| controlled: "session_step base s (control_answers base s)"
| control_error: "ps_phase s \<notin> {Phase_waiting, Phase_over} \<Longrightarrow> session_step base s (control_throws s)"

section \<open>What the parser accepts\<close>

lemma pi_tables_agree: "map fst PI_EVENT_FIELDS = map fst PI_EVENT_MAPPING"
  by (simp add: PI_EVENT_FIELDS_def PI_EVENT_MAPPING_def)

lemma pi_malformed_Inr [simp]: "pi_malformed t m v \<noteq> Inr x"
  by (simp add: pi_malformed_def)

lemma pi_requireString_Inr: "pi_requireString r t f = Inr s \<Longrightarrow> s \<noteq> []"
  by (auto simp: pi_requireString_def split: js.splits if_splits)

lemma parseToolEnd_Inr:
  "parseToolEnd r = Inr e \<Longrightarrow> \<exists>c n v b. e = Pi_tool_end c n v b \<and> c \<noteq> [] \<and> n \<noteq> []"
  by (cases "getf r ''isError''") (auto simp: parseToolEnd_def parseToolCallId_def result_simps dest: pi_requireString_Inr)

lemma parseToolStart_Inr:
  "parseToolStart r = Inr e \<Longrightarrow> \<exists>c n v. e = Pi_tool_start c n v \<and> c \<noteq> [] \<and> n \<noteq> []"
  by (auto simp: parseToolStart_def parseToolCallId_def result_simps dest: pi_requireString_Inr)

lemma parsers_Inr:
  "parseAgentEnd r = Inr e \<Longrightarrow> pi_type e = ''agent_end''"
  "parseMessageEnd r = Inr e \<Longrightarrow> pi_type e = ''message_end''"
  by (auto simp: parseAgentEnd_def parseMessageEnd_def result_simps split_beta split: js.splits if_splits)

lemma parseMessageUpdate_Inr: "parseMessageUpdate r = Inr e \<Longrightarrow> pi_type e = ''message_update''"
proof -
  assume a: "parseMessageUpdate r = Inr e"
  then obtain u where u: "getf r ''assistantMessageEvent'' = JObj u"
    by (cases "getf r ''assistantMessageEvent''") (auto simp: parseMessageUpdate_def result_simps)
  obtain t where t: "getf u ''type'' = JStr t"
    using a u by (cases "getf u ''type''") (auto simp: parseMessageUpdate_def result_simps)
  show ?thesis
    using a u t by (cases "getf u ''delta''") (auto simp: parseMessageUpdate_def result_simps split: if_splits)
qed

lemma parse_fields_Inr:
  "parse_fields t r = Inr e \<Longrightarrow> t \<in> fst ` set PI_EVENT_FIELDS \<Longrightarrow> pi_type e = t"
  using parseToolEnd_Inr parseToolStart_Inr parsers_Inr parseMessageUpdate_Inr
  by (fastforce simp: parse_fields_def PI_EVENT_FIELDS_def result_simps split: if_splits)

text \<open>An accepted value is an object of a known type with known fields only.\<close>

lemma parsePiEvent_Inr:
  assumes "parsePiEvent v = Inr e"
  obtains r allowed where "v = JObj r" and "getf r ''type'' = JStr (pi_type e)"
    and "map_of PI_EVENT_FIELDS (pi_type e) = Some allowed" and "fst ` set r \<subseteq> set allowed"
    and "parse_fields (pi_type e) r = Inr e"
proof -
  obtain r t allowed where r: "v = JObj r" "getf r ''type'' = JStr t" "map_of PI_EVENT_FIELDS t = Some allowed"
      "find (\<lambda>k. k \<notin> set allowed) (map fst r) = None" "parse_fields t r = Inr e"
    using assms by (auto simp: parsePiEvent_def split: js.splits option.splits)
  have "t \<in> fst ` set PI_EVENT_FIELDS" using map_of_SomeD [OF r(3)] by force
  then have "pi_type e = t" using parse_fields_Inr r(5) by blast
  moreover have "fst ` set r \<subseteq> set allowed" using r(4) by (auto simp: find_None_iff)
  ultimately show thesis using that r by blast
qed

fun wf_pi_event :: "parsed_pi_event \<Rightarrow> bool" where
  "wf_pi_event (Pi_tool_start c n _) = (c \<noteq> [] \<and> n \<noteq> [])"
| "wf_pi_event (Pi_tool_end c n _ _) = (c \<noteq> [] \<and> n \<noteq> [])"
| "wf_pi_event _ = True"

lemma parsed_wf: "parsePiEvent v = Inr e \<Longrightarrow> wf_pi_event e"
proof (erule parsePiEvent_Inr)
  fix r assume "parse_fields (pi_type e) r = Inr e"
  then show "wf_pi_event e"
    using parseToolEnd_Inr parseToolStart_Inr by (cases e) (fastforce simp: parse_fields_def)+
qed

section \<open>What the translator emits\<close>

fun ends_run :: "run_event \<Rightarrow> bool" where
  "ends_run (RunCompleted _ _) = True"
| "ends_run (RunFailed _ _ _) = True"
| "ends_run (RunCancelled _ _) = True"
| "ends_run _ = False"

fun starts_run :: "run_event \<Rightarrow> bool" where
  "starts_run (RunStarted _) = True"
| "starts_run _ = False"

text \<open>The fields of an event are well formed but for the two texts nothing checks.\<close>

fun sent_ok :: "run_event \<Rightarrow> bool" where
  "sent_ok (RunCancelled _ r) = (r \<noteq> None)"
| "sent_ok (RunSteered _ _ _) = True"
| "sent_ok e = wf_fields e"

definition wf_translator :: "pi_translator \<Rightarrow> bool" where
  "wf_translator t \<longleftrightarrow> pt_currentAssistantId t \<noteq> Some []"

text \<open>One translation: nothing, or one event at the next position.\<close>

definition translated ::
  "pi_translation_base \<Rightarrow> pi_translator \<Rightarrow> pi_translation \<Rightarrow> pi_translator \<Rightarrow> bool" where
  "translated base t r t' \<longleftrightarrow> wf_translator t' \<and> pt_terminalReached t' = tr_terminal r \<and>
     (tr_events r = [] \<and> \<not> tr_terminal r \<and> pt_nextSeq t' = pt_nextSeq t \<and> pt_hasStarted t' = pt_hasStarted t \<or>
      (\<exists>e. tr_events r = [e] \<and> ev_base e = pi_frame base (pt_nextSeq t) \<and> pt_nextSeq t' = pt_nextSeq t + 1 \<and>
         ends_run e = tr_terminal r \<and> sent_ok e \<and>
         pt_hasStarted t' = (pt_hasStarted t \<or> starts_run e) \<and> \<not> (pt_hasStarted t \<and> starts_run e)))"

lemmas translator_defs = pi_emit_def pi_end_def allocateSeq_def beginAssistant_def quiet_translation_def
  wf_translator_def translated_def

lemma translate_event_Inr:
  assumes "translate_event base e t = (Inr r, t')" and "wf_pi_event e" and "wf_translator t" and "\<not> pt_terminalReached t"
  shows "translated base t r t' \<and> event_type ` set (tr_events r) \<subseteq> set (pm_emits (the (map_of PI_EVENT_MAPPING (pi_type e)))) \<and>
    tr_terminal r = pm_terminal (the (map_of PI_EVENT_MAPPING (pi_type e)))"
proof (cases e)
  case (Pi_agent_end x y)
  then show ?thesis
    using assms
    by (cases x) (auto simp: translate_event_def endRun_def Let_def translator_defs PI_EVENT_MAPPING_def
        wf_opt_def split: option.splits)
qed (use assms in \<open>auto simp: translate_event_def Let_def translator_defs PI_EVENT_MAPPING_def wf_opt_def
    split: option.splits if_splits\<close>)

lemma translate_event_Inl: "translate_event base e t = (Inl err, t') \<Longrightarrow> t' = t"
  by (auto simp: translate_event_def endRun_def Let_def pi_emit_def pi_end_def split_beta
      split: parsed_pi_event.splits pi_stop_reason.splits if_splits option.splits)

lemma translate_Inl: "translate base v t = (Inl err, t') \<Longrightarrow> t' = t"
  by (auto simp: translate_def dest: translate_event_Inl split: sum.splits if_splits)

lemma translate_Inr:
  assumes "translate base v t = (Inr r, t')" and "wf_translator t"
  obtains e where "parsePiEvent v = Inr e" and "\<not> pt_terminalReached t" and "translated base t r t'"
    and "event_type ` set (tr_events r) \<subseteq> set (pm_emits (the (map_of PI_EVENT_MAPPING (pi_type e))))"
    and "tr_terminal r = pm_terminal (the (map_of PI_EVENT_MAPPING (pi_type e)))"
proof -
  obtain e where e: "parsePiEvent v = Inr e" "\<not> pt_terminalReached t" "translate_event base e t = (Inr r, t')"
    using assms(1) by (auto simp: translate_def split: sum.splits if_splits)
  with translate_event_Inr [OF e(3) parsed_wf [OF e(1)] assms(2) e(2)] that show thesis by blast
qed

section \<open>What a session sends\<close>

definition session_ok :: "pi_translation_base \<Rightarrow> pi_session \<Rightarrow> bool" where
  "session_ok base s \<longleftrightarrow>
     map (\<lambda>e. ev_base e) (ps_events s) =
       map (pi_frame base) [pb_startSeq base ..< pb_startSeq base + length (ps_events s)] \<and>
     list_all sent_ok (ps_events s) \<and> wf_translator (ps_translator s) \<and>
     ps_ended s = ps_finished s \<and>
     list_all (\<lambda>e. \<not> ends_run e) (butlast (ps_events s)) \<and>
     length (filter starts_run (ps_events s)) \<le> (if pt_hasStarted (ps_translator s) then 1 else 0) \<and>
     (if ps_finished s then (ps_failure s = None \<longleftrightarrow> ps_events s \<noteq> [] \<and> ends_run (last (ps_events s)))
      else ps_failure s = None \<and> list_all (\<lambda>e. \<not> ends_run e) (ps_events s) \<and>
        pt_nextSeq (ps_translator s) = pb_startSeq base + length (ps_events s) \<and>
        \<not> pt_terminalReached (ps_translator s))"

lemma session_ok_same:
  assumes "session_ok base s" and "ps_events s' = ps_events s" and "ps_finished s' = ps_finished s"
    and "ps_ended s' = ps_ended s" and "ps_failure s' = ps_failure s" and "wf_translator (ps_translator s')"
    and "pt_hasStarted (ps_translator s) \<Longrightarrow> pt_hasStarted (ps_translator s')"
    and "\<not> ps_finished s \<Longrightarrow> pt_nextSeq (ps_translator s') = pt_nextSeq (ps_translator s) \<and> \<not> pt_terminalReached (ps_translator s')"
  shows "session_ok base s'"
  using assms unfolding session_ok_def by (auto split: if_splits)

lemma session_ok_append:
  assumes "session_ok base s" and "\<not> ps_finished s" and "ev_base e = pi_frame base (pt_nextSeq (ps_translator s))"
    and "sent_ok e" and "ps_events s' = ps_events s @ [e]" and "ps_finished s' = ends_run e"
    and "ps_ended s' = ends_run e" and "ps_failure s' = None" and "wf_translator (ps_translator s')"
    and "pt_nextSeq (ps_translator s') = pt_nextSeq (ps_translator s) + 1"
    and "pt_hasStarted (ps_translator s') = (pt_hasStarted (ps_translator s) \<or> starts_run e)"
    and "\<not> (pt_hasStarted (ps_translator s) \<and> starts_run e)"
    and "\<not> ends_run e \<Longrightarrow> \<not> pt_terminalReached (ps_translator s')"
  shows "session_ok base s'"
  using assms unfolding session_ok_def by (auto split: if_splits)

lemma session_ok_fail:
  assumes "session_ok base s"
  shows "session_ok base (session_fail cause s)"
  using assms unfolding session_ok_def session_fail_def by (auto simp: list_all_iff split: if_splits)

lemma session_ok_control [simp]:
  "session_ok base (s\<lparr>ps_pumping := p\<rparr>) = session_ok base s"
  "session_ok base (s\<lparr>ps_phase := ph\<rparr>) = session_ok base s"
  "session_ok base (s\<lparr>ps_usage := u\<rparr>) = session_ok base s"
  by (simp_all add: session_ok_def)

lemma session_ok_cancel:
  assumes "session_ok base s"
  shows "session_ok base (session_cancel base reason s)"
proof (cases "ps_finished s")
  case True
  then show ?thesis using assms by (simp add: session_cancel_def)
next
  case False
  then show ?thesis
    using assms
    by (intro session_ok_append [OF assms False, where e = "RunCancelled (pi_frame base (pt_nextSeq (ps_translator s))) (Some reason)"])
      (auto simp: session_cancel_def allocateSeq_def offer_def session_ok_def wf_translator_def)
qed

lemma session_ok_value:
  assumes "session_ok base s"
  shows "session_ok base (pump_value base v s)"
proof -
  obtain res t where tr: "translate base v (ps_translator s) = (res, t)" by fastforce
  have wf: "wf_translator (ps_translator s)" and en: "ps_ended s = ps_finished s"
    using assms by (simp_all add: session_ok_def)
  show ?thesis
  proof (cases res)
    case (Inl e)
    then have "t = ps_translator s" using tr translate_Inl by blast
    then show ?thesis using tr Inl assms by (simp add: pump_value_def session_ok_fail)
  next
    case (Inr r)
    have r: "translated base (ps_translator s) r t" using translate_Inr [OF _ wf] tr Inr by metis
    show ?thesis
    proof (cases "tr_events r = [] \<or> ps_finished s")
      case True
      then show ?thesis
        using tr Inr r en
        by (intro session_ok_same [OF assms])
          (auto simp: pump_value_def Let_def offer_def session_finish_def translated_def split: if_splits)
    next
      case False
      then obtain e where "tr_events r = [e]" using r by (auto simp: translated_def)
      then show ?thesis
        using tr Inr r en False assms
        by (intro session_ok_append [OF assms, where e = e])
          (auto simp: pump_value_def Let_def offer_def session_finish_def translated_def session_ok_def)
    qed
  qed
qed

lemma session_ok_controlled:
  assumes "session_ok base s"
  shows "session_ok base (control_answers base s)"
proof (cases "ps_phase s")
  case (Phase_steering m x)
  have en: "ps_ended s = ps_finished s" using assms by (simp add: session_ok_def)
  show ?thesis
  proof (cases "ps_finished s")
    case True
    then show ?thesis
      using assms Phase_steering en
      by (intro session_ok_same [OF assms])
        (auto simp: control_answers_def allocateSeq_def offer_def session_ok_def wf_translator_def)
  next
    case False
    then show ?thesis
      using assms Phase_steering en
      by (intro session_ok_append [OF assms False, where e = "RunSteered (pi_frame base (pt_nextSeq (ps_translator s))) m x"])
        (auto simp: control_answers_def allocateSeq_def offer_def session_ok_def wf_translator_def)
  qed
qed (use assms session_ok_cancel in \<open>simp_all add: control_answers_def\<close>)

lemma session_step_ok: "session_step base s s' \<Longrightarrow> session_ok base s \<Longrightarrow> session_ok base s'"
  by (induction rule: session_step.induct)
    (auto simp: session_ok_value session_ok_fail session_ok_cancel session_ok_controlled pump_end_def
      pump_throw_def interrupt_def take_command_def control_throws_def)

lemma new_session_ok: "session_ok base (new_session base)"
  by (simp add: session_ok_def new_session_def new_translator_def wf_translator_def)

lemma session_steps_ok: "(session_step base)\<^sup>*\<^sup>* (new_session base) s \<Longrightarrow> session_ok base s"
  by (induction rule: rtranclp_induct) (auto intro: session_step_ok new_session_ok)

text \<open>A finished session sends nothing more.\<close>

lemma session_step_finished:
  assumes "session_step base s s'" and "ps_finished s" and "ps_ended s"
  shows "ps_events s' = ps_events s \<and> ps_finished s' \<and> ps_ended s' \<and> ps_failure s' = ps_failure s"
  using assms
proof cases
  case (pumped v)
  have "fold offer es x = x" if "ps_ended x" for es x using that by (induction es) (auto simp: offer_def)
  then show ?thesis
    using pumped assms(2,3) by (auto simp: pump_value_def Let_def session_fail_def session_finish_def split_beta split: sum.split)
qed (use assms(2,3) in \<open>auto simp: pump_end_def pump_throw_def interrupt_def take_command_def control_answers_def control_throws_def
    session_fail_def session_cancel_def allocateSeq_def offer_def split: command_phase.split\<close>)

lemma session_steps_finished:
  "(session_step base)\<^sup>*\<^sup>* s s' \<Longrightarrow> ps_finished s \<Longrightarrow> ps_ended s \<Longrightarrow>
   ps_events s' = ps_events s \<and> ps_finished s' \<and> ps_ended s' \<and> ps_failure s' = ps_failure s"
  by (induction rule: rtranclp_induct) (auto dest: session_step_finished)

end
