(* ===== verification/Runtime_Properties.thy ===== *)
theory Runtime_Properties
  imports Pi_Events
begin

text \<open>
  The correctness properties of the agent runtime's boundary: what a session sends to the thread,
  and which values of the runtime are let through.
\<close>

text \<open>
  C19: A session sends one well-formed, gapless stream. Let the runtime's values, its end, its
  exceptions, the operator's commands, their outcomes and the interruption come in any order. The
  events sent are numbered without a gap from the first sequence number, all on the session's
  thread and run; only the last one can end the run, and the run starts at most once. A session
  that is over has failed or has sent exactly one terminal event, and sends nothing afterwards; a
  session that is not over has sent none. Every event sent is read back by the parser of the core
  package, but for a cancellation with an empty reason and a steering message with an empty id.
\<close>

theorem session_stream:
  assumes "(session_step base)\<^sup>*\<^sup>* (new_session base) s"
    and "1 \<le> pb_startSeq base" and "pb_threadId base \<noteq> []" and "pb_runId base \<noteq> []"
    and "int (pb_startSeq base + length (ps_events s)) \<le> max_safe_integer"
  shows "map (\<lambda>e. seq (ev_base e)) (ps_events s) = [pb_startSeq base ..< pb_startSeq base + length (ps_events s)] \<and>
    (\<forall>e \<in> set (ps_events s). threadId (ev_base e) = pb_threadId base \<and> runId (ev_base e) = pb_runId base) \<and>
    (\<forall>e \<in> set (butlast (ps_events s)). \<not> ends_run e) \<and> length (filter starts_run (ps_events s)) \<le> 1 \<and>
    (ps_finished s \<longrightarrow>
       (ps_failure s = None \<longleftrightarrow> ps_events s \<noteq> [] \<and> ends_run (last (ps_events s))) \<and>
       (\<forall>s'. (session_step base)\<^sup>*\<^sup>* s s' \<longrightarrow> ps_events s' = ps_events s \<and> ps_failure s' = ps_failure s)) \<and>
    (\<not> ps_finished s \<longrightarrow> (\<forall>e \<in> set (ps_events s). \<not> ends_run e)) \<and>
    (\<forall>e \<in> set (ps_events s). parseRunEvent (event_value e) = Inr e \<or>
       (\<exists>b. e = RunCancelled b (Some [])) \<or> (\<exists>b x. e = RunSteered b [] x))"
proof -
  let ?es = "ps_events s" and ?n = "pb_startSeq base"
  have ok: "session_ok base s" using session_steps_ok [OF assms(1)] .
  then have bases: "map (\<lambda>e. ev_base e) ?es = map (pi_frame base) [?n ..< ?n + length ?es]"
    and sent: "list_all sent_ok ?es" and ended: "ps_ended s = ps_finished s" by (simp_all add: session_ok_def)
  have "map (\<lambda>e. seq (ev_base e)) ?es = map seq (map (\<lambda>e. ev_base e) ?es)" by simp
  also have "\<dots> = [?n ..< ?n + length ?es]" unfolding bases by (simp add: pi_frame_def comp_def)
  finally have seqs: "map (\<lambda>e. seq (ev_base e)) ?es = [?n ..< ?n + length ?es]" .
  have base: "\<exists>m. ev_base e = pi_frame base m \<and> ?n \<le> m \<and> m < ?n + length ?es" if "e \<in> set ?es" for e
  proof -
    have "ev_base e \<in> set (map (\<lambda>e. ev_base e) ?es)" using that by simp
    then show ?thesis unfolding bases by auto
  qed
  have read: "parseRunEvent (event_value e) = Inr e \<or> (\<exists>b. e = RunCancelled b (Some [])) \<or> (\<exists>b x. e = RunSteered b [] x)"
    if e: "e \<in> set ?es" for e
  proof (cases "wf_fields e")
    case True
    obtain m where "ev_base e = pi_frame base m" "?n \<le> m" "m < ?n + length ?es" using base [OF e] by blast
    then have "wf_event e" using True assms(2-5) by (auto simp: wf_event_def wf_base_def wf_nat_def pi_frame_def)
    then show ?thesis using parse_event_value by blast
  next
    case False
    have "sent_ok e" using sent e by (simp add: list_all_iff)
    with False show ?thesis by (cases e) (auto simp: wf_opt_def split: option.splits)
  qed
  have ids: "threadId (ev_base e) = pb_threadId base \<and> runId (ev_base e) = pb_runId base" if "e \<in> set ?es" for e
    using base [OF that] by (auto simp: pi_frame_def)
  have last: "\<forall>e \<in> set (butlast ?es). \<not> ends_run e" "length (filter starts_run ?es) \<le> 1"
    using ok by (auto simp: session_ok_def list_all_iff split: if_splits)
  have over: "ps_finished s \<Longrightarrow> ps_failure s = None \<longleftrightarrow> ?es \<noteq> [] \<and> ends_run (last ?es)"
    and open_: "\<not> ps_finished s \<Longrightarrow> \<forall>e \<in> set ?es. \<not> ends_run e"
    using ok by (simp_all add: session_ok_def list_all_iff)
  have stays: "ps_events s' = ?es \<and> ps_failure s' = ps_failure s"
    if "ps_finished s" "(session_step base)\<^sup>*\<^sup>* s s'" for s'
    using session_steps_finished [OF that(2,1)] ended that(1) by simp
  show ?thesis using seqs ids last over open_ stays read by blast
qed

definition demo_base :: pi_translation_base where
  "demo_base = \<lparr>pb_threadId = ''t'', pb_runId = ''r'', pb_startSeq = 1\<rparr>"

definition delta_value :: js where
  "delta_value = JObj [(''type'', JStr ''message_update''), (''message'', JObj [(''role'', JStr ''assistant'')]),
     (''assistantMessageEvent'', JObj [(''type'', JStr ''text_delta''), (''delta'', JStr ''hi'')])]"

definition end_value :: "js_record \<Rightarrow> js" where
  "end_value m = JObj [(''type'', JStr ''agent_end''), (''messages'', JArr [JObj ((''role'', JStr ''assistant'') # m)])]"

definition demo_run :: pi_session where
  "demo_run = pump_value demo_base (end_value [])
     (pump_value demo_base delta_value (pump_value demo_base (JObj [(''type'', JStr ''agent_start'')]) (new_session demo_base)))"

lemma demo_run_events:
  "map event_type (ps_events demo_run) = [''run.started'', ''token.delta'', ''run.completed'']" "ps_finished demo_run"
  by code_simp+

theorem session_stream_witness:
  "map event_type (ps_events demo_run) = [''run.started'', ''token.delta'', ''run.completed''] \<and>
   map (\<lambda>e. seq (ev_base e)) (ps_events demo_run) = [1, 2, 3]"
proof -
  let ?a = "pump_value demo_base (JObj [(''type'', JStr ''agent_start'')]) (new_session demo_base)"
  let ?b = "pump_value demo_base delta_value ?a"
  have p: "ps_pumping (new_session demo_base)" "ps_pumping ?a" "ps_pumping ?b" by code_simp+
  have st: "session_step demo_base (new_session demo_base) ?a" "session_step demo_base ?a ?b"
    "session_step demo_base ?b demo_run"
    unfolding demo_run_def using p by (simp_all only: session_step.pumped)
  have r: "(session_step demo_base)\<^sup>*\<^sup>* (new_session demo_base) demo_run"
    using st by (meson rtranclp.rtrancl_refl rtranclp.rtrancl_into_rtrancl)
  have "length (map event_type (ps_events demo_run)) = length [''run.started'', ''token.delta'', ''run.completed'']"
    by (simp only: demo_run_events)
  then have n: "length (ps_events demo_run) = 3" by simp
  have upt: "[Suc 0 ..< 4] = [1, 2, 3]" by (simp add: upt_rec)
  have b: "1 \<le> pb_startSeq demo_base" "pb_threadId demo_base \<noteq> []" "pb_runId demo_base \<noteq> []"
    "int (pb_startSeq demo_base + length (ps_events demo_run)) \<le> max_safe_integer"
    unfolding n by (simp_all add: demo_base_def max_safe_integer_def)
  note ss = session_stream [OF r b]
  from ss have "map (\<lambda>e. seq (ev_base e)) (ps_events demo_run) = [pb_startSeq demo_base ..< pb_startSeq demo_base + length (ps_events demo_run)]"
    by (rule conjunct1)
  then have "map (\<lambda>e. seq (ev_base e)) (ps_events demo_run) = [1, 2, 3]" unfolding n using upt by (simp add: demo_base_def)
  with demo_run_events(1) show ?thesis by blast
qed

text \<open>
  A value the translator takes is an object of a known type with no field beyond those of its
  type, before the run's end; it emits nothing or one event, of a type its entry in the mapping
  table lists, and ends the run exactly when the entry says so. A value it refuses changes
  nothing (\<open>translate_Inl\<close>).
\<close>

lemma translation_checked:
  assumes "translate base v t = (Inr r, t')" and "wf_translator t"
  obtains ty fields allowed where "v = JObj fields" and "getf fields ''type'' = JStr ty"
    and "map_of PI_EVENT_FIELDS ty = Some allowed" and "fst ` set fields \<subseteq> set allowed"
    and "\<not> pt_terminalReached t" and "length (tr_events r) \<le> 1"
    and "event_type ` set (tr_events r) \<subseteq> set (pm_emits (the (map_of PI_EVENT_MAPPING ty)))"
    and "tr_terminal r = pm_terminal (the (map_of PI_EVENT_MAPPING ty))"
proof -
  obtain e where e: "parsePiEvent v = Inr e" "\<not> pt_terminalReached t" "translated base t r t'"
      "event_type ` set (tr_events r) \<subseteq> set (pm_emits (the (map_of PI_EVENT_MAPPING (pi_type e))))"
      "tr_terminal r = pm_terminal (the (map_of PI_EVENT_MAPPING (pi_type e)))"
    using translate_Inr [OF assms] by metis
  have "length (tr_events r) \<le> 1" using e(3) by (auto simp: translated_def)
  then show thesis using parsePiEvent_Inr [OF e(1)] e(2,4,5) that by metis
qed

text \<open>
  Two gaps at the end of a run: an aborted turn whose error message is empty becomes a
  cancellation the core parser refuses, and a stop reason outside the known ones is passed over,
  so the run is reported as completed.
\<close>

lemma empty_abort_unreadable:
  "translate base (end_value [(''stopReason'', JStr ''aborted''), (''errorMessage'', JStr [])]) (new_translator base) =
     (Inr (quiet_translation\<lparr>tr_events := [RunCancelled (pi_frame base (pb_startSeq base)) (Some [])], tr_terminal := True\<rparr>),
      (new_translator base)\<lparr>pt_nextSeq := pb_startSeq base + 1, pt_terminalReached := True\<rparr>) \<and>
   (\<forall>x. parseRunEvent (event_value (RunCancelled b (Some []))) \<noteq> Inr x)"
proof -
  have "parsePiEvent (end_value [(''stopReason'', JStr ''aborted''), (''errorMessage'', JStr [])]) =
      Inr (Pi_agent_end Sr_aborted (Some []))" by code_simp
  then have "translate base (end_value [(''stopReason'', JStr ''aborted''), (''errorMessage'', JStr [])]) (new_translator base) =
     (Inr (quiet_translation\<lparr>tr_events := [RunCancelled (pi_frame base (pb_startSeq base)) (Some [])], tr_terminal := True\<rparr>),
      (new_translator base)\<lparr>pt_nextSeq := pb_startSeq base + 1, pt_terminalReached := True\<rparr>)"
    by (simp add: translate_def new_translator_def translate_event_def endRun_def pi_end_def allocateSeq_def)
  moreover have "parseRunEvent (event_value (RunCancelled b (Some []))) \<noteq> Inr x" for x
  proof
    assume "parseRunEvent (event_value (RunCancelled b (Some []))) = Inr x"
    then show False
      by (auto simp: parseRunEvent_def event_value_def opt_field_def parseByType_def parser_defs result_simps
          reader_simps split: if_splits option.splits)
  qed
  ultimately show ?thesis by blast
qed

lemma unknown_stop_completes:
  "map event_type (tr_events (case fst (translate demo_base
     (end_value [(''stopReason'', JStr ''refused''), (''errorMessage'', JStr ''policy'')]) (new_translator demo_base))
     of Inr r \<Rightarrow> r | Inl _ \<Rightarrow> quiet_translation)) = [''run.completed'']"
  by code_simp

end
