(* ===== verification/Api_Limits.thy ===== *)
theory Api_Limits
  imports Ip_Address Files
begin

text \<open>
  The limits of the API (\<open>apps/api/src/limits.ts\<close>): the register of routes, the settings, the
  fixed-window rate limiter, the stream slots, the accounting object over both, and the
  middleware with its body caps. The counters are explicit state; Hono's path matching, the
  route handlers and the clock are arguments.
\<close>

section \<open>The register of routes\<close>

datatype route_family = Fam_probe | Fam_rpc | Fam_webhook | Fam_upload | Fam_fallback

record route_rule =
  rr_method :: string
  rr_path :: string
  rr_family :: route_family

definition routeRules :: "string \<Rightarrow> route_rule list" where
  "routeRules rpcPath =
     [\<lparr>rr_method = ''GET'', rr_path = ''/healthz'', rr_family = Fam_probe\<rparr>,
      \<lparr>rr_method = ''GET'', rr_path = ''/healthz/stream'', rr_family = Fam_probe\<rparr>,
      \<lparr>rr_method = ''GET'', rr_path = ''/livez'', rr_family = Fam_probe\<rparr>,
      \<lparr>rr_method = ''GET'', rr_path = ''/readyz'', rr_family = Fam_probe\<rparr>,
      \<lparr>rr_method = ''ALL'', rr_path = rpcPath @ ''/*'', rr_family = Fam_rpc\<rparr>,
      \<lparr>rr_method = ''POST'', rr_path = ''/webhooks/*'', rr_family = Fam_webhook\<rparr>,
      \<lparr>rr_method = ''GET'', rr_path = ''/oauth/mcp/callback'', rr_family = Fam_webhook\<rparr>,
      \<lparr>rr_method = ''POST'', rr_path = ''/threads/:threadId/attachments'', rr_family = Fam_upload\<rparr>,
      \<lparr>rr_method = ''GET'', rr_path = ''/files/:fileId'', rr_family = Fam_rpc\<rparr>]"

definition segment_matches :: "string \<Rightarrow> string \<Rightarrow> bool" where
  "segment_matches p c = (if take 1 p = '':'' then c \<noteq> [] else p = c)"

definition path_matches :: "string \<Rightarrow> string \<Rightarrow> bool" where
  "path_matches rule path =
     (if suffix ''/*'' rule
      then (let pre = butlast rule in path = butlast pre \<or> prefix pre path)
      else list_all2 segment_matches (split_on (CHR ''/'') rule) (split_on (CHR ''/'') path))"

definition matches :: "route_rule \<Rightarrow> string \<Rightarrow> string \<Rightarrow> bool" where
  "matches rule m path =
     ((rr_method rule = ''ALL'' \<or> rr_method rule = m) \<and> path_matches (rr_path rule) path)"

definition routeRuleFor :: "route_rule list \<Rightarrow> string \<Rightarrow> string \<Rightarrow> route_rule option" where
  "routeRuleFor rules m path = find (\<lambda>rule. matches rule m path) rules"

section \<open>Settings\<close>

record limit_budget =
  lb_requestsPerMinute :: int
  lb_maxConcurrentStreams :: int
  lb_maxBodyBytes :: int

text \<open>Webhook and upload budgets have no stream cap, the probe has a request budget only.\<close>

record limits_config =
  lc_authenticated :: limit_budget
  lc_anonymous :: limit_budget
  lc_webhook :: "int \<times> int"
  lc_upload :: "int \<times> int"
  lc_probe :: int

definition defaultLimits :: limits_config where
  "defaultLimits =
     \<lparr>lc_authenticated = \<lparr>lb_requestsPerMinute = 300, lb_maxConcurrentStreams = 4, lb_maxBodyBytes = 1048576\<rparr>,
      lc_anonymous = \<lparr>lb_requestsPerMinute = 60, lb_maxConcurrentStreams = 1, lb_maxBodyBytes = 65536\<rparr>,
      lc_webhook = (120, 262144), lc_upload = (60, MAX_ATTACHMENT_BYTES), lc_probe = 600\<rparr>"

text \<open>Overrides: an absent field keeps the default, as the spread of an absent or partial object does.\<close>

record limits_overrides =
  lo_authenticated :: "int option \<times> int option \<times> int option"
  lo_anonymous :: "int option \<times> int option \<times> int option"
  lo_webhook :: "int option \<times> int option"
  lo_upload :: "int option \<times> int option"
  lo_probe :: "int option"

definition or_default :: "'a option \<Rightarrow> 'a \<Rightarrow> 'a" where
  "or_default v d = (case v of Some x \<Rightarrow> x | None \<Rightarrow> d)"

definition overridden :: "int option \<times> int option \<times> int option \<Rightarrow> limit_budget \<Rightarrow> limit_budget" where
  "overridden v b = (case v of (r, s, n) \<Rightarrow>
     \<lparr>lb_requestsPerMinute = or_default r (lb_requestsPerMinute b),
      lb_maxConcurrentStreams = or_default s (lb_maxConcurrentStreams b),
      lb_maxBodyBytes = or_default n (lb_maxBodyBytes b)\<rparr>)"

definition resolveLimits :: "limits_overrides \<Rightarrow> limits_config" where
  "resolveLimits v =
     \<lparr>lc_authenticated = overridden (lo_authenticated v) (lc_authenticated defaultLimits),
      lc_anonymous = overridden (lo_anonymous v) (lc_anonymous defaultLimits),
      lc_webhook = map_prod (\<lambda>r. or_default r (fst (lc_webhook defaultLimits)))
        (\<lambda>n. or_default n (snd (lc_webhook defaultLimits))) (lo_webhook v),
      lc_upload = map_prod (\<lambda>r. or_default r (fst (lc_upload defaultLimits)))
        (\<lambda>n. or_default n (snd (lc_upload defaultLimits))) (lo_upload v),
      lc_probe = or_default (lo_probe v) (lc_probe defaultLimits)\<rparr>"

definition limitFromEnvironment :: "(string \<rightharpoonup> string) \<Rightarrow> string \<Rightarrow> int \<Rightarrow> string + int" where
  "limitFromEnvironment env name fallback =
     (case map_option trim (env name) of
        None \<Rightarrow> Inr fallback
      | Some raw \<Rightarrow>
          if raw = [] then Inr fallback
          else let value = js_Number raw in
            if \<not> isSafeInteger value \<or> to_int value < 1
            then Inl (name @ '' must be a positive integer, got \"'' @ raw @ ''\"'')
            else Inr (to_int value))"

definition limitsFromEnvironment :: "(string \<rightharpoonup> string) \<Rightarrow> string + limits_config" where
  "limitsFromEnvironment env =
     (let get = limitFromEnvironment env; d = defaultLimits in
      bindE (get ''PORKBOT_LIMIT_AUTHENTICATED_PER_MINUTE'' (lb_requestsPerMinute (lc_authenticated d))) (\<lambda>a.
      bindE (get ''PORKBOT_LIMIT_MAX_STREAMS_PER_ACTOR'' (lb_maxConcurrentStreams (lc_authenticated d))) (\<lambda>b.
      bindE (get ''PORKBOT_LIMIT_MAX_BODY_BYTES'' (lb_maxBodyBytes (lc_authenticated d))) (\<lambda>c.
      bindE (get ''PORKBOT_LIMIT_ANONYMOUS_PER_MINUTE'' (lb_requestsPerMinute (lc_anonymous d))) (\<lambda>e.
      bindE (get ''PORKBOT_LIMIT_MAX_BODY_BYTES'' (lb_maxBodyBytes (lc_anonymous d))) (\<lambda>f.
      bindE (get ''PORKBOT_LIMIT_WEBHOOK_PER_MINUTE'' (fst (lc_webhook d))) (\<lambda>g.
      bindE (get ''PORKBOT_LIMIT_MAX_WEBHOOK_BODY_BYTES'' (snd (lc_webhook d))) (\<lambda>h.
      bindE (get ''PORKBOT_LIMIT_UPLOAD_PER_MINUTE'' (fst (lc_upload d))) (\<lambda>i.
      bindE (get ''PORKBOT_LIMIT_MAX_UPLOAD_BYTES'' (snd (lc_upload d))) (\<lambda>j.
      bindE (get ''PORKBOT_LIMIT_PROBE_PER_MINUTE'' (lc_probe d)) (\<lambda>k.
      Inr \<lparr>lc_authenticated = \<lparr>lb_requestsPerMinute = a, lb_maxConcurrentStreams = b, lb_maxBodyBytes = c\<rparr>,
           lc_anonymous = \<lparr>lb_requestsPerMinute = e,
             lb_maxConcurrentStreams = lb_maxConcurrentStreams (lc_anonymous d), lb_maxBodyBytes = f\<rparr>,
           lc_webhook = (g, h), lc_upload = (i, j), lc_probe = k\<rparr>)))))))))))"

record limit_principal =
  lp_key :: string
  lp_authenticated :: bool

definition actorPrincipal :: "string \<Rightarrow> string \<Rightarrow> limit_principal" where
  "actorPrincipal spaceId userId = \<lparr>lp_key = ''actor:'' @ spaceId @ '':'' @ userId, lp_authenticated = True\<rparr>"

definition clientPrincipal :: "string \<Rightarrow> limit_principal" where
  "clientPrincipal address = \<lparr>lp_key = ''client:'' @ address, lp_authenticated = False\<rparr>"

section \<open>The rate limiter\<close>

datatype limit_outcome = Allowed | Limited int

record rate_window =
  rw_count :: int
  rw_openedAt :: int

record rate_limiter =
  rl_windowMs :: int
  rl_windows :: "string \<rightharpoonup> rate_window"
  rl_checks :: nat

definition createRateLimiter :: "int \<Rightarrow> rate_limiter" where
  "createRateLimiter windowMs = \<lparr>rl_windowMs = windowMs, rl_windows = Map.empty, rl_checks = 0\<rparr>"

definition window_over :: "int \<Rightarrow> int \<Rightarrow> rate_window \<Rightarrow> bool" where
  "window_over windowMs now w = (now - rw_openedAt w \<ge> windowMs)"

definition sweep :: "int \<Rightarrow> rate_limiter \<Rightarrow> rate_limiter" where
  "sweep now l =
     l\<lparr>rl_windows := (\<lambda>k. case rl_windows l k of
        Some w \<Rightarrow> if window_over (rl_windowMs l) now w then None else Some w
      | None \<Rightarrow> None)\<rparr>"

definition counterKey :: "string \<Rightarrow> string \<Rightarrow> string" where
  "counterKey bucket key = bucket @ [CHR 0x00] @ key"

definition retry_seconds :: "int \<Rightarrow> int" where
  "retry_seconds ms = max 1 (- ((- ms) div 1000))"

text \<open>What a request does to its window.\<close>

definition window_check :: "int \<Rightarrow> int \<Rightarrow> int \<Rightarrow> rate_window option \<Rightarrow> limit_outcome \<times> rate_window" where
  "window_check windowMs requestsPerMinute now w =
     (case w of
        None \<Rightarrow> (Allowed, \<lparr>rw_count = 1, rw_openedAt = now\<rparr>)
      | Some x \<Rightarrow>
          if window_over windowMs now x then (Allowed, \<lparr>rw_count = 1, rw_openedAt = now\<rparr>)
          else if rw_count x < requestsPerMinute then (Allowed, x\<lparr>rw_count := rw_count x + 1\<rparr>)
          else (Limited (retry_seconds (rw_openedAt x + windowMs - now)), x))"

definition limiter_check ::
  "string \<Rightarrow> string \<Rightarrow> int \<Rightarrow> int \<Rightarrow> rate_limiter \<Rightarrow> limit_outcome \<times> rate_limiter" where
  "limiter_check bucket key requestsPerMinute now l =
     (let l1 = l\<lparr>rl_checks := rl_checks l + 1\<rparr>;
          l2 = (if rl_checks l1 mod 1000 = 0 then sweep now l1 else l1);
          k = counterKey bucket key;
          (out, w) = window_check (rl_windowMs l) requestsPerMinute now (rl_windows l2 k) in
      (out, l2\<lparr>rl_windows := (rl_windows l2)(k \<mapsto> w)\<rparr>))"

section \<open>Stream slots\<close>

text \<open>A slot is numbered in the order of opening and keeps its key and whether it was released.\<close>

record stream_slots =
  ss_held :: "string \<rightharpoonup> int"
  ss_slots :: "(string \<times> bool) list"

definition createStreamSlots :: stream_slots where
  "createStreamSlots = \<lparr>ss_held = Map.empty, ss_slots = []\<rparr>"

datatype stream_outcome = Opened nat | Not_opened int

definition held_count :: "stream_slots \<Rightarrow> string \<Rightarrow> int" where
  "held_count s key = (case ss_held s key of Some n \<Rightarrow> n | None \<Rightarrow> 0)"

definition slots_acquire :: "string \<Rightarrow> int \<Rightarrow> stream_slots \<Rightarrow> stream_outcome \<times> stream_slots" where
  "slots_acquire key cap s =
     (if held_count s key \<ge> cap then (Not_opened 1, s)
      else (Opened (length (ss_slots s)),
            \<lparr>ss_held = (ss_held s)(key \<mapsto> held_count s key + 1), ss_slots = ss_slots s @ [(key, False)]\<rparr>))"

definition slot_release :: "nat \<Rightarrow> stream_slots \<Rightarrow> stream_slots" where
  "slot_release i s =
     (if i < length (ss_slots s) \<and> \<not> snd (ss_slots s ! i)
      then let key = fst (ss_slots s ! i); current = held_count s key in
        \<lparr>ss_held = (if current \<le> 1 then (ss_held s)(key := None) else (ss_held s)(key \<mapsto> current - 1)),
         ss_slots = (ss_slots s)[i := (key, True)]\<rparr>
      else s)"

section \<open>The accounting object\<close>

record rate_limits =
  la_config :: limits_config
  la_rules :: "route_rule list"
  la_limiter :: rate_limiter
  la_slots :: stream_slots

definition createRateLimits :: "limits_config \<Rightarrow> route_rule list \<Rightarrow> rate_limits" where
  "createRateLimits config rules =
     \<lparr>la_config = config, la_rules = rules, la_limiter = createRateLimiter 60000, la_slots = createStreamSlots\<rparr>"

definition principal_budget :: "limits_config \<Rightarrow> limit_principal \<Rightarrow> limit_budget" where
  "principal_budget config p = (if lp_authenticated p then lc_authenticated config else lc_anonymous config)"

definition enforceRpc :: "limit_principal \<Rightarrow> int \<Rightarrow> rate_limits \<Rightarrow> limit_outcome \<times> rate_limits" where
  "enforceRpc p now a =
     (let (out, l) = limiter_check (if lp_authenticated p then ''authenticated'' else ''anonymous'') (lp_key p)
        (lb_requestsPerMinute (principal_budget (la_config a) p)) now (la_limiter a) in
      (out, a\<lparr>la_limiter := l\<rparr>))"

fun family_name :: "route_family \<Rightarrow> string" where
  "family_name Fam_probe = ''probe''"
| "family_name Fam_rpc = ''rpc''"
| "family_name Fam_webhook = ''webhook''"
| "family_name Fam_upload = ''upload''"
| "family_name Fam_fallback = ''fallback''"

definition family_requests :: "limits_config \<Rightarrow> route_family \<Rightarrow> int" where
  "family_requests config family =
     (if family = Fam_probe then lc_probe config
      else if family = Fam_webhook then fst (lc_webhook config)
      else if family = Fam_upload then fst (lc_upload config)
      else lb_requestsPerMinute (lc_anonymous config))"

definition enforceRoute :: "route_family \<Rightarrow> string \<Rightarrow> int \<Rightarrow> rate_limits \<Rightarrow> limit_outcome \<times> rate_limits" where
  "enforceRoute family clientKey now a =
     (let (out, l) = limiter_check (family_name family) (''client:'' @ clientKey)
        (family_requests (la_config a) family) now (la_limiter a) in
      (out, a\<lparr>la_limiter := l\<rparr>))"

definition acquireStream :: "limit_principal \<Rightarrow> rate_limits \<Rightarrow> stream_outcome \<times> rate_limits" where
  "acquireStream p a =
     (let (out, s) = slots_acquire (lp_key p) (lb_maxConcurrentStreams (principal_budget (la_config a) p)) (la_slots a) in
      (out, a\<lparr>la_slots := s\<rparr>))"

fun bodyCapBytes :: "limits_config \<Rightarrow> route_family \<Rightarrow> int" where
  "bodyCapBytes config Fam_rpc = max (lb_maxBodyBytes (lc_authenticated config)) (lb_maxBodyBytes (lc_anonymous config))"
| "bodyCapBytes config Fam_webhook = snd (lc_webhook config)"
| "bodyCapBytes config Fam_upload = snd (lc_upload config)"
| "bodyCapBytes config Fam_probe = lb_maxBodyBytes (lc_anonymous config)"
| "bodyCapBytes config Fam_fallback = lb_maxBodyBytes (lc_anonymous config)"

section \<open>The middleware\<close>

definition largestCap :: "limits_config \<Rightarrow> int" where
  "largestCap config = Max (bodyCapBytes config ` {Fam_probe, Fam_rpc, Fam_webhook, Fam_upload, Fam_fallback})"

text \<open>The installed body limits: a path pattern and a cap each, the last one for every path.\<close>

definition body_limits :: "limits_config \<Rightarrow> route_rule list \<Rightarrow> (string option \<times> int) list" where
  "body_limits config rules =
     map (\<lambda>r. (Some (rr_path r), bodyCapBytes config (rr_family r)))
       (filter (\<lambda>r. bodyCapBytes config (rr_family r) < largestCap config) rules) @ [(None, largestCap config)]"

text \<open>The size above which some installed limit refuses a body; \<open>hono\<close> is the router's matching.\<close>

definition body_accepted :: "(string \<Rightarrow> string \<Rightarrow> bool) \<Rightarrow> limits_config \<Rightarrow> route_rule list \<Rightarrow> string \<Rightarrow> int \<Rightarrow> bool" where
  "body_accepted hono config rules path n =
     list_all (\<lambda>(p, cap). (case p of None \<Rightarrow> True | Some q \<Rightarrow> hono q path) \<longrightarrow> n \<le> cap) (body_limits config rules)"

record api_request =
  aq_method :: string
  aq_path :: string
  aq_client :: string

text \<open>What the handlers behind the middleware answered: an ordinary response, or an event stream.\<close>

datatype handled = Plain_response | Event_stream "limit_principal option"

datatype api_response =
    Response_plain
  | Response_stream nat
  | Http_limited int
  | Rpc_limited int

definition request_family :: "rate_limits \<Rightarrow> api_request \<Rightarrow> route_family" where
  "request_family a q =
     (case routeRuleFor (la_rules a) (aq_method q) (aq_path q) of Some r \<Rightarrow> rr_family r | None \<Rightarrow> Fam_fallback)"

definition after_response ::
  "api_request \<Rightarrow> route_family \<Rightarrow> handled \<Rightarrow> rate_limits \<Rightarrow> api_response \<times> rate_limits" where
  "after_response q family r a =
     (case r of
        Plain_response \<Rightarrow> (Response_plain, a)
      | Event_stream p \<Rightarrow>
          (let (out, a') = acquireStream (case p of Some x \<Rightarrow> x | None \<Rightarrow> clientPrincipal (aq_client q)) a in
           case out of
             Opened i \<Rightarrow> (Response_stream i, a')
           | Not_opened s \<Rightarrow> (if family = Fam_rpc then Rpc_limited s else Http_limited s, a')))"

definition limit_middleware ::
  "int \<Rightarrow> (rate_limits \<Rightarrow> handled \<times> rate_limits) \<Rightarrow> api_request \<Rightarrow> rate_limits \<Rightarrow> api_response \<times> rate_limits" where
  "limit_middleware now next q a =
     (let family = request_family a q;
          (out, a1) = (if family \<noteq> Fam_rpc then enforceRoute family (aq_client q) now a else (Allowed, a)) in
      case out of
        Limited s \<Rightarrow> (Http_limited s, a1)
      | Allowed \<Rightarrow> let (r, a2) = next a1 in after_response q family r a2)"

text \<open>The body of a stream that was given a slot: it ends, fails or is cancelled.\<close>

datatype body_event = Body_chunk | Body_done | Body_error | Body_cancel

fun body_step :: "nat \<Rightarrow> body_event \<Rightarrow> bool \<times> stream_slots \<Rightarrow> bool \<times> stream_slots" where
  "body_step i Body_chunk (released, s) = (released, s)"
| "body_step i _ (released, s) = (if released then (True, s) else (True, slot_release i s))"

definition withReleasedBody :: "nat \<Rightarrow> body_event list option \<Rightarrow> stream_slots \<Rightarrow> stream_slots" where
  "withReleasedBody i body s =
     (case body of
        None \<Rightarrow> slot_release i s
      | Some evs \<Rightarrow> snd (fold (body_step i) evs (False, s)))"

section \<open>How many requests a key gets\<close>

text \<open>A sequence of checks: bucket, key, budget and time, with what each was answered.\<close>

fun limiter_trace ::
  "(string \<times> string \<times> int \<times> int) list \<Rightarrow> rate_limiter \<Rightarrow> ((string \<times> string) \<times> int \<times> limit_outcome) list" where
  "limiter_trace [] l = []"
| "limiter_trace ((b, k, n, t) # qs) l =
     (let (out, l') = limiter_check b k n t l in ((b, k), t, out) # limiter_trace qs l')"

definition plain_bucket :: "string \<Rightarrow> bool" where
  "plain_bucket b \<longleftrightarrow> CHR 0x00 \<notin> set b"

lemma counterKey_inj:
  assumes "plain_bucket b" and "plain_bucket b'"
  shows "counterKey b k = counterKey b' k' \<longleftrightarrow> b = b' \<and> k = k'"
  using assms append_sep_inj [of "CHR 0x00" b b' k k'] by (auto simp: counterKey_def plain_bucket_def)

text \<open>The window a check sees, and the one it leaves.\<close>

definition swept :: "int \<Rightarrow> rate_limiter \<Rightarrow> string \<Rightarrow> rate_window option" where
  "swept t l k =
     (if (rl_checks l + 1) mod 1000 = 0 \<and> (\<exists>w. rl_windows l k = Some w \<and> window_over (rl_windowMs l) t w)
      then None else rl_windows l k)"

lemma limiter_check_parts:
  "fst (limiter_check b k n t l) = fst (window_check (rl_windowMs l) n t (swept t l (counterKey b k)))"
  "rl_windowMs (snd (limiter_check b k n t l)) = rl_windowMs l"
  "rl_windows (snd (limiter_check b k n t l)) x =
     (if x = counterKey b k then Some (snd (window_check (rl_windowMs l) n t (swept t l x))) else swept t l x)"
  by (auto simp: limiter_check_def Let_def split_beta sweep_def swept_def split: option.splits)

text \<open>
  What an interval of the length of a window can still admit: from a window opened inside it the
  rest of its budget, from an older one a full budget besides.
\<close>

definition potential :: "int \<Rightarrow> int \<Rightarrow> rate_window option \<Rightarrow> int" where
  "potential n a w =
     (case w of
        None \<Rightarrow> n
      | Some x \<Rightarrow> max 0 (n - rw_count x) + (if a \<le> rw_openedAt x then 0 else n))"

definition admitted_in :: "string \<times> string \<Rightarrow> int \<Rightarrow> int \<Rightarrow> ((string \<times> string) \<times> int \<times> limit_outcome) list \<Rightarrow> int" where
  "admitted_in bk a b tr = int (length (filter (\<lambda>(x, t, out). x = bk \<and> out = Allowed \<and> a \<le> t \<and> t < b) tr))"

lemma potential_swept:
  assumes "t < a + rl_windowMs l" and "0 \<le> n"
  shows "potential n a (swept t l k) \<le> potential n a (rl_windows l k)"
  using assms by (auto simp: swept_def potential_def window_over_def)

lemma potential_check:
  assumes "a \<le> t" and "t < a + W" and "1 \<le> n"
  shows "(if fst (window_check W n t w) = Allowed then 1 else 0) + potential n a (Some (snd (window_check W n t w)))
    \<le> potential n a w"
  using assms by (auto simp: window_check_def potential_def window_over_def split: option.split)

definition timely :: "string \<times> string \<Rightarrow> int \<Rightarrow> (string \<times> string \<times> int \<times> int) list \<Rightarrow> bool" where
  "timely bk n qs \<longleftrightarrow> sorted (map (\<lambda>(b, k, m, t). t) qs) \<and>
     (\<forall>(b, k, m, t) \<in> set qs. plain_bucket b \<and> ((b, k) = bk \<longrightarrow> m = n))"

lemma timely_Cons:
  "timely bk n ((b, k, m, t) # qs) \<longleftrightarrow> timely bk n qs \<and> plain_bucket b \<and> ((b, k) = bk \<longrightarrow> m = n) \<and>
     (\<forall>(b', k', m', t') \<in> set qs. t \<le> t')"
  by (fastforce simp: timely_def)

lemma trace_late:
  "\<forall>(b, k, m, t) \<in> set qs. hi \<le> t \<Longrightarrow> admitted_in bk a hi (limiter_trace qs l) = 0"
proof (induction qs arbitrary: l)
  case (Cons q qs)
  then show ?case by (cases q) (auto simp: admitted_in_def split_beta)
qed (simp add: admitted_in_def)

lemma trace_Cons:
  "admitted_in bk a hi (limiter_trace ((b, k, m, t) # qs) l) =
     (if (b, k) = bk \<and> fst (limiter_check b k m t l) = Allowed \<and> a \<le> t \<and> t < hi then 1 else 0) +
     admitted_in bk a hi (limiter_trace qs (snd (limiter_check b k m t l)))"
  by (simp add: admitted_in_def split_beta)

lemma admitted_from:
  assumes "timely (b0, k0) n qs" and "plain_bucket b0" and "1 \<le> n" and "\<forall>(b, k, m, t) \<in> set qs. a \<le> t"
  shows "admitted_in (b0, k0) a (a + rl_windowMs l) (limiter_trace qs l)
    \<le> potential n a (rl_windows l (counterKey b0 k0))"
  using assms(1,4)
proof (induction qs arbitrary: l)
  case Nil
  then show ?case using assms(3) by (auto simp: admitted_in_def potential_def split: option.split)
next
  case (Cons q qs)
  obtain b k m t where q: "q = (b, k, m, t)" by (cases q)
  let ?K = "counterKey b0 k0" and ?l = "snd (limiter_check b k m t l)" and ?W = "rl_windowMs l"
  have tl: "timely (b0, k0) n qs" "plain_bucket b" "(b, k) = (b0, k0) \<Longrightarrow> m = n" "a \<le> t"
      "\<forall>(b', k', m', t') \<in> set qs. t \<le> t'"
    using Cons.prems q by (auto simp: timely_Cons)
  show ?case
  proof (cases "t < a + ?W")
    case False
    then have "\<forall>(b, k, m, t) \<in> set (q # qs). a + ?W \<le> t" using tl(5) q by fastforce
    from trace_late [OF this] show ?thesis
      using assms(3) by (auto simp: potential_def split: option.split)
  next
    case True
    have "\<forall>(b, k, m, t) \<in> set qs. a \<le> t" using Cons.prems(2) by simp
    note ih = Cons.IH [OF tl(1) this, of ?l, unfolded limiter_check_parts(2)]
    have sw: "potential n a (swept t l ?K) \<le> potential n a (rl_windows l ?K)"
      using potential_swept True assms(3) by simp
    show ?thesis
    proof (cases "(b, k) = (b0, k0)")
      case True': True
      have "(if fst (limiter_check b k m t l) = Allowed then 1 else 0) + potential n a (rl_windows ?l ?K)
          \<le> potential n a (swept t l ?K)"
        using potential_check [OF tl(4) True assms(3), of "swept t l ?K"] True' tl(3)
        by (simp add: limiter_check_parts)
      then show ?thesis using ih sw True True' tl(4) unfolding q trace_Cons by (simp split: if_splits)
    next
      case False
      then have "counterKey b k \<noteq> ?K" using counterKey_inj [OF tl(2) assms(2)] by auto
      then have "rl_windows ?l ?K = swept t l ?K" by (simp add: limiter_check_parts)
      then show ?thesis using ih sw False unfolding q trace_Cons by auto
    qed
  qed
qed

definition counted :: "rate_limiter \<Rightarrow> bool" where
  "counted l \<longleftrightarrow> (\<forall>k w. rl_windows l k = Some w \<longrightarrow> 0 \<le> rw_count w)"

lemma counted_check: "counted l \<Longrightarrow> counted (snd (limiter_check b k n t l))"
  by (auto simp: counted_def limiter_check_parts window_check_def swept_def split: option.splits if_splits)

lemma admitted_bound:
  assumes "timely (b0, k0) n qs" and "plain_bucket b0" and "1 \<le> n" and "counted l"
  shows "admitted_in (b0, k0) a (a + rl_windowMs l) (limiter_trace qs l) \<le> 2 * n"
  using assms(1,4)
proof (induction qs arbitrary: l)
  case Nil
  then show ?case using assms(3) by (simp add: admitted_in_def)
next
  case (Cons q qs)
  obtain b k m t where q: "q = (b, k, m, t)" by (cases q)
  have tl: "timely (b0, k0) n qs" "\<forall>(b', k', m', t') \<in> set qs. t \<le> t'"
    using Cons.prems q by (auto simp: timely_Cons)
  show ?case
  proof (cases "a \<le> t")
    case True
    then have "\<forall>(b, k, m, t) \<in> set (q # qs). a \<le> t" using tl(2) q by fastforce
    from admitted_from [OF Cons.prems(1) assms(2,3) this, of l] show ?thesis
      using Cons.prems(2) assms(3) by (force simp: potential_def counted_def split: option.splits if_splits)
  next
    case False
    then show ?thesis
      using Cons.IH [OF tl(1) counted_check [OF Cons.prems(2)], of b k m t] unfolding q trace_Cons
      by (simp add: limiter_check_parts)
  qed
qed

text \<open>A refusal names a wait after which the next check of the key is allowed.\<close>

definition limiter_after :: "(string \<times> string \<times> int \<times> int) list \<Rightarrow> rate_limiter \<Rightarrow> rate_limiter" where
  "limiter_after qs l = fold (\<lambda>(b, k, n, t) l. snd (limiter_check b k n t l)) qs l"

lemma limiter_after_others:
  assumes "plain_bucket b0" and "\<forall>(b, k, n, t) \<in> set qs. plain_bucket b \<and> (b, k) \<noteq> (b0, k0)"
  shows "rl_windows (limiter_after qs l) (counterKey b0 k0) \<in> {rl_windows l (counterKey b0 k0), None}"
    and "rl_windowMs (limiter_after qs l) = rl_windowMs l"
proof -
  have "rl_windows (limiter_after qs l) (counterKey b0 k0) \<in> {rl_windows l (counterKey b0 k0), None} \<and>
      rl_windowMs (limiter_after qs l) = rl_windowMs l"
    using assms(2)
  proof (induction qs arbitrary: l)
    case Nil
    then show ?case by (simp add: limiter_after_def)
  next
    case (Cons q qs)
    obtain b k n t where q: "q = (b, k, n, t)" by (cases q)
    let ?l = "snd (limiter_check b k n t l)"
    have "counterKey b k \<noteq> counterKey b0 k0" using Cons.prems q counterKey_inj [OF _ assms(1), of b k k0] by auto
    then have "rl_windows ?l (counterKey b0 k0) \<in> {rl_windows l (counterKey b0 k0), None}"
      by (auto simp: limiter_check_parts swept_def)
    moreover have "limiter_after (q # qs) l = limiter_after qs ?l" by (simp add: limiter_after_def q)
    ultimately show ?case
      using Cons.IH [of ?l] Cons.prems by (auto simp: limiter_check_parts)
  qed
  then show "rl_windows (limiter_after qs l) (counterKey b0 k0) \<in> {rl_windows l (counterKey b0 k0), None}"
    "rl_windowMs (limiter_after qs l) = rl_windowMs l" by simp_all
qed

lemma retry_seconds_enough: "ms \<le> 1000 * retry_seconds ms"
proof -
  have "- ms \<ge> 1000 * ((- ms) div 1000)" using mult_div_mod_eq [of 1000 "- ms"] pos_mod_sign [of 1000 "- ms"] by linarith
  then show ?thesis by (simp add: retry_seconds_def max_def)
qed

lemma window_check_limited:
  assumes "fst (window_check W n t w) = Limited s"
  shows "snd (window_check W n t w) = the w \<and> w \<noteq> None \<and> 1 \<le> s \<and> (\<forall>t'. t + 1000 * s \<le> t' \<longrightarrow> window_over W t' (the w))"
proof (cases w)
  case None
  then show ?thesis using assms by (simp add: window_check_def)
next
  case (Some x)
  then have s: "s = retry_seconds (rw_openedAt x + W - t)" and x: "snd (window_check W n t w) = x"
    using assms by (auto simp: window_check_def split: if_splits)
  have "rw_openedAt x + W - t \<le> 1000 * s" using retry_seconds_enough s by simp
  moreover have "1 \<le> s" by (simp add: s retry_seconds_def)
  ultimately show ?thesis using x Some by (auto simp: window_over_def)
qed

lemma retry_allowed:
  assumes "fst (limiter_check b k n t l) = Limited s" and "plain_bucket b"
    and "\<forall>(b', k', n', t') \<in> set qs. plain_bucket b' \<and> (b', k') \<noteq> (b, k)" and "t + 1000 * s \<le> t'"
  shows "1 \<le> s \<and> fst (limiter_check b k n' t' (limiter_after qs (snd (limiter_check b k n t l)))) = Allowed"
proof -
  let ?K = "counterKey b k" and ?l = "snd (limiter_check b k n t l)"
  have w: "fst (window_check (rl_windowMs l) n t (swept t l ?K)) = Limited s"
    using assms(1) by (simp add: limiter_check_parts)
  note lim = window_check_limited [OF w]
  have "rl_windows ?l ?K = swept t l ?K" using lim by (auto simp: limiter_check_parts)
  then have "rl_windows (limiter_after qs ?l) ?K \<in> {swept t l ?K, None}"
    using limiter_after_others(1) [OF assms(2,3), of ?l] by simp
  moreover have "rl_windowMs (limiter_after qs ?l) = rl_windowMs l"
    using limiter_after_others(2) [OF assms(2,3), of ?l] by (simp add: limiter_check_parts)
  ultimately show ?thesis
    using lim assms(4) by (auto simp: limiter_check_parts window_check_def swept_def split: option.split)
qed

section \<open>How many streams a key holds\<close>

definition open_slots :: "stream_slots \<Rightarrow> string \<Rightarrow> int" where
  "open_slots s key = int (length (filter (\<lambda>p. p = (key, False)) (ss_slots s)))"

definition slots_ok :: "(string \<Rightarrow> int) \<Rightarrow> stream_slots \<Rightarrow> bool" where
  "slots_ok cap s \<longleftrightarrow> (\<forall>k. held_count s k = open_slots s k \<and> open_slots s k \<le> max 0 (cap k))"

text \<open>Responses open streams under the cap of their key, and bodies end.\<close>

inductive slot_step :: "(string \<Rightarrow> int) \<Rightarrow> stream_slots \<Rightarrow> stream_slots \<Rightarrow> bool" for cap where
  acquired: "slot_step cap s (snd (slots_acquire key (cap key) s))"
| body: "slot_step cap s (withReleasedBody i evs s)"

lemma filter_update_released:
  "i < length xs \<Longrightarrow> xs ! i = (k, False) \<Longrightarrow>
   length (filter (\<lambda>p. p = (x, False)) xs) =
     length (filter (\<lambda>p. p = (x, False)) (xs[i := (k, True)])) + (if x = k then 1 else 0)"
  by (induction xs arbitrary: i) (auto simp: nth_Cons split: nat.splits if_splits)

lemma slot_release_open:
  "open_slots (slot_release i s) x =
     open_slots s x - (if i < length (ss_slots s) \<and> ss_slots s ! i = (x, False) then 1 else 0)"
proof (cases "i < length (ss_slots s) \<and> \<not> snd (ss_slots s ! i)")
  case True
  then obtain k where "ss_slots s ! i = (k, False)" by (metis prod.collapse)
  then show ?thesis
    using True filter_update_released [of i "ss_slots s" k x] by (auto simp: open_slots_def slot_release_def Let_def)
next
  case False
  then show ?thesis by (auto simp: slot_release_def)
qed

lemma open_slots_pos: "i < length (ss_slots s) \<Longrightarrow> ss_slots s ! i = (k, False) \<Longrightarrow> 1 \<le> open_slots s k"
proof -
  assume a: "i < length (ss_slots s)" "ss_slots s ! i = (k, False)"
  then have "(k, False) \<in> set (filter (\<lambda>p. p = (k, False)) (ss_slots s))" using nth_mem by fastforce
  then have "filter (\<lambda>p. p = (k, False)) (ss_slots s) \<noteq> []" by force
  then show ?thesis by (cases "filter (\<lambda>p. p = (k, False)) (ss_slots s)") (auto simp: open_slots_def)
qed

lemma slot_release_held:
  assumes "\<And>k. held_count s k = open_slots s k"
  shows "held_count (slot_release i s) k = open_slots (slot_release i s) k"
proof (cases "i < length (ss_slots s) \<and> \<not> snd (ss_slots s ! i)")
  case True
  then obtain x where x: "ss_slots s ! i = (x, False)" by (metis prod.collapse)
  have p: "1 \<le> held_count s x" using open_slots_pos True x assms by simp
  have "held_count (slot_release i s) k = held_count s k - (if k = x then 1 else 0)"
    using True x p by (auto simp: slot_release_def held_count_def Let_def)
  then show ?thesis using assms slot_release_open [of i s k] True x by auto
next
  case False
  then have "slot_release i s = s" by (auto simp: slot_release_def)
  then show ?thesis using assms by simp
qed

lemma slots_ok_release:
  assumes "slots_ok cap s"
  shows "slots_ok cap (slot_release i s)"
proof -
  have h: "held_count s k = open_slots s k" "open_slots s k \<le> max 0 (cap k)" for k
    using assms by (simp_all add: slots_ok_def)
  have "open_slots (slot_release i s) k \<le> open_slots s k" for k by (simp add: slot_release_open)
  with h(2) slot_release_held [OF h(1)] show ?thesis unfolding slots_ok_def by (blast intro: order_trans)
qed

text \<open>A body releases its slot when it first ends, and only then.\<close>

lemma body_fold:
  "snd (fold (body_step i) evs (r, s)) = (if r \<or> set evs \<subseteq> {Body_chunk} then s else slot_release i s)"
proof (induction evs arbitrary: r s)
  case (Cons e evs)
  then show ?case by (cases e; cases r) auto
qed simp

lemma withReleasedBody_eq:
  "withReleasedBody i body s =
     (if \<exists>evs. body = Some evs \<and> set evs \<subseteq> {Body_chunk} then s else slot_release i s)"
  by (auto simp: withReleasedBody_def body_fold split: option.split)

lemma slots_ok_acquire:
  assumes "slots_ok cap s"
  shows "slots_ok cap (snd (slots_acquire key (cap key) s))"
proof (cases "held_count s key \<ge> cap key")
  case True
  then show ?thesis using assms by (simp add: slots_acquire_def)
next
  case False
  let ?s = "snd (slots_acquire key (cap key) s)"
  have h: "held_count s k = open_slots s k" "open_slots s k \<le> max 0 (cap k)" for k
    using assms by (simp_all add: slots_ok_def)
  have "open_slots ?s k = open_slots s k + (if k = key then 1 else 0)"
    "held_count ?s k = held_count s k + (if k = key then 1 else 0)" for k
    using False by (auto simp: slots_acquire_def open_slots_def held_count_def)
  then have "held_count ?s k = open_slots ?s k \<and> open_slots ?s k \<le> max 0 (cap k)" for k
    using h [of k] False by (cases "k = key") auto
  then show ?thesis by (simp add: slots_ok_def)
qed

lemma slot_steps_ok: "(slot_step cap)\<^sup>*\<^sup>* createStreamSlots s \<Longrightarrow> slots_ok cap s"
proof (induction rule: rtranclp_induct)
  case base
  then show ?case by (simp add: slots_ok_def createStreamSlots_def held_count_def open_slots_def)
next
  case (step s t)
  from step(2,3) show ?case
    by cases (auto simp: withReleasedBody_eq intro: slots_ok_acquire slots_ok_release)
qed

section \<open>Body caps\<close>

lemma bodyCap_le_largest: "bodyCapBytes config f \<le> largestCap config"
  unfolding largestCap_def by (rule Max_ge) (cases f; simp)+

lemma body_accepted_iff:
  "body_accepted hono config rules path n \<longleftrightarrow> n \<le> largestCap config \<and>
     (\<forall>r \<in> set rules. hono (rr_path r) path \<longrightarrow> n \<le> bodyCapBytes config (rr_family r))"
  using bodyCap_le_largest [of config]
  by (fastforce simp: body_accepted_def body_limits_def list_all_iff)

end
