(* ===== verification/Limit_Properties.thy ===== *)
theory Limit_Properties
  imports Api_Limits
begin

text \<open>
  The correctness properties of the API's limits: how many requests and streams a caller gets,
  and what the body caps come to.
\<close>

text \<open>
  C30: A caller gets at most two budgets in any span of one window. Let any callers be checked in
  any order at times that do not go back, and let one bucket and key always be checked against
  the same budget. Then in every interval of the length of a window that caller is allowed at
  most twice its budget, whenever the limiter sweeps its table and whatever the others do. A
  refused caller is told to wait at least one second, and a check after that wait is allowed
  however often other callers were checked in between.
\<close>

theorem rate_limit_bounds:
  assumes "1 \<le> n" and "plain_bucket b" and "sorted (map (\<lambda>(_, _, _, t). t) qs)"
    and "\<forall>(b', k', n', t) \<in> set qs. plain_bucket b' \<and> ((b', k') = (b, k) \<longrightarrow> n' = n)"
  shows "int (length (filter (\<lambda>(x, t, out). x = (b, k) \<and> out = Allowed \<and> a \<le> t \<and> t < a + windowMs)
      (limiter_trace qs (createRateLimiter windowMs)))) \<le> 2 * n \<and>
    (\<forall>l t s others t'. fst (limiter_check b k n t l) = Limited s \<and>
       (\<forall>(b', k', n', u) \<in> set others. plain_bucket b' \<and> (b', k') \<noteq> (b, k)) \<and> t + 1000 * s \<le> t' \<longrightarrow>
       1 \<le> s \<and> fst (limiter_check b k n t' (limiter_after others (snd (limiter_check b k n t l)))) = Allowed)"
proof -
  have "timely (b, k) n qs" using assms(3,4) by (auto simp: timely_def)
  moreover have "counted (createRateLimiter windowMs)" by (simp add: counted_def createRateLimiter_def)
  ultimately have a: "admitted_in (b, k) a (a + windowMs) (limiter_trace qs (createRateLimiter windowMs)) \<le> 2 * n"
    using admitted_bound [OF _ assms(2,1), of k qs "createRateLimiter windowMs" a] by (simp add: createRateLimiter_def)
  have r: "\<forall>l t s others t'. fst (limiter_check b k n t l) = Limited s \<and>
       (\<forall>(b', k', n', u) \<in> set others. plain_bucket b' \<and> (b', k') \<noteq> (b, k)) \<and> t + 1000 * s \<le> t' \<longrightarrow>
       1 \<le> s \<and> fst (limiter_check b k n t' (limiter_after others (snd (limiter_check b k n t l)))) = Allowed"
    by (intro allI impI, elim conjE, rule retry_allowed [OF _ assms(2)])
  from a r show ?thesis unfolding admitted_in_def by (rule conjI)
qed

definition demo_checks :: "(string \<times> string \<times> int \<times> int) list" where
  "demo_checks = [(''probe'', ''x'', 2, 0), (''probe'', ''x'', 2, 59999), (''probe'', ''x'', 2, 59999),
     (''probe'', ''x'', 2, 60000), (''probe'', ''x'', 2, 60001), (''probe'', ''x'', 2, 60002)]"

theorem rate_limit_bounds_witness:
  "map (\<lambda>(_, _, out). out) (limiter_trace demo_checks (createRateLimiter 60000)) =
     [Allowed, Allowed, Limited 1, Allowed, Allowed, Limited 60] \<and>
   int (length (filter (\<lambda>(x, t, out). x = (''probe'', ''x'') \<and> out = Allowed \<and> 1 \<le> t \<and> t < 1 + 60000)
      (limiter_trace demo_checks (createRateLimiter 60000)))) \<le> 2 * 2"
proof -
  have "plain_bucket ''probe''" "sorted (map (\<lambda>(_, _, _, t). t) demo_checks)"
    "\<forall>(b', k', n', t) \<in> set demo_checks. plain_bucket b' \<and> ((b', k') = (''probe'', ''x'') \<longrightarrow> n' = 2)"
    by (simp_all add: plain_bucket_def demo_checks_def)
  from rate_limit_bounds [OF _ this, of 1 60000]
  have "int (length (filter (\<lambda>(x, t, out). x = (''probe'', ''x'') \<and> out = Allowed \<and> 1 \<le> t \<and> t < 1 + 60000)
      (limiter_trace demo_checks (createRateLimiter 60000)))) \<le> 2 * 2" by simp
  moreover have "map (\<lambda>(_, _, out). out) (limiter_trace demo_checks (createRateLimiter 60000)) =
     [Allowed, Allowed, Limited 1, Allowed, Allowed, Limited 60]" by code_simp
  ultimately show ?thesis by blast
qed

text \<open>
  C31: A key never holds more streams than its cap. Through any sequence of responses that ask for a
  slot and bodies that stream, end, fail or are cancelled, repeatedly or not, the count kept for a
  key is the number of its slots that are not released, which is at most its cap; a further
  response gets a slot exactly when that number is below the cap; and a body gives its slot back
  when it first ends, after which further events of it change nothing.
\<close>

theorem stream_slots_bounded:
  assumes "(slot_step cap)\<^sup>*\<^sup>* createStreamSlots s"
  shows "held_count s key = open_slots s key \<and> open_slots s key \<le> max 0 (cap key) \<and>
    ((\<exists>i. fst (slots_acquire key (cap key) s) = Opened i) \<longleftrightarrow> open_slots s key < cap key) \<and>
    (\<forall>i evs. Body_done \<in> set evs \<or> Body_error \<in> set evs \<or> Body_cancel \<in> set evs \<longrightarrow>
       withReleasedBody i (Some evs) s = slot_release i s \<and>
       withReleasedBody i (Some evs) (slot_release i s) = slot_release i s)"
proof -
  have ok: "held_count s key = open_slots s key" "open_slots s key \<le> max 0 (cap key)"
    using slot_steps_ok [OF assms] by (simp_all add: slots_ok_def)
  have "slot_release i (slot_release i s) = slot_release i s" for i
    by (auto simp: slot_release_def Let_def)
  moreover have "(\<exists>i. fst (slots_acquire key (cap key) s) = Opened i) \<longleftrightarrow> open_slots s key < cap key"
    using ok(1) by (auto simp: slots_acquire_def)
  ultimately show ?thesis using ok by (auto simp: withReleasedBody_eq)
qed

definition one_stream :: stream_slots where
  "one_stream = snd (slots_acquire ''k'' 1 createStreamSlots)"

theorem stream_slots_bounded_witness:
  "open_slots one_stream ''k'' = 1 \<and> fst (slots_acquire ''k'' 1 one_stream) = Not_opened 1 \<and>
   (\<exists>i. fst (slots_acquire ''k'' 1 (withReleasedBody 0 (Some [Body_chunk, Body_cancel]) one_stream)) = Opened i)"
proof -
  have a: "(slot_step (\<lambda>_. 1))\<^sup>*\<^sup>* createStreamSlots one_stream"
    unfolding one_stream_def using slot_step.acquired [of "\<lambda>_. 1" createStreamSlots "''k''"] by auto
  have b: "(slot_step (\<lambda>_. 1))\<^sup>*\<^sup>* createStreamSlots (withReleasedBody 0 (Some [Body_chunk, Body_cancel]) one_stream)"
    using a slot_step.body by (rule rtranclp.rtrancl_into_rtrancl)
  have "open_slots (withReleasedBody 0 (Some [Body_chunk, Body_cancel]) one_stream) ''k'' = 0"
    "open_slots one_stream ''k'' = 1" "fst (slots_acquire ''k'' 1 one_stream) = Not_opened 1" by code_simp+
  then show ?thesis using stream_slots_bounded [OF b, of "''k''"] by simp
qed

text \<open>
  A path no rule names is charged to the anonymous budget before its handler runs; but the only
  body cap that reaches it is the largest one, not the cap of its family.
\<close>

lemma unknown_path_limited:
  assumes "routeRuleFor (la_rules a) (aq_method q) (aq_path q) = None"
    and "enforceRoute Fam_fallback (aq_client q) now a = (Limited s, a')"
  shows "limit_middleware now next q a = (Http_limited s, a') \<and>
    family_requests (la_config a) Fam_fallback = lb_requestsPerMinute (lc_anonymous (la_config a))"
  using assms by (simp add: limit_middleware_def request_family_def family_requests_def)

lemma unknown_path_body:
  assumes "\<forall>r \<in> set rules. \<not> hono (rr_path r) path"
  shows "body_accepted hono config rules path n \<longleftrightarrow> n \<le> largestCap config"
  using assms by (simp add: body_accepted_iff)

lemma unknown_path_body_default:
  "\<not> (\<exists>r \<in> set (routeRules ''/rpc''). path_matches (rr_path r) ''/unknown'') \<and>
   body_accepted path_matches defaultLimits (routeRules ''/rpc'') ''/unknown'' 8388608 \<and>
   bodyCapBytes defaultLimits Fam_fallback = 65536"
proof -
  have n: "\<not> (\<exists>r \<in> set (routeRules ''/rpc''). path_matches (rr_path r) ''/unknown'')" by code_simp
  have "largestCap defaultLimits \<ge> bodyCapBytes defaultLimits Fam_upload" by (rule bodyCap_le_largest)
  then have "(8388608 :: int) \<le> largestCap defaultLimits" by (simp add: defaultLimits_def MAX_ATTACHMENT_BYTES_def)
  then have "body_accepted path_matches defaultLimits (routeRules ''/rpc'') ''/unknown'' 8388608"
    using n unknown_path_body [of "routeRules ''/rpc''" path_matches "''/unknown''"] by auto
  then show ?thesis using n by (simp add: defaultLimits_def)
qed

end
