(* ===== verification/Webhooks.thy ===== *)
theory Webhooks
  imports Table Ip_Address
begin

text \<open>
  The unauthenticated ingress: the signature of a webhook
  (\<open>packages/effect/src/webhook-signature.ts\<close>), the delivery and state ledgers
  (\<open>packages/db/src/ingress.ts\<close>) and the receiver over both
  (\<open>apps/api/src/webhooks.ts\<close>). The keyed hash, the secrets and the handlers are arguments; what
  other requests commit between two statements of the receiver is an argument too. A byte string
  is a list of characters.
\<close>

section \<open>Signatures\<close>

definition defaultSignatureToleranceSeconds :: int where "defaultSignatureToleranceSeconds = 300"

definition maxDigestHexLength :: nat where "maxDigestHexLength = 128"

record parsed_signature =
  sg_timestampSeconds :: nat
  sg_digest :: string

datatype signature_failure = Sig_missing | Sig_malformed | Sig_stale | Sig_future | Sig_mismatch

definition nibble_char :: "nat \<Rightarrow> char" where
  "nibble_char n = (if n < 10 then char_of (48 + n) else char_of (87 + n))"

definition hex_value :: "char \<Rightarrow> nat option" where
  "hex_value c =
     (let n = code_unit c in
      if 48 \<le> n \<and> n \<le> 57 then Some (n - 48)
      else if 97 \<le> n \<and> n \<le> 102 then Some (n - 87)
      else if 65 \<le> n \<and> n \<le> 70 then Some (n - 55)
      else None)"

definition hex_text :: "string \<Rightarrow> string" where
  "hex_text bytes = concat (map (\<lambda>b. [nibble_char (code_unit b div 16), nibble_char (code_unit b mod 16)]) bytes)"

text \<open>\<open>Buffer.from(value, "hex")\<close> of an even number of hexadecimal digits.\<close>

fun hex_bytes :: "string \<Rightarrow> string" where
  "hex_bytes (a # b # rest) = char_of (16 * the (hex_value a) + the (hex_value b)) # hex_bytes rest"
| "hex_bytes _ = []"

definition signed_payload :: "nat \<Rightarrow> string \<Rightarrow> string" where
  "signed_payload t body = dec t @ ''.'' @ body"

definition signWebhookBody :: "(string \<Rightarrow> string \<Rightarrow> string) \<Rightarrow> string \<Rightarrow> nat \<Rightarrow> string \<Rightarrow> string" where
  "signWebhookBody hmac secret t body = ''t='' @ dec t @ '',v1='' @ hex_text (hmac secret (signed_payload t body))"

text \<open>One turn of the loop over the parts; \<open>None\<close> is the early return.\<close>

definition part_value :: "string \<Rightarrow> string \<times> string" where
  "part_value part = (let name = takeWhile (\<lambda>c. c \<noteq> CHR ''='') part in
     (trim name, trim (drop (length name + 1) part)))"

definition signature_part ::
  "nat option \<times> string option \<Rightarrow> string \<Rightarrow> (nat option \<times> string option) option" where
  "signature_part acc part =
     (if CHR ''='' \<notin> set part then Some acc
      else let (name, value) = part_value part in
        if name = ''t''
        then if fst acc \<noteq> None \<or> \<not> is_digits value \<or> length value > 12 then None
             else Some (Some (parse_dec value), snd acc)
        else if name = ''v1''
        then if snd acc \<noteq> None \<or> value = [] \<or> length value mod 2 \<noteq> 0 \<or> length value > maxDigestHexLength \<or>
                \<not> list_all (\<lambda>c. hex_value c \<noteq> None) value then None
             else Some (fst acc, Some (hex_bytes value))
        else Some acc)"

fun signature_parts ::
  "nat option \<times> string option \<Rightarrow> string list \<Rightarrow> (nat option \<times> string option) option" where
  "signature_parts acc [] = Some acc"
| "signature_parts acc (p # ps) =
     (case signature_part acc p of None \<Rightarrow> None | Some acc' \<Rightarrow> signature_parts acc' ps)"

definition parseWebhookSignature :: "string option \<Rightarrow> parsed_signature option" where
  "parseWebhookSignature header =
     (case header of
        None \<Rightarrow> None
      | Some h \<Rightarrow>
          (case signature_parts (None, None) (split_on (CHR '','') h) of
             Some (Some t, Some d) \<Rightarrow> Some \<lparr>sg_timestampSeconds = t, sg_digest = d\<rparr>
           | _ \<Rightarrow> None))"

definition timingSafeEqualBytes :: "string \<Rightarrow> string \<Rightarrow> bool" where
  "timingSafeEqualBytes left right = (if length left \<noteq> length right then False else left = right)"

definition verifyWebhookSignature ::
  "(string \<Rightarrow> string \<Rightarrow> string) \<Rightarrow> string \<Rightarrow> string option \<Rightarrow> string \<Rightarrow> int \<Rightarrow> int \<Rightarrow> signature_failure + nat" where
  "verifyWebhookSignature hmac secret signature body nowSeconds tolerance =
     (case parseWebhookSignature signature of
        None \<Rightarrow> Inl (if signature = None then Sig_missing else Sig_malformed)
      | Some p \<Rightarrow>
          if nowSeconds - int (sg_timestampSeconds p) > tolerance then Inl Sig_stale
          else if int (sg_timestampSeconds p) - nowSeconds > tolerance then Inl Sig_future
          else if \<not> timingSafeEqualBytes (sg_digest p) (hmac secret (signed_payload (sg_timestampSeconds p) body))
          then Inl Sig_mismatch
          else Inr (sg_timestampSeconds p))"

section \<open>The ledgers\<close>

definition webhookDeliveryTtlSeconds :: int where "webhookDeliveryTtlSeconds = 86400"

definition oauthStateTtlSeconds :: int where "oauthStateTtlSeconds = 600"

record delivery_row =
  dr_source :: string
  dr_deliveryId :: string
  dr_expiresAt :: int

record oauth_binding =
  ob_spaceId :: string
  ob_userId :: string

record oauth_row =
  or_stateHash :: string
  or_binding :: oauth_binding
  or_expiresAt :: int
  or_consumedAt :: "int option"

record ingress_db =
  ig_deliveries :: "delivery_row list"
  ig_states :: "oauth_row list"

definition sweep_deliveries :: "int \<Rightarrow> ingress_db \<Rightarrow> ingress_db" where
  "sweep_deliveries now db = db\<lparr>ig_deliveries := filter (\<lambda>r. \<not> dr_expiresAt r \<le> now) (ig_deliveries db)\<rparr>"

definition insert_delivery :: "string \<Rightarrow> string \<Rightarrow> int \<Rightarrow> ingress_db \<Rightarrow> bool \<times> ingress_db" where
  "insert_delivery source i expiresAt db =
     (if list_ex (\<lambda>r. dr_source r = source \<and> dr_deliveryId r = i) (ig_deliveries db) then (False, db)
      else (True, db\<lparr>ig_deliveries := ig_deliveries db @
              [\<lparr>dr_source = source, dr_deliveryId = i, dr_expiresAt = expiresAt\<rparr>]\<rparr>))"

definition release_delivery :: "string \<Rightarrow> string \<Rightarrow> ingress_db \<Rightarrow> ingress_db" where
  "release_delivery source i db =
     db\<lparr>ig_deliveries := filter (\<lambda>r. \<not> (dr_source r = source \<and> dr_deliveryId r = i)) (ig_deliveries db)\<rparr>"

definition sweep_states :: "int \<Rightarrow> ingress_db \<Rightarrow> ingress_db" where
  "sweep_states now db = db\<lparr>ig_states := filter (\<lambda>r. \<not> or_expiresAt r \<le> now) (ig_states db)\<rparr>"

definition insert_state :: "string \<Rightarrow> oauth_binding \<Rightarrow> int \<Rightarrow> ingress_db \<Rightarrow> bool \<times> ingress_db" where
  "insert_state h binding expiresAt db =
     (if list_ex (\<lambda>r. or_stateHash r = h) (ig_states db) then (False, db)
      else (True, db\<lparr>ig_states := ig_states db @
              [\<lparr>or_stateHash = h, or_binding = binding, or_expiresAt = expiresAt, or_consumedAt = None\<rparr>]\<rparr>))"

text \<open>\<open>issue\<close>, with what others commit between its two statements.\<close>

definition oauth_issue ::
  "(string \<Rightarrow> string) \<Rightarrow> int \<Rightarrow> int \<Rightarrow> (ingress_db \<Rightarrow> ingress_db) \<Rightarrow> oauth_binding \<Rightarrow> string \<Rightarrow> ingress_db \<Rightarrow> bool \<times> ingress_db" where
  "oauth_issue sha256 now ttlSeconds w binding state db =
     insert_state (sha256 state) binding (now + ttlSeconds * 1000) (w (sweep_states now db))"

definition oauth_consume ::
  "(string \<Rightarrow> string) \<Rightarrow> int \<Rightarrow> string \<Rightarrow> ingress_db \<Rightarrow> oauth_binding option \<times> ingress_db" where
  "oauth_consume sha256 now state db =
     (let P = (\<lambda>r. or_stateHash r = sha256 state \<and> or_consumedAt r = None \<and> or_expiresAt r > now);
          f = (\<lambda>r. r\<lparr>or_consumedAt := Some now\<rparr>) in
      (map_option or_binding (first_row (returning P f (ig_states db))),
       db\<lparr>ig_states := update_where P f (ig_states db)\<rparr>))"

section \<open>The receiver\<close>

definition maxDeliveryIdLength :: nat where "maxDeliveryIdLength = 200"

definition isWebhookSource :: "string \<Rightarrow> bool" where
  "isWebhookSource s =
     (s \<noteq> [] \<and> length s \<le> 64 \<and> list_all (\<lambda>c. label_char c \<or> c = CHR ''-'') s \<and>
      label_char (hd s) \<and> label_char (last s))"

text \<open>\<open>toUpperCase\<close> on the characters a source name has.\<close>

definition secret_char :: "char \<Rightarrow> char" where
  "secret_char c = (if is_lower c then char_of (code_unit c - 32) else if c = CHR ''-'' then CHR ''_'' else c)"

definition webhookSecretName :: "string \<Rightarrow> string" where
  "webhookSecretName source = ''PORKBOT_WEBHOOK_SECRET_'' @ map secret_char source"

record webhook_request =
  wq_source :: string
  wq_signature :: "string option"
  wq_deliveryId :: "string option"
  wq_body :: string

record webhook_event =
  we_source :: string
  we_deliveryId :: string
  we_body :: string

datatype webhook_rejection =
    Rej_unknown_source | Rej_unconfigured_source | Rej_missing_delivery | Rej_invalid_delivery
  | Rej_missing_signature | Rej_malformed_signature | Rej_stale_signature | Rej_future_signature | Rej_bad_signature

datatype webhook_outcome = Hook_accepted | Hook_duplicate | Hook_rejected webhook_rejection | Hook_threw

fun signatureRejection :: "signature_failure \<Rightarrow> webhook_rejection" where
  "signatureRejection Sig_missing = Rej_missing_signature"
| "signatureRejection Sig_malformed = Rej_malformed_signature"
| "signatureRejection Sig_stale = Rej_stale_signature"
| "signatureRejection Sig_future = Rej_future_signature"
| "signatureRejection Sig_mismatch = Rej_bad_signature"

text \<open>A handler returns or throws; the release after a throw may fail.\<close>

record webhook_env =
  wv_hmac :: "string \<Rightarrow> string \<Rightarrow> string"
  wv_secrets :: "string \<rightharpoonup> string"
  wv_handlers :: "string \<rightharpoonup> (webhook_event \<Rightarrow> bool)"
  wv_releases :: bool

text \<open>The checks before the ledger: the event to deliver, or the reason of the refusal.\<close>

definition webhook_checks :: "webhook_env \<Rightarrow> int \<Rightarrow> webhook_request \<Rightarrow> webhook_rejection + webhook_event" where
  "webhook_checks E nowMs q =
     (if \<not> isWebhookSource (wq_source q) \<or> wv_handlers E (wq_source q) = None then Inl Rej_unknown_source
      else case wv_secrets E (webhookSecretName (wq_source q)) of
        None \<Rightarrow> Inl Rej_unconfigured_source
      | Some secret \<Rightarrow>
          if trim secret = [] then Inl Rej_unconfigured_source
          else (case verifyWebhookSignature (wv_hmac E) secret (wq_signature q) (wq_body q) (nowMs div 1000)
                       defaultSignatureToleranceSeconds of
                  Inl e \<Rightarrow> Inl (signatureRejection e)
                | Inr _ \<Rightarrow>
                    (case map_option trim (wq_deliveryId q) of
                       None \<Rightarrow> Inl Rej_missing_delivery
                     | Some i \<Rightarrow>
                         if i = [] then Inl Rej_missing_delivery
                         else if length i > maxDeliveryIdLength then Inl Rej_invalid_delivery
                         else Inr \<lparr>we_source = wq_source q, we_deliveryId = i, we_body = wq_body q\<rparr>)))"

text \<open>
  \<open>receive\<close>: the outcome, the tables, and the event its handler was given. \<open>checkedMs\<close> and
  \<open>recordedMs\<close> are the two readings of the clock; \<open>w\<close> is what other requests commit before the
  sweep, before the insertion and while the handler runs.
\<close>

definition receive ::
  "webhook_env \<Rightarrow> int \<Rightarrow> int \<Rightarrow> (nat \<Rightarrow> ingress_db \<Rightarrow> ingress_db) \<Rightarrow> webhook_request \<Rightarrow> ingress_db \<Rightarrow>
   webhook_outcome \<times> ingress_db \<times> webhook_event option" where
  "receive E checkedMs recordedMs w q db =
     (case webhook_checks E checkedMs q of
        Inl reason \<Rightarrow> (Hook_rejected reason, db, None)
      | Inr ev \<Rightarrow>
          let (recorded, db1) = insert_delivery (we_source ev) (we_deliveryId ev)
                (recordedMs + webhookDeliveryTtlSeconds * 1000) (w 1 (sweep_deliveries recordedMs (w 0 db))) in
          if \<not> recorded then (Hook_duplicate, db1, None)
          else if the (wv_handlers E (we_source ev)) ev then (Hook_accepted, w 2 db1, Some ev)
          else (Hook_threw,
                if wv_releases E then release_delivery (we_source ev) (we_deliveryId ev) (w 2 db1) else w 2 db1,
                Some ev))"

text \<open>The receiver of a process without webhook configuration.\<close>

definition refuseWebhooks :: "webhook_request \<Rightarrow> webhook_outcome" where
  "refuseWebhooks q = Hook_rejected Rej_unknown_source"

section \<open>Facts on signatures\<close>

lemma timingSafeEqualBytes_iff [simp]: "timingSafeEqualBytes a b \<longleftrightarrow> a = b"
  by (auto simp: timingSafeEqualBytes_def)

lemma hex_value_digit [simp]: "n < 16 \<Longrightarrow> hex_value (nibble_char n) = Some n"
  by (auto simp: hex_value_def nibble_char_def Let_def)

lemma hex_bytes_text [simp]: "hex_bytes (hex_text bs) = bs"
proof (induction bs)
  case (Cons b bs)
  have "code_unit b < 256" by (rule code_unit_lt)
  then have "code_unit b div 16 < 16" "code_unit b mod 16 < 16" by auto
  then show ?case using Cons by (simp add: hex_text_def)
qed (simp add: hex_text_def)

lemma hex_text_ok: "list_all (\<lambda>c. hex_value c \<noteq> None) (hex_text bs)" "length (hex_text bs) = 2 * length bs"
proof -
  have "code_unit b div 16 < 16" for b using code_unit_lt [of b] by auto
  then show "list_all (\<lambda>c. hex_value c \<noteq> None) (hex_text bs)" by (induction bs) (auto simp: hex_text_def)
  show "length (hex_text bs) = 2 * length bs" by (induction bs) (auto simp: hex_text_def)
qed

lemma verify_Inr:
  "verifyWebhookSignature hmac secret sig body now tol = Inr t \<longleftrightarrow>
     (\<exists>p. parseWebhookSignature sig = Some p \<and> t = sg_timestampSeconds p \<and> \<bar>now - int t\<bar> \<le> tol \<and>
       sg_digest p = hmac secret (signed_payload t body))"
  by (auto simp: verifyWebhookSignature_def split: option.splits)

lemma secret_char_inj:
  assumes "label_char a \<or> a = CHR ''-''" and "label_char b \<or> b = CHR ''-''" and "secret_char a = secret_char b"
  shows "a = b"
proof -
  have u: "code_unit (secret_char c) =
      (if is_lower c then code_unit c - 32 else if c = CHR ''-'' then 95 else code_unit c)" for c
  proof -
    have "code_unit c - 32 < 256" using code_unit_lt [of c] by simp
    moreover have "code_unit (CHR ''_'') = 95" by (simp add: code_unit_def)
    ultimately show ?thesis by (simp add: secret_char_def)
  qed
  have "code_unit a = code_unit b"
    using assms(1,2) arg_cong [OF assms(3), of code_unit] unfolding u
    by (auto simp: label_char_def is_lower_def is_digit_def simp del: code_unit_inj split: if_splits)
  then show ?thesis by simp
qed

text \<open>Distinct sources have distinct secrets.\<close>

lemma webhookSecretName_inj:
  assumes "isWebhookSource a" and "isWebhookSource b" and "webhookSecretName a = webhookSecretName b"
  shows "a = b"
proof -
  have "map secret_char a = map secret_char b" using assms(3) by (simp add: webhookSecretName_def)
  moreover have ok: "label_char c \<or> c = CHR ''-''" if "c \<in> set a \<union> set b" for c
    using that assms(1,2) unfolding isWebhookSource_def list_all_iff by blast
  have "inj_on secret_char (set a \<union> set b)"
    by (rule inj_onI) (rule secret_char_inj [OF ok ok])
  ultimately show ?thesis using inj_on_map_eq_map [of secret_char a b] by simp
qed

section \<open>Facts on the ledgers\<close>

definition recorded :: "string \<Rightarrow> string \<Rightarrow> int \<Rightarrow> ingress_db \<Rightarrow> bool" where
  "recorded source i expiresAt db \<longleftrightarrow>
     \<lparr>dr_source = source, dr_deliveryId = i, dr_expiresAt = expiresAt\<rparr> \<in> set (ig_deliveries db)"

text \<open>
  The statements of other requests while a delivery is remembered: sweeps before its expiry, any
  insertion, releases of other deliveries, and everything on the states.
\<close>

inductive delivery_step :: "string \<Rightarrow> string \<Rightarrow> int \<Rightarrow> ingress_db \<Rightarrow> ingress_db \<Rightarrow> bool" for source i e where
  swept: "now < e \<Longrightarrow> delivery_step source i e db (sweep_deliveries now db)"
| inserted: "delivery_step source i e db (snd (insert_delivery s j x db))"
| released: "(s, j) \<noteq> (source, i) \<Longrightarrow> delivery_step source i e db (release_delivery s j db)"
| states_swept: "delivery_step source i e db (sweep_states now db)"
| state_inserted: "delivery_step source i e db (snd (insert_state h b x db))"
| state_consumed: "delivery_step source i e db (snd (oauth_consume sha256 now st db))"

abbreviation delivery_steps :: "string \<Rightarrow> string \<Rightarrow> int \<Rightarrow> ingress_db \<Rightarrow> ingress_db \<Rightarrow> bool" where
  "delivery_steps source i e \<equiv> (delivery_step source i e)\<^sup>*\<^sup>*"

lemma delivery_step_recorded:
  assumes "delivery_step source i e db db'" and "recorded source i e db"
  shows "recorded source i e db'"
  using assms
  by cases (auto simp: recorded_def sweep_deliveries_def insert_delivery_def release_delivery_def sweep_states_def
      insert_state_def oauth_consume_def Let_def)

lemma delivery_steps_recorded:
  "delivery_steps source i e db db' \<Longrightarrow> recorded source i e db \<Longrightarrow> recorded source i e db'"
  by (induction rule: rtranclp_induct) (auto intro: delivery_step_recorded)

lemma insert_recorded: "recorded source i e db \<Longrightarrow> insert_delivery source i x db = (False, db)"
  by (force simp: insert_delivery_def recorded_def list_ex_iff)

lemma insert_new: "insert_delivery source i x db = (True, db') \<Longrightarrow> recorded source i x db'"
  by (auto simp: insert_delivery_def recorded_def split: if_splits)

lemma webhook_checks_Inr:
  assumes "webhook_checks E now q = Inr ev"
  obtains secret t where "isWebhookSource (wq_source q)" and "wv_handlers E (wq_source q) \<noteq> None"
    and "wv_secrets E (webhookSecretName (wq_source q)) = Some secret" and "trim secret \<noteq> []"
    and "verifyWebhookSignature (wv_hmac E) secret (wq_signature q) (wq_body q) (now div 1000)
           defaultSignatureToleranceSeconds = Inr t"
    and "ev = \<lparr>we_source = wq_source q, we_deliveryId = trim (the (wq_deliveryId q)), we_body = wq_body q\<rparr>"
    and "wq_deliveryId q \<noteq> None"
  using assms that by (auto simp: webhook_checks_def split: if_splits option.splits sum.splits)

lemma receive_dispatched:
  assumes "receive E n m w q db = (out, db1, Some ev)"
  obtains db0 where "webhook_checks E n q = Inr ev"
    and "recorded (we_source ev) (we_deliveryId ev) (m + webhookDeliveryTtlSeconds * 1000) db0"
    and "out = Hook_accepted \<Longrightarrow> db1 = w 2 db0"
  using assms that insert_new
  by (fastforce simp: receive_def Let_def split_beta split: sum.splits if_splits intro: prod_eqI)

lemma receive_remembered:
  assumes "recorded (wq_source q) (trim (the (wq_deliveryId q))) e db" and "m < e"
    and "\<And>k d. delivery_steps (wq_source q) (trim (the (wq_deliveryId q))) e d (w k d)"
  shows "snd (snd (receive E n m w q db)) = None"
proof (cases "webhook_checks E n q")
  case (Inl x)
  then show ?thesis by (simp add: receive_def)
next
  case (Inr ev)
  let ?s = "wq_source q" and ?i = "trim (the (wq_deliveryId q))"
  have ev: "we_source ev = ?s" "we_deliveryId ev = ?i" using Inr by (auto elim: webhook_checks_Inr)
  have "recorded ?s ?i e (w 1 (sweep_deliveries m (w 0 db)))"
    using delivery_steps_recorded [OF assms(3)] delivery_step_recorded [OF delivery_step.swept [OF assms(2)]] assms(1)
    by blast
  then show ?thesis using Inr ev insert_recorded by (simp add: receive_def)
qed

text \<open>A state is consumed once: the row is kept, marked, until it expires.\<close>

definition spent :: "string \<Rightarrow> int \<Rightarrow> ingress_db \<Rightarrow> bool" where
  "spent h e db \<longleftrightarrow> (\<exists>r \<in> set (ig_states db). or_stateHash r = h \<and> or_expiresAt r = e \<and> or_consumedAt r \<noteq> None) \<and>
     distinct (map or_stateHash (ig_states db))"

inductive state_step :: "int \<Rightarrow> ingress_db \<Rightarrow> ingress_db \<Rightarrow> bool" for e where
  swept: "now < e \<Longrightarrow> state_step e db (sweep_states now db)"
| inserted: "state_step e db (snd (insert_state h b x db))"
| consumed: "state_step e db (snd (oauth_consume sha256 now st db))"
| deliveries: "ig_states db' = ig_states db \<Longrightarrow> state_step e db db'"

interpretation con: keyed_update or_stateHash "\<lambda>r. r\<lparr>or_consumedAt := Some now\<rparr>" for now
  by unfold_locales simp

lemma state_step_spent:
  assumes "state_step e db db'" and "spent h e db"
  shows "spent h e db'"
  using assms
proof cases
  case (swept now)
  then show ?thesis using assms(2) by (auto simp: spent_def sweep_states_def distinct_map_filter)
next
  case (inserted k b x)
  then show ?thesis using assms(2) by (auto simp: spent_def insert_state_def list_ex_iff)
next
  case (consumed sha256 now st)
  obtain r where r: "r \<in> set (ig_states db)" "or_stateHash r = h" "or_expiresAt r = e" "or_consumedAt r \<noteq> None"
    using assms(2) by (auto simp: spent_def)
  have "\<exists>r \<in> set (ig_states db'). or_stateHash r = h \<and> or_expiresAt r = e \<and> or_consumedAt r \<noteq> None"
    using r unfolding consumed(1)
    by (auto simp: oauth_consume_def Let_def update_where_def image_iff intro!: bexI [of _ r])
  moreover have "distinct (map or_stateHash (ig_states db'))"
    using assms(2) unfolding consumed(1) by (simp add: oauth_consume_def Let_def spent_def)
  ultimately show ?thesis by (simp add: spent_def)
qed (simp add: spent_def)

lemma state_steps_spent: "(state_step e)\<^sup>*\<^sup>* db db' \<Longrightarrow> spent h e db \<Longrightarrow> spent h e db'"
  by (induction rule: rtranclp_induct) (auto intro: state_step_spent)

lemma spent_refused:
  assumes "spent (sha256 st) e db"
  shows "fst (oauth_consume sha256 now st db) = None"
proof -
  obtain r where r: "r \<in> set (ig_states db)" "or_stateHash r = sha256 st" "or_consumedAt r \<noteq> None"
    and d: "distinct (map or_stateHash (ig_states db))" using assms by (auto simp: spent_def)
  have "x = r" if "x \<in> set (ig_states db)" "or_stateHash x = sha256 st" for x
    using that r(1,2) d by (auto simp: distinct_map inj_on_def)
  then have "returning (\<lambda>r. or_stateHash r = sha256 st \<and> or_consumedAt r = None \<and> or_expiresAt r > now)
      (\<lambda>r. r\<lparr>or_consumedAt := Some now\<rparr>) (ig_states db) = []"
    using r(3) by (auto simp: returning_Nil)
  then show ?thesis by (simp add: oauth_consume_def Let_def)
qed

lemma consumed_spent:
  assumes "oauth_consume sha256 now st db = (Some b, db')" and "distinct (map or_stateHash (ig_states db))"
  obtains r where "r \<in> set (ig_states db)" and "or_stateHash r = sha256 st" and "or_binding r = b"
    and "or_consumedAt r = None" and "now < or_expiresAt r" and "spent (sha256 st) (or_expiresAt r) db'"
proof -
  let ?P = "\<lambda>r. or_stateHash r = sha256 st \<and> or_consumedAt r = None \<and> or_expiresAt r > now"
  let ?f = "\<lambda>r. r\<lparr>or_consumedAt := Some now\<rparr>"
  have "returning ?P ?f (ig_states db) \<noteq> []"
    using assms(1) by (auto simp: oauth_consume_def Let_def)
  then obtain r rs where rs: "filter ?P (ig_states db) = r # rs" by (auto simp: returning_def neq_Nil_conv)
  then have "r \<in> set (filter ?P (ig_states db))" by simp
  then have r: "r \<in> set (ig_states db)" "?P r" by auto
  have r3: "first_row (returning ?P ?f (ig_states db)) = Some (?f r)" using rs by (simp add: returning_def)
  have b: "or_binding r = b" and db': "db' = db\<lparr>ig_states := update_where ?P ?f (ig_states db)\<rparr>"
    using assms(1) r3 by (auto simp: oauth_consume_def Let_def)
  have "?f r \<in> set (ig_states db')" using r(1,2) db' by (auto simp: update_where_def image_iff intro!: bexI [of _ r])
  moreover have "distinct (map or_stateHash (ig_states db'))" using assms(2) db' by simp
  ultimately have "spent (sha256 st) (or_expiresAt r) db'"
    using r(2) unfolding spent_def by (intro conjI bexI [of _ "?f r"]) auto
  with r b that show thesis by blast
qed

lemma oauth_state_once:
  assumes "oauth_consume sha256 now st db = (Some b, db1)" and "distinct (map or_stateHash (ig_states db))"
  obtains r where "r \<in> set (ig_states db)" and "or_stateHash r = sha256 st" and "or_binding r = b"
    and "now < or_expiresAt r"
    and "\<And>db2 now'. (state_step (or_expiresAt r))\<^sup>*\<^sup>* db1 db2 \<Longrightarrow> fst (oauth_consume sha256 now' st db2) = None"
proof -
  obtain r where r: "r \<in> set (ig_states db)" "or_stateHash r = sha256 st" "or_binding r = b" "now < or_expiresAt r"
      "spent (sha256 st) (or_expiresAt r) db1"
    using consumed_spent [OF assms] by metis
  then show thesis using that [OF r(1-4)] spent_refused state_steps_spent [OF _ r(5)] by blast
qed

end
