(* ===== verification/Ingress_Properties.thy ===== *)
theory Ingress_Properties
  imports Webhooks
begin

text \<open>
  The correctness properties of the unauthenticated ingress: which requests reach a handler, how
  often, and what a signature covers.
\<close>

text \<open>
  C14: A webhook reaches its handler only when it is signed and fresh, and once per delivery. A
  handler was given an event only if the source is canonical, registered and has a secret, the
  digest is the keyed hash of the signed time and exactly the body the handler gets, and that time
  is within the tolerance of the clock. Once a delivery was accepted, then through sweeps,
  insertions and releases of other deliveries by other requests, no request of that source with
  the same delivery id reaches a handler as long as its clock has not reached the end of the
  delivery's time to live.
\<close>

theorem webhook_dispatch_once:
  assumes "receive E n m w q db = (out, db1, Some ev)"
  shows "ev = \<lparr>we_source = wq_source q, we_deliveryId = trim (the (wq_deliveryId q)), we_body = wq_body q\<rparr> \<and>
    isWebhookSource (wq_source q) \<and> wv_handlers E (wq_source q) \<noteq> None \<and>
    (\<exists>secret p. wv_secrets E (webhookSecretName (wq_source q)) = Some secret \<and> trim secret \<noteq> [] \<and>
       parseWebhookSignature (wq_signature q) = Some p \<and> \<bar>n div 1000 - int (sg_timestampSeconds p)\<bar> \<le> 300 \<and>
       sg_digest p = wv_hmac E secret (dec (sg_timestampSeconds p) @ ''.'' @ we_body ev)) \<and>
    (\<forall>e. e = m + 86400 * 1000 \<and> out = Hook_accepted \<and> (\<forall>k d. delivery_steps (we_source ev) (we_deliveryId ev) e d (w k d)) \<longrightarrow>
       (\<forall>db2 E' n' m' w' q'. delivery_steps (we_source ev) (we_deliveryId ev) e db1 db2 \<and> m' < e \<and>
          (\<forall>k d. delivery_steps (we_source ev) (we_deliveryId ev) e d (w' k d)) \<and>
          wq_source q' = we_source ev \<and> trim (the (wq_deliveryId q')) = we_deliveryId ev \<longrightarrow>
          snd (snd (receive E' n' m' w' q' db2)) = None))"
proof -
  obtain db0 where r: "webhook_checks E n q = Inr ev"
      "recorded (we_source ev) (we_deliveryId ev) (m + webhookDeliveryTtlSeconds * 1000) db0"
      "out = Hook_accepted \<Longrightarrow> db1 = w 2 db0"
    using receive_dispatched [OF assms] by metis
  obtain secret t where c: "isWebhookSource (wq_source q)" "wv_handlers E (wq_source q) \<noteq> None"
      "wv_secrets E (webhookSecretName (wq_source q)) = Some secret" "trim secret \<noteq> []"
      "verifyWebhookSignature (wv_hmac E) secret (wq_signature q) (wq_body q) (n div 1000)
         defaultSignatureToleranceSeconds = Inr t"
      "ev = \<lparr>we_source = wq_source q, we_deliveryId = trim (the (wq_deliveryId q)), we_body = wq_body q\<rparr>"
    using webhook_checks_Inr [OF r(1)] by metis
  obtain p where p: "parseWebhookSignature (wq_signature q) = Some p" "\<bar>n div 1000 - int (sg_timestampSeconds p)\<bar> \<le> 300"
      "sg_digest p = wv_hmac E secret (dec (sg_timestampSeconds p) @ ''.'' @ we_body ev)"
    using c(5,6) by (auto simp: verify_Inr defaultSignatureToleranceSeconds_def signed_payload_def)
  have once: "snd (snd (receive E' n' m' w' q' db2)) = None"
    if "e = m + 86400 * 1000" "out = Hook_accepted" "\<And>k d. delivery_steps (we_source ev) (we_deliveryId ev) e d (w k d)"
      "delivery_steps (we_source ev) (we_deliveryId ev) e db1 db2" "m' < e"
      "\<And>k d. delivery_steps (we_source ev) (we_deliveryId ev) e d (w' k d)"
      "wq_source q' = we_source ev" "trim (the (wq_deliveryId q')) = we_deliveryId ev" for e db2 E' n' m' w' q'
  proof (rule receive_remembered)
    have "recorded (we_source ev) (we_deliveryId ev) e db1"
      using delivery_steps_recorded [OF that(3)] r(2,3) that(1,2) by (simp add: webhookDeliveryTtlSeconds_def)
    then show "recorded (wq_source q') (trim (the (wq_deliveryId q'))) e db2"
      using delivery_steps_recorded [OF that(4)] that(7,8) by simp
  qed (use that in simp_all)
  show ?thesis
  proof (intro conjI allI impI)
    show "\<exists>secret p. wv_secrets E (webhookSecretName (wq_source q)) = Some secret \<and> trim secret \<noteq> [] \<and>
       parseWebhookSignature (wq_signature q) = Some p \<and> \<bar>n div 1000 - int (sg_timestampSeconds p)\<bar> \<le> 300 \<and>
       sg_digest p = wv_hmac E secret (dec (sg_timestampSeconds p) @ ''.'' @ we_body ev)"
      using c(3,4) p by blast
  next
    fix e db2 E' n' m' and w' :: "nat \<Rightarrow> ingress_db \<Rightarrow> ingress_db" and q' :: webhook_request
    assume "e = m + 86400 * 1000 \<and> out = Hook_accepted \<and> (\<forall>k d. delivery_steps (we_source ev) (we_deliveryId ev) e d (w k d))"
      and "delivery_steps (we_source ev) (we_deliveryId ev) e db1 db2 \<and> m' < e \<and>
          (\<forall>k d. delivery_steps (we_source ev) (we_deliveryId ev) e d (w' k d)) \<and>
          wq_source q' = we_source ev \<and> trim (the (wq_deliveryId q')) = we_deliveryId ev"
    then show "snd (snd (receive E' n' m' w' q' db2)) = None" by (intro once [where e = e]) blast+
  qed (rule c)+
qed

text \<open>What a sender signs is accepted within the tolerance, for a keyed hash of 1 to 64 bytes.\<close>

lemma signature_round_trip:
  assumes "1 \<le> length (hmac secret (signed_payload t body))" and "length (hmac secret (signed_payload t body)) \<le> 64"
    and "length (dec t) \<le> 12" and "\<bar>now - int t\<bar> \<le> tol"
  shows "verifyWebhookSignature hmac secret (Some (signWebhookBody hmac secret t body)) body now tol = Inr t"
proof -
  let ?d = "hmac secret (signed_payload t body)"
  have dg: "is_digits (dec t)" "\<And>c. c \<in> set (dec t) \<Longrightarrow> \<not> is_space c \<and> c \<noteq> CHR '',''"
  proof -
    have "\<not> is_space c \<and> c \<noteq> CHR '',''" if "is_digit c" for c
      using that by (auto simp: is_digit_def is_space_def code_unit_def)
    then show "is_digits (dec t)" "\<And>c. c \<in> set (dec t) \<Longrightarrow> \<not> is_space c \<and> c \<noteq> CHR '',''"
      using dec_digits [of _ t] by (auto simp: is_digits_def list_all_iff)
  qed
  have hx: "c \<in> set (hex_text ?d) \<Longrightarrow> \<not> is_space c \<and> c \<noteq> CHR '',''" for c
    using hex_text_ok(1) [of ?d] by (auto simp: list_all_iff hex_value_def is_space_def code_unit_def Let_def split: if_splits)
  have sp: "split_on (CHR '','') (signWebhookBody hmac secret t body) = [''t='' @ dec t, ''v1='' @ hex_text ?d]"
  proof -
    have "split_on (CHR '','') ((''t='' @ dec t) @ CHR '','' # (''v1='' @ hex_text ?d)) =
        [''t='' @ dec t] @ split_on (CHR '','') (''v1='' @ hex_text ?d)"
      using dg(2) by (intro split_by_append_sep [THEN trans]) (auto simp: split_by_none)
    then show ?thesis using hx by (simp add: signWebhookBody_def split_by_none)
  qed
  have "trim (dec t) = dec t" "trim (hex_text ?d) = hex_text ?d" using dg(2) hx by (auto intro!: trim_no_space)
  moreover have "trim ''t'' = ''t''" "trim ''v1'' = ''v1''" by (auto intro!: trim_no_space simp: is_space_def code_unit_def)
  ultimately have "part_value (''t='' @ dec t) = (''t'', dec t)" "part_value (''v1='' @ hex_text ?d) = (''v1'', hex_text ?d)"
    by (simp_all add: part_value_def)
  then have "signature_parts (None, None) [''t='' @ dec t, ''v1='' @ hex_text ?d] = Some (Some t, Some ?d)"
    using dg(1) hex_text_ok [of ?d] assms(1-3)
    by (auto simp: signature_part_def maxDigestHexLength_def)
  then have "parseWebhookSignature (Some (signWebhookBody hmac secret t body)) =
      Some \<lparr>sg_timestampSeconds = t, sg_digest = ?d\<rparr>" by (simp add: parseWebhookSignature_def sp)
  then show ?thesis using assms(4) by (auto simp: verifyWebhookSignature_def)
qed

definition demo_hook :: webhook_env where
  "demo_hook = \<lparr>wv_hmac = (\<lambda>k m. ''d''), wv_secrets = (\<lambda>n. if n = ''PORKBOT_WEBHOOK_SECRET_A'' then Some ''k'' else None),
     wv_handlers = (\<lambda>n. if n = ''a'' then Some (\<lambda>e. True) else None), wv_releases = True\<rparr>"

definition demo_delivery :: "string \<Rightarrow> webhook_request" where
  "demo_delivery i = \<lparr>wq_source = ''a'', wq_signature = Some ''t=1,v1=64'', wq_deliveryId = Some i, wq_body = ''{}''\<rparr>"

abbreviation demo_receive :: "string \<Rightarrow> ingress_db \<Rightarrow> webhook_outcome \<times> ingress_db \<times> webhook_event option" where
  "demo_receive i \<equiv> receive demo_hook 1000 1000 (\<lambda>k d. d) (demo_delivery i)"

abbreviation no_deliveries :: ingress_db where
  "no_deliveries \<equiv> \<lparr>ig_deliveries = [], ig_states = []\<rparr>"

lemma demo_dispatched: "snd (snd (demo_receive ''1'' no_deliveries)) = Some \<lparr>we_source = ''a'', we_deliveryId = ''1'', we_body = ''{}''\<rparr>"
  "fst (demo_receive ''1'' no_deliveries) = Hook_accepted"
  by code_simp+

theorem webhook_dispatch_once_witness:
  "fst (demo_receive ''1'' no_deliveries) = Hook_accepted \<and>
   snd (snd (demo_receive '' 1 '' (fst (snd (demo_receive ''1'' no_deliveries))))) = None"
proof -
  let ?ev = "\<lparr>we_source = ''a'', we_deliveryId = ''1'', we_body = ''{}''\<rparr>"
  have e: "demo_receive ''1'' no_deliveries = (Hook_accepted, fst (snd (demo_receive ''1'' no_deliveries)), Some ?ev)"
    using demo_dispatched by (intro prod_eqI) auto
  have t: "trim (the (wq_deliveryId (demo_delivery '' 1 ''))) = ''1''" by code_simp
  show ?thesis
    using webhook_dispatch_once [OF e] demo_dispatched(2) t by (simp add: demo_delivery_def)
qed

text \<open>
  The delivery id is not part of what is signed: the same signature and body under another id
  reach the handler again while the signature is fresh.
\<close>

lemma replay_under_new_id:
  "snd (snd (demo_receive ''2'' (fst (snd (demo_receive ''1'' no_deliveries))))) =
     Some \<lparr>we_source = ''a'', we_deliveryId = ''2'', we_body = ''{}''\<rparr>"
  by code_simp

end
