(* ===== verification/Notices.thy ===== *)
theory Notices
  imports Run_Database Approval_Store Deployment Backoff Calendar Bot_Secrets
begin

text \<open>
  Telling an operator: the preference rows (\<open>packages/db/src/notification-store.ts\<close>), one
  delivery with its retries (\<open>packages/effect/src/notification-delivery.ts\<close>) and what the worker
  says of a run (\<open>apps/worker/src/run-notifications.ts\<close>). The provider answers each attempt as an
  argument says; log lines are left out.
\<close>

section \<open>Preferences\<close>

record member_row =
  mb_spaceId :: string
  mb_userId :: string

record preference_row =
  pf_spaceId :: string
  pf_userId :: string
  pf_kind :: notification_kind
  pf_enabled :: bool

record notice_tables =
  nt_members :: "member_row list"
  nt_preferences :: "preference_row list"

datatype eligibility = El_enabled | El_disabled | El_not_a_recipient

definition uuid_hex :: "char \<Rightarrow> bool" where
  "uuid_hex c = (is_digit c \<or> (97 \<le> code_unit c \<and> code_unit c \<le> 102) \<or> (65 \<le> code_unit c \<and> code_unit c \<le> 70))"

definition isUuid :: "string \<Rightarrow> bool" where
  "isUuid s = (map length (split_on (CHR ''-'') s) = [8, 4, 4, 4, 12] \<and>
     list_all (list_all uuid_hex) (split_on (CHR ''-'') s))"

definition is_member :: "notice_tables \<Rightarrow> string \<Rightarrow> string \<Rightarrow> bool" where
  "is_member db spaceId userId = list_ex (\<lambda>m. mb_spaceId m = spaceId \<and> mb_userId m = userId) (nt_members db)"

definition preference_of :: "notice_tables \<Rightarrow> string \<Rightarrow> string \<Rightarrow> notification_kind \<Rightarrow> preference_row option" where
  "preference_of db spaceId userId k =
     find (\<lambda>p. pf_spaceId p = spaceId \<and> pf_userId p = userId \<and> pf_kind p = k) (nt_preferences db)"

definition notice_eligibility :: "notice_tables \<Rightarrow> string \<Rightarrow> string \<Rightarrow> notification_kind \<Rightarrow> eligibility" where
  "notice_eligibility db spaceId userId k =
     (if \<not> isUuid userId then El_not_a_recipient
      else if \<not> is_member db spaceId userId then El_not_a_recipient
      else if (case preference_of db spaceId userId k of None \<Rightarrow> False | Some p \<Rightarrow> pf_enabled p) then El_enabled
      else El_disabled)"

text \<open>The order of the rows is that of the enumeration, whose kinds are distinct in a user's rows.\<close>

definition preferences_read :: "notice_tables \<Rightarrow> string \<Rightarrow> string \<Rightarrow> notification_preferences" where
  "preferences_read db spaceId userId =
     resolveNotificationPreferences (concat (map (\<lambda>k.
       map (\<lambda>p. (notification_name (pf_kind p), pf_enabled p))
         (filter (\<lambda>p. pf_spaceId p = spaceId \<and> pf_userId p = userId \<and> pf_kind p = k) (nt_preferences db)))
       NOTIFICATION_KINDS))"

definition preference_upsert ::
  "notice_tables \<Rightarrow> string \<Rightarrow> string \<Rightarrow> notification_kind \<Rightarrow> bool \<Rightarrow> bool \<times> notice_tables" where
  "preference_upsert db spaceId userId k enabled =
     (let new = \<lparr>pf_spaceId = spaceId, pf_userId = userId, pf_kind = k, pf_enabled = enabled\<rparr> in
      if \<not> is_member db spaceId userId then (False, db)
      else (True, db\<lparr>nt_preferences :=
        (case preference_of db spaceId userId k of
           None \<Rightarrow> nt_preferences db @ [new]
         | Some _ \<Rightarrow> update_where (\<lambda>p. pf_spaceId p = spaceId \<and> pf_userId p = userId \<and> pf_kind p = k)
                       (\<lambda>p. p\<lparr>pf_enabled := enabled\<rparr>) (nt_preferences db))\<rparr>))"

text \<open>\<open>set\<close>: the refusal without a membership, or the switches read back; \<open>w\<close> acts in between.\<close>

definition preference_set ::
  "(notice_tables \<Rightarrow> notice_tables) \<Rightarrow> notice_tables \<Rightarrow> string \<Rightarrow> string \<Rightarrow> notification_kind \<Rightarrow> bool \<Rightarrow>
   (unit + notification_preferences) \<times> notice_tables" where
  "preference_set w db spaceId userId k enabled =
     (let (wrote, db') = preference_upsert db spaceId userId k enabled in
      if \<not> wrote then (Inl (), db') else (Inr (preferences_read (w db') spaceId userId), w db'))"

section \<open>One delivery\<close>

datatype provider_failure_kind = PF_gone | PF_not_found | PF_rate_limited | PF_timed_out | PF_auth_failed

text \<open>A receipt, a classified failure with the text the outcome names, or any other thrown value.\<close>

datatype provider_answer = Receipt string | Provider_failed provider_failure_kind string | Provider_broke

record notification_request =
  nr_recipientUserId :: string
  nr_kind :: notification_kind
  nr_title :: string
  nr_body :: string
  nr_url :: "string option"

datatype suppression_reason = By_preference | Not_a_recipient

datatype delivery_outcome =
    Delivered string nat
  | Suppressed suppression_reason
  | Undelivered provider_failure_kind string nat

datatype delivery_error = Max_attempts_range | Backoff_range range_error | Adapter_threw

definition defaultMaxAttempts :: nat where "defaultMaxAttempts = 3"

definition retryable :: "provider_failure_kind \<Rightarrow> bool" where
  "retryable k = (k = PF_rate_limited \<or> k = PF_timed_out)"

definition resolveMaxAttempts :: "jsnum option \<Rightarrow> delivery_error + nat" where
  "resolveMaxAttempts raw =
     (case raw of
        None \<Rightarrow> Inr defaultMaxAttempts
      | Some n \<Rightarrow> if \<not> isSafeInteger n \<or> to_int n < 1 then Inl Max_attempts_range else Inr (nat (to_int n)))"

fun suppressionReason :: "eligibility \<Rightarrow> suppression_reason" where
  "suppressionReason El_not_a_recipient = Not_a_recipient"
| "suppressionReason _ = By_preference"

record delivery_options =
  do_maxAttempts :: "jsnum option"
  do_backoff :: "backoff_policy option"
  do_random :: "nat \<Rightarrow> jsnum"
  do_provider :: "nat \<Rightarrow> provider_answer"

text \<open>The loop over the attempts from \<open>n\<close> on; an exception ends it.\<close>

function attempt_series ::
  "nat \<Rightarrow> (nat \<Rightarrow> provider_answer) \<Rightarrow> backoff_policy option \<Rightarrow> (nat \<Rightarrow> jsnum) \<Rightarrow> nat \<Rightarrow> delivery_error + delivery_outcome" where
  "attempt_series maxAttempts provider policy rnd n =
     (case provider n of
        Receipt i \<Rightarrow> Inr (Delivered i n)
      | Provider_broke \<Rightarrow> Inl Adapter_threw
      | Provider_failed k detail \<Rightarrow>
          if \<not> retryable k \<or> n \<ge> maxAttempts then Inr (Undelivered k detail n)
          else (case backoffDelayMs (Fin (of_nat n)) policy (rnd n) of
                  Inl e \<Rightarrow> Inl (Backoff_range e)
                | Inr _ \<Rightarrow> attempt_series maxAttempts provider policy rnd (n + 1)))"
  by pat_completeness auto
termination by (relation "measure (\<lambda>(m, _, _, _, n). m - n)") auto

declare attempt_series.simps [simp del]

definition notice_deliver ::
  "delivery_options \<Rightarrow> (string \<Rightarrow> notification_kind \<Rightarrow> eligibility) \<Rightarrow> notification_request \<Rightarrow>
   delivery_error + delivery_outcome" where
  "notice_deliver O' eligible q =
     bindE (resolveMaxAttempts (do_maxAttempts O')) (\<lambda>maxAttempts.
       let e = eligible (nr_recipientUserId q) (nr_kind q) in
       if e \<noteq> El_enabled then Inr (Suppressed (suppressionReason e))
       else attempt_series maxAttempts (do_provider O') (do_backoff O') (do_random O') 1)"

section \<open>What is said of a run\<close>

text \<open>\<open>toISOString\<close> of an instant whose year has four digits.\<close>

fun padded :: "nat \<Rightarrow> int \<Rightarrow> string" where
  "padded width v = (let d = dec (nat v) in replicate (width - length d) (CHR ''0'') @ d)"

definition toISOString :: "int \<Rightarrow> string" where
  "toISOString ms =
     padded 4 (getUTCFullYear ms) @ ''-'' @ padded 2 (utcMonth ms) @ ''-'' @ padded 2 (getUTCDate ms) @ ''T'' @
     padded 2 (ms mod DAY_MS div HOUR_MS) @ '':'' @ padded 2 (ms mod HOUR_MS div MINUTE_MS) @ '':'' @
     padded 2 (ms mod MINUTE_MS div 1000) @ ''.'' @ padded 3 (ms mod 1000) @ ''Z''"

definition RUN_RECLAIM_FAILURES :: "run_reclaim_failure list" where
  "RUN_RECLAIM_FAILURES = [Checkpoint_absent, Checkpoint_unreadable]"

fun reclaim_failure_name :: "run_reclaim_failure \<Rightarrow> string" where
  "reclaim_failure_name Checkpoint_absent = ''checkpoint_absent''"
| "reclaim_failure_name Checkpoint_unreadable = ''checkpoint_unreadable''"

definition isReclaimFailure :: "string \<Rightarrow> bool" where
  "isReclaimFailure code = (code \<in> set (map reclaim_failure_name RUN_RECLAIM_FAILURES))"

record notification_message =
  nm_kind :: notification_kind
  nm_title :: string
  nm_body :: string

definition settledMessage :: "run_row \<Rightarrow> notification_message option" where
  "settledMessage r =
     (case ls_status r of
        Completed \<Rightarrow>
          Some \<lparr>nm_kind = N_completed, nm_title = ''A run has finished'', nm_body = ''The run finished successfully.''\<rparr>
      | Failed \<Rightarrow>
          Some (if (case rw_errorCode r of None \<Rightarrow> False | Some c \<Rightarrow> isReclaimFailure c)
            then \<lparr>nm_kind = N_failed, nm_title = ''A run has timed out'',
                  nm_body = ''Its worker stopped responding and there was nothing to resume.''\<rparr>
            else \<lparr>nm_kind = N_failed, nm_title = ''A run has failed'', nm_body = ''The run failed before it finished.''\<rparr>)
      | _ \<Rightarrow> None)"

definition stallBody :: "int \<Rightarrow> string option \<Rightarrow> string" where
  "stallBody stalledForMs tool =
     (let minutes = max 1 (js_round (of_int stalledForMs / 60000)) in
      ''No progress for '' @ dec (nat minutes) @ '' minute'' @ (if minutes = 1 then [] else ''s'') @ '' while '' @
      (case tool of None \<Rightarrow> ''running'' | Some t \<Rightarrow> ''running '' @ t) @ ''.'')"

text \<open>\<open>encodeURIComponent\<close> on code units below 256.\<close>

definition uri_unreserved :: "char \<Rightarrow> bool" where
  "uri_unreserved c = (is_digit c \<or> is_lower c \<or> is_upper c \<or> c \<in> set ''-_.!~*()'' \<or> code_unit c = 39)"

definition upper_nibble :: "nat \<Rightarrow> char" where
  "upper_nibble n = (if n < 10 then char_of (48 + n) else char_of (55 + n))"

definition encodeURIComponent :: "string \<Rightarrow> string" where
  "encodeURIComponent s = concat (map (\<lambda>c. if uri_unreserved c then [c]
     else concat (map (\<lambda>b. [CHR ''%'', upper_nibble (b div 16), upper_nibble (b mod 16)]) (utf8_char c))) s)"

definition runUrl :: "string \<Rightarrow> run_row \<Rightarrow> string" where
  "runUrl origin r =
     (if origin \<noteq> [] \<and> last origin = CHR ''/'' then butlast origin else origin) @
     ''/threads/'' @ encodeURIComponent (rw_threadId r) @ ''?run='' @ encodeURIComponent (rw_id r)"

text \<open>
  Where notices go: the origin of the links, the delivery options and the recipients' store. The
  user of a run is a column of its row that nothing changes.
\<close>

record notice_target =
  ng_origin :: string
  ng_options :: delivery_options
  ng_recipients :: notice_tables
  ng_userOf :: "string \<Rightarrow> string"

definition request_of :: "notice_target \<Rightarrow> run_row \<Rightarrow> notification_message \<Rightarrow> notification_request" where
  "request_of t r m =
     \<lparr>nr_recipientUserId = ng_userOf t (rw_id r), nr_kind = nm_kind m, nr_title = nm_title m, nr_body = nm_body m,
      nr_url = Some (runUrl (ng_origin t) r)\<rparr>"

text \<open>A notice that was handed to the delivery path, with what came of it; a throw is caught there.\<close>

record notice =
  no_runId :: string
  no_request :: notification_request
  no_outcome :: "delivery_error + delivery_outcome"

definition deliver_notice :: "notice_target \<Rightarrow> run_row \<Rightarrow> notification_message \<Rightarrow> notice" where
  "deliver_notice t r m =
     \<lparr>no_runId = rw_id r, no_request = request_of t r m,
      no_outcome = notice_deliver (ng_options t) (notice_eligibility (ng_recipients t) (rw_spaceId r)) (request_of t r m)\<rparr>"

text \<open>
  \<open>notifySettledRun\<close>: \<open>now\<close> is the clock of the claiming statement and \<open>spaceId\<close> the space of the
  caller's repositories.
\<close>

definition notifySettledRun ::
  "notice_target \<Rightarrow> int \<Rightarrow> string \<Rightarrow> run_row \<Rightarrow> run_tables \<Rightarrow> notice list \<times> run_tables" where
  "notifySettledRun t now spaceId r db =
     (case settledMessage r of
        None \<Rightarrow> ([], db)
      | Some m \<Rightarrow>
          (let (claimed, db') = claimRunNotification now db spaceId (rw_id r) in
           if claimed then ([deliver_notice t r m], db') else ([], db')))"

definition notifyStalledRun :: "notice_target \<Rightarrow> run_row \<Rightarrow> int \<Rightarrow> string option \<Rightarrow> notice list" where
  "notifyStalledRun t r stalledForMs tool =
     [deliver_notice t r \<lparr>nm_kind = N_stalled, nm_title = ''A run has stalled'', nm_body = stallBody stalledForMs tool\<rparr>]"

definition notifyApprovalRequested :: "notice_target \<Rightarrow> run_row \<Rightarrow> approval_row \<Rightarrow> notice list" where
  "notifyApprovalRequested t r a =
     (if ap_status a \<noteq> Pending then []
      else [deliver_notice t r
        \<lparr>nm_kind = N_needs_approval, nm_title = ''Approval needed'',
         nm_body = ''A run is waiting for approval to use '' @ ap_tool a @ ''. It will be denied after '' @
           toISOString (ap_expiresAt a) @ ''.''\<rparr>])"

section \<open>Facts\<close>

text \<open>The provider is asked at most \<open>maxAttempts\<close> times, and only transient failures are retried.\<close>

lemma attempt_series_bounds:
  assumes "attempt_series m provider policy rnd n = Inr res" and "n \<le> m"
  shows "\<exists>k. n \<le> k \<and> k \<le> m \<and>
    (\<forall>j. n \<le> j \<and> j < k \<longrightarrow> (\<exists>f d. provider j = Provider_failed f d \<and> retryable f)) \<and>
    ((\<exists>i. res = Delivered i k \<and> provider k = Receipt i) \<or>
     (\<exists>f d. res = Undelivered f d k \<and> provider k = Provider_failed f d \<and> (k = m \<or> \<not> retryable f)))"
  using assms
proof (induction m provider policy rnd n rule: attempt_series.induct)
  case (1 m provider policy rnd n)
  note simps = "1.prems"(1) [unfolded attempt_series.simps [of m provider policy rnd n]]
  show ?case
  proof (cases "provider n")
    case (Receipt i)
    then show ?thesis using simps "1.prems"(2) by auto
  next
    case (Provider_failed f d)
    show ?thesis
    proof (cases "\<not> retryable f \<or> n \<ge> m")
      case True
      then show ?thesis using simps "1.prems"(2) Provider_failed
        by (intro exI [of _ n]) auto
    next
      case False
      then obtain x where b: "backoffDelayMs (Fin (of_nat n)) policy (rnd n) = Inr x"
          "attempt_series m provider policy rnd (n + 1) = Inr res"
        using simps Provider_failed by (auto split: sum.splits)
      obtain k where k: "n + 1 \<le> k" "k \<le> m"
          "\<forall>j. n + 1 \<le> j \<and> j < k \<longrightarrow> (\<exists>f d. provider j = Provider_failed f d \<and> retryable f)"
          "(\<exists>i. res = Delivered i k \<and> provider k = Receipt i) \<or>
           (\<exists>f d. res = Undelivered f d k \<and> provider k = Provider_failed f d \<and> (k = m \<or> \<not> retryable f))"
        using "1.IH" [OF Provider_failed False b(1) b(2)] False by auto
      have "\<exists>f d. provider j = Provider_failed f d \<and> retryable f" if "n \<le> j" "j < k" for j
        using k(3) that Provider_failed False by (cases "j = n") auto
      then show ?thesis using k by (intro exI [of _ k]) auto
    qed
  qed (use simps in auto)
qed

text \<open>A suppressed delivery asks the provider nothing: the outcome does not depend on it.\<close>

lemma suppressed_asks_nothing:
  "eligible (nr_recipientUserId q) (nr_kind q) \<noteq> El_enabled \<Longrightarrow>
   notice_deliver (O'\<lparr>do_provider := p\<rparr>) eligible q = notice_deliver O' eligible q"
  by (simp add: notice_deliver_def)

lemma eligible_member: "notice_eligibility db s u k = El_enabled \<Longrightarrow> is_member db s u"
  by (simp add: notice_eligibility_def split: if_splits)

lemma eligible_after_set:
  "fst (preference_set w db s u k b) \<noteq> Inl () \<Longrightarrow> isUuid u \<Longrightarrow>
   notice_eligibility (snd (preference_upsert db s u k b)) s u k = (if b then El_enabled else El_disabled)"
proof -
  assume a: "fst (preference_set w db s u k b) \<noteq> Inl ()" "isUuid u"
  then have m: "is_member db s u" by (auto simp: preference_set_def preference_upsert_def split: if_splits)
  have upd: "find P (update_where P f xs) = Some (f y)" if "find P xs = Some y" "\<And>x. P x \<Longrightarrow> P (f x)" for P f y and xs :: "preference_row list"
    using that by (induction xs) (auto simp: update_where_def split: if_splits)
  let ?P = "\<lambda>p. pf_spaceId p = s \<and> pf_userId p = u \<and> pf_kind p = k"
  have "\<exists>p. preference_of (snd (preference_upsert db s u k b)) s u k = Some p \<and> pf_enabled p = b"
  proof (cases "preference_of db s u k")
    case None
    have "find P (xs @ [x]) = Some x" if "find P xs = None" "P x" for P x and xs :: "preference_row list"
      using that by (induction xs) (auto split: if_splits)
    then show ?thesis using None m by (simp add: preference_of_def preference_upsert_def Let_def)
  next
    case (Some p)
    then show ?thesis using m upd [of ?P "nt_preferences db" p "\<lambda>p. p\<lparr>pf_enabled := b\<rparr>"]
      by (simp add: preference_of_def preference_upsert_def Let_def)
  qed
  moreover have "is_member (snd (preference_upsert db s u k b)) s u"
    using m by (simp add: preference_upsert_def Let_def is_member_def)
  ultimately show ?thesis using a(2) by (auto simp: notice_eligibility_def)
qed

text \<open>
  A run is announced once: after a terminal notice was sent, then whatever other statements run,
  no later call for the same run sends another.
\<close>

lemma claimRunNotification_claimed:
  assumes "fst (claimRunNotification now db s i)"
  shows "\<exists>r. r \<in> set (runs (snd (claimRunNotification now db s i))) \<and> rw_id r = i \<and> rw_notifiedAt r = Some now"
  using assms by (force simp: claimRunNotification_def Let_def returning_Nil update_where_set)

lemma settled_notice_once:
  assumes "wf_run_tables db" and "notifySettledRun t now s r db = ([x], db')" and "run_db_step\<^sup>*\<^sup>* db' db2"
    and "rw_id r2 = rw_id r"
  shows "fst (notifySettledRun t2 now2 s2 r2 db2) = []"
proof -
  obtain m where m: "settledMessage r = Some m" "fst (claimRunNotification now db s (rw_id r))"
      "db' = snd (claimRunNotification now db s (rw_id r))"
    using assms(2) by (auto simp: notifySettledRun_def split: option.splits prod.splits if_splits)
  have wf: "wf_run_tables db'" unfolding m(3) by (rule step_wf [OF run_db_step.notify assms(1)])
  obtain row where row: "row \<in> set (runs db')" "rw_id row = rw_id r" "rw_notifiedAt row = Some now"
    using claimRunNotification_claimed [OF m(2)] m(3) by blast
  have "distinct (map rw_id (runs db'))" using wf by (simp add: wf_run_tables_def)
  then have "find_run db' (rw_id r) = Some row"
    using row(1,2) find_key_distinct [of rw_id "runs db'" row] by (simp add: find_run_def)
  then obtain row2 where row2: "find_run db2 (rw_id r) = Some row2" "row_evolves row row2"
    using steps_evolve [OF assms(3)] by blast
  have n2: "rw_notifiedAt row2 \<noteq> None" using row2(2) row(3) by (simp add: row_evolves_def)
  have d2: "distinct (map rw_id (runs db2))"
    using steps_wf [OF assms(3) wf] by (simp add: wf_run_tables_def)
  have "\<not> fst (claimRunNotification now2 db2 s2 (rw_id r))"
  proof -
    have "x = row2" if "x \<in> set (runs db2)" "rw_id x = rw_id r" for x
      using that row2(1) find_key_distinct [OF d2 that(1)] by (simp add: find_run_def)
    then show ?thesis using n2 by (auto simp: claimRunNotification_def Let_def returning_Nil)
  qed
  then show ?thesis using assms(4) by (auto simp: notifySettledRun_def split: option.splits prod.splits if_splits)
qed

end
