(* ===== verification/Run_Jobs.thy ===== *)
theory Run_Jobs
  imports Computer_Commands Notices
begin

text \<open>
  The worker's jobs that move runs: the delivery of a run (\<open>apps/worker/src/jobs/run-execute.ts\<close>)
  and the lease watchdog (\<open>apps/worker/src/jobs/lease-watchdog.ts\<close>), with the registry that names
  jobs (\<open>apps/worker/src/job-registry.ts\<close>). A job is a sequence of statements; before each one
  other connections may change the tables, and each has its own reading of the database's clock.
  The executor is an argument that returns or throws, and its calls are recorded; what it writes
  is what other connections do afterwards. A statement that fails for lack of a connection is not
  modelled, and log lines are left out.
\<close>

section \<open>The registry and the queue\<close>

datatype job_error =
    JobPayloadError string string
  | Registered_twice string
  | Not_registered string
  | Lost_lease lease_error
  | Without_owner string
  | Executor_threw

definition createJobRegistry :: "(string \<times> 'h) list \<Rightarrow> job_error + (string \<times> 'h) list" where
  "createJobRegistry jobs =
     foldE (\<lambda>taskList job. if fst job \<in> fst ` set taskList then Inl (Registered_twice (fst job))
                            else Inr (taskList @ [job])) [] jobs"

text \<open>A pending delivery; adding one with a key replaces the pending one of that key.\<close>

record queued_job =
  qj_identifier :: string
  qj_payload :: js
  qj_key :: "string option"

definition add_job :: "queued_job \<Rightarrow> queued_job list \<Rightarrow> queued_job list" where
  "add_job j jobs =
     (case qj_key j of None \<Rightarrow> jobs | Some k \<Rightarrow> filter (\<lambda>x. qj_key x \<noteq> Some k) jobs) @ [j]"

section \<open>The state of a worker\<close>

record worker_state =
  wk_db :: computer_db
  wk_turn :: nat
  wk_jobs :: "queued_job list"
  wk_notices :: "notice list"
  wk_executed :: "(run_row \<times> bool) list"

record job_env =
  je_jobId :: string
  je_now :: "nat \<Rightarrow> int"
  je_host :: "nat \<Rightarrow> int"
  je_others :: "nat \<Rightarrow> computer_db \<Rightarrow> computer_db"
  je_registered :: "string list"
  je_target :: "notice_target option"
  je_executor :: "run_row \<Rightarrow> bool \<Rightarrow> bool"

text \<open>One statement: what others did first, then the statement at its own instant.\<close>

definition statement :: "job_env \<Rightarrow> (int \<Rightarrow> computer_db \<Rightarrow> 'a \<times> computer_db) \<Rightarrow> worker_state \<Rightarrow> 'a \<times> worker_state" where
  "statement E f s =
     (let k = wk_turn s; (x, d) = f (je_now E k) (je_others E k (wk_db s)) in
      (x, s\<lparr>wk_db := d, wk_turn := k + 1\<rparr>))"

definition run_statement :: "job_env \<Rightarrow> (int \<Rightarrow> run_tables \<Rightarrow> 'a \<times> run_tables) \<Rightarrow> worker_state \<Rightarrow> 'a \<times> worker_state" where
  "run_statement E f = statement E (\<lambda>now. on_run_tables (f now))"

definition enqueue :: "job_env \<Rightarrow> queued_job \<Rightarrow> worker_state \<Rightarrow> (job_error + unit) \<times> worker_state" where
  "enqueue E j s =
     (if qj_identifier j \<notin> set (je_registered E) then (Inl (Not_registered (qj_identifier j)), s)
      else (Inr (), s\<lparr>wk_jobs := add_job j (wk_jobs s)\<rparr>))"

text \<open>\<open>findById\<close> in a space, with the not-found error as \<open>None\<close>.\<close>

definition find_in_space :: "string \<Rightarrow> string \<Rightarrow> int \<Rightarrow> run_tables \<Rightarrow> run_row option \<times> run_tables" where
  "find_in_space spaceId rid now db =
     (find (\<lambda>r. rw_id r = rid \<and> rw_spaceId r = spaceId) (runs db), db)"

definition readRun :: "job_env \<Rightarrow> string \<Rightarrow> string \<Rightarrow> worker_state \<Rightarrow> run_row option \<times> worker_state" where
  "readRun E spaceId rid = run_statement E (find_in_space spaceId rid)"

definition notify_settled :: "job_env \<Rightarrow> string \<Rightarrow> run_row \<Rightarrow> worker_state \<Rightarrow> worker_state" where
  "notify_settled E spaceId r s =
     (case je_target E of
        None \<Rightarrow> s
      | Some t \<Rightarrow>
          (let (sent, s') = run_statement E (\<lambda>now. notifySettledRun t now spaceId r) s in
           s'\<lparr>wk_notices := wk_notices s' @ sent\<rparr>))"

section \<open>Payloads\<close>

definition runExecuteIdentifier :: string where "runExecuteIdentifier = ''run.execute''"

definition leaseWatchdogIdentifier :: string where "leaseWatchdogIdentifier = ''run.watchdog''"

record run_execute_payload =
  xp_runId :: string
  xp_fence :: nat
  xp_spaceId :: string
  xp_owner :: "string option"

definition runExecutePayloadKeys :: "string list" where
  "runExecutePayloadKeys = [''runId'', ''fence'', ''spaceId'', ''owner'']"

definition requiredText :: "js_record \<Rightarrow> string \<Rightarrow> job_error + string" where
  "requiredText r key =
     (case as_string (getf r key) of
        None \<Rightarrow> Inl (JobPayloadError runExecuteIdentifier (''needs a non-empty \"'' @ key @ ''\"''))
      | Some v \<Rightarrow> if trim v = [] then Inl (JobPayloadError runExecuteIdentifier (''needs a non-empty \"'' @ key @ ''\"''))
                   else Inr (trim v))"

definition parseRunExecutePayload :: "js \<Rightarrow> job_error + run_execute_payload" where
  "parseRunExecutePayload payload =
     (case asRecord payload of
        None \<Rightarrow> Inl (JobPayloadError runExecuteIdentifier ''must be an object'')
      | Some r \<Rightarrow>
          (case find (\<lambda>k. k \<notin> set runExecutePayloadKeys) (map fst r) of
             Some k \<Rightarrow> Inl (JobPayloadError runExecuteIdentifier
               (''carries \"'' @ k @ ''\"; a job payload addresses the run and never carries work''))
           | None \<Rightarrow>
               (case getf r ''fence'' of
                  JNum q \<Rightarrow>
                    if \<not> isInteger q \<or> to_int q < 0
                    then Inl (JobPayloadError runExecuteIdentifier ''needs a non-negative integer \"fence\"'')
                    else if getf r ''owner'' \<noteq> JUndefined \<and>
                      (case as_string (getf r ''owner'') of None \<Rightarrow> True | Some v \<Rightarrow> trim v = [])
                    then Inl (JobPayloadError runExecuteIdentifier ''needs a non-empty \"owner\" when it is present'')
                    else bindE (requiredText r ''runId'') (\<lambda>i. bindE (requiredText r ''spaceId'') (\<lambda>sp.
                      Inr \<lparr>xp_runId = i, xp_fence = nat (to_int q), xp_spaceId = sp,
                           xp_owner = map_option trim (as_string (getf r ''owner''))\<rparr>))
                | _ \<Rightarrow> Inl (JobPayloadError runExecuteIdentifier ''needs a non-negative integer \"fence\"''))))"

definition parseLeaseWatchdogPayload :: "js \<Rightarrow> job_error + unit" where
  "parseLeaseWatchdogPayload payload =
     (case asRecord payload of
        None \<Rightarrow> Inl (JobPayloadError leaseWatchdogIdentifier ''must be an object'')
      | Some r \<Rightarrow>
          (case find (\<lambda>k. k \<noteq> ''_cron'') (map fst r) of
             Some k \<Rightarrow> Inl (JobPayloadError leaseWatchdogIdentifier
               (''carries \"'' @ k @ ''\"; the watchdog addresses no run and never carries work''))
           | None \<Rightarrow> Inr ()))"

definition defineJob ::
  "(js \<Rightarrow> job_error + 'p) \<Rightarrow> ('p \<Rightarrow> worker_state \<Rightarrow> (job_error + 'r) \<times> worker_state) \<Rightarrow>
   js \<Rightarrow> worker_state \<Rightarrow> (job_error + 'r) \<times> worker_state" where
  "defineJob parse handle payload s = (case parse payload of Inl e \<Rightarrow> (Inl e, s) | Inr p \<Rightarrow> handle p s)"

section \<open>Delivering a run\<close>

fun reclaimFailureMessage :: "run_reclaim_failure \<Rightarrow> string" where
  "reclaimFailureMessage Checkpoint_absent =
     ''The worker stopped before the run stored a checkpoint, so there was nothing to resume.''"
| "reclaimFailureMessage Checkpoint_unreadable =
     ''The run's checkpoint is not a session state object, so there was nothing a resume could trust.''"

definition expiredLeaseReason :: "int option \<Rightarrow> string" where
  "expiredLeaseReason expiresAt =
     (case expiresAt of
        None \<Rightarrow> ''the previous owner's lease expired and no heartbeat renewed it''
      | Some t \<Rightarrow> ''the previous owner's lease expired at '' @ toISOString t @ '' and no heartbeat renewed it'')"

definition execute_run :: "job_env \<Rightarrow> run_row \<Rightarrow> bool \<Rightarrow> worker_state \<Rightarrow> (job_error + unit) \<times> worker_state" where
  "execute_run E r resumed s =
     (if je_executor E r resumed then Inr () else Inl Executor_threw,
      s\<lparr>wk_executed := wk_executed s @ [(r, resumed)]\<rparr>)"

definition failure_patch :: "run_reclaim_failure \<Rightarrow> attempt_status option \<Rightarrow> fenced_run_patch" where
  "failure_patch reason attempt =
     \<lparr>pt_status = Some Failed, pt_checkpoint = None, pt_error = Some (Some (reclaimFailureMessage reason)),
      pt_errorCode = Some (Some (reclaim_failure_name reason)), pt_started = False, pt_completed = True,
      pt_release = False, pt_settleInFlight = None, pt_attempt = attempt\<rparr>"

text \<open>Fails the run under the lease its row carries; used by both jobs with their own patch.\<close>

definition fail_reclaimed ::
  "job_env \<Rightarrow> string \<Rightarrow> run_row \<Rightarrow> run_reclaim_failure \<Rightarrow> attempt_status option \<Rightarrow> worker_state \<Rightarrow>
   (job_error + run_row) \<times> worker_state" where
  "fail_reclaimed E spaceId r reason attempt s =
     (case ls_leaseOwner r of
        None \<Rightarrow> (Inl (Without_owner (rw_id r)), s)
      | Some owner \<Rightarrow>
          (let (res, s') = run_statement E (\<lambda>now db. updateClaimedRun now db spaceId (rw_id r)
                 \<lparr>lease_owner = owner, lease_fence = rw_leaseFence r\<rparr> (failure_patch reason attempt)) s in
           (case res of Inl e \<Rightarrow> Inl (Lost_lease e) | Inr x \<Rightarrow> Inr x, s')))"

definition resumeRun :: "job_env \<Rightarrow> string \<Rightarrow> run_row \<Rightarrow> worker_state \<Rightarrow> (job_error + unit) \<times> worker_state" where
  "resumeRun E spaceId r s =
     (case decideReclaim (rw_checkpoint r) of
        Resume \<Rightarrow> execute_run E r True s
      | Refuse_resume reason \<Rightarrow>
          (case fail_reclaimed E spaceId r reason (Some A_failed) s of
             (Inl e, s') \<Rightarrow> (Inl e, s')
           | (Inr failed, s') \<Rightarrow> (Inr (), notify_settled E spaceId failed s')))"

definition adopt_named ::
  "job_env \<Rightarrow> run_execute_payload \<Rightarrow> run_row \<Rightarrow> worker_state \<Rightarrow> (lease_error + run_row option) \<times> worker_state" where
  "adopt_named E p r s =
     (case xp_owner p of
        None \<Rightarrow> (Inr None, s)
      | Some prev \<Rightarrow>
          run_statement E (\<lambda>now db. adoptRun now db (xp_spaceId p) (rw_id r) (xp_fence p) (je_jobId E) prev) s)"

definition run_execute :: "job_env \<Rightarrow> run_execute_payload \<Rightarrow> worker_state \<Rightarrow> (job_error + unit) \<times> worker_state" where
  "run_execute E p s0 =
     (let (found, s1) = readRun E (xp_spaceId p) (xp_runId p) s0 in
      case found of
        None \<Rightarrow> (Inr (), s1)
      | Some r \<Rightarrow>
          if rw_leaseFence r \<noteq> xp_fence p then (Inr (), s1)
          else
            (let (claimed, s2) = run_statement E (\<lambda>now db. claimRun now db (xp_spaceId p) (rw_id r) (xp_fence p) (je_jobId E)) s1 in
             case claimed of
               Inl e \<Rightarrow> (Inl (Lost_lease e), s2)
             | Inr (Some x) \<Rightarrow> execute_run E x False s2
             | Inr None \<Rightarrow>
                 (let (adopted, s3) = adopt_named E p r s2 in
                  case adopted of
                    Inl e \<Rightarrow> (Inl (Lost_lease e), s3)
                  | Inr (Some x) \<Rightarrow> resumeRun E (xp_spaceId p) x s3
                  | Inr None \<Rightarrow>
                      (let (reclaimed, s4) = run_statement E (\<lambda>now db. reclaimRun now db (xp_spaceId p) (rw_id r) (xp_fence p)
                             (je_jobId E) \<lparr>rc_reason = expiredLeaseReason (rw_leaseExpiresAt r), rc_recordAttempt = None\<rparr>) s3 in
                       case reclaimed of
                         Inl e \<Rightarrow> (Inl (Lost_lease e), s4)
                       | Inr None \<Rightarrow> (Inr (), s4)
                       | Inr (Some x) \<Rightarrow> resumeRun E (xp_spaceId p) x s4))))"

definition runExecuteJob :: "job_env \<Rightarrow> js \<Rightarrow> worker_state \<Rightarrow> (job_error + unit) \<times> worker_state" where
  "runExecuteJob E = defineJob parseRunExecutePayload (run_execute E)"

section \<open>The watchdog\<close>

record watchdog_options =
  wo_batchLimit :: "nat option"
  wo_stallThresholdSeconds :: "int option"

datatype candidate_outcome = Cand_resumed | Cand_failed | Cand_skipped

definition holder_of :: "computer_lease \<Rightarrow> lease_holder" where
  "holder_of l = \<lparr>lh_botId = cl_botId l, lh_runId = cl_runId l, lh_owner = cl_owner l, lh_fence = cl_fence l\<rparr>"

definition release_stale :: "job_env \<Rightarrow> nat \<times> worker_state \<Rightarrow> computer_lease \<Rightarrow> nat \<times> worker_state" where
  "release_stale E acc l =
     (let (cleared, s) = statement E (\<lambda>now d. releaseComputerLease d (cl_spaceId l) (holder_of l)) (snd acc) in
      (if cleared then fst acc + 1 else fst acc, s))"

definition releaseStaleComputers :: "job_env \<Rightarrow> nat \<Rightarrow> worker_state \<Rightarrow> nat \<times> worker_state" where
  "releaseStaleComputers E batchLimit s =
     (let (expired, s1) = statement E (\<lambda>now d. (findExpiredComputerLeases now d batchLimit, d)) s in
      foldl (release_stale E) (0, s1) expired)"

definition isExpired :: "int \<Rightarrow> run_row \<Rightarrow> bool" where
  "isExpired hostNow r =
     (isActiveStatus (ls_status r) \<and> ls_leaseOwner r \<noteq> None \<and>
      (case rw_leaseExpiresAt r of None \<Rightarrow> False | Some t \<Rightarrow> t \<le> hostNow))"

definition resume_key :: "string \<Rightarrow> string" where
  "resume_key rid = runExecuteIdentifier @ '':'' @ rid"

definition resume_payload :: "run_row \<Rightarrow> string \<Rightarrow> js" where
  "resume_payload r jobId =
     JObj [(''runId'', JStr (rw_id r)), (''spaceId'', JStr (rw_spaceId r)),
           (''fence'', js_int (int (rw_leaseFence r))), (''owner'', JStr jobId)]"

definition resume_job :: "run_row \<Rightarrow> string \<Rightarrow> queued_job" where
  "resume_job r jobId =
     \<lparr>qj_identifier = runExecuteIdentifier, qj_payload = resume_payload r jobId, qj_key = Some (resume_key (rw_id r))\<rparr>"

definition after_reclaim ::
  "job_env \<Rightarrow> string \<Rightarrow> run_row \<Rightarrow> worker_state \<Rightarrow> (job_error + candidate_outcome) \<times> worker_state" where
  "after_reclaim E spaceId claimed s =
     (case decideReclaim (rw_checkpoint claimed) of
        Refuse_resume reason \<Rightarrow>
          (case fail_reclaimed E spaceId claimed reason None s of
             (Inl e, s') \<Rightarrow> (Inl e, s')
           | (Inr failed, s') \<Rightarrow> (Inr Cand_failed, notify_settled E spaceId failed s'))
      | Resume \<Rightarrow>
          (case enqueue E (resume_job claimed (je_jobId E)) s of
             (Inl e, s') \<Rightarrow> (Inl e, s')
           | (Inr _, s') \<Rightarrow> (Inr Cand_resumed, s')))"

definition reclaimCandidate ::
  "job_env \<Rightarrow> string \<Rightarrow> string \<Rightarrow> worker_state \<Rightarrow> (job_error + candidate_outcome) \<times> worker_state" where
  "reclaimCandidate E spaceId rid s =
     (let (found, s1) = readRun E spaceId rid s in
      case found of
        None \<Rightarrow> (Inr Cand_skipped, s1)
      | Some r \<Rightarrow>
          if \<not> isExpired (je_host E (wk_turn s1)) r then (Inr Cand_skipped, s1)
          else
            (let (claimed, s2) = run_statement E (\<lambda>now db. reclaimRun now db spaceId (rw_id r) (rw_leaseFence r) (je_jobId E)
                   \<lparr>rc_reason = expiredLeaseReason (rw_leaseExpiresAt r), rc_recordAttempt = Some False\<rparr>) s1 in
             case claimed of
               Inl e \<Rightarrow> (Inl (Lost_lease e), s2)
             | Inr None \<Rightarrow> (Inr Cand_skipped, s2)
             | Inr (Some x) \<Rightarrow> after_reclaim E spaceId x s2))"

definition recordStall :: "job_env \<Rightarrow> int \<Rightarrow> string \<Rightarrow> string \<Rightarrow> worker_state \<Rightarrow> run_row option \<times> worker_state" where
  "recordStall E threshold spaceId rid s =
     (let (found, s1) = readRun E spaceId rid s in
      case found of
        None \<Rightarrow> (None, s1)
      | Some r \<Rightarrow> run_statement E (\<lambda>now db. markRunStalled now db spaceId (rw_id r) threshold) s1)"

definition notifyStall :: "job_env \<Rightarrow> int \<Rightarrow> run_row \<Rightarrow> worker_state \<Rightarrow> worker_state" where
  "notifyStall E threshold r s =
     (case je_target E of
        None \<Rightarrow> s
      | Some t \<Rightarrow>
          (let liveness = assessRunLiveness (run_liveness_snapshot.truncate r) (je_host E (wk_turn s)) (of_int threshold) in
           s\<lparr>wk_notices := wk_notices s @ notifyStalledRun t r
               (case liveness of None \<Rightarrow> 0 | Some l \<Rightarrow> lv_sinceProgressMs l) (Option.bind liveness lv_tool)\<rparr>))"

record pass_report =
  pr_scanned :: nat
  pr_resumed :: nat
  pr_failed :: nat
  pr_stalled :: nat
  pr_marked :: nat
  pr_computersReleased :: nat

text \<open>The two loops; the first stops at the first exception, which ends the pass.\<close>

fun reclaim_all :: "job_env \<Rightarrow> expired_lease list \<Rightarrow> worker_state \<Rightarrow> (job_error + candidate_outcome list) \<times> worker_state" where
  "reclaim_all E [] s = (Inr [], s)"
| "reclaim_all E (x # xs) s =
     (case reclaimCandidate E (xl_spaceId x) (xl_runId x) s of
        (Inl e, s') \<Rightarrow> (Inl e, s')
      | (Inr oc, s') \<Rightarrow>
          (case reclaim_all E xs s' of (Inl e, s'') \<Rightarrow> (Inl e, s'') | (Inr ocs, s'') \<Rightarrow> (Inr (oc # ocs), s'')))"

definition stall_one :: "job_env \<Rightarrow> int \<Rightarrow> nat \<times> worker_state \<Rightarrow> string \<times> string \<Rightarrow> nat \<times> worker_state" where
  "stall_one E threshold acc x =
     (case recordStall E threshold (snd x) (fst x) (snd acc) of
        (None, s) \<Rightarrow> (fst acc, s)
      | (Some r, s) \<Rightarrow> (fst acc + 1, notifyStall E threshold r s))"

definition count_outcome :: "candidate_outcome \<Rightarrow> candidate_outcome list \<Rightarrow> nat" where
  "count_outcome oc ocs = length (filter (\<lambda>x. x = oc) ocs)"

definition watchdog_pass :: "job_env \<Rightarrow> watchdog_options \<Rightarrow> worker_state \<Rightarrow> (job_error + pass_report) \<times> worker_state" where
  "watchdog_pass E opts s =
     (let batchLimit = (case wo_batchLimit opts of None \<Rightarrow> RUN_WATCHDOG_BATCH_LIMIT | Some n \<Rightarrow> n);
          threshold = (case wo_stallThresholdSeconds opts of None \<Rightarrow> \<lfloor>RUN_STALL_THRESHOLD_SECONDS\<rfloor> | Some t \<Rightarrow> t);
          (expired, s1) = run_statement E (\<lambda>now db. (findExpiredLeases now db batchLimit, db)) s;
          (stalled, s2) = run_statement E (\<lambda>now db. (findStalledRuns now db threshold batchLimit, db)) s1;
          (released, s3) = releaseStaleComputers E batchLimit s2 in
      case reclaim_all E expired s3 of
        (Inl e, s4) \<Rightarrow> (Inl e, s4)
      | (Inr ocs, s4) \<Rightarrow>
          (let (marked, s5) = foldl (stall_one E threshold) (0, s4) stalled in
           (Inr \<lparr>pr_scanned = length expired, pr_resumed = count_outcome Cand_resumed ocs,
                 pr_failed = count_outcome Cand_failed ocs, pr_stalled = length stalled,
                 pr_marked = marked, pr_computersReleased = released\<rparr>, s5)))"

definition leaseWatchdogJob :: "job_env \<Rightarrow> watchdog_options \<Rightarrow> js \<Rightarrow> worker_state \<Rightarrow> (job_error + pass_report) \<times> worker_state" where
  "leaseWatchdogJob E opts = defineJob parseLeaseWatchdogPayload (\<lambda>_. watchdog_pass E opts)"

section \<open>Facts\<close>

text \<open>Other connections change the run tables by the statements of the database package only.\<close>

definition fair_job :: "job_env \<Rightarrow> bool" where
  "fair_job E \<longleftrightarrow> (\<forall>k d. run_db_step\<^sup>*\<^sup>* (cd_runs d) (cd_runs (je_others E k d)))"

abbreviation wk_runs :: "worker_state \<Rightarrow> run_tables" where
  "wk_runs s \<equiv> cd_runs (wk_db s)"

lemma run_statement_eq:
  "run_statement E f s =
     (let t = cd_runs (je_others E (wk_turn s) (wk_db s)); (x, t') = f (je_now E (wk_turn s)) t in
      (x, s\<lparr>wk_db := (je_others E (wk_turn s) (wk_db s))\<lparr>cd_runs := t'\<rparr>, wk_turn := wk_turn s + 1\<rparr>))"
  by (simp add: run_statement_def statement_def on_run_tables_def Let_def split: prod.split)

lemma run_statement_runs:
  assumes "run_statement E f s = (x, s')"
  shows "(x, wk_runs s') = f (je_now E (wk_turn s)) (cd_runs (je_others E (wk_turn s) (wk_db s)))"
    "wk_executed s' = wk_executed s" "wk_jobs s' = wk_jobs s" "wk_notices s' = wk_notices s"
    "wk_turn s' = wk_turn s + 1"
  using assms by (auto simp: run_statement_eq Let_def split: prod.splits)

text \<open>The read: what others did, and the row of the run in the space.\<close>

lemma readRun_runs:
  assumes "readRun E sp i s = (found, s')" and "fair_job E"
  shows "run_db_step\<^sup>*\<^sup>* (wk_runs s) (wk_runs s')" "wk_executed s' = wk_executed s"
    "found = find (\<lambda>r. rw_id r = i \<and> rw_spaceId r = sp) (runs (wk_runs s'))"
  using run_statement_runs [OF assms(1) [unfolded readRun_def]] assms(2)
  by (simp_all add: find_in_space_def fair_job_def)

text \<open>An attempt to take the lease of a run.\<close>

definition takes :: "job_env \<Rightarrow> run_execute_payload \<Rightarrow> run_tables \<Rightarrow> run_row \<Rightarrow> acquire_mode \<Rightarrow> run_tables \<Rightarrow> bool" where
  "takes E p t0 r mode t' \<longleftrightarrow> (\<exists>t now opt prev.
     run_db_step\<^sup>*\<^sup>* t0 t \<and> wf_run_tables t \<and> prev \<in> {None, xp_owner p} \<and>
     acquireRun now t (xp_spaceId p) (xp_runId p) (xp_fence p) (je_jobId E) mode opt prev = (Inr (Some r), t'))"

lemma takes_later: "run_db_step\<^sup>*\<^sup>* t0 t1 \<Longrightarrow> takes E p t1 r mode t' \<Longrightarrow> takes E p t0 r mode t'"
  unfolding takes_def using rtranclp_trans [of run_db_step t0 t1] by blast

text \<open>A statement that tries for the lease: it misses and changes nothing, or takes it.\<close>

definition tried :: "job_env \<Rightarrow> run_execute_payload \<Rightarrow> worker_state \<Rightarrow> acquire_mode \<Rightarrow> lease_error + run_row option \<Rightarrow> worker_state \<Rightarrow> bool" where
  "tried E p s mode x s' \<longleftrightarrow> wk_executed s' = wk_executed s \<and>
     (x = Inr None \<and> run_db_step\<^sup>*\<^sup>* (wk_runs s) (wk_runs s') \<and> wf_run_tables (wk_runs s') \<or>
      (\<exists>r. x = Inr (Some r) \<and> takes E p (wk_runs s) r mode (wk_runs s')))"

lemma acquire_statement:
  assumes "run_statement E (\<lambda>now db. acquireRun now db (xp_spaceId p) (xp_runId p) (xp_fence p) (je_jobId E) mode opt prev) s = (x, s')"
    and "fair_job E" and "wf_run_tables (wk_runs s)" and "prev \<in> {None, xp_owner p}"
  shows "tried E p s mode x s'"
proof -
  let ?t = "cd_runs (je_others E (wk_turn s) (wk_db s))" and ?now = "je_now E (wk_turn s)"
  have st: "run_db_step\<^sup>*\<^sup>* (wk_runs s) ?t" using assms(2) by (simp add: fair_job_def)
  have wf: "wf_run_tables ?t" by (rule steps_wf [OF st assms(3)])
  have a: "acquireRun ?now ?t (xp_spaceId p) (xp_runId p) (xp_fence p) (je_jobId E) mode opt prev = (x, wk_runs s')"
    and e: "wk_executed s' = wk_executed s"
    using run_statement_runs(1,2) [OF assms(1)] by simp_all
  show ?thesis
  proof (cases "acquirable ?t ?now (xp_spaceId p) (xp_runId p) (xp_fence p) mode prev")
    case None
    then show ?thesis using acquire_none [OF wf None, of "je_jobId E" opt] a e st wf by (simp add: tried_def)
  next
    case (Some r)
    then have "x = Inr (Some (acquired ?now (je_jobId E) mode r))"
      using acquire_some(1) [OF wf Some, of "je_jobId E" opt] a by simp
    then have "\<exists>r. x = Inr (Some r) \<and> takes E p (wk_runs s) r mode (wk_runs s')"
      unfolding takes_def using st wf assms(4) a by blast
    then show ?thesis using e by (simp add: tried_def)
  qed
qed

text \<open>What a lease that was taken says of the row, and that a later one has a higher fence.\<close>

lemma acquired_row:
  assumes "acquireRun now t sp i fe owner mode opt prev = (Inr (Some r), t')" and "wf_run_tables t"
  shows "\<exists>r0. find_run t i = Some r0 \<and> availabilityGuard mode now prev r0 \<and> r = acquired now owner mode r0 \<and>
      rw_id r = i \<and> rw_spaceId r = sp \<and> rw_leaseFence r0 = fe \<and> rw_leaseFence r = Suc fe \<and> ls_leaseOwner r = Some owner \<and>
      executing r \<and> rw_checkpoint r = rw_checkpoint r0 \<and> find_run t' i = Some r \<and> wf_run_tables t'"
proof (cases "acquirable t now sp i fe mode prev")
  case None
  then show ?thesis using acquire_none [OF assms(2) None] assms(1) by simp
next
  case (Some r0)
  note a = acquire_some [OF assms(2) Some, of owner opt] and r0 = acquirable_Some [OF Some]
  have r: "r = acquired now owner mode r0" using a(1) assms(1) by simp
  have "executing r" using r0 unfolding r by (cases mode) (auto simp: acquired_def executing_def)
  moreover have "rw_spaceId r = sp" "ls_leaseOwner r = Some owner" "rw_checkpoint r = rw_checkpoint r0"
    using r0 unfolding r by (simp_all add: acquired_def)
  moreover have "find_run t' i = Some r" using a(2) assms(1) r by simp
  moreover have "wf_run_tables t'" using acquire_wf [OF assms(2)] assms(1) by (metis snd_conv)
  ultimately show ?thesis using r0 r by simp
qed

lemma later_fence_higher:
  assumes "find_run t1 i = Some r" and "run_db_step\<^sup>*\<^sup>* t1 t2" and "wf_run_tables t2"
    and "acquireRun now t2 sp i fe owner mode opt prev = (Inr (Some r2), t3)"
  shows "rw_leaseFence r < rw_leaseFence r2"
proof -
  obtain r0 where r0: "find_run t2 i = Some r0" "rw_leaseFence r2 = Suc (rw_leaseFence r0)"
    using acquired_row [OF assms(4,3)] by auto
  then have "row_evolves r r0" using steps_evolve [OF assms(2,1)] by auto
  then show ?thesis using r0(2) by (simp add: row_evolves_def)
qed

text \<open>Resuming calls the executor once, and only with a checkpoint; failing it calls none.\<close>

lemma fail_reclaimed_executed: "wk_executed (snd (fail_reclaimed E sp r reason a s)) = wk_executed s"
  using run_statement_runs(2) by (auto simp: fail_reclaimed_def split: option.splits prod.splits)

lemma notify_settled_executed: "wk_executed (notify_settled E sp r s) = wk_executed s"
  using run_statement_runs(2) by (auto simp: notify_settled_def Let_def split: option.splits prod.splits)

lemma resumeRun_executed:
  "wk_executed (snd (resumeRun E sp r s)) =
     (if decideReclaim (rw_checkpoint r) = Resume then wk_executed s @ [(r, True)] else wk_executed s)"
  "decideReclaim (rw_checkpoint r) = Resume \<Longrightarrow> wk_db (snd (resumeRun E sp r s)) = wk_db s"
  using fail_reclaimed_executed [of E sp r _ "Some A_failed" s]
  by (auto simp: resumeRun_def execute_run_def notify_settled_executed split: reclaim_decision.splits sum.splits prod.splits)
    (metis snd_conv)+

lemma adopt_statement:
  assumes "adopt_named E p r s = (x, s')" and "rw_id r = xp_runId p" and "fair_job E" and "wf_run_tables (wk_runs s)"
  shows "tried E p s Adopt x s'"
proof (cases "xp_owner p")
  case None
  then show ?thesis using assms by (simp add: adopt_named_def tried_def)
next
  case (Some q)
  then show ?thesis using assms(1,2) acquire_statement [OF _ assms(3,4), of p Adopt None "Some q"]
    by (simp add: adopt_named_def adoptRun_def)
qed

text \<open>A delivery called the executor at most once, with a lease it had taken.\<close>

definition at_most_one_call :: "job_env \<Rightarrow> run_execute_payload \<Rightarrow> worker_state \<Rightarrow> worker_state \<Rightarrow> bool" where
  "at_most_one_call E p s s' \<longleftrightarrow> wk_executed s' = wk_executed s \<or>
     (\<exists>r mode. wk_executed s' = wk_executed s @ [(r, mode \<noteq> Claim)] \<and> takes E p (wk_runs s) r mode (wk_runs s') \<and>
        (mode \<noteq> Claim \<longrightarrow> decideReclaim (rw_checkpoint r) = Resume))"

lemma resumed_at_most_once:
  assumes "tried E p s mode (Inr (Some r)) s'" and "mode \<noteq> Claim"
  shows "at_most_one_call E p s (snd (resumeRun E sp r s'))"
  using assms resumeRun_executed [where E = E and sp = sp and r = r and s = s'] by (auto simp: at_most_one_call_def tried_def)

lemma at_most_one_later:
  assumes "run_db_step\<^sup>*\<^sup>* (wk_runs s) (wk_runs s1)" and "wk_executed s1 = wk_executed s" and "at_most_one_call E p s1 s'"
  shows "at_most_one_call E p s s'"
  using assms takes_later [OF assms(1)] unfolding at_most_one_call_def by metis

lemma run_execute_calls:
  assumes "fair_job E" and "wf_run_tables (wk_runs s)"
  shows "at_most_one_call E p s (snd (run_execute E p s))"
proof -
  obtain found s1 where f: "readRun E (xp_spaceId p) (xp_runId p) s = (found, s1)" by fastforce
  note rd = readRun_runs [OF f assms(1)]
  have wf1: "wf_run_tables (wk_runs s1)" by (rule steps_wf [OF rd(1) assms(2)])
  show ?thesis
  proof (cases "\<exists>r. found = Some r \<and> rw_leaseFence r = xp_fence p")
    case False
    then have "run_execute E p s = (Inr (), s1)" using f by (auto simp: run_execute_def split: option.splits)
    then show ?thesis using rd(2) by (simp add: at_most_one_call_def)
  next
    case True
    then obtain r where r: "found = Some r" "rw_leaseFence r = xp_fence p" by blast
    then have id: "rw_id r = xp_runId p" using rd(3) by (metis (mono_tags, lifting) find_Some_iff)
    let ?acq = "\<lambda>mode opt prev s. run_statement E (\<lambda>now db. acquireRun now db (xp_spaceId p) (xp_runId p) (xp_fence p)
       (je_jobId E) mode opt prev) s"
    let ?opt = "Some \<lparr>rc_reason = expiredLeaseReason (rw_leaseExpiresAt r), rc_recordAttempt = None\<rparr>"
    obtain c s2 where c: "?acq Claim None None s1 = (c, s2)" by fastforce
    obtain a s3 where a: "adopt_named E p r s2 = (a, s3)" by fastforce
    obtain rc s4 where rc: "?acq Reclaim ?opt None s3 = (rc, s4)" by fastforce
    have run: "run_execute E p s =
       (case c of Inl e \<Rightarrow> (Inl (Lost_lease e), s2) | Inr (Some x) \<Rightarrow> execute_run E x False s2
        | Inr None \<Rightarrow> (case a of Inl e \<Rightarrow> (Inl (Lost_lease e), s3) | Inr (Some x) \<Rightarrow> resumeRun E (xp_spaceId p) x s3
        | Inr None \<Rightarrow> (case rc of Inl e \<Rightarrow> (Inl (Lost_lease e), s4) | Inr None \<Rightarrow> (Inr (), s4)
        | Inr (Some x) \<Rightarrow> resumeRun E (xp_spaceId p) x s4)))"
      using f r a c rc by (simp add: run_execute_def claimRun_def reclaimRun_def id split: sum.split option.split)
    have tc: "tried E p s1 Claim c s2" by (rule acquire_statement [OF c assms(1) wf1]) simp
    have "at_most_one_call E p s1 (snd (run_execute E p s))"
    proof (cases "c = Inr None")
      case False
      then obtain x where "c = Inr (Some x)" using tc by (auto simp: tried_def)
      then show ?thesis using tc by (auto simp: run execute_run_def tried_def at_most_one_call_def)
    next
      case c0: True
      then have s2: "run_db_step\<^sup>*\<^sup>* (wk_runs s1) (wk_runs s2)" "wf_run_tables (wk_runs s2)" "wk_executed s2 = wk_executed s1"
        using tc by (auto simp: tried_def)
      have ta: "tried E p s2 Adopt a s3" by (rule adopt_statement [OF a id assms(1) s2(2)])
      have "at_most_one_call E p s2 (snd (run_execute E p s))"
      proof (cases "a = Inr None")
        case False
        then obtain x where x: "a = Inr (Some x)" using ta by (auto simp: tried_def)
        then show ?thesis using resumed_at_most_once [of E p s2 Adopt x s3] ta c0 by (simp add: run)
      next
        case a0: True
        then have s3: "run_db_step\<^sup>*\<^sup>* (wk_runs s2) (wk_runs s3)" "wf_run_tables (wk_runs s3)" "wk_executed s3 = wk_executed s2"
          using ta by (auto simp: tried_def)
        have tr: "tried E p s3 Reclaim rc s4" by (rule acquire_statement [OF rc assms(1) s3(2)]) simp
        have "at_most_one_call E p s3 (snd (run_execute E p s))"
        proof (cases "rc = Inr None")
          case True
          then show ?thesis using c0 a0 tr by (simp add: run tried_def at_most_one_call_def)
        next
          case False
          then obtain x where "rc = Inr (Some x)" using tr by (auto simp: tried_def)
          then show ?thesis using resumed_at_most_once [of E p s3 Reclaim x s4] tr c0 a0 by (simp add: run)
        qed
        then show ?thesis by (rule at_most_one_later [OF s3(1,3)])
      qed
      then show ?thesis by (rule at_most_one_later [OF s2(1,3)])
    qed
    then show ?thesis by (rule at_most_one_later [OF rd(1,2)])
  qed
qed

end
