(* ===== verification/Watchdog_Facts.thy ===== *)
theory Watchdog_Facts
  imports Run_Jobs
begin

text \<open>
  What a watchdog pass that nobody interrupts leaves behind: which runs a step of it may touch,
  what happens to one candidate, the loop over all of them, and the delivery of a resume.
\<close>

section \<open>Undisturbed statements\<close>

definition quiet_job :: "job_env \<Rightarrow> bool" where
  "quiet_job E \<longleftrightarrow> (\<forall>k d. je_others E k d = d)"

lemma quiet_run_statement:
  assumes "quiet_job E" and "run_statement E f s = (x, s')"
  shows "(x, wk_runs s') = f (je_now E (wk_turn s)) (wk_runs s)" "wk_jobs s' = wk_jobs s"
    "wk_executed s' = wk_executed s"
  using run_statement_runs [OF assms(2)] assms(1) by (simp_all add: quiet_job_def)

text \<open>Statements that concern one run leave the rows and the queued resumes of all others alone.\<close>

definition touches :: "string set \<Rightarrow> worker_state \<Rightarrow> worker_state \<Rightarrow> bool" where
  "touches I s s' \<longleftrightarrow> (wf_run_tables (wk_runs s) \<longrightarrow> wf_run_tables (wk_runs s')) \<and>
     (\<forall>j. j \<notin> I \<longrightarrow> find_run (wk_runs s') j = find_run (wk_runs s) j \<and>
        filter (\<lambda>x. qj_key x = Some (resume_key j)) (wk_jobs s') = filter (\<lambda>x. qj_key x = Some (resume_key j)) (wk_jobs s))"

lemma touches_refl [simp]: "touches I s s"
  by (simp add: touches_def)

lemma touches_trans: "touches I s s1 \<Longrightarrow> touches I s1 s2 \<Longrightarrow> touches I s s2"
  by (simp add: touches_def)

lemma touches_mono: "touches I s s' \<Longrightarrow> I \<subseteq> J \<Longrightarrow> touches J s s'"
  by (auto simp: touches_def)

lemma find_run_update:
  assumes "keyed_update rw_id f" and "runs t' = update_where P f (runs t)"
  shows "find_run t' j = map_option (\<lambda>r. if P r then f r else r) (find_run t j)"
  using keyed_update.find_update [OF assms(1), of j P "runs t"] assms(2) by (simp add: find_run_def)

lemma find_run_other:
  assumes "keyed_update rw_id f" and "runs t' = update_where P f (runs t)" and "\<And>r. P r \<Longrightarrow> rw_id r = i" and "j \<noteq> i"
  shows "find_run t' j = find_run t j"
  using find_run_update [OF assms(1,2), of j] assms(3,4)
  by (cases "find_run t j") (auto simp: find_run_def dest: find_key_Some)

lemma update_runs:
  "runs (snd (updateClaimedRun now t sp i lease patch)) = update_where
     (\<lambda>r. holds_lease now sp i lease r \<and> statusTransitionGuard (pt_status patch) r) (patched now patch) (runs t)"
  by (simp add: updateClaimedRun_def Let_def)

lemma stall_runs:
  "runs (snd (markRunStalled now t sp i th)) = update_where
     (\<lambda>r. rw_id r = i \<and> rw_spaceId r = sp \<and> stall_candidate now th r) (\<lambda>r. r\<lparr>rw_stalledAt := Some now\<rparr>) (runs t)"
  by (simp add: markRunStalled_def Let_def)

lemma notify_runs:
  "runs (snd (claimRunNotification now t sp i)) = update_where
     (\<lambda>r. rw_id r = i \<and> rw_spaceId r = sp \<and> rw_notifiedAt r = None \<and> (ls_status r = Completed \<or> ls_status r = Failed))
     (\<lambda>r. r\<lparr>rw_notifiedAt := Some now\<rparr>) (runs t)"
  by (simp add: claimRunNotification_def Let_def)

lemma acquire_other:
  assumes "wf_run_tables t" and "j \<noteq> i"
  shows "find_run (snd (acquireRun now t sp i fe owner mode opt prev)) j = find_run t j"
proof (cases "fst (acquireRun now t sp i fe owner mode opt prev)")
  case (Inl e)
  then have False using acquire_none [OF assms(1), of now sp i fe mode prev owner opt]
      acquire_some(1) [OF assms(1), of now sp i fe mode prev _ owner opt]
    by (cases "acquirable t now sp i fe mode prev") auto
  then show ?thesis ..
next
  case (Inr x)
  then have "runs (snd (acquireRun now t sp i fe owner mode opt prev)) =
      update_where (\<lambda>r. rw_id r = i \<and> rw_spaceId r = sp \<and> rw_leaseFence r = fe \<and>
        availabilityGuard mode now prev r) (acquired now owner mode) (runs t)"
    by (auto simp: acquireRun_def Let_def split: if_splits)
  then show ?thesis by (rule find_run_other [OF acq.keyed_update_axioms]) (use assms(2) in auto)
qed

lemma update_other: "j \<noteq> i \<Longrightarrow> find_run (snd (updateClaimedRun now t sp i lease patch)) j = find_run t j"
  by (rule find_run_other [OF pat.keyed_update_axioms update_runs]) (auto simp: holds_lease_def)

lemma stall_other: "j \<noteq> i \<Longrightarrow> find_run (snd (markRunStalled now t sp i th)) j = find_run t j"
  by (rule find_run_other [OF stl.keyed_update_axioms stall_runs]) auto

lemma notify_other: "j \<noteq> i \<Longrightarrow> find_run (snd (claimRunNotification now t sp i)) j = find_run t j"
  by (rule find_run_other [OF ntf.keyed_update_axioms notify_runs]) auto

lemma statement_touches:
  assumes "quiet_job E" and "run_statement E f s = (x, s')"
    and "\<And>now t. wf_run_tables t \<Longrightarrow> wf_run_tables (snd (f now t))"
    and "\<And>now t j. j \<noteq> i \<Longrightarrow> find_run (snd (f now t)) j = find_run t j"
  shows "touches {i} s s'"
proof -
  have "wk_runs s' = snd (f (je_now E (wk_turn s)) (wk_runs s))"
    using quiet_run_statement(1) [OF assms(1,2)] by (metis snd_conv)
  then show ?thesis using assms(3,4) quiet_run_statement(2) [OF assms(1,2)] by (simp add: touches_def)
qed

lemma readRun_touches: "quiet_job E \<Longrightarrow> readRun E sp i s = (x, s') \<Longrightarrow> touches I s s'"
  using quiet_run_statement(1,2) [of E "find_in_space sp i" s x s']
  by (simp add: readRun_def find_in_space_def touches_def)

lemma notify_settled_touches:
  assumes "quiet_job E"
  shows "touches {rw_id r} s (notify_settled E sp r s)"
proof (cases "je_target E")
  case (Some t)
  obtain sent s' where s': "run_statement E (\<lambda>now. notifySettledRun t now sp r) s = (sent, s')" by fastforce
  have "touches {rw_id r} s s'"
  proof (rule statement_touches [OF assms s'])
    show "wf_run_tables (snd (notifySettledRun t now sp r db))" if "wf_run_tables db" for now db
      using step_wf [OF run_db_step.notify that, of now sp "rw_id r"] that
      by (auto simp: notifySettledRun_def split: option.split prod.split)
    show "find_run (snd (notifySettledRun t now sp r db)) j = find_run db j" if "j \<noteq> rw_id r" for now db j
      using notify_other [OF that, of now db sp]
      by (auto simp: notifySettledRun_def split: option.split prod.split)
  qed
  then show ?thesis using Some s' by (simp add: notify_settled_def touches_def)
qed (simp add: notify_settled_def)

lemma fail_reclaimed_touches:
  assumes "quiet_job E"
  shows "touches {rw_id r} s (snd (fail_reclaimed E sp r reason a s))"
proof (cases "ls_leaseOwner r")
  case (Some w)
  obtain x s' where s': "run_statement E (\<lambda>now db. updateClaimedRun now db sp (rw_id r)
      \<lparr>lease_owner = w, lease_fence = rw_leaseFence r\<rparr> (failure_patch reason a)) s = (x, s')" by fastforce
  have "touches {rw_id r} s s'"
    by (rule statement_touches [OF assms s']) (auto intro: step_wf [OF run_db_step.patch_run] update_other)
  then show ?thesis using Some s' by (simp add: fail_reclaimed_def)
qed (simp add: fail_reclaimed_def)

lemma update_id:
  assumes "fst (updateClaimedRun now t sp i lease patch) = Inr y"
  shows "rw_id y = i"
proof -
  obtain ys where "returning (\<lambda>r. holds_lease now sp i lease r \<and> statusTransitionGuard (pt_status patch) r) (patched now patch) (runs t) = y # ys"
    using assms by (auto simp: updateClaimedRun_def Let_def ownedRow_def split: list.splits)
  then have "y \<in> set (returning (\<lambda>r. holds_lease now sp i lease r \<and> statusTransitionGuard (pt_status patch) r) (patched now patch) (runs t))"
    by simp
  then show ?thesis by (auto simp: returning_def holds_lease_def)
qed

lemma fail_reclaimed_id:
  assumes "fail_reclaimed E sp r reason a s = (Inr y, s')"
  shows "rw_id y = rw_id r"
proof -
  obtain w where w: "ls_leaseOwner r = Some w" using assms by (cases "ls_leaseOwner r") (auto simp: fail_reclaimed_def)
  obtain x s2 where x: "run_statement E (\<lambda>now db. updateClaimedRun now db sp (rw_id r)
      \<lparr>lease_owner = w, lease_fence = rw_leaseFence r\<rparr> (failure_patch reason a)) s = (x, s2)" by fastforce
  then have "x = Inr y" using assms w by (auto simp: fail_reclaimed_def split: sum.splits)
  then show ?thesis using run_statement_runs(1) [OF x] update_id by (metis fst_conv)
qed

lemma after_reclaim_touches:
  assumes "quiet_job E"
  shows "touches {rw_id r} s (snd (after_reclaim E sp r s))"
proof (cases "decideReclaim (rw_checkpoint r)")
  case Resume
  have "touches {rw_id r} s (snd (enqueue E (resume_job r (je_jobId E)) s))"
    by (auto simp: enqueue_def touches_def add_job_def resume_job_def resume_key_def filter_filter intro!: filter_cong [OF refl])
  then show ?thesis using Resume
    by (auto simp: after_reclaim_def split: prod.split sum.split)
next
  case (Refuse_resume reason)
  obtain x s' where f: "fail_reclaimed E sp r reason None s = (x, s')" by fastforce
  have t: "touches {rw_id r} s s'" using fail_reclaimed_touches [OF assms, of r s sp reason None] f by simp
  show ?thesis
  proof (cases x)
    case (Inr y)
    have "rw_id y = rw_id r" using f unfolding Inr by (rule fail_reclaimed_id)
    then show ?thesis using touches_trans [OF t] notify_settled_touches [OF assms, of y s' sp] Refuse_resume f Inr
      by (simp add: after_reclaim_def)
  qed (use t f Refuse_resume in \<open>simp add: after_reclaim_def\<close>)
qed

lemma reclaimCandidate_touches:
  assumes "quiet_job E" and "wf_run_tables (wk_runs s)"
  shows "touches {i} s (snd (reclaimCandidate E sp i s))"
proof -
  obtain found s1 where f: "readRun E sp i s = (found, s1)" by fastforce
  have t1: "touches {i} s s1" by (rule readRun_touches [OF assms(1) f])
  then have wf1: "wf_run_tables (wk_runs s1)" using assms(2) by (simp add: touches_def)
  show ?thesis
  proof (cases "\<exists>r. found = Some r \<and> isExpired (je_host E (wk_turn s1)) r")
    case False
    then show ?thesis using t1 f by (auto simp: reclaimCandidate_def split: option.split)
  next
    case True
    then obtain r where r: "found = Some r" "isExpired (je_host E (wk_turn s1)) r" by blast
    have "find (\<lambda>r. rw_id r = i \<and> rw_spaceId r = sp) (runs (wk_runs s)) = Some r"
      using quiet_run_statement(1) [OF assms(1) f [unfolded readRun_def]] r(1) by (simp add: find_in_space_def)
    then have id: "rw_id r = i" by (auto simp: find_Some_iff)
    let ?opt = "\<lparr>rc_reason = expiredLeaseReason (rw_leaseExpiresAt r), rc_recordAttempt = Some False\<rparr>"
    obtain c s2 where c: "run_statement E (\<lambda>now db. reclaimRun now db sp i (rw_leaseFence r) (je_jobId E) ?opt) s1 = (c, s2)"
      by fastforce
    have eq: "(c, wk_runs s2) = acquireRun (je_now E (wk_turn s1)) (wk_runs s1) sp i (rw_leaseFence r) (je_jobId E) Reclaim (Some ?opt) None"
      using quiet_run_statement(1) [OF assms(1) c] by (simp add: reclaimRun_def)
    have w2: "wk_runs s2 = snd (acquireRun (je_now E (wk_turn s1)) (wk_runs s1) sp i (rw_leaseFence r) (je_jobId E) Reclaim (Some ?opt) None)"
      by (simp add: eq [symmetric])
    have "touches {i} s1 s2"
      using acquire_other [OF wf1] acquire_wf [OF wf1 w2] quiet_run_statement(2) [OF assms(1) c]
      unfolding touches_def w2 by simp
    then have t2: "touches {i} s s2" by (rule touches_trans [OF t1])
    have run: "reclaimCandidate E sp i s = (case c of Inl e \<Rightarrow> (Inl (Lost_lease e), s2) | Inr None \<Rightarrow> (Inr Cand_skipped, s2)
        | Inr (Some x) \<Rightarrow> after_reclaim E sp x s2)"
      using f r c id by (simp add: reclaimCandidate_def)
    show ?thesis
    proof (cases "\<exists>x. c = Inr (Some x)")
      case False
      then show ?thesis using t2 by (auto simp: run split: sum.split option.split)
    next
      case True
      then obtain x where x: "c = Inr (Some x)" by blast
      then have "rw_id x = i" using acquired_row [OF _ wf1] eq by metis
      then show ?thesis using touches_trans [OF t2] after_reclaim_touches [OF assms(1), of x s2 sp] x by (simp add: run)
    qed
  qed
qed

section \<open>One candidate\<close>

text \<open>
  The database's clock is read within one lease of the instant \<open>T\<close>, and the host's clock is not
  behind \<open>T\<close>: the decision whether a candidate has expired is made again on the host's clock.
\<close>

definition prompt_job :: "job_env \<Rightarrow> int \<Rightarrow> bool" where
  "prompt_job E T \<longleftrightarrow> (\<forall>k. T \<le> je_now E k \<and> je_now E k < T + RUN_LEASE_TTL_SECONDS * 1000 \<and> T \<le> je_host E k)"

definition expired_at :: "int \<Rightarrow> run_row \<Rightarrow> bool" where
  "expired_at T r \<longleftrightarrow> executing r \<and> ls_leaseOwner r \<noteq> None \<and> deadline_passed T r"

definition resumed_row :: "job_env \<Rightarrow> int \<Rightarrow> run_row \<Rightarrow> run_row \<Rightarrow> worker_state \<Rightarrow> bool" where
  "resumed_row E T r r' s \<longleftrightarrow> ls_status r' = ls_status r \<and> (\<exists>t. rw_leaseExpiresAt r' = Some t \<and> T + RUN_LEASE_TTL_SECONDS * 1000 \<le> t) \<and>
     filter (\<lambda>x. qj_key x = Some (resume_key (rw_id r))) (wk_jobs s) = [resume_job r' (je_jobId E)]"

definition failed_row :: "job_env \<Rightarrow> run_reclaim_failure \<Rightarrow> run_row \<Rightarrow> bool" where
  "failed_row E reason r' \<longleftrightarrow> ls_status r' = Failed \<and> rw_errorCode r' = Some (reclaim_failure_name reason) \<and>
     rw_error r' = Some (reclaimFailureMessage reason) \<and> rw_completedAt r' \<noteq> None \<and>
     (je_target E \<noteq> None \<longrightarrow> rw_notifiedAt r' \<noteq> None)"

text \<open>The next lease is the job's, and the run is handed over or has failed.\<close>

definition recovered :: "job_env \<Rightarrow> int \<Rightarrow> run_row \<Rightarrow> worker_state \<Rightarrow> bool" where
  "recovered E T r s \<longleftrightarrow> (\<exists>r'. find_run (wk_runs s) (rw_id r) = Some r' \<and> rw_leaseFence r' = Suc (rw_leaseFence r) \<and>
     rw_spaceId r' = rw_spaceId r \<and> ls_leaseOwner r' = Some (je_jobId E) \<and> rw_checkpoint r' = rw_checkpoint r \<and>
     (case decideReclaim (rw_checkpoint r) of
        Resume \<Rightarrow> resumed_row E T r r' s
      | Refuse_resume reason \<Rightarrow> failed_row E reason r'))"

lemma recovered_touches: "touches I s s' \<Longrightarrow> rw_id r \<notin> I \<Longrightarrow> recovered E T r s \<Longrightarrow> recovered E T r s'"
  by (simp add: touches_def recovered_def resumed_row_def cong: reclaim_decision.case_cong)

lemma update_owned:
  assumes "wf_run_tables t" and "find_run t i = Some r" and "holds_lease now sp i lease r"
    and "statusTransitionGuard (pt_status patch) r"
  shows "fst (updateClaimedRun now t sp i lease patch) = Inr (patched now patch r)"
    and "find_run (snd (updateClaimedRun now t sp i lease patch)) i = Some (patched now patch r)"
proof -
  have d: "distinct (map rw_id (runs t))" using assms(1) by (simp add: wf_run_tables_def)
  have "returning (\<lambda>r. holds_lease now sp i lease r \<and> statusTransitionGuard (pt_status patch) r) (patched now patch) (runs t) =
      [patched now patch r]"
    using assms(2-4) by (subst pat.returning_unique [OF d, where k = i]) (auto simp: holds_lease_def find_run_def)
  then show "fst (updateClaimedRun now t sp i lease patch) = Inr (patched now patch r)"
    by (simp add: updateClaimedRun_def Let_def ownedRow_def)
  show "find_run (snd (updateClaimedRun now t sp i lease patch)) i = Some (patched now patch r)"
    using assms(2-4) by (simp add: find_run_update [OF pat.keyed_update_axioms update_runs])
qed

lemma notify_settled_row:
  assumes "quiet_job E" and "find_run (wk_runs s) (rw_id r) = Some r" and "rw_spaceId r = sp" and "ls_status r = Failed"
  shows "\<exists>n. find_run (wk_runs (notify_settled E sp r s)) (rw_id r) = Some (r\<lparr>rw_notifiedAt := n\<rparr>) \<and>
    (je_target E \<noteq> None \<longrightarrow> n \<noteq> None)"
proof (cases "je_target E")
  case None
  then show ?thesis using assms(2) by (intro exI [of _ "rw_notifiedAt r"]) (simp add: notify_settled_def)
next
  case (Some t)
  let ?now = "je_now E (wk_turn s)"
  obtain sent s' where s': "run_statement E (\<lambda>now. notifySettledRun t now sp r) s = (sent, s')" by fastforce
  have "wk_runs s' = snd (claimRunNotification ?now (wk_runs s) sp (rw_id r))"
    using quiet_run_statement(1) [OF assms(1) s'] assms(4)
    by (auto simp: notifySettledRun_def settledMessage_def split: prod.splits if_splits)
  then have "find_run (wk_runs s') (rw_id r) =
      Some (if rw_notifiedAt r = None then r\<lparr>rw_notifiedAt := Some ?now\<rparr> else r)"
    using assms(2-4) by (simp add: find_run_update [OF ntf.keyed_update_axioms notify_runs])
  then have "find_run (wk_runs s') (rw_id r) = Some (r\<lparr>rw_notifiedAt := Some (case rw_notifiedAt r of None \<Rightarrow> ?now | Some n \<Rightarrow> n)\<rparr>)"
    by (cases "rw_notifiedAt r") auto
  then show ?thesis using Some s' by (auto simp: notify_settled_def)
qed

lemma fail_reclaimed_row:
  assumes "quiet_job E" and "wf_run_tables (wk_runs s)" and "find_run (wk_runs s) (rw_id r) = Some r"
    and "rw_spaceId r = sp" and "ls_leaseOwner r = Some w" and "executing r" and "deadline_ahead (je_now E (wk_turn s)) r"
  shows "\<exists>r' s'. fail_reclaimed E sp r reason a s = (Inr r', s') \<and> find_run (wk_runs s') (rw_id r) = Some r' \<and>
    r' = patched (je_now E (wk_turn s)) (failure_patch reason a) r"
proof -
  let ?now = "je_now E (wk_turn s)" and ?l = "\<lparr>lease_owner = w, lease_fence = rw_leaseFence r\<rparr>"
  obtain x s' where s': "run_statement E (\<lambda>now db. updateClaimedRun now db sp (rw_id r) ?l (failure_patch reason a)) s = (x, s')"
    by fastforce
  have "holds_lease ?now sp (rw_id r) ?l r" "statusTransitionGuard (pt_status (failure_patch reason a)) r"
    using assms(4-7) by (simp_all add: holds_lease_def failure_patch_def)
  note u = update_owned [OF assms(2,3) this]
  have "(x, wk_runs s') = updateClaimedRun ?now (wk_runs s) sp (rw_id r) ?l (failure_patch reason a)"
    using quiet_run_statement(1) [OF assms(1) s'] by simp
  then have "x = Inr (patched ?now (failure_patch reason a) r)"
    "find_run (wk_runs s') (rw_id r) = Some (patched ?now (failure_patch reason a) r)"
    using u by (metis fst_conv, metis snd_conv)
  then show ?thesis using s' assms(5) by (simp add: fail_reclaimed_def)
qed

lemma after_reclaim_recovers:
  assumes "quiet_job E" and "prompt_job E T" and "runExecuteIdentifier \<in> set (je_registered E)"
    and "wf_run_tables (wk_runs s)" and "find_run (wk_runs s) (rw_id r) = Some x" and "rw_id r0 = rw_id r"
    and x: "x = acquired now (je_jobId E) Reclaim r" and "executing r" and "T \<le> now"
  shows "\<exists>oc. fst (after_reclaim E (rw_spaceId r) x s) = Inr oc \<and> recovered E T r (snd (after_reclaim E (rw_spaceId r) x s))"
proof -
  have row: "rw_id x = rw_id r" "rw_spaceId x = rw_spaceId r" "ls_leaseOwner x = Some (je_jobId E)"
      "rw_checkpoint x = rw_checkpoint r" "ls_status x = ls_status r" "rw_leaseFence x = Suc (rw_leaseFence r)"
      "rw_leaseExpiresAt x = Some (now + RUN_LEASE_TTL_SECONDS * 1000)" "executing x"
    using assms(8) by (simp_all add: x acquired_def executing_def)
  show ?thesis
  proof (cases "decideReclaim (rw_checkpoint r)")
    case Resume
    have "after_reclaim E (rw_spaceId r) x s = (Inr Cand_resumed, s\<lparr>wk_jobs := add_job (resume_job x (je_jobId E)) (wk_jobs s)\<rparr>)"
      using Resume row(4) assms(3) by (simp add: after_reclaim_def enqueue_def resume_job_def)
    moreover have "filter (\<lambda>j. qj_key j = Some (resume_key (rw_id r))) (add_job (resume_job x (je_jobId E)) (wk_jobs s)) =
        [resume_job x (je_jobId E)]"
      using row(1) by (simp add: add_job_def resume_job_def filter_empty_conv)
    ultimately show ?thesis using Resume row assms(5,9) by (simp add: recovered_def resumed_row_def)
  next
    case (Refuse_resume reason)
    have "deadline_ahead (je_now E (wk_turn s)) x"
    proof -
      have "je_now E (wk_turn s) < T + RUN_LEASE_TTL_SECONDS * 1000" using assms(2) by (simp add: prompt_job_def)
      then show ?thesis using row(7) assms(9) by (simp add: deadline_ahead_def)
    qed
    then obtain r' s' where f: "fail_reclaimed E (rw_spaceId r) x reason None s = (Inr r', s')"
        "find_run (wk_runs s') (rw_id x) = Some r'" "r' = patched (je_now E (wk_turn s)) (failure_patch reason None) x"
      using fail_reclaimed_row [OF assms(1,4) assms(5) [folded row(1)] row(2,3,8)] by metis
    have r': "rw_id r' = rw_id x" "rw_spaceId r' = rw_spaceId r" "ls_status r' = Failed" "rw_leaseFence r' = Suc (rw_leaseFence r)"
        "ls_leaseOwner r' = Some (je_jobId E)" "rw_checkpoint r' = rw_checkpoint r" "rw_errorCode r' = Some (reclaim_failure_name reason)"
        "rw_error r' = Some (reclaimFailureMessage reason)" "rw_completedAt r' \<noteq> None"
      using row unfolding f(3) by (simp_all add: patched_def failure_patch_def Let_def)
    obtain n where n: "find_run (wk_runs (notify_settled E (rw_spaceId r) r' s')) (rw_id r') = Some (r'\<lparr>rw_notifiedAt := n\<rparr>)"
        "je_target E \<noteq> None \<longrightarrow> n \<noteq> None"
      using notify_settled_row [OF assms(1) f(2) [folded r'(1)] r'(2,3)] by blast
    have "after_reclaim E (rw_spaceId r) x s = (Inr Cand_failed, notify_settled E (rw_spaceId r) r' s')"
      using Refuse_resume row(4) f(1) by (simp add: after_reclaim_def)
    then show ?thesis using n r' row(1) Refuse_resume by (simp add: recovered_def failed_row_def)
  qed
qed

lemma reclaimCandidate_recovers:
  assumes "quiet_job E" and "prompt_job E T" and "runExecuteIdentifier \<in> set (je_registered E)"
    and "wf_run_tables (wk_runs s)" and "find_run (wk_runs s) i = Some r" and "expired_at T r"
  shows "\<exists>oc. fst (reclaimCandidate E (rw_spaceId r) i s) = Inr oc \<and> recovered E T r (snd (reclaimCandidate E (rw_spaceId r) i s))"
proof -
  have id: "rw_id r = i" using assms(5) by (auto simp: find_run_def dest: find_key_Some)
  obtain found s1 where f: "readRun E (rw_spaceId r) i s = (found, s1)" by fastforce
  have s1: "wk_runs s1 = wk_runs s" "found = Some r"
    using quiet_run_statement(1) [OF assms(1) f [unfolded readRun_def]] assms(5)
      find_conj [of "\<lambda>x. rw_id x = i \<and> rw_spaceId x = rw_spaceId r" "\<lambda>x. rw_id x = i" "runs (wk_runs s)" r] id
    by (simp_all add: find_in_space_def find_run_def)
  obtain dl where dl: "rw_leaseExpiresAt r = Some dl" "dl \<le> T" and ex: "executing r" "ls_leaseOwner r \<noteq> None"
    using assms(6) by (auto simp: expired_at_def deadline_passed_def split: option.splits)
  have p: "T \<le> je_now E (wk_turn s1)" "T \<le> je_host E (wk_turn s1)" using assms(2) by (auto simp: prompt_job_def)
  have "isActiveStatus (ls_status r)" using executing_not_terminal [OF ex(1)] by (simp add: isActiveStatus_def)
  then have e: "isExpired (je_host E (wk_turn s1)) r" using dl ex p by (simp add: isExpired_def)
  let ?opt = "\<lparr>rc_reason = expiredLeaseReason (rw_leaseExpiresAt r), rc_recordAttempt = Some False\<rparr>"
  have aq: "acquirable (wk_runs s1) (je_now E (wk_turn s1)) (rw_spaceId r) i (rw_leaseFence r) Reclaim None = Some r"
    using assms(5) s1(1) ex dl p by (auto simp: acquirable_def deadline_passed_def)
  note a = acquire_some [OF assms(4) [folded s1(1)] aq, of "je_jobId E" "Some ?opt"]
  obtain c s2 where c: "run_statement E (\<lambda>now db. reclaimRun now db (rw_spaceId r) i (rw_leaseFence r) (je_jobId E) ?opt) s1 = (c, s2)"
    by fastforce
  let ?x = "acquired (je_now E (wk_turn s1)) (je_jobId E) Reclaim r"
  have eq: "(c, wk_runs s2) = acquireRun (je_now E (wk_turn s1)) (wk_runs s1) (rw_spaceId r) i (rw_leaseFence r) (je_jobId E) Reclaim (Some ?opt) None"
    using quiet_run_statement(1) [OF assms(1) c] by (simp add: reclaimRun_def)
  have c2: "c = Inr (Some ?x)" "find_run (wk_runs s2) i = Some ?x" using a(1,2) by (metis eq fst_conv, metis eq snd_conv)
  have wf2: "wf_run_tables (wk_runs s2)" using acquire_wf [OF assms(4) [folded s1(1)]] eq by (metis snd_conv)
  have run: "reclaimCandidate E (rw_spaceId r) i s = after_reclaim E (rw_spaceId r) ?x s2"
    using f s1(2) e c c2(1) id by (simp add: reclaimCandidate_def)
  show ?thesis unfolding run
    by (rule after_reclaim_recovers [OF assms(1-3) wf2 _ refl refl ex(1) p(1)]) (use c2(2) id in simp)
qed

section \<open>The pass\<close>

lemma reclaim_all_recovers:
  assumes "quiet_job E" and "prompt_job E T" and "runExecuteIdentifier \<in> set (je_registered E)"
    and "wf_run_tables (wk_runs s)" and "distinct (map xl_runId xs)"
    and "\<And>x. x \<in> set xs \<Longrightarrow> \<exists>r. find_run (wk_runs s) (xl_runId x) = Some r \<and> xl_spaceId x = rw_spaceId r \<and> expired_at T r"
  shows "\<exists>ocs s'. reclaim_all E xs s = (Inr ocs, s') \<and> touches (xl_runId ` set xs) s s' \<and>
    (\<forall>x r. x \<in> set xs \<and> find_run (wk_runs s) (xl_runId x) = Some r \<longrightarrow> recovered E T r s')"
  using assms(4-6)
proof (induction xs arbitrary: s)
  case (Cons x xs)
  obtain r where r: "find_run (wk_runs s) (xl_runId x) = Some r" "xl_spaceId x = rw_spaceId r" "expired_at T r"
    using Cons.prems(3) [of x] by auto
  have id: "rw_id r = xl_runId x" using r(1) by (auto simp: find_run_def dest: find_key_Some)
  obtain oc s1 where c: "reclaimCandidate E (rw_spaceId r) (xl_runId x) s = (Inr oc, s1)" "recovered E T r s1"
    using reclaimCandidate_recovers [OF assms(1-3) Cons.prems(1) r(1,3)] by (metis prod.collapse snd_conv fst_conv)
  have t: "touches {xl_runId x} s s1"
    using reclaimCandidate_touches [OF assms(1) Cons.prems(1), of "xl_runId x" "rw_spaceId r"] c(1) by simp
  have new: "xl_runId y \<noteq> xl_runId x" if "y \<in> set xs" for y using that Cons.prems(2) by (auto simp: image_iff)
  then have same: "find_run (wk_runs s1) (xl_runId y) = find_run (wk_runs s) (xl_runId y)" if "y \<in> set xs" for y
    using t that by (simp add: touches_def)
  have wf1: "wf_run_tables (wk_runs s1)" using t Cons.prems(1) by (simp add: touches_def)
  have "\<exists>ocs s'. reclaim_all E xs s1 = (Inr ocs, s') \<and> touches (xl_runId ` set xs) s1 s' \<and>
      (\<forall>y q. y \<in> set xs \<and> find_run (wk_runs s1) (xl_runId y) = Some q \<longrightarrow> recovered E T q s')"
    by (rule Cons.IH [OF wf1]) (use Cons.prems(2,3) same in auto)
  then obtain ocs s' where i: "reclaim_all E xs s1 = (Inr ocs, s')" "touches (xl_runId ` set xs) s1 s'"
      "\<And>y q. y \<in> set xs \<Longrightarrow> find_run (wk_runs s1) (xl_runId y) = Some q \<Longrightarrow> recovered E T q s'" by blast
  have "recovered E T r s'"
    by (rule recovered_touches [OF i(2) _ c(2)]) (use new id in fastforce)
  moreover have "touches (xl_runId ` set (x # xs)) s s'"
    by (rule touches_trans [OF touches_mono [OF t] touches_mono [OF i(2)]]) auto
  ultimately show ?case using c(1) i r(1,2) same by auto
qed simp

lemma recordStall_touches:
  assumes "quiet_job E"
  shows "touches {i} s (snd (recordStall E th sp i s))"
proof -
  obtain found s1 where f: "readRun E sp i s = (found, s1)" by fastforce
  have t1: "touches {i} s s1" by (rule readRun_touches [OF assms f])
  show ?thesis
  proof (cases found)
    case (Some r)
    have "find (\<lambda>r. rw_id r = i \<and> rw_spaceId r = sp) (runs (wk_runs s)) = Some r"
      using quiet_run_statement(1) [OF assms f [unfolded readRun_def]] Some by (simp add: find_in_space_def)
    then have id: "rw_id r = i" by (auto simp: find_Some_iff)
    obtain x s2 where s2: "run_statement E (\<lambda>now db. markRunStalled now db sp i th) s1 = (x, s2)" by fastforce
    have "touches {i} s1 s2"
      by (rule statement_touches [OF assms s2]) (auto intro: step_wf [OF run_db_step.stall] stall_other)
    then show ?thesis using touches_trans [OF t1] f Some s2 id by (simp add: recordStall_def)
  qed (use t1 f in \<open>simp add: recordStall_def\<close>)
qed

lemma stall_loop_touches:
  assumes "quiet_job E"
  shows "touches (fst ` set xs) (snd acc) (snd (foldl (stall_one E th) acc xs))"
proof (induction xs arbitrary: acc)
  case (Cons x xs)
  have "touches {fst x} (snd acc) (snd (stall_one E th acc x))"
    using recordStall_touches [OF assms, of "fst x" "snd acc" th "snd x"]
    by (auto simp: stall_one_def notifyStall_def touches_def Let_def split: prod.splits option.splits)
  then show ?case using Cons.IH [of "stall_one E th acc x"]
    by (auto intro: touches_trans touches_mono)
qed simp

lemma release_loop_runs:
  assumes "quiet_job E"
  shows "wk_runs (snd (foldl (release_stale E) acc ls)) = wk_runs (snd acc) \<and>
    wk_jobs (snd (foldl (release_stale E) acc ls)) = wk_jobs (snd acc)"
proof (induction ls arbitrary: acc)
  case (Cons l ls)
  have "wk_runs (snd (release_stale E acc l)) = wk_runs (snd acc) \<and> wk_jobs (snd (release_stale E acc l)) = wk_jobs (snd acc)"
    using assms by (simp add: release_stale_def statement_def quiet_job_def releaseComputerLease_def Let_def)
  then show ?case using Cons.IH by simp
qed simp

lemma releaseStaleComputers_runs:
  "quiet_job E \<Longrightarrow> wk_runs (snd (releaseStaleComputers E n s)) = wk_runs s \<and> wk_jobs (snd (releaseStaleComputers E n s)) = wk_jobs s"
  using release_loop_runs [of E] by (simp add: releaseStaleComputers_def statement_def quiet_job_def Let_def)

text \<open>The scan lists every expired run it has room for, once.\<close>

lemma findExpiredLeases_rows:
  assumes "wf_run_tables t"
  shows "distinct (map xl_runId (findExpiredLeases now t n))"
    and "x \<in> set (findExpiredLeases now t n) \<Longrightarrow>
      \<exists>r. find_run t (xl_runId x) = Some r \<and> xl_spaceId x = rw_spaceId r \<and> expired_at now r"
proof -
  let ?rows = "take n (sort_key (\<lambda>r. (the (rw_leaseExpiresAt r), rw_id r))
      (filter (\<lambda>r. executing r \<and> ls_leaseOwner r \<noteq> None \<and> deadline_passed now r) (runs t)))"
  have d: "distinct (map rw_id (runs t))" using assms by (simp add: wf_run_tables_def)
  then have "distinct (map rw_id (filter Q (runs t)))" for Q by (simp add: distinct_map inj_on_def)
  then have "distinct (map rw_id (sort_key g (filter Q (runs t))))" for Q and g :: "run_row \<Rightarrow> int \<times> string"
    by (simp add: distinct_map)
  then have "distinct (take n (map rw_id (sort_key (\<lambda>r. (the (rw_leaseExpiresAt r), rw_id r))
      (filter (\<lambda>r. executing r \<and> ls_leaseOwner r \<noteq> None \<and> deadline_passed now r) (runs t)))))" by (rule distinct_take)
  then have "distinct (map rw_id ?rows)" by (simp add: take_map)
  then show "distinct (map xl_runId (findExpiredLeases now t n))" by (simp add: findExpiredLeases_def comp_def)
  assume "x \<in> set (findExpiredLeases now t n)"
  then obtain r where r: "r \<in> set ?rows" "xl_runId x = rw_id r" "xl_spaceId x = rw_spaceId r"
    by (auto simp: findExpiredLeases_def)
  then have "r \<in> set (runs t)" "expired_at now r" by (auto simp: expired_at_def dest!: in_set_takeD)
  then show "\<exists>r. find_run t (xl_runId x) = Some r \<and> xl_spaceId x = rw_spaceId r \<and> expired_at now r"
    using r find_key_distinct [OF d] by (auto simp: find_run_def)
qed

lemma stalled_not_expired:
  assumes "wf_run_tables t" and "y \<in> set (findStalledRuns now2 t th n)" and "find_run t (fst y) = Some r" and "now \<le> now2"
  shows "\<not> expired_at now r"
proof -
  obtain q where q: "q \<in> set (runs t)" "fst y = rw_id q" "stall_candidate now2 th q"
    using assms(2) by (auto simp: findStalledRuns_def dest!: in_set_takeD)
  have "distinct (map rw_id (runs t))" using assms(1) by (simp add: wf_run_tables_def)
  then have "q = r" using find_key_distinct [of rw_id "runs t" q] q(1,2) assms(3) by (simp add: find_run_def)
  then show ?thesis using q(3) assms(4)
    by (auto simp: stall_candidate_def expired_at_def deadline_ahead_def deadline_passed_def split: option.splits)
qed

lemma watchdog_pass_recovers:
  assumes "quiet_job E" and T: "T = je_now E (wk_turn s)" and "prompt_job E T"
    and "runExecuteIdentifier \<in> set (je_registered E)" and "wf_run_tables (wk_runs s)"
    and "x \<in> set (findExpiredLeases T (wk_runs s) (case wo_batchLimit opts of None \<Rightarrow> RUN_WATCHDOG_BATCH_LIMIT | Some n \<Rightarrow> n))"
  shows "\<exists>report s' r. watchdog_pass E opts s = (Inr report, s') \<and> wf_run_tables (wk_runs s') \<and>
    find_run (wk_runs s) (xl_runId x) = Some r \<and> rw_id r = xl_runId x \<and> expired_at T r \<and> recovered E T r s'"
proof -
  let ?n = "case wo_batchLimit opts of None \<Rightarrow> RUN_WATCHDOG_BATCH_LIMIT | Some n \<Rightarrow> n"
    and ?th = "case wo_stallThresholdSeconds opts of None \<Rightarrow> \<lfloor>RUN_STALL_THRESHOLD_SECONDS\<rfloor> | Some t \<Rightarrow> t"
  let ?xs = "findExpiredLeases T (wk_runs s) ?n"
  obtain xs s1 where e: "run_statement E (\<lambda>now db. (findExpiredLeases now db ?n, db)) s = (xs, s1)" by fastforce
  have e': "xs = ?xs" "wk_runs s1 = wk_runs s" "wk_jobs s1 = wk_jobs s"
    using quiet_run_statement(1,2) [OF assms(1) e] T by simp_all
  obtain ys s2 where y: "run_statement E (\<lambda>now db. (findStalledRuns now db ?th ?n, db)) s1 = (ys, s2)" by fastforce
  have y': "ys = findStalledRuns (je_now E (wk_turn s1)) (wk_runs s) ?th ?n" "wk_runs s2 = wk_runs s" "wk_jobs s2 = wk_jobs s"
    using quiet_run_statement(1,2) [OF assms(1) y] e' by simp_all
  obtain n3 s3 where c: "releaseStaleComputers E ?n s2 = (n3, s3)" by fastforce
  have c': "wk_runs s3 = wk_runs s" using releaseStaleComputers_runs [OF assms(1), of ?n s2] c y' by simp
  note rows = findExpiredLeases_rows [OF assms(5), where now = T and n = ?n]
  obtain ocs s4 where l: "reclaim_all E xs s3 = (Inr ocs, s4)" "touches (xl_runId ` set xs) s3 s4"
      "\<And>x r. x \<in> set xs \<Longrightarrow> find_run (wk_runs s) (xl_runId x) = Some r \<Longrightarrow> recovered E T r s4"
    using reclaim_all_recovers [OF assms(1,3,4), of s3 xs] rows assms(5) unfolding e'(1) c' by metis
  obtain m s5 where m: "foldl (stall_one E ?th) (0, s4) ys = (m, s5)" by fastforce
  have t5: "touches (fst ` set ys) s4 s5" using stall_loop_touches [OF assms(1), of ys "(0, s4)" ?th] m by simp
  have run: "\<exists>report. watchdog_pass E opts s = (Inr report, s5)"
    using e y c l(1) m by (simp add: watchdog_pass_def)
  obtain r where r: "find_run (wk_runs s) (xl_runId x) = Some r" "expired_at T r" using rows(2) [OF assms(6)] by blast
  have id: "rw_id r = xl_runId x" using r(1) by (auto simp: find_run_def dest: find_key_Some)
  have "recovered E T r s5"
  proof (rule recovered_touches [OF t5])
    show "rw_id r \<notin> fst ` set ys"
    proof
      assume "rw_id r \<in> fst ` set ys"
      then obtain z where z: "z \<in> set ys" "fst z = rw_id r" by auto
      have "T \<le> je_now E (wk_turn s1)" using assms(3) by (simp add: prompt_job_def)
      then show False using stalled_not_expired [OF assms(5), of z "je_now E (wk_turn s1)" ?th ?n r T] z r id y'(1) by simp
    qed
    show "recovered E T r s4" by (rule l(3) [OF _ r(1)]) (use assms(6) e'(1) in simp)
  qed
  moreover have "wf_run_tables (wk_runs s5)" using l(2) t5 assms(5) c' by (simp add: touches_def)
  ultimately show ?thesis using run r id by blast
qed

section \<open>The delivery of a resume\<close>

definition plain_text :: "string \<Rightarrow> bool" where
  "plain_text v \<longleftrightarrow> trim v = v \<and> v \<noteq> []"

lemma resume_payload_parses:
  assumes "plain_text (rw_id r)" and "plain_text (rw_spaceId r)" and "plain_text w"
  shows "parseRunExecutePayload (resume_payload r w) =
    Inr \<lparr>xp_runId = rw_id r, xp_fence = rw_leaseFence r, xp_spaceId = rw_spaceId r, xp_owner = Some w\<rparr>"
  using assms by (simp add: parseRunExecutePayload_def resume_payload_def runExecutePayloadKeys_def getf_def js_int_def
      requiredText_def plain_text_def bindE_def)

lemma resume_delivered:
  assumes "quiet_job E" and "wf_run_tables (wk_runs s)" and "find_run (wk_runs s) (rw_id r) = Some r" and "executing r"
    and "ls_leaseOwner r = Some w" and "\<And>k. deadline_ahead (je_now E k) r" and "decideReclaim (rw_checkpoint r) = Resume"
    and "plain_text (rw_id r)" "plain_text (rw_spaceId r)" "plain_text w"
  shows "\<exists>x. wk_executed (snd (runExecuteJob E (resume_payload r w) s)) = wk_executed s @ [(x, True)] \<and>
    rw_id x = rw_id r \<and> rw_checkpoint x = rw_checkpoint r \<and> rw_leaseFence x = Suc (rw_leaseFence r) \<and>
    ls_leaseOwner x = Some (je_jobId E)"
proof -
  let ?p = "\<lparr>xp_runId = rw_id r, xp_fence = rw_leaseFence r, xp_spaceId = rw_spaceId r, xp_owner = Some w\<rparr>"
  obtain found s1 where f: "readRun E (rw_spaceId r) (rw_id r) s = (found, s1)" by fastforce
  have s1: "wk_runs s1 = wk_runs s" "found = Some r" "wk_executed s1 = wk_executed s"
    using quiet_run_statement [OF assms(1) f [unfolded readRun_def]] assms(3)
      find_conj [of "\<lambda>x. rw_id x = rw_id r \<and> rw_spaceId x = rw_spaceId r" "\<lambda>x. rw_id x = rw_id r" "runs (wk_runs s)" r]
    by (simp_all add: find_in_space_def find_run_def)
  obtain c s2 where c: "run_statement E (\<lambda>now db. claimRun now db (rw_spaceId r) (rw_id r) (rw_leaseFence r) (je_jobId E)) s1 = (c, s2)"
    by fastforce
  have nc: "acquirable (wk_runs s) now (rw_spaceId r) (rw_id r) (rw_leaseFence r) Claim None = None" for now
    using assms(3,4) by (auto simp: acquirable_def executing_def)
  have s2: "c = Inr None" "wk_runs s2 = wk_runs s" "wk_executed s2 = wk_executed s"
    using quiet_run_statement [OF assms(1) c] acquire_none [OF assms(2) nc] s1 by (simp_all add: claimRun_def)
  obtain a s3 where a: "run_statement E (\<lambda>now db. adoptRun now db (rw_spaceId r) (rw_id r) (rw_leaseFence r) (je_jobId E) w) s2 = (a, s3)"
    by fastforce
  let ?x = "acquired (je_now E (wk_turn s2)) (je_jobId E) Adopt r"
  have aq: "acquirable (wk_runs s) (je_now E (wk_turn s2)) (rw_spaceId r) (rw_id r) (rw_leaseFence r) Adopt (Some w) = Some r"
    using assms(3-6) by (simp add: acquirable_def)
  have "(a, wk_runs s3) = acquireRun (je_now E (wk_turn s2)) (wk_runs s) (rw_spaceId r) (rw_id r) (rw_leaseFence r)
      (je_jobId E) Adopt None (Some w)"
    using quiet_run_statement(1) [OF assms(1) a] s2(2) by (simp add: adoptRun_def)
  then have s3: "a = Inr (Some ?x)" "wk_executed s3 = wk_executed s"
    using acquire_some(1) [OF assms(2) aq, of "je_jobId E" None] quiet_run_statement(3) [OF assms(1) a] s2(3)
    by (metis fst_conv, simp)
  have "run_execute E ?p s = resumeRun E (rw_spaceId r) ?x s3"
    using f s1(2) c s2(1) a s3(1) by (simp add: run_execute_def adopt_named_def)
  moreover have "rw_checkpoint ?x = rw_checkpoint r" "ls_leaseOwner ?x = Some (je_jobId E)" by (simp_all add: acquired_def)
  ultimately show ?thesis
    using resumeRun_executed(1) [of E "rw_spaceId r" ?x s3] assms(7) s3(2) resume_payload_parses [OF assms(8-10)]
    by (simp add: runExecuteJob_def defineJob_def)
qed

end
