(* ===== verification/Worker_Properties.thy ===== *)
theory Worker_Properties
  imports Watchdog_Facts Computer_Properties
begin

text \<open>
  The correctness properties of the worker's jobs: how often a run is handed to the executor, that
  a run whose worker died is recovered, and what the sweep of the computer leases removes.
\<close>

section \<open>Deliveries\<close>

text \<open>
  C10: A delivery executes a run at most once, and only with a lease it took itself. Whatever
  other connections do between its statements, a delivery calls the executor at most once, on the
  run its payload names, with the row that then is in the table: owned by this job, under the
  fence right after the one in the payload, executing. A call from scratch was a queued run when
  it was taken; a call that resumes has a checkpoint to resume from. From then on no lease on the
  run is ever taken again under that fence, and no later delivery that carries the same or an
  older fence calls the executor, so a redelivered, duplicated or superseded job does nothing.
\<close>

theorem delivery_executes_once:
  assumes "fair_job E" and "wf_run_tables (wk_runs s)" and "run_execute E p s = (res, s')"
  shows "\<exists>calls. wk_executed s' = wk_executed s @ calls \<and> length calls \<le> 1 \<and>
    (\<forall>r b. (r, b) \<in> set calls \<longrightarrow>
       rw_id r = xp_runId p \<and> rw_spaceId r = xp_spaceId p \<and> rw_leaseFence r = Suc (xp_fence p) \<and>
       ls_leaseOwner r = Some (je_jobId E) \<and> executing r \<and> find_run (wk_runs s') (xp_runId p) = Some r \<and>
       (b \<longrightarrow> decideReclaim (rw_checkpoint r) = Resume) \<and>
       (\<not> b \<longrightarrow> (\<exists>t r0. run_db_step\<^sup>*\<^sup>* (wk_runs s) t \<and> find_run t (xp_runId p) = Some r0 \<and> ls_status r0 = Queued)) \<and>
       (\<forall>t now sp fe owner mode opt prev r2 t2. run_db_step\<^sup>*\<^sup>* (wk_runs s') t \<and>
          acquireRun now t sp (xp_runId p) fe owner mode opt prev = (Inr (Some r2), t2) \<longrightarrow>
          rw_leaseFence r < rw_leaseFence r2) \<and>
       (\<forall>E2 p2 s2. fair_job E2 \<and> run_db_step\<^sup>*\<^sup>* (wk_runs s') (wk_runs s2) \<and> xp_runId p2 = xp_runId p \<and>
          xp_fence p2 \<le> xp_fence p \<longrightarrow> wk_executed (snd (run_execute E2 p2 s2)) = wk_executed s2))"
proof -
  have one: "at_most_one_call E p s s'" using run_execute_calls [OF assms(1,2), of p] assms(3) by simp
  show ?thesis
  proof (cases "wk_executed s' = wk_executed s")
    case True
    then show ?thesis by (intro exI [of _ "[]"]) simp
  next
    case False
    then obtain r mode where c: "wk_executed s' = wk_executed s @ [(r, mode \<noteq> Claim)]" "takes E p (wk_runs s) r mode (wk_runs s')"
        "mode \<noteq> Claim \<Longrightarrow> decideReclaim (rw_checkpoint r) = Resume"
      using one by (auto simp: at_most_one_call_def)
    obtain t now opt prev where t: "run_db_step\<^sup>*\<^sup>* (wk_runs s) t" "wf_run_tables t"
        "acquireRun now t (xp_spaceId p) (xp_runId p) (xp_fence p) (je_jobId E) mode opt prev = (Inr (Some r), wk_runs s')"
      using c(2) unfolding takes_def by blast
    obtain r0 where r0: "find_run t (xp_runId p) = Some r0" "availabilityGuard mode now prev r0"
        and row: "rw_id r = xp_runId p" "rw_spaceId r = xp_spaceId p" "rw_leaseFence r = Suc (xp_fence p)"
        "ls_leaseOwner r = Some (je_jobId E)" "executing r" "find_run (wk_runs s') (xp_runId p) = Some r" "wf_run_tables (wk_runs s')"
      using acquired_row [OF t(3,2)] by metis
    have higher: "rw_leaseFence r < rw_leaseFence r2"
      if "run_db_step\<^sup>*\<^sup>* (wk_runs s') t1" "acquireRun now' t1 sp (xp_runId p) fe owner mode' opt' prev' = (Inr (Some r2), t2)"
      for t1 now' sp fe owner mode' opt' prev' r2 t2
      by (rule later_fence_higher [OF row(6) that(1) steps_wf [OF that(1) row(7)] that(2)])
    have never: "wk_executed (snd (run_execute E2 p2 s2)) = wk_executed s2"
      if fair: "fair_job E2" and st: "run_db_step\<^sup>*\<^sup>* (wk_runs s') (wk_runs s2)"
        and p2: "xp_runId p2 = xp_runId p" "xp_fence p2 \<le> xp_fence p" for E2 p2 s2
    proof (rule ccontr)
      assume "wk_executed (snd (run_execute E2 p2 s2)) \<noteq> wk_executed s2"
      then obtain r2 m2 where "takes E2 p2 (wk_runs s2) r2 m2 (wk_runs (snd (run_execute E2 p2 s2)))"
        using run_execute_calls [OF fair steps_wf [OF st row(7)], of p2] by (auto simp: at_most_one_call_def)
      then obtain t2 now2 opt2 prev2 where t2: "run_db_step\<^sup>*\<^sup>* (wk_runs s2) t2" "wf_run_tables t2"
          "acquireRun now2 t2 (xp_spaceId p2) (xp_runId p2) (xp_fence p2) (je_jobId E2) m2 opt2 prev2 =
            (Inr (Some r2), wk_runs (snd (run_execute E2 p2 s2)))"
        unfolding takes_def by blast
      have "rw_leaseFence r2 = Suc (xp_fence p2)" using acquired_row [OF t2(3,2)] by metis
      moreover have "rw_leaseFence r < rw_leaseFence r2"
        using higher [OF rtranclp_trans [OF st t2(1)]] t2(3) p2(1) by metis
      ultimately show False using row(3) p2(2) by simp
    qed
    have "\<exists>t r0. run_db_step\<^sup>*\<^sup>* (wk_runs s) t \<and> find_run t (xp_runId p) = Some r0 \<and> ls_status r0 = Queued" if "mode = Claim"
      using t(1) r0 that by auto
    then show ?thesis
      using c row(1-6) higher never by (intro exI [of _ "[(r, mode \<noteq> Claim)]"]) auto
  qed
qed

definition demo_job :: job_env where
  "demo_job = \<lparr>je_jobId = ''j'', je_now = (\<lambda>k. 1000), je_host = (\<lambda>k. 1000), je_others = (\<lambda>k d. d),
     je_registered = [runExecuteIdentifier], je_target = None, je_executor = (\<lambda>r b. True)\<rparr>"

definition worker_with :: "run_row list \<Rightarrow> worker_state" where
  "worker_with rs = \<lparr>wk_db = \<lparr>cd_runs = \<lparr>runs = rs, attempts = [], effects = []\<rparr>, cd_leases = []\<rparr>, wk_turn = 0,
     wk_jobs = [], wk_notices = [], wk_executed = []\<rparr>"

definition demo_payload :: run_execute_payload where
  "demo_payload = \<lparr>xp_runId = ''r'', xp_fence = 0, xp_spaceId = ''s'', xp_owner = None\<rparr>"

abbreviation demo_queued :: worker_state where
  "demo_queued \<equiv> worker_with [queued_row ''r'' ''s'' ''b'' ''t'']"

lemma demo_job_fair: "fair_job demo_job" and demo_job_quiet: "quiet_job demo_job"
  by (simp_all add: fair_job_def quiet_job_def demo_job_def)

lemma worker_with_wf: "distinct (map rw_id rs) \<Longrightarrow> wf_run_tables (wk_runs (worker_with rs))"
  by (simp add: worker_with_def wf_run_tables_def)

theorem delivery_executes_once_witness:
  "length (wk_executed (snd (run_execute demo_job demo_payload demo_queued))) = 1 \<and>
   wk_executed (snd (run_execute demo_job demo_payload (snd (run_execute demo_job demo_payload demo_queued)))) =
     wk_executed (snd (run_execute demo_job demo_payload demo_queued))"
proof -
  let ?s = "snd (run_execute demo_job demo_payload demo_queued)"
  have l: "length (wk_executed ?s) = 1"
    by (simp add: run_execute_def readRun_def run_statement_eq find_in_space_def demo_job_def demo_payload_def worker_with_def
        queued_row_def claimRun_def acquireRun_def returning_def INITIAL_RUN_STATUS_def acquired_def new_attempt_def execute_run_def)
  have e0: "wk_executed demo_queued = []" by (simp add: worker_with_def)
  have wf: "wf_run_tables (wk_runs demo_queued)" by (rule worker_with_wf) simp
  obtain calls where c: "wk_executed ?s = wk_executed demo_queued @ calls" and
      n: "\<And>r b. (r, b) \<in> set calls \<Longrightarrow> (\<forall>E2 p2 s2. fair_job E2 \<and> run_db_step\<^sup>*\<^sup>* (wk_runs ?s) (wk_runs s2) \<and>
          xp_runId p2 = xp_runId demo_payload \<and> xp_fence p2 \<le> xp_fence demo_payload \<longrightarrow>
          wk_executed (snd (run_execute E2 p2 s2)) = wk_executed s2)"
    using delivery_executes_once [OF demo_job_fair wf, of demo_payload "fst (run_execute demo_job demo_payload demo_queued)" ?s]
    by auto
  obtain x where "calls = [x]" using l c e0 by (cases calls) auto
  then have "(fst x, snd x) \<in> set calls" by simp
  from n [OF this] show ?thesis using l demo_job_fair by blast
qed

section \<open>Recovery\<close>

text \<open>
  C11: A run whose worker died is recovered by one pass of the watchdog. In a pass during which no
  other connection writes, which takes less than the life of a lease by the database's clock, and
  whose host clock is not behind the database's clock at the scan, every run the scan listed as
  expired is taken under the next fence by the watchdog's job. With a checkpoint it keeps its status
  and holds a lease of full length, and exactly one delivery is queued for it under its key; without
  one it has failed with the reason, and has been announced if a target for notices is configured.
  The failed run keeps the watchdog's job as its owner: the write that fails it releases nothing. The
  queued delivery, handled undisturbed before that lease ends, parses and hands the run to the
  executor as a resume under the fence after that, with the checkpoint it had.
\<close>

theorem expired_run_recovered:
  assumes "quiet_job E" and "T = je_now E (wk_turn s)" and "prompt_job E T"
    and "runExecuteIdentifier \<in> set (je_registered E)" and "wf_run_tables (wk_runs s)"
    and "x \<in> set (findExpiredLeases T (wk_runs s) (case wo_batchLimit opts of None \<Rightarrow> RUN_WATCHDOG_BATCH_LIMIT | Some n \<Rightarrow> n))"
  shows "\<exists>report s' r r'. watchdog_pass E opts s = (Inr report, s') \<and>
    find_run (wk_runs s) (xl_runId x) = Some r \<and> find_run (wk_runs s') (xl_runId x) = Some r' \<and>
    rw_leaseFence r' = Suc (rw_leaseFence r) \<and> ls_leaseOwner r' = Some (je_jobId E) \<and> rw_checkpoint r' = rw_checkpoint r \<and>
    (case decideReclaim (rw_checkpoint r) of
       Refuse_resume reason \<Rightarrow> ls_status r' = Failed \<and> rw_errorCode r' = Some (reclaim_failure_name reason) \<and>
         (je_target E \<noteq> None \<longrightarrow> rw_notifiedAt r' \<noteq> None)
     | Resume \<Rightarrow> ls_status r' = ls_status r \<and>
         (\<exists>t. rw_leaseExpiresAt r' = Some t \<and> T + RUN_LEASE_TTL_SECONDS * 1000 \<le> t) \<and>
         filter (\<lambda>q. qj_key q = Some (resume_key (xl_runId x))) (wk_jobs s') = [resume_job r' (je_jobId E)] \<and>
         (\<forall>E2 s2. plain_text (rw_id r) \<and> plain_text (rw_spaceId r) \<and> plain_text (je_jobId E) \<and> quiet_job E2 \<and>
            wk_runs s2 = wk_runs s' \<and> (\<forall>k. je_now E2 k < T + RUN_LEASE_TTL_SECONDS * 1000) \<longrightarrow>
            (\<exists>y. wk_executed (snd (runExecuteJob E2 (qj_payload (resume_job r' (je_jobId E))) s2)) = wk_executed s2 @ [(y, True)] \<and>
               rw_id y = rw_id r \<and> rw_checkpoint y = rw_checkpoint r \<and> rw_leaseFence y = rw_leaseFence r + 2)))"
proof -
  obtain report s' r where p: "watchdog_pass E opts s = (Inr report, s')" "wf_run_tables (wk_runs s')"
      "find_run (wk_runs s) (xl_runId x) = Some r" "rw_id r = xl_runId x" "expired_at T r" "recovered E T r s'"
    using watchdog_pass_recovers [OF assms] by blast
  obtain r' where r': "find_run (wk_runs s') (rw_id r) = Some r'" "rw_leaseFence r' = Suc (rw_leaseFence r)"
      "rw_spaceId r' = rw_spaceId r" "ls_leaseOwner r' = Some (je_jobId E)" "rw_checkpoint r' = rw_checkpoint r"
      "case decideReclaim (rw_checkpoint r) of Resume \<Rightarrow> resumed_row E T r r' s' | Refuse_resume reason \<Rightarrow> failed_row E reason r'"
    using p(6) unfolding recovered_def by blast
  have id: "rw_id r' = rw_id r" using r'(1) by (auto simp: find_run_def dest: find_key_Some)
  show ?thesis
  proof (cases "decideReclaim (rw_checkpoint r)")
    case (Refuse_resume reason)
    then show ?thesis using p r' by (auto simp: failed_row_def)
  next
    case Resume
    then obtain t where rr: "ls_status r' = ls_status r" "rw_leaseExpiresAt r' = Some t" "T + RUN_LEASE_TTL_SECONDS * 1000 \<le> t"
        "filter (\<lambda>q. qj_key q = Some (resume_key (rw_id r))) (wk_jobs s') = [resume_job r' (je_jobId E)]"
      using r'(6) by (auto simp: resumed_row_def)
    have ex: "executing r'" using p(5) rr(1) by (simp add: expired_at_def executing_def)
    have "\<exists>y. wk_executed (snd (runExecuteJob E2 (qj_payload (resume_job r' (je_jobId E))) s2)) = wk_executed s2 @ [(y, True)] \<and>
        rw_id y = rw_id r \<and> rw_checkpoint y = rw_checkpoint r \<and> rw_leaseFence y = rw_leaseFence r + 2"
      if "plain_text (rw_id r)" "plain_text (rw_spaceId r)" "plain_text (je_jobId E)" "quiet_job E2" "wk_runs s2 = wk_runs s'"
        "\<And>k. je_now E2 k < T + RUN_LEASE_TTL_SECONDS * 1000" for E2 s2
    proof -
      have ahead: "deadline_ahead (je_now E2 k) r'" for k using that(6) [of k] rr(2,3) by (simp add: deadline_ahead_def)
      show ?thesis
        using resume_delivered [OF that(4) _ _ ex r'(4) ahead, of s2] p(2) r' Resume that(1-3,5) id by (auto simp: resume_job_def)
    qed
    then show ?thesis using p r' rr Resume by auto
  qed
qed

definition dead_run :: run_row where
  "dead_run = (queued_row ''r'' ''s'' ''b'' ''t'')\<lparr>ls_status := Running, ls_leaseOwner := Some ''w'', rw_leaseFence := 1,
     rw_leaseExpiresAt := Some 100, rw_checkpoint := JObj [(''turn'', JNull)]\<rparr>"

abbreviation demo_pass :: worker_state where
  "demo_pass \<equiv> snd (watchdog_pass demo_job \<lparr>wo_batchLimit = None, wo_stallThresholdSeconds = None\<rparr> (worker_with [dead_run]))"

theorem expired_run_recovered_witness:
  "map qj_key (filter (\<lambda>q. qj_key q = Some (resume_key ''r'')) (wk_jobs demo_pass)) = [Some ''run.execute:r''] \<and>
   wk_executed (snd (runExecuteJob demo_job (qj_payload (hd (filter (\<lambda>q. qj_key q = Some (resume_key ''r'')) (wk_jobs demo_pass)))) demo_pass)) \<noteq>
     wk_executed demo_pass"
proof -
  let ?opts = "\<lparr>wo_batchLimit = None, wo_stallThresholdSeconds = None\<rparr>"
  let ?x = "\<lparr>xl_runId = ''r'', xl_spaceId = ''s'', xl_leaseFence = 1, xl_leaseExpiresAt = 100\<rparr>"
  have wf: "wf_run_tables (wk_runs (worker_with [dead_run]))" by (rule worker_with_wf) simp
  have pr: "prompt_job demo_job 1000" by (simp add: prompt_job_def demo_job_def RUN_LEASE_TTL_SECONDS_def RUN_HEARTBEAT_INTERVAL_SECONDS_def RUN_HEARTBEAT_GRACE_SECONDS_def)
  have now: "1000 = je_now demo_job (wk_turn (worker_with [dead_run]))" by (simp add: demo_job_def)
  have reg: "runExecuteIdentifier \<in> set (je_registered demo_job)" by (simp add: demo_job_def)
  have "findExpiredLeases 1000 (wk_runs (worker_with [dead_run])) RUN_WATCHDOG_BATCH_LIMIT = [?x]"
    by (simp add: findExpiredLeases_def worker_with_def dead_run_def queued_row_def executing_def deadline_passed_def RUN_WATCHDOG_BATCH_LIMIT_def)
  then have x: "?x \<in> set (findExpiredLeases 1000 (wk_runs (worker_with [dead_run]))
      (case wo_batchLimit ?opts of None \<Rightarrow> RUN_WATCHDOG_BATCH_LIMIT | Some n \<Rightarrow> n))" by simp
  have d: "find_run (wk_runs (worker_with [dead_run])) ''r'' = Some dead_run"
      "decideReclaim (rw_checkpoint dead_run) = Resume"
    by (simp_all add: worker_with_def find_run_def dead_run_def queued_row_def decideReclaim_def)
  have pt: "plain_text (rw_id dead_run)" "plain_text (rw_spaceId dead_run)" "plain_text (je_jobId demo_job)"
    by (simp_all add: plain_text_def trim_def is_space_def code_unit_def dead_run_def queued_row_def demo_job_def)
  have lt: "je_now demo_job k < 1000 + RUN_LEASE_TTL_SECONDS * 1000" for k using pr by (simp add: prompt_job_def)
  obtain r' where r': "filter (\<lambda>q. qj_key q = Some (resume_key ''r'')) (wk_jobs demo_pass) = [resume_job r' (je_jobId demo_job)]"
      "find_run (wk_runs demo_pass) ''r'' = Some r'"
      "\<exists>y. wk_executed (snd (runExecuteJob demo_job (qj_payload (resume_job r' (je_jobId demo_job))) demo_pass)) = wk_executed demo_pass @ [(y, True)]"
    using expired_run_recovered [OF demo_job_quiet now pr reg wf x] d(1,2) pt lt demo_job_quiet by auto blast
  have "rw_id r' = ''r''" using r'(2) by (auto simp: find_run_def dest: find_key_Some)
  then show ?thesis using r' by (auto simp: resume_job_def resume_key_def runExecuteIdentifier_def)
qed

section \<open>The computer sweep\<close>

text \<open>
  The sweep deletes by the binding it scanned and not by the expiry: a lease that its own holder
  renews between the scan and the delete is removed while it is live, and another run can hold
  the machine before the renewed lease has expired.
\<close>

definition renewing_job :: job_env where
  "renewing_job = demo_job\<lparr>je_others := (\<lambda>k d. if k = 1
     then snd (holdComputerLease 1000 ''n'' quiet d ''s'' (live_holder ''1'') 60) else d)\<rparr>"

definition short_lease :: computer_db where
  "short_lease = snd (holdComputerLease 0 ''l'' quiet three_runs ''s'' (live_holder ''1'') 1)"

definition swept_worker :: worker_state where
  "swept_worker = snd (releaseStaleComputers renewing_job 50 ((worker_with [])\<lparr>wk_db := short_lease\<rparr>))"

lemma sweep_removes_renewed:
  "cd_leases (je_others renewing_job 1 short_lease) = [new_lease 1000 ''l'' ''s'' (live_holder ''1'') 60]"
  "cd_leases (wk_db swept_worker) = []"
  "fst (holdComputerLease 1000 ''m'' quiet (wk_db swept_worker) ''s'' (live_holder ''2'') 60) =
     Inr (Lease_held (new_lease 1000 ''m'' ''s'' (live_holder ''2'') 60))"
  by code_simp+

end
