(* ===== verification/Run_Execution.thy ===== *)
theory Run_Execution
  imports Watchdog_Facts
begin

text \<open>
  The frame a run executes in: draining a session and pumping its commands
  (\<open>packages/effect/src/run-commands.ts\<close>), the fence around the work
  (\<open>packages/effect/src/run-fence.ts\<close>) and the executor that settles the row
  (\<open>apps/worker/src/run-execution.ts\<close>). The work is an argument, by how it ends. The fence is a
  signal that may come before or during any statement of the settlement: before it the statement
  is not sent, during it the statement runs and its answer is dropped, since a promise that was
  started is not taken back. Heartbeats are statements of other connections.
\<close>

section \<open>Draining a session\<close>

datatype session_outcome = Out_completed | Out_cancelled "string option" | Out_failed string "string option"

datatype 'e consume_error = Recording_failed 'e | Two_terminal_events | No_terminal_event

fun terminalOutcome :: "run_event \<Rightarrow> session_outcome option" where
  "terminalOutcome (RunCompleted _ _) = Some Out_completed"
| "terminalOutcome (RunCancelled _ reason) = Some (Out_cancelled reason)"
| "terminalOutcome (RunFailed _ err code) = Some (Out_failed err code)"
| "terminalOutcome _ = None"

text \<open>The loop over the stream; \<open>onEvent\<close> answers the failure of recording an event, if any.\<close>

fun drain_session ::
  "(run_event \<Rightarrow> 'e option) \<Rightarrow> session_outcome option \<Rightarrow> run_event list \<Rightarrow> 'e consume_error + session_outcome option" where
  "drain_session onEvent terminal [] = Inr terminal"
| "drain_session onEvent terminal (e # es) =
     (case onEvent e of
        Some x \<Rightarrow> Inl (Recording_failed x)
      | None \<Rightarrow>
          (case terminalOutcome e of
             None \<Rightarrow> drain_session onEvent terminal es
           | Some out \<Rightarrow> if terminal \<noteq> None then Inl Two_terminal_events else drain_session onEvent (Some out) es))"

definition consumeRunSession :: "(run_event \<Rightarrow> 'e option) \<Rightarrow> run_event list \<Rightarrow> 'e consume_error + session_outcome" where
  "consumeRunSession onEvent es =
     bindE (drain_session onEvent None es) (\<lambda>t. case t of None \<Rightarrow> Inl No_terminal_event | Some out \<Rightarrow> Inr out)"

section \<open>Pumping commands\<close>

datatype pumped_command = Pump_steer string string | Pump_stop string

definition DEFAULT_STOP_REASON :: string where "DEFAULT_STOP_REASON = ''the operator stopped this run''"

text \<open>
  One tick: what is offered to the mailbox and whether the pump goes on. A read that fails is the
  empty answer; \<open>accepts\<close> is whether the mailbox is open when the next command arrives.
\<close>

fun offer_steers :: "(nat \<Rightarrow> bool) \<Rightarrow> nat \<Rightarrow> (string \<times> string) list \<Rightarrow> pumped_command list \<times> bool" where
  "offer_steers accepts n [] = ([], True)"
| "offer_steers accepts n (x # xs) =
     (if accepts n then let (cs, b) = offer_steers accepts (n + 1) xs in (Pump_steer (fst x) (snd x) # cs, b)
      else ([], False))"

definition pump_tick ::
  "(nat \<Rightarrow> bool) \<Rightarrow> (string \<times> string) list option \<Rightarrow> bool option \<Rightarrow> pumped_command list \<times> bool" where
  "pump_tick accepts claimed stopRequested =
     (let steers = (case claimed of None \<Rightarrow> [] | Some xs \<Rightarrow> xs); (cs, open) = offer_steers accepts 0 steers in
      if \<not> open then (cs, False)
      else if (case stopRequested of None \<Rightarrow> False | Some b \<Rightarrow> b)
      then (if accepts (length steers) then cs @ [Pump_stop DEFAULT_STOP_REASON] else cs, False)
      else (cs, True))"

section \<open>The executor\<close>

text \<open>
  How the work ended: with an outcome, interrupted, with a lost lease, or with another cause, by
  the message of its first failure when that is an \<open>Error\<close>.
\<close>

datatype work_exit = Work_done session_outcome | Work_interrupted | Work_lease_lost | Work_threw "string option"

definition work_of :: "string consume_error + session_outcome \<Rightarrow> work_exit" where
  "work_of res =
     (case res of Inr out \<Rightarrow> Work_done out | Inl (Recording_failed m) \<Rightarrow> Work_threw (Some m) | Inl _ \<Rightarrow> Work_threw None)"

fun settlement :: "session_outcome \<Rightarrow> fenced_run_patch" where
  "settlement Out_completed =
     \<lparr>pt_status = Some Completed, pt_checkpoint = None, pt_error = None, pt_errorCode = None, pt_started = False,
      pt_completed = True, pt_release = True, pt_settleInFlight = None, pt_attempt = Some A_completed\<rparr>"
| "settlement (Out_cancelled _) =
     \<lparr>pt_status = Some Cancelled, pt_checkpoint = None, pt_error = None, pt_errorCode = Some (Some ''cancelled''),
      pt_started = False, pt_completed = True, pt_release = True,
      pt_settleInFlight = Some ''the run was cancelled before this tool call settled'', pt_attempt = Some A_cancelled\<rparr>"
| "settlement (Out_failed err code) =
     \<lparr>pt_status = Some Failed, pt_checkpoint = None, pt_error = Some (Some err), pt_errorCode = Some code,
      pt_started = False, pt_completed = True, pt_release = True,
      pt_settleInFlight = Some ''the run failed before this tool call settled'', pt_attempt = Some A_failed\<rparr>"

definition workFailureMessage :: "string option \<Rightarrow> string" where
  "workFailureMessage m =
     (case m of
        Some t \<Rightarrow> if trim t \<noteq> [] then t else ''the run failed while it was executing''
      | None \<Rightarrow> ''the run failed while it was executing'')"

definition work_failure_patch :: "string option \<Rightarrow> fenced_run_patch" where
  "work_failure_patch m =
     \<lparr>pt_status = Some Failed, pt_checkpoint = None, pt_error = Some (Some (workFailureMessage m)), pt_errorCode = None,
      pt_started = False, pt_completed = True, pt_release = True, pt_settleInFlight = None, pt_attempt = Some A_failed\<rparr>"

fun exit_patch :: "work_exit \<Rightarrow> fenced_run_patch option" where
  "exit_patch (Work_done out) = Some (settlement out)"
| "exit_patch (Work_threw m) = Some (work_failure_patch m)"
| "exit_patch _ = None"

datatype fence_signal = Fence_held | Lost_before | Lost_during

definition guarded :: "(nat \<Rightarrow> fence_signal) \<Rightarrow> (worker_state \<Rightarrow> 'a \<times> worker_state) \<Rightarrow> worker_state \<Rightarrow> 'a option \<times> worker_state" where
  "guarded sig f s =
     (case sig (wk_turn s) of
        Lost_before \<Rightarrow> (None, s)
      | Lost_during \<Rightarrow> (None, snd (f s))
      | Fence_held \<Rightarrow> (let (x, s') = f s in (Some x, s')))"

definition settle_run ::
  "job_env \<Rightarrow> run_row \<Rightarrow> string \<Rightarrow> fenced_run_patch \<Rightarrow> worker_state \<Rightarrow> (lease_error + run_row) \<times> worker_state" where
  "settle_run E r owner patch =
     run_statement E (\<lambda>now db. updateClaimedRun now db (rw_spaceId r) (rw_id r)
       \<lparr>lease_owner = owner, lease_fence = rw_leaseFence r\<rparr> patch)"

definition releaseComputer :: "job_env \<Rightarrow> run_row \<Rightarrow> string \<Rightarrow> worker_state \<Rightarrow> bool \<times> worker_state" where
  "releaseComputer E r owner =
     statement E (\<lambda>now d. releaseComputerLease d (rw_spaceId r)
       \<lparr>lh_botId = rw_botId r, lh_runId = rw_id r, lh_owner = owner, lh_fence = rw_leaseFence r\<rparr>)"

text \<open>The program inside the fence: whether it ended without a lost lease.\<close>

definition run_program ::
  "job_env \<Rightarrow> (nat \<Rightarrow> fence_signal) \<Rightarrow> run_row \<Rightarrow> string \<Rightarrow> work_exit \<Rightarrow> worker_state \<Rightarrow> bool \<times> worker_state" where
  "run_program E sig r owner w s =
     (case exit_patch w of
        None \<Rightarrow> (False, s)
      | Some patch \<Rightarrow>
          (case guarded sig (settle_run E r owner patch) s of
             (Some (Inr row), s1) \<Rightarrow>
               (case guarded sig (releaseComputer E r owner) s1 of
                  (None, s2) \<Rightarrow> (False, s2)
                | (Some _, s2) \<Rightarrow>
                    (case guarded sig (\<lambda>s. ((), notify_settled E (rw_spaceId r) row s)) s2 of
                       (None, s3) \<Rightarrow> (False, s3)
                     | (Some _, s3) \<Rightarrow> (True, s3)))
           | (_, s1) \<Rightarrow> (False, s1)))"

definition lost_reason :: string where
  "lost_reason = ''the worker lost the lease before the attempt settled''"

text \<open>
  The executor: the error without an owner, or the grants it revoked, which are all the work had
  registered.
\<close>

definition run_executor ::
  "job_env \<Rightarrow> (nat \<Rightarrow> fence_signal) \<Rightarrow> run_row \<Rightarrow> work_exit \<Rightarrow> string list \<Rightarrow> worker_state \<Rightarrow> (job_error + string list) \<times> worker_state" where
  "run_executor E sig r w handles s =
     (case ls_leaseOwner r of
        None \<Rightarrow> (Inl (Without_owner (rw_id r)), s)
      | Some owner \<Rightarrow>
          (let (finished, s1) = run_program E sig r owner w s in
           (Inr handles,
            if finished then s1
            else snd (run_statement E (\<lambda>now db. abandonAttempt now db (rw_spaceId r) (rw_id r) (rw_leaseFence r) lost_reason) s1))))"

section \<open>Facts\<close>

text \<open>Exactly one terminal event, and every event recorded, is what a drained session reports.\<close>

lemma drain_Inr:
  "drain_session onEvent t es = Inr u \<longleftrightarrow> (\<forall>e \<in> set es. onEvent e = None) \<and>
     (let outs = List.map_filter terminalOutcome es in
      (t = None \<and> length outs \<le> 1 \<and> u = (case outs of [] \<Rightarrow> None | x # _ \<Rightarrow> Some x)) \<or> (t \<noteq> None \<and> outs = [] \<and> u = t))"
proof (induction es arbitrary: t)
  case (Cons e es)
  show ?case
  proof (cases "onEvent e")
    case None
    show ?thesis
    proof (cases "terminalOutcome e")
      case None
      then show ?thesis using Cons.IH [of t] \<open>onEvent e = None\<close> by (simp add: map_filter_simps)
    next
      case (Some out)
      then show ?thesis using Cons.IH [of "Some out"] \<open>onEvent e = None\<close>
        by (cases t) (auto simp: map_filter_simps Let_def split: list.splits)
    qed
  qed simp
qed (auto simp: map_filter_simps)

lemma consume_Inr:
  "consumeRunSession onEvent es = Inr out \<longleftrightarrow>
     (\<forall>e \<in> set es. onEvent e = None) \<and> List.map_filter terminalOutcome es = [out]"
proof -
  have "consumeRunSession onEvent es = Inr out \<longleftrightarrow> drain_session onEvent None es = Inr (Some out)"
    by (auto simp: consumeRunSession_def bindE_def split: sum.splits option.splits)
  then show ?thesis unfolding drain_Inr by (auto simp: Let_def split: list.splits)
qed

text \<open>A settlement under a lease that is still held, and one under a lease that is not.\<close>

lemma update_where_all:
  "(\<And>x. P x \<Longrightarrow> Q (f x)) \<Longrightarrow> (\<And>x. \<not> P x \<Longrightarrow> Q x) \<Longrightarrow> \<forall>x \<in> set (update_where P f rows). Q x"
  by (auto simp: update_where_def)

lemma settle_owned:
  assumes "wf_run_tables t" and "find_run t (rw_id r) = Some r" and "holds_lease now sp (rw_id r) lease r"
    and "statusTransitionGuard (pt_status patch) r" and "pt_attempt patch = Some st" and "st \<noteq> A_running"
  shows "\<forall>a \<in> set (attempts (snd (updateClaimedRun now t sp (rw_id r) lease patch))). \<not> open_attempt (rw_id r) (lease_fence lease) a"
    and "pt_settleInFlight patch \<noteq> None \<Longrightarrow>
      \<forall>e \<in> set (effects (snd (updateClaimedRun now t sp (rw_id r) lease patch))). \<not> effect_in_flight sp (rw_id r) e"
proof -
  have "r \<in> set (runs t)" using assms(2) by (auto simp: find_run_def dest: find_key_Some)
  then have u: "returning (\<lambda>x. holds_lease now sp (rw_id r) lease x \<and> statusTransitionGuard (pt_status patch) x) (patched now patch) (runs t) \<noteq> []"
    using assms(3,4) by (auto simp: returning_Nil)
  show "\<forall>a \<in> set (attempts (snd (updateClaimedRun now t sp (rw_id r) lease patch))). \<not> open_attempt (rw_id r) (lease_fence lease) a"
    using u assms(5,6) by (simp add: updateClaimedRun_def Let_def, intro update_where_all)
      (simp_all add: close_attempt_def open_attempt_def)
  show "\<forall>e \<in> set (effects (snd (updateClaimedRun now t sp (rw_id r) lease patch))). \<not> effect_in_flight sp (rw_id r) e"
    if some: "pt_settleInFlight patch \<noteq> None"
  proof -
    obtain reason where reason: "pt_settleInFlight patch = Some reason" using some by blast
    have "effects (snd (updateClaimedRun now t sp (rw_id r) lease patch)) =
        update_where (effect_in_flight sp (rw_id r)) (fail_effect (Some reason)) (effects t)"
      using u reason by (simp add: updateClaimedRun_def Let_def)
    then show ?thesis by (simp, intro update_where_all) (simp_all add: fail_effect_def effect_in_flight_def)
  qed
qed

lemma exit_patch_ok:
  assumes "exit_patch w = Some patch"
  shows "\<exists>st att. pt_status patch = Some st \<and> isTerminalStatus st \<and> pt_attempt patch = Some att \<and> att \<noteq> A_running \<and>
    pt_release patch \<and> pt_completed patch \<and> (\<forall>r. ls_status r = Running \<longrightarrow> statusTransitionGuard (pt_status patch) r)"
proof (cases w)
  case (Work_done out)
  then show ?thesis using assms by (cases out) (auto simp: isTerminalStatus_def executing_def)
qed (use assms in \<open>auto simp: work_failure_patch_def isTerminalStatus_def executing_def\<close>)

lemma guarded_held: "sig (wk_turn s) = Fence_held \<Longrightarrow> guarded sig f s = (Some (fst (f s)), snd (f s))"
  by (simp add: guarded_def split: prod.split)

text \<open>What the notice of a settled run changes of the state.\<close>

lemma notify_settled_frame:
  assumes "quiet_job E"
  shows "attempts (wk_runs (notify_settled E sp r s)) = attempts (wk_runs s)" "effects (wk_runs (notify_settled E sp r s)) = effects (wk_runs s)"
    "cd_leases (wk_db (notify_settled E sp r s)) = cd_leases (wk_db s)"
  using assms by (auto simp: notify_settled_def run_statement_eq quiet_job_def notifySettledRun_def claimRunNotification_def Let_def
      split: option.split prod.split)

lemma notify_settled_find:
  assumes "quiet_job E" and "find_run (wk_runs s) (rw_id r) = Some r" and "rw_spaceId r = sp"
  shows "\<exists>n. find_run (wk_runs (notify_settled E sp r s)) (rw_id r) = Some (r\<lparr>rw_notifiedAt := n\<rparr>) \<and>
    (je_target E \<noteq> None \<and> ls_status r \<in> {Completed, Failed} \<longrightarrow> n \<noteq> None)"
proof (cases "je_target E = None \<or> ls_status r \<notin> {Completed, Failed}")
  case True
  then have "wk_runs (notify_settled E sp r s) = wk_runs s"
    using assms(1) by (auto simp: notify_settled_def run_statement_eq quiet_job_def notifySettledRun_def settledMessage_def Let_def
        split: option.split run_status.split)
  then show ?thesis using True assms(2) by (intro exI [of _ "rw_notifiedAt r"]) auto
next
  case False
  then obtain t where t: "je_target E = Some t" "ls_status r = Completed \<or> ls_status r = Failed" by auto
  let ?now = "je_now E (wk_turn s)"
  obtain sent s' where s': "run_statement E (\<lambda>now. notifySettledRun t now sp r) s = (sent, s')" by fastforce
  have "wk_runs s' = snd (claimRunNotification ?now (wk_runs s) sp (rw_id r))"
    using quiet_run_statement(1) [OF assms(1) s'] t(2)
    by (auto simp: notifySettledRun_def settledMessage_def split: prod.splits if_splits)
  then have "find_run (wk_runs s') (rw_id r) = Some (r\<lparr>rw_notifiedAt := Some (case rw_notifiedAt r of None \<Rightarrow> ?now | Some n \<Rightarrow> n)\<rparr>)"
    using assms(2,3) t(2) by (cases "rw_notifiedAt r") (auto simp: find_run_update [OF ntf.keyed_update_axioms notify_runs])
  then show ?thesis using t(1) s' by (auto simp: notify_settled_def)
qed

lemma program_settles:
  assumes "quiet_job E" and "wf_run_tables (wk_runs s)" and "find_run (wk_runs s) (rw_id r) = Some r"
    and "ls_leaseOwner r = Some owner" and "ls_status r = Running" and "\<And>k. deadline_ahead (je_now E k) r"
    and "\<And>k. sig k = Fence_held" and "exit_patch w = Some patch"
  shows "\<exists>r' s'. run_program E sig r owner w s = (True, s') \<and> find_run (wk_runs s') (rw_id r) = Some r' \<and>
    pt_status patch = Some (ls_status r') \<and> ls_leaseOwner r' = None \<and> rw_leaseExpiresAt r' = None \<and> rw_completedAt r' \<noteq> None \<and>
    rw_leaseFence r' = rw_leaseFence r \<and>
    (je_target E \<noteq> None \<and> ls_status r' \<in> {Completed, Failed} \<longrightarrow> rw_notifiedAt r' \<noteq> None) \<and>
    (\<forall>a \<in> set (attempts (wk_runs s')). \<not> open_attempt (rw_id r) (rw_leaseFence r) a) \<and>
    (pt_settleInFlight patch \<noteq> None \<longrightarrow> (\<forall>e \<in> set (effects (wk_runs s')). \<not> effect_in_flight (rw_spaceId r) (rw_id r) e)) \<and>
    (\<forall>l \<in> set (cd_leases (wk_db s')). \<not> (cl_spaceId l = rw_spaceId r \<and> cl_botId l = rw_botId r \<and> cl_runId l = rw_id r \<and>
       cl_owner l = owner \<and> cl_fence l = rw_leaseFence r))"
proof -
  let ?now = "je_now E (wk_turn s)" and ?l = "\<lparr>lease_owner = owner, lease_fence = rw_leaseFence r\<rparr>" and ?sp = "rw_spaceId r"
  let ?h = "\<lparr>lh_botId = rw_botId r, lh_runId = rw_id r, lh_owner = owner, lh_fence = rw_leaseFence r\<rparr>"
  obtain st att where p: "pt_status patch = Some st" "isTerminalStatus st" "pt_attempt patch = Some att" "att \<noteq> A_running"
      "pt_release patch" "pt_completed patch" "statusTransitionGuard (pt_status patch) r"
    using exit_patch_ok [OF assms(8)] assms(5) by blast
  have hl: "holds_lease ?now ?sp (rw_id r) ?l r" using assms(4-6) by (simp add: holds_lease_def executing_def)
  let ?row = "patched ?now patch r"
  have eq: "fst (settle_run E r owner patch s) = Inr ?row"
    and t1: "wk_runs (snd (settle_run E r owner patch s)) = snd (updateClaimedRun ?now (wk_runs s) ?sp (rw_id r) ?l patch)"
    using update_owned(1) [OF assms(2,3) hl p(7)] assms(1)
    by (auto simp: settle_run_def run_statement_eq quiet_job_def Let_def split: prod.split)
  define s1 where "s1 = snd (settle_run E r owner patch s)"
  define s2 where "s2 = snd (releaseComputer E r owner s1)"
  define s3 where "s3 = notify_settled E ?sp ?row s2"
  have row: "rw_id ?row = rw_id r" "rw_spaceId ?row = ?sp" "ls_status ?row = st" "ls_leaseOwner ?row = None" "rw_leaseExpiresAt ?row = None"
      "rw_completedAt ?row \<noteq> None" "rw_leaseFence ?row = rw_leaseFence r"
    using p by (simp_all add: patched_def Let_def)
  have s2: "wk_runs s2 = wk_runs s1" "wk_db s2 = snd (releaseComputerLease (wk_db s1) ?sp ?h)"
    using assms(1) by (simp_all add: s2_def releaseComputer_def statement_def quiet_job_def releaseComputerLease_def Let_def)
  have run: "run_program E sig r owner w s = (True, s3)"
    unfolding run_program_def assms(8) option.case guarded_held [of sig, OF assms(7)] by (simp add: eq s1_def s2_def s3_def)
  have f1: "find_run (wk_runs s2) (rw_id ?row) = Some ?row"
    using update_owned(2) [OF assms(2,3) hl p(7)] s2(1) row(1) t1 by (simp add: s1_def)
  obtain n where n: "find_run (wk_runs s3) (rw_id r) = Some (?row\<lparr>rw_notifiedAt := n\<rparr>)"
      "je_target E \<noteq> None \<and> st \<in> {Completed, Failed} \<longrightarrow> n \<noteq> None"
    using notify_settled_find [OF assms(1) f1 row(2)] row(1,3) unfolding s3_def by auto
  have fr: "attempts (wk_runs s3) = attempts (wk_runs s1)" "effects (wk_runs s3) = effects (wk_runs s1)" "cd_leases (wk_db s3) = cd_leases (wk_db s2)"
    using notify_settled_frame [OF assms(1), of ?sp ?row s2] s2(1) by (simp_all add: s3_def)
  note so = settle_owned [OF assms(2,3) hl p(7,3,4), folded t1, folded s1_def]
  have free: "\<not> (cl_spaceId l = ?sp \<and> cl_botId l = rw_botId r \<and> cl_runId l = rw_id r \<and> cl_owner l = owner \<and> cl_fence l = rw_leaseFence r)"
    if "l \<in> set (cd_leases (wk_db s3))" for l
    using that unfolding fr(3) s2(2) by (auto simp: releaseComputerLease_def Let_def binds_def)
  show ?thesis
  proof (intro exI conjI)
    show "run_program E sig r owner w s = (True, s3)" by (rule run)
    show "find_run (wk_runs s3) (rw_id r) = Some (?row\<lparr>rw_notifiedAt := n\<rparr>)" by (rule n(1))
    show "\<forall>a \<in> set (attempts (wk_runs s3)). \<not> open_attempt (rw_id r) (rw_leaseFence r) a" using so(1) fr(1) by simp
    show "pt_settleInFlight patch \<noteq> None \<longrightarrow> (\<forall>e \<in> set (effects (wk_runs s3)). \<not> effect_in_flight ?sp (rw_id r) e)"
      using so(2) fr(2) by simp
  qed (use row p(1) n(2) free in simp_all)
qed

text \<open>An executor whose fence was passed closes at most its own attempt.\<close>

lemma program_superseded:
  assumes "quiet_job E" and "wf_run_tables (wk_runs s)" and "find_run (wk_runs s) (rw_id r) = Some q"
    and "rw_leaseFence r < rw_leaseFence q"
  shows "\<exists>s'. run_program E sig r owner w s = (False, s') \<and> wk_db s' = wk_db s \<and> wk_notices s' = wk_notices s"
proof (cases "exit_patch w")
  case None
  then show ?thesis by (simp add: run_program_def)
next
  case (Some patch)
  let ?l = "\<lparr>lease_owner = owner, lease_fence = rw_leaseFence r\<rparr>"
  have "\<not> holds_lease now sp (rw_id r) ?l x" if "x \<in> set (runs (wk_runs s))" for x now sp
    by (rule stale_lease [OF rtranclp.rtrancl_refl assms(2,3) _ that]) (use assms(4) in simp)
  then have "updateClaimedRun now (wk_runs s) sp (rw_id r) ?l patch = (Inl (LeaseLostError (rw_id r)), wk_runs s)" for now sp
    by (rule lost_write)
  then have "fst (settle_run E r owner patch s) = Inl (LeaseLostError (rw_id r))" "wk_db (snd (settle_run E r owner patch s)) = wk_db s"
      "wk_notices (snd (settle_run E r owner patch s)) = wk_notices s"
    using assms(1) by (simp_all add: settle_run_def run_statement_eq quiet_job_def Let_def)
  then show ?thesis using Some by (auto simp: run_program_def guarded_def split: fence_signal.split prod.split)
qed

text \<open>
  Work that throws settles its run as failed, but, unlike a session that reports a failure, leaves
  every tool call as it was: a call that was in flight stays so, under a run nothing will resume.
\<close>

lemma thrown_keeps_calls:
  assumes "quiet_job E"
  shows "effects (wk_runs (snd (run_program E sig r owner (Work_threw m) s))) = effects (wk_runs s)"
proof -
  have s: "effects (wk_runs (snd (settle_run E r owner (work_failure_patch m) x))) = effects (wk_runs x)" for x
    using assms by (simp add: settle_run_def run_statement_eq quiet_job_def updateClaimedRun_def work_failure_patch_def Let_def)
  have c: "effects (wk_runs (snd (releaseComputer E r owner x))) = effects (wk_runs x)" for x
    using assms by (simp add: releaseComputer_def statement_def quiet_job_def releaseComputerLease_def Let_def)
  have g: "effects (wk_runs y) = effects (wk_runs x)"
    if "guarded sig f x = (a, y)" "\<And>z. effects (wk_runs (snd (f z))) = effects (wk_runs z)" for f :: "worker_state \<Rightarrow> 'a \<times> worker_state" and a x y
    using that(1) that(2) [of x] by (auto simp: guarded_def split: fence_signal.splits prod.splits)
  have n: "effects (wk_runs (snd ((), notify_settled E sp row x))) = effects (wk_runs x)" for sp row x
    using notify_settled_frame(2) [OF assms] by simp
  show ?thesis
    by (auto simp: run_program_def split: prod.split option.split sum.split
        dest!: g [where f = "\<lambda>s. ((), notify_settled E _ _ s)", OF _ n] g [where f = "settle_run E r owner (work_failure_patch m)", OF _ s] g [where f = "releaseComputer E r owner", OF _ c])
qed

text \<open>A steer that was claimed before the mailbox closed is lost with its tick.\<close>

lemma closed_mailbox_drops: "\<not> accepts 0 \<Longrightarrow> pump_tick accepts (Some (x # xs)) stop = ([], False)"
  by (simp add: pump_tick_def)

end
