(* ===== verification/Spec2Isabelle.thy ===== *)
theory Spec2Isabelle
  imports Thread_Properties Execution_Properties Memory_Properties Prompt_Properties Boundary_Properties
    Time_Properties Fetch_Properties Action_Properties Store_Properties Routine_Properties Computer_Properties
    Runtime_Properties Limit_Properties Ingress_Properties Worker_Properties Run_Execution
begin

text \<open>
  A verification development of PorkBot, a self-hosted service in which bots hold threads of
  messages, execute runs with tools on a computer of their own, remember documents and fire
  routines. Paths below are relative to \<open>src/\<close>.

  \<^bold>\<open>The program and its parts.\<close> The decisions of the product are pure functions of
  \<open>packages/core/src\<close>; the database package \<open>packages/db/src\<close> persists them with one SQL
  statement per operation; the effect package, the worker and the API call both. A run is a row
  that a worker claims under a fenced lease. Executing it emits events; every consumer folds the
  events of a thread into a snapshot. Tool calls go through a classifier, possibly an approval
  gate, and the dispatcher with its ledger; what they fetch goes through the guarded fetch.
  Messages start runs or steer them, routines start them on a schedule. Prompts are composed
  from instructions, memory and ingested text. A worker's jobs deliver runs to the executor and
  recover those whose worker died; commands on a bot's computer run under a lease of their own;
  the agent runtime's events enter through a strict parser and a session. Operators are told of
  settled and stalled runs. Requests from outside meet the API's limits, and webhooks its ingress.

  \<^bold>\<open>The theories, in the order of dependency.\<close>

  \<^item> \<open>Prelude\<close>: the result type of fallible code (\<open>Inl\<close> an error, \<open>Inr\<close> a value), JavaScript
    values and numbers, string operations, keyed lists. \<open>Table\<close>: a table as a list of rows, a
    guarded update and its returning clause, and the locale \<open>keyed_update\<close> of updates that keep
    the columns of a unique index. \<open>Calendar\<close> and \<open>Schedule\<close>: the proleptic Gregorian
    calendar of \<open>Date\<close> and the locale of strictly advancing schedules.
  \<^item> \<open>Run_State\<close> (\<open>run-state.ts\<close>, \<open>approvals.ts\<close>, \<open>run-recovery.ts\<close>): the status graph,
    approval vocabulary and reclaim decision.
  \<^item> \<open>Run_Events\<close> (\<open>run-events.ts\<close>): the event vocabulary and its parser, field by field.
  \<^item> \<open>Event_Reducer\<close> (\<open>event-reducer.ts\<close>): snapshots, the handlers of all event types, the
    cursor, the buffer of early events and its drain. \<open>Reducer_Facts\<close>, \<open>Run_Protocol\<close>,
    \<open>Reducer_Invariants\<close>, \<open>Resequencer\<close> (the locale of a buffered consumer),
    \<open>Reducer_Convergence\<close> and \<open>Transcript\<close> hold its theory.
  \<^item> \<open>Run_Liveness\<close> (\<open>run-liveness.ts\<close> of the core package): the progress tracker and the
    assessment of a run.
  \<^item> \<open>Run_Leases\<close> (\<open>packages/db/src/run-leases.ts\<close>, \<open>run-liveness.ts\<close>, the stop command of
    \<open>repositories.ts\<close>), \<open>Tool_Ledger\<close> (\<open>tool-call-ledger.ts\<close>) and \<open>Approval_Store\<close>
    (\<open>approval-store.ts\<close>): the run, attempt, effect and approval tables and every statement on
    them; \<open>Run_Database\<close> holds the step relation of their concurrent executions, the
    invariant of the tables and how rows evolve.
  \<^item> \<open>Tool_Dispatch\<close> (\<open>packages/effect/src/tool-dispatcher.ts\<close>): registrations and the execution
    of a call; the locale \<open>tool_ledger\<close> states what the dispatcher relies on, interpreted on the
    database's ledger. \<open>Approval_Gate\<close> (\<open>approval-gate.ts\<close>, \<open>danger-guard.ts\<close>): the gate a
    dangerous call waits at and the guard that opens it.
  \<^item> \<open>Computer_Commands\<close> (\<open>packages/db/src/computer-leases.ts\<close>,
    \<open>packages/effect/src/computer-commands.ts\<close>): the lease of a bot's computer and the command
    runner with its key, its two holds and its recorded result, over any ledger and on the
    database's.
  \<^item> \<open>Pi_Events\<close> (\<open>packages/adapters/src/pi-events.ts\<close>, \<open>pi-run-source.ts\<close>): the events of the agent
    runtime, their parser and translator, and the session with its pump and command loop as a
    step relation.
  \<^item> \<open>Notices\<close> (\<open>packages/db/src/notification-store.ts\<close>, \<open>packages/effect/src/notification-delivery.ts\<close>,
    \<open>apps/worker/src/run-notifications.ts\<close>): preferences, one delivery with its retries, and what is
    said of a run. \<open>Run_Jobs\<close> (\<open>apps/worker/src/jobs/run-execute.ts\<close>, \<open>lease-watchdog.ts\<close>,
    \<open>job-registry.ts\<close>): the delivery of a run and the watchdog's pass, with what other
    connections do before each statement; \<open>Watchdog_Facts\<close> has what an undisturbed pass does.
    \<open>Run_Execution\<close> (\<open>apps/worker/src/run-execution.ts\<close>, \<open>packages/effect/src/run-commands.ts\<close>,
    \<open>run-fence.ts\<close>): the drain of a session, a tick of the command pump, and the executor that
    settles a run inside its fence.
  \<^item> \<open>Api_Limits\<close> (\<open>apps/api/src/limits.ts\<close>): rate windows, stream slots and the middleware.
    \<open>Webhooks\<close> (\<open>packages/effect/src/webhook-signature.ts\<close>, \<open>packages/db/src/ingress.ts\<close>,
    \<open>apps/api/src/webhooks.ts\<close>): signatures, the delivery and state ledgers and the receiver.
  \<^item> \<open>Thread_Store\<close> (\<open>packages/db/src/messages.ts\<close>, \<open>run-creation.ts\<close>, \<open>run-event-sink.ts\<close>): the
    tables of a thread and their commands; \<open>Thread_Facts\<close> has their step relation and invariants,
    and \<open>Replay_Facts\<close> that the stored form of events is a homomorphism of the reducer.
    \<open>Routine_Store\<close> (\<open>routines.ts\<close>, the routine commands of \<open>run-creation.ts\<close>, and
    \<open>apps/worker/src/jobs/routine-schedule.ts\<close>): routines, occurrences and the scheduler's pass.
  \<^item> \<open>Ip_Address\<close> (Node's address tests and block list), \<open>Url_Safety\<close> and \<open>Safe_Fetch\<close>
    (\<open>packages/effect/src/url-safety.ts\<close>): which addresses may be dialled, and the fetch with its
    redirects.
  \<^item> \<open>Memory_Rules\<close> (\<open>memory-rules.ts\<close>) and \<open>Memory_Store\<close>
    (\<open>packages/db/src/memory-store.ts\<close>): the write and restore decisions and the tables they
    are persisted in. \<open>Compaction\<close>, \<open>Recall\<close> (\<open>compaction-policy.ts\<close>,
    \<open>recall-policy.ts\<close>).
  \<^item> \<open>Prompt\<close>, \<open>Prompt_Facts\<close> (\<open>prompt-composition.ts\<close>, \<open>ingestion.ts\<close>,
    \<open>run-context.ts\<close>).
  \<^item> \<open>Files\<close>, \<open>Egress\<close>, \<open>Dangerous_Actions\<close>, \<open>Messaging\<close>, \<open>Bot_Secrets\<close>,
    \<open>Deployment\<close>: the boundaries (\<open>files.ts\<close>, \<open>egress-policy.ts\<close>,
    \<open>dangerous-actions.ts\<close>, \<open>message-blocks.ts\<close>, \<open>messaging-policy.ts\<close>,
    \<open>bot-secrets.ts\<close>, \<open>signup-policy.ts\<close>, \<open>notification-policy.ts\<close>,
    \<open>disk-quota.ts\<close>, \<open>computer-network.ts\<close>).
  \<^item> \<open>Routine_Schedule\<close>, \<open>Routine_Facts\<close> (\<open>routine-schedule.ts\<close>), \<open>Backup_Policy\<close>
    (\<open>backup-policy.ts\<close>), \<open>Backoff\<close> (\<open>backoff.ts\<close>).

  \<^bold>\<open>Correspondence.\<close> An interface of the source is a record, a union a datatype, a function a
  definition of the same name. A thrown error and an \<open>{ ok: false }\<close> are both \<open>Inl\<close>; where
  the source has the two in one function the result is nested. A loop is a fold or a structural
  recursion. A mutable object (the progress tracker) is a record passed through. A database
  function of several statements takes what other writers do in between as arguments, or is
  split into the statements that the step relations interleave.

  \<^bold>\<open>What is shown.\<close>

  \<^item> \<open>Thread_Properties\<close>: a thread's snapshot depends only on the set of events received, not
    on order, duplication or batching, and equals the in-order fold once the stream is complete;
    snapshots stay well formed; runs keep their places, and statuses, decisions and messages never go back; a refused call
    never completes; the codec round trips.
  \<^item> \<open>Execution_Properties\<close>: the run row refines the status graph under concurrency, the lease
    excludes and fences out stale workers, a tool call has its effect at most once, a gate is
    resolved exactly once and in time, and the stall scan lists exactly the rows that the liveness
    assessment calls stuck, among those with a heartbeat, a lease ahead and no mark.
  \<^item> \<open>Memory_Properties\<close>: the revision history is complete and append-only under concurrent
    writers, agents never remove memory, the store records what the rules decide, limits, undo,
    compaction and recall.
  \<^item> \<open>Prompt_Properties\<close>: the frame of a prompt, and that no ingested text becomes an
    instruction.
  \<^item> \<open>Boundary_Properties\<close>: paths stay in the home, a URL is allowed exactly when a rule matches
    its host, what a safe verdict means for the classes a tool declared, secrets leave only in proper headers, networks are isolated.
  \<^item> \<open>Action_Properties\<close>: a tool call runs its handler at most once over the whole life of its run,
    waiting for an approval ends, and the guard's answer to every verdict: a dangerous call proceeds
    only on an operator's approval of the row stored under its id.
  \<^item> \<open>Computer_Properties\<close>: a computer lease excludes every other binding until it expires, a command is
    sent once and its result replayed, and a superseded worker's command is refused.
  \<^item> \<open>Worker_Properties\<close>: a delivery executes a run at most once and only under a lease it took, a
    dead worker's run is resumed or failed by one pass, and how the sweep of the computer leases
    can remove a live one. \<open>Notices\<close> shows that a settled run is announced once, and
    \<open>Run_Execution\<close> that a run whose work ended under its lease is settled, released and announced,
    that a superseded executor changes nothing, and that work that throws leaves its calls in flight.
  \<^item> \<open>Runtime_Properties\<close>: a session sends gapless events with at most one terminal event, last.
  \<^item> \<open>Limit_Properties\<close>: what a caller can get through in a window, and that stream slots are
    counted exactly. \<open>Ingress_Properties\<close>: a webhook reaches its handler only when signed and
    fresh, and once per delivery; what is signed is accepted, and what the signature leaves out.
  \<^item> \<open>Fetch_Properties\<close>: the address check equals its specification over networks, every dialled
    address of every hop is public, credentials are sent exactly until the first hop to another
    origin, the number of requests is
    bounded, and which answers end in an exception outside the promise.
  \<^item> \<open>Store_Properties\<close>: transcripts have no gaps, a submission is carried out once and answered
    again, steering is claimed once, and a replay of the event rows reduces to the JSON form of
    what the emitted events reduce to.
  \<^item> \<open>Routine_Properties\<close>: a slot is settled at most once under any interleaving, a due slot is
    settled in one pass whatever else is in its batch, and how an unlucky edit stops a routine for
    good.
  \<^item> \<open>Time_Properties\<close>: routines fire on their schedule and at the earliest match, delays are
    bounded, the backup alerts and the sealed envelope.

  \<^bold>\<open>Bounds.\<close> Every definition is total but the wait at an approval gate, a loop without a bound in
  the source, which is a partial function into options: \<open>None\<close> is a wait that never returns, and
  that it returns is a theorem. A fetch recurses on the redirects it has left, a notice on the
  attempts it has left. The two searches of the source that are bounded there
  have the source's bounds: the fire search looks \<open>MAX_FIRE_HORIZON_DAYS\<close> (eight years) ahead
  and the wall-clock walk \<open>MAX_WALL_CLOCK_SHIFT_MINUTES\<close>; running out is an error value there
  and here, and the theorem on the earliest fire says when it happens. No other fuel is used.

  \<^bold>\<open>Abstractions.\<close> Strings are lists of code units below 256. Numbers are exact rationals with
  NaN and the infinities; rounding of doubles is not modelled. Instants are integers in
  milliseconds, and in microseconds for the cursor of a routine; the instants of run, lease and
  approval rows, which the database keeps in microseconds, are compared in milliseconds on both
  sides, so a difference below one is not seen. \<open>jsonb\<close> columns keep a JSON value as it is: that
  Postgres refuses a string with a NUL, so that the statement fails, and reorders the keys of an
  object is not modelled, and the theorems on stored values are about values without NUL. A transaction is one
  function from tables to tables that answers an exception with the tables it was given; ids and
  nonces of concurrent commands are distinct as the database generates them. A fiber of a session
  runs without interruption between the points at which it waits. The keyed hash of a webhook,
  the digest of a state, the provider of notices, the executor and the API's router and handlers
  are arguments, and so is what other connections commit between two statements of a job. A
  statement that fails for lack of a connection is not modelled. For the fetch, the
  resolver, the socket's choice and the peers are an environment. The URL parser, the time zone database, the redaction of the logging package and
  the equality of Postgres' \<open>jsonb\<close> are arguments. SQL statements are atomic; ids and
  timestamps the database generates are arguments or left out where nothing reads them. Of the
  deletions by cascade those of clearing a thread are modelled.

  \<^bold>\<open>Not modelled.\<close> In the core package: the shaping of tool results (JSON text and UTF-8 byte
  counts), the MCP registry and the message texts of errors. In the database package: the
  remaining repositories (bots, model connections, files, computers, backups, usage), the schema
  and the migrations. The remaining effect services, the API besides its limits and webhooks, the
  worker besides its routine, delivery and watchdog jobs and its execution harness, the adapters besides the agent runtime
  boundary, the supervisor, contracts, user interfaces and test kit are glue around third-party
  services and libraries and are not modelled.
\<close>

end
